(* ===== verification/Nexus_Prelude.thy ===== *)
theory Nexus_Prelude
  imports Main "HOL-Library.AList" "HOL-Library.Multiset" "HOL-Library.Char_ord"
    "HOL-Library.List_Lexorder"
begin

text \<open>
  Shared vocabulary of the development: Python values and dictionaries, the string
  operations the code uses, bounded queues, and generic facts about them.

  \<^item> A Python \<open>dict\<close> is an association list in insertion order. \<open>d[k] = v\<close> is \<open>dput\<close>
    (an existing key keeps its position, a new key goes to the end), \<open>d.pop(k, None)\<close> is
    \<open>dpop\<close> and \<open>d.get(k)\<close> is \<^const>\<open>map_of\<close>.
  \<^item> A JSON-like value (a message payload, a configuration) is of type \<open>val\<close>;
    \<open>vget p k\<close> is \<open>p.get(k)\<close> and \<open>vget_or p k d\<close> is \<open>p.get(k, d)\<close>.
  \<^item> Strings are ASCII: \<open>py_upper\<close>, \<open>py_lower\<close> and \<open>py_strip\<close> are Python's
    \<open>upper\<close>, \<open>lower\<close>/\<open>casefold\<close> and \<open>strip\<close> on them, and the order of
    \<open>sorted\<close> is the lexicographic one.
\<close>

named_theorems dict_simps \<open>lookup laws of insertion-ordered dictionaries\<close>
named_theorems val_simps \<open>evaluation of Python values\<close>

section \<open>Insertion-ordered dictionaries\<close>

type_synonym ('k, 'v) dict = "('k \<times> 'v) list"

abbreviation dput :: "'k \<Rightarrow> 'v \<Rightarrow> ('k, 'v) dict \<Rightarrow> ('k, 'v) dict" where
  "dput \<equiv> AList.update"

abbreviation dpop :: "'k \<Rightarrow> ('k, 'v) dict \<Rightarrow> ('k, 'v) dict" where
  "dpop \<equiv> AList.delete"

abbreviation dkeys :: "('k, 'v) dict \<Rightarrow> 'k list" where
  "dkeys d \<equiv> map fst d"

abbreviation dvalues :: "('k, 'v) dict \<Rightarrow> 'v list" where
  "dvalues d \<equiv> map snd d"

definition dget_or :: "('k, 'v) dict \<Rightarrow> 'k \<Rightarrow> 'v \<Rightarrow> 'v" where
  "dget_or d k v = (case map_of d k of None \<Rightarrow> v | Some w \<Rightarrow> w)"

text \<open>\<open>d.setdefault(k, []).append(x)\<close>\<close>

definition dappend :: "'k \<Rightarrow> 'v \<Rightarrow> ('k, 'v list) dict \<Rightarrow> ('k, 'v list) dict" where
  "dappend k x d = dput k (dget_or d k [] @ [x]) d"

text \<open>\<open>{**d, **e}\<close>\<close>

definition dmerge :: "('k, 'v) dict \<Rightarrow> ('k, 'v) dict \<Rightarrow> ('k, 'v) dict" where
  "dmerge d e = fold (\<lambda>(k, v) acc. dput k v acc) e d"

lemma map_of_dput [simp, dict_simps]: "map_of (dput k v d) = (map_of d)(k \<mapsto> v)"
  by (rule update_conv')

lemma map_of_dpop [simp, dict_simps]: "map_of (dpop k d) = (map_of d)(k := None)"
  by (rule delete_conv')

lemma dkeys_dput [simp, dict_simps]: "fst ` set (dput k v d) = insert k (fst ` set d)"
  by (simp add: dom_update dom_map_of_conv_image_fst [symmetric])

lemma dkeys_dpop [simp, dict_simps]: "fst ` set (dpop k d) = fst ` set d - {k}"
  by (auto simp: AList.delete_eq)

lemma distinct_dput [simp, intro]: "distinct (dkeys d) \<Longrightarrow> distinct (dkeys (dput k v d))"
  by (rule distinct_update)

lemma distinct_dpop [simp, intro]: "distinct (dkeys d) \<Longrightarrow> distinct (dkeys (dpop k d))"
  by (rule distinct_delete)

lemma in_dkeys_iff: "k \<in> fst ` set d \<longleftrightarrow> map_of d k \<noteq> None"
  by (simp add: map_of_eq_None_iff)

lemma dget_or_dput [simp, dict_simps]:
  "dget_or (dput k v d) k' w = (if k = k' then v else dget_or d k' w)"
  by (simp add: dget_or_def)

lemma dget_or_dpop [simp, dict_simps]:
  "dget_or (dpop k d) k' w = (if k = k' then w else dget_or d k' w)"
  by (simp add: dget_or_def)

lemma dget_or_dappend [simp, dict_simps]:
  "dget_or (dappend k x d) k' [] = (if k = k' then dget_or d k' [] @ [x] else dget_or d k' [])"
  by (simp add: dappend_def)

lemma dkeys_dappend [simp, dict_simps]:
  "fst ` set (dappend k x d) = insert k (fst ` set d)"
  by (simp add: dappend_def)

lemma distinct_dappend [simp, intro]:
  "distinct (dkeys d) \<Longrightarrow> distinct (dkeys (dappend k x d))"
  by (simp add: dappend_def distinct_update)

lemma map_of_dmerge:
  assumes "distinct (dkeys e)"
  shows "map_of (dmerge d e) k = (case map_of e k of None \<Rightarrow> map_of d k | Some v \<Rightarrow> Some v)"
  using assms unfolding dmerge_def
proof (induction e arbitrary: d)
  case Nil
  then show ?case by simp
next
  case (Cons kv e)
  obtain k' v where kv: "kv = (k', v)" by (cases kv)
  with Cons.prems have "map_of e k' = None" and "distinct (dkeys e)"
    by (auto simp: map_of_eq_None_iff)
  with Cons.IH [of "dput k' v d"] kv show ?case by (simp split: option.splits)
qed

text \<open>The interface of a dictionary, as its clients use it.\<close>

locale dictionary =
  fixes emp :: 'd
    and put :: "'k \<Rightarrow> 'v \<Rightarrow> 'd \<Rightarrow> 'd"
    and pop :: "'k \<Rightarrow> 'd \<Rightarrow> 'd"
    and get :: "'d \<Rightarrow> 'k \<Rightarrow> 'v option"
    and wf :: "'d \<Rightarrow> bool"
  assumes get_emp: "get emp k = None"
    and get_put: "wf d \<Longrightarrow> get (put k v d) k' = (if k' = k then Some v else get d k')"
    and get_pop: "wf d \<Longrightarrow> get (pop k d) k' = (if k' = k then None else get d k')"
    and wf_emp: "wf emp"
    and wf_put: "wf d \<Longrightarrow> wf (put k v d)"
    and wf_pop: "wf d \<Longrightarrow> wf (pop k d)"
begin

lemma put_put_last: "wf d \<Longrightarrow> get (put k v (put k w d)) k' = get (put k v d) k'"
  by (simp add: get_put wf_put)

lemma put_put_comm:
  "wf d \<Longrightarrow> k1 \<noteq> k2 \<Longrightarrow> get (put k1 v (put k2 w d)) k = get (put k2 w (put k1 v d)) k"
  by (simp add: get_put wf_put)

lemma pop_put: "wf d \<Longrightarrow> get d k = None \<Longrightarrow> get (pop k (put k v d)) k' = get d k'"
  by (simp add: get_put get_pop wf_put)

lemma wf_fold_put: "wf d \<Longrightarrow> wf (fold (\<lambda>(k, v) acc. put k v acc) kvs d)"
  by (induction kvs arbitrary: d) (auto simp: wf_put)

end

interpretation pydict: dictionary "[]" dput dpop map_of "\<lambda>d. distinct (dkeys d)"
  by unfold_locales auto

section \<open>Strings\<close>

definition char_in :: "nat \<Rightarrow> nat \<Rightarrow> char \<Rightarrow> bool" where
  "char_in lo hi c \<longleftrightarrow> lo \<le> of_char c \<and> of_char c \<le> hi"

definition py_upper_char :: "char \<Rightarrow> char" where
  "py_upper_char c = (if char_in 97 122 c then char_of (of_char c - 32 :: nat) else c)"

definition py_lower_char :: "char \<Rightarrow> char" where
  "py_lower_char c = (if char_in 65 90 c then char_of (of_char c + 32 :: nat) else c)"

definition py_isspace :: "char \<Rightarrow> bool" where
  "py_isspace c \<longleftrightarrow> char_in 9 13 c \<or> char_in 28 32 c"

definition py_upper :: "string \<Rightarrow> string" where
  "py_upper s = map py_upper_char s"

definition py_lower :: "string \<Rightarrow> string" where
  "py_lower s = map py_lower_char s"

definition py_lstrip :: "string \<Rightarrow> string" where
  "py_lstrip s = dropWhile py_isspace s"

definition py_strip :: "string \<Rightarrow> string" where
  "py_strip s = rev (py_lstrip (rev (py_lstrip s)))"

definition py_startswith :: "string \<Rightarrow> string \<Rightarrow> bool" where
  "py_startswith s p \<longleftrightarrow> take (length p) s = p"

fun py_join :: "string \<Rightarrow> string list \<Rightarrow> string" where
  "py_join sep [] = []"
| "py_join sep [x] = x"
| "py_join sep (x # y # xs) = x @ sep @ py_join sep (y # xs)"

fun digits_of :: "nat \<Rightarrow> string" where
  "digits_of n = (if n < 10 then [char_of (48 + n)] else digits_of (n div 10) @ [char_of (48 + n mod 10)])"

declare digits_of.simps [simp del]

definition py_str_int :: "int \<Rightarrow> string" where
  "py_str_int i = (if i < 0 then ''-'' @ digits_of (nat (- i)) else digits_of (nat i))"

lemma py_upper_char_idem [simp]: "py_upper_char (py_upper_char c) = py_upper_char c"
  by (auto simp: py_upper_char_def char_in_def)

lemma py_upper_idem [simp]: "py_upper (py_upper s) = py_upper s"
  by (simp add: py_upper_def)

lemma py_isspace_upper [simp]: "py_isspace (py_upper_char c) \<longleftrightarrow> py_isspace c"
  by (auto simp: py_isspace_def py_upper_char_def char_in_def)

lemma py_lstrip_upper [simp]: "py_lstrip (py_upper s) = py_upper (py_lstrip s)"
  by (simp add: py_lstrip_def py_upper_def dropWhile_map comp_def)

lemma py_strip_upper [simp]: "py_strip (py_upper s) = py_upper (py_strip s)"
  by (metis py_lstrip_upper py_strip_def py_upper_def rev_map)

lemma py_lstrip_id: "s = [] \<or> \<not> py_isspace (hd s) \<Longrightarrow> py_lstrip s = s"
  by (cases s) (auto simp: py_lstrip_def)

lemma py_lstrip_hd: "py_lstrip s = [] \<or> \<not> py_isspace (hd (py_lstrip s))"
  unfolding py_lstrip_def using hd_dropWhile by blast

lemma py_strip_last: "py_strip s = [] \<or> \<not> py_isspace (last (py_strip s))"
  using py_lstrip_hd [of "rev (py_lstrip s)"] by (auto simp: py_strip_def last_rev)

lemma py_strip_hd: "py_strip s = [] \<or> \<not> py_isspace (hd (py_strip s))"
proof -
  define t where "t = py_lstrip s"
  have t: "t = [] \<or> \<not> py_isspace (hd t)" unfolding t_def by (rule py_lstrip_hd)
  define u where "u = py_lstrip (rev t)"
  obtain p where p: "rev t = p @ u"
    unfolding u_def py_lstrip_def by (metis takeWhile_dropWhile_id)
  then have "t = rev u @ rev p" by (metis rev_append rev_rev_ident)
  with t have "rev u = [] \<or> \<not> py_isspace (hd (rev u))" by (cases u rule: rev_cases) auto
  then show ?thesis by (simp add: py_strip_def u_def t_def)
qed

lemma py_strip_idem [simp]: "py_strip (py_strip s) = py_strip s"
proof -
  have "py_lstrip (py_strip s) = py_strip s"
    using py_strip_hd by (rule py_lstrip_id)
  moreover have "py_lstrip (rev (py_strip s)) = rev (py_strip s)"
    using py_strip_last [of s] by (intro py_lstrip_id) (auto simp: hd_rev)
  ultimately show ?thesis by (simp add: py_strip_def [of "py_strip s"])
qed

text \<open>Character classes by enumeration, for evaluation.\<close>

lemma char_in_set: "hi < 256 \<Longrightarrow> char_in lo hi c \<longleftrightarrow> c \<in> set (map char_of [lo..<Suc hi])"
proof -
  assume hi: "hi < 256"
  have "char_in lo hi c \<longleftrightarrow> of_char c \<in> set [lo..<Suc hi]" by (auto simp: char_in_def)
  also have "\<dots> \<longleftrightarrow> c \<in> set (map char_of [lo..<Suc hi])"
    using hi by (auto simp: image_iff intro!: bexI [of _ "of_char c"])
  finally show ?thesis .
qed

abbreviation uppercase :: string where
  "uppercase \<equiv> ''ABCDEFGHIJKLMNOPQRSTUVWXYZ''"

abbreviation lowercase :: string where
  "lowercase \<equiv> ''abcdefghijklmnopqrstuvwxyz''"

lemma char_ranges: "map char_of [65..<Suc 90] = uppercase" "map char_of [97..<Suc 122] = lowercase"
  "map char_of [48..<Suc 57] = ''0123456789''" "map char_of [9..<Suc 13] = [CHR 9, CHR 10, CHR 11, CHR 12, CHR 13]"
  "map char_of [28..<Suc 32] = [CHR 28, CHR 29, CHR 30, CHR 31, CHR 32]"
  by code_simp+

lemma char_in_ranges: "char_in 65 90 c \<longleftrightarrow> c \<in> set uppercase" "char_in 97 122 c \<longleftrightarrow> c \<in> set lowercase"
  "char_in 48 57 c \<longleftrightarrow> c \<in> set ''0123456789''" "char_in 9 13 c \<longleftrightarrow> c \<in> set [CHR 9, CHR 10, CHR 11, CHR 12, CHR 13]"
  "char_in 28 32 c \<longleftrightarrow> c \<in> set [CHR 28, CHR 29, CHR 30, CHR 31, CHR 32]"
  by (subst char_in_set; simp only: char_ranges; simp)+

lemma py_isspace_code [code]:
  "py_isspace c \<longleftrightarrow> c \<in> set ([CHR 9, CHR 10, CHR 11, CHR 12, CHR 13] @ [CHR 28, CHR 29, CHR 30, CHR 31, CHR 32])"
  by (simp only: py_isspace_def char_in_ranges set_append Un_iff)

lemma case_shift: "map (\<lambda>c. char_of (of_char c - 32 :: nat)) lowercase = uppercase" "map (\<lambda>c. char_of (of_char c + 32 :: nat)) uppercase = lowercase"
  by code_simp+

lemma py_upper_char_code [code]: "py_upper_char c = (case map_of (zip lowercase uppercase) c of None \<Rightarrow> c | Some d \<Rightarrow> d)"
  unfolding case_shift(1) [symmetric]
  by (simp only: map_of_zip_map py_upper_char_def char_in_ranges if_distrib option.case split: if_split, blast)

lemma py_lower_char_code [code]: "py_lower_char c = (case map_of (zip uppercase lowercase) c of None \<Rightarrow> c | Some d \<Rightarrow> d)"
  unfolding case_shift(2) [symmetric]
  by (simp only: map_of_zip_map py_lower_char_def char_in_ranges if_distrib option.case split: if_split, blast)

section \<open>Python values\<close>

datatype val =
    VNone
  | VBool bool
  | VInt int
  | VStr string
  | VList "val list"
  | VDict "(string \<times> val) list"

fun truthy :: "val \<Rightarrow> bool" where
  "truthy VNone = False"
| "truthy (VBool b) = b"
| "truthy (VInt i) = (i \<noteq> 0)"
| "truthy (VStr s) = (s \<noteq> [])"
| "truthy (VList xs) = (xs \<noteq> [])"
| "truthy (VDict d) = (d \<noteq> [])"

fun is_dict :: "val \<Rightarrow> bool" where
  "is_dict (VDict d) = True"
| "is_dict _ = False"

fun is_list :: "val \<Rightarrow> bool" where
  "is_list (VList xs) = True"
| "is_list _ = False"

fun is_str :: "val \<Rightarrow> bool" where
  "is_str (VStr s) = True"
| "is_str _ = False"

text \<open>Reading a value at the type the protocol gives the field.\<close>

fun as_dict :: "val \<Rightarrow> (string \<times> val) list" where
  "as_dict (VDict d) = d"
| "as_dict _ = []"

fun as_list :: "val \<Rightarrow> val list" where
  "as_list (VList xs) = xs"
| "as_list _ = []"

definition vget_or :: "val \<Rightarrow> string \<Rightarrow> val \<Rightarrow> val" where
  "vget_or p k d = (case map_of (as_dict p) k of None \<Rightarrow> d | Some v \<Rightarrow> v)"

definition vget :: "val \<Rightarrow> string \<Rightarrow> val" where
  "vget p k = vget_or p k VNone"

definition vput :: "string \<Rightarrow> val \<Rightarrow> val \<Rightarrow> val" where
  "vput k v p = VDict (dput k v (as_dict p))"

text \<open>\<open>str(v)\<close> of a scalar; the code applies it to scalars only.\<close>

fun py_str :: "val \<Rightarrow> string" where
  "py_str VNone = ''None''"
| "py_str (VBool b) = (if b then ''True'' else ''False'')"
| "py_str (VInt i) = py_str_int i"
| "py_str (VStr s) = s"
| "py_str (VList xs) = []"
| "py_str (VDict d) = []"

text \<open>\<open>v or w\<close>\<close>

definition py_or :: "val \<Rightarrow> val \<Rightarrow> val" where
  "py_or v w = (if truthy v then v else w)"

lemma vget_vput [simp, val_simps]: "vget (vput k v p) k' = (if k = k' then v else vget p k')"
  by (simp add: vget_def vget_or_def vput_def)

lemma vget_or_vput [simp, val_simps]:
  "vget_or (vput k v p) k' d = (if k = k' then v else vget_or p k' d)"
  by (simp add: vget_or_def vput_def)

lemma vget_VDict [val_simps]:
  "vget (VDict ((k, v) # d)) k' = (if k = k' then v else vget (VDict d) k')"
  "vget (VDict []) k' = VNone"
  by (simp_all add: vget_def vget_or_def)

lemma vget_or_VDict [val_simps]:
  "vget_or (VDict ((k, v) # d)) k' w = (if k = k' then v else vget_or (VDict d) k' w)"
  "vget_or (VDict []) k' w = w"
  by (simp_all add: vget_or_def)

section \<open>Exceptions\<close>

text \<open>An expression that can raise has a value of type \<open>py_error + 'a\<close>. A \<open>ValueError\<close> carries the
  fixed part of its message and the values formatted into it.\<close>

datatype py_error =
    ValueError string "val list"
  | KeyError val
  | TypeError
  | AttributeError
  | RuntimeError string

definition rbind :: "'e + 'a \<Rightarrow> ('a \<Rightarrow> 'e + 'b) \<Rightarrow> 'e + 'b" where
  "rbind r f = (case r of Inl e \<Rightarrow> Inl e | Inr x \<Rightarrow> f x)"

lemma rbind_simps [simp]: "rbind (Inl e) f = Inl e" "rbind (Inr x) f = f x"
  by (simp_all add: rbind_def)

lemma rbind_Inr_iff: "rbind r f = Inr y \<longleftrightarrow> (\<exists>x. r = Inr x \<and> f x = Inr y)"
  by (cases r) auto

fun rmap :: "('a \<Rightarrow> 'e + 'b) \<Rightarrow> 'a list \<Rightarrow> 'e + 'b list" where
  "rmap f [] = Inr []"
| "rmap f (x # xs) = rbind (f x) (\<lambda>y. rbind (rmap f xs) (\<lambda>ys. Inr (y # ys)))"

text \<open>A list comprehension whose condition can raise.\<close>

fun rfilter :: "('a \<Rightarrow> 'e + bool) \<Rightarrow> 'a list \<Rightarrow> 'e + 'a list" where
  "rfilter f [] = Inr []"
| "rfilter f (x # xs) =
     rbind (f x) (\<lambda>b. rbind (rfilter f xs) (\<lambda>ys. Inr (if b then x # ys else ys)))"

text \<open>\<open>all(f(x) for x in xs)\<close>: evaluation stops at the first falsity.\<close>

fun rall :: "('a \<Rightarrow> 'e + bool) \<Rightarrow> 'a list \<Rightarrow> 'e + bool" where
  "rall f [] = Inr True"
| "rall f (x # xs) = rbind (f x) (\<lambda>b. if b then rall f xs else Inr False)"

fun rfold :: "('a \<Rightarrow> 's \<Rightarrow> 'e + 's) \<Rightarrow> 'a list \<Rightarrow> 's \<Rightarrow> 'e + 's" where
  "rfold f [] s = Inr s"
| "rfold f (x # xs) s = rbind (f x s) (rfold f xs)"

lemma rfilter_Inr: "rfilter f xs = Inr ys \<Longrightarrow> ys = filter (\<lambda>x. f x = Inr True) xs"
  by (induction xs arbitrary: ys) (auto simp: rbind_Inr_iff)

lemma rmap_Inr: "rmap f xs = Inr ys \<longleftrightarrow> list_all2 (\<lambda>x y. f x = Inr y) xs ys"
  by (induction xs arbitrary: ys) (auto simp: rbind_Inr_iff list_all2_Cons1)

text \<open>An invariant of a fold that can raise.\<close>

lemma rfold_invariant:
  assumes "rfold f xs s = Inr s'" and "I [] s"
    and "\<And>pre x rest s t. xs = pre @ x # rest \<Longrightarrow> I pre s \<Longrightarrow> f x s = Inr t \<Longrightarrow> I (pre @ [x]) t"
  shows "I xs s'"
proof -
  have "rfold f todo s = Inr s' \<Longrightarrow> xs = pre @ todo \<Longrightarrow> I pre s \<Longrightarrow> I xs s'" for pre todo s
  proof (induction todo arbitrary: pre s)
    case (Cons x rest)
    then obtain t where t: "f x s = Inr t" "rfold f rest t = Inr s'" by (auto simp: rbind_Inr_iff)
    with Cons.prems assms(3) have "I (pre @ [x]) t" by blast
    with Cons.IH [OF t(2), of "pre @ [x]"] Cons.prems(2) show ?case by simp
  qed simp
  from this [of xs s "[]"] assms(1,2) show ?thesis by simp
qed

text \<open>\<open>v.get(k, d)\<close> and the iteration over \<open>v\<close>, of a value of any type.\<close>

definition py_get :: "val \<Rightarrow> string \<Rightarrow> val \<Rightarrow> py_error + val" where
  "py_get v k d = (if is_dict v then Inr (vget_or v k d) else Inl AttributeError)"

fun py_iter :: "val \<Rightarrow> py_error + val list" where
  "py_iter (VList xs) = Inr xs"
| "py_iter (VStr s) = Inr (map (\<lambda>c. VStr [c]) s)"
| "py_iter (VDict d) = Inr (map (\<lambda>(k, _). VStr k) d)"
| "py_iter _ = Inl TypeError"

text \<open>A value as an operand of integer addition.\<close>

fun py_int :: "val \<Rightarrow> py_error + int" where
  "py_int (VInt i) = Inr i"
| "py_int (VBool b) = Inr (of_bool b)"
| "py_int _ = Inl TypeError"

section \<open>Iteration over sets\<close>

text \<open>The order in which Python iterates over a set depends on the hash seed. It is given by an
  arbitrary ranking of the elements; every ranking yields each element exactly once.\<close>

definition set_iter :: "('a :: linorder \<Rightarrow> nat) \<Rightarrow> 'a list \<Rightarrow> 'a list" where
  "set_iter rank xs = sort_key rank (sort (remdups xs))"

lemma set_set_iter [simp]: "set (set_iter rank xs) = set xs"
  by (simp add: set_iter_def)

lemma distinct_set_iter [simp]: "distinct (set_iter rank xs)"
  by (simp add: set_iter_def distinct_sort)

section \<open>Bounded queues\<close>

text \<open>\<open>deque(maxlen=n)\<close>: appending to a full queue drops the oldest element.\<close>

definition deque_append :: "nat \<Rightarrow> 'a \<Rightarrow> 'a list \<Rightarrow> 'a list" where
  "deque_append n x q = drop (Suc (length q) - n) (q @ [x])"

locale bounded_queue =
  fixes bound :: nat
    and push :: "'a \<Rightarrow> 'q \<Rightarrow> 'q"
    and items :: "'q \<Rightarrow> 'a list"
    and start :: 'q
  assumes items_start: "items start = []"
    and items_push: "items (push x q) = drop (Suc (length (items q)) - bound) (items q @ [x])"
begin

lemma length_push: "length (items q) \<le> bound \<Longrightarrow> length (items (push x q)) \<le> bound"
  by (simp add: items_push)

lemma length_pushes: "length (items (fold push xs start)) \<le> bound"
proof (induction xs rule: rev_induct)
  case Nil
  then show ?case by (simp add: items_start)
next
  case (snoc x xs)
  then show ?case by (simp add: length_push)
qed

text \<open>After any run of pushes the queue holds exactly the newest \<open>bound\<close> elements, in order.\<close>

lemma items_pushes: "items (fold push xs start) = drop (length xs - bound) xs"
proof (induction xs rule: rev_induct)
  case Nil
  then show ?case by (simp add: items_start)
next
  case (snoc x xs)
  show ?case
  proof (cases "length xs < bound")
    case True
    with snoc show ?thesis by (simp add: items_push)
  next
    case False
    then have "length (drop (length xs - bound) xs) = bound" by simp
    with snoc False show ?thesis
      by (simp add: items_push Suc_diff_le)
  qed
qed

end

interpretation deque: bounded_queue n "deque_append n" "\<lambda>q. q" "[]" for n
  by unfold_locales (simp_all add: deque_append_def)

end
