(* ===== verification/Gateway_Parser.thy ===== *)
theory Gateway_Parser
  imports Nexus_Prelude "HOL-Library.Word"
begin

text \<open>
  The host side of the gateway's serial protocol, from
  \<^verbatim>\<open>sensor_manager/adapters/gateway_ble_client.py\<close>: the byte buffer of
  \<open>GatewaySerialClient\<close>, \<open>_extract_item\<close> with its resynchronisation and partial-block
  accounting, the read of one serial chunk, and \<open>reset_parser_diagnostics\<close>.

  A byte is an \<open>8 word\<close>. Two functions are parameters, because they are general decoders:
  \<open>dec\<close> is \<open>bytes.decode("utf-8", errors="replace")\<close> and \<open>raw\<close> is
  \<open>JSONDecoder().raw_decode\<close>, \<open>None\<close> standing for \<open>JSONDecodeError\<close>. Logging is left out.
\<close>

type_synonym byte = "8 word"

section \<open>State\<close>

record stream_frame =
  sensor_id :: byte
  gateway_timestamp_us :: nat
  payload :: "byte list"

datatype item = Json val | Frame stream_frame

record serial_read_capture =
  monotonic_ns :: nat
  read_len :: nat
  buffer_len_before :: nat
  buffer_len_after :: nat
  chunk :: "byte list"

record parser =
  ps_buf :: "byte list"
  ps_checksum_failures :: nat
  ps_resync_drop_bytes :: nat
  ps_resync_events :: nat
  ps_partial_json_waits :: nat
  ps_partial_frame_waits :: nat
  ps_partial_kind :: "string option"
  ps_partial_len :: int
  ps_read_history :: "serial_read_capture list"
  ps_read_sequence :: int
  ps_last_dumped :: int

definition SERIAL_READ_HISTORY_SIZE :: nat where
  "SERIAL_READ_HISTORY_SIZE = 12"

definition STREAM_FRAME_MAGIC :: "byte list" where
  "STREAM_FRAME_MAGIC = [0xA5, 0x5A]"

definition init_parser :: parser where
  "init_parser = \<lparr>ps_buf = [], ps_checksum_failures = 0, ps_resync_drop_bytes = 0,
     ps_resync_events = 0, ps_partial_json_waits = 0, ps_partial_frame_waits = 0,
     ps_partial_kind = None, ps_partial_len = -1, ps_read_history = [], ps_read_sequence = 0,
     ps_last_dumped = -1\<rparr>"

section \<open>Operations\<close>

fun json_objects_from_line :: "(string \<Rightarrow> val option) \<Rightarrow> string \<Rightarrow> val list" where
  "json_objects_from_line raw [] = []"
| "json_objects_from_line raw (c # cs) =
     (if c \<noteq> CHR ''{'' then json_objects_from_line raw cs
      else case raw (c # cs) of
             None \<Rightarrow> json_objects_from_line raw cs
           | Some obj \<Rightarrow> obj # json_objects_from_line raw cs)"

text \<open>\<open>bytearray.find\<close> of one byte and of the frame magic; \<open>None\<close> is \<open>-1\<close>.\<close>

fun find_byte :: "byte \<Rightarrow> byte list \<Rightarrow> nat option" where
  "find_byte c [] = None"
| "find_byte c (b # bs) = (if b = c then Some 0 else map_option Suc (find_byte c bs))"

fun find_magic :: "byte list \<Rightarrow> nat option" where
  "find_magic (a # b # bs) =
     (if [a, b] = STREAM_FRAME_MAGIC then Some 0 else map_option Suc (find_magic (b # bs)))"
| "find_magic _ = None"

text \<open>\<open>int.from_bytes(bs, "little")\<close>\<close>

fun le_nat :: "byte list \<Rightarrow> nat" where
  "le_nat [] = 0"
| "le_nat (b # bs) = unat b + 256 * le_nat bs"

definition clear_partial_block :: "parser \<Rightarrow> parser" where
  "clear_partial_block p = p\<lparr>ps_partial_kind := None, ps_partial_len := -1\<rparr>"

definition record_partial_block :: "string \<Rightarrow> parser \<Rightarrow> parser" where
  "record_partial_block kind p =
     (let current_len = int (length (ps_buf p)) in
      if ps_partial_kind p = Some kind \<and> ps_partial_len p = current_len then p
      else (let p = p\<lparr>ps_partial_kind := Some kind, ps_partial_len := current_len\<rparr> in
            if kind = ''json'' then p\<lparr>ps_partial_json_waits := Suc (ps_partial_json_waits p)\<rparr>
            else if kind = ''frame'' then p\<lparr>ps_partial_frame_waits := Suc (ps_partial_frame_waits p)\<rparr>
            else p))"

definition dump_serial_read_history :: "parser \<Rightarrow> parser" where
  "dump_serial_read_history p =
     (if ps_read_history p = [] then p
      else if ps_last_dumped p = ps_read_sequence p then p
      else p\<lparr>ps_last_dumped := ps_read_sequence p\<rparr>)"

definition drop_and_resync :: "nat \<Rightarrow> bool \<Rightarrow> parser \<Rightarrow> parser" where
  "drop_and_resync drop_len dump_read_history p =
     (if drop_len = 0 then clear_partial_block p
      else (let p = (if dump_read_history then dump_serial_read_history p else p) in
            clear_partial_block
              (p\<lparr>ps_resync_drop_bytes := ps_resync_drop_bytes p + drop_len,
                 ps_resync_events := Suc (ps_resync_events p),
                 ps_buf := drop drop_len (ps_buf p)\<rparr>)))"

text \<open>One pass through the body of the \<open>while self.buf\<close> loop: \<open>Again\<close> is \<open>continue\<close>, \<open>Yield r\<close> is
  \<open>return r\<close>.\<close>

datatype outcome = Again | Yield "item option"

definition frame_checksum :: "byte list \<Rightarrow> nat" where
  "frame_checksum bs = sum_list (map unat bs) mod 256"

definition parse_frame :: "parser \<Rightarrow> parser \<times> outcome" where
  "parse_frame p = (let buf = ps_buf p in
     if length buf < 14 then (record_partial_block ''frame'' p, Yield None)
     else if buf ! 2 \<noteq> 0x01 then (drop_and_resync 1 True p, Again)
     else (let payload_len = unat (buf ! 12); total_len = 13 + payload_len + 1 in
       if length buf < total_len then (record_partial_block ''frame'' p, Yield None)
       else if unat (buf ! (13 + payload_len)) \<noteq> frame_checksum (drop 2 (take (13 + payload_len) buf))
       then (let p = dump_serial_read_history (p\<lparr>ps_checksum_failures := Suc (ps_checksum_failures p)\<rparr>)
             in (drop_and_resync 1 False p, Again))
       else (clear_partial_block (p\<lparr>ps_buf := drop total_len buf\<rparr>),
             Yield (Some (Frame \<lparr>sensor_id = buf ! 3,
               gateway_timestamp_us = le_nat (drop 4 (take 12 buf)),
               payload = drop 13 (take (13 + payload_len) buf)\<rparr>)))))"

definition parse_json_line ::
  "(byte list \<Rightarrow> string) \<Rightarrow> (string \<Rightarrow> val option) \<Rightarrow> parser \<Rightarrow> parser \<times> outcome" where
  "parse_json_line dec raw p = (let buf = ps_buf p in
     case find_byte 0x0A buf of
       None \<Rightarrow> (record_partial_block ''json'' p, Yield None)
     | Some newline_index \<Rightarrow>
         (let line = py_strip (dec (take newline_index buf));
              p = clear_partial_block (p\<lparr>ps_buf := drop (Suc newline_index) buf\<rparr>)
          in if line = [] then (p, Again)
             else case json_objects_from_line raw line of
                    [] \<Rightarrow> (p, Again)
                  | msg # _ \<Rightarrow> (p, Yield (Some (Json msg)))))"

definition resync :: "parser \<Rightarrow> parser \<times> outcome" where
  "resync p = (let buf = ps_buf p in
     case (find_byte 0x7B buf, find_magic buf) of
       (None, None) \<Rightarrow>
         (let keep_len = (if drop (length buf - 1) buf = take 1 STREAM_FRAME_MAGIC then 1 else 0)
          in (drop_and_resync (length buf - keep_len) True p, Yield None))
     | (next_json, next_frame) \<Rightarrow>
         (let drop_len = (case (next_json, next_frame) of
                (Some i, Some j) \<Rightarrow> min i j | (Some i, None) \<Rightarrow> i | (None, Some j) \<Rightarrow> j | _ \<Rightarrow> 0)
          in if drop_len > 0 then (drop_and_resync drop_len True p, Again)
             else (clear_partial_block p, Again)))"

definition parse_step ::
  "(byte list \<Rightarrow> string) \<Rightarrow> (string \<Rightarrow> val option) \<Rightarrow> parser \<Rightarrow> parser \<times> outcome" where
  "parse_step dec raw p = (let buf = ps_buf p in
     if buf = [] then (p, Yield None)
     else if hd buf = 0x7B then parse_json_line dec raw p
     else if length buf \<ge> 2 \<and> take 2 buf = STREAM_FRAME_MAGIC then parse_frame p
     else resync p)"


section \<open>The extraction loop and the read loop\<close>

definition bytes_left :: "parser \<Rightarrow> nat" where
  "bytes_left p = length (ps_buf p)"

lemma buf_clear [simp]: "ps_buf (clear_partial_block p) = ps_buf p"
  by (simp add: clear_partial_block_def)

lemma buf_record [simp]: "ps_buf (record_partial_block kind p) = ps_buf p"
  by (simp add: record_partial_block_def Let_def)

lemma buf_dump [simp]: "ps_buf (dump_serial_read_history p) = ps_buf p"
  by (simp add: dump_serial_read_history_def)

lemma buf_drop [simp]: "ps_buf (drop_and_resync n d p) = drop n (ps_buf p)"
  by (simp add: drop_and_resync_def Let_def)

lemma find_byte_Some: "find_byte c b = Some i \<Longrightarrow> i < length b \<and> b ! i = c \<and> c \<notin> set (take i b)"
  by (induction b arbitrary: i) (auto split: if_splits)

lemma find_byte_None: "find_byte c b = None \<longleftrightarrow> c \<notin> set b"
  by (induction b) auto

lemma find_magic_Some:
  "find_magic b = Some i \<Longrightarrow> Suc i < length b \<and> take 2 (drop i b) = STREAM_FRAME_MAGIC"
  by (induction b arbitrary: i rule: find_magic.induct)
    (auto split: if_splits simp: take_Cons' numeral_2_eq_2)

lemma find_magic_0: "find_magic b = Some 0 \<Longrightarrow> length b \<ge> 2 \<and> take 2 b = STREAM_FRAME_MAGIC"
  using find_magic_Some [of b 0] by auto

lemma find_byte_0: "find_byte c b = Some 0 \<Longrightarrow> b \<noteq> [] \<and> hd b = c"
  using find_byte_Some [of c b 0] by (cases b) auto

lemma parse_frame_Again:
  "parse_frame p = (p', Again) \<Longrightarrow> bytes_left p' < bytes_left p"
  by (auto simp: parse_frame_def Let_def bytes_left_def split: if_splits)

lemma parse_json_line_Again:
  "parse_json_line dec raw p = (p', Again) \<Longrightarrow> bytes_left p' < bytes_left p"
  by (auto simp: parse_json_line_def Let_def bytes_left_def
      dest!: find_byte_Some split: option.splits if_splits list.splits)

lemma resync_Again:
  assumes "resync p = (p', Again)" and "hd (ps_buf p) \<noteq> 0x7B"
    and "\<not> (length (ps_buf p) \<ge> 2 \<and> take 2 (ps_buf p) = STREAM_FRAME_MAGIC)"
  shows "bytes_left p' < bytes_left p"
  using assms by (auto simp: resync_def Let_def bytes_left_def
      dest: find_byte_Some find_magic_Some find_byte_0 find_magic_0 split: option.splits if_splits)

text \<open>Every pass that continues the loop has removed at least one byte, so the loop ends.\<close>

lemma parse_step_Again:
  assumes "parse_step dec raw p = (p', Again)"
  shows "bytes_left p' < bytes_left p"
  using assms
  by (auto simp: parse_step_def Let_def split: if_splits
      dest: parse_frame_Again parse_json_line_Again resync_Again)

function extract_item ::
  "(byte list \<Rightarrow> string) \<Rightarrow> (string \<Rightarrow> val option) \<Rightarrow> parser \<Rightarrow> item option \<times> parser" where
  "extract_item dec raw p = (case parse_step dec raw p of
     (p', Again) \<Rightarrow> extract_item dec raw p'
   | (p', Yield r) \<Rightarrow> (r, p'))"
  by pat_completeness auto
termination
  by (relation "measure (\<lambda>(_, _, p). bytes_left p)") (auto intro: parse_step_Again [OF sym])

declare extract_item.simps [simp del]

lemma parse_step_Yield_Some:
  assumes "parse_step dec raw p = (p', Yield (Some i))"
  shows "bytes_left p' < bytes_left p"
proof -
  have "parse_frame p = (p', Yield (Some i)) \<Longrightarrow> bytes_left p' < bytes_left p"
    by (auto simp: parse_frame_def Let_def bytes_left_def split: if_splits)
  moreover have "parse_json_line dec raw p = (p', Yield (Some i)) \<Longrightarrow> bytes_left p' < bytes_left p"
    by (auto simp: parse_json_line_def Let_def bytes_left_def
        dest!: find_byte_Some split: option.splits if_splits list.splits)
  moreover have "resync p \<noteq> (p', Yield (Some i))"
    by (auto simp: resync_def Let_def split: option.splits if_splits)
  ultimately show ?thesis
    using assms by (auto simp: parse_step_def Let_def split: if_splits)
qed

lemma extract_item_Some:
  "extract_item dec raw p = (Some i, p') \<Longrightarrow> bytes_left p' < bytes_left p"
proof (induction dec raw p rule: extract_item.induct)
  case (1 dec raw p)
  obtain q out where step: "parse_step dec raw p = (q, out)" by fastforce
  show ?case
  proof (cases out)
    case Again
    with 1 step parse_step_Again [of dec raw p q] show ?thesis
      by (force simp: extract_item.simps [of dec raw p])
  next
    case (Yield r)
    with 1 step parse_step_Yield_Some [of dec raw p q] show ?thesis
      by (auto simp: extract_item.simps [of dec raw p])
  qed
qed

text \<open>The inner \<open>while True\<close> of \<open>_read_loop\<close>: items are taken until none is complete.\<close>

function drain ::
  "(byte list \<Rightarrow> string) \<Rightarrow> (string \<Rightarrow> val option) \<Rightarrow> parser \<Rightarrow> item list \<times> parser" where
  "drain dec raw p = (case extract_item dec raw p of
     (None, p') \<Rightarrow> ([], p')
   | (Some i, p') \<Rightarrow> (let (is, q) = drain dec raw p' in (i # is, q)))"
  by pat_completeness auto
termination
  by (relation "measure (\<lambda>(_, _, p). bytes_left p)") (auto intro: extract_item_Some [OF sym])

declare drain.simps [simp del]

text \<open>One iteration of the outer loop: a chunk read at time \<open>t\<close> is appended to the buffer and
  recorded in the history of \<open>SERIAL_READ_HISTORY_SIZE\<close> reads; an empty read only drains.\<close>

definition receive_chunk :: "nat \<times> byte list \<Rightarrow> parser \<Rightarrow> parser" where
  "receive_chunk tc p = (let (t, data) = tc in
     if data = [] then p
     else (let before = length (ps_buf p); buf = ps_buf p @ data in
       p\<lparr>ps_buf := buf, ps_read_sequence := ps_read_sequence p + 1,
         ps_read_history := deque_append SERIAL_READ_HISTORY_SIZE
           \<lparr>monotonic_ns = t, read_len = length data, buffer_len_before = before,
            buffer_len_after = length buf, chunk = data\<rparr> (ps_read_history p)\<rparr>))"

definition read_chunk ::
  "(byte list \<Rightarrow> string) \<Rightarrow> (string \<Rightarrow> val option) \<Rightarrow> nat \<times> byte list \<Rightarrow> parser
    \<Rightarrow> item list \<times> parser" where
  "read_chunk dec raw tc p = drain dec raw (receive_chunk tc p)"

fun read_chunks ::
  "(byte list \<Rightarrow> string) \<Rightarrow> (string \<Rightarrow> val option) \<Rightarrow> (nat \<times> byte list) list \<Rightarrow> parser
    \<Rightarrow> item list \<times> parser" where
  "read_chunks dec raw [] p = ([], p)"
| "read_chunks dec raw (tc # tcs) p =
     (let (is, p) = read_chunk dec raw tc p; (js, p) = read_chunks dec raw tcs p in (is @ js, p))"

definition reset_parser_diagnostics :: "parser \<Rightarrow> parser" where
  "reset_parser_diagnostics p =
     (clear_partial_block (p\<lparr>ps_checksum_failures := 0, ps_resync_drop_bytes := 0,
        ps_resync_events := 0, ps_partial_json_waits := 0, ps_partial_frame_waits := 0\<rparr>))
     \<lparr>ps_read_history := [], ps_read_sequence := 0, ps_last_dumped := -1\<rparr>"

end
