(* ===== verification/Gateway_Parser_Props.thy ===== *)
theory Gateway_Parser_Props
  imports Gateway_Parser
begin

text \<open>
  Correctness of the gateway's serial parser. The specification is \<open>pdrain\<close>, a pure function
  from the bytes of the buffer to the events they stand for and the bytes that are left; the
  locale \<open>incremental_decoder\<close> says when such a function can be fed in pieces. The code's loop
  is shown to produce the items, the left-over bytes and the drop and checksum counters of the
  specification, so that the chunks in which the serial driver hands over the bytes do not matter.
\<close>

section \<open>Decoders that are fed in pieces\<close>

locale incremental_decoder =
  fixes step :: "'b list \<Rightarrow> (nat \<times> 'o list) option"
    and run :: "'b list \<Rightarrow> 'o list \<times> 'b list"
  assumes step_consumes: "step b = Some (n, out) \<Longrightarrow> 0 < n \<and> n \<le> length b"
    and run_None: "step b = None \<Longrightarrow> run b = ([], b)"
    and run_Some: "step b = Some (n, out) \<Longrightarrow>
      run b = (out @ fst (run (drop n b)), snd (run (drop n b)))"
    and step_append: "step b = Some (n, out) \<Longrightarrow>
      run (b @ c) = (out @ fst (run (drop n b @ c)), snd (run (drop n b @ c)))"
begin

lemma run_append:
  "run (b @ c) = (fst (run b) @ fst (run (snd (run b) @ c)), snd (run (snd (run b) @ c)))"
proof (induction b rule: length_induct)
  case (1 b)
  show ?case
  proof (cases "step b")
    case None
    then show ?thesis by (simp add: run_None)
  next
    case (Some no)
    then obtain n out where step: "step b = Some (n, out)" by (cases no) auto
    then have "length (drop n b) < length b" using step_consumes by fastforce
    with 1 have "run (drop n b @ c) = (fst (run (drop n b)) @ fst (run (snd (run (drop n b)) @ c)),
        snd (run (snd (run (drop n b)) @ c)))" by blast
    with step_append [OF step, of c] run_Some [OF step] show ?thesis by simp
  qed
qed

lemma run_rest: "step (snd (run b)) = None"
proof (induction b rule: length_induct)
  case (1 b)
  show ?case
  proof (cases "step b")
    case None
    then show ?thesis by (simp add: run_None)
  next
    case (Some no)
    then obtain n out where step: "step b = Some (n, out)" by (cases no) auto
    then have "length (drop n b) < length b" using step_consumes by fastforce
    with 1 run_Some [OF step] show ?thesis by simp
  qed
qed

lemma run_rest_idem: "run (snd (run b)) = ([], snd (run b))"
  by (rule run_None) (rule run_rest)

end

section \<open>The specification of the parser\<close>

datatype pevent = Item item | Dropped byte | BadChecksum

fun lead_garbage :: "byte list \<Rightarrow> nat" where
  "lead_garbage [] = 0"
| "lead_garbage [x] = (if x = 0x7B \<or> x = 0xA5 then 0 else 1)"
| "lead_garbage (x # y # bs) =
     (if x = 0x7B \<or> [x, y] = STREAM_FRAME_MAGIC then 0 else Suc (lead_garbage (y # bs)))"

definition has_magic :: "byte list \<Rightarrow> bool" where
  "has_magic b \<longleftrightarrow> length b \<ge> 2 \<and> take 2 b = STREAM_FRAME_MAGIC"

definition line_events ::
  "(byte list \<Rightarrow> string) \<Rightarrow> (string \<Rightarrow> val option) \<Rightarrow> byte list \<Rightarrow> pevent list" where
  "line_events dec raw line = (case json_objects_from_line raw (py_strip (dec line)) of
     [] \<Rightarrow> [] | msg # _ \<Rightarrow> [Item (Json msg)])"

definition frame_of :: "byte list \<Rightarrow> stream_frame" where
  "frame_of b = \<lparr>sensor_id = b ! 3, gateway_timestamp_us = le_nat (drop 4 (take 12 b)),
     payload = drop 13 (take (13 + unat (b ! 12)) b)\<rparr>"

definition frame_len :: "byte list \<Rightarrow> nat" where
  "frame_len b = 14 + unat (b ! 12)"

definition checksum_ok :: "byte list \<Rightarrow> bool" where
  "checksum_ok b \<longleftrightarrow>
     unat (b ! (13 + unat (b ! 12))) = frame_checksum (drop 2 (take (13 + unat (b ! 12)) b))"

definition pstep ::
  "(byte list \<Rightarrow> string) \<Rightarrow> (string \<Rightarrow> val option) \<Rightarrow> byte list \<Rightarrow> (nat \<times> pevent list) option" where
  "pstep dec raw b =
     (if b = [] then None
      else if hd b = 0x7B then
        map_option (\<lambda>i. (Suc i, line_events dec raw (take i b))) (find_byte 0x0A b)
      else if has_magic b then
        (if length b < 14 then None
         else if b ! 2 \<noteq> 1 then Some (1, [Dropped (hd b)])
         else if length b < frame_len b then None
         else if \<not> checksum_ok b then Some (1, [BadChecksum, Dropped (hd b)])
         else Some (frame_len b, [Item (Frame (frame_of b))]))
      else if lead_garbage b = 0 then None
      else Some (lead_garbage b, map Dropped (take (lead_garbage b) b)))"

lemma lead_garbage_le: "lead_garbage b \<le> length b"
  by (induction b rule: lead_garbage.induct) auto

lemma pstep_consumes: "pstep dec raw b = Some (n, out) \<Longrightarrow> 0 < n \<and> n \<le> length b"
  by (auto simp: pstep_def frame_len_def lead_garbage_le Suc_le_eq
      dest: find_byte_Some split: if_splits)

function pdrain ::
  "(byte list \<Rightarrow> string) \<Rightarrow> (string \<Rightarrow> val option) \<Rightarrow> byte list \<Rightarrow> pevent list \<times> byte list" where
  "pdrain dec raw b = (case pstep dec raw b of
     None \<Rightarrow> ([], b)
   | Some (n, out) \<Rightarrow> (let (es, r) = pdrain dec raw (drop n b) in (out @ es, r)))"
  by pat_completeness auto
termination
  by (relation "measure (\<lambda>(_, _, b). length b)") (auto dest!: pstep_consumes [OF sym] pstep_consumes)

declare pdrain.simps [simp del]

lemma pdrain_None: "pstep dec raw b = None \<Longrightarrow> pdrain dec raw b = ([], b)"
  by (simp add: pdrain.simps)

lemma pdrain_Some: "pstep dec raw b = Some (n, out) \<Longrightarrow> pdrain dec raw b =
    (out @ fst (pdrain dec raw (drop n b)), snd (pdrain dec raw (drop n b)))"
  by (simp add: pdrain.simps [of dec raw b] split: prod.splits)

lemma find_byte_append:
  "find_byte c b = Some i \<Longrightarrow> find_byte c (b @ d) = Some i"
  by (induction b arbitrary: i) (auto split: if_splits)

lemma lead_garbage_Cons:
  "x \<noteq> 0x7B \<Longrightarrow> x \<noteq> 0xA5 \<Longrightarrow> lead_garbage (x # c) = Suc (lead_garbage c)"
  by (cases c) (auto simp: STREAM_FRAME_MAGIC_def)

lemma lead_garbage_append:
  "lead_garbage (b @ c) = lead_garbage b + lead_garbage (drop (lead_garbage b) b @ c)"
  by (induction b rule: lead_garbage.induct) (auto simp: lead_garbage_Cons)

lemma has_magic_append: "has_magic b \<Longrightarrow> has_magic (b @ c)"
  by (auto simp: has_magic_def)

lemma lead_garbage_magic: "has_magic b \<Longrightarrow> lead_garbage b = 0"
  by (induction b rule: lead_garbage.induct) (auto simp: has_magic_def)

lemma lead_garbage_json: "b \<noteq> [] \<Longrightarrow> hd b = 0x7B \<Longrightarrow> lead_garbage b = 0"
  by (induction b rule: lead_garbage.induct) auto

lemma take_lead_append:
  "take (lead_garbage (b @ c)) (b @ c) = take (lead_garbage b) b
     @ take (lead_garbage (drop (lead_garbage b) b @ c)) (drop (lead_garbage b) b @ c)"
  using lead_garbage_le [of b] by (subst lead_garbage_append) (simp add: take_add add.commute)

text \<open>Garbage is dropped one byte event at a time, whatever the number of passes.\<close>

lemma pdrain_garbage:
  "pdrain dec raw b = (map Dropped (take (lead_garbage b) b)
     @ fst (pdrain dec raw (drop (lead_garbage b) b)), snd (pdrain dec raw (drop (lead_garbage b) b)))"
proof (cases "lead_garbage b = 0")
  case False
  then have "pstep dec raw b = Some (lead_garbage b, map Dropped (take (lead_garbage b) b))"
    using lead_garbage_json [of b] lead_garbage_magic [of b] by (cases b) (auto simp: pstep_def)
  then show ?thesis by (rule pdrain_Some)
qed simp

lemma pstep_append:
  assumes step: "pstep dec raw b = Some (n, out)"
  shows "pdrain dec raw (b @ c) = (out @ fst (pdrain dec raw (drop n b @ c)),
    snd (pdrain dec raw (drop n b @ c)))"
proof (cases "lead_garbage b = 0")
  case True
  have ne: "b \<noteq> []" using step by (auto simp: pstep_def)
  have nth: "i < length b \<Longrightarrow> (b @ c) ! i = b ! i" for i by (simp add: nth_append)
  have "pstep dec raw (b @ c) = Some (n, out)"
  proof (cases "hd b = 0x7B")
    case True
    with step ne show ?thesis
      by (auto simp: pstep_def find_byte_append) (auto dest!: find_byte_Some)
  next
    case False
    with step ne True have magic: "has_magic b" and len: "14 \<le> length b"
      by (auto simp: pstep_def split: if_splits)
    from len have n12: "(b @ c) ! 12 = b ! 12" and n2: "(b @ c) ! 2 = b ! 2"
      and n3: "(b @ c) ! 3 = b ! 3" by (simp_all add: nth_append)
    have "frame_len b \<le> length b \<Longrightarrow> checksum_ok (b @ c) = checksum_ok b"
      by (simp add: checksum_ok_def frame_len_def n12 nth_append)
    moreover have "frame_len b \<le> length b \<Longrightarrow> frame_of (b @ c) = frame_of b"
      using len by (simp add: frame_of_def frame_len_def n12 n3)
    moreover have "frame_len (b @ c) = frame_len b" by (simp add: frame_len_def n12)
    ultimately show ?thesis
      using step ne False magic has_magic_append [OF magic, of c] n2
      by (auto simp: pstep_def split: if_splits)
  qed
  moreover have "n \<le> length b" using pstep_consumes [OF step] by simp
  ultimately show ?thesis using pdrain_Some [of dec raw "b @ c" n out] by simp
next
  case False
  then have n: "n = lead_garbage b" and out: "out = map Dropped (take (lead_garbage b) b)"
    using step lead_garbage_json [of b] lead_garbage_magic [of b] by (auto simp: pstep_def split: if_splits)
  have le: "n \<le> length b" using pstep_consumes [OF step] by simp
  show ?thesis
    using pdrain_garbage [of dec raw "b @ c"] pdrain_garbage [of dec raw "drop n b @ c"] le
    by (simp add: n out take_lead_append lead_garbage_append [of b c] add.commute take_add [of "lead_garbage b" _ b])
qed

interpretation gw: incremental_decoder "pstep dec raw" "pdrain dec raw" for dec raw
  by unfold_locales (auto dest: pstep_consumes pdrain_None pdrain_Some pstep_append)


section \<open>The code follows the specification\<close>

fun items_of :: "pevent list \<Rightarrow> item list" where
  "items_of [] = []"
| "items_of (Item i # es) = i # items_of es"
| "items_of (_ # es) = items_of es"

fun dropped_of :: "pevent list \<Rightarrow> byte list" where
  "dropped_of [] = []"
| "dropped_of (Dropped b # es) = b # dropped_of es"
| "dropped_of (_ # es) = dropped_of es"

definition moves :: "parser \<Rightarrow> pevent list \<Rightarrow> parser \<Rightarrow> bool" where
  "moves p es p' \<longleftrightarrow>
     ps_resync_drop_bytes p' = ps_resync_drop_bytes p + length (dropped_of es) \<and>
     ps_checksum_failures p' = ps_checksum_failures p + count_list es BadChecksum"

lemma items_of_append [simp]: "items_of (es @ fs) = items_of es @ items_of fs"
  by (induction es rule: items_of.induct) auto

lemma dropped_of_append [simp]: "dropped_of (es @ fs) = dropped_of es @ dropped_of fs"
  by (induction es rule: dropped_of.induct) auto

lemma of_map_Dropped [simp]:
  "items_of (map Dropped bs) = []" "dropped_of (map Dropped bs) = bs"
  "count_list (map Dropped bs) BadChecksum = 0"
  by (induction bs) auto

lemma moves_refl [simp]: "moves p [] p"
  by (simp add: moves_def)

lemma moves_trans: "moves p es q \<Longrightarrow> moves q fs r \<Longrightarrow> moves p (es @ fs) r"
  by (simp add: moves_def)

lemma counters_clear [simp]:
  "ps_resync_drop_bytes (clear_partial_block p) = ps_resync_drop_bytes p"
  "ps_checksum_failures (clear_partial_block p) = ps_checksum_failures p"
  by (simp_all add: clear_partial_block_def)

lemma counters_record [simp]:
  "ps_resync_drop_bytes (record_partial_block k p) = ps_resync_drop_bytes p"
  "ps_checksum_failures (record_partial_block k p) = ps_checksum_failures p"
  by (simp_all add: record_partial_block_def Let_def)

lemma counters_dump [simp]:
  "ps_resync_drop_bytes (dump_serial_read_history p) = ps_resync_drop_bytes p"
  "ps_checksum_failures (dump_serial_read_history p) = ps_checksum_failures p"
  by (simp_all add: dump_serial_read_history_def)

lemma counters_drop [simp]:
  "ps_resync_drop_bytes (drop_and_resync n d p) = ps_resync_drop_bytes p + n"
  "ps_checksum_failures (drop_and_resync n d p) = ps_checksum_failures p"
  by (simp_all add: drop_and_resync_def Let_def)

lemma counters_receive [simp]:
  "ps_resync_drop_bytes (receive_chunk tc p) = ps_resync_drop_bytes p"
  "ps_checksum_failures (receive_chunk tc p) = ps_checksum_failures p"
  "ps_buf (receive_chunk tc p) = ps_buf p @ snd tc"
  by (simp_all add: receive_chunk_def Let_def split: prod.splits)

text \<open>The distance to the next place where a message can start, as the code computes it.\<close>

lemma find_Cons:
  "find_byte c (x # b) = (if x = c then Some 0 else map_option Suc (find_byte c b))"
  "b \<noteq> [] \<Longrightarrow> find_magic (x # b) =
     (if [x, hd b] = STREAM_FRAME_MAGIC then Some 0 else map_option Suc (find_magic b))"
  by (cases b; simp)+

lemma lead_garbage_None:
  "find_byte 0x7B b = None \<Longrightarrow> find_magic b = None \<Longrightarrow> b \<noteq> [] \<Longrightarrow>
   lead_garbage b = length b - (if drop (length b - 1) b = take 1 STREAM_FRAME_MAGIC then 1 else 0)"
  by (induction b rule: lead_garbage.induct)
    (auto simp: STREAM_FRAME_MAGIC_def split: if_splits)

lemma lead_garbage_Some:
  "find_byte 0x7B b \<noteq> None \<or> find_magic b \<noteq> None \<Longrightarrow>
   lead_garbage b = (case (find_byte 0x7B b, find_magic b) of
     (Some i, Some j) \<Rightarrow> min i j | (Some i, None) \<Rightarrow> i | (None, Some j) \<Rightarrow> j | _ \<Rightarrow> 0)"
  by (induction b rule: lead_garbage.induct)
    (auto simp: min_def split: option.splits if_splits)

lemma pstep_garbage:
  "b \<noteq> [] \<Longrightarrow> hd b \<noteq> 0x7B \<Longrightarrow> \<not> has_magic b \<Longrightarrow> lead_garbage b \<noteq> 0 \<Longrightarrow>
   pstep dec raw b = Some (lead_garbage b, map Dropped (take (lead_garbage b) b))"
  by (simp add: pstep_def)

lemma resync_moves:
  assumes "b \<noteq> []" and "hd b \<noteq> 0x7B" and "\<not> has_magic b" and b: "ps_buf p = b"
    and r: "resync p = (p', out)"
  shows "ps_buf p' = drop (lead_garbage b) b"
    and "moves p (map Dropped (take (lead_garbage b) b)) p'"
    and "out = Again \<Longrightarrow> lead_garbage b \<noteq> 0"
    and "out = Yield v \<Longrightarrow> v = None \<and> drop (lead_garbage b) b \<in> {[], [0xA5]}"
proof -
  have le: "lead_garbage b \<le> length b" by (rule lead_garbage_le)
  have nz: "find_byte 0x7B b \<noteq> Some 0" "find_magic b \<noteq> Some 0"
    using assms(2,3) find_byte_0 find_magic_0 by (auto simp: has_magic_def)
  show "ps_buf p' = drop (lead_garbage b) b"
    using r assms(1) nz lead_garbage_None [of b] lead_garbage_Some [of b]
    by (auto simp: resync_def b Let_def split: option.splits if_splits)
  show "moves p (map Dropped (take (lead_garbage b) b)) p'"
    using r assms(1) nz lead_garbage_None [of b] lead_garbage_Some [of b] le
    by (auto simp: resync_def b Let_def moves_def split: option.splits if_splits)
  show "lead_garbage b \<noteq> 0" if "out = Again"
    using r that nz lead_garbage_Some [of b]
    by (auto simp: resync_def b Let_def split: option.splits if_splits)
  show "v = None \<and> drop (lead_garbage b) b \<in> {[], [0xA5]}" if "out = Yield v"
    using r that assms(1) lead_garbage_None [of b]
    by (auto simp: resync_def b Let_def STREAM_FRAME_MAGIC_def split: option.splits if_splits)
qed

lemma pstep_A5: "b \<in> {[], [0xA5]} \<Longrightarrow> pstep dec raw b = None"
  by (auto simp: pstep_def has_magic_def)

text \<open>One pass of the loop is one step of the specification, or waits where it waits.\<close>

lemma parse_step_Again_spec:
  assumes "parse_step dec raw p = (p', Again)"
  shows "\<exists>n es. pstep dec raw (ps_buf p) = Some (n, es) \<and> ps_buf p' = drop n (ps_buf p) \<and>
    items_of es = [] \<and> moves p es p'"
proof -
  let ?b = "ps_buf p"
  consider (json) "?b \<noteq> []" "hd ?b = 0x7B" | (frame) "?b \<noteq> []" "hd ?b \<noteq> 0x7B" "has_magic ?b"
    | (other) "?b \<noteq> []" "hd ?b \<noteq> 0x7B" "\<not> has_magic ?b"
    using assms by (cases "?b = []") (auto simp: parse_step_def)
  then show ?thesis
  proof cases
    case json
    with assms show ?thesis
      by (auto simp: parse_step_def parse_json_line_def pstep_def line_events_def Let_def moves_def
          split: option.splits if_splits list.splits)
  next
    case frame
    with assms have "parse_frame p = (p', Again)"
      by (simp add: parse_step_def has_magic_def)
    with frame show ?thesis
      by (auto simp: parse_frame_def pstep_def frame_len_def checksum_ok_def Let_def moves_def
          split: if_splits)
  next
    case other
    with assms have "resync p = (p', Again)"
      by (auto simp: parse_step_def has_magic_def)
    from resync_moves [OF other refl this] pstep_garbage [OF other] show ?thesis by auto
  qed
qed

lemma parse_step_Yield_Some_spec:
  assumes "parse_step dec raw p = (p', Yield (Some i))"
  shows "\<exists>n es. pstep dec raw (ps_buf p) = Some (n, es) \<and> ps_buf p' = drop n (ps_buf p) \<and>
    items_of es = [i] \<and> moves p es p'"
proof -
  let ?b = "ps_buf p"
  consider (json) "?b \<noteq> []" "hd ?b = 0x7B" | (frame) "?b \<noteq> []" "hd ?b \<noteq> 0x7B" "has_magic ?b"
    | (other) "?b \<noteq> []" "hd ?b \<noteq> 0x7B" "\<not> has_magic ?b"
    using assms by (cases "?b = []") (auto simp: parse_step_def)
  then show ?thesis
  proof cases
    case json
    with assms show ?thesis
      by (auto simp: parse_step_def parse_json_line_def pstep_def line_events_def Let_def moves_def
          split: option.splits if_splits list.splits)
  next
    case frame
    with assms have "parse_frame p = (p', Yield (Some i))"
      by (simp add: parse_step_def has_magic_def)
    with frame show ?thesis
      by (auto simp: parse_frame_def pstep_def frame_len_def checksum_ok_def frame_of_def Let_def
          moves_def split: if_splits)
  next
    case other
    with assms have "resync p = (p', Yield (Some i))"
      by (auto simp: parse_step_def has_magic_def)
    from resync_moves(4) [OF other refl this, of "Some i"] show ?thesis by simp
  qed
qed

lemma parse_step_Yield_None_spec:
  assumes "parse_step dec raw p = (p', Yield None)"
  shows "\<exists>es. pdrain dec raw (ps_buf p) = (es, ps_buf p') \<and> items_of es = [] \<and> moves p es p'"
proof -
  let ?b = "ps_buf p"
  consider (empty) "?b = []" | (json) "?b \<noteq> []" "hd ?b = 0x7B"
    | (frame) "?b \<noteq> []" "hd ?b \<noteq> 0x7B" "has_magic ?b"
    | (other) "?b \<noteq> []" "hd ?b \<noteq> 0x7B" "\<not> has_magic ?b" by blast
  then show ?thesis
  proof cases
    case empty
    with assms show ?thesis by (auto simp: parse_step_def pdrain_None pstep_def)
  next
    case json
    with assms have "pstep dec raw ?b = None \<and> ps_buf p' = ?b \<and> moves p [] p'"
      by (auto simp: parse_step_def parse_json_line_def pstep_def Let_def moves_def
          split: option.splits if_splits list.splits)
    then show ?thesis by (auto simp: pdrain_None)
  next
    case frame
    with assms have "parse_frame p = (p', Yield None)"
      by (simp add: parse_step_def has_magic_def)
    with frame have "pstep dec raw ?b = None \<and> ps_buf p' = ?b \<and> moves p [] p'"
      by (auto simp: parse_frame_def pstep_def frame_len_def Let_def moves_def split: if_splits)
    then show ?thesis by (auto simp: pdrain_None)
  next
    case other
    with assms have "resync p = (p', Yield None)"
      by (auto simp: parse_step_def has_magic_def)
    note r = resync_moves [OF other refl this]
    from r(4) have "pdrain dec raw (drop (lead_garbage ?b) ?b) = ([], drop (lead_garbage ?b) ?b)"
      by (intro pdrain_None pstep_A5) auto
    with r(1,2) pdrain_garbage [of dec raw ?b] show ?thesis by auto
  qed
qed

lemma extract_item_spec:
  "extract_item dec raw p = (r, p') \<Longrightarrow> \<exists>es. moves p es p' \<and>
     (case r of
        None \<Rightarrow> pdrain dec raw (ps_buf p) = (es, ps_buf p') \<and> items_of es = []
      | Some i \<Rightarrow> fst (pdrain dec raw (ps_buf p)) = es @ fst (pdrain dec raw (ps_buf p')) \<and>
                 snd (pdrain dec raw (ps_buf p)) = snd (pdrain dec raw (ps_buf p')) \<and> items_of es = [i])"
proof (induction dec raw p rule: extract_item.induct)
  case (1 dec raw p)
  obtain q out where step: "parse_step dec raw p = (q, out)" by fastforce
  show ?case
  proof (cases out)
    case Again
    with step obtain n es where a: "pstep dec raw (ps_buf p) = Some (n, es)"
      "ps_buf q = drop n (ps_buf p)" "items_of es = []" "moves p es q"
      using parse_step_Again_spec by blast
    from 1 step Again obtain fs where "moves q fs p'" "case r of
        None \<Rightarrow> pdrain dec raw (ps_buf q) = (fs, ps_buf p') \<and> items_of fs = []
      | Some i \<Rightarrow> fst (pdrain dec raw (ps_buf q)) = fs @ fst (pdrain dec raw (ps_buf p')) \<and>
         snd (pdrain dec raw (ps_buf q)) = snd (pdrain dec raw (ps_buf p')) \<and> items_of fs = [i]"
      by (fastforce simp: extract_item.simps [of dec raw p])
    with a pdrain_Some [OF a(1)] show ?thesis
      by (intro exI [of _ "es @ fs"]) (auto intro: moves_trans split: option.splits)
  next
    case (Yield v)
    with 1 step have v: "r = v" "p' = q" by (auto simp: extract_item.simps [of dec raw p])
    show ?thesis
    proof (cases v)
      case None
      with step Yield v parse_step_Yield_None_spec [of dec raw p q] show ?thesis by auto
    next
      case (Some i)
      with step Yield obtain n es where a: "pstep dec raw (ps_buf p) = Some (n, es)"
        "ps_buf q = drop n (ps_buf p)" "items_of es = [i]" "moves p es q"
        using parse_step_Yield_Some_spec by blast
      with pdrain_Some [OF a(1)] v Some show ?thesis by auto
    qed
  qed
qed

lemma drain_spec:
  "drain dec raw p = (is, p') \<Longrightarrow>
   is = items_of (fst (pdrain dec raw (ps_buf p))) \<and> ps_buf p' = snd (pdrain dec raw (ps_buf p)) \<and>
   moves p (fst (pdrain dec raw (ps_buf p))) p'"
proof (induction dec raw p arbitrary: "is" rule: drain.induct)
  case (1 dec raw p)
  obtain r q where ext: "extract_item dec raw p = (r, q)" by fastforce
  note spec = extract_item_spec [OF ext]
  show ?case
  proof (cases r)
    case None
    with 1 ext spec show ?thesis by (auto simp: drain.simps [of dec raw p])
  next
    case (Some i)
    obtain js q' where rec: "drain dec raw q = (js, q')" by fastforce
    with 1(2) ext Some have e: "is = i # js" "p' = q'" by (auto simp: drain.simps [of dec raw p])
    with 1(1) [OF ext [symmetric] Some, of js] rec spec Some show ?thesis
      by (auto intro: moves_trans)
  qed
qed

lemma read_chunks_spec:
  "read_chunks dec raw tcs p = (is, p') \<Longrightarrow> pdrain dec raw (ps_buf p) = ([], ps_buf p) \<Longrightarrow>
   \<exists>es. pdrain dec raw (ps_buf p @ concat (map snd tcs)) = (es, ps_buf p') \<and> is = items_of es \<and>
     moves p es p'"
proof (induction tcs arbitrary: p "is" p')
  case Nil
  then show ?case by auto
next
  case (Cons tc tcs)
  obtain js q where one: "read_chunk dec raw tc p = (js, q)" by fastforce
  obtain ks q' where rest: "read_chunks dec raw tcs q = (ks, q')" by fastforce
  with one Cons.prems have e: "is = js @ ks" "p' = q'" by auto
  note d = drain_spec [of dec raw "receive_chunk tc p" js q, folded read_chunk_def, OF one, simplified]
  have idem: "pdrain dec raw (ps_buf q) = ([], ps_buf q)" using d gw.run_rest_idem by metis
  from Cons.IH [OF rest idem] obtain es where es: "pdrain dec raw (ps_buf q @ concat (map snd tcs))
      = (es, ps_buf q')" "ks = items_of es" "moves q es q'" by blast
  let ?fs = "fst (pdrain dec raw (ps_buf p @ snd tc))"
  have "moves p ?fs q" using d by (simp add: moves_def)
  with es d e gw.run_append [of dec raw "ps_buf p @ snd tc" "concat (map snd tcs)"] show ?case
    by (intro exI [of _ "?fs @ es"]) (auto intro: moves_trans)
qed


section \<open>What the gateway sends\<close>

text \<open>The reference encoder of a stream frame, and the messages of a well-behaved gateway: a
  frame, or one line of JSON text.\<close>

fun le_bytes :: "nat \<Rightarrow> nat \<Rightarrow> byte list" where
  "le_bytes 0 x = []"
| "le_bytes (Suc n) x = word_of_nat (x mod 256) # le_bytes n (x div 256)"

definition frame_body :: "stream_frame \<Rightarrow> byte list" where
  "frame_body f = [1, sensor_id f] @ le_bytes 8 (gateway_timestamp_us f)
     @ [word_of_nat (length (payload f))] @ payload f"

definition encode_frame :: "stream_frame \<Rightarrow> byte list" where
  "encode_frame f = STREAM_FRAME_MAGIC @ frame_body f @ [word_of_nat (frame_checksum (frame_body f))]"

definition frame_ok :: "stream_frame \<Rightarrow> bool" where
  "frame_ok f \<longleftrightarrow> length (payload f) < 256 \<and> gateway_timestamp_us f < 2 ^ 64"

datatype wire = WFrame stream_frame | WLine "byte list" val

fun encode_wire :: "wire \<Rightarrow> byte list" where
  "encode_wire (WFrame f) = encode_frame f"
| "encode_wire (WLine line v) = line @ [0x0A]"

fun wire_item :: "wire \<Rightarrow> item" where
  "wire_item (WFrame f) = Frame f"
| "wire_item (WLine line v) = Json v"

fun wire_ok :: "(byte list \<Rightarrow> string) \<Rightarrow> (string \<Rightarrow> val option) \<Rightarrow> wire \<Rightarrow> bool" where
  "wire_ok dec raw (WFrame f) = frame_ok f"
| "wire_ok dec raw (WLine line v) =
     (line \<noteq> [] \<and> hd line = 0x7B \<and> 0x0A \<notin> set line \<and>
      take 1 (json_objects_from_line raw (py_strip (dec line))) = [v])"

definition silent_noise :: "byte list \<Rightarrow> bool" where
  "silent_noise g \<longleftrightarrow> find_byte 0x7B g = None \<and> find_magic g = None \<and> (g = [] \<or> last g \<noteq> 0xA5)"

lemma length_le_bytes [simp]: "length (le_bytes n x) = n"
  by (induction n arbitrary: x) auto

lemma le_nat_le_bytes: "x < 256 ^ n \<Longrightarrow> le_nat (le_bytes n x) = x"
proof (induction n arbitrary: x)
  case (Suc n)
  then have "le_nat (le_bytes n (x div 256)) = x div 256"
    by (simp add: less_mult_imp_div_less mult.commute)
  moreover have "unat (word_of_nat (x mod 256) :: byte) = x mod 256"
    by (simp add: unat_of_nat)
  ultimately show ?case by simp
qed simp

lemma unat_byte_bound: "unat (b :: byte) < 256"
  using unsigned_less [of b, where ?'a = nat] by simp

lemma le_bytes_le_nat: "length bs = n \<Longrightarrow> le_bytes n (le_nat bs) = bs"
proof (induction n arbitrary: bs)
  case (Suc n)
  then obtain b bs' where bs: "bs = b # bs'" by (cases bs) auto
  have "unat b < 256" by (rule unat_byte_bound)
  then have "(unat b + 256 * le_nat bs') mod 256 = unat b"
    and "(unat b + 256 * le_nat bs') div 256 = le_nat bs'" by simp_all
  with Suc bs show ?case by simp
qed simp

lemma le_nat_bound: "le_nat bs < 256 ^ length bs"
proof (induction bs)
  case (Cons b bs)
  with unat_byte_bound [of b] show ?case by simp
qed simp

lemma unat_word_of_nat_byte: "n < 256 \<Longrightarrow> unat (word_of_nat n :: byte) = n"
  by (simp add: unat_of_nat)

lemma frame_checksum_bound: "frame_checksum b < 256"
  by (simp add: frame_checksum_def)

lemma length_encode_frame: "length (encode_frame f) = 14 + length (payload f)"
  by (simp add: encode_frame_def frame_body_def STREAM_FRAME_MAGIC_def)

lemma length_8: "length (xs :: 'a list) = 8 \<Longrightarrow>
    \<exists>a b c d e f g h. xs = [a, b, c, d, e, f, g, h]"
  by (auto simp: numeral_eq_Suc length_Suc_conv)

lemma pstep_encode_frame:
  assumes "frame_ok f"
  shows "pstep dec raw (encode_frame f @ rest) = Some (length (encode_frame f), [Item (Frame f)])"
proof -
  obtain a b c d e g h i where ts: "le_bytes 8 (gateway_timestamp_us f) = [a, b, c, d, e, g, h, i]"
    using length_8 [of "le_bytes 8 (gateway_timestamp_us f)"] by auto
  let ?l = "length (payload f)" and ?b = "encode_frame f @ rest"
  have l: "unat (word_of_nat ?l :: byte) = ?l"
    using assms by (simp add: frame_ok_def unat_word_of_nat_byte)
  have body: "frame_body f = [1, sensor_id f, a, b, c, d, e, g, h, i, word_of_nat ?l] @ payload f"
    by (simp add: frame_body_def ts)
  have b: "?b = 0xA5 # 0x5A # 1 # sensor_id f # a # b # c # d # e # g # h # i # word_of_nat ?l #
      (payload f @ word_of_nat (frame_checksum (frame_body f)) # rest)"
    by (simp add: encode_frame_def body STREAM_FRAME_MAGIC_def)
  have b12: "?b ! 12 = word_of_nat ?l" unfolding b by simp
  have "le_nat [a, b, c, d, e, g, h, i] = gateway_timestamp_us f"
    unfolding ts [symmetric] by (rule le_nat_le_bytes) (use assms in \<open>simp add: frame_ok_def\<close>)
  then have "le_nat (drop 4 (take 12 ?b)) = gateway_timestamp_us f" unfolding b by simp
  moreover have "?b ! 3 = sensor_id f" unfolding b by simp
  moreover have "drop 13 (take (13 + ?l) ?b) = payload f"
    unfolding b by (simp add: numeral_eq_Suc)
  ultimately have frame: "frame_of ?b = f" by (simp add: frame_of_def b12 l)
  have "?b ! (13 + ?l) = word_of_nat (frame_checksum (frame_body f))"
    unfolding b by (simp add: nth_append)
  moreover have "drop 2 (take (13 + ?l) ?b) = frame_body f"
    unfolding b by (simp add: body numeral_eq_Suc)
  ultimately have ck: "checksum_ok ?b"
    by (simp add: checksum_ok_def b12 l unat_word_of_nat_byte frame_checksum_bound)
  have "has_magic ?b" "hd ?b \<noteq> 0x7B" "?b \<noteq> []" "?b ! 2 = 1" "14 \<le> length ?b"
    unfolding b by (simp_all add: has_magic_def STREAM_FRAME_MAGIC_def)
  then show ?thesis
    using frame ck by (simp add: pstep_def frame_len_def b12 l length_encode_frame)
qed

lemma find_byte_at: "c \<notin> set xs \<Longrightarrow> find_byte c (xs @ c # ys) = Some (length xs)"
  by (induction xs) auto

lemma pstep_encode_wire:
  assumes "wire_ok dec raw w"
  shows "pstep dec raw (encode_wire w @ rest) = Some (length (encode_wire w), [Item (wire_item w)])"
proof (cases w)
  case (WFrame f)
  with assms show ?thesis by (simp add: pstep_encode_frame)
next
  case (WLine line v)
  with assms show ?thesis
    by (auto simp: pstep_def line_events_def find_byte_at take_Cons' split: list.splits)
qed

lemma pdrain_wires:
  "\<forall>w \<in> set ws. wire_ok dec raw w \<Longrightarrow>
   pdrain dec raw (concat (map encode_wire ws)) = (map (Item \<circ> wire_item) ws, [])"
proof (induction ws)
  case Nil
  then show ?case by (simp add: pdrain_None pstep_def)
next
  case (Cons w ws)
  then have "pstep dec raw (encode_wire w @ concat (map encode_wire ws))
    = Some (length (encode_wire w), [Item (wire_item w)])" by (simp add: pstep_encode_wire)
  from pdrain_Some [OF this] Cons show ?case by simp
qed

lemma lead_garbage_noise: "silent_noise g \<Longrightarrow> lead_garbage g = length g"
  using lead_garbage_None [of g]
  by (cases g rule: rev_cases) (auto simp: silent_noise_def STREAM_FRAME_MAGIC_def)

lemma lead_garbage_wires:
  assumes "\<forall>w \<in> set ws. wire_ok dec raw w"
  shows "lead_garbage (concat (map encode_wire ws)) = 0"
proof (cases ws)
  case (Cons w ws')
  show ?thesis
  proof (cases w)
    case (WFrame f)
    with Cons show ?thesis by (simp add: encode_frame_def STREAM_FRAME_MAGIC_def)
  next
    case (WLine line v)
    with Cons assms show ?thesis by (intro lead_garbage_json) auto
  qed
qed simp

lemma pdrain_noisy_wires:
  assumes "silent_noise g" and "\<forall>w \<in> set ws. wire_ok dec raw w"
  shows "pdrain dec raw (g @ concat (map encode_wire ws))
    = (map Dropped g @ map (Item \<circ> wire_item) ws, [])"
proof -
  have "lead_garbage (g @ concat (map encode_wire ws)) = length g"
    using lead_garbage_noise [OF assms(1)] lead_garbage_wires [OF assms(2)]
      lead_garbage_append [of g "concat (map encode_wire ws)"] by simp
  with pdrain_garbage [of dec raw "g @ concat (map encode_wire ws)"] pdrain_wires [OF assms(2)]
  show ?thesis by simp
qed

lemma items_of_items [simp]: "items_of (map (Item \<circ> f) ws) = map f ws"
  "dropped_of (map (Item \<circ> f) ws) = []" "count_list (map (Item \<circ> f) ws) BadChecksum = 0"
  by (induction ws) auto

section \<open>Soundness of the delivered frames\<close>

fun frames_of :: "item list \<Rightarrow> stream_frame list" where
  "frames_of [] = []"
| "frames_of (Frame f # is) = f # frames_of is"
| "frames_of (Json v # is) = frames_of is"

text \<open>\<open>embeds fs b\<close>: the encodings of the frames stand in \<open>b\<close> in this order, without overlap.\<close>

fun embeds :: "stream_frame list \<Rightarrow> byte list \<Rightarrow> bool" where
  "embeds [] b \<longleftrightarrow> True"
| "embeds (f # fs) b \<longleftrightarrow>
     (\<exists>pre post. b = pre @ encode_frame f @ post \<and> frame_ok f \<and> embeds fs post)"

lemma embeds_prefix: "embeds fs b \<Longrightarrow> embeds fs (a @ b)"
proof (cases fs)
  case (Cons f fs')
  assume "embeds fs b"
  with Cons obtain pre post where "b = pre @ encode_frame f @ post" "frame_ok f" "embeds fs' post"
    by auto
  moreover from this have "a @ b = (a @ pre) @ encode_frame f @ post" by simp
  ultimately show ?thesis unfolding Cons embeds.simps by blast
qed simp

lemma embeds_suffix: "embeds fs b \<Longrightarrow> embeds fs (b @ c)"
proof (induction fs arbitrary: b)
  case (Cons f fs)
  then obtain pre post where "b = pre @ encode_frame f @ post" "frame_ok f" "embeds fs post"
    by auto
  moreover from this have "b @ c = pre @ encode_frame f @ (post @ c)" by simp
  ultimately show ?case unfolding embeds.simps using Cons.IH [of post] by blast
qed simp

lemma frame_segment:
  assumes "has_magic b" and "b ! 2 = 1" and len: "frame_len b \<le> length b" and ck: "checksum_ok b"
  shows "take (frame_len b) b = encode_frame (frame_of b)" and "frame_ok (frame_of b)"
proof -
  let ?l = "unat (b ! 12)"
  have l: "?l < 256" by (rule unat_byte_bound)
  from len have len13: "14 + ?l \<le> length b" by (simp add: frame_len_def)
  then have pl: "length (drop 13 (take (13 + ?l) b)) = ?l" by simp
  have ts: "length (drop 4 (take 12 b)) = 8" using len13 by simp
  then show ok: "frame_ok (frame_of b)"
    using pl l le_nat_bound [of "drop 4 (take 12 b)"] by (simp add: frame_ok_def frame_of_def)
  have split: "take (13 + ?l) b = take 2 b @ [b ! 2, b ! 3] @ drop 4 (take 12 b) @ [b ! 12]
      @ drop 13 (take (13 + ?l) b)"
  proof -
    have "take (13 + ?l) b = take 13 b @ drop 13 (take (13 + ?l) b)"
      by (metis append_take_drop_id le_add1 min.absorb1 take_take)
    moreover have "take 13 b = take 12 b @ [b ! 12]"
      using len13 take_Suc_conv_app_nth [of 12 b] by simp
    moreover have "take 12 b = take 4 b @ drop 4 (take 12 b)"
      using append_take_drop_id [of 4 "take 12 b"] by simp
    moreover have "take 4 b = take 2 b @ [b ! 2, b ! 3]"
      using len13 take_Suc_conv_app_nth [of 3 b] take_Suc_conv_app_nth [of 2 b] by simp
    ultimately show ?thesis by (metis append.assoc append_Cons append_Nil)
  qed
  have "frame_body (frame_of b) = drop 2 (take (13 + ?l) b)"
    using pl le_bytes_le_nat [OF ts] assms(2) len13
    by (subst split) (simp add: frame_body_def frame_of_def)
  moreover have "take 2 (take (13 + ?l) b) = STREAM_FRAME_MAGIC"
    using assms(1) by (simp add: has_magic_def)
  ultimately have "STREAM_FRAME_MAGIC @ frame_body (frame_of b) = take (13 + ?l) b"
    by (metis append_take_drop_id)
  moreover have "b ! (13 + ?l) = word_of_nat (frame_checksum (frame_body (frame_of b)))"
  proof -
    have "word_of_nat (unat (b ! (13 + ?l))) = b ! (13 + ?l)" by simp
    with ck \<open>frame_body (frame_of b) = drop 2 (take (13 + ?l) b)\<close> show ?thesis
      by (simp add: checksum_ok_def)
  qed
  ultimately show "take (frame_len b) b = encode_frame (frame_of b)"
    using len13 take_Suc_conv_app_nth [of "13 + ?l" b]
    by (simp add: frame_len_def encode_frame_def)
qed

lemma pstep_frames:
  assumes "pstep dec raw b = Some (n, es)"
  shows "frames_of (items_of es) = [] \<or>
    (\<exists>f. frames_of (items_of es) = [f] \<and> take n b = encode_frame f \<and> frame_ok f)"
proof -
  have "frames_of (items_of (line_events dec raw line)) = []" for line
    by (simp add: line_events_def split: list.splits)
  then show ?thesis
    using assms frame_segment [of b] by (auto simp: pstep_def split: if_splits)
qed

lemma frames_of_append [simp]: "frames_of (is @ js) = frames_of is @ frames_of js"
  by (induction "is" rule: frames_of.induct) auto

lemma pdrain_embeds: "embeds (frames_of (items_of (fst (pdrain dec raw b)))) b"
proof (induction b rule: length_induct)
  case (1 b)
  show ?case
  proof (cases "pstep dec raw b")
    case None
    then show ?thesis by (simp add: pdrain_None)
  next
    case (Some ne)
    then obtain n es where step: "pstep dec raw b = Some (n, es)" by (cases ne) auto
    then have "length (drop n b) < length b" using pstep_consumes by fastforce
    with 1 have ih: "embeds (frames_of (items_of (fst (pdrain dec raw (drop n b))))) (drop n b)"
      by blast
    from pstep_frames [OF step] show ?thesis
    proof
      assume "frames_of (items_of es) = []"
      with pdrain_Some [OF step] embeds_prefix [OF ih, of "take n b"] show ?thesis by simp
    next
      assume "\<exists>f. frames_of (items_of es) = [f] \<and> take n b = encode_frame f \<and> frame_ok f"
      then obtain f where f: "frames_of (items_of es) = [f]" "take n b = encode_frame f" "frame_ok f"
        by blast
      moreover have "b = [] @ encode_frame f @ drop n b" using f(2) by (metis append_Nil append_take_drop_id)
      ultimately show ?thesis
        using pdrain_Some [OF step] ih by (metis append_Cons append_Nil embeds.simps(2) fst_conv
            items_of_append frames_of_append)
    qed
  qed
qed

lemma pstep_waits:
  assumes "pstep dec raw b = None"
  shows "b \<in> {[], [0xA5]} \<or> (hd b = 0x7B \<and> 0x0A \<notin> set b) \<or> (has_magic b \<and> length b < 269)"
proof -
  have "frame_len b < 270" using unat_byte_bound [of "b ! 12"] by (simp add: frame_len_def)
  moreover have "b = [] \<or> b = [0xA5]" if "lead_garbage b = 0" "hd b \<noteq> 0x7B" "\<not> has_magic b"
    using that by (cases b rule: lead_garbage.cases) (auto simp: has_magic_def split: if_splits)
  ultimately show ?thesis
    using assms by (auto simp: pstep_def find_byte_None split: if_splits)
qed


section \<open>The diagnostic history of serial reads\<close>

lemma history_keep [simp]:
  "ps_read_history (clear_partial_block p) = ps_read_history p"
  "ps_read_sequence (clear_partial_block p) = ps_read_sequence p"
  "ps_read_history (record_partial_block k p) = ps_read_history p"
  "ps_read_sequence (record_partial_block k p) = ps_read_sequence p"
  "ps_read_history (dump_serial_read_history p) = ps_read_history p"
  "ps_read_sequence (dump_serial_read_history p) = ps_read_sequence p"
  "ps_read_history (drop_and_resync n d p) = ps_read_history p"
  "ps_read_sequence (drop_and_resync n d p) = ps_read_sequence p"
  by (simp_all add: clear_partial_block_def record_partial_block_def dump_serial_read_history_def
      drop_and_resync_def Let_def)

lemma parse_step_history:
  "ps_read_history (fst (parse_step dec raw p)) = ps_read_history p \<and>
   ps_read_sequence (fst (parse_step dec raw p)) = ps_read_sequence p"
  by (auto simp: parse_step_def parse_json_line_def parse_frame_def resync_def Let_def
      split: option.splits list.splits)

lemma extract_item_history:
  "extract_item dec raw p = (r, p') \<Longrightarrow>
   ps_read_history p' = ps_read_history p \<and> ps_read_sequence p' = ps_read_sequence p"
proof (induction dec raw p rule: extract_item.induct)
  case (1 dec raw p)
  obtain q out where step: "parse_step dec raw p = (q, out)" by fastforce
  with 1 parse_step_history [of dec raw p] show ?case
    by (cases out) (auto simp: extract_item.simps [of dec raw p])
qed

lemma drain_history:
  "drain dec raw p = (is, p') \<Longrightarrow>
   ps_read_history p' = ps_read_history p \<and> ps_read_sequence p' = ps_read_sequence p"
proof (induction dec raw p arbitrary: "is" rule: drain.induct)
  case (1 dec raw p)
  obtain r q where ext: "extract_item dec raw p = (r, q)" by fastforce
  with 1 extract_item_history [OF ext] show ?case
    by (cases r) (auto simp: drain.simps [of dec raw p] split: prod.splits)
qed

lemma read_chunk_history:
  assumes "read_chunk dec raw tc p = (is, p')"
  shows "map chunk (ps_read_history p') = (if snd tc = [] then map chunk (ps_read_history p)
      else deque_append SERIAL_READ_HISTORY_SIZE (snd tc) (map chunk (ps_read_history p)))"
    and "ps_read_sequence p' = ps_read_sequence p + (if snd tc = [] then 0 else 1)"
  using drain_history [OF assms [unfolded read_chunk_def]]
  by (simp_all add: receive_chunk_def Let_def deque_append_def drop_map
      SERIAL_READ_HISTORY_SIZE_def split: prod.splits)

lemma read_chunks_history:
  "read_chunks dec raw tcs p = (is, p') \<Longrightarrow>
   map chunk (ps_read_history p') = fold (deque_append SERIAL_READ_HISTORY_SIZE)
     (filter (\<lambda>c. c \<noteq> []) (map snd tcs)) (map chunk (ps_read_history p)) \<and>
   ps_read_sequence p' = ps_read_sequence p + int (length (filter (\<lambda>c. c \<noteq> []) (map snd tcs)))"
proof (induction tcs arbitrary: p "is" p')
  case (Cons tc tcs)
  obtain js q where one: "read_chunk dec raw tc p = (js, q)" by fastforce
  obtain ks q' where rest: "read_chunks dec raw tcs q = (ks, q')" by fastforce
  with one Cons.prems have "p' = q'" by auto
  with Cons.IH [OF rest] read_chunk_history [OF one] show ?case by simp
qed simp

section \<open>Properties\<close>

text \<open>C7. Delivery and resynchronisation: when the serial driver hands over, in chunks of any
  sizes, line noise in which no message can start followed by any sequence of well-formed frames
  and JSON lines, the read loop delivers exactly these messages in order, leaves an empty buffer,
  counts exactly the noise bytes as dropped and no checksum failure.\<close>

theorem gateway_stream_delivered:
  assumes "silent_noise g" and "\<forall>w \<in> set ws. wire_ok dec raw w"
    and "concat (map snd tcs) = g @ concat (map encode_wire ws)"
  shows "\<exists>p. read_chunks dec raw tcs init_parser = (map wire_item ws, p) \<and> ps_buf p = [] \<and>
    ps_resync_drop_bytes p = length g \<and> ps_checksum_failures p = 0"
proof -
  obtain "is" p where run: "read_chunks dec raw tcs init_parser = (is, p)" by fastforce
  have start: "pdrain dec raw (ps_buf init_parser) = ([], ps_buf init_parser)"
    by (simp add: init_parser_def pdrain_None pstep_def)
  from read_chunks_spec [OF run start] assms(3) pdrain_noisy_wires [OF assms(1,2)]
  show ?thesis using run by (simp add: init_parser_def moves_def)
qed

theorem gateway_stream_delivered_witness:
  "silent_noise [0x00, 0xA5, 0x10] \<and>
   (\<exists>p. read_chunks (\<lambda>bs. map (\<lambda>b. char_of (unat b)) bs)
       (\<lambda>s. if py_startswith s ''{}'' then Some (VDict []) else None)
     [(0, [0x00, 0xA5]), (1, [0x10, 0x7B]), (2, []), (3, [0x7D, 0x0A] @ take 5 (encode_frame
        \<lparr>sensor_id = 3, gateway_timestamp_us = 700, payload = [0xA5, 0x5A]\<rparr>)),
      (4, drop 5 (encode_frame \<lparr>sensor_id = 3, gateway_timestamp_us = 700, payload = [0xA5, 0x5A]\<rparr>))]
     init_parser =
     ([Json (VDict []), Frame \<lparr>sensor_id = 3, gateway_timestamp_us = 700, payload = [0xA5, 0x5A]\<rparr>], p) \<and>
     ps_buf p = [] \<and> ps_resync_drop_bytes p = 3 \<and> ps_checksum_failures p = 0)"
proof -
  let ?dec = "\<lambda>bs. map (\<lambda>b. char_of (unat (b :: byte))) bs"
  let ?raw = "\<lambda>s. if py_startswith s ''{}'' then Some (VDict []) else None"
  let ?f = "\<lparr>sensor_id = 3, gateway_timestamp_us = 700, payload = [0xA5, 0x5A]\<rparr>"
  let ?ws = "[WLine [0x7B, 0x7D] (VDict []), WFrame ?f]"
  have noise: "silent_noise [0x00, 0xA5, 0x10]"
    by (simp add: silent_noise_def STREAM_FRAME_MAGIC_def)
  have "wire_ok ?dec ?raw (WLine [0x7B, 0x7D] (VDict []))" by code_simp
  moreover have "frame_ok ?f" by (simp add: frame_ok_def)
  ultimately have ok: "\<forall>w \<in> set ?ws. wire_ok ?dec ?raw w" by simp
  show ?thesis
    using noise gateway_stream_delivered [OF noise ok, of "[(0, [0x00, 0xA5]), (1, [0x10, 0x7B]),
      (2, []), (3, [0x7D, 0x0A] @ take 5 (encode_frame ?f)), (4, drop 5 (encode_frame ?f))]"]
    by (simp del: read_chunks.simps add: numeral_3_eq_3)
qed

text \<open>C19. Frames are sound: whatever bytes arrive, every stream frame the read loop delivers is
  the exact encoding, with matching version, length and checksum, of a stretch of the bytes
  received, and the delivered frames stand there in order and without overlap.\<close>

theorem gateway_frames_sound:
  "embeds (frames_of (fst (read_chunks dec raw tcs init_parser))) (concat (map snd tcs))"
proof -
  obtain "is" p where run: "read_chunks dec raw tcs init_parser = (is, p)" by fastforce
  have "pdrain dec raw (ps_buf init_parser) = ([], ps_buf init_parser)"
    by (simp add: init_parser_def pdrain_None pstep_def)
  from read_chunks_spec [OF run this] run pdrain_embeds [of dec raw "concat (map snd tcs)"]
  show ?thesis by (auto simp: init_parser_def)
qed

text \<open>The chunking is irrelevant: two runs of the read loop over the same bytes, split into
  reads differently, deliver the same items and end with the same buffer, the same number of
  dropped bytes and the same number of checksum failures.\<close>

theorem gateway_chunking_irrelevant:
  assumes "concat (map snd tcs) = concat (map snd tcs')"
  shows "fst (read_chunks dec raw tcs init_parser) = fst (read_chunks dec raw tcs' init_parser) \<and>
    ps_buf (snd (read_chunks dec raw tcs init_parser)) =
      ps_buf (snd (read_chunks dec raw tcs' init_parser)) \<and>
    ps_resync_drop_bytes (snd (read_chunks dec raw tcs init_parser)) =
      ps_resync_drop_bytes (snd (read_chunks dec raw tcs' init_parser)) \<and>
    ps_checksum_failures (snd (read_chunks dec raw tcs init_parser)) =
      ps_checksum_failures (snd (read_chunks dec raw tcs' init_parser))"
proof -
  obtain "is" p js q where run: "read_chunks dec raw tcs init_parser = (is, p)"
    "read_chunks dec raw tcs' init_parser = (js, q)" by fastforce
  have start: "pdrain dec raw (ps_buf init_parser) = ([], ps_buf init_parser)"
    by (simp add: init_parser_def pdrain_None pstep_def)
  from read_chunks_spec [OF run(1) start] read_chunks_spec [OF run(2) start] assms
  show ?thesis by (auto simp: run moves_def)
qed

theorem gateway_chunking_irrelevant_witness:
  "fst (read_chunks (\<lambda>_. []) (\<lambda>_. None) [(0, [1, 0xA5, 0x5A])] init_parser)
   = fst (read_chunks (\<lambda>_. []) (\<lambda>_. None) [(4, [1, 0xA5]), (5, [0x5A])] init_parser)"
  using gateway_chunking_irrelevant [of "[(0, [1, 0xA5, 0x5A])]" "[(4, [1, 0xA5]), (5, [0x5A])]"
      "\<lambda>_. []" "\<lambda>_. None"] by simp

text \<open>Bounded waiting: after every read the loop holds back at most a lone first magic byte, a
  JSON line whose newline has not arrived, or fewer than 269 bytes of one frame.\<close>

theorem gateway_wait_bounded:
  "let b = ps_buf (snd (read_chunks dec raw tcs init_parser)) in
   b \<in> {[], [0xA5]} \<or> (hd b = 0x7B \<and> 0x0A \<notin> set b) \<or>
   (take 2 b = STREAM_FRAME_MAGIC \<and> length b < 269)"
proof -
  obtain "is" p where run: "read_chunks dec raw tcs init_parser = (is, p)" by fastforce
  have "pdrain dec raw (ps_buf init_parser) = ([], ps_buf init_parser)"
    by (simp add: init_parser_def pdrain_None pstep_def)
  from read_chunks_spec [OF run this] have "pstep dec raw (ps_buf p) = None"
    by (metis gw.run_rest snd_conv)
  from pstep_waits [OF this] run show ?thesis by (auto simp: Let_def has_magic_def)
qed

text \<open>The diagnostic read history holds exactly the newest twelve non-empty reads, oldest
  first, and the read sequence number counts every non-empty read.\<close>

theorem gateway_read_history:
  "let p = snd (read_chunks dec raw tcs init_parser); reads = filter (\<lambda>c. c \<noteq> []) (map snd tcs) in
   map chunk (ps_read_history p) = drop (length reads - 12) reads \<and>
   ps_read_sequence p = int (length reads)"
proof -
  obtain "is" p where run: "read_chunks dec raw tcs init_parser = (is, p)" by fastforce
  from read_chunks_history [OF run] run show ?thesis
    by (simp add: Let_def init_parser_def SERIAL_READ_HISTORY_SIZE_def deque.items_pushes)
qed

end
