(* ===== verification/Gateway_Client.thy ===== *)
theory Gateway_Client
  imports Gateway_Parser
begin

text \<open>
  The transport of \<open>GatewaySerialClient\<close> in
  \<^verbatim>\<open>sensor_manager/adapters/gateway_ble_client.py\<close>: its state, the routing of received
  messages to waiting requests, the serial port lifecycle (start, reset, recovery, close), the
  sending of a command and the waiting for its answer. The parsing of the received bytes into
  messages is \<open>Gateway_Parser\<close>; the operations on sensors are \<open>Gateway_Operations\<close>.

  One thread runs an operation; a \<open>gctx\<close> is its identity, whether it runs under a
  \<open>SensorOperation\<close> and whether its policy is \<open>SENSOR_CLEANUP\<close>. What happens beside it is given by
  two lists in the \<open>gworld\<close>, over all of which the properties quantify:

  \<^item> \<open>gw_turns\<close>, what other threads do and when time runs out: the reader delivers a message
    (\<open>Rx\<close>) or fails (\<open>ReadFailed\<close>), another thread changes the acquisition scope (\<open>Scope\<close>), a wait
    for a message runs into its deadline (\<open>Expire\<close>), a loop test finds its deadline passed
    (\<open>Late\<close>), or the thread is scheduled again (\<open>Run\<close>). When the list is exhausted nothing more
    arrives, so a wait ends at its deadline.
  \<^item> \<open>gw_io\<close>, the outcomes of the calls to the operating system (serial port, locks, thread join,
    expiry of the operation), all of them successful when the list is exhausted.

  What the client does is the \<open>gw_log\<close>: complete command lines written, events dispatched to the
  registered handlers (whose exceptions the code catches), and the opening and closing of the port.
  Logging and the values of the timeouts are left out.
\<close>

section \<open>State\<close>

datatype gexc =
    TimeoutErr string
  | SerialErr string
  | OsErr string
  | RuntimeErr string
  | OtherErr string

record gctx =
  cx_thread :: nat
  cx_operation :: bool
  cx_cleanup :: bool

record gclient =
  cl_ser :: "(bool \<times> bool) option"
  cl_tx_flush :: bool
  cl_running :: bool
  cl_started :: bool
  cl_reader :: bool
  cl_pending :: "string list"
  cl_queues :: "(string, val list) dict"
  cl_request_id_counter :: nat
  cl_active :: "string list"
  cl_startup_owner :: "nat option"
  cl_reset_owner :: "nat option"
  cl_reset_unconfirmed :: bool
  cl_pending_reset_ids :: "string list"
  cl_generation :: nat
  cl_line_state :: "bool \<times> bool"
  cl_has_opened_uart :: bool
  cl_disconnected :: "string list"
  cl_notification_drop_count :: val
  cl_transport_stats :: val
  cl_ble_rx_stats :: "(string, val) dict"
  cl_order_trace :: "val list"
  cl_phase :: string
  cl_serial_port :: "string option"

definition init_client :: "bool \<Rightarrow> gclient" where
  "init_client flush = \<lparr>cl_ser = None, cl_tx_flush = flush, cl_running = False, cl_started = False, cl_reader = False,
     cl_pending = [], cl_queues = [], cl_request_id_counter = 0, cl_active = [],
     cl_startup_owner = None, cl_reset_owner = None, cl_reset_unconfirmed = False,
     cl_pending_reset_ids = [], cl_generation = 0, cl_line_state = (True, True),
     cl_has_opened_uart = False, cl_disconnected = [], cl_notification_drop_count = VInt 0,
     cl_transport_stats = VDict [], cl_ble_rx_stats = [], cl_order_trace = [], cl_phase = ''idle'',
     cl_serial_port = None\<rparr>"

datatype turn = Rx val | ReadFailed | Scope "string list" bool | Expire | Late | Run

datatype io = IoOk | IoShort | IoFail gexc

datatype gevent =
    Wrote val
  | Dispatched string val
  | Opened string
  | Reopened string "bool \<times> bool"
  | Closed

record gworld =
  gw_client :: gclient
  gw_turns :: "turn list"
  gw_io :: "io list"
  gw_port :: string
  gw_protocol_version :: int
  gw_client_name :: string
  gw_log :: "gevent list"

section \<open>Computations\<close>

type_synonym 'a gop = "gworld \<Rightarrow> (gexc + 'a) \<times> gworld"

definition g_ret :: "'a \<Rightarrow> 'a gop" where
  "g_ret x = (\<lambda>w. (Inr x, w))"

definition g_raise :: "gexc \<Rightarrow> 'a gop" where
  "g_raise e = (\<lambda>w. (Inl e, w))"

definition g_bind :: "'a gop \<Rightarrow> ('a \<Rightarrow> 'b gop) \<Rightarrow> 'b gop" where
  "g_bind m f = (\<lambda>w. case m w of (Inl e, w') \<Rightarrow> (Inl e, w') | (Inr x, w') \<Rightarrow> f x w')"

definition g_then :: "'a gop \<Rightarrow> 'b gop \<Rightarrow> 'b gop" where
  "g_then m n = g_bind m (\<lambda>_. n)"

definition g_client :: "gclient gop" where
  "g_client = (\<lambda>w. (Inr (gw_client w), w))"

definition g_upd :: "(gclient \<Rightarrow> gclient) \<Rightarrow> unit gop" where
  "g_upd f = (\<lambda>w. (Inr (), w\<lparr>gw_client := f (gw_client w)\<rparr>))"

definition g_log :: "gevent \<Rightarrow> unit gop" where
  "g_log e = (\<lambda>w. (Inr (), w\<lparr>gw_log := gw_log w @ [e]\<rparr>))"

definition g_except :: "'a gop \<Rightarrow> (gexc \<Rightarrow> 'a gop) \<Rightarrow> 'a gop" where
  "g_except m h = (\<lambda>w. case m w of (Inl e, w') \<Rightarrow> h e w' | (Inr x, w') \<Rightarrow> (Inr x, w'))"

text \<open>\<open>try: m finally: f\<close>, for an \<open>f\<close> that does not raise.\<close>

definition g_finally :: "'a gop \<Rightarrow> unit gop \<Rightarrow> 'a gop" where
  "g_finally m f = (\<lambda>w. case m w of (r, w') \<Rightarrow> (r, snd (f w')))"

definition g_guard :: "bool \<Rightarrow> gexc \<Rightarrow> unit gop" where
  "g_guard ok e = (if ok then g_ret () else g_raise e)"

definition g_lift :: "py_error + 'a \<Rightarrow> 'a gop" where
  "g_lift r = (case r of Inl AttributeError \<Rightarrow> g_raise (OtherErr ''AttributeError'')
     | Inl TypeError \<Rightarrow> g_raise (OtherErr ''TypeError'')
     | Inl _ \<Rightarrow> g_raise (OtherErr ''ValueError'')
     | Inr x \<Rightarrow> g_ret x)"

text \<open>The outcome of the next call to the operating system.\<close>

definition next_io :: "io gop" where
  "next_io = (\<lambda>w. case gw_io w of [] \<Rightarrow> (Inr IoOk, w) | r # rs \<Rightarrow> (Inr r, w\<lparr>gw_io := rs\<rparr>))"

definition io_or :: "(gexc \<Rightarrow> gexc) \<Rightarrow> unit gop" where
  "io_or f = g_bind next_io (\<lambda>r. case r of IoFail e \<Rightarrow> g_raise (f e) | _ \<Rightarrow> g_ret ())"

section \<open>The reader\<close>

text \<open>\<open>_normalize_address\<close>; a value that is neither a string nor false has no \<open>strip\<close>.\<close>

definition normalize_address :: "val \<Rightarrow> py_error + string" where
  "normalize_address v = (if \<not> truthy v then Inr []
     else case v of VStr s \<Rightarrow> Inr (py_upper (py_strip s)) | _ \<Rightarrow> Inl AttributeError)"

definition norm :: "string \<Rightarrow> string" where
  "norm s = py_upper (py_strip s)"

fun is_int :: "val \<Rightarrow> bool" where
  "is_int (VInt i) = True"
| "is_int (VBool b) = True"
| "is_int _ = False"

fun hashable :: "val \<Rightarrow> bool" where
  "hashable (VList xs) = False"
| "hashable (VDict d) = False"
| "hashable _ = True"

definition observe_json :: "val \<Rightarrow> gclient \<Rightarrow> py_error + gclient" where
  "observe_json msg c =
     (let msg_type = vget msg ''type'' in
      if msg_type = VStr ''sensor_disconnected'' then
        rbind (normalize_address (vget msg ''address'')) (\<lambda>address.
          Inr (if address \<noteq> [] then c\<lparr>cl_disconnected := List.insert address (cl_disconnected c)\<rparr> else c))
      else if msg_type = VStr ''notification_drops'' then
        Inr (if is_int (vget msg ''drop_count'') then c\<lparr>cl_notification_drop_count := vget msg ''drop_count''\<rparr> else c)
      else if msg_type = VStr ''gateway_transport_stats'' then Inr (c\<lparr>cl_transport_stats := msg\<rparr>)
      else if msg_type = VStr ''gateway_order_trace'' then Inr (c\<lparr>cl_order_trace := cl_order_trace c @ [msg]\<rparr>)
      else if msg_type = VStr ''ble_notification_rx_stats'' then
        (let address = norm (py_str (vget_or msg ''address'' (VStr []))) in
         Inr (if address \<noteq> [] then c\<lparr>cl_ble_rx_stats :=
                dput address (vput ''address'' (VStr address) msg) (cl_ble_rx_stats c)\<rparr> else c))
      else Inr c)"

definition queue_put :: "val \<Rightarrow> string \<Rightarrow> gclient \<Rightarrow> gclient" where
  "queue_put msg rid c = c\<lparr>cl_queues := dappend rid msg (cl_queues c)\<rparr>"

definition STATS_TYPES :: "string list" where
  "STATS_TYPES = [''gateway_transport_stats'', ''ble_notification_rx_stats'', ''ble_notification_rx_stats_complete'']"

definition confirm_reset :: "val \<Rightarrow> gclient \<Rightarrow> gclient" where
  "confirm_reset rid c = (case rid of
     VStr r \<Rightarrow> if r \<in> set (cl_pending_reset_ids c)
               then (let ids = removeAll r (cl_pending_reset_ids c)
                     in c\<lparr>cl_pending_reset_ids := ids, cl_reset_unconfirmed := (ids \<noteq> [])\<rparr>)
               else c
   | _ \<Rightarrow> c)"

definition deliver_message :: "string \<Rightarrow> val \<Rightarrow> gclient \<Rightarrow> gclient" where
  "deliver_message msg_type msg c = (case vget msg ''request_id'' of
     VStr r \<Rightarrow> if r \<noteq> [] \<and> r \<in> set (cl_pending c) then queue_put msg r c
               else if msg_type \<in> set STATS_TYPES then fold (queue_put msg) (cl_pending c) c else c
   | _ \<Rightarrow> if msg_type \<in> set STATS_TYPES then fold (queue_put msg) (cl_pending c) c else c)"

text \<open>\<open>_route_json\<close> up to its event, which is dispatched last.\<close>

definition route_json :: "val \<Rightarrow> gclient \<Rightarrow> py_error + gclient" where
  "route_json msg c =
     (let msg_type = py_str (vget_or msg ''type'' (VStr []));
          request_id = vget msg ''request_id''
      in if \<not> hashable request_id \<and> (msg_type = ''reset_session_complete'' \<or> truthy request_id) then Inl TypeError
         else Inr (deliver_message msg_type msg
                     (if msg_type = ''reset_session_complete'' then confirm_reset request_id c else c)))"

text \<open>\<open>_close_transport\<close> without its join: the state while the port is being closed, and after.\<close>

definition closing :: "gclient \<Rightarrow> gclient" where
  "closing c = c\<lparr>cl_running := False, cl_generation := Suc (cl_generation c),
     cl_line_state := (case cl_ser c of None \<Rightarrow> cl_line_state c | Some lines \<Rightarrow> lines)\<rparr>"

definition closed :: "gclient \<Rightarrow> gclient" where
  "closed c = c\<lparr>cl_reader := False, cl_ser := None, cl_started := False, cl_phase := ''idle'',
     cl_serial_port := None\<rparr>"

definition close_log :: "gclient \<Rightarrow> gevent list" where
  "close_log c = (case cl_ser c of None \<Rightarrow> [] | Some _ \<Rightarrow> [Closed])"

text \<open>The reader's own failure: \<open>_handle_transport_failure\<close> called in the reader thread, which does not
  join itself. It acts only while the reader is the current one.\<close>

definition reader_alive :: "gclient \<Rightarrow> bool" where
  "reader_alive c \<longleftrightarrow> cl_running c \<and> cl_reader c"

definition reader_fails :: "gworld \<Rightarrow> gworld" where
  "reader_fails w =
     (let c = gw_client w in
      if reader_alive c
      then w\<lparr>gw_client := (closed (closing c))\<lparr>cl_pending := []\<rparr>, gw_log := gw_log w @ close_log c\<rparr>
      else w)"

definition receive_message :: "val \<Rightarrow> gworld \<Rightarrow> gworld" where
  "receive_message msg w =
     (if reader_alive (gw_client w) then
        (case rbind (observe_json msg (gw_client w)) (route_json msg) of
           Inl _ \<Rightarrow>
             (case observe_json msg (gw_client w) of
                Inl _ \<Rightarrow> reader_fails w
              | Inr c \<Rightarrow> reader_fails (w\<lparr>gw_client := c\<rparr>))
         | Inr c \<Rightarrow> w\<lparr>gw_client := c, gw_log := gw_log w @
                        [Dispatched (py_str (vget_or msg ''type'' (VStr []))) msg]\<rparr>)
      else w)"

definition set_acquisition_scope :: "string list \<Rightarrow> bool \<Rightarrow> gclient \<Rightarrow> gexc + gclient" where
  "set_acquisition_scope addresses app c =
     (if addresses \<noteq> [] \<and> (cl_startup_owner c \<noteq> None \<or> cl_reset_owner c \<noteq> None \<or> cl_reset_unconfirmed c)
      then Inl (RuntimeErr ''Gateway startup/reset must complete before acquisition'')
      else Inr (c\<lparr>cl_active := (if app then List.union (cl_active c) addresses else remdups addresses)\<rparr>))"

text \<open>What another thread does, and the scheduling of the waiting thread.\<close>

fun background :: "turn \<Rightarrow> gworld \<Rightarrow> gworld" where
  "background (Rx msg) w = receive_message msg w"
| "background ReadFailed w = reader_fails w"
| "background (Scope addresses app) w = (case set_acquisition_scope addresses app (gw_client w) of
     Inl _ \<Rightarrow> w | Inr c \<Rightarrow> w\<lparr>gw_client := c\<rparr>)"
| "background Expire w = w"
| "background Late w = w"
| "background Run w = w"

fun pause_turns :: "turn list \<Rightarrow> gworld \<Rightarrow> gworld" where
  "pause_turns [] w = w\<lparr>gw_turns := []\<rparr>"
| "pause_turns (t # ts) w =
     (if t = Run then w\<lparr>gw_turns := ts\<rparr>
      else if t = Expire \<or> t = Late then w\<lparr>gw_turns := t # ts\<rparr>
      else pause_turns ts (background t w))"

definition pause :: "unit gop" where
  "pause = (\<lambda>w. (Inr (), pause_turns (gw_turns w) w))"

section \<open>Requests\<close>

definition op_check :: "gctx \<Rightarrow> unit gop" where
  "op_check cx = (if cx_operation cx then io_or (\<lambda>_. TimeoutErr ''Sensor operation expired or cancelled'') else g_ret ())"

definition request_id :: "string \<Rightarrow> string gop" where
  "request_id prefix = (\<lambda>w.
     (let n = Suc (cl_request_id_counter (gw_client w))
      in (Inr (prefix @ ''_'' @ digits_of n), w\<lparr>gw_client := (gw_client w)\<lparr>cl_request_id_counter := n\<rparr>\<rparr>)))"

definition register_request :: "string \<Rightarrow> unit gop" where
  "register_request rid = g_bind g_client (\<lambda>c.
     if rid \<in> set (cl_pending c) then g_raise (RuntimeErr (''Duplicate gateway request_id: '' @ rid))
     else g_upd (\<lambda>c. c\<lparr>cl_pending := cl_pending c @ [rid], cl_queues := dput rid [] (cl_queues c)\<rparr>))"

definition unregister_request :: "string \<Rightarrow> unit gop" where
  "unregister_request rid = g_upd (\<lambda>c. c\<lparr>cl_pending := removeAll rid (cl_pending c), cl_queues := dpop rid (cl_queues c)\<rparr>)"

definition RESPONSE_TIMEOUT :: gexc where
  "RESPONSE_TIMEOUT = TimeoutErr ''Timed out waiting for gateway response''"

text \<open>\<open>request_queue.get(timeout)\<close>: the background runs until the queue has a message or the deadline.\<close>

fun get_turns :: "string \<Rightarrow> turn list \<Rightarrow> gworld \<Rightarrow> (gexc + val) \<times> gworld" where
  "get_turns rid ts w = (case dget_or (cl_queues (gw_client w)) rid [] of
     m # ms \<Rightarrow> (Inr m, w\<lparr>gw_client := (gw_client w)\<lparr>cl_queues := dput rid ms (cl_queues (gw_client w))\<rparr>, gw_turns := ts\<rparr>)
   | [] \<Rightarrow> (case ts of
        [] \<Rightarrow> (Inl RESPONSE_TIMEOUT, w\<lparr>gw_turns := []\<rparr>)
      | t # ts' \<Rightarrow> if t = Expire \<or> t = Late then (Inl RESPONSE_TIMEOUT, w\<lparr>gw_turns := ts'\<rparr>)
                   else get_turns rid ts' (background t w)))"

declare get_turns.simps [simp del]

definition wait_for_message :: "gctx \<Rightarrow> string \<Rightarrow> val gop" where
  "wait_for_message cx rid = g_then (op_check cx) (\<lambda>w. get_turns rid (gw_turns w) w)"

text \<open>A loop \<open>while time.time() < deadline\<close> that receives messages: \<open>wait\<close> gets the next message or
  returns, \<open>late\<close> is the code after the loop, and \<open>body s m\<close> one iteration, which goes on with a new
  loop state or returns. Every iteration takes a message, so the messages waiting and the turns left
  bound their number.\<close>

fun receive_fuel ::
  "nat \<Rightarrow> ('s \<Rightarrow> (val + 'r) gop) \<Rightarrow> ('s \<Rightarrow> 'r gop) \<Rightarrow> ('s \<Rightarrow> val \<Rightarrow> ('s + 'r) gop) \<Rightarrow> 's \<Rightarrow> 'r gop" where
  "receive_fuel 0 wait late body s = late s"
| "receive_fuel (Suc n) wait late body s = (\<lambda>w.
     case gw_turns w of
       Late # ts \<Rightarrow> late s (w\<lparr>gw_turns := ts\<rparr>)
     | _ \<Rightarrow> g_bind (wait s) (\<lambda>v. case v of
              Inr x \<Rightarrow> g_ret x
            | Inl m \<Rightarrow> g_bind (body s m) (\<lambda>r. case r of
                Inl s' \<Rightarrow> receive_fuel n wait late body s'
              | Inr x \<Rightarrow> g_ret x)) w)"

definition budget :: "string \<Rightarrow> gworld \<Rightarrow> nat" where
  "budget rid w = length (dget_or (cl_queues (gw_client w)) rid []) + length (gw_turns w)"

definition receive ::
  "string \<Rightarrow> ('s \<Rightarrow> (val + 'r) gop) \<Rightarrow> ('s \<Rightarrow> 'r gop) \<Rightarrow> ('s \<Rightarrow> val \<Rightarrow> ('s + 'r) gop) \<Rightarrow> 's \<Rightarrow> 'r gop" where
  "receive rid wait late body s = (\<lambda>w. receive_fuel (Suc (budget rid w)) wait late body s w)"

definition next_message :: "gctx \<Rightarrow> string \<Rightarrow> 's \<Rightarrow> (val + 'r) gop" where
  "next_message cx rid s = g_bind (wait_for_message cx rid) (\<lambda>m. g_ret (Inl m))"

definition is_reply :: "string \<Rightarrow> string \<Rightarrow> val \<Rightarrow> bool" where
  "is_reply typ rid msg \<longleftrightarrow> vget msg ''type'' = VStr typ \<and> vget msg ''request_id'' = VStr rid"

definition raise_if_error :: "val \<Rightarrow> string \<Rightarrow> string \<Rightarrow> unit gop" where
  "raise_if_error msg rid prefix = g_guard (\<not> is_reply ''error'' rid msg)
     (RuntimeErr (prefix @ '': '' @ py_str (vget msg ''message'') @ '' ('' @ py_str (vget msg ''error_code'') @ '')''))"

definition wait_for_success :: "gctx \<Rightarrow> string \<Rightarrow> string \<Rightarrow> val gop" where
  "wait_for_success cx rid success_type = receive rid (next_message cx rid)
     (\<lambda>_. g_raise (TimeoutErr (''Timed out waiting for '' @ success_type @ '' request_id='' @ rid)))
     (\<lambda>_ msg. if is_reply success_type rid msg then g_ret (Inr msg)
              else g_then (raise_if_error msg rid ''Gateway command failed'') (g_ret (Inl ()))) ()"

section \<open>The serial port\<close>

definition close_transport :: "unit gop" where
  "close_transport =
     g_bind g_client (\<lambda>c0. g_then (g_upd closing)
       (g_then (if cl_ser c0 \<noteq> None then g_then next_io (g_log Closed) else g_ret ())
         (g_then (if cl_reader c0 then io_or (\<lambda>_. RuntimeErr ''Previous UART reader has not retired'') else g_ret ())
           (g_upd closed))))"

definition handle_transport_failure :: "unit gop" where
  "handle_transport_failure = g_then close_transport (g_upd (\<lambda>c. c\<lparr>cl_pending := []\<rparr>))"

definition close_client :: "unit gop" where
  "close_client = g_then close_transport (g_upd (\<lambda>c. c\<lparr>cl_pending := [], cl_disconnected := [],
     cl_started := False, cl_phase := ''idle'', cl_serial_port := None\<rparr>))"

text \<open>\<open>isinstance(exc, OSError)\<close>, which \<open>TimeoutError\<close> and \<open>SerialException\<close> are.\<close>

fun is_os_error :: "gexc \<Rightarrow> bool" where
  "is_os_error (TimeoutErr s) = True"
| "is_os_error (SerialErr s) = True"
| "is_os_error (OsErr s) = True"
| "is_os_error _ = False"

text \<open>The write of a command line with the write lock held, and the failure of the write.\<close>

definition write_line :: "val \<Rightarrow> unit gop" where
  "write_line obj = g_bind g_client (\<lambda>c.
     if cl_ser c = None then g_raise (OtherErr ''AttributeError'')
     else g_bind next_io (\<lambda>r. case r of
            IoFail e \<Rightarrow> g_raise e
          | IoShort \<Rightarrow> g_raise (SerialErr ''Incomplete gateway command write'')
          | IoOk \<Rightarrow> g_then (g_log (Wrote obj))
                     (if cl_tx_flush c then io_or (\<lambda>e. e) else g_ret ())))"

definition write_command :: "gctx \<Rightarrow> val \<Rightarrow> unit gop" where
  "write_command cx obj =
     g_bind g_client (\<lambda>c.
       if vget obj ''type'' = VStr ''reset_session'' \<and> (cl_active c \<noteq> [] \<or> cl_reset_owner c \<noteq> Some (cx_thread cx))
       then g_raise (RuntimeErr ''Gateway reset requires reset_session() admission without active acquisition'')
       else g_then (op_check cx)
         (g_except (write_line obj) (\<lambda>e.
            g_then (if is_os_error e \<and> \<not> (cx_operation cx \<or> cx_cleanup cx) then handle_transport_failure else g_ret ())
              (g_raise e))))"

text \<open>\<open>send\<close>, with the \<open>start\<close> it calls as an argument.\<close>

definition send_by :: "(gctx \<Rightarrow> unit gop) \<Rightarrow> gctx \<Rightarrow> val \<Rightarrow> unit gop" where
  "send_by start cx obj =
     g_then (op_check cx) (g_bind g_client (\<lambda>c.
       if cl_startup_owner c \<notin> {None, Some (cx_thread cx)}
       then g_raise (RuntimeErr ''Gateway communication recovery/startup in progress'')
       else g_then
         (if cx_operation cx \<or> cx_cleanup cx
          then g_guard (cl_started c \<and> cl_ser c \<noteq> None \<and> cl_running c)
                 (SerialErr ''Gateway transport unavailable for sensor cleanup'')
          else start cx)
         (g_bind g_client (\<lambda>c.
            if cl_ser c = None then g_raise (OtherErr ''AssertionError'')
            else g_then pause
              (g_then (io_or (\<lambda>_. TimeoutErr ''Gateway serial write lock deadline reached''))
                (write_command cx obj))))))"

text \<open>Sending under the cleanup policy, which never starts the transport.\<close>

definition send_cleanup :: "gctx \<Rightarrow> val \<Rightarrow> unit gop" where
  "send_cleanup cx obj = send_by (\<lambda>_. g_ret ()) (cx\<lparr>cx_cleanup := True\<rparr>) obj"

definition with_request :: "string \<Rightarrow> 'a gop \<Rightarrow> 'a gop" where
  "with_request rid body = g_then (register_request rid) (g_finally body (unregister_request rid))"

definition inventory_valid :: "val \<Rightarrow> bool" where
  "inventory_valid inventory \<longleftrightarrow>
     vget inventory ''state'' \<in> {VStr ''ready'', VStr ''not_ready''} \<and>
     is_list (vget inventory ''connected_addresses'') \<and>
     list_all (\<lambda>a. is_str a \<and> truthy a) (as_list (vget inventory ''connected_addresses'')) \<and>
     py_int (vget inventory ''connected_count'') = Inr (int (length (as_list (vget inventory ''connected_addresses''))))"

definition inventory_result :: "val \<Rightarrow> gclient \<Rightarrow> val" where
  "inventory_result inventory c =
     vput ''reset_confirmed'' (VBool (\<not> cl_reset_unconfirmed c))
       (vput ''connected_addresses''
          (VList (map (\<lambda>a. VStr (norm (py_str a))) (as_list (vget inventory ''connected_addresses''))))
         (vput ''ble_ready'' (VBool (vget inventory ''state'' = VStr ''ready'')) inventory))"

definition get_connection_inventory :: "gctx \<Rightarrow> val gop" where
  "get_connection_inventory cx = g_bind (request_id ''inventory'') (\<lambda>rid. with_request rid
     (g_then (send_cleanup cx (VDict [(''type'', VStr ''get_status''), (''request_id'', VStr rid)]))
       (g_bind (wait_for_success cx rid ''status'') (\<lambda>message.
          let inventory = vget_or message ''gateway'' (VDict []) in
          if \<not> is_dict inventory then g_raise (OtherErr ''AttributeError'')
          else if \<not> hashable (vget inventory ''state'') then g_raise (OtherErr ''TypeError'')
          else if \<not> inventory_valid inventory
          then g_raise (RuntimeErr ''Gateway connection inventory unavailable or invalid'')
          else g_bind g_client (\<lambda>c. g_ret (inventory_result inventory c))))))"

definition retired_message :: "string \<Rightarrow> val" where
  "retired_message rid = VDict [(''type'', VStr ''error''), (''request_id'', VStr rid),
     (''message'', VStr ''UART transport generation retired'')]"

definition retire_requests :: "gclient \<Rightarrow> gclient" where
  "retire_requests c = fold (\<lambda>rid. queue_put (retired_message rid) rid) (cl_pending c) c"

text \<open>\<open>resolve_gateway_serial_port\<close>: the port, or the error of the operating system's answer.\<close>

definition resolve_port :: "string gop" where
  "resolve_port = g_then (io_or (\<lambda>e. e)) (\<lambda>w. (Inr (gw_port w), w))"

text \<open>The reopening in \<open>recover_uart\<close>, with the write lock held.\<close>

definition reopen :: "gctx \<Rightarrow> unit gop" where
  "reopen cx =
     g_then (io_or (\<lambda>_. TimeoutErr ''UART recovery waiting for previous write''))
     (g_then (op_check cx)
     (g_then close_transport
     (g_then (op_check cx)
     (g_then (g_upd retire_requests)
     (g_bind resolve_port (\<lambda>port.
      g_then (g_upd (\<lambda>c. c\<lparr>cl_ser := Some (cl_line_state c)\<rparr>))
     (g_then (io_or (\<lambda>e. e))
     (g_bind g_client (\<lambda>c.
      g_then (g_log (Reopened port (cl_line_state c)))
     (g_then (g_upd (\<lambda>c. c\<lparr>cl_has_opened_uart := True\<rparr>))
     (g_then (op_check cx)
      (g_upd (\<lambda>c. c\<lparr>cl_serial_port := Some port, cl_started := True, cl_running := True,
         cl_reader := True\<rparr>)))))))))))))"

definition probe_or_reopen :: "gctx \<Rightarrow> val gop" where
  "probe_or_reopen cx =
     g_bind g_client (\<lambda>c.
       g_bind (if cl_started c \<and> cl_ser c \<noteq> None \<and> cl_running c
               then g_except (g_bind (get_connection_inventory cx) (\<lambda>inv. g_ret (Some inv)))
                      (\<lambda>e. if is_os_error e then g_ret None else g_raise e)
               else g_ret None) (\<lambda>found.
         case found of Some inventory \<Rightarrow> g_ret inventory
         | None \<Rightarrow> g_then (reopen cx) (get_connection_inventory cx)))"

definition recover_uart :: "gctx \<Rightarrow> val gop" where
  "recover_uart cx =
     g_then (op_check cx)
     (g_then (io_or (\<lambda>_. TimeoutErr ''Gateway UART recovery already in progress''))
     (g_then (op_check cx)
     (g_bind g_client (\<lambda>c.
        if cl_startup_owner c \<noteq> None \<or> cl_reset_owner c \<noteq> None
        then g_raise (RuntimeErr ''Gateway startup/reset already in progress'')
        else g_then (g_upd (\<lambda>c. c\<lparr>cl_startup_owner := Some (cx_thread cx)\<rparr>))
          (g_finally
            (g_except (probe_or_reopen cx)
              (\<lambda>e. g_then (g_upd (\<lambda>c. c\<lparr>cl_phase := ''unavailable''\<rparr>)) (g_raise e)))
            (g_upd (\<lambda>c. c\<lparr>cl_startup_owner := None\<rparr>)))))))"

section \<open>Start and reset\<close>

text \<open>\<open>reset_session\<close>, with the \<open>start\<close> and the \<open>send\<close> it calls as arguments.\<close>

definition reset_confirmed :: "string \<Rightarrow> unit gop" where
  "reset_confirmed rid =
     g_then (g_upd (\<lambda>c. c\<lparr>cl_pending_reset_ids := [], cl_reset_unconfirmed := False\<rparr>))
       (g_log (Dispatched ''gateway_session_reset''
          (VDict [(''type'', VStr ''gateway_session_reset''), (''request_id'', VStr rid)])))"

definition perform_reset :: "(gctx \<Rightarrow> val \<Rightarrow> unit gop) \<Rightarrow> gctx \<Rightarrow> unit gop" where
  "perform_reset send cx =
     g_bind g_client (\<lambda>c.
       if cl_active c \<noteq> [] \<or> cl_reset_owner c \<noteq> None
       then g_raise (RuntimeErr ''Gateway BLE session reset prohibited during active acquisition or reset'')
       else g_then (g_upd (\<lambda>c. c\<lparr>cl_reset_owner := Some (cx_thread cx), cl_reset_unconfirmed := True\<rparr>))
         (g_bind (request_id ''reset'') (\<lambda>rid.
            g_then (register_request rid)
              (g_finally
                (g_then (g_upd (\<lambda>c. c\<lparr>cl_pending_reset_ids := List.insert rid (cl_pending_reset_ids c)\<rparr>))
                (g_then (send cx (VDict [(''type'', VStr ''reset_session''), (''request_id'', VStr rid)]))
                (g_then (wait_for_success cx rid ''reset_session_complete'')
                 (reset_confirmed rid))))
                (g_then (unregister_request rid) (g_upd (\<lambda>c. c\<lparr>cl_reset_owner := None\<rparr>)))))))"

definition reset_session_by :: "(gctx \<Rightarrow> unit gop) \<Rightarrow> (gctx \<Rightarrow> val \<Rightarrow> unit gop) \<Rightarrow> gctx \<Rightarrow> unit gop" where
  "reset_session_by start send cx =
     g_bind g_client (\<lambda>c.
       if cl_active c \<noteq> [] then g_raise (RuntimeErr ''Gateway BLE session reset prohibited during active acquisition'')
       else if cl_reset_owner c \<noteq> None then g_raise (RuntimeErr ''Gateway BLE session reset already in progress'')
       else if cl_startup_owner c \<notin> {None, Some (cx_thread cx)}
       then g_raise (RuntimeErr ''Gateway startup already in progress'')
       else if cl_started c then g_then pause (perform_reset send cx)
       else if cl_has_opened_uart c then g_then (start cx) (g_then pause (perform_reset send cx))
       else start cx)"

definition hello_by :: "(gctx \<Rightarrow> val \<Rightarrow> unit gop) \<Rightarrow> int \<Rightarrow> gctx \<Rightarrow> unit gop" where
  "hello_by send version cx = with_request ''hello_host_tool''
     (g_then (\<lambda>w. send cx (VDict [(''type'', VStr ''hello''), (''request_id'', VStr ''hello_host_tool''),
               (''protocol_version'', VInt version), (''client'', VStr (gw_client_name w))]) w)
       (g_then (wait_for_success cx ''hello_host_tool'' ''hello_ack'') (g_ret ())))"

text \<open>\<open>start\<close>, with the handshake it performs on a port opened for the first time as an argument.\<close>

definition open_port :: "unit gop" where
  "open_port = g_bind resolve_port (\<lambda>port.
     g_then (g_upd (\<lambda>c. c\<lparr>cl_serial_port := Some port\<rparr>))
     (g_then (io_or (\<lambda>e. e))
     (g_then (g_log (Opened port))
      (g_upd (\<lambda>c. c\<lparr>cl_ser := Some (True, True), cl_has_opened_uart := True, cl_running := True, cl_reader := True,
         cl_started := True, cl_phase := ''startup''\<rparr>)))))"

definition start_by :: "(gctx \<Rightarrow> unit gop) \<Rightarrow> gctx \<Rightarrow> unit gop" where
  "start_by handshake cx =
     g_bind g_client (\<lambda>c.
       if cl_startup_owner c \<noteq> None then
         (if cl_startup_owner c = Some (cx_thread cx) then g_ret ()
          else g_raise (RuntimeErr ''Gateway startup already in progress''))
       else if cl_started c then g_ret ()
       else if cl_has_opened_uart c then g_then (recover_uart cx) (g_ret ())
       else if cl_active c \<noteq> []
       then g_raise (RuntimeErr ''Gateway startup/reset prohibited during active acquisition'')
       else g_then (g_upd (\<lambda>c. c\<lparr>cl_startup_owner := Some (cx_thread cx)\<rparr>))
         (g_finally
           (g_except (g_then open_port (handshake cx))
             (\<lambda>e. g_then close_transport (g_raise e)))
           (g_upd (\<lambda>c. c\<lparr>cl_startup_owner := None\<rparr>))))"

text \<open>The commands of the handshake are sent while the caller owns the startup, so the \<open>start\<close> that
  they call again returns at once; the calls are unfolded to that depth.\<close>

definition start_again :: "gctx \<Rightarrow> unit gop" where
  "start_again = start_by (\<lambda>_. g_raise (OtherErr ''RecursionError''))"

definition send_handshake :: "gctx \<Rightarrow> val \<Rightarrow> unit gop" where
  "send_handshake = send_by start_again"

definition handshake :: "gctx \<Rightarrow> unit gop" where
  "handshake cx = g_then (reset_session_by start_again send_handshake cx) (\<lambda>w. hello_by send_handshake (gw_protocol_version w) cx w)"

definition start_client :: "gctx \<Rightarrow> unit gop" where
  "start_client = start_by handshake"

definition send :: "gctx \<Rightarrow> val \<Rightarrow> unit gop" where
  "send = send_by start_client"

definition reset_session :: "gctx \<Rightarrow> unit gop" where
  "reset_session = reset_session_by start_client send"

definition hello :: "int \<Rightarrow> gctx \<Rightarrow> unit gop" where
  "hello = hello_by send"

end
