(* ===== verification/Gateway_Operations.thy ===== *)
theory Gateway_Operations
  imports Gateway_Client
begin

text \<open>
  The operations of \<open>GatewaySerialClient\<close> on BLE devices, from
  \<^verbatim>\<open>sensor_manager/adapters/gateway_ble_client.py\<close>: the transport retry, scan, connect,
  subscribe, unsubscribe, GATT read and write, disconnect, the status snapshot, and the conversion
  of scan results for the sensor manager.
\<close>

section \<open>Retry\<close>

fun py_in :: "string \<Rightarrow> string \<Rightarrow> bool" where
  "py_in p [] = (p = [])"
| "py_in p (c # cs) = (py_startswith (c # cs) p \<or> py_in p cs)"

fun is_transport_retryable :: "gexc \<Rightarrow> bool" where
  "is_transport_retryable (TimeoutErr text) =
     (py_in ''gateway response'' text \<or> py_in ''scan_complete'' text \<or> py_in ''status snapshot'' text \<or>
      py_in ''gatt_read'' text)"
| "is_transport_retryable (SerialErr text) = True"
| "is_transport_retryable (OsErr text) = True"
| "is_transport_retryable (RuntimeErr text) = False"
| "is_transport_retryable (OtherErr text) = False"

definition execute_with_transport_retry :: "bool \<Rightarrow> (gctx \<Rightarrow> 'a gop) \<Rightarrow> gctx \<Rightarrow> 'a gop" where
  "execute_with_transport_retry cleanup func cx =
     g_then (op_check cx)
       (if cx_operation cx \<or> cleanup then func (cx\<lparr>cx_cleanup := True\<rparr>)
        else g_except (func cx) (\<lambda>e.
          if \<not> is_os_error e then g_raise e
          else g_then pause (g_bind g_client (\<lambda>c.
            if cl_active c \<noteq> [] then g_raise e
            else if \<not> is_transport_retryable e then g_raise e
            else g_then (recover_uart cx) (func cx)))))"

section \<open>Scan\<close>

record discovered_device =
  dd_address :: string
  dd_name :: string
  dd_rssi :: val
  dd_service_uuids :: "string list"
  dd_raw :: val

definition uuids_of :: "val \<Rightarrow> py_error + string list" where
  "uuids_of msg = rbind (py_iter (vget_or msg ''service_uuids'' (VList [])))
     (\<lambda>vs. Inr (map (\<lambda>v. py_lower (py_str v)) (filter is_str vs)))"

text \<open>One \<open>scan_result\<close>. The entry built from the merge with an earlier result of the same address is
  assigned first, and overwritten by one with this result's own services and signal strength.\<close>

definition merged_device :: "val \<Rightarrow> string \<Rightarrow> string list \<Rightarrow> string \<Rightarrow> discovered_device option \<Rightarrow> discovered_device" where
  "merged_device msg name uuids address existing = (case existing of
     None \<Rightarrow> \<lparr>dd_address = address, dd_name = name, dd_rssi = vget msg ''rssi'', dd_service_uuids = uuids, dd_raw = msg\<rparr>
   | Some old \<Rightarrow> \<lparr>dd_address = address, dd_name = (if name = [] then dd_name old else name),
       dd_rssi = (if vget msg ''rssi'' \<noteq> VNone then vget msg ''rssi'' else dd_rssi old),
       dd_service_uuids = rev (remdups (rev (dd_service_uuids old @ uuids))), dd_raw = msg\<rparr>)"

definition add_match :: "val \<Rightarrow> string \<Rightarrow> string list \<Rightarrow> string \<Rightarrow> (string, discovered_device) dict \<Rightarrow> (string, discovered_device) dict" where
  "add_match msg name uuids address matches =
     (let merged = merged_device msg name uuids address (map_of matches address);
          matches = dput address merged matches
      in dput address \<lparr>dd_address = address, dd_name = dd_name merged, dd_rssi = vget msg ''rssi'',
           dd_service_uuids = uuids, dd_raw = msg\<rparr> matches)"

definition scan_result :: "string option \<Rightarrow> string option \<Rightarrow> val \<Rightarrow> (string, discovered_device) dict \<Rightarrow>
    py_error + (string, discovered_device) dict" where
  "scan_result name_filter name_prefix_filter msg matches =
     (let name = py_str (vget_or msg ''name'' (VStr [])) in
      if (\<exists>f \<in> set_option name_filter. name \<noteq> f) then Inr matches
      else if (\<exists>f \<in> set_option name_prefix_filter. \<not> py_startswith name f) then Inr matches
      else rbind (normalize_address (vget msg ''address'')) (\<lambda>address.
        if address = [] then Inr matches
        else rbind (uuids_of msg) (\<lambda>uuids. Inr (add_match msg name uuids address matches))))"

definition scan_step :: "string option \<Rightarrow> string option \<Rightarrow> string \<Rightarrow> (string, discovered_device) dict \<Rightarrow> val \<Rightarrow>
    ((string, discovered_device) dict + discovered_device list) gop" where
  "scan_step name_filter name_prefix_filter rid matches msg =
     (if is_reply ''scan_result'' rid msg
      then g_bind (g_lift (scan_result name_filter name_prefix_filter msg matches)) (\<lambda>ms. g_ret (Inl ms))
      else if is_reply ''scan_complete'' rid msg then g_ret (Inr (dvalues matches))
      else g_ret (Inl matches))"

definition scan_once :: "int \<Rightarrow> string option \<Rightarrow> string option \<Rightarrow> gctx \<Rightarrow> discovered_device list gop" where
  "scan_once timeout_ms name_filter name_prefix_filter cx =
     g_bind (request_id ''scan'') (\<lambda>rid. with_request rid
       (g_then (send cx (VDict [(''type'', VStr ''scan_start''), (''request_id'', VStr rid), (''timeout_ms'', VInt timeout_ms)]))
         (receive rid (next_message cx rid)
            (\<lambda>_. g_raise (TimeoutErr ''Timed out waiting for scan_complete''))
            (scan_step name_filter name_prefix_filter rid) [])))"

definition scan :: "int \<Rightarrow> string option \<Rightarrow> string option \<Rightarrow> gctx \<Rightarrow> discovered_device list gop" where
  "scan timeout_ms name_filter name_prefix_filter cx =
     execute_with_transport_retry False (scan_once timeout_ms name_filter name_prefix_filter) cx"

record gateway_ble_device =
  bd_address :: string
  bd_name :: string
  bd_path :: "string option"

record advertisement_data =
  ad_local_name :: string
  ad_service_uuids :: "string list"
  ad_rssi :: val

definition discovered_devices_to_discovery_map ::
  "discovered_device list \<Rightarrow> (string, gateway_ble_device \<times> advertisement_data) dict" where
  "discovered_devices_to_discovery_map devices = fold (\<lambda>d acc. dput (dd_address d)
     (\<lparr>bd_address = dd_address d, bd_name = dd_name d, bd_path = Some (dd_address d)\<rparr>,
      \<lparr>ad_local_name = dd_name d, ad_service_uuids = dd_service_uuids d, ad_rssi = dd_rssi d\<rparr>) acc) devices []"

section \<open>Connect and disconnect\<close>

record sensor_connection =
  sn_address :: string
  sn_sensor_id :: "val option"

text \<open>The loops keep the addresses still pending and the result so far.\<close>

definition finish_connect :: "string list \<times> sensor_connection list \<Rightarrow> sensor_connection list gop" where
  "finish_connect st = (case st of (pending, connected) \<Rightarrow>
     g_then (g_guard (pending = []) (TimeoutErr (''Failed to connect: '' @ py_join '', '' pending))) (g_ret connected))"

definition go_on :: "('s \<Rightarrow> string list) \<Rightarrow> ('s \<Rightarrow> 'r gop) \<Rightarrow> 's \<Rightarrow> ('s + 'r) gop" where
  "go_on pending finish s = (if pending s = [] then g_bind (finish s) (\<lambda>r. g_ret (Inr r)) else g_ret (Inl s))"

definition connect_step :: "string \<Rightarrow> string list \<times> sensor_connection list \<Rightarrow> val \<Rightarrow>
    (string list \<times> sensor_connection list + sensor_connection list) gop" where
  "connect_step rid st msg = (case st of (pending, connected) \<Rightarrow>
     if vget msg ''type'' = VStr ''sensor_connected'' then
       g_bind (g_lift (normalize_address (vget msg ''address''))) (\<lambda>address.
         if address \<in> set pending
         then g_then (g_upd (\<lambda>c. c\<lparr>cl_disconnected := removeAll address (cl_disconnected c)\<rparr>))
                (go_on fst finish_connect (remove1 address pending, connected @
                   [\<lparr>sn_address = address, sn_sensor_id =
                      (if is_int (vget msg ''sensor_id'') then Some (vget msg ''sensor_id'') else None)\<rparr>]))
         else go_on fst finish_connect st)
     else if vget msg ''type'' = VStr ''sensor_disconnected'' then
       g_bind (g_lift (normalize_address (vget msg ''address''))) (\<lambda>address.
         go_on fst finish_connect (remove1 address pending, connected))
     else g_then (raise_if_error msg rid ''Gateway connect failed'') (go_on fst finish_connect st))"

definition connect_once :: "string list \<Rightarrow> gctx \<Rightarrow> sensor_connection list gop" where
  "connect_once addresses cx = g_bind (request_id ''connect'') (\<lambda>rid. with_request rid
     (g_then (send cx (VDict [(''type'', VStr ''connect_addresses''), (''request_id'', VStr rid),
               (''addresses'', VList (map VStr addresses))]))
       (if addresses = [] then finish_connect ([], [])
        else receive rid (next_message cx rid) finish_connect (connect_step rid) (map norm addresses, []))))"

definition connect :: "string list \<Rightarrow> bool \<Rightarrow> gctx \<Rightarrow> sensor_connection list gop" where
  "connect addresses cleanup cx = execute_with_transport_retry cleanup (connect_once addresses) cx"

definition is_disconnected :: "string \<Rightarrow> gclient \<Rightarrow> bool" where
  "is_disconnected address c \<longleftrightarrow> norm address \<in> set (cl_disconnected c)"

definition assert_connected :: "string \<Rightarrow> string \<Rightarrow> unit gop" where
  "assert_connected address action = g_bind g_client (\<lambda>c. g_guard (\<not> is_disconnected address c)
     (RuntimeErr (''sensor already disconnected before '' @ action @ '' address='' @ address)))"

definition finish_disconnect :: "bool \<Rightarrow> string list \<times> string list \<Rightarrow> string list gop" where
  "finish_disconnect allow_timeout st = (case st of (pending, disconnected) \<Rightarrow>
     g_then (g_guard (pending = [] \<or> allow_timeout) (TimeoutErr (''Failed to disconnect: '' @ py_join '', '' pending)))
       (g_ret disconnected))"

definition already_disconnected :: "string \<Rightarrow> string \<Rightarrow> unit gop" where
  "already_disconnected rid address =
     g_then (g_upd (\<lambda>c. c\<lparr>cl_disconnected := List.insert address (cl_disconnected c)\<rparr>))
       (g_log (Dispatched ''sensor_disconnected'' (VDict [(''type'', VStr ''sensor_disconnected''),
          (''address'', VStr address), (''request_id'', VStr rid), (''already_disconnected'', VBool True)])))"

definition disconnect_step :: "string list \<Rightarrow> bool \<Rightarrow> string \<Rightarrow> string list \<times> string list \<Rightarrow> val \<Rightarrow>
    (string list \<times> string list + string list) gop" where
  "disconnect_step addresses allow_timeout rid st msg = (case st of (pending, disconnected) \<Rightarrow>
     if vget msg ''type'' = VStr ''sensor_disconnected'' then
       g_bind (g_lift (normalize_address (vget msg ''address''))) (\<lambda>address.
         go_on fst (finish_disconnect allow_timeout)
           (if address \<in> set pending then (remove1 address pending, disconnected @ [address]) else st))
     else if is_reply ''error'' rid msg then
       (if vget msg ''error_code'' = VInt (-3) then
          (case addresses of
             [a] \<Rightarrow> g_then (already_disconnected rid (norm a))
                     (g_bind (finish_disconnect allow_timeout ([], disconnected @ [norm a])) (\<lambda>r. g_ret (Inr r)))
           | _ \<Rightarrow> g_bind (finish_disconnect allow_timeout st) (\<lambda>r. g_ret (Inr r)))
        else g_then (raise_if_error msg rid ''Gateway disconnect failed'') (g_ret (Inl st)))
     else g_ret (Inl st))"

text \<open>A wait that runs out returns what is disconnected so far when timeouts are allowed.\<close>

fun is_timeout :: "gexc \<Rightarrow> bool" where
  "is_timeout (TimeoutErr s) = True"
| "is_timeout _ = False"

definition disconnect_wait :: "bool \<Rightarrow> gctx \<Rightarrow> string \<Rightarrow> string list \<times> string list \<Rightarrow> (val + string list) gop" where
  "disconnect_wait allow_timeout cx rid st = g_except (next_message cx rid st)
     (\<lambda>e. if is_timeout e \<and> allow_timeout then g_ret (Inr (snd st)) else g_raise e)"

definition disconnect_once :: "string list \<Rightarrow> bool \<Rightarrow> gctx \<Rightarrow> string list gop" where
  "disconnect_once addresses allow_timeout cx = g_bind (request_id ''disconnect'') (\<lambda>rid. with_request rid
     (g_bind g_client (\<lambda>c.
       let pending = filter (\<lambda>a. a \<notin> set (cl_disconnected c)) (map norm addresses);
           disconnected = filter (\<lambda>a. a \<in> set (cl_disconnected c)) (map norm addresses)
       in if pending = [] then g_ret disconnected
          else g_then (send cx (VDict [(''type'', VStr ''disconnect_addresses''), (''request_id'', VStr rid),
                        (''addresses'', VList (map VStr addresses))]))
                 (receive rid (disconnect_wait allow_timeout cx rid) (finish_disconnect allow_timeout)
                    (disconnect_step addresses allow_timeout rid) (pending, disconnected)))))"

definition disconnect :: "string list \<Rightarrow> bool \<Rightarrow> bool \<Rightarrow> gctx \<Rightarrow> string list gop" where
  "disconnect addresses allow_timeout cleanup cx =
     execute_with_transport_retry cleanup (disconnect_once addresses allow_timeout) cx"

section \<open>Subscriptions, reads and writes\<close>

text \<open>A request that is answered by one message of a given type.\<close>

definition subscribe_once :: "string \<Rightarrow> string \<Rightarrow> bool \<Rightarrow> bool \<Rightarrow> gctx \<Rightarrow> unit gop" where
  "subscribe_once address characteristic_uuid binary_notifications indicate cx =
     g_bind (request_id ''subscribe'') (\<lambda>rid. with_request rid
       (g_then (send cx (VDict [(''type'', VStr ''subscribe''), (''request_id'', VStr rid), (''address'', VStr address),
                 (''characteristic_uuid'', VStr characteristic_uuid), (''binary_notifications'', VBool binary_notifications),
                 (''indicate'', VBool indicate)]))
         (g_then (wait_for_success cx rid ''subscribe_complete'') (g_ret ()))))"

definition subscribe :: "string \<Rightarrow> string \<Rightarrow> bool \<Rightarrow> bool \<Rightarrow> bool \<Rightarrow> gctx \<Rightarrow> unit gop" where
  "subscribe address characteristic_uuid binary_notifications indicate cleanup cx =
     execute_with_transport_retry cleanup (subscribe_once address characteristic_uuid binary_notifications indicate) cx"

fun exc_text :: "gexc \<Rightarrow> string" where
  "exc_text (TimeoutErr s) = s"
| "exc_text (SerialErr s) = s"
| "exc_text (OsErr s) = s"
| "exc_text (RuntimeErr s) = s"
| "exc_text (OtherErr s) = s"

text \<open>The attempts of \<open>subscribe_with_retry\<close>; \<open>n\<close> attempts are left.\<close>

fun attempt_subscribe :: "nat \<Rightarrow> string \<Rightarrow> unit gop \<Rightarrow> unit gop" where
  "attempt_subscribe 0 address try_once = g_ret ()"
| "attempt_subscribe (Suc n) address try_once =
     g_then (assert_connected address ''subscribe'')
       (g_except try_once (\<lambda>e. g_bind g_client (\<lambda>c.
          if is_disconnected address c
          then g_raise (RuntimeErr (''sensor disconnected during subscribe address='' @ address @ '': '' @ exc_text e))
          else if n = 0 then g_raise e
          else g_then pause (attempt_subscribe n address try_once))))"

definition subscribe_with_retry :: "string \<Rightarrow> string \<Rightarrow> bool \<Rightarrow> bool \<Rightarrow> bool \<Rightarrow> int \<Rightarrow> gctx \<Rightarrow> unit gop" where
  "subscribe_with_retry address characteristic_uuid binary_notifications indicate cleanup attempts cx =
     attempt_subscribe (nat (max (if cleanup then 1 else attempts) 1)) (norm address)
       (subscribe (norm address) characteristic_uuid binary_notifications indicate cleanup cx)"

definition unsubscribe_once :: "string \<Rightarrow> string \<Rightarrow> gctx \<Rightarrow> unit gop" where
  "unsubscribe_once address characteristic_uuid cx =
     g_bind (request_id ''unsubscribe'') (\<lambda>rid. with_request rid
       (g_then (send cx (VDict [(''type'', VStr ''unsubscribe''), (''request_id'', VStr rid),
                 (''address'', VStr address), (''characteristic_uuid'', VStr characteristic_uuid)]))
         (g_then (wait_for_success cx rid ''unsubscribe_complete'') (g_ret ()))))"

definition unsubscribe :: "string \<Rightarrow> string \<Rightarrow> bool \<Rightarrow> gctx \<Rightarrow> unit gop" where
  "unsubscribe address characteristic_uuid cleanup cx =
     g_then (assert_connected (norm address) ''unsubscribe'')
       (execute_with_transport_retry cleanup (unsubscribe_once (norm address) characteristic_uuid) cx)"

text \<open>\<open>Some ()\<close> is a confirmed write, \<open>None\<close> one whose confirmation timed out.\<close>

definition write_once :: "string \<Rightarrow> string \<Rightarrow> string \<Rightarrow> bool \<Rightarrow> bool \<Rightarrow> gctx \<Rightarrow> unit option gop" where
  "write_once address characteristic_uuid payload_hex without_response allow_timeout cx =
     g_bind (request_id ''write'') (\<lambda>rid. with_request rid
       (g_then (send cx (VDict [(''type'', VStr ''gatt_write''), (''request_id'', VStr rid), (''address'', VStr address),
                 (''characteristic_uuid'', VStr characteristic_uuid), (''payload_hex'', VStr payload_hex),
                 (''without_response'', VBool without_response)]))
         (g_except (g_then (wait_for_success cx rid ''write_complete'') (g_ret (Some ())))
           (\<lambda>e. if is_timeout e \<and> allow_timeout then g_ret None else g_raise e))))"

definition write_gatt :: "string \<Rightarrow> string \<Rightarrow> string \<Rightarrow> bool \<Rightarrow> bool \<Rightarrow> bool \<Rightarrow> gctx \<Rightarrow> unit option gop" where
  "write_gatt address characteristic_uuid payload_hex without_response allow_timeout cleanup cx =
     execute_with_transport_retry cleanup
       (write_once address characteristic_uuid payload_hex without_response allow_timeout) cx"

text \<open>\<open>bytes.fromhex\<close>: pairs of hexadecimal digits, with white space allowed between the pairs.\<close>

definition hex_digit :: "char \<Rightarrow> nat option" where
  "hex_digit c = (if char_in 48 57 c then Some (of_char c - 48)
     else if char_in 97 102 c then Some (of_char c - 87)
     else if char_in 65 70 c then Some (of_char c - 55) else None)"

fun py_fromhex :: "string \<Rightarrow> byte list option" where
  "py_fromhex [] = Some []"
| "py_fromhex [c] = (if char_in 9 13 c \<or> char_in 32 32 c then Some [] else None)"
| "py_fromhex (c # d # cs) =
     (if char_in 9 13 c \<or> char_in 32 32 c then py_fromhex (d # cs)
      else case (hex_digit c, hex_digit d, py_fromhex cs) of
             (Some h, Some l, Some bs) \<Rightarrow> Some (of_nat (16 * h + l) # bs)
           | _ \<Rightarrow> None)"

definition read_step :: "string \<Rightarrow> unit \<Rightarrow> val \<Rightarrow> (unit + byte list) gop" where
  "read_step rid s msg =
     (if is_reply ''read_result'' rid msg
      then (case py_fromhex (py_str (vget_or msg ''payload_hex'' (VStr []))) of
              None \<Rightarrow> g_raise (OtherErr ''ValueError'')
            | Some bs \<Rightarrow> g_ret (Inr bs))
      else g_then (raise_if_error msg rid ''Gateway gatt_read failed'') (g_ret (Inl ())))"

definition read_once :: "string \<Rightarrow> string \<Rightarrow> gctx \<Rightarrow> byte list gop" where
  "read_once address characteristic_uuid cx =
     g_bind (request_id ''read'') (\<lambda>rid. with_request rid
       (g_then (send cx (VDict [(''type'', VStr ''gatt_read''), (''request_id'', VStr rid), (''address'', VStr address),
                 (''characteristic_uuid'', VStr characteristic_uuid)]))
         (receive rid (next_message cx rid)
            (\<lambda>_. g_raise (TimeoutErr (''Timed out waiting for gatt_read on '' @ address))) (read_step rid) ())))"

definition read_gatt :: "string \<Rightarrow> string \<Rightarrow> bool \<Rightarrow> gctx \<Rightarrow> byte list gop" where
  "read_gatt address characteristic_uuid cleanup cx =
     execute_with_transport_retry cleanup (read_once address characteristic_uuid) cx"

section \<open>Status snapshot\<close>

text \<open>The loop state says which of the three parts have arrived.\<close>

definition snapshot_of :: "gclient \<Rightarrow> val" where
  "snapshot_of c = VDict [(''transport'', cl_transport_stats c), (''ble_rx'', VDict (cl_ble_rx_stats c)),
     (''order_trace'', VList (cl_order_trace c))]"

definition status_step :: "bool \<times> bool \<times> bool \<Rightarrow> val \<Rightarrow> (bool \<times> bool \<times> bool + val) gop" where
  "status_step st msg = (case st of (saw_status, saw_transport_stats, saw_ble_stats_complete) \<Rightarrow>
     (let t = vget msg ''type'';
          st = (if t = VStr ''status'' then (True, saw_transport_stats, saw_ble_stats_complete)
                else if t = VStr ''gateway_transport_stats'' then (saw_status, True, saw_ble_stats_complete)
                else if t = VStr ''ble_notification_rx_stats_complete'' then (saw_status, saw_transport_stats, True)
                else st)
      in if st = (True, True, True) then g_bind g_client (\<lambda>c. g_ret (Inr (snapshot_of c))) else g_ret (Inl st)))"

definition status_late :: "bool \<times> bool \<times> bool \<Rightarrow> val gop" where
  "status_late st = (case st of (saw_status, saw_transport_stats, saw_ble_stats_complete) \<Rightarrow>
     g_raise (TimeoutErr (''Timed out waiting for complete status snapshot: '' @
       ''saw_status='' @ py_str (VBool saw_status) @ '' saw_transport_stats='' @ py_str (VBool saw_transport_stats) @
       '' saw_ble_stats_complete='' @ py_str (VBool saw_ble_stats_complete))))"

definition status_once :: "gctx \<Rightarrow> val gop" where
  "status_once cx = g_bind (request_id ''status'') (\<lambda>rid.
     g_then (register_request rid)
       (g_then (g_upd (\<lambda>c. c\<lparr>cl_transport_stats := VDict [], cl_ble_rx_stats := [], cl_order_trace := []\<rparr>))
         (g_finally
           (g_then (send cx (VDict [(''type'', VStr ''get_status''), (''request_id'', VStr rid)]))
             (receive rid (next_message cx rid) status_late status_step (False, False, False)))
           (unregister_request rid))))"

definition get_status_snapshot :: "gctx \<Rightarrow> val gop" where
  "get_status_snapshot cx = execute_with_transport_retry False status_once cx"

section \<open>Sequences of operations\<close>

text \<open>The operations of the client, and any sequence of them by any threads, each one's result or
  exception going to its caller.\<close>

datatype gateway_op =
    OpStart
  | OpHello int
  | OpReset
  | OpClose
  | OpScope "string list" bool
  | OpRecover
  | OpInventory
  | OpStatus
  | OpScan int "string option" "string option"
  | OpConnect "string list" bool
  | OpDisconnect "string list" bool bool
  | OpSubscribe string string bool bool bool
  | OpSubscribeRetry string string bool bool bool int
  | OpUnsubscribe string string bool
  | OpWrite string string string bool bool bool
  | OpRead string string bool

definition set_scope :: "string list \<Rightarrow> bool \<Rightarrow> unit gop" where
  "set_scope addresses app = (\<lambda>w. case set_acquisition_scope addresses app (gw_client w) of
     Inl e \<Rightarrow> (Inl e, w) | Inr c \<Rightarrow> (Inr (), w\<lparr>gw_client := c\<rparr>))"

definition void :: "'a gop \<Rightarrow> unit gop" where
  "void m = g_then m (g_ret ())"

fun run_op :: "gctx \<Rightarrow> gateway_op \<Rightarrow> unit gop" where
  "run_op cx OpStart = start_client cx"
| "run_op cx (OpHello v) = hello v cx"
| "run_op cx OpReset = reset_session cx"
| "run_op cx OpClose = close_client"
| "run_op cx (OpScope addresses app) = set_scope addresses app"
| "run_op cx OpRecover = void (recover_uart cx)"
| "run_op cx OpInventory = void (get_connection_inventory cx)"
| "run_op cx OpStatus = void (get_status_snapshot cx)"
| "run_op cx (OpScan t nf pf) = void (scan t nf pf cx)"
| "run_op cx (OpConnect as cleanup) = void (connect as cleanup cx)"
| "run_op cx (OpDisconnect as allow cleanup) = void (disconnect as allow cleanup cx)"
| "run_op cx (OpSubscribe a u b i cleanup) = subscribe a u b i cleanup cx"
| "run_op cx (OpSubscribeRetry a u b i cleanup n) = subscribe_with_retry a u b i cleanup n cx"
| "run_op cx (OpUnsubscribe a u cleanup) = unsubscribe a u cleanup cx"
| "run_op cx (OpWrite a u p r allow cleanup) = void (write_gatt a u p r allow cleanup cx)"
| "run_op cx (OpRead a u cleanup) = void (read_gatt a u cleanup cx)"

definition run_ops :: "(gctx \<times> gateway_op) list \<Rightarrow> gworld \<Rightarrow> gworld" where
  "run_ops ops w = fold (\<lambda>(cx, op) w. snd (run_op cx op w)) ops w"

end
