(* ===== verification/Gateway_Client_Props.thy ===== *)
theory Gateway_Client_Props
  imports Gateway_Operations
begin

text \<open>
  Properties of the gateway client that hold of every operation, whatever the other threads and the
  operating system do. A property is a relation between the world before and the world after a
  computation, reflexive and transitive; the locale \<open>client_core\<close> states what the elementary steps
  have to keep, and proves once that all operations then keep it.
\<close>

section \<open>Relations kept by computations\<close>

definition keeps :: "(gworld \<Rightarrow> gworld \<Rightarrow> bool) \<Rightarrow> 'a gop \<Rightarrow> bool" where
  "keeps R m \<longleftrightarrow> (\<forall>w. R w (snd (m w)))"

lemma keepsI: "(\<And>w. R w (snd (m w))) \<Longrightarrow> keeps R m"
  by (simp add: keeps_def)

lemma keepsD: "keeps R m \<Longrightarrow> R w (snd (m w))"
  by (simp add: keeps_def)

lemma snd_g_bind: "snd (g_bind m f w) = (case m w of (Inl e, w') \<Rightarrow> w' | (Inr x, w') \<Rightarrow> snd (f x w'))"
  by (auto simp: g_bind_def split: prod.splits sum.splits)

lemma run_bind: "m w = (Inr x, w') \<Longrightarrow> g_bind m f w = f x w'"
  by (simp add: g_bind_def)

lemma run_then: "m w = (Inr x, w') \<Longrightarrow> g_then m n w = n w'"
  by (simp add: g_then_def g_bind_def)

lemma run_finally: "m w = (r, w') \<Longrightarrow> g_finally m f w = (r, snd (f w'))"
  by (simp add: g_finally_def)

lemma run_client: "g_client w = (Inr (gw_client w), w)"
  by (simp add: g_client_def)

lemma run_upd: "g_upd f w = (Inr (), w\<lparr>gw_client := f (gw_client w)\<rparr>)"
  by (simp add: g_upd_def)

text \<open>Updates that concern only what the client knows about its sensors.\<close>

definition transport_part :: "gclient \<Rightarrow> gclient" where
  "transport_part c = c\<lparr>cl_disconnected := [], cl_notification_drop_count := VNone, cl_transport_stats := VNone,
     cl_ble_rx_stats := [], cl_order_trace := [], cl_phase := []\<rparr>"

definition harmless :: "(gclient \<Rightarrow> gclient) \<Rightarrow> bool" where
  "harmless f \<longleftrightarrow> (\<forall>c. transport_part (f c) = transport_part c)"

lemma transport_part_fields:
  assumes e: "transport_part c' = transport_part c"
  shows
    "cl_active c' = cl_active c" "cl_startup_owner c' = cl_startup_owner c" "cl_reset_owner c' = cl_reset_owner c"
    "cl_pending c' = cl_pending c" "cl_queues c' = cl_queues c" "cl_request_id_counter c' = cl_request_id_counter c"
    "cl_reset_unconfirmed c' = cl_reset_unconfirmed c" "cl_pending_reset_ids c' = cl_pending_reset_ids c" "cl_running c' = cl_running c"
    "cl_reader c' = cl_reader c" "cl_started c' = cl_started c" "cl_ser c' = cl_ser c"
    "cl_line_state c' = cl_line_state c" "cl_generation c' = cl_generation c" "cl_has_opened_uart c' = cl_has_opened_uart c"
    "cl_tx_flush c' = cl_tx_flush c"
  using
      arg_cong [OF e, of cl_active] arg_cong [OF e, of cl_startup_owner] arg_cong [OF e, of cl_reset_owner]
      arg_cong [OF e, of cl_pending] arg_cong [OF e, of cl_queues] arg_cong [OF e, of cl_request_id_counter]
      arg_cong [OF e, of cl_reset_unconfirmed] arg_cong [OF e, of cl_pending_reset_ids] arg_cong [OF e, of cl_running]
      arg_cong [OF e, of cl_reader] arg_cong [OF e, of cl_started] arg_cong [OF e, of cl_ser]
      arg_cong [OF e, of cl_line_state] arg_cong [OF e, of cl_generation] arg_cong [OF e, of cl_has_opened_uart]
      arg_cong [OF e, of cl_tx_flush]
  by (simp_all add: transport_part_def)

lemma harmless_part: "harmless f \<Longrightarrow> transport_part (f c) = transport_part c"
  by (simp add: harmless_def)

lemmas harmless_fields = transport_part_fields [OF harmless_part]

locale world_relation =
  fixes R :: "gworld \<Rightarrow> gworld \<Rightarrow> bool"
  assumes refl: "R w w"
    and trans: "R u v \<Longrightarrow> R v w \<Longrightarrow> R u w"
begin

lemma ret: "keeps R (g_ret x)"
  by (simp add: keeps_def g_ret_def refl)

lemma raising: "keeps R (g_raise e)"
  by (simp add: keeps_def g_raise_def refl)

lemma asking: "keeps R g_client"
  by (simp add: keeps_def g_client_def refl)

lemma guarding: "keeps R (g_guard b e)"
  by (simp add: g_guard_def ret raising)

lemma lifting: "keeps R (g_lift r)"
  by (simp add: g_lift_def ret raising split: sum.split py_error.split)

lemma binding:
  assumes "keeps R m" and "\<And>x. keeps R (f x)"
  shows "keeps R (g_bind m f)"
proof (rule keepsI)
  fix w
  obtain r w' where m: "m w = (r, w')" by (cases "m w")
  with keepsD [OF assms(1), of w] have "R w w'" by simp
  with m assms(2) show "R w (snd (g_bind m f w))"
    by (cases r) (auto simp: g_bind_def intro: trans keepsD)
qed

lemma sequencing: "keeps R m \<Longrightarrow> keeps R n \<Longrightarrow> keeps R (g_then m n)"
  by (simp add: g_then_def binding)

lemma catching:
  assumes "keeps R m" and "\<And>e. keeps R (h e)"
  shows "keeps R (g_except m h)"
proof (rule keepsI)
  fix w
  obtain r w' where m: "m w = (r, w')" by (cases "m w")
  with keepsD [OF assms(1), of w] have "R w w'" by simp
  with m assms(2) show "R w (snd (g_except m h w))"
    by (cases r) (auto simp: g_except_def intro: trans keepsD)
qed

lemma branching: "keeps R m \<Longrightarrow> keeps R n \<Longrightarrow> keeps R (if b then m else n)"
  by simp

lemma finishing:
  assumes "keeps R m" and "keeps R f"
  shows "keeps R (g_finally m f)"
proof (rule keepsI)
  fix w
  obtain r w' where m: "m w = (r, w')" by (cases "m w")
  with keepsD [OF assms(1), of w] have "R w w'" by simp
  from trans [OF this keepsD [OF assms(2)]] m show "R w (snd (g_finally m f w))"
    by (simp add: g_finally_def)
qed

lemmas keep_rules = ret raising asking guarding lifting binding sequencing catching finishing

end

text \<open>Relations kept by the elementary steps of the transport: calls to the operating system and the
  closing of the port.\<close>

locale elementary_steps = world_relation +
  assumes io: "keeps R next_io"
    and closing_step: "keeps R (g_upd closing)"
    and closed_step: "keeps R (g_upd closed)"
    and dropping_step: "keeps R (g_upd (\<lambda>c. c\<lparr>cl_pending := []\<rparr>))"
    and closing_log: "keeps R (g_log Closed)"
begin

lemma io_or_keeps: "keeps R (io_or f)"
  unfolding io_or_def by (intro keep_rules io) (simp add: keep_rules split: io.split)

lemma op_check_keeps: "keeps R (op_check cx)"
  by (simp add: op_check_def io_or_keeps ret)

lemma close_transport_keeps: "keeps R close_transport"
  unfolding close_transport_def
  by (auto intro!: keep_rules io closing_step closed_step closing_log io_or_keeps)

lemma handle_transport_failure_keeps: "keeps R handle_transport_failure"
  unfolding handle_transport_failure_def by (intro keep_rules close_transport_keeps dropping_step)

lemma write_command_keeps: "keeps R (g_log (Wrote obj)) \<Longrightarrow> keeps R (write_command cx obj)"
  unfolding write_command_def write_line_def
  by (auto intro!: keep_rules op_check_keeps io io_or_keeps handle_transport_failure_keeps split: io.split)

end

locale client_core = elementary_steps +
  assumes pausing: "keeps R pause"
    and getting: "keeps R (\<lambda>w. get_turns rid (gw_turns w) w)"
    and late: "gw_turns w = Late # ts \<Longrightarrow> R w (w\<lparr>gw_turns := ts\<rparr>)"
    and registering: "request_id prefix w = (Inr rid, w1) \<Longrightarrow> register_request rid w1 = (Inl e, w2) \<Longrightarrow> R w w2"
    and requesting: "request_id prefix w = (Inr rid, w1) \<Longrightarrow> register_request rid w1 = (Inr (), w2) \<Longrightarrow> R w2 w3 \<Longrightarrow>
      R w (snd (unregister_request rid w3))"
    and updating: "harmless f \<Longrightarrow> keeps R (g_upd f)"
    and reporting: "keeps R (g_log (Dispatched ''sensor_disconnected'' m))"
    and writing: "vget obj ''type'' \<noteq> VStr ''reset_session'' \<Longrightarrow> keeps R (g_log (Wrote obj))"
begin

lemma wait_for_message_keeps: "keeps R (wait_for_message cx rid)"
  unfolding wait_for_message_def by (intro keep_rules op_check_keeps getting)

lemma next_message_keeps: "keeps R (next_message cx rid s)"
  unfolding next_message_def by (intro keep_rules wait_for_message_keeps)

lemma receive_fuel_keeps:
  assumes "\<And>s. keeps R (wait s)" and "\<And>s. keeps R (late' s)" and "\<And>s m. keeps R (body s m)"
  shows "keeps R (receive_fuel n wait late' body s)"
proof (induction n arbitrary: s)
  case (Suc n)
  let ?go = "g_bind (wait s) (\<lambda>v. case v of
              Inr x \<Rightarrow> g_ret x
            | Inl m \<Rightarrow> g_bind (body s m) (\<lambda>r. case r of
                Inl s' \<Rightarrow> receive_fuel n wait late' body s'
              | Inr x \<Rightarrow> g_ret x))"
  have go: "keeps R ?go"
    by (intro binding assms) (auto simp: Suc ret split: sum.split intro!: binding assms)
  show ?case
  proof (rule keepsI)
    fix w
    show "R w (snd (receive_fuel (Suc n) wait late' body s w))"
    proof (cases "\<exists>ts. gw_turns w = Late # ts")
      case True
      then obtain ts where ts: "gw_turns w = Late # ts" ..
      from trans [OF late [OF ts] keepsD [OF assms(2)]] ts show ?thesis by simp
    next
      case False
      then have "receive_fuel (Suc n) wait late' body s w = ?go w"
        by (auto split: list.split turn.split)
      then show ?thesis using keepsD [OF go] by simp
    qed
  qed
qed (simp add: assms)

lemma receive_keeps:
  assumes "\<And>s. keeps R (wait s)" and "\<And>s. keeps R (late' s)" and "\<And>s m. keeps R (body s m)"
  shows "keeps R (receive rid wait late' body s)"
  unfolding receive_def
proof (rule keepsI)
  fix w
  show "R w (snd (receive_fuel (Suc (budget rid w)) wait late' body s w))"
    by (rule keepsD [OF receive_fuel_keeps [OF assms]])
qed

lemma raise_if_error_keeps: "keeps R (raise_if_error msg rid prefix)"
  by (simp add: raise_if_error_def guarding)

lemma wait_for_success_keeps: "keeps R (wait_for_success cx rid t)"
  unfolding wait_for_success_def
  by (intro receive_keeps keep_rules next_message_keeps) (auto intro!: keep_rules raise_if_error_keeps)

lemma with_request_keeps:
  assumes "\<And>rid. keeps R (body rid)"
  shows "keeps R (g_bind (request_id prefix) (\<lambda>rid. with_request rid (body rid)))"
proof (rule keepsI)
  fix w
  obtain rid w1 where r: "request_id prefix w = (Inr rid, w1)" by (simp add: request_id_def Let_def)
  obtain v w2 where g: "register_request rid w1 = (v, w2)" by (cases "register_request rid w1")
  show "R w (snd (g_bind (request_id prefix) (\<lambda>rid. with_request rid (body rid)) w))"
  proof (cases v)
    case (Inl e)
    with r g registering [OF r, of e w2] show ?thesis
      by (simp add: snd_g_bind with_request_def g_then_def g_bind_def)
  next
    case (Inr u)
    obtain x w3 where b: "body rid w2 = (x, w3)" by (cases "body rid w2")
    with keepsD [OF assms, of w2 rid] have "R w2 w3" by simp
    from requesting [OF r, of w2, OF _ this] r g b Inr show ?thesis
      by (simp add: snd_g_bind with_request_def g_then_def g_bind_def g_finally_def)
  qed
qed

lemma send_by_writes:
  assumes "keeps R (write_command cx obj)" and "cx_operation cx \<or> cx_cleanup cx \<or> keeps R (start cx)"
  shows "keeps R (send_by start cx obj)"
  unfolding send_by_def
  using assms by (auto intro!: keep_rules op_check_keeps pausing io_or_keeps)

lemmas send_by_keeps = send_by_writes [OF write_command_keeps [OF writing]]

lemma with_request_after:
  assumes "\<And>rid. keeps R (body rid)" and that: "harmless f"
  shows "keeps R (g_bind (request_id prefix) (\<lambda>rid. g_then (register_request rid)
    (g_then (g_upd f) (g_finally (body rid) (unregister_request rid)))))"
proof (rule keepsI)
  fix w
  obtain rid w1 where r: "request_id prefix w = (Inr rid, w1)" by (simp add: request_id_def Let_def)
  obtain v w2 where g: "register_request rid w1 = (v, w2)" by (cases "register_request rid w1")
  show "R w (snd (g_bind (request_id prefix) (\<lambda>rid. g_then (register_request rid)
    (g_then (g_upd f) (g_finally (body rid) (unregister_request rid)))) w))"
  proof (cases v)
    case (Inl e)
    with r g registering [OF r, of e w2] show ?thesis by (simp add: g_then_def g_bind_def)
  next
    case (Inr u)
    obtain x w3 where b: "body rid (snd (g_upd f w2)) = (x, w3)" by (cases "body rid (snd (g_upd f w2))")
    with keepsD [OF assms(1), of "snd (g_upd f w2)" rid] keepsD [OF updating [OF that], of w2]
    have "R w2 w3" by (auto intro: trans)
    from requesting [OF r, of w2, OF _ this] r g b Inr show ?thesis
      by (simp add: g_then_def g_bind_def g_finally_def g_upd_def)
  qed
qed

lemma send_cleanup_keeps: "vget obj ''type'' \<noteq> VStr ''reset_session'' \<Longrightarrow> keeps R (send_cleanup cx obj)"
  by (simp add: send_cleanup_def send_by_keeps)

lemma send_keeps:
  "vget obj ''type'' \<noteq> VStr ''reset_session'' \<Longrightarrow> cx_operation cx \<or> cx_cleanup cx \<or> keeps R (start_client cx) \<Longrightarrow>
   keeps R (send cx obj)"
  by (simp add: send_def send_by_keeps)

lemma get_connection_inventory_keeps: "keeps R (get_connection_inventory cx)"
  unfolding get_connection_inventory_def
  by (intro with_request_keeps keep_rules send_cleanup_keeps wait_for_success_keeps)
    (auto simp: vget_VDict Let_def intro!: keep_rules)

lemma go_on_keeps: "(\<And>s. keeps R (finish s)) \<Longrightarrow> keeps R (go_on pending finish s)"
  by (auto simp: go_on_def intro!: keep_rules)

lemma finish_connect_keeps: "keeps R (finish_connect st)"
  by (auto simp: finish_connect_def intro!: keep_rules split: prod.split)

lemma finish_disconnect_keeps: "keeps R (finish_disconnect allow st)"
  by (auto simp: finish_disconnect_def intro!: keep_rules split: prod.split)

lemma connect_step_keeps: "keeps R (connect_step rid st msg)"
proof -
  have "harmless (\<lambda>c. c\<lparr>cl_disconnected := removeAll a (cl_disconnected c)\<rparr>)" for a
    by (simp add: harmless_def transport_part_def)
  then show ?thesis
    unfolding connect_step_def
    by (auto split: prod.split intro!: keep_rules go_on_keeps finish_connect_keeps updating raise_if_error_keeps)
qed

lemma disconnect_step_keeps: "keeps R (disconnect_step as allow rid st msg)"
proof -
  have "harmless (\<lambda>c. c\<lparr>cl_disconnected := List.insert a (cl_disconnected c)\<rparr>)" for a
    by (simp add: harmless_def transport_part_def)
  then have "keeps R (already_disconnected rid a)" for a
    unfolding already_disconnected_def by (intro keep_rules updating reporting)
  then show ?thesis
    unfolding disconnect_step_def
    by (auto split: prod.split list.split intro!: keep_rules go_on_keeps finish_disconnect_keeps raise_if_error_keeps)
qed

lemma scan_step_keeps: "keeps R (scan_step nf pf rid st msg)"
  by (auto simp: scan_step_def intro!: keep_rules)

lemma read_step_keeps: "keeps R (read_step rid s msg)"
  by (auto simp: read_step_def intro!: keep_rules raise_if_error_keeps split: option.split)

lemma status_step_keeps: "keeps R (status_step st msg)"
  by (auto simp: status_step_def Let_def intro!: keep_rules split: prod.split)

lemma status_late_keeps: "keeps R (status_late st)"
  by (auto simp: status_late_def intro!: keep_rules split: prod.split)

lemma disconnect_wait_keeps: "keeps R (disconnect_wait allow cx rid st)"
  by (auto simp: disconnect_wait_def intro!: keep_rules next_message_keeps)

lemma assert_connected_keeps: "keeps R (assert_connected a act)"
  by (auto simp: assert_connected_def intro!: keep_rules)

lemmas step_rules = next_message_keeps receive_keeps wait_for_success_keeps send_keeps connect_step_keeps
  finish_connect_keeps disconnect_wait_keeps finish_disconnect_keeps disconnect_step_keeps scan_step_keeps
  read_step_keeps status_step_keeps status_late_keeps with_request_keeps

text \<open>One attempt of each operation, by a thread that may send.\<close>

definition sendable :: "gctx \<Rightarrow> bool" where
  "sendable cx \<longleftrightarrow> cx_operation cx \<or> cx_cleanup cx \<or> keeps R (start_client cx)"

lemma attempts_keep:
  assumes "sendable cx"
  shows "keeps R (scan_once t nf pf cx)" and "keeps R (connect_once as cx)" and "keeps R (disconnect_once as allow cx)"
    and "keeps R (subscribe_once a u b i cx)" and "keeps R (unsubscribe_once a u cx)"
    and "keeps R (write_once a u p r allow cx)" and "keeps R (read_once a u cx)" and "keeps R (status_once cx)"
proof -
  note s = send_keeps [OF _ assms [unfolded sendable_def]]
  show "keeps R (scan_once t nf pf cx)" unfolding scan_once_def
    by (intro step_rules keep_rules s) (simp add: vget_VDict)
  show "keeps R (connect_once as cx)" unfolding connect_once_def
    by (intro step_rules keep_rules s) (auto simp: vget_VDict intro!: step_rules)
  show "keeps R (disconnect_once as allow cx)" unfolding disconnect_once_def Let_def
    by (intro with_request_keeps keep_rules) (auto simp: vget_VDict intro!: keep_rules step_rules s)
  show "keeps R (subscribe_once a u b i cx)" unfolding subscribe_once_def
    by (intro step_rules keep_rules s) (simp add: vget_VDict)
  show "keeps R (unsubscribe_once a u cx)" unfolding unsubscribe_once_def
    by (intro step_rules keep_rules s) (simp add: vget_VDict)
  show "keeps R (write_once a u p r allow cx)" unfolding write_once_def
    by (intro step_rules keep_rules s) (auto simp: vget_VDict intro!: keep_rules)
  show "keeps R (read_once a u cx)" unfolding read_once_def
    by (intro step_rules keep_rules s) (simp add: vget_VDict)
  have "harmless (\<lambda>c. c\<lparr>cl_transport_stats := VDict [], cl_ble_rx_stats := [], cl_order_trace := []\<rparr>)"
    by (simp add: harmless_def transport_part_def)
  then show "keeps R (status_once cx)" unfolding status_once_def
    by (intro with_request_after keep_rules step_rules s) (simp_all add: vget_VDict)
qed

text \<open>An operation under the cleanup policy needs no start and no recovery.\<close>

lemma cleanup_keeps:
  assumes "cx_operation cx \<or> cleanup" and "keeps R (func (cx\<lparr>cx_cleanup := True\<rparr>))"
  shows "keeps R (execute_with_transport_retry cleanup func cx)"
  using assms by (auto simp: execute_with_transport_retry_def intro!: keep_rules op_check_keeps)

lemma attempt_subscribe_keeps: "keeps R m \<Longrightarrow> keeps R (attempt_subscribe n a m)"
  by (induction n) (auto intro!: keep_rules assert_connected_keeps pausing)

end

text \<open>Where also the start and the recovery of the transport keep the relation, all operations do.\<close>

locale client_full = client_core +
  assumes starting: "keeps R (start_client cx)"
    and recovering: "keeps R (recover_uart cx)"
begin

lemma sendable_all: "sendable cx"
  by (simp add: sendable_def starting)

lemma retry_keeps:
  assumes "\<And>cx. keeps R (func cx)"
  shows "keeps R (execute_with_transport_retry cleanup func cx)"
  unfolding execute_with_transport_retry_def
  by (auto intro!: keep_rules op_check_keeps pausing recovering assms)

lemmas operation_rules = retry_keeps attempts_keep [OF sendable_all] attempt_subscribe_keeps assert_connected_keeps
  get_connection_inventory_keeps recovering starting

lemma run_op_keeps:
  assumes "op \<notin> {OpReset, OpClose}" and "\<And>v. op \<noteq> OpHello v" and "\<And>as app. op \<noteq> OpScope as app"
  shows "keeps R (run_op cx op)"
  using assms
  by (cases op) (auto simp: void_def scan_def connect_def disconnect_def subscribe_def subscribe_with_retry_def
      unsubscribe_def write_gatt_def read_gatt_def get_status_snapshot_def intro!: keep_rules operation_rules)

end

end
