(* ===== verification/Gateway_Client_Frames.thy ===== *)
theory Gateway_Client_Frames
  imports Gateway_Client_Props
begin

text \<open>
  What the steps of the gateway client leave unchanged: the frames of the reader's work, of the other
  threads, of the serial port lifecycle and of the requests. They discharge the laws of the locales
  of \<open>Gateway_Client_Props\<close> for the relations of the properties.
\<close>

section \<open>Frames of the reader\<close>

definition same_owners :: "gclient \<Rightarrow> gclient \<Rightarrow> bool" where
  "same_owners c c' \<longleftrightarrow> cl_startup_owner c' = cl_startup_owner c \<and> cl_reset_owner c' = cl_reset_owner c \<and>
     cl_request_id_counter c' = cl_request_id_counter c \<and> set (cl_pending c') \<subseteq> set (cl_pending c)"

definition same_resets :: "gclient \<Rightarrow> gclient \<Rightarrow> bool" where
  "same_resets c c' \<longleftrightarrow> (cl_pending_reset_ids c' = cl_pending_reset_ids c \<and> cl_reset_unconfirmed c' = cl_reset_unconfirmed c) \<or>
     (set (cl_pending_reset_ids c') \<subseteq> set (cl_pending_reset_ids c) \<and> cl_reset_unconfirmed c' = (cl_pending_reset_ids c' \<noteq> []) \<and>
      cl_pending_reset_ids c \<noteq> [])"

lemma same_owners_refl [simp]: "same_owners c c"
  by (simp add: same_owners_def)

lemma same_owners_trans: "same_owners a b \<Longrightarrow> same_owners b c \<Longrightarrow> same_owners a c"
  by (auto simp: same_owners_def)

lemma same_resets_refl [simp]: "same_resets c c"
  by (simp add: same_resets_def)

lemma same_resets_trans: "same_resets a b \<Longrightarrow> same_resets b c \<Longrightarrow> same_resets a c"
  by (auto simp: same_resets_def)

lemma observe_json_part: "observe_json msg c = Inr c' \<Longrightarrow> transport_part c' = transport_part c"
  by (auto simp: observe_json_def Let_def rbind_Inr_iff transport_part_def split: if_split_asm)

lemma observe_json_frame:
  assumes "observe_json msg c = Inr c'"
  shows "same_owners c c'" "same_resets c c'" "cl_active c' = cl_active c"
  using transport_part_fields [OF observe_json_part [OF assms]]
  by (simp_all add: same_owners_def same_resets_def)

lemma queue_put_fields [simp]:
  "cl_active (queue_put m r c) = cl_active c" "cl_startup_owner (queue_put m r c) = cl_startup_owner c"
  "cl_reset_owner (queue_put m r c) = cl_reset_owner c" "cl_pending (queue_put m r c) = cl_pending c"
  "cl_request_id_counter (queue_put m r c) = cl_request_id_counter c"
  "cl_pending_reset_ids (queue_put m r c) = cl_pending_reset_ids c"
  "cl_reset_unconfirmed (queue_put m r c) = cl_reset_unconfirmed c"
  "cl_line_state (queue_put m r c) = cl_line_state c"
  by (simp_all add: queue_put_def)

lemma fold_queue_put_fields [simp]:
  "cl_active (fold (\<lambda>r. queue_put (m r) r) rs c) = cl_active c"
  "cl_startup_owner (fold (\<lambda>r. queue_put (m r) r) rs c) = cl_startup_owner c"
  "cl_reset_owner (fold (\<lambda>r. queue_put (m r) r) rs c) = cl_reset_owner c"
  "cl_pending (fold (\<lambda>r. queue_put (m r) r) rs c) = cl_pending c"
  "cl_request_id_counter (fold (\<lambda>r. queue_put (m r) r) rs c) = cl_request_id_counter c"
  "cl_pending_reset_ids (fold (\<lambda>r. queue_put (m r) r) rs c) = cl_pending_reset_ids c"
  "cl_reset_unconfirmed (fold (\<lambda>r. queue_put (m r) r) rs c) = cl_reset_unconfirmed c"
  "cl_line_state (fold (\<lambda>r. queue_put (m r) r) rs c) = cl_line_state c"
  by (induction rs arbitrary: c) simp_all

lemma deliver_message_frame:
  "same_owners c (deliver_message t m c)" "same_resets c (deliver_message t m c)"
  "cl_active (deliver_message t m c) = cl_active c" "cl_pending (deliver_message t m c) = cl_pending c"
  by (auto simp: deliver_message_def same_owners_def same_resets_def fold_queue_put_fields [of "\<lambda>_. m"] split: val.split)

lemma confirm_reset_frame:
  "same_owners c (confirm_reset v c)" "same_resets c (confirm_reset v c)" "cl_active (confirm_reset v c) = cl_active c"
  by (auto simp: confirm_reset_def same_owners_def same_resets_def Let_def split: val.split)

lemma route_json_cases:
  assumes "route_json msg c = Inr c'"
  obtains t where "c' = deliver_message t msg c"
  | t v where "c' = deliver_message t msg (confirm_reset v c)"
  using assms by (auto simp: route_json_def Let_def split: if_splits)

lemma route_json_frame:
  assumes "route_json msg c = Inr c'"
  shows "same_owners c c'" "same_resets c c'" "cl_active c' = cl_active c"
  by (rule route_json_cases [OF assms];
      simp add: deliver_message_frame same_owners_trans [OF confirm_reset_frame(1) deliver_message_frame(1)]
        same_resets_trans [OF confirm_reset_frame(2) deliver_message_frame(2)] confirm_reset_frame)+

lemma reader_fails_frame:
  "same_owners (gw_client w) (gw_client (reader_fails w))" "same_resets (gw_client w) (gw_client (reader_fails w))"
  "cl_active (gw_client (reader_fails w)) = cl_active (gw_client w)"
  "gw_turns (reader_fails w) = gw_turns w" "gw_io (reader_fails w) = gw_io w"
  by (simp_all add: reader_fails_def Let_def closed_def closing_def same_owners_def same_resets_def)

lemma reader_fails_log: "\<exists>new. gw_log (reader_fails w) = gw_log w @ new \<and> set new \<subseteq> {Closed}"
  by (auto simp: reader_fails_def Let_def close_log_def split: option.split)

lemma receive_message_cases:
  obtains (idle) "receive_message m w = w"
  | (fails) "receive_message m w = reader_fails w"
  | (partly) c where "observe_json m (gw_client w) = Inr c" "receive_message m w = reader_fails (w\<lparr>gw_client := c\<rparr>)"
  | (routed) c c' t where "observe_json m (gw_client w) = Inr c" "route_json m c = Inr c'"
      "receive_message m w = w\<lparr>gw_client := c', gw_log := gw_log w @ [Dispatched t m]\<rparr>"
proof (cases "reader_alive (gw_client w)")
  case True
  show ?thesis
  proof (cases "observe_json m (gw_client w)")
    case (Inl e)
    with True fails show ?thesis by (simp add: receive_message_def)
  next
    case (Inr c)
    with True partly routed show ?thesis by (cases "route_json m c") (simp_all add: receive_message_def)
  qed
qed (simp add: receive_message_def idle)

lemma receive_message_frame:
  "same_owners (gw_client w) (gw_client (receive_message m w)) \<and> same_resets (gw_client w) (gw_client (receive_message m w)) \<and>
   cl_active (gw_client (receive_message m w)) = cl_active (gw_client w) \<and>
   gw_turns (receive_message m w) = gw_turns w \<and> gw_io (receive_message m w) = gw_io w"
proof (cases rule: receive_message_cases [of m w])
  case (partly c)
  from observe_json_frame [OF partly(1)] partly(2) reader_fails_frame [of "w\<lparr>gw_client := c\<rparr>"] show ?thesis
    by (auto intro: same_owners_trans same_resets_trans)
next
  case (routed c c' t)
  from observe_json_frame [OF routed(1)] route_json_frame [OF routed(2)] routed(3) show ?thesis
    by (auto intro: same_owners_trans same_resets_trans)
qed (simp_all add: reader_fails_frame)

lemma receive_message_log:
  "\<exists>new. gw_log (receive_message m w) = gw_log w @ new \<and> set new \<subseteq> {Closed} \<union> {e. \<exists>t. e = Dispatched t m}"
proof (cases rule: receive_message_cases [of m w])
  case fails
  with reader_fails_log [of w] show ?thesis by auto
next
  case (partly c)
  with reader_fails_log [of "w\<lparr>gw_client := c\<rparr>"] show ?thesis by auto
qed auto

text \<open>A world changed only by other threads and the clock.\<close>

definition background_log :: "gevent list \<Rightarrow> bool" where
  "background_log new \<longleftrightarrow> (\<forall>e \<in> set new. e = Closed \<or> (\<exists>t m. e = Dispatched t m))"

lemma background_log_simps [simp]:
  "background_log []" "background_log (e # es) \<longleftrightarrow> (e = Closed \<or> (\<exists>t m. e = Dispatched t m)) \<and> background_log es"
  "background_log (xs @ ys) \<longleftrightarrow> background_log xs \<and> background_log ys"
  by (auto simp: background_log_def)

fun scope_kept :: "turn \<Rightarrow> bool" where
  "scope_kept (Scope as app) = (as \<noteq> [] \<or> app)"
| "scope_kept _ = True"

definition beside :: "gworld \<Rightarrow> gworld \<Rightarrow> bool" where
  "beside w w' \<longleftrightarrow> same_owners (gw_client w) (gw_client w') \<and> same_resets (gw_client w) (gw_client w') \<and>
     (\<exists>new. gw_log w' = gw_log w @ new \<and> background_log new) \<and> gw_io w' = gw_io w"

lemma beside_refl [simp]: "beside w w"
  by (simp add: beside_def)

lemma beside_trans: "beside u v \<Longrightarrow> beside v w \<Longrightarrow> beside u w"
  unfolding beside_def by (auto intro: same_owners_trans same_resets_trans)

lemma background_frame: "beside w (background t w)" "gw_turns (background t w) = gw_turns w"
proof -
  have "beside w (background t w) \<and> gw_turns (background t w) = gw_turns w"
  proof (cases t)
    case (Rx m)
    from receive_message_log [of m w] have "\<exists>new. gw_log (receive_message m w) = gw_log w @ new \<and> background_log new"
      unfolding background_log_def by blast
    with Rx show ?thesis by (simp add: beside_def receive_message_frame)
  next
    case ReadFailed
    from reader_fails_log [of w] have "\<exists>new. gw_log (reader_fails w) = gw_log w @ new \<and> background_log new"
      unfolding background_log_def by blast
    with ReadFailed show ?thesis by (simp add: beside_def reader_fails_frame)
  next
    case (Scope as app)
    then show ?thesis
      by (auto simp: beside_def set_acquisition_scope_def same_owners_def same_resets_def split: sum.splits if_splits)
  qed simp_all
  then show "beside w (background t w)" "gw_turns (background t w) = gw_turns w" by auto
qed

lemma background_active:
  assumes "scope_kept t" and "cl_active (gw_client w) \<noteq> []"
  shows "cl_active (gw_client (background t w)) \<noteq> []"
proof (cases t)
  case (Scope as app)
  have "set (List.union (cl_active (gw_client w)) as) \<noteq> {}" using assms(2) by simp
  then have "List.union (cl_active (gw_client w)) as \<noteq> []" by force
  with assms Scope show ?thesis by (auto simp: set_acquisition_scope_def)
qed (use assms receive_message_frame reader_fails_frame in auto)

section \<open>Frames of waiting\<close>

lemma pause_turns_frame:
  "beside w (pause_turns ts w) \<and> set (gw_turns (pause_turns ts w)) \<subseteq> set ts \<and>
   (list_all scope_kept ts \<longrightarrow> cl_active (gw_client w) \<noteq> [] \<longrightarrow> cl_active (gw_client (pause_turns ts w)) \<noteq> [])"
proof (induction ts arbitrary: w)
  case (Cons t ts)
  show ?case
  proof (cases "t = Run \<or> t = Expire \<or> t = Late")
    case True
    then show ?thesis by (auto simp: beside_def)
  next
    case False
    with Cons.IH [of "background t w"] background_frame [where w = w and t = t] background_active [of t w] show ?thesis
      by (auto intro: beside_trans)
  qed
qed (simp add: beside_def)

lemma pause_frame:
  "beside w (snd (pause w))" "list_all scope_kept (gw_turns w) \<Longrightarrow> list_all scope_kept (gw_turns (snd (pause w)))"
  "list_all scope_kept (gw_turns w) \<Longrightarrow> cl_active (gw_client w) \<noteq> [] \<Longrightarrow> cl_active (gw_client (snd (pause w))) \<noteq> []"
  using pause_turns_frame [of w "gw_turns w"] by (auto simp: pause_def list_all_iff)

lemma get_turns_frame:
  "beside w (snd (get_turns rid ts w)) \<and> set (gw_turns (snd (get_turns rid ts w))) \<subseteq> set ts \<and>
   (list_all scope_kept ts \<longrightarrow> cl_active (gw_client w) \<noteq> [] \<longrightarrow> cl_active (gw_client (snd (get_turns rid ts w))) \<noteq> [])"
proof (induction ts arbitrary: w)
  case Nil
  show ?case
    by (subst get_turns.simps, cases "dget_or (cl_queues (gw_client w)) rid []")
      (auto simp: beside_def same_owners_def same_resets_def get_turns.simps)
next
  case (Cons t ts)
  show ?case
  proof (cases "dget_or (cl_queues (gw_client w)) rid [] = [] \<and> t \<noteq> Expire \<and> t \<noteq> Late")
    case True
    then have "get_turns rid (t # ts) w = get_turns rid ts (background t w)"
      by (subst get_turns.simps) simp
    with Cons.IH [of "background t w"] background_frame [where w = w and t = t] background_active [of t w] show ?thesis
      by (auto intro: beside_trans)
  next
    case False
    then show ?thesis
      by (subst (1 2 3) get_turns.simps, cases "dget_or (cl_queues (gw_client w)) rid []")
        (auto simp: beside_def same_owners_def same_resets_def)
  qed
qed

section \<open>Relations of the properties\<close>

text \<open>An acquisition is left alone: while it stays active, no reset command is written and the port is
  not opened afresh.\<close>

definition undisturbed :: "gevent list \<Rightarrow> bool" where
  "undisturbed new \<longleftrightarrow> (\<forall>e \<in> set new. (\<forall>p. e \<noteq> Opened p) \<and>
     (\<forall>m. e = Wrote m \<longrightarrow> vget m ''type'' \<noteq> VStr ''reset_session''))"

definition acquiring :: "gworld \<Rightarrow> bool" where
  "acquiring w \<longleftrightarrow> cl_active (gw_client w) \<noteq> [] \<and> list_all scope_kept (gw_turns w)"

definition acquisition_kept :: "gworld \<Rightarrow> gworld \<Rightarrow> bool" where
  "acquisition_kept w w' \<longleftrightarrow> (acquiring w \<longrightarrow>
     acquiring w' \<and> (\<exists>new. gw_log w' = gw_log w @ new \<and> undisturbed new))"

lemma undisturbed_simps [simp]:
  "undisturbed []" "undisturbed (xs @ ys) \<longleftrightarrow> undisturbed xs \<and> undisturbed ys"
  "undisturbed (e # es) \<longleftrightarrow> (\<forall>p. e \<noteq> Opened p) \<and> (\<forall>m. e = Wrote m \<longrightarrow> vget m ''type'' \<noteq> VStr ''reset_session'') \<and> undisturbed es"
  by (auto simp: undisturbed_def)

lemma background_undisturbed: "background_log new \<Longrightarrow> undisturbed new"
  by (auto simp: background_log_def undisturbed_def)

lemma acquisition_kept_refl: "acquisition_kept w w"
  by (simp add: acquisition_kept_def)

lemma acquisition_kept_trans: "acquisition_kept u v \<Longrightarrow> acquisition_kept v w \<Longrightarrow> acquisition_kept u w"
  unfolding acquisition_kept_def by (metis append_assoc undisturbed_simps(2))

lemma acquisition_kept_beside:
  assumes "beside w w'" and "acquiring w \<Longrightarrow> acquiring w'"
  shows "acquisition_kept w w'"
  using assms background_undisturbed by (auto simp: acquisition_kept_def beside_def)

lemma acquisition_upd: "(\<And>c. cl_active (f c) = cl_active c) \<Longrightarrow> keeps acquisition_kept (g_upd f)"
  by (simp add: keeps_def g_upd_def acquisition_kept_def acquiring_def)

lemma acquisition_log: "undisturbed [e] \<Longrightarrow> keeps acquisition_kept (g_log e)"
  by (simp add: keeps_def g_log_def acquisition_kept_def acquiring_def)

interpretation acq0: elementary_steps acquisition_kept
proof unfold_locales
  show "acquisition_kept w w" for w by (rule acquisition_kept_refl)
  show "acquisition_kept u v \<Longrightarrow> acquisition_kept v w \<Longrightarrow> acquisition_kept u w" for u v w by (rule acquisition_kept_trans)
  show "keeps acquisition_kept next_io"
    by (auto simp: keeps_def next_io_def acquisition_kept_def acquiring_def split: list.split)
  show "keeps acquisition_kept (g_upd closing)" "keeps acquisition_kept (g_upd closed)"
    "keeps acquisition_kept (g_upd (\<lambda>c. c\<lparr>cl_pending := []\<rparr>))"
    by (rule acquisition_upd, simp add: closing_def closed_def)+
  show "keeps acquisition_kept (g_log Closed)" by (rule acquisition_log) simp
qed

lemma acquisition_frame:
  assumes "cl_active (gw_client w') = cl_active (gw_client w)" and "gw_turns w' = gw_turns w" and "gw_log w' = gw_log w"
  shows "acquisition_kept w w'"
  using assms by (simp add: acquisition_kept_def acquiring_def)

interpretation acq: client_core acquisition_kept
proof unfold_locales
  show "keeps acquisition_kept pause"
    by (rule keepsI, rule acquisition_kept_beside [OF pause_frame(1)]) (auto simp: acquiring_def pause_frame)
  show "keeps acquisition_kept (\<lambda>w. get_turns rid (gw_turns w) w)" for rid
  proof (rule keepsI)
    fix w
    from get_turns_frame [of w rid "gw_turns w"] show "acquisition_kept w (snd (get_turns rid (gw_turns w) w))"
      by (intro acquisition_kept_beside) (auto simp: acquiring_def list_all_iff)
  qed
  show "acquisition_kept w (w\<lparr>gw_turns := ts\<rparr>)" if "gw_turns w = Late # ts" for w ts
    using that by (simp add: acquisition_kept_def acquiring_def)
  show "acquisition_kept w w2"
    if "request_id prefix w = (Inr rid, w1)" "register_request rid w1 = (Inl e, w2)" for prefix w rid w1 e w2
    using that by (intro acquisition_frame)
      (auto simp: request_id_def Let_def register_request_def g_bind_def g_client_def g_raise_def g_upd_def split: if_splits)
  show "acquisition_kept w (snd (unregister_request rid w3))"
    if r: "request_id prefix w = (Inr rid, w1)" "register_request rid w1 = (Inr (), w2)" and k: "acquisition_kept w2 w3"
    for prefix w rid w1 w2 w3
  proof -
    have "acquisition_kept w w2" using r by (intro acquisition_frame)
      (auto simp: request_id_def Let_def register_request_def g_bind_def g_client_def g_raise_def g_upd_def split: if_splits)
    moreover have "acquisition_kept w3 (snd (unregister_request rid w3))"
      by (rule acquisition_frame) (simp_all add: unregister_request_def g_upd_def)
    ultimately show ?thesis using k by (blast intro: acquisition_kept_trans)
  qed
  show "keeps acquisition_kept (g_upd f)" if "harmless f" for f
    using that by (intro acquisition_upd) (rule harmless_fields)
  show "keeps acquisition_kept (g_log (Dispatched ''sensor_disconnected'' m))" for m
    by (rule acquisition_log) simp
  show "vget obj ''type'' \<noteq> VStr ''reset_session'' \<Longrightarrow> keeps acquisition_kept (g_log (Wrote obj))" for obj
    by (rule acquisition_log) simp
qed

lemma acquisition_reopen: "keeps acquisition_kept (reopen cx)"
  unfolding reopen_def resolve_port_def
  by (auto intro!: acq0.keep_rules acquisition_upd acquisition_log acq0.io_or_keeps acq0.op_check_keeps acq0.close_transport_keeps
      simp: retire_requests_def) (simp_all add: keeps_def acquisition_kept_refl)

lemma acquisition_recover: "keeps acquisition_kept (recover_uart cx)"
  unfolding recover_uart_def probe_or_reopen_def
  by (auto intro!: acq0.keep_rules acquisition_upd acq0.io_or_keeps acq0.op_check_keeps acquisition_reopen
      acq.get_connection_inventory_keeps split: option.split)

lemma acquisition_start: "keeps acquisition_kept (start_by h cx)"
proof (rule keepsI)
  fix w
  show "acquisition_kept w (snd (start_by h cx w))"
  proof (cases "acquiring w")
    case True
    then have "start_by h cx w = (if cl_startup_owner (gw_client w) \<noteq> None then
         (if cl_startup_owner (gw_client w) = Some (cx_thread cx) then g_ret ()
          else g_raise (RuntimeErr ''Gateway startup already in progress''))
       else if cl_started (gw_client w) then g_ret ()
       else if cl_has_opened_uart (gw_client w) then g_then (recover_uart cx) (g_ret ())
       else g_raise (RuntimeErr ''Gateway startup/reset prohibited during active acquisition'')) w"
      unfolding start_by_def g_bind_def g_client_def acquiring_def by simp
    also have "acquisition_kept w (snd \<dots>)"
      by (rule keepsD) (auto intro!: acq0.keep_rules acquisition_recover)
    finally show ?thesis .
  qed (simp add: acquisition_kept_def)
qed

interpretation acq_all: client_full acquisition_kept
  by unfold_locales (simp_all add: start_client_def acquisition_start acquisition_recover)

end
