(* ===== verification/Gateway_Client_Owners.thy ===== *)
theory Gateway_Client_Owners
  imports Gateway_Client_Frames
begin

text \<open>
  Every operation of the gateway client gives back what it took: its entry among the pending
  requests, the ownership of the startup and of the reset. It rests on request identifiers never
  being issued twice.
\<close>

section \<open>Request identifiers\<close>

definition digits_value :: "string \<Rightarrow> nat" where
  "digits_value s = foldl (\<lambda>a c. 10 * a + (of_char c - 48)) 0 s"

lemma digits_value_of: "digits_value (digits_of n) = n"
proof (induction n rule: less_induct)
  case (less n)
  show ?case
  proof (cases "n < 10")
    case True
    then show ?thesis by (subst digits_of.simps) (simp add: digits_value_def)
  next
    case False
    with less [of "n div 10"] show ?thesis
      by (subst digits_of.simps) (simp add: digits_value_def)
  qed
qed

lemma digits_of_inj: "digits_of m = digits_of n \<longleftrightarrow> m = n"
  by (metis digits_value_of)

lemma digits_of_digits: "c \<in> set (digits_of n) \<Longrightarrow> char_in 48 57 c"
proof (induction n rule: less_induct)
  case (less n)
  show ?case
  proof (cases "n < 10")
    case True
    with less.prems have "c = char_of (48 + n)" by (subst (asm) digits_of.simps) simp
    with True show ?thesis by (simp add: char_in_def)
  next
    case False
    with less.prems consider "c \<in> set (digits_of (n div 10))" | "c = char_of (48 + n mod 10)"
      by (subst (asm) digits_of.simps) auto
    then show ?thesis using less.IH [of "n div 10"] False by cases (auto simp: char_in_def)
  qed
qed

lemma after_underscore:
  assumes "CHR ''_'' \<notin> set d"
  shows "rev (takeWhile (\<lambda>c. c \<noteq> CHR ''_'') (rev (p @ ''_'' @ d))) = d"
proof -
  have "takeWhile (\<lambda>c. c \<noteq> CHR ''_'') (rev d @ CHR ''_'' # rev p) = rev d @ takeWhile (\<lambda>c. c \<noteq> CHR ''_'') (CHR ''_'' # rev p)"
    using assms by (intro takeWhile_append2) auto
  then show ?thesis by simp
qed

lemma underscore_not_digit: "CHR ''_'' \<notin> set (digits_of n)"
  using digits_of_digits [of "CHR ''_''" n] by (auto simp: char_in_def)

lemma request_ids_distinct: "p @ ''_'' @ digits_of m = q @ ''_'' @ digits_of n \<Longrightarrow> m = n"
  using after_underscore [OF underscore_not_digit, of p m] after_underscore [OF underscore_not_digit, of q n]
  by (simp add: digits_of_inj)

lemma hello_no_number: "''hello_host_tool'' \<noteq> p @ ''_'' @ digits_of n"
proof
  assume h: "''hello_host_tool'' = p @ ''_'' @ digits_of n"
  have "rev (takeWhile (\<lambda>c. c \<noteq> CHR ''_'') (rev ''hello_host_tool'')) = ''tool''" by simp
  with h after_underscore [OF underscore_not_digit, of p n] have "digits_of n = ''tool''" by simp
  with digits_of_digits [of "CHR ''t''" n] show False by (auto simp: char_in_def)
qed

definition ids_ok :: "gclient \<Rightarrow> bool" where
  "ids_ok c \<longleftrightarrow> (\<forall>r \<in> set (cl_pending c). r = ''hello_host_tool'' \<or>
     (\<exists>p n. r = p @ ''_'' @ digits_of n \<and> n \<le> cl_request_id_counter c))"

lemma next_id_fresh:
  assumes "ids_ok c"
  shows "p @ ''_'' @ digits_of (Suc (cl_request_id_counter c)) \<notin> set (cl_pending c)"
proof
  assume "p @ ''_'' @ digits_of (Suc (cl_request_id_counter c)) \<in> set (cl_pending c)"
  with assms have "p @ ''_'' @ digits_of (Suc (cl_request_id_counter c)) = ''hello_host_tool'' \<or>
    (\<exists>q n. p @ ''_'' @ digits_of (Suc (cl_request_id_counter c)) = q @ ''_'' @ digits_of n \<and> n \<le> cl_request_id_counter c)"
    unfolding ids_ok_def by blast
  then show False using hello_no_number request_ids_distinct by (metis not_less_eq_eq order_refl)
qed

section \<open>What an operation takes it gives back\<close>

definition released :: "gworld \<Rightarrow> gworld \<Rightarrow> bool" where
  "released w w' \<longleftrightarrow> (ids_ok (gw_client w) \<longrightarrow> ids_ok (gw_client w') \<and>
     cl_request_id_counter (gw_client w) \<le> cl_request_id_counter (gw_client w') \<and>
     cl_startup_owner (gw_client w') = cl_startup_owner (gw_client w) \<and>
     cl_reset_owner (gw_client w') = cl_reset_owner (gw_client w) \<and>
     set (cl_pending (gw_client w')) \<subseteq> set (cl_pending (gw_client w)))"

lemma released_same: "same_owners (gw_client w) (gw_client w') \<Longrightarrow> released w w'"
  unfolding released_def same_owners_def ids_ok_def by auto

lemma released_upd: "(\<And>c. same_owners c (f c)) \<Longrightarrow> keeps released (g_upd f)"
  by (rule keepsI, rule released_same) (simp add: g_upd_def)

lemma released_log: "keeps released (g_log e)"
  by (rule keepsI, rule released_same) (simp add: g_log_def)

interpretation rel0: elementary_steps released
proof unfold_locales
  show "released w w" for w by (simp add: released_def)
  show "released u v \<Longrightarrow> released v w \<Longrightarrow> released u w" for u v w by (auto simp: released_def)
  show "keeps released next_io"
    by (rule keepsI, rule released_same) (simp add: next_io_def split: list.split)
  show "keeps released (g_upd closing)" "keeps released (g_upd closed)" "keeps released (g_upd (\<lambda>c. c\<lparr>cl_pending := []\<rparr>))"
    by (rule released_upd, simp add: closing_def closed_def same_owners_def)+
  show "keeps released (g_log Closed)" by (rule released_log)
qed

text \<open>A request with a new identifier is registered, and unregistered whatever happened between.\<close>

lemma request_registered:
  assumes "request_id prefix w = (Inr rid, w1)" and "ids_ok (gw_client w)"
  shows "register_request rid w1 = (Inr (), snd (register_request rid w1))"
    and "rid \<notin> set (cl_pending (gw_client w))"
    and "ids_ok (gw_client (snd (register_request rid w1)))"
    and "cl_pending (gw_client (snd (register_request rid w1))) = cl_pending (gw_client w) @ [rid]"
    and "cl_request_id_counter (gw_client (snd (register_request rid w1))) = Suc (cl_request_id_counter (gw_client w))"
    and "cl_startup_owner (gw_client (snd (register_request rid w1))) = cl_startup_owner (gw_client w)"
    and "cl_reset_owner (gw_client (snd (register_request rid w1))) = cl_reset_owner (gw_client w)"
proof -
  note fresh = next_id_fresh [OF assms(2), of prefix]
  have rid: "rid = prefix @ ''_'' @ digits_of (Suc (cl_request_id_counter (gw_client w)))"
    and w1: "w1 = w\<lparr>gw_client := (gw_client w)\<lparr>cl_request_id_counter := Suc (cl_request_id_counter (gw_client w))\<rparr>\<rparr>"
    using assms(1) by (auto simp: request_id_def Let_def)
  from fresh rid show "rid \<notin> set (cl_pending (gw_client w))" by simp
  note reg = fresh rid w1 register_request_def g_bind_def g_client_def g_upd_def
  show "register_request rid w1 = (Inr (), snd (register_request rid w1))"
    "cl_pending (gw_client (snd (register_request rid w1))) = cl_pending (gw_client w) @ [rid]"
    "cl_request_id_counter (gw_client (snd (register_request rid w1))) = Suc (cl_request_id_counter (gw_client w))"
    "cl_startup_owner (gw_client (snd (register_request rid w1))) = cl_startup_owner (gw_client w)"
    "cl_reset_owner (gw_client (snd (register_request rid w1))) = cl_reset_owner (gw_client w)"
    using fresh by (simp_all add: rid w1 register_request_def g_bind_def g_client_def g_upd_def)
  moreover have "\<exists>p n. rid = p @ ''_'' @ digits_of n \<and> n \<le> Suc (cl_request_id_counter (gw_client w))"
    using rid by blast
  ultimately show "ids_ok (gw_client (snd (register_request rid w1)))"
    using assms(2) unfolding ids_ok_def by (auto intro: le_SucI)
qed

lemma unregister_pending:
  "cl_pending (gw_client (snd (unregister_request rid w))) = removeAll rid (cl_pending (gw_client w))"
  "cl_request_id_counter (gw_client (snd (unregister_request rid w))) = cl_request_id_counter (gw_client w)"
  "cl_startup_owner (gw_client (snd (unregister_request rid w))) = cl_startup_owner (gw_client w)"
  "cl_reset_owner (gw_client (snd (unregister_request rid w))) = cl_reset_owner (gw_client w)"
  by (simp_all add: unregister_request_def g_upd_def)

lemma ids_ok_subset:
  "ids_ok c \<Longrightarrow> set (cl_pending c') \<subseteq> set (cl_pending c) \<Longrightarrow> cl_request_id_counter c \<le> cl_request_id_counter c' \<Longrightarrow> ids_ok c'"
  unfolding ids_ok_def
proof (intro ballI)
  fix r
  assume ok: "\<forall>r\<in>set (cl_pending c). r = ''hello_host_tool'' \<or> (\<exists>p n. r = p @ ''_'' @ digits_of n \<and> n \<le> cl_request_id_counter c)"
    and sub: "set (cl_pending c') \<subseteq> set (cl_pending c)" and le: "cl_request_id_counter c \<le> cl_request_id_counter c'"
    and r: "r \<in> set (cl_pending c')"
  from bspec [OF ok subsetD [OF sub r]]
  show "r = ''hello_host_tool'' \<or> (\<exists>p n. r = p @ ''_'' @ digits_of n \<and> n \<le> cl_request_id_counter c')"
  proof (elim disjE exE conjE)
    fix p n
    assume "r = p @ ''_'' @ digits_of n" "n \<le> cl_request_id_counter c"
    with le show ?thesis by (intro disjI2 exI [of _ p] exI [of _ n]) simp
  qed simp
qed

lemma released_request:
  assumes r: "request_id prefix w = (Inr rid, w1)" and "released (snd (register_request rid w1)) w3"
  shows "released w (snd (unregister_request rid w3))"
  unfolding released_def
proof (rule impI)
  assume ok: "ids_ok (gw_client w)"
  note reg = request_registered [OF r ok]
  from assms(2) reg have rel: "ids_ok (gw_client w3)"
    "Suc (cl_request_id_counter (gw_client w)) \<le> cl_request_id_counter (gw_client w3)"
    "cl_startup_owner (gw_client w3) = cl_startup_owner (gw_client w)" "cl_reset_owner (gw_client w3) = cl_reset_owner (gw_client w)"
    "set (cl_pending (gw_client w3)) \<subseteq> insert rid (set (cl_pending (gw_client w)))"
    by (auto simp: released_def)
  have "ids_ok (gw_client (snd (unregister_request rid w3)))"
    by (rule ids_ok_subset [OF rel(1)]) (auto simp: unregister_pending)
  with rel show "ids_ok (gw_client (snd (unregister_request rid w3))) \<and>
     cl_request_id_counter (gw_client w) \<le> cl_request_id_counter (gw_client (snd (unregister_request rid w3))) \<and>
     cl_startup_owner (gw_client (snd (unregister_request rid w3))) = cl_startup_owner (gw_client w) \<and>
     cl_reset_owner (gw_client (snd (unregister_request rid w3))) = cl_reset_owner (gw_client w) \<and>
     set (cl_pending (gw_client (snd (unregister_request rid w3)))) \<subseteq> set (cl_pending (gw_client w))"
    by (auto simp: unregister_pending)
qed

interpretation rel: client_core released
proof unfold_locales
  show "keeps released pause"
    by (rule keepsI, rule released_same) (use pause_frame(1) in \<open>simp add: beside_def\<close>)
  show "keeps released (\<lambda>w. get_turns rid (gw_turns w) w)" for rid
    by (rule keepsI, rule released_same) (use get_turns_frame in \<open>simp add: beside_def\<close>)
  show "released w (w\<lparr>gw_turns := ts\<rparr>)" for w ts by (rule released_same) simp
  show "released w w2"
    if "request_id prefix w = (Inr rid, w1)" "register_request rid w1 = (Inl e, w2)" for prefix w rid w1 e w2
    using request_registered(1) [OF that(1)] that(2) by (auto simp: released_def)
  show "released w (snd (unregister_request rid w3))"
    if "request_id prefix w = (Inr rid, w1)" "register_request rid w1 = (Inr (), w2)" "released w2 w3"
    for prefix w rid w1 w2 w3
    by (rule released_request [OF that(1)]) (use that in simp)
  show "keeps released (g_upd f)" if "harmless f" for f
    using harmless_fields [OF that] by (intro released_upd) (simp add: same_owners_def)
  show "keeps released (g_log (Dispatched ''sensor_disconnected'' m))" for m by (rule released_log)
  show "keeps released (g_log (Wrote obj))" for obj by (rule released_log)
qed

section \<open>Startup, reset and recovery\<close>

lemma ids_ok_owner [simp]:
  "ids_ok (c\<lparr>cl_startup_owner := t\<rparr>) = ids_ok c" "ids_ok (c\<lparr>cl_reset_owner := t\<rparr>) = ids_ok c"
  "ids_ok (c\<lparr>cl_reset_owner := t, cl_reset_unconfirmed := b\<rparr>) = ids_ok c"
  by (simp_all add: ids_ok_def)

lemma owned_startup:
  assumes "keeps released m" and "cl_startup_owner (gw_client w) = None"
  shows "released w (snd (g_then (g_upd (\<lambda>c. c\<lparr>cl_startup_owner := Some t\<rparr>))
    (g_finally m (g_upd (\<lambda>c. c\<lparr>cl_startup_owner := None\<rparr>))) w))"
proof -
  define w1 where "w1 = w\<lparr>gw_client := (gw_client w)\<lparr>cl_startup_owner := Some t\<rparr>\<rparr>"
  obtain r w2 where m: "m w1 = (r, w2)" by (cases "m w1")
  with keepsD [OF assms(1), of w1] have "released w1 w2" by simp
  then have "released w (w2\<lparr>gw_client := (gw_client w2)\<lparr>cl_startup_owner := None\<rparr>\<rparr>)"
    using assms(2) by (simp add: released_def w1_def)
  with m show ?thesis by (simp add: g_then_def g_bind_def g_upd_def g_finally_def w1_def [symmetric])
qed

lemma recover_uart_keeps: "keeps released (recover_uart cx)"
proof -
  have reopen: "keeps released (reopen cx)"
    unfolding reopen_def resolve_port_def
    by (auto intro!: rel0.keep_rules released_upd released_log rel0.io_or_keeps rel0.op_check_keeps rel0.close_transport_keeps
        simp: retire_requests_def same_owners_def) (simp_all add: keeps_def rel0.refl)
  have probe: "keeps released (probe_or_reopen cx)"
    unfolding probe_or_reopen_def
    by (auto intro!: rel0.keep_rules reopen rel.get_connection_inventory_keeps split: option.split)
  define body where "body = g_except (probe_or_reopen cx)
    (\<lambda>e. g_then (g_upd (\<lambda>c. c\<lparr>cl_phase := ''unavailable''\<rparr>)) (g_raise e))"
  have body: "keeps released body"
    unfolding body_def by (auto intro!: rel0.keep_rules probe released_upd simp: same_owners_def)
  have "keeps released (g_bind g_client (\<lambda>c.
        if cl_startup_owner c \<noteq> None \<or> cl_reset_owner c \<noteq> None
        then g_raise (RuntimeErr ''Gateway startup/reset already in progress'')
        else g_then (g_upd (\<lambda>c. c\<lparr>cl_startup_owner := Some (cx_thread cx)\<rparr>))
          (g_finally body (g_upd (\<lambda>c. c\<lparr>cl_startup_owner := None\<rparr>)))))"
    by (rule keepsI) (use owned_startup [OF body] in \<open>auto simp: g_bind_def g_client_def g_raise_def rel0.refl\<close>)
  then show ?thesis
    unfolding recover_uart_def body_def by (intro rel0.sequencing rel0.op_check_keeps rel0.io_or_keeps)
qed

lemma start_by_keeps:
  assumes "\<And>cx. keeps released (h cx)"
  shows "keeps released (start_by h cx)"
proof -
  have "keeps released open_port"
    unfolding open_port_def resolve_port_def
    by (auto intro!: rel0.keep_rules released_upd released_log rel0.io_or_keeps simp: same_owners_def)
      (simp_all add: keeps_def rel0.refl)
  then have body: "keeps released (g_except (g_then open_port (h cx)) (\<lambda>e. g_then close_transport (g_raise e)))"
    by (intro rel0.keep_rules assms rel0.close_transport_keeps)
  show ?thesis
  proof (rule keepsI)
    fix w
    show "released w (snd (start_by h cx w))"
      using owned_startup [OF body, of w "cx_thread cx"] keepsD [OF recover_uart_keeps, of w cx]
      by (auto simp: start_by_def g_bind_def g_client_def g_ret_def g_raise_def g_then_def rel0.refl
          split: prod.split sum.split)
  qed
qed

lemma perform_reset_keeps:
  assumes "\<And>obj. keeps released (tx cx obj)"
  shows "keeps released (perform_reset tx cx)"
proof (rule keepsI)
  fix w
  define body where "body = (\<lambda>rid. g_then (g_upd (\<lambda>c. c\<lparr>cl_pending_reset_ids := List.insert rid (cl_pending_reset_ids c)\<rparr>))
    (g_then (tx cx (VDict [(''type'', VStr ''reset_session''), (''request_id'', VStr rid)]))
    (g_then (wait_for_success cx rid ''reset_session_complete'') (reset_confirmed rid))))"
  have body: "keeps released (body rid)" for rid
    unfolding body_def reset_confirmed_def
    by (auto intro!: rel0.keep_rules assms released_upd released_log rel.wait_for_success_keeps simp: same_owners_def)
  show "released w (snd (perform_reset tx cx w))"
  proof (cases "cl_active (gw_client w) \<noteq> [] \<or> cl_reset_owner (gw_client w) \<noteq> None \<or> \<not> ids_ok (gw_client w)")
    case True
    then show ?thesis
      by (auto simp: perform_reset_def g_bind_def g_client_def g_raise_def rel0.refl) (simp add: released_def)
  next
    case False
    define w0 where "w0 = w\<lparr>gw_client := (gw_client w)\<lparr>cl_reset_owner := Some (cx_thread cx), cl_reset_unconfirmed := True\<rparr>\<rparr>"
    obtain rid w1 where r: "request_id ''reset'' w0 = (Inr rid, w1)" by (simp add: request_id_def Let_def)
    obtain v w3 where b: "body rid (snd (register_request rid w1)) = (v, w3)" by (cases "body rid (snd (register_request rid w1))")
    from keepsD [OF body, of "snd (register_request rid w1)" rid] b
    have "released w0 (snd (unregister_request rid w3))" by (intro released_request [OF r]) simp
    moreover have "perform_reset tx cx w = (v, (snd (unregister_request rid w3))
        \<lparr>gw_client := (gw_client (snd (unregister_request rid w3)))\<lparr>cl_reset_owner := None\<rparr>\<rparr>)"
    proof -
      have "perform_reset tx cx w = g_bind (request_id ''reset'') (\<lambda>rid. g_then (register_request rid)
          (g_finally (body rid) (g_then (unregister_request rid) (g_upd (\<lambda>c. c\<lparr>cl_reset_owner := None\<rparr>))))) w0"
        using False by (simp add: perform_reset_def run_bind [OF run_client] run_then [OF run_upd] body_def w0_def)
      also have "\<dots> = g_finally (body rid) (g_then (unregister_request rid) (g_upd (\<lambda>c. c\<lparr>cl_reset_owner := None\<rparr>)))
          (snd (register_request rid w1))"
      proof -
        have "ids_ok (gw_client w0)" using False by (simp add: w0_def)
        from request_registered(1) [OF r this] show ?thesis
          unfolding run_bind [where m = "request_id ''reset''", OF r] by (rule run_then)
      qed
      also have "\<dots> = (v, (snd (unregister_request rid w3))
        \<lparr>gw_client := (gw_client (snd (unregister_request rid w3)))\<lparr>cl_reset_owner := None\<rparr>\<rparr>)"
        by (simp add: run_finally [where m = "body rid", OF b] unregister_request_def g_then_def g_bind_def g_upd_def)
      finally show ?thesis .
    qed
    ultimately show ?thesis using False by (simp add: released_def w0_def)
  qed
qed

lemma reset_session_by_keeps:
  assumes "keeps released (start cx)" and "\<And>obj. keeps released (tx cx obj)"
  shows "keeps released (reset_session_by start tx cx)"
  unfolding reset_session_by_def
  by (auto intro!: rel0.keep_rules assms perform_reset_keeps rel.pausing)

lemma hello_by_keeps:
  assumes "\<And>obj. keeps released (tx cx obj)"
  shows "keeps released (hello_by tx v cx)"
proof (rule keepsI)
  fix w
  define h where "h = ''hello_host_tool''"
  define body where "body = (g_then (\<lambda>w. tx cx (VDict [(''type'', VStr ''hello''), (''request_id'', VStr h),
               (''protocol_version'', VInt v), (''client'', VStr (gw_client_name w))]) w)
       (g_then (wait_for_success cx h ''hello_ack'') (g_ret ())))"
  have body: "keeps released body"
    unfolding body_def by (intro rel0.keep_rules rel.wait_for_success_keeps keepsI) (rule keepsD [OF assms])
  show "released w (snd (hello_by tx v cx w))"
  proof (cases "h \<in> set (cl_pending (gw_client w))")
    case True
    then show ?thesis
      by (simp add: hello_by_def with_request_def register_request_def g_then_def g_bind_def g_client_def g_raise_def
          h_def rel0.refl)
  next
    case False
    define w2 where "w2 = w\<lparr>gw_client := (gw_client w)\<lparr>cl_pending := cl_pending (gw_client w) @ [h],
       cl_queues := dput h [] (cl_queues (gw_client w))\<rparr>\<rparr>"
    obtain r w3 where b: "body w2 = (r, w3)" by (cases "body w2")
    with keepsD [OF body, of w2] have rel: "released w2 w3" by simp
    have "hello_by tx v cx w = (r, snd (unregister_request h w3))"
    proof -
      have "register_request h w = (Inr (), w2)"
        using False by (simp add: register_request_def run_bind [OF run_client] run_upd w2_def)
      note step = run_then [where m = "register_request h", OF this] and last = run_finally [where m = body, OF b]
      show ?thesis
        unfolding hello_by_def with_request_def h_def [symmetric] body_def [symmetric] by (simp only: step last)
    qed
    moreover have "released w (snd (unregister_request h w3))"
      unfolding released_def
    proof (rule impI)
      assume ok: "ids_ok (gw_client w)"
      then have "ids_ok (gw_client w2)" by (auto simp: ids_ok_def w2_def h_def)
      with rel have w3: "ids_ok (gw_client w3)" "cl_request_id_counter (gw_client w) \<le> cl_request_id_counter (gw_client w3)"
        "cl_startup_owner (gw_client w3) = cl_startup_owner (gw_client w)" "cl_reset_owner (gw_client w3) = cl_reset_owner (gw_client w)"
        "set (cl_pending (gw_client w3)) \<subseteq> insert h (set (cl_pending (gw_client w)))"
        by (auto simp: released_def w2_def)
      have "ids_ok (gw_client (snd (unregister_request h w3)))"
        by (rule ids_ok_subset [OF w3(1)]) (auto simp: unregister_pending)
      with w3 show "ids_ok (gw_client (snd (unregister_request h w3))) \<and>
         cl_request_id_counter (gw_client w) \<le> cl_request_id_counter (gw_client (snd (unregister_request h w3))) \<and>
         cl_startup_owner (gw_client (snd (unregister_request h w3))) = cl_startup_owner (gw_client w) \<and>
         cl_reset_owner (gw_client (snd (unregister_request h w3))) = cl_reset_owner (gw_client w) \<and>
         set (cl_pending (gw_client (snd (unregister_request h w3)))) \<subseteq> set (cl_pending (gw_client w))"
        by (auto simp: unregister_pending)
    qed
    ultimately show ?thesis by simp
  qed
qed

lemma send_by_released: "keeps released (start cx) \<Longrightarrow> keeps released (send_by start cx obj)"
  by (simp add: rel.send_by_writes rel0.write_command_keeps released_log)

lemma start_client_keeps: "keeps released (start_client cx)"
proof -
  have again: "keeps released (start_again cx)" for cx
    unfolding start_again_def by (rule start_by_keeps) (rule rel0.raising)
  have snd: "keeps released (send_handshake cx obj)" for cx obj
    unfolding send_handshake_def by (rule send_by_released) (rule again)
  have "keeps released (\<lambda>w. hello_by send_handshake (gw_protocol_version w) cx w)" for cx
    by (rule keepsI) (rule keepsD [OF hello_by_keeps [OF snd]])
  then show ?thesis
    unfolding start_client_def handshake_def by (intro start_by_keeps rel0.sequencing reset_session_by_keeps again snd)
qed

interpretation rel_all: client_full released
  by unfold_locales (rule start_client_keeps, rule recover_uart_keeps)

lemma run_op_released: "keeps released (run_op cx op)"
proof -
  have send: "keeps released (send cx obj)" for cx obj
    unfolding send_def by (rule send_by_released) (rule start_client_keeps)
  consider "op = OpReset" | "op = OpClose" | v where "op = OpHello v" | as app where "op = OpScope as app"
    | "op \<notin> {OpReset, OpClose}" "\<And>v. op \<noteq> OpHello v" "\<And>as app. op \<noteq> OpScope as app"
    by (cases op) auto
  then show ?thesis
  proof cases
    case 1
    then show ?thesis by (simp add: reset_session_def reset_session_by_keeps start_client_keeps send)
  next
    case 2
    then show ?thesis
      by (auto simp: close_client_def same_owners_def intro!: rel0.keep_rules rel0.close_transport_keeps released_upd)
  next
    case 3
    then show ?thesis by (simp add: hello_def hello_by_keeps send)
  next
    case 4
    then show ?thesis
      by (auto simp: set_scope_def set_acquisition_scope_def same_owners_def intro!: keepsI released_same split: sum.split)
  qed (rule rel_all.run_op_keeps)
qed

lemma run_ops_released: "released w (run_ops ops w)"
  unfolding run_ops_def
proof (induction ops arbitrary: w)
  case (Cons x ops)
  obtain cx op where x: "x = (cx, op)" by (cases x)
  from rel0.trans [OF keepsD [OF run_op_released] Cons.IH] show ?case by (simp add: x)
qed (simp add: rel0.refl)

end
