(* ===== verification/Gateway_Client_Theorems.thy ===== *)
theory Gateway_Client_Theorems
  imports Gateway_Client_Owners
begin

text \<open>
  The properties of the gateway client: acquisitions are never disturbed, nothing an operation took
  stays taken, the cleanup policy never opens the port, a reset that returns is confirmed, waiting
  loops end by themselves, and what a scan reports.
\<close>

section \<open>The cleanup policy\<close>

definition port_untouched :: "gevent list \<Rightarrow> bool" where
  "port_untouched new \<longleftrightarrow> (\<forall>e \<in> set new. (\<forall>p. e \<noteq> Opened p) \<and> (\<forall>p l. e \<noteq> Reopened p l) \<and>
     (\<forall>m. e = Wrote m \<longrightarrow> vget m ''type'' \<noteq> VStr ''reset_session''))"

definition modest :: "gworld \<Rightarrow> gworld \<Rightarrow> bool" where
  "modest w w' \<longleftrightarrow> (\<exists>new. gw_log w' = gw_log w @ new \<and> port_untouched new)"

lemma port_untouched_append: "port_untouched (xs @ ys) \<longleftrightarrow> port_untouched xs \<and> port_untouched ys"
  unfolding port_untouched_def by (simp only: set_append ball_Un)

lemma modest_same: "gw_log w' = gw_log w \<Longrightarrow> modest w w'"
  by (simp add: modest_def port_untouched_def)

lemma modest_beside: "beside w w' \<Longrightarrow> modest w w'"
  by (fastforce simp: beside_def modest_def port_untouched_def background_log_def)

lemma modest_upd: "keeps modest (g_upd f)"
  by (rule keepsI, rule modest_same) (simp add: g_upd_def)

lemma modest_log: "port_untouched [e] \<Longrightarrow> keeps modest (g_log e)"
  by (rule keepsI) (auto simp: modest_def g_log_def)

interpretation mod0: elementary_steps modest
proof unfold_locales
  show "modest w w" for w by (rule modest_same) simp
  show "modest u v \<Longrightarrow> modest v w \<Longrightarrow> modest u w" for u v w
    by (auto simp: modest_def port_untouched_append)
  show "keeps modest next_io"
    by (rule keepsI, rule modest_same) (simp add: next_io_def split: list.split)
  show "keeps modest (g_log Closed)" by (rule modest_log) (simp add: port_untouched_def)
qed (rule modest_upd)+

interpretation mod: client_core modest
proof unfold_locales
  show "keeps modest pause" by (rule keepsI) (rule modest_beside [OF pause_frame(1)])
  show "keeps modest (\<lambda>w. get_turns rid (gw_turns w) w)" for rid
    by (rule keepsI, rule modest_beside) (use get_turns_frame in blast)
  show "modest w (w\<lparr>gw_turns := ts\<rparr>)" for w ts by (rule modest_same) simp
  show "modest w w2"
    if "request_id prefix w = (Inr rid, w1)" "register_request rid w1 = (Inl e, w2)" for prefix w rid w1 e w2
    using that by (intro modest_same)
      (auto simp: request_id_def Let_def register_request_def g_bind_def g_client_def g_raise_def g_upd_def split: if_splits)
  show "modest w (snd (unregister_request rid w3))"
    if r: "request_id prefix w = (Inr rid, w1)" "register_request rid w1 = (Inr (), w2)" and k: "modest w2 w3"
    for prefix w rid w1 w2 w3
  proof -
    have "gw_log w2 = gw_log w" using r
      by (auto simp: request_id_def Let_def register_request_def g_bind_def g_client_def g_raise_def g_upd_def split: if_splits)
    with k show ?thesis by (simp add: modest_def unregister_request_def g_upd_def)
  qed
  show "keeps modest (g_upd f)" for f by (rule modest_upd)
  show "keeps modest (g_log (Dispatched ''sensor_disconnected'' m))" for m by (rule modest_log) (simp add: port_untouched_def)
  show "vget obj ''type'' \<noteq> VStr ''reset_session'' \<Longrightarrow> keeps modest (g_log (Wrote obj))" for obj
    by (rule modest_log) (simp add: port_untouched_def)
qed

fun cleanup_op :: "gctx \<Rightarrow> gateway_op \<Rightarrow> bool" where
  "cleanup_op cx (OpConnect as cleanup) = (cx_operation cx \<or> cleanup)"
| "cleanup_op cx (OpDisconnect as allow cleanup) = (cx_operation cx \<or> cleanup)"
| "cleanup_op cx (OpSubscribe a u b i cleanup) = (cx_operation cx \<or> cleanup)"
| "cleanup_op cx (OpSubscribeRetry a u b i cleanup n) = (cx_operation cx \<or> cleanup)"
| "cleanup_op cx (OpUnsubscribe a u cleanup) = (cx_operation cx \<or> cleanup)"
| "cleanup_op cx (OpWrite a u p r allow cleanup) = (cx_operation cx \<or> cleanup)"
| "cleanup_op cx (OpRead a u cleanup) = (cx_operation cx \<or> cleanup)"
| "cleanup_op cx (OpScan t nf pf) = cx_operation cx"
| "cleanup_op cx OpStatus = cx_operation cx"
| "cleanup_op cx OpInventory = True"
| "cleanup_op cx _ = False"

lemma cleanup_op_modest:
  assumes "cleanup_op cx op"
  shows "keeps modest (run_op cx op)"
proof -
  have s: "mod.sendable (cx\<lparr>cx_cleanup := True\<rparr>)" by (simp add: mod.sendable_def)
  note rules = mod0.keep_rules mod.cleanup_keeps mod.attempts_keep [OF s] mod.attempt_subscribe_keeps
    mod.assert_connected_keeps mod.get_connection_inventory_keeps
  show ?thesis using assms
    by (cases op) (auto simp: void_def scan_def connect_def disconnect_def subscribe_def subscribe_with_retry_def
      unsubscribe_def write_gatt_def read_gatt_def get_status_snapshot_def intro!: rules)
qed

section \<open>Confirmed resets\<close>

definition confirmed :: "gclient \<Rightarrow> bool" where
  "confirmed c \<longleftrightarrow> \<not> cl_reset_unconfirmed c \<and> cl_pending_reset_ids c = []"

definition stays_confirmed :: "gworld \<Rightarrow> gworld \<Rightarrow> bool" where
  "stays_confirmed w w' \<longleftrightarrow> (confirmed (gw_client w) \<longrightarrow> confirmed (gw_client w')) \<and> (\<exists>new. gw_log w' = gw_log w @ new)"

lemma confirmed_upd: "(\<And>c. confirmed c \<Longrightarrow> confirmed (f c)) \<Longrightarrow> keeps stays_confirmed (g_upd f)"
  by (rule keepsI) (simp add: stays_confirmed_def g_upd_def)

lemma confirmed_log: "keeps stays_confirmed (g_log e)"
  by (rule keepsI) (simp add: stays_confirmed_def g_log_def)

lemma confirmed_beside: "beside w w' \<Longrightarrow> stays_confirmed w w'"
  by (auto simp: beside_def stays_confirmed_def confirmed_def same_resets_def)

interpretation conf0: elementary_steps stays_confirmed
proof unfold_locales
  show "keeps stays_confirmed next_io"
    by (rule keepsI) (simp add: stays_confirmed_def next_io_def split: list.split)
  show "keeps stays_confirmed (g_upd closing)" "keeps stays_confirmed (g_upd closed)"
    "keeps stays_confirmed (g_upd (\<lambda>c. c\<lparr>cl_pending := []\<rparr>))"
    by (rule confirmed_upd, simp add: confirmed_def closing_def closed_def)+
  show "keeps stays_confirmed (g_log Closed)" by (rule confirmed_log)
qed (auto simp: stays_confirmed_def)

lemma confirmed_registering:
  "keeps stays_confirmed (request_id p)" "keeps stays_confirmed (register_request rid)" "keeps stays_confirmed (unregister_request rid)"
proof -
  show "keeps stays_confirmed (request_id p)"
    by (rule keepsI) (simp add: request_id_def Let_def stays_confirmed_def confirmed_def)
  show "keeps stays_confirmed (register_request rid)" "keeps stays_confirmed (unregister_request rid)"
    by (auto simp: register_request_def unregister_request_def confirmed_def intro!: conf0.keep_rules confirmed_upd)
qed

interpretation conf: client_core stays_confirmed
proof unfold_locales
  show "keeps stays_confirmed pause" by (rule keepsI) (rule confirmed_beside [OF pause_frame(1)])
  show "keeps stays_confirmed (\<lambda>w. get_turns rid (gw_turns w) w)" for rid
    by (rule keepsI, rule confirmed_beside) (use get_turns_frame in blast)
  show "stays_confirmed w (w\<lparr>gw_turns := ts\<rparr>)" for w ts by (simp add: stays_confirmed_def)
  show "stays_confirmed w w2"
    if "request_id prefix w = (Inr rid, w1)" "register_request rid w1 = (Inl e, w2)" for prefix w rid w1 e w2
    using conf0.trans [OF keepsD [OF confirmed_registering(1)] keepsD [OF confirmed_registering(2)], of w rid prefix] that by simp
  show "stays_confirmed w (snd (unregister_request rid w3))"
    if "request_id prefix w = (Inr rid, w1)" "register_request rid w1 = (Inr (), w2)" and k: "stays_confirmed w2 w3"
    for prefix w rid w1 w2 w3
    using conf0.trans [OF keepsD [OF confirmed_registering(1)] keepsD [OF confirmed_registering(2)], of w rid prefix] that
      conf0.trans [OF conf0.trans [OF _ k] keepsD [OF confirmed_registering(3)]] by simp
  show "keeps stays_confirmed (g_upd f)" if "harmless f" for f
    using harmless_fields [OF that] by (intro confirmed_upd) (simp add: confirmed_def)
qed (rule confirmed_log)+

text \<open>The log only grows.\<close>

definition grows :: "gworld \<Rightarrow> gworld \<Rightarrow> bool" where
  "grows w w' \<longleftrightarrow> (\<exists>new. gw_log w' = gw_log w @ new)"

lemma confirmed_grows: "keeps stays_confirmed m \<Longrightarrow> keeps grows m"
  by (auto simp: keeps_def stays_confirmed_def grows_def)

interpretation gr: world_relation grows
  by unfold_locales (auto simp: grows_def)

lemma grows_upd: "keeps grows (g_upd f)"
  by (rule keepsI) (simp add: g_upd_def grows_def)

text \<open>The event that tells the adapters of a completed reset.\<close>

definition reset_announced :: "gworld \<Rightarrow> gworld \<Rightarrow> bool" where
  "reset_announced w w' \<longleftrightarrow> (\<exists>new rid. gw_log w' = gw_log w @ new \<and> Dispatched ''gateway_session_reset''
     (VDict [(''type'', VStr ''gateway_session_reset''), (''request_id'', VStr rid)]) \<in> set new)"

lemma reset_announced_before: "gw_log v = gw_log u @ new \<Longrightarrow> reset_announced v w \<Longrightarrow> reset_announced u w"
  by (auto simp: reset_announced_def)

lemma reset_announced_after: "reset_announced u v \<Longrightarrow> gw_log w = gw_log v @ new \<Longrightarrow> reset_announced u w"
  by (fastforce simp: reset_announced_def)

lemma run_bind_Inr: "g_bind m f w = (Inr x, w') \<Longrightarrow> \<exists>y w1. m w = (Inr y, w1) \<and> f y w1 = (Inr x, w')"
  by (auto simp: g_bind_def split: prod.splits sum.splits)

lemma run_then_Inr: "g_then m n w = (Inr x, w') \<Longrightarrow> \<exists>y w1. m w = (Inr y, w1) \<and> n w1 = (Inr x, w')"
  unfolding g_then_def by (rule run_bind_Inr)

lemma run_finally_Inr: "g_finally m f w = (Inr x, w') \<Longrightarrow> \<exists>w1. m w = (Inr x, w1) \<and> w' = snd (f w1)"
  by (auto simp: g_finally_def split: prod.splits)

lemma extends: "keeps grows m \<Longrightarrow> m w = (r, w') \<Longrightarrow> \<exists>new. gw_log w' = gw_log w @ new"
  by (metis keepsD snd_conv grows_def)

lemma perform_reset_confirms:
  assumes "perform_reset tx cx w = (Inr (), w')" and "\<And>obj. keeps grows (tx cx obj)"
  shows "confirmed (gw_client w') \<and> reset_announced w w'"
proof -
  from assms(1) have free: "cl_active (gw_client w) = [] \<and> cl_reset_owner (gw_client w) = None"
    by (auto simp: perform_reset_def run_bind [OF run_client] g_raise_def split: if_splits)
  define w0 where "w0 = w\<lparr>gw_client := (gw_client w)\<lparr>cl_reset_owner := Some (cx_thread cx), cl_reset_unconfirmed := True\<rparr>\<rparr>"
  define before where "before = (\<lambda>rid. g_then (g_upd (\<lambda>c. c\<lparr>cl_pending_reset_ids := List.insert rid (cl_pending_reset_ids c)\<rparr>))
    (g_then (tx cx (VDict [(''type'', VStr ''reset_session''), (''request_id'', VStr rid)]))
       (wait_for_success cx rid ''reset_session_complete'')))"
  have assoc: "g_then a (g_then b (g_then c d)) = g_then (g_then a (g_then b c)) d" for a b c d
    by (auto simp: g_then_def g_bind_def fun_eq_iff split: prod.split sum.split)
  have "g_bind (request_id ''reset'') (\<lambda>rid. g_then (register_request rid)
      (g_finally (g_then (before rid) (reset_confirmed rid))
        (g_then (unregister_request rid) (g_upd (\<lambda>c. c\<lparr>cl_reset_owner := None\<rparr>))))) w0 = (Inr (), w')"
    using assms(1) free by (simp add: perform_reset_def run_bind [OF run_client] run_then [OF run_upd] w0_def before_def assoc)
  then obtain rid w1 w2 w3 y w4 where r: "request_id ''reset'' w0 = (Inr rid, w1)" "register_request rid w1 = (Inr (), w2)"
    and y: "before rid w2 = (Inr y, w4)" "reset_confirmed rid w4 = (Inr (), w3)"
    and w': "w' = snd (g_then (unregister_request rid) (g_upd (\<lambda>c. c\<lparr>cl_reset_owner := None\<rparr>)) w3)"
    by (auto dest!: run_bind_Inr run_then_Inr run_finally_Inr)
  have "gw_log w2 = gw_log w"
    using r by (auto simp: request_id_def Let_def register_request_def g_bind_def g_client_def g_raise_def g_upd_def w0_def split: if_splits)
  moreover have "\<exists>new. gw_log w4 = gw_log w2 @ new"
  proof -
    obtain v u1 u2 where "tx cx (VDict [(''type'', VStr ''reset_session''), (''request_id'', VStr rid)]) u1 = (Inr v, u2)"
      "gw_log u1 = gw_log w2" and u: "wait_for_success cx rid ''reset_session_complete'' u2 = (Inr y, w4)"
      using y(1) unfolding before_def run_then [OF run_upd] by (auto dest!: run_then_Inr)
    with extends [OF assms(2)] extends [OF confirmed_grows [OF conf.wait_for_success_keeps] u] show ?thesis by fastforce
  qed
  moreover have "w3 = (w4\<lparr>gw_client := (gw_client w4)\<lparr>cl_pending_reset_ids := [], cl_reset_unconfirmed := False\<rparr>,
    gw_log := gw_log w4 @ [Dispatched ''gateway_session_reset''
          (VDict [(''type'', VStr ''gateway_session_reset''), (''request_id'', VStr rid)])]\<rparr>)"
    using y(2) by (simp add: reset_confirmed_def g_then_def g_bind_def g_upd_def g_log_def)
  ultimately show ?thesis
    by (auto simp: w' unregister_request_def g_then_def g_bind_def g_upd_def confirmed_def reset_announced_def)
qed

lemma confirmed_recover: "keeps stays_confirmed (recover_uart cx)"
proof -
  have "keeps stays_confirmed (reopen cx)"
    unfolding reopen_def resolve_port_def op_check_def
    by (auto intro!: conf0.keep_rules conf0.io_or_keeps confirmed_log confirmed_upd conf0.close_transport_keeps
        simp: confirmed_def retire_requests_def) (simp_all add: keeps_def conf0.refl)
  then show ?thesis
    unfolding recover_uart_def probe_or_reopen_def op_check_def
    by (auto intro!: conf0.keep_rules conf0.io_or_keeps confirmed_upd conf.get_connection_inventory_keeps
        split: option.split simp: confirmed_def)
qed

lemma confirmed_open: "keeps stays_confirmed open_port"
  unfolding open_port_def resolve_port_def
  by (auto intro!: conf0.keep_rules confirmed_upd confirmed_log conf0.io_or_keeps simp: confirmed_def)
    (simp_all add: keeps_def conf0.refl)

lemma confirmed_start_by: "keeps stays_confirmed (h cx) \<Longrightarrow> keeps stays_confirmed (start_by h cx)"
  unfolding start_by_def
  by (auto intro!: conf0.keep_rules confirmed_upd confirmed_recover conf0.close_transport_keeps confirmed_open simp: confirmed_def)

lemma confirmed_send_handshake: "keeps stays_confirmed (send_handshake cx obj)"
  unfolding send_handshake_def start_again_def
  by (intro conf.send_by_writes conf0.write_command_keeps confirmed_log disjI2 confirmed_start_by conf0.raising)

lemma confirmed_hello: "(\<And>obj. keeps stays_confirmed (tx cx obj)) \<Longrightarrow> keeps stays_confirmed (hello_by tx v cx)"
  unfolding hello_by_def with_request_def
  by (intro conf0.keep_rules confirmed_registering conf.wait_for_success_keeps keepsI)
    (auto intro!: conf0.keep_rules conf.wait_for_success_keeps keepsI dest: keepsD intro: keepsD)

text \<open>A cold start that succeeds has reset the gateway.\<close>

lemma handshake_confirms:
  assumes "handshake cx w = (Inr (), w')" and "cl_started (gw_client w)"
  shows "confirmed (gw_client w') \<and> reset_announced w w'"
proof -
  from assms(1) obtain w1 where r: "reset_session_by start_again send_handshake cx w = (Inr (), w1)"
    and h: "hello_by send_handshake (gw_protocol_version w1) cx w1 = (Inr (), w')"
    unfolding handshake_def by (auto dest!: run_then_Inr)
  from r assms(2) have "g_then pause (perform_reset send_handshake cx) w = (Inr (), w1)"
    by (auto simp: reset_session_by_def run_bind [OF run_client] g_raise_def split: if_splits)
  then obtain w0 u where p: "pause w = (Inr u, w0)" "perform_reset send_handshake cx w0 = (Inr (), w1)"
    by (auto dest!: run_then_Inr)
  from extends [OF confirmed_grows [OF conf.pausing] p(1)] obtain new where "gw_log w0 = gw_log w @ new" ..
  with perform_reset_confirms [OF p(2) confirmed_grows [OF confirmed_send_handshake]] have 1: "confirmed (gw_client w1)" "reset_announced w w1"
    using reset_announced_before by blast+
  have "keeps stays_confirmed (hello_by send_handshake (gw_protocol_version w1) cx)"
    by (rule confirmed_hello) (rule confirmed_send_handshake)
  from keepsD [OF this, of w1] extends [OF confirmed_grows [OF this] h] h 1 show ?thesis
    using reset_announced_after by (auto simp: stays_confirmed_def)
qed

lemma cold_start_confirms:
  assumes "start_client cx w = (Inr (), w')"
    and "cl_startup_owner (gw_client w) = None" "\<not> cl_started (gw_client w)" "\<not> cl_has_opened_uart (gw_client w)"
  shows "confirmed (gw_client w') \<and> reset_announced w w'"
proof -
  define w0 where "w0 = w\<lparr>gw_client := (gw_client w)\<lparr>cl_startup_owner := Some (cx_thread cx)\<rparr>\<rparr>"
  from assms(2-4) have "start_client cx w = (if cl_active (gw_client w) \<noteq> []
       then g_raise (RuntimeErr ''Gateway startup/reset prohibited during active acquisition'') w
       else g_finally (g_except (g_then open_port (handshake cx)) (\<lambda>e. g_then close_transport (g_raise e)))
           (g_upd (\<lambda>c. c\<lparr>cl_startup_owner := None\<rparr>)) w0)"
    by (simp add: start_client_def start_by_def run_bind [OF run_client] run_then [OF run_upd] w0_def)
  with assms(1) obtain w2 where e: "g_except (g_then open_port (handshake cx)) (\<lambda>e. g_then close_transport (g_raise e)) w0 = (Inr (), w2)"
    and w': "w' = snd (g_upd (\<lambda>c. c\<lparr>cl_startup_owner := None\<rparr>) w2)"
    by (auto simp: g_raise_def split: if_splits dest!: run_finally_Inr)
  from e have "g_then open_port (handshake cx) w0 = (Inr (), w2)"
    by (auto simp: g_except_def g_then_def g_bind_def g_raise_def split: prod.splits sum.splits)
  then obtain w1 where o1: "open_port w0 = (Inr (), w1)" and h: "handshake cx w1 = (Inr (), w2)"
    by (auto dest!: run_then_Inr)
  from o1 have "cl_started (gw_client w1)"
    unfolding open_port_def by (auto dest!: run_bind_Inr run_then_Inr simp: run_upd)
  from handshake_confirms [OF h this] extends [OF confirmed_grows [OF confirmed_open] o1] show ?thesis
    by (auto simp: w' g_upd_def confirmed_def w0_def reset_announced_def)
qed

lemma grows_perform_reset: "(\<And>obj. keeps grows (tx cx obj)) \<Longrightarrow> keeps grows (perform_reset tx cx)"
  unfolding perform_reset_def reset_confirmed_def
  by (auto intro!: gr.keep_rules grows_upd confirmed_grows [OF confirmed_registering(1)]
      confirmed_grows [OF confirmed_registering(2)] confirmed_grows [OF confirmed_registering(3)]
      confirmed_grows [OF conf.wait_for_success_keeps] confirmed_grows [OF confirmed_log])

lemma grows_start_by: "keeps grows (h cx) \<Longrightarrow> keeps grows (start_by h cx)"
  unfolding start_by_def
  by (auto intro!: gr.keep_rules grows_upd confirmed_grows [OF confirmed_recover]
      confirmed_grows [OF conf0.close_transport_keeps] confirmed_grows [OF confirmed_open])

lemma grows_start: "keeps grows (start_client cx)"
proof -
  have h: "keeps grows (\<lambda>w. hello_by send_handshake (gw_protocol_version w) cx w)"
    by (rule keepsI) (rule keepsD [OF confirmed_grows [OF confirmed_hello]], rule confirmed_send_handshake)
  have "keeps grows (start_again cx)" unfolding start_again_def by (rule grows_start_by) (rule gr.raising)
  then have "keeps grows (reset_session_by start_again send_handshake cx)"
    unfolding reset_session_by_def
    by (auto intro!: gr.keep_rules grows_perform_reset confirmed_grows [OF conf.pausing] confirmed_grows [OF confirmed_send_handshake])
  with h have "keeps grows (handshake cx)" unfolding handshake_def by (intro gr.sequencing)
  then show ?thesis unfolding start_client_def by (rule grows_start_by)
qed

lemma grows_send: "keeps grows (send cx obj)"
  unfolding send_def send_by_def
  by (auto intro!: gr.keep_rules grows_start confirmed_grows [OF conf.pausing] confirmed_grows [OF conf0.op_check_keeps]
      confirmed_grows [OF conf0.io_or_keeps] confirmed_grows [OF conf0.write_command_keeps [OF confirmed_log]])

section \<open>Waiting loops\<close>

lemma queue_put_queue:
  "dget_or (cl_queues (queue_put m r c)) rid [] = dget_or (cl_queues c) rid [] @ (if r = rid then [m] else [])"
  by (simp add: queue_put_def)

lemma fold_queue_put_queue:
  "distinct rs \<Longrightarrow> dget_or (cl_queues (fold (queue_put m) rs c)) rid [] = dget_or (cl_queues c) rid [] @ (if rid \<in> set rs then [m] else [])"
  by (induction rs arbitrary: c) (auto simp: queue_put_queue)

lemma deliver_message_queue:
  "distinct (cl_pending c) \<Longrightarrow> length (dget_or (cl_queues (deliver_message t m c)) rid []) \<le> Suc (length (dget_or (cl_queues c) rid []))"
  by (auto simp: deliver_message_def queue_put_queue fold_queue_put_queue split: val.split)

lemma confirm_reset_queue: "cl_queues (confirm_reset v c) = cl_queues c" "cl_pending (confirm_reset v c) = cl_pending c"
  by (simp_all add: confirm_reset_def Let_def split: val.split)

lemma reader_fails_queue:
  "cl_queues (gw_client (reader_fails w)) = cl_queues (gw_client w)"
  "distinct (cl_pending (gw_client w)) \<Longrightarrow> distinct (cl_pending (gw_client (reader_fails w)))"
  by (simp_all add: reader_fails_def Let_def closed_def closing_def)

lemma background_queue:
  assumes "distinct (cl_pending (gw_client w))"
  shows "length (dget_or (cl_queues (gw_client (background t w))) rid []) \<le> Suc (length (dget_or (cl_queues (gw_client w)) rid [])) \<and>
    distinct (cl_pending (gw_client (background t w)))"
proof (cases t)
  case (Rx m)
  show ?thesis
  proof (cases rule: receive_message_cases [of m w])
    case (partly c)
    with Rx assms reader_fails_queue [of "w\<lparr>gw_client := c\<rparr>"] transport_part_fields [OF observe_json_part [OF partly(1)]]
    show ?thesis by simp
  next
    case (routed c c' t)
    from transport_part_fields [OF observe_json_part [OF routed(1)]] assms
    have c: "cl_queues c = cl_queues (gw_client w)" "distinct (cl_pending c)" by simp_all
    have "length (dget_or (cl_queues c') rid []) \<le> Suc (length (dget_or (cl_queues c) rid [])) \<and> distinct (cl_pending c')"
      using route_json_cases [OF routed(2)]
    proof cases
      case (1 u)
      with deliver_message_queue [OF c(2)] c(2) show ?thesis by (simp add: deliver_message_frame)
    next
      case (2 u v)
      with deliver_message_queue [of "confirm_reset v c" u m rid] c(2) show ?thesis
        by (simp add: deliver_message_frame confirm_reset_queue)
    qed
    with Rx routed c show ?thesis by simp
  qed (use Rx assms reader_fails_queue in auto)
next
  case (Scope as app)
  with assms show ?thesis by (auto simp: set_acquisition_scope_def split: sum.splits if_splits)
qed (use assms reader_fails_queue in auto)

text \<open>Every message taken uses up one waiting message or one turn.\<close>

lemma get_turns_budget:
  assumes "get_turns rid ts w = (Inr m, w')" and "distinct (cl_pending (gw_client w))"
  shows "budget rid w' < length (dget_or (cl_queues (gw_client w)) rid []) + length ts \<and> distinct (cl_pending (gw_client w'))"
  using assms
proof (induction ts arbitrary: w)
  case Nil
  then show ?case
    by (subst (asm) get_turns.simps) (auto simp: budget_def split: list.splits)
next
  case (Cons t ts)
  show ?case
  proof (cases "dget_or (cl_queues (gw_client w)) rid []")
    case (Cons x xs)
    with \<open>get_turns rid (t # ts) w = (Inr m, w')\<close> Cons.prems(2) show ?thesis
      by (subst (asm) get_turns.simps) (auto simp: budget_def)
  next
    case Nil
    with Cons.prems(1) have "get_turns rid ts (background t w) = (Inr m, w')"
      by (subst (asm) get_turns.simps) (auto split: if_splits)
    from Cons.IH [OF this] background_queue [OF Cons.prems(2), of t rid] Nil show ?thesis by auto
  qed
qed

lemma next_message_budget:
  assumes "next_message cx rid s w = (Inr v, w')" and "distinct (cl_pending (gw_client w))"
  shows "budget rid w' < budget rid w \<and> distinct (cl_pending (gw_client w'))"
proof -
  have op: "op_check cx w = (r, w1) \<Longrightarrow> gw_client w1 = gw_client w \<and> gw_turns w1 = gw_turns w" for r w1
    by (auto simp: op_check_def io_or_def next_io_def g_bind_def g_ret_def g_raise_def split: if_splits list.splits io.splits)
  from assms(1) obtain u w1 m where "op_check cx w = (Inr u, w1)" "get_turns rid (gw_turns w1) w1 = (Inr m, w')"
    unfolding next_message_def wait_for_message_def by (auto dest!: run_bind_Inr run_then_Inr simp: g_ret_def)
  with op [of "Inr u" w1] get_turns_budget [of rid "gw_turns w1" w1 m w'] assms(2) show ?thesis by (auto simp: budget_def)
qed

text \<open>A loop whose body leaves the queue and the turns alone is not cut short by its bound.\<close>

lemma receive_fuel_enough:
  fixes body :: "'s \<Rightarrow> val \<Rightarrow> ('s + 'r) gop"
  assumes body: "\<And>s m w. budget rid (snd (body s m w)) = budget rid w \<and> cl_pending (gw_client (snd (body s m w))) = cl_pending (gw_client w)"
    and "distinct (cl_pending (gw_client w))" and "n > budget rid w" and "n' > budget rid w"
  shows "receive_fuel n (next_message cx rid) late body s w = receive_fuel n' (next_message cx rid) late body s w"
  using assms(2-4)
proof (induction n arbitrary: n' s w)
  case (Suc n)
  then obtain k where k: "n' = Suc k" by (cases n') auto
  show ?case
  proof (cases "\<exists>ts. gw_turns w = Late # ts")
    case True
    then show ?thesis using k by auto
  next
    case False
    let ?go = "\<lambda>n. g_bind (next_message cx rid s) (\<lambda>v. case v of
              Inr x \<Rightarrow> g_ret x
            | Inl m \<Rightarrow> g_bind (body s m) (\<lambda>r. case r of
                Inl s' \<Rightarrow> receive_fuel n (next_message cx rid) late body s'
              | Inr x \<Rightarrow> g_ret x)) w"
    have unfold: "receive_fuel (Suc j) (next_message cx rid) late body s w = ?go j" for j
      using False by (auto split: list.split turn.split)
    have "?go n = ?go k"
    proof (cases "(next_message cx rid s :: (val + 'r) gop) w")
      case (Pair v w1)
      show ?thesis
      proof (cases v)
        case (Inr x)
        with Pair next_message_budget [of cx rid s w x w1] Suc.prems
        have b1: "budget rid w1 < budget rid w" "distinct (cl_pending (gw_client w1))" by auto
        show ?thesis
        proof (cases x)
          case (Inl m)
          obtain r w2 where r: "body s m w1 = (r, w2)" by (cases "body s m w1")
          with body [of s m w1] b1 have b2: "budget rid w2 < budget rid w" "distinct (cl_pending (gw_client w2))" by auto
          have "receive_fuel n (next_message cx rid) late body s' w2 = receive_fuel k (next_message cx rid) late body s' w2" for s'
            using b2 Suc.prems k by (intro Suc.IH) auto
          with Pair Inr Inl r show ?thesis
            by (cases r) (simp_all add: g_bind_def split: sum.split)
        qed (use Pair Inr in \<open>simp add: g_bind_def\<close>)
      qed (use Pair in \<open>simp add: g_bind_def\<close>)
    qed
    with unfold k show ?thesis by simp
  qed
qed simp

section \<open>Properties\<close>

definition demo_ctx :: gctx where
  "demo_ctx = \<lparr>cx_thread = 1, cx_operation = False, cx_cleanup = False\<rparr>"

definition demo_world :: "turn list \<Rightarrow> io list \<Rightarrow> gworld" where
  "demo_world ts ios = \<lparr>gw_client = (init_client False)\<lparr>cl_ser := Some (True, True), cl_running := True, cl_started := True,
       cl_reader := True, cl_has_opened_uart := True, cl_active := [''AA'']\<rparr>,
     gw_turns = ts, gw_io = ios, gw_port = ''/dev/ttyACM0'', gw_protocol_version = 1, gw_client_name = ''nexus'', gw_log = []\<rparr>"

lemma run_op_acquisition:
  assumes "op \<noteq> OpScope [] False"
  shows "keeps acquisition_kept (run_op cx op)"
proof -
  have send: "vget obj ''type'' \<noteq> VStr ''reset_session'' \<Longrightarrow> keeps acquisition_kept (send cx obj)" for cx obj
    by (rule acq.send_keeps) (simp_all add: acq_all.starting)
  consider "op = OpReset" | "op = OpClose" | v where "op = OpHello v" | as app where "op = OpScope as app"
    | "op \<notin> {OpReset, OpClose}" "\<And>v. op \<noteq> OpHello v" "\<And>as app. op \<noteq> OpScope as app"
    by (cases op) auto
  then show ?thesis
  proof cases
    case 1
    have "acquiring w \<Longrightarrow> reset_session_by start snd' cx w =
        (Inl (RuntimeErr ''Gateway BLE session reset prohibited during active acquisition''), w)" for w start snd'
      by (simp add: reset_session_by_def run_bind [OF run_client] g_raise_def acquiring_def)
    with 1 show ?thesis by (auto simp: keeps_def reset_session_def acquisition_kept_def)
  next
    case 2
    then show ?thesis by (auto simp: close_client_def intro!: acq0.keep_rules acq0.close_transport_keeps acquisition_upd)
  next
    case 3
    have body: "keeps acquisition_kept (g_then (\<lambda>w. send cx (VDict [(''type'', VStr ''hello''), (''request_id'', VStr ''hello_host_tool''),
               (''protocol_version'', VInt v), (''client'', VStr (gw_client_name w))]) w)
       (g_then (wait_for_success cx ''hello_host_tool'' ''hello_ack'') (g_ret ())))"
      by (intro acq0.keep_rules acq.wait_for_success_keeps keepsI keepsD [OF send]) (simp add: vget_VDict)
    have reg: "keeps acquisition_kept (register_request r)" "keeps acquisition_kept (unregister_request r)" for r
      by (auto simp: register_request_def unregister_request_def intro!: acq0.keep_rules acquisition_upd)
    from 3 show ?thesis by (simp add: hello_def hello_by_def with_request_def acq0.keep_rules body reg)
  next
    case 4
    show ?thesis
    proof (rule keepsI)
      fix w
      from 4 assms have "scope_kept (Scope as app)" by auto
      from background_active [OF this, of w] 4 show "acquisition_kept w (snd (run_op cx op w))"
        by (auto simp: acquisition_kept_def acquiring_def set_scope_def split: sum.splits)
    qed
  qed (rule acq_all.run_op_keeps)
qed

text \<open>C9. An acquisition is never disturbed: while acquisition addresses are set and no caller clears
  them, no operation of the client, in any sequence, by any thread, with any behaviour of the gateway,
  of the serial port and of the other threads, writes a reset command, opens the port afresh or ends
  the acquisition.\<close>

theorem acquisition_never_disturbed:
  assumes "cl_active (gw_client w) \<noteq> []" and "list_all scope_kept (gw_turns w)"
    and "\<forall>(cx, op) \<in> set ops. op \<noteq> OpScope [] False"
  shows "cl_active (gw_client (run_ops ops w)) \<noteq> [] \<and>
    (\<exists>new. gw_log (run_ops ops w) = gw_log w @ new \<and> (\<forall>e \<in> set new. (\<forall>p. e \<noteq> Opened p) \<and>
       (\<forall>m. e = Wrote m \<longrightarrow> vget m ''type'' \<noteq> VStr ''reset_session'')))"
proof -
  have "acquisition_kept w (run_ops ops w)" using assms(3)
    unfolding run_ops_def
  proof (induction ops arbitrary: w)
    case (Cons x ops)
    obtain cx op where x: "x = (cx, op)" by (cases x)
    with Cons.prems have "op \<noteq> OpScope [] False" "\<forall>(cx, op) \<in> set ops. op \<noteq> OpScope [] False" by auto
    from acquisition_kept_trans [OF keepsD [OF run_op_acquisition [OF this(1)]] Cons.IH [OF this(2)]]
    show ?case by (simp add: x)
  qed (simp add: acquisition_kept_refl)
  with assms(1,2) show ?thesis by (auto simp: acquisition_kept_def acquiring_def undisturbed_def)
qed

theorem acquisition_never_disturbed_witness:
  "cl_active (gw_client (run_ops [(demo_ctx, OpReset), (demo_ctx, OpScan 5 None None)] (demo_world [Expire] []))) \<noteq> []"
  using acquisition_never_disturbed [of "demo_world [Expire] []" "[(demo_ctx, OpReset), (demo_ctx, OpScan 5 None None)]"]
  by (simp add: demo_world_def)

text \<open>C28. Nothing stays taken: after any sequence of operations from a new client, whatever failed on the
  way, no request is left registered and nobody owns the startup or the reset, so the next operation
  is admitted.\<close>

theorem operations_release_ownership:
  "let c = gw_client (run_ops ops (w\<lparr>gw_client := init_client flush\<rparr>)) in
   cl_pending c = [] \<and> cl_startup_owner c = None \<and> cl_reset_owner c = None"
  using run_ops_released [of "w\<lparr>gw_client := init_client flush\<rparr>" ops]
  by (simp add: released_def ids_ok_def init_client_def Let_def)

text \<open>Cleanup leaves the shared transport alone: an operation under the cleanup policy or under a
  sensor operation never opens or reopens the port and never resets the gateway, whatever goes wrong.\<close>

theorem cleanup_leaves_transport:
  assumes "cleanup_op cx op"
  shows "\<exists>new. gw_log (snd (run_op cx op w)) = gw_log w @ new \<and>
    (\<forall>e \<in> set new. (\<forall>p. e \<noteq> Opened p) \<and> (\<forall>p l. e \<noteq> Reopened p l) \<and>
       (\<forall>m. e = Wrote m \<longrightarrow> vget m ''type'' \<noteq> VStr ''reset_session''))"
  using keepsD [OF cleanup_op_modest [OF assms], of w] by (simp add: modest_def port_untouched_def)

theorem cleanup_leaves_transport_witness:
  "\<exists>new. gw_log (snd (run_op demo_ctx (OpDisconnect [''aa''] True True) (demo_world [] [IoOk, IoFail (SerialErr [])]))) = new \<and>
    (\<forall>e \<in> set new. \<forall>p l. e \<noteq> Reopened p l)"
  using cleanup_leaves_transport [of demo_ctx "OpDisconnect [''aa''] True True" "demo_world [] [IoOk, IoFail (SerialErr [])]"]
  by (auto simp: demo_world_def)

text \<open>A reset that returns is confirmed: when \<open>reset_session\<close> returns normally, also by way of a cold
  start, the gateway has acknowledged it, no reset is outstanding, so that acquisitions are admitted
  again, and the adapters have been told that the BLE links are gone.\<close>

theorem reset_session_confirmed:
  assumes "reset_session cx w = (Inr (), w')" and "cl_startup_owner (gw_client w) = None"
  shows "\<not> cl_reset_unconfirmed (gw_client w') \<and> cl_pending_reset_ids (gw_client w') = [] \<and>
    (\<exists>new rid. gw_log w' = gw_log w @ new \<and> Dispatched ''gateway_session_reset''
       (VDict [(''type'', VStr ''gateway_session_reset''), (''request_id'', VStr rid)]) \<in> set new)"
proof -
  have perform: "confirmed (gw_client w2) \<and> reset_announced w1 w2"
    if "g_then pause (perform_reset send cx) w1 = (Inr (), w2)" for w1 w2
  proof -
    from that obtain w0 u where p: "pause w1 = (Inr u, w0)" "perform_reset send cx w0 = (Inr (), w2)"
      by (auto dest!: run_then_Inr)
    with perform_reset_confirms [OF p(2) grows_send] extends [OF confirmed_grows [OF conf.pausing] p(1)]
    show ?thesis using reset_announced_before by blast
  qed
  consider "cl_started (gw_client w)" | "\<not> cl_started (gw_client w)" "cl_has_opened_uart (gw_client w)"
    | "\<not> cl_started (gw_client w)" "\<not> cl_has_opened_uart (gw_client w)" by blast
  then have "confirmed (gw_client w') \<and> reset_announced w w'"
  proof cases
    case 1
    with assms(1) have "g_then pause (perform_reset send cx) w = (Inr (), w')"
      by (auto simp: reset_session_def reset_session_by_def run_bind [OF run_client] g_raise_def split: if_splits)
    then show ?thesis by (rule perform)
  next
    case 2
    with assms(1) have "g_then (start_client cx) (g_then pause (perform_reset send cx)) w = (Inr (), w')"
      by (auto simp: reset_session_def reset_session_by_def run_bind [OF run_client] g_raise_def split: if_splits)
    then obtain u w1 where "start_client cx w = (Inr u, w1)" "g_then pause (perform_reset send cx) w1 = (Inr (), w')"
      by (auto dest!: run_then_Inr [where m = "start_client cx"])
    with perform extends [OF grows_start] show ?thesis using reset_announced_before by blast
  next
    case 3
    with assms(1) have "start_client cx w = (Inr (), w')"
      by (auto simp: reset_session_def reset_session_by_def run_bind [OF run_client] g_raise_def split: if_splits)
    from cold_start_confirms [OF this assms(2) 3] show ?thesis .
  qed
  then show ?thesis by (simp add: confirmed_def reset_announced_def)
qed

definition reset_ack :: val where
  "reset_ack = VDict [(''type'', VStr ''reset_session_complete''), (''request_id'', VStr ''reset_1'')]"

theorem reset_session_confirmed_witness:
  "\<exists>w'. reset_session demo_ctx (demo_world [Run, Run, Rx reset_ack] [] \<lparr>gw_client := (gw_client (demo_world [] []))\<lparr>cl_active := []\<rparr>\<rparr>) = (Inr (), w') \<and>
     \<not> cl_reset_unconfirmed (gw_client w')"
proof -
  let ?w = "demo_world [Run, Run, Rx reset_ack] [] \<lparr>gw_client := (gw_client (demo_world [] []))\<lparr>cl_active := []\<rparr>\<rparr>"
  have "fst (reset_session demo_ctx ?w) = Inr ()" by code_simp
  then obtain w' where run: "reset_session demo_ctx ?w = (Inr (), w')" by (cases "reset_session demo_ctx ?w") auto
  have "cl_startup_owner (gw_client ?w) = None" by (simp add: demo_world_def init_client_def)
  from reset_session_confirmed [OF run this] run show ?thesis by blast
qed

text \<open>Waiting ends by itself: the number of messages that can arrive bounds the iterations of the loop
  that waits for an answer, so the bound of the model is never what ends it. Any larger bound gives
  the same result and the same state.\<close>

theorem wait_for_success_bound_irrelevant:
  assumes "distinct (cl_pending (gw_client w))" and "n > budget rid w"
  shows "wait_for_success cx rid success w = receive_fuel n (next_message cx rid)
    (\<lambda>_. g_raise (TimeoutErr (''Timed out waiting for '' @ success @ '' request_id='' @ rid)))
    (\<lambda>_ msg. if is_reply success rid msg then g_ret (Inr msg)
       else g_then (raise_if_error msg rid ''Gateway command failed'') (g_ret (Inl ()))) () w"
  unfolding wait_for_success_def receive_def
  by (rule receive_fuel_enough)
    (use assms in \<open>auto simp: g_ret_def g_then_def g_bind_def g_raise_def raise_if_error_def g_guard_def\<close>)

theorem wait_for_success_bound_irrelevant_witness:
  "wait_for_success demo_ctx ''r_1'' ''status'' (demo_world [Expire] []) = receive_fuel 9 (next_message demo_ctx ''r_1'')
    (\<lambda>_. g_raise (TimeoutErr (''Timed out waiting for '' @ ''status'' @ '' request_id='' @ ''r_1'')))
    (\<lambda>_ msg. if is_reply ''status'' ''r_1'' msg then g_ret (Inr msg)
       else g_then (raise_if_error msg ''r_1'' ''Gateway command failed'') (g_ret (Inl ()))) () (demo_world [Expire] [])"
  by (rule wait_for_success_bound_irrelevant) (simp_all add: demo_world_def init_client_def budget_def dget_or_def)

text \<open>What a \<open>scan_result\<close> message contributes.\<close>

definition accepted :: "string option \<Rightarrow> string option \<Rightarrow> val \<Rightarrow> string \<Rightarrow> bool" where
  "accepted name_filter name_prefix_filter m a \<longleftrightarrow>
     (let name = py_str (vget_or m ''name'' (VStr [])) in
      (\<forall>f. name_filter = Some f \<longrightarrow> name = f) \<and> (\<forall>f. name_prefix_filter = Some f \<longrightarrow> py_startswith name f)) \<and>
     normalize_address (vget m ''address'') = Inr a \<and> a \<noteq> []"

lemma scan_result_Inr:
  assumes "scan_result nf pf m matches = Inr matches'"
  shows "(matches' = matches \<and> (\<forall>a. \<not> accepted nf pf m a)) \<or>
    (\<exists>a d. accepted nf pf m a \<and> map_of matches' = (map_of matches)(a \<mapsto> d) \<and>
       (distinct (dkeys matches) \<longrightarrow> distinct (dkeys matches')) \<and> dd_address d = a \<and>
       uuids_of m = Inr (dd_service_uuids d) \<and> dd_rssi d = vget m ''rssi'' \<and> dd_raw d = m)"
proof (cases "(\<exists>f \<in> set_option nf. py_str (vget_or m ''name'' (VStr [])) \<noteq> f) \<or>
    (\<exists>f \<in> set_option pf. \<not> py_startswith (py_str (vget_or m ''name'' (VStr []))) f)")
  case True
  with assms have "matches' = matches" by (cases nf; cases pf) (auto simp: scan_result_def Let_def split: if_splits)
  moreover from True have "\<not> accepted nf pf m a" for a by (auto simp: accepted_def Let_def)
  ultimately show ?thesis by blast
next
  case False
  with assms obtain a where a: "normalize_address (vget m ''address'') = Inr a"
    "(if a = [] then Inr matches else rbind (uuids_of m)
       (\<lambda>uuids. Inr (add_match m (py_str (vget_or m ''name'' (VStr []))) uuids a matches))) = Inr matches'"
    by (auto simp: scan_result_def Let_def rbind_Inr_iff)
  show ?thesis
  proof (cases "a = []")
    case True
    with a show ?thesis by (auto simp: accepted_def)
  next
    case nonempty: False
    with a obtain uuids where u: "uuids_of m = Inr uuids"
      "matches' = add_match m (py_str (vget_or m ''name'' (VStr []))) uuids a matches" by (auto simp: rbind_Inr_iff)
    have "accepted nf pf m a" using False a(1) nonempty by (auto simp: accepted_def Let_def)
    with u show ?thesis
      by (intro disjI2 exI [of _ a] exI conjI) (auto simp: add_match_def Let_def)
  qed
qed

text \<open>The last report of a device wins: after any sequence of scan results the matches have one entry
  per address, and an entry carries exactly the services, the signal strength and the raw message of
  the last accepted result of that address; what earlier results of the device reported is lost.\<close>

theorem scan_last_result_wins:
  assumes "rfold (scan_result nf pf) ms [] = Inr matches"
  shows "distinct (dkeys matches) \<and> (\<forall>a d. map_of matches a = Some d \<longrightarrow>
    (\<exists>pre m post. ms = pre @ m # post \<and> accepted nf pf m a \<and> (\<forall>m' \<in> set post. \<not> accepted nf pf m' a) \<and>
       dd_address d = a \<and> uuids_of m = Inr (dd_service_uuids d) \<and> dd_rssi d = vget m ''rssi'' \<and> dd_raw d = m))"
  (is "?P ms matches")
proof (rule rfold_invariant [where I = "\<lambda>ms matches. distinct (dkeys matches) \<and> (\<forall>a d. map_of matches a = Some d \<longrightarrow>
    (\<exists>pre m post. ms = pre @ m # post \<and> accepted nf pf m a \<and> (\<forall>m' \<in> set post. \<not> accepted nf pf m' a) \<and>
       dd_address d = a \<and> uuids_of m = Inr (dd_service_uuids d) \<and> dd_rssi d = vget m ''rssi'' \<and> dd_raw d = m))", OF assms])
  fix pre m rest matches matches'
  assume I: "?P pre matches" and step: "scan_result nf pf m matches = Inr matches'"
  have old: "\<exists>pre' m' post. pre @ [m] = pre' @ m' # post \<and> accepted nf pf m' a \<and> (\<forall>m'' \<in> set post. \<not> accepted nf pf m'' a) \<and>
       dd_address d = a \<and> uuids_of m' = Inr (dd_service_uuids d) \<and> dd_rssi d = vget m' ''rssi'' \<and> dd_raw d = m'"
    if "map_of matches a = Some d" "\<not> accepted nf pf m a" for a d
  proof -
    from I that(1) obtain p m' q where "pre = p @ m' # q" "accepted nf pf m' a" "\<forall>m'' \<in> set q. \<not> accepted nf pf m'' a"
       "dd_address d = a" "uuids_of m' = Inr (dd_service_uuids d)" "dd_rssi d = vget m' ''rssi''" "dd_raw d = m'" by blast
    with that(2) show ?thesis by (intro exI [of _ p] exI [of _ m'] exI [of _ "q @ [m]"]) auto
  qed
  from scan_result_Inr [OF step] show "?P (pre @ [m]) matches'"
  proof (elim disjE exE conjE)
    assume "matches' = matches" "\<forall>a. \<not> accepted nf pf m a"
    with I old show ?thesis by blast
  next
    fix a d
    assume a: "accepted nf pf m a" "map_of matches' = (map_of matches)(a \<mapsto> d)"
      "distinct (dkeys matches) \<longrightarrow> distinct (dkeys matches')"
      "dd_address d = a" "uuids_of m = Inr (dd_service_uuids d)" "dd_rssi d = vget m ''rssi''" "dd_raw d = m"
    then have other: "\<not> accepted nf pf m b" if "b \<noteq> a" for b using that by (auto simp: accepted_def)
    show ?thesis
    proof (intro conjI allI impI)
      show "distinct (dkeys matches')" using a(3) I by blast
      fix b e
      assume e: "map_of matches' b = Some e"
      show "\<exists>pre' m' post. pre @ [m] = pre' @ m' # post \<and> accepted nf pf m' b \<and> (\<forall>m'' \<in> set post. \<not> accepted nf pf m'' b) \<and>
         dd_address e = b \<and> uuids_of m' = Inr (dd_service_uuids e) \<and> dd_rssi e = vget m' ''rssi'' \<and> dd_raw e = m'"
      proof (cases "b = a")
        case True
        with e a show ?thesis by (intro exI [of _ pre] exI [of _ m] exI [of _ "[]"]) simp
      next
        case False
        with e a(2) have "map_of matches b = Some e" by simp
        from old [OF this other [OF False]] show ?thesis .
      qed
    qed
  qed
qed simp

definition demo_advertisement :: "val list \<Rightarrow> val" where
  "demo_advertisement uuids = VDict [(''type'', VStr ''scan_result''), (''name'', VStr ''imu''), (''address'', VStr ''aa:01''),
     (''service_uuids'', VList uuids), (''rssi'', VInt (-40))]"

theorem scan_last_result_wins_witness:
  "\<exists>matches. rfold (scan_result None None) [demo_advertisement [VStr ''180F''], demo_advertisement []] [] = Inr matches \<and>
     map_option dd_service_uuids (map_of matches ''AA:01'') = Some []"
proof -
  let ?ms = "[demo_advertisement [VStr ''180F''], demo_advertisement []]"
  obtain matches where run: "rfold (scan_result None None) ?ms [] = Inr matches"
    and found: "map_option dd_service_uuids (map_of matches ''AA:01'') = Some []"
  proof -
    have "case rfold (scan_result None None) ?ms [] of Inl e \<Rightarrow> False
      | Inr matches \<Rightarrow> map_option dd_service_uuids (map_of matches ''AA:01'') = Some []" by code_simp
    then show ?thesis using that by (auto split: sum.splits)
  qed
  from scan_last_result_wins [OF run] run found show ?thesis by blast
qed

end
