(* ===== verification/Message_Types.thy ===== *)
theory Message_Types
  imports Nexus_Prelude
begin

text \<open>
  The command and event names of \<^verbatim>\<open>gateway/messaging/message_types.py\<close>,
  one abbreviation per constant of the module.
\<close>

section \<open>Client-to-system commands\<close>

abbreviation CMD_IS_SERVER_READY :: string where
  "CMD_IS_SERVER_READY \<equiv> ''is_server_ready''"

abbreviation CMD_SYSTEM_SETUP :: string where
  "CMD_SYSTEM_SETUP \<equiv> ''system_setup''"

abbreviation CMD_INIT_SYSTEM :: string where
  "CMD_INIT_SYSTEM \<equiv> ''init_system''"

abbreviation CMD_DISCOVER_SENSORS :: string where
  "CMD_DISCOVER_SENSORS \<equiv> ''discover_sensors''"

abbreviation CMD_DISCOVER_SENSORS_FOR_SUBJECTS :: string where
  "CMD_DISCOVER_SENSORS_FOR_SUBJECTS \<equiv> ''discover_sensors_for_subjects''"

abbreviation CMD_CONNECT_TO_ALL :: string where
  "CMD_CONNECT_TO_ALL \<equiv> ''connect_all''"

abbreviation CMD_CONNECT_SUBJECTS :: string where
  "CMD_CONNECT_SUBJECTS \<equiv> ''connect_subjects''"

abbreviation CMD_DISCONNECT_ALL :: string where
  "CMD_DISCONNECT_ALL \<equiv> ''disconnect_all''"

abbreviation CMD_DISCONNECT_SUBJECTS :: string where
  "CMD_DISCONNECT_SUBJECTS \<equiv> ''disconnect_subjects''"

abbreviation CMD_IDENTIFY_SENSOR :: string where
  "CMD_IDENTIFY_SENSOR \<equiv> ''identify_sensor''"

abbreviation CMD_CHECK_BATTERY :: string where
  "CMD_CHECK_BATTERY \<equiv> ''check_battery''"

abbreviation CMD_START_STREAM_FOR_ALL :: string where
  "CMD_START_STREAM_FOR_ALL \<equiv> ''start_stream_for_all''"

abbreviation CMD_START_STREAM_FOR_SUBJECTS :: string where
  "CMD_START_STREAM_FOR_SUBJECTS \<equiv> ''start_stream_for_subjects''"

abbreviation CMD_START_OFFICIAL_STREAM :: string where
  "CMD_START_OFFICIAL_STREAM \<equiv> ''start_official_stream''"

abbreviation CMD_STOP_STREAM_FOR_ALL :: string where
  "CMD_STOP_STREAM_FOR_ALL \<equiv> ''stop_stream_for_all''"

abbreviation CMD_STOP_STREAM_FOR_SUBJECTS :: string where
  "CMD_STOP_STREAM_FOR_SUBJECTS \<equiv> ''stop_stream_for_subjects''"

abbreviation CMD_UPDATE_FILE_PATH :: string where
  "CMD_UPDATE_FILE_PATH \<equiv> ''update_file_path''"

abbreviation CMD_USB_MOUNT :: string where
  "CMD_USB_MOUNT \<equiv> ''usb_mount''"

abbreviation CMD_USB_SAFE_UNMOUNT :: string where
  "CMD_USB_SAFE_UNMOUNT \<equiv> ''usb_safe_unmount''"

abbreviation CMD_GET_USB_STATUS :: string where
  "CMD_GET_USB_STATUS \<equiv> ''get_usb_status''"

abbreviation CMD_GET_DEVICE_INFO :: string where
  "CMD_GET_DEVICE_INFO \<equiv> ''get_device_info''"

abbreviation CMD_FORWARD_CONTROL_CENTER_MESSAGE :: string where
  "CMD_FORWARD_CONTROL_CENTER_MESSAGE \<equiv> ''forward_control_center_message''"

abbreviation CMD_ROBOT_MOTION :: string where
  "CMD_ROBOT_MOTION \<equiv> ''robot_motion''"

abbreviation CMD_ROBOT_STOP :: string where
  "CMD_ROBOT_STOP \<equiv> ''robot_stop''"

section \<open>System-to-client events\<close>

abbreviation EVT_SERVER_READY :: string where
  "EVT_SERVER_READY \<equiv> ''server_ready''"

abbreviation EVT_SYSTEM_INITIALIZED :: string where
  "EVT_SYSTEM_INITIALIZED \<equiv> ''system_initialized''"

abbreviation EVT_NODE_INITIALIZED :: string where
  "EVT_NODE_INITIALIZED \<equiv> ''node_initialized''"

abbreviation EVT_NODE_INITIALIZATION_FAILED :: string where
  "EVT_NODE_INITIALIZATION_FAILED \<equiv> ''node_initialization_failed''"

abbreviation EVT_SENSORS_DISCOVERED :: string where
  "EVT_SENSORS_DISCOVERED \<equiv> ''sensors_discovered''"

abbreviation EVT_SENSORS_DISCOVERED_FOR_SUBJECT :: string where
  "EVT_SENSORS_DISCOVERED_FOR_SUBJECT \<equiv> ''sensors_discovered_for_subject''"

abbreviation EVT_SENSOR_CONNECTED :: string where
  "EVT_SENSOR_CONNECTED \<equiv> ''sensor_connected''"

abbreviation EVT_SENSOR_DISCONNECTED :: string where
  "EVT_SENSOR_DISCONNECTED \<equiv> ''sensor_disconnected''"

abbreviation EVT_SENSOR_CLEANUP_COMPLETE :: string where
  "EVT_SENSOR_CLEANUP_COMPLETE \<equiv> ''sensor_cleanup_complete''"

abbreviation EVT_SENSOR_CLEANUP_STARTED :: string where
  "EVT_SENSOR_CLEANUP_STARTED \<equiv> ''sensor_cleanup_started''"

abbreviation EVT_STREAM_STARTED :: string where
  "EVT_STREAM_STARTED \<equiv> ''stream_started''"

abbreviation EVT_STREAM_STOPPED :: string where
  "EVT_STREAM_STOPPED \<equiv> ''stream_stopped''"

abbreviation EVT_STREAM_DRAINED :: string where
  "EVT_STREAM_DRAINED \<equiv> ''stream_drained''"

abbreviation EVT_STREAM_WARMUP_STARTED :: string where
  "EVT_STREAM_WARMUP_STARTED \<equiv> ''stream_warmup_started''"

abbreviation EVT_STREAM_WARMUP_STATUS :: string where
  "EVT_STREAM_WARMUP_STATUS \<equiv> ''stream_warmup_status''"

abbreviation EVT_STREAM_STARTUP_RETRY :: string where
  "EVT_STREAM_STARTUP_RETRY \<equiv> ''stream_startup_retry''"

abbreviation EVT_STREAM_OFFICIAL_STARTED :: string where
  "EVT_STREAM_OFFICIAL_STARTED \<equiv> ''stream_official_started''"

abbreviation EVT_STREAM_READY_FOR_OFFICIAL :: string where
  "EVT_STREAM_READY_FOR_OFFICIAL \<equiv> ''stream_ready_for_official''"

abbreviation EVT_DISTRIBUTED_READY_FOR_OFFICIAL :: string where
  "EVT_DISTRIBUTED_READY_FOR_OFFICIAL \<equiv> ''distributed_ready_for_official''"

abbreviation EVT_STREAM_STARTUP_FAILED :: string where
  "EVT_STREAM_STARTUP_FAILED \<equiv> ''stream_startup_failed''"

abbreviation EVT_SENSOR_IDENTIFIED :: string where
  "EVT_SENSOR_IDENTIFIED \<equiv> ''sensor_identified''"

abbreviation EVT_SENSOR_MANGER_INITIALISED :: string where
  "EVT_SENSOR_MANGER_INITIALISED \<equiv> ''sensor_manager_initalised''"

abbreviation EVT_BATTERY_UPDATE :: string where
  "EVT_BATTERY_UPDATE \<equiv> ''battery_update''"

abbreviation EVT_BATTERY_CHECK :: string where
  "EVT_BATTERY_CHECK \<equiv> ''battery_check''"

abbreviation EVT_SENSOR_DIAGNOSTICS :: string where
  "EVT_SENSOR_DIAGNOSTICS \<equiv> ''sensor_diagnostics''"

abbreviation EVT_COMPUTE_RESULT :: string where
  "EVT_COMPUTE_RESULT \<equiv> ''compute_result''"

abbreviation EVT_COMPUTE_PERFORMANCE :: string where
  "EVT_COMPUTE_PERFORMANCE \<equiv> ''compute_performance''"

abbreviation EVT_INTERMEDIATE_RESULT :: string where
  "EVT_INTERMEDIATE_RESULT \<equiv> ''intermediate_result''"

abbreviation EVT_CONSOLIDATED_RESULT :: string where
  "EVT_CONSOLIDATED_RESULT \<equiv> ''consolidated_result''"

abbreviation EVT_ERROR :: string where
  "EVT_ERROR \<equiv> ''error''"

abbreviation EVT_USB_DISK_INSERTED :: string where
  "EVT_USB_DISK_INSERTED \<equiv> ''usb_disk_inserted''"

abbreviation EVT_USB_DISK_REMOVED :: string where
  "EVT_USB_DISK_REMOVED \<equiv> ''usb_disk_removed''"

abbreviation EVT_USB_STATUS :: string where
  "EVT_USB_STATUS \<equiv> ''usb_status''"

abbreviation EVT_DEVICE_INFO :: string where
  "EVT_DEVICE_INFO \<equiv> ''device_info''"

abbreviation EVT_CONTROL_CENTER_MESSAGE :: string where
  "EVT_CONTROL_CENTER_MESSAGE \<equiv> ''control_center_message''"

abbreviation EVT_ROBOT_STATUS :: string where
  "EVT_ROBOT_STATUS \<equiv> ''robot_status''"

abbreviation EVT_SUBJECT_CONNECTION_PROGRESS :: string where
  "EVT_SUBJECT_CONNECTION_PROGRESS \<equiv> ''subject_connection_progress''"

end
