(* ===== verification/Node_Registry.thy ===== *)
theory Node_Registry
  imports Message_Types
begin

text \<open>
  The distributed node and subject registry, \<^verbatim>\<open>distributed/registry.py\<close>, and the
  capability tests of \<^verbatim>\<open>distributed/capabilities.py\<close>. Every method of \<open>NodeRegistry\<close>
  holds the registry's lock for its whole body, so each is one function on the record
  \<open>node_registry\<close>; the clock reading \<open>time.time()\<close> is an argument. Snapshots are the values
  themselves.
\<close>

section \<open>State\<close>

record node_info =
  ip :: val
  role :: string
  identity :: val
  last_seen :: val
  compute_port :: val
  capabilities :: val

record subject_info =
  assigned_node :: string
  meta :: val

record node_registry =
  nodes :: "(string, node_info) dict"
  subjects :: "(string, subject_info) dict"

definition init_node_registry :: node_registry where
  "init_node_registry = \<lparr>nodes = [], subjects = []\<rparr>"

section \<open>Nodes\<close>

definition register_node ::
  "val \<Rightarrow> string \<Rightarrow> val \<Rightarrow> string \<Rightarrow> val \<Rightarrow> val \<Rightarrow> val \<Rightarrow> node_registry \<Rightarrow> node_registry" where
  "register_node now node_id nip nrole nidentity port caps r =
     r\<lparr>nodes := dput node_id \<lparr>ip = nip, role = nrole, identity = nidentity, last_seen = now,
        compute_port = port, capabilities = py_or caps (VDict [])\<rparr> (nodes r)\<rparr>"

definition get_nodes :: "node_registry \<Rightarrow> (string, node_info) dict" where
  "get_nodes r = nodes r"

definition heartbeat :: "val \<Rightarrow> string \<Rightarrow> node_registry \<Rightarrow> node_registry" where
  "heartbeat now node_id r = (case map_of (nodes r) node_id of
     None \<Rightarrow> r
   | Some data \<Rightarrow> r\<lparr>nodes := dput node_id (data\<lparr>last_seen := now\<rparr>) (nodes r)\<rparr>)"

definition get_worker_ids :: "node_registry \<Rightarrow> string list" where
  "get_worker_ids r = map fst (filter (\<lambda>(nid, data). role data = ''worker'') (nodes r))"

definition get_ai_nodes :: "node_registry \<Rightarrow> (string, node_info) dict" where
  "get_ai_nodes r = filter (\<lambda>(nid, data). role data = ''ai'') (nodes r)"

definition ai_node_entry :: "val \<Rightarrow> val \<Rightarrow> node_info" where
  "ai_node_entry now data = \<lparr>ip = vget data ''ip'', role = ''ai'', identity = VNone,
     last_seen = vget_or data ''last_seen'' now, compute_port = vget data ''compute_port'',
     capabilities = vget_or data ''capabilities'' (VDict [])\<rparr>"

definition set_ai_nodes :: "val \<Rightarrow> (string, val) dict \<Rightarrow> node_registry \<Rightarrow> node_registry" where
  "set_ai_nodes now ai_nodes r =
     r\<lparr>nodes := fold (\<lambda>(node_id, data) ns. dput node_id (ai_node_entry now data) ns) ai_nodes
        (filter (\<lambda>(nid, data). role data \<noteq> ''ai'') (nodes r))\<rparr>"

definition get_identity :: "node_registry \<Rightarrow> string \<Rightarrow> val" where
  "get_identity r node_id = (case map_of (nodes r) node_id of None \<Rightarrow> VNone | Some n \<Rightarrow> identity n)"

section \<open>Subjects\<close>

definition replace_subjects :: "(string, string) dict \<Rightarrow> node_registry \<Rightarrow> node_registry" where
  "replace_subjects assignments r =
     r\<lparr>subjects := map (\<lambda>(sid, nid). (sid, \<lparr>assigned_node = nid, meta = VDict []\<rparr>)) assignments\<rparr>"

definition assign_subject :: "string \<Rightarrow> string \<Rightarrow> val \<Rightarrow> node_registry \<Rightarrow> node_registry" where
  "assign_subject subject_id node_id m r =
     r\<lparr>subjects := dput subject_id \<lparr>assigned_node = node_id, meta = py_or m (VDict [])\<rparr> (subjects r)\<rparr>"

definition get_subjects :: "node_registry \<Rightarrow> (string, subject_info) dict" where
  "get_subjects r = subjects r"

text \<open>\<open>{sid: sub["assigned_node"] for sid, sub in registry.get_subjects().items()}\<close>\<close>

definition owners :: "node_registry \<Rightarrow> (string, string) dict" where
  "owners r = map (\<lambda>(sid, s). (sid, assigned_node s)) (get_subjects r)"

section \<open>Capabilities\<close>

definition normalize_name :: "val \<Rightarrow> string" where
  "normalize_name name = py_lower (py_strip (py_str name))"

definition capability_names :: "val \<Rightarrow> string \<Rightarrow> py_error + string list" where
  "capability_names caps key = rbind
     (if is_dict caps then py_iter (vget_or caps key (VList [])) else Inr [])
     (\<lambda>names. Inr (map normalize_name names))"

definition supports_sensor :: "val \<Rightarrow> string \<Rightarrow> py_error + bool" where
  "supports_sensor caps sensor_name =
     (if sensor_name = [] then Inr False
      else rbind (capability_names caps ''supported_sensors'')
             (\<lambda>names. Inr (normalize_name (VStr sensor_name) \<in> set names)))"

definition supports_algorithm :: "val \<Rightarrow> string \<Rightarrow> py_error + bool" where
  "supports_algorithm caps algorithm_name =
     (if algorithm_name = [] then Inr False
      else rbind (capability_names caps ''supported_algorithms'')
             (\<lambda>names. Inr (normalize_name (VStr algorithm_name) \<in> set names)))"

text \<open>\<open>build_node_capabilities\<close>: the names the plugin discovery reports are arguments.\<close>

definition clean_names :: "val list \<Rightarrow> string list" where
  "clean_names names = filter (\<lambda>n. n \<noteq> []) (map (\<lambda>n. py_strip (py_str n)) names)"

definition sorted_names :: "(string \<Rightarrow> nat) \<Rightarrow> string list \<Rightarrow> val" where
  "sorted_names rank names = VList (map VStr (sort_key py_lower (set_iter rank names)))"

definition build_node_capabilities ::
  "(string \<Rightarrow> nat) \<Rightarrow> bool \<Rightarrow> bool \<Rightarrow> val list \<Rightarrow> val list \<Rightarrow> val" where
  "build_node_capabilities rank include_sensors include_algorithms sensors algorithms =
     VDict [(''supported_sensors'', sorted_names rank
               (if include_sensors
                then clean_names (map (\<lambda>s. py_or (vget s ''name'') (VStr [])) sensors) else [])),
            (''supported_algorithms'', sorted_names rank
               (if include_algorithms then clean_names algorithms else []))]"

section \<open>Invariant and laws\<close>

definition registry_ok :: "node_registry \<Rightarrow> bool" where
  "registry_ok r \<longleftrightarrow> distinct (dkeys (nodes r)) \<and> distinct (dkeys (subjects r))"

lemma distinct_dkeys_filter: "distinct (dkeys d) \<Longrightarrow> distinct (dkeys (filter P d))"
  by (simp add: distinct_map_filter)

lemma distinct_fold_dput:
  "distinct (dkeys d) \<Longrightarrow> distinct (dkeys (fold (\<lambda>(k, v) acc. dput k (f v) acc) kvs d))"
  by (induction kvs arbitrary: d) auto

lemma registry_ok_init: "registry_ok init_node_registry"
  by (simp add: registry_ok_def init_node_registry_def)

lemma registry_ok_register: "registry_ok r \<Longrightarrow> registry_ok (register_node now nid i ro ident p c r)"
  by (simp add: registry_ok_def register_node_def)

lemma registry_ok_heartbeat: "registry_ok r \<Longrightarrow> registry_ok (heartbeat now nid r)"
  by (simp add: registry_ok_def heartbeat_def split: option.splits)

lemma registry_ok_set_ai: "registry_ok r \<Longrightarrow> registry_ok (set_ai_nodes now ai r)"
  unfolding registry_ok_def set_ai_nodes_def
  by (auto intro!: distinct_fold_dput [of _ "ai_node_entry now", simplified] distinct_dkeys_filter)

lemma registry_ok_replace:
  "registry_ok r \<Longrightarrow> distinct (dkeys a) \<Longrightarrow> registry_ok (replace_subjects a r)"
  by (simp add: registry_ok_def replace_subjects_def comp_def case_prod_beta)

lemma registry_ok_assign: "registry_ok r \<Longrightarrow> registry_ok (assign_subject sid nid m r)"
  by (simp add: registry_ok_def assign_subject_def)

lemmas registry_ok_intros = registry_ok_init registry_ok_register registry_ok_heartbeat
  registry_ok_set_ai registry_ok_replace registry_ok_assign

lemma owners_replace [simp]: "owners (replace_subjects a r) = a"
  by (simp add: owners_def get_subjects_def replace_subjects_def comp_def case_prod_beta)

lemma nodes_replace [simp]: "nodes (replace_subjects a r) = nodes r"
  by (simp add: replace_subjects_def)

end
