(* ===== verification/Master_Plan.thy ===== *)
theory Master_Plan
  imports Node_Registry "HOL-Library.Product_Lexorder"
begin

text \<open>
  The placement of subjects on execution nodes, from \<^verbatim>\<open>distributed/master_node.py\<close>:
  \<open>_subject_requirements\<close>, \<open>_node_supports_subject\<close>, \<open>_plan_subject_assignments\<close>,
  \<open>_validate_subjects_per_node\<close> and \<open>assign_subjects\<close>. A subject is the JSON value the client
  sent; a plan is the dictionary from node ids to the subjects placed on the node. Every
  exception the code can raise on a malformed subject is an \<open>Inl\<close>.
\<close>

section \<open>Definitions\<close>

type_synonym plan = "(string, val list) dict"

definition MASTER :: string where
  "MASTER = ''master''"

definition MAX_TOTAL_SENSORS_PER_NODE :: int where
  "MAX_TOTAL_SENSORS_PER_NODE = 8"

text \<open>\<open>sum(s.get("number_of", 1) for s in sub.get("sensors", []))\<close>\<close>

definition sensor_count :: "val \<Rightarrow> py_error + int" where
  "sensor_count sub =
     rbind (py_get sub ''sensors'' (VList [])) (\<lambda>v.
     rbind (py_iter v) (\<lambda>ss.
     rbind (rmap (\<lambda>s. rbind (py_get s ''number_of'' (VInt 1)) py_int) ss) (\<lambda>ns.
       Inr (sum_list ns))))"

definition validate_subjects_per_node :: "val list \<Rightarrow> py_error + unit" where
  "validate_subjects_per_node subs =
     rbind (rmap sensor_count subs) (\<lambda>ns.
       if sum_list ns > MAX_TOTAL_SENSORS_PER_NODE
       then Inl (ValueError ''Node would be assigned too many sensors''
              [VInt (sum_list ns), VList (map (\<lambda>s. vget s ''subject_id'') subs),
               VInt MAX_TOTAL_SENSORS_PER_NODE])
       else Inr ())"

text \<open>Names of the sensor and of the algorithm one sensor entry requires.\<close>

definition sensor_requirements :: "val \<Rightarrow> py_error + string list \<times> string list" where
  "sensor_requirements sensor_conf =
     rbind (py_get sensor_conf ''local_name'' VNone) (\<lambda>name.
     rbind (py_get sensor_conf ''compute_algorithm'' VNone) (\<lambda>alg.
     rbind (py_get (py_or alg (VDict [])) ''name'' VNone) (\<lambda>alg_name.
       let sensor_name = py_strip (py_str (py_or name (VStr [])));
           algorithm_name = py_strip (py_str (py_or alg_name (VStr [])))
       in Inr (if sensor_name = [] then [] else [sensor_name],
               if algorithm_name = [] then [] else [algorithm_name]))))"

definition subject_requirements :: "val \<Rightarrow> py_error + string list \<times> string list" where
  "subject_requirements subject =
     rbind (py_get subject ''sensors'' (VList [])) (\<lambda>v.
     rbind (py_iter v) (\<lambda>confs.
     rbind (rmap sensor_requirements confs) (\<lambda>rs.
       Inr (concat (map fst rs), concat (map snd rs)))))"

definition node_supports_subject :: "node_info \<Rightarrow> val \<Rightarrow> py_error + bool" where
  "node_supports_subject node subject =
     (let caps = py_or (capabilities node) (VDict []) in
      rbind (subject_requirements subject) (\<lambda>(sensors, algorithms).
      rbind (rall (supports_sensor caps) sensors) (\<lambda>ok.
        if ok then rall (supports_algorithm caps) algorithms else Inr False)))"

definition execution_nodes :: "(string, node_info) dict \<Rightarrow> (string, node_info) dict" where
  "execution_nodes ns = filter (\<lambda>(nid, node). role node \<in> {''master'', ''worker''}) ns"

definition eligible_nodes ::
  "(string, node_info) dict \<Rightarrow> (string, int) dict \<Rightarrow> int \<Rightarrow> val \<Rightarrow> py_error + string list" where
  "eligible_nodes exec counts n sub =
     rbind (rfilter (\<lambda>(nid, node).
              rbind (node_supports_subject node sub) (\<lambda>ok.
                Inr (ok \<and> dget_or counts nid 0 + n \<le> MAX_TOTAL_SENSORS_PER_NODE))) exec)
       (\<lambda>el. Inr (map fst el))"

text \<open>\<open>min(eligible, key=lambda item: (counts[item[0]], item[0] != self.node_id, item[0]))\<close>\<close>

definition least_loaded :: "(string, int) dict \<Rightarrow> string list \<Rightarrow> string" where
  "least_loaded counts el = arg_min_list (\<lambda>nid. (dget_or counts nid 0, nid \<noteq> MASTER, nid)) el"

definition place_subject ::
  "(string, node_info) dict \<Rightarrow> val \<Rightarrow> plan \<times> (string, int) dict
    \<Rightarrow> py_error + plan \<times> (string, int) dict" where
  "place_subject exec sub st = (case st of (pm, counts) \<Rightarrow>
     rbind (sensor_count sub) (\<lambda>n.
     rbind (eligible_nodes exec counts n sub) (\<lambda>el.
       if el = [] then
         rbind (subject_requirements sub) (\<lambda>(sensors, algorithms).
           Inl (ValueError ''No execution-capable node can host subject''
             [vget sub ''subject_id'', VList (map VStr sensors), VList (map VStr algorithms)]))
       else (let nid = least_loaded counts el in
         Inr (dappend nid sub pm, dput nid (dget_or counts nid 0 + n) counts)))))"

definition subject_ids_ok :: "val list \<Rightarrow> bool" where
  "subject_ids_ok subs =
     (let sids = map (\<lambda>s. vget s ''subject_id'') (filter is_dict subs) in
      length sids = length subs \<and> list_all (\<lambda>sid. is_str sid \<and> truthy sid) sids \<and> distinct sids)"

definition plan_subject_assignments :: "node_registry \<Rightarrow> val \<Rightarrow> py_error + plan" where
  "plan_subject_assignments r subs =
     (if \<not> is_list subs then Inl (ValueError ''Subjects must be a list'' [])
      else if \<not> subject_ids_ok (as_list subs)
      then Inl (ValueError ''Subject IDs must be nonempty and unique'' [])
      else (let exec = execution_nodes (get_nodes r) in
        if exec = [] then Inl (ValueError ''No execution-capable nodes are registered'' [])
        else
          rbind (rfold (place_subject exec) (as_list subs)
                   (map (\<lambda>(nid, _). (nid, [])) exec, map (\<lambda>(nid, _). (nid, 0)) exec)) (\<lambda>(pm, _).
          rbind (rmap (\<lambda>(nid, ss). if ss = [] then Inr () else validate_subjects_per_node ss) pm)
            (\<lambda>_. Inr pm))))"

definition sid_of :: "val \<Rightarrow> string" where
  "sid_of sub = py_str (vget sub ''subject_id'')"

text \<open>\<open>{sub["subject_id"]: nid for nid, subs in plan.items() for sub in subs}\<close>\<close>

definition assignments_of :: "plan \<Rightarrow> (string, string) dict" where
  "assignments_of p = fold (\<lambda>(sid, nid) acc. dput sid nid acc)
     (concat (map (\<lambda>(nid, ss). map (\<lambda>s. (sid_of s, nid)) ss) p)) []"

definition assign_subjects :: "val \<Rightarrow> node_registry \<Rightarrow> py_error + node_registry \<times> val list" where
  "assign_subjects subs r =
     rbind (plan_subject_assignments r subs) (\<lambda>p.
       Inr (replace_subjects (assignments_of p) r, dget_or p MASTER []))"

section \<open>The loop invariant of the placement\<close>

text \<open>\<open>load n ss\<close>: the subjects' sensor counts are defined and add up to \<open>n\<close>.\<close>

definition load :: "val list \<Rightarrow> int \<Rightarrow> bool" where
  "load ss n \<longleftrightarrow> (\<exists>ns. rmap sensor_count ss = Inr ns \<and> sum_list ns = n)"

definition place_inv ::
  "(string, node_info) dict \<Rightarrow> val list \<Rightarrow> plan \<times> (string, int) dict \<Rightarrow> bool" where
  "place_inv exec seen st \<longleftrightarrow> (case st of (pm, counts) \<Rightarrow>
     dkeys pm = dkeys exec \<and> mset (concat (map snd pm)) = mset seen \<and>
     (\<forall>(nid, node) \<in> set exec. load (dget_or pm nid []) (dget_or counts nid 0) \<and>
        dget_or counts nid 0 \<le> MAX_TOTAL_SENSORS_PER_NODE \<and>
        (\<forall>s \<in> set (dget_or pm nid []). node_supports_subject node s = Inr True)))"

lemma rmap_append:
  "rmap f (xs @ ys) = rbind (rmap f xs) (\<lambda>as. rbind (rmap f ys) (\<lambda>bs. Inr (as @ bs)))"
proof (induction xs)
  case Nil
  then show ?case by (cases "rmap f ys") auto
next
  case (Cons x xs)
  then show ?case by (cases "f x"; cases "rmap f xs"; cases "rmap f ys") auto
qed

lemma load_Nil [simp]: "load [] n \<longleftrightarrow> n = 0"
  by (auto simp: load_def)

lemma load_snoc: "load ss n \<Longrightarrow> sensor_count s = Inr m \<Longrightarrow> load (ss @ [s]) (n + m)"
  by (auto simp: load_def rmap_append)

lemma arg_min_list_in_set: "xs \<noteq> [] \<Longrightarrow> arg_min_list f xs \<in> set xs"
  by (rule arg_min_list_in)

lemma dkeys_update_same: "k \<in> fst ` set d \<Longrightarrow> dkeys (dput k v d) = dkeys d"
  by (simp add: update_keys)

lemma mset_concat_dappend:
  "k \<in> fst ` set d \<Longrightarrow> distinct (dkeys d) \<Longrightarrow>
   mset (concat (map snd (dappend k x d))) = add_mset x (mset (concat (map snd d)))"
proof (induction d)
  case (Cons kv d)
  obtain k' v where kv: "kv = (k', v)" by (cases kv)
  show ?case
  proof (cases "k' = k")
    case True
    with kv show ?thesis by (simp add: dappend_def dget_or_def)
  next
    case False
    with Cons kv show ?thesis by (simp add: dappend_def dget_or_def)
  qed
qed simp

lemma eligible_nodes_Inr:
  assumes "eligible_nodes exec counts n sub = Inr el" and "nid \<in> set el" and "distinct (dkeys exec)"
  shows "\<exists>node. (nid, node) \<in> set exec"
    and "(nid, node) \<in> set exec \<Longrightarrow> node_supports_subject node sub = Inr True \<and>
           dget_or counts nid 0 + n \<le> MAX_TOTAL_SENSORS_PER_NODE"
proof -
  from assms(1) obtain kept where kept: "el = map fst kept" "rfilter (\<lambda>(nid, node).
      rbind (node_supports_subject node sub) (\<lambda>ok.
        Inr (ok \<and> dget_or counts nid 0 + n \<le> MAX_TOTAL_SENSORS_PER_NODE))) exec = Inr kept"
    by (auto simp: eligible_nodes_def rbind_Inr_iff)
  with assms(2) rfilter_Inr [OF kept(2)] obtain node where node: "(nid, node) \<in> set exec"
    "node_supports_subject node sub = Inr True"
    "dget_or counts nid 0 + n \<le> MAX_TOTAL_SENSORS_PER_NODE"
    by (auto simp: rbind_Inr_iff)
  then show "\<exists>node. (nid, node) \<in> set exec" by blast
  show "node_supports_subject node' sub = Inr True \<and>
      dget_or counts nid 0 + n \<le> MAX_TOTAL_SENSORS_PER_NODE" if "(nid, node') \<in> set exec" for node'
    using that node assms(3) by (metis Pair_inject eq_key_imp_eq_value)
qed

lemma dget_or_const: "dget_or (map (\<lambda>(nid, _). (nid, c)) d) k c = c"
  by (induction d) (auto simp: dget_or_def)

lemma place_inv_start:
  "distinct (dkeys exec) \<Longrightarrow>
   place_inv exec [] (map (\<lambda>(nid, _). (nid, [])) exec, map (\<lambda>(nid, _). (nid, 0)) exec)"
proof -
  have "concat (map (snd \<circ> (\<lambda>(nid, _). (nid, []))) exec) = []"
    by (induction exec) auto
  then show ?thesis
    by (auto simp: place_inv_def MAX_TOTAL_SENSORS_PER_NODE_def dget_or_const case_prod_beta comp_def
        dget_or_const [unfolded case_prod_beta])
qed

lemma place_inv_step:
  assumes exec: "distinct (dkeys exec)" and inv: "place_inv exec seen st"
    and step: "place_subject exec sub st = Inr st'"
  shows "place_inv exec (seen @ [sub]) st'"
proof -
  obtain pm counts where st: "st = (pm, counts)" by (cases st)
  from step st obtain n el where n: "sensor_count sub = Inr n"
    and el: "eligible_nodes exec counts n sub = Inr el" "el \<noteq> []"
    and st': "st' = (dappend (least_loaded counts el) sub pm, dput (least_loaded counts el)
                (dget_or counts (least_loaded counts el) 0 + n) counts)"
    by (auto simp: place_subject_def rbind_Inr_iff Let_def split: if_splits prod.splits)
  define nid where "nid = least_loaded counts el"
  have "nid \<in> set el" unfolding nid_def least_loaded_def by (rule arg_min_list_in_set) (rule el(2))
  note elig = eligible_nodes_Inr [OF el(1) this exec]
  from inv st have keys: "dkeys pm = dkeys exec" and cover: "mset (concat (map snd pm)) = mset seen"
    and per: "\<And>k node. (k, node) \<in> set exec \<Longrightarrow> load (dget_or pm k []) (dget_or counts k 0) \<and>
        dget_or counts k 0 \<le> MAX_TOTAL_SENSORS_PER_NODE \<and>
        (\<forall>s \<in> set (dget_or pm k []). node_supports_subject node s = Inr True)"
    by (auto simp: place_inv_def)
  from elig(1) keys have mem: "nid \<in> fst ` set pm" by (metis fst_conv image_eqI list.set_map)
  have "dkeys (dappend nid sub pm) = dkeys exec"
    using mem keys by (simp add: dappend_def dkeys_update_same)
  moreover have "mset (concat (map snd (dappend nid sub pm))) = mset (seen @ [sub])"
    using mset_concat_dappend [OF mem] keys exec cover by simp
  moreover have "load (dget_or (dappend nid sub pm) k []) (dget_or (dput nid
        (dget_or counts nid 0 + n) counts) k 0) \<and>
      dget_or (dput nid (dget_or counts nid 0 + n) counts) k 0 \<le> MAX_TOTAL_SENSORS_PER_NODE \<and>
      (\<forall>s \<in> set (dget_or (dappend nid sub pm) k []). node_supports_subject node s = Inr True)"
    if "(k, node) \<in> set exec" for k node
    using per [OF that] elig(2) that load_snoc [OF _ n] by auto
  ultimately show ?thesis unfolding st' nid_def [symmetric] by (auto simp: place_inv_def)
qed

lemma placement_inv:
  assumes "distinct (dkeys exec)"
    and "rfold (place_subject exec) subs (map (\<lambda>(nid, _). (nid, [])) exec,
           map (\<lambda>(nid, _). (nid, 0)) exec) = Inr st"
  shows "place_inv exec subs st"
  using assms(2) place_inv_start [OF assms(1)] place_inv_step [OF assms(1)]
  by (rule rfold_invariant)

lemma validate_load:
  "load ss n \<Longrightarrow> n \<le> MAX_TOTAL_SENSORS_PER_NODE \<Longrightarrow> validate_subjects_per_node ss = Inr ()"
  by (auto simp: load_def validate_subjects_per_node_def)

text \<open>The check at the end of the planning never raises.\<close>

lemma placement_validates:
  assumes exec: "distinct (dkeys exec)" and inv: "place_inv exec subs (pm, counts)"
  shows "\<exists>us. rmap (\<lambda>(nid, ss). if ss = [] then Inr () else validate_subjects_per_node ss) pm = Inr us"
proof -
  have "validate_subjects_per_node ss = Inr ()" if "(nid, ss) \<in> set pm" for nid ss
  proof -
    from inv have keys: "dkeys pm = dkeys exec" by (simp add: place_inv_def)
    with exec that have "dget_or pm nid [] = ss" by (simp add: dget_or_def)
    moreover from that keys obtain node where "(nid, node) \<in> set exec"
      by (metis (mono_tags, lifting) fst_conv image_iff list.set_map prod.exhaust_sel)
    ultimately show ?thesis using inv by (auto simp: place_inv_def intro: validate_load)
  qed
  then show ?thesis
    by (induction pm) (force split: prod.splits)+
qed

lemma plan_inv:
  assumes "registry_ok r" and "plan_subject_assignments r subs = Inr p"
  shows "\<exists>counts. place_inv (execution_nodes (nodes r)) (as_list subs) (p, counts) \<and>
    subject_ids_ok (as_list subs) \<and> is_list subs \<and> distinct (dkeys (execution_nodes (nodes r)))"
proof -
  have exec: "distinct (dkeys (execution_nodes (nodes r)))"
    using assms(1) by (simp add: registry_ok_def execution_nodes_def distinct_dkeys_filter)
  with assms(2) placement_inv [OF exec] show ?thesis
    by (auto simp: plan_subject_assignments_def rbind_Inr_iff Let_def get_nodes_def split: if_splits)
qed


section \<open>The ownership map of a plan\<close>

lemma in_plan_iff:
  "distinct (dkeys p) \<Longrightarrow> (nid, ss) \<in> set p \<Longrightarrow> dget_or p nid [] = ss"
  by (simp add: dget_or_def)

lemma map_of_fold_dput:
  "distinct (map fst kvs) \<Longrightarrow>
   map_of (fold (\<lambda>(k, v) acc. dput k v acc) kvs d) k
     = (case map_of kvs k of None \<Rightarrow> map_of d k | Some v \<Rightarrow> Some v)"
  using map_of_dmerge [of kvs d k] by (simp add: dmerge_def)

definition owner_pairs :: "plan \<Rightarrow> (string \<times> string) list" where
  "owner_pairs p = concat (map (\<lambda>(nid, ss). map (\<lambda>s. (sid_of s, nid)) ss) p)"

lemma map_fst_owner_pairs: "map fst (owner_pairs p) = map sid_of (concat (map snd p))"
  by (induction p) (auto simp: owner_pairs_def)

lemma set_owner_pairs:
  "(sid, nid) \<in> set (owner_pairs p) \<longleftrightarrow> (\<exists>ss s. (nid, ss) \<in> set p \<and> s \<in> set ss \<and> sid = sid_of s)"
  by (force simp: owner_pairs_def)

lemma sids_distinct: "subject_ids_ok subs \<Longrightarrow> distinct (map sid_of subs)"
proof -
  assume ok: "subject_ids_ok subs"
  then have "length (filter is_dict subs) = length subs" by (simp add: subject_ids_ok_def Let_def)
  then have all: "filter is_dict subs = subs" by (metis length_filter_less less_irrefl filter_True)
  with ok have d: "distinct (map (\<lambda>s. vget s ''subject_id'') subs)"
    and str: "\<And>s. s \<in> set subs \<Longrightarrow> is_str (vget s ''subject_id'')"
    by (auto simp: subject_ids_ok_def list_all_iff Let_def)
  have "is_str a \<Longrightarrow> is_str b \<Longrightarrow> py_str a = py_str b \<Longrightarrow> a = b" for a b
    by (cases a; cases b) auto
  with d str show ?thesis by (auto simp: distinct_map inj_on_def sid_of_def)
qed

lemma plan_owner:
  assumes inv: "place_inv exec subs (p, counts)" and ids: "subject_ids_ok subs"
    and exec: "distinct (dkeys exec)" and s: "s \<in> set subs"
  shows "map_of (assignments_of p) (sid_of s) = Some nid \<longleftrightarrow> s \<in> set (dget_or p nid [])"
proof -
  from inv have keys: "distinct (dkeys p)" and cover: "mset (concat (map snd p)) = mset subs"
    using exec by (auto simp: place_inv_def)
  have "mset (map fst (owner_pairs p)) = mset (map sid_of subs)"
    unfolding map_fst_owner_pairs using cover by (metis mset_map)
  with sids_distinct [OF ids] have dist: "distinct (map fst (owner_pairs p))"
    by (metis mset_eq_imp_distinct_iff)
  have "map_of (assignments_of p) (sid_of s) = map_of (owner_pairs p) (sid_of s)"
    unfolding assignments_of_def owner_pairs_def [symmetric] map_of_fold_dput [OF dist]
    by (simp split: option.split)
  then have "map_of (assignments_of p) (sid_of s) = Some nid \<longleftrightarrow> (sid_of s, nid) \<in> set (owner_pairs p)"
    using map_of_eq_Some_iff [OF dist] by simp
  also have "\<dots> \<longleftrightarrow> (\<exists>ss s'. (nid, ss) \<in> set p \<and> s' \<in> set ss \<and> sid_of s = sid_of s')"
    by (rule set_owner_pairs)
  also have "\<dots> \<longleftrightarrow> (\<exists>ss. (nid, ss) \<in> set p \<and> s \<in> set ss)"
  proof -
    have "s' \<in> set subs" if "(n, ss) \<in> set p" "s' \<in> set ss" for n ss s'
    proof -
      from that have "s' \<in> set (concat (map snd p))" by force
      with cover show ?thesis by (metis set_mset_mset)
    qed
    with s sids_distinct [OF ids] show ?thesis by (metis distinct_map inj_onD)
  qed
  also have "\<dots> \<longleftrightarrow> s \<in> set (dget_or p nid [])"
    using keys by (auto simp: dget_or_def split: option.splits dest: map_of_SomeD)
  finally show ?thesis .
qed

section \<open>Which errors a placement can raise\<close>

definition no_value_error :: "py_error + 'a \<Rightarrow> bool" where
  "no_value_error r \<longleftrightarrow> (\<forall>m as. r \<noteq> Inl (ValueError m as))"

lemma nve_Inr [simp]: "no_value_error (Inr x)"
  by (simp add: no_value_error_def)

lemma nve_rbind: "no_value_error r \<Longrightarrow> (\<And>x. no_value_error (f x)) \<Longrightarrow> no_value_error (rbind r f)"
  by (cases r) (auto simp: no_value_error_def)

lemma nve_rmap: "(\<And>x. no_value_error (f x)) \<Longrightarrow> no_value_error (rmap f xs)"
  by (induction xs) (auto intro!: nve_rbind)

lemma nve_rfilter: "(\<And>x. no_value_error (f x)) \<Longrightarrow> no_value_error (rfilter f xs)"
  by (induction xs) (auto intro!: nve_rbind)

lemma nve_rall: "(\<And>x. no_value_error (f x)) \<Longrightarrow> no_value_error (rall f xs)"
  by (induction xs) (auto intro!: nve_rbind)

lemma nve_py [simp]: "no_value_error (py_iter v)" "no_value_error (py_get w k d)" "no_value_error (py_int u)"
  by (cases v; simp add: no_value_error_def)
    ((simp add: no_value_error_def py_get_def), (cases u; simp add: no_value_error_def))

lemmas nve_intros = nve_rbind nve_rmap nve_rfilter nve_rall

lemma nve_sensor_count: "no_value_error (sensor_count s)"
  unfolding sensor_count_def by (intro nve_intros) auto

lemma nve_requirements: "no_value_error (subject_requirements s)"
  unfolding subject_requirements_def sensor_requirements_def Let_def by (intro nve_intros) auto

lemma nve_supports: "no_value_error (supports_sensor c x)" "no_value_error (supports_algorithm c x)"
  unfolding supports_sensor_def supports_algorithm_def capability_names_def
  by (auto intro!: nve_intros)

lemma nve_node_supports: "no_value_error (node_supports_subject n s)"
  unfolding node_supports_subject_def Let_def
  by (intro nve_rbind nve_requirements) (auto intro!: nve_intros nve_supports split: prod.splits)

lemma nve_eligible: "no_value_error (eligible_nodes e c n s)"
  unfolding eligible_nodes_def
  by (intro nve_rbind nve_rfilter) (auto intro!: nve_rbind nve_node_supports split: prod.splits)

lemma place_subject_error:
  "place_subject e s st \<noteq> Inl (ValueError ''Node would be assigned too many sensors'' as)"
proof -
  obtain pm counts where st: "st = (pm, counts)" by (cases st)
  show ?thesis
    using nve_sensor_count [of s] nve_eligible [of e counts _ s] nve_requirements [of s]
    by (cases "sensor_count s"; cases "eligible_nodes e counts (projr (sensor_count s)) s";
        cases "subject_requirements s")
      (auto simp: place_subject_def st Let_def no_value_error_def split: prod.splits)
qed

section \<open>Properties\<close>

text \<open>A two-node registry and two subjects, for the witnesses.\<close>

definition plan_demo_registry :: node_registry where
  "plan_demo_registry =
     register_node (VInt 2) ''w1'' VNone ''worker'' (VStr ''id1'') VNone
       (VDict [(''supported_sensors'', VList [VStr ''imu'', VStr ''ifmcu''])])
     (register_node (VInt 1) ''master'' VNone ''master'' VNone VNone
       (VDict [(''supported_sensors'', VList [VStr ''IMU''])]) init_node_registry)"

definition plan_demo_subjects :: val where
  "plan_demo_subjects = VList
     [VDict [(''subject_id'', VStr ''s1''),
             (''sensors'', VList [VDict [(''local_name'', VStr '' imu ''), (''number_of'', VInt 5)]])],
      VDict [(''subject_id'', VStr ''s2''),
             (''sensors'', VList [VDict [(''local_name'', VStr ''IFMCU''), (''number_of'', VInt 4)],
                                  VDict [(''local_name'', VStr ''imu'')]])]]"

text \<open>C30. Every subject is placed exactly once, and the ownership map the master installs names
  for each subject exactly the node whose part of the plan holds it.\<close>

theorem plan_places_each_subject_once:
  assumes "registry_ok r" and "plan_subject_assignments r subs = Inr p"
  shows "mset (concat (map snd p)) = mset (as_list subs) \<and>
    (\<forall>s \<in> set (as_list subs). \<forall>nid.
       map_of (assignments_of p) (sid_of s) = Some nid \<longleftrightarrow> s \<in> set (dget_or p nid []))"
proof -
  from plan_inv [OF assms] obtain counts where
    inv: "place_inv (execution_nodes (nodes r)) (as_list subs) (p, counts)"
    and rest: "subject_ids_ok (as_list subs)" "distinct (dkeys (execution_nodes (nodes r)))" by blast
  from plan_owner [OF inv rest] inv show ?thesis by (simp add: place_inv_def)
qed

theorem plan_places_each_subject_once_witness:
  "\<exists>p. plan_subject_assignments plan_demo_registry plan_demo_subjects = Inr p \<and>
    mset (concat (map snd p)) = mset (as_list plan_demo_subjects)"
proof -
  have "\<not> isl (plan_subject_assignments plan_demo_registry plan_demo_subjects)" by code_simp
  then obtain p where p: "plan_subject_assignments plan_demo_registry plan_demo_subjects = Inr p"
    by (cases "plan_subject_assignments plan_demo_registry plan_demo_subjects") auto
  have "registry_ok plan_demo_registry"
    unfolding plan_demo_registry_def by (intro registry_ok_intros)
  from plan_places_each_subject_once [OF this p] p show ?thesis by blast
qed

text \<open>C16. A plan keeps to the nodes' capacity and capabilities: every node that receives subjects
  is a registered master or worker, the numbers of sensors of its subjects add up to at most
  eight, and it supports every sensor and algorithm of each of them.\<close>

theorem plan_respects_capacity_and_capabilities:
  assumes "registry_ok r" and "plan_subject_assignments r subs = Inr p" and "(nid, ss) \<in> set p"
  shows "\<exists>node ns. map_of (nodes r) nid = Some node \<and> role node \<in> {''master'', ''worker''} \<and>
    rmap sensor_count ss = Inr ns \<and> sum_list ns \<le> 8 \<and>
    (\<forall>s \<in> set ss. node_supports_subject node s = Inr True)"
proof -
  from plan_inv [OF assms(1,2)] obtain counts where
    inv: "place_inv (execution_nodes (nodes r)) (as_list subs) (p, counts)"
    and exec: "distinct (dkeys (execution_nodes (nodes r)))" by blast
  from inv have keys: "dkeys p = dkeys (execution_nodes (nodes r))" by (simp add: place_inv_def)
  with exec assms(3) have ss: "dget_or p nid [] = ss" by (simp add: in_plan_iff)
  from assms(3) keys obtain node where node: "(nid, node) \<in> set (execution_nodes (nodes r))"
    by (metis (mono_tags, lifting) fst_conv image_iff list.set_map prod.exhaust_sel)
  moreover have "map_of (nodes r) nid = Some node"
    using node assms(1) by (auto simp: execution_nodes_def registry_ok_def)
  ultimately show ?thesis
    using inv ss by (fastforce simp: place_inv_def load_def execution_nodes_def
        MAX_TOTAL_SENSORS_PER_NODE_def)
qed

theorem plan_respects_capacity_and_capabilities_witness:
  "\<exists>p ss ns. plan_subject_assignments plan_demo_registry plan_demo_subjects = Inr p \<and> (''w1'', ss) \<in> set p \<and>
    rmap sensor_count ss = Inr ns \<and> sum_list ns \<le> 8 \<and> ss \<noteq> []"
proof -
  have "(case plan_subject_assignments plan_demo_registry plan_demo_subjects of
      Inr p \<Rightarrow> (''w1'', [as_list plan_demo_subjects ! 1]) \<in> set p | _ \<Rightarrow> False)" by code_simp
  then obtain p where p: "plan_subject_assignments plan_demo_registry plan_demo_subjects = Inr p"
    and w: "(''w1'', [as_list plan_demo_subjects ! 1]) \<in> set p"
    by (cases "plan_subject_assignments plan_demo_registry plan_demo_subjects") auto
  have "registry_ok plan_demo_registry"
    unfolding plan_demo_registry_def by (intro registry_ok_intros)
  from plan_respects_capacity_and_capabilities [OF this p w] p w show ?thesis by blast
qed

text \<open>The check of the node totals after the placement is never the reason of a rejection:
  the placement has already kept every node within its capacity.\<close>

theorem plan_final_check_never_raises:
  assumes "registry_ok r"
  shows "plan_subject_assignments r subs
    \<noteq> Inl (ValueError ''Node would be assigned too many sensors'' args)"
proof
  assume eq: "plan_subject_assignments r subs
    = Inl (ValueError ''Node would be assigned too many sensors'' args)"
  let ?exec = "execution_nodes (nodes r)"
  let ?start = "(map (\<lambda>(nid, _). (nid, [])) ?exec, map (\<lambda>(nid, _). (nid, 0)) ?exec)"
  have exec: "distinct (dkeys ?exec)"
    using assms by (simp add: registry_ok_def execution_nodes_def distinct_dkeys_filter)
  have "rfold (place_subject e) ss st
      \<noteq> Inl (ValueError ''Node would be assigned too many sensors'' as)" for e ss st as
    using place_subject_error by (induction ss arbitrary: st) (auto simp: rbind_def split: sum.splits)
  then obtain pm counts where placed: "rfold (place_subject ?exec) (as_list subs) ?start = Inr (pm, counts)"
    using eq by (cases "rfold (place_subject ?exec) (as_list subs) ?start")
      (auto simp: plan_subject_assignments_def Let_def get_nodes_def split: if_splits)
  from placement_validates [OF exec placement_inv [OF exec placed]] placed eq show False
    by (auto simp: plan_subject_assignments_def Let_def get_nodes_def split: if_splits)
qed

theorem plan_final_check_never_raises_witness:
  "plan_subject_assignments plan_demo_registry plan_demo_subjects
    \<noteq> Inl (ValueError ''Node would be assigned too many sensors'' [])"
proof -
  have "registry_ok plan_demo_registry" unfolding plan_demo_registry_def by (intro registry_ok_intros)
  then show ?thesis by (rule plan_final_check_never_raises)
qed

end
