(* ===== verification/Connection_Sequence.thy ===== *)
theory Connection_Sequence
  imports Message_Types
begin

text \<open>
  The ordered ``Connect All'' workflow of
  \<^verbatim>\<open>core/subject_connection_sequence.py\<close>, class \<open>SubjectConnectionSequence\<close>, which the
  master and the standalone Core share.

  The object's fields are the record \<open>conn_seq\<close>; every method is a function from the state
  to the new state and the list of effects it performs in order: events emitted, commands
  dispatched, timers started and cancelled, and an exception that leaves the method. The code
  outside the class is a parameter: \<open>uuid n\<close> is the \<open>n\<close>-th value of \<open>uuid.uuid4().hex\<close> (the
  counter \<open>cq_uuids\<close> says how many were drawn) and \<open>disp node command payload\<close> is \<open>None\<close> when
  the dispatch callback returns and \<open>Some msg\<close> when it raises an exception with that text.
  All methods run under the object's lock and the event bus is asynchronous, so each method
  is one atomic step.
\<close>

section \<open>State\<close>

record csubject =
  cs_subject_id :: string
  cs_node_id :: string
  cs_locations :: "val list"

record pending_step =
  p_token :: string
  p_subject :: csubject
  p_operation :: string

record conn_seq =
  cq_subjects :: "csubject list"
  cq_selected :: "(string, string list) dict"
  cq_completed :: "string set"
  cq_discovered :: "string set"
  cq_active :: bool
  cq_pending :: "pending_step option"
  cq_timer :: "(string \<times> nat) option"
  cq_correlation_id :: val
  cq_sequence_id :: val
  cq_index :: nat
  cq_uuids :: nat

datatype effect =
    Emit val
  | Dispatch string string val
  | TimerStart string nat
  | TimerCancel string
  | Raised string

type_synonym dispatcher = "string \<Rightarrow> string \<Rightarrow> val \<Rightarrow> string option"
type_synonym uuid_source = "nat \<Rightarrow> string"

definition init_conn_seq :: conn_seq where
  "init_conn_seq = \<lparr>cq_subjects = [], cq_selected = [], cq_completed = {}, cq_discovered = {},
     cq_active = False, cq_pending = None, cq_timer = None, cq_correlation_id = VNone,
     cq_sequence_id = VNone, cq_index = 0, cq_uuids = 0\<rparr>"

text \<open>Sequential composition of state-and-effect steps.\<close>

definition and_then :: "'s \<times> 'e list \<Rightarrow> ('s \<Rightarrow> 's \<times> 'e list) \<Rightarrow> 's \<times> 'e list" where
  "and_then r f = (let (s, e) = r; (s', e') = f s in (s', e @ e'))"

section \<open>Operations\<close>

definition normalized :: "val \<Rightarrow> string" where
  "normalized address = py_upper (py_strip (py_str (py_or address (VStr []))))"

definition cancel_timer :: "conn_seq \<Rightarrow> conn_seq \<times> effect list" where
  "cancel_timer s = (case cq_timer s of
     None \<Rightarrow> (s, [])
   | Some (token, _) \<Rightarrow> (s\<lparr>cq_timer := None\<rparr>, [TimerCancel token]))"

definition configure :: "csubject list \<Rightarrow> conn_seq \<Rightarrow> conn_seq \<times> effect list" where
  "configure subjects s = and_then (cancel_timer s) (\<lambda>s.
     (s\<lparr>cq_subjects := subjects, cq_selected := [], cq_completed := {}, cq_discovered := {},
        cq_active := False, cq_pending := None, cq_sequence_id := VNone\<rparr>, []))"

definition busy :: "conn_seq \<Rightarrow> bool" where
  "busy s \<longleftrightarrow> cq_active s \<or> cq_pending s \<noteq> None"

text \<open>Addresses selected for subjects outside \<open>sids\<close>.\<close>

definition selected_outside :: "conn_seq \<Rightarrow> string set \<Rightarrow> string list" where
  "selected_outside s sids =
     concat (map snd (filter (\<lambda>(sid, _). sid \<notin> sids) (cq_selected s)))"

definition exclusions :: "string set \<Rightarrow> conn_seq \<Rightarrow> string list" where
  "exclusions subject_ids s = sorted_list_of_set (set (selected_outside s subject_ids))"

fun opt_val :: "string option \<Rightarrow> val" where
  "opt_val None = VNone"
| "opt_val (Some x) = VStr x"

definition strs :: "string list \<Rightarrow> val" where
  "strs xs = VList (map VStr xs)"

definition progress_payload ::
  "string \<Rightarrow> csubject option \<Rightarrow> (string \<times> val) list \<Rightarrow> conn_seq \<Rightarrow> (string \<times> val) list" where
  "progress_payload phase subject extra s = dmerge
     [(''correlation_id'', cq_correlation_id s),
      (''connection_sequence_id'', cq_sequence_id s),
      (''subject_id'', opt_val (map_option cs_subject_id subject)),
      (''node_id'', opt_val (map_option cs_node_id subject)),
      (''phase'', VStr phase),
      (''operation_correlation_id'', opt_val (map_option p_token (cq_pending s))),
      (''completed_subject_ids'',
         strs (filter (\<lambda>sid. sid \<in> cq_completed s) (map cs_subject_id (cq_subjects s))))]
     extra"

definition progress ::
  "string \<Rightarrow> csubject option \<Rightarrow> (string \<times> val) list \<Rightarrow> conn_seq \<Rightarrow> conn_seq \<times> effect list" where
  "progress phase subject extra s =
     (s, [Emit (VDict [(''type'', VStr EVT_SUBJECT_CONNECTION_PROGRESS),
                       (''payload'', VDict (progress_payload phase subject extra s))])])"

definition fail_step ::
  "val \<Rightarrow> csubject option \<Rightarrow> string option \<Rightarrow> conn_seq \<Rightarrow> conn_seq \<times> effect list" where
  "fail_step message subject operation s = and_then (cancel_timer s) (\<lambda>s.
     (let subject' = (case subject of Some x \<Rightarrow> Some x | None \<Rightarrow> map_option p_subject (cq_pending s));
          operation' = (case operation of Some x \<Rightarrow> Some x | None \<Rightarrow> map_option p_operation (cq_pending s));
          chosen = (case subject' of None \<Rightarrow> [] | Some x \<Rightarrow> dget_or (cq_selected s) (cs_subject_id x) [])
      in progress ''failed'' subject'
           [(''operation'', opt_val operation'), (''message'', message),
            (''selected_addresses'', strs chosen)]
           (s\<lparr>cq_active := False\<rparr>)))"

text \<open>The command and the extra payload fields of a step; \<open>None\<close> is the \<open>KeyError\<close> of
  \<open>self.selected[sid]\<close>.\<close>

definition step_command ::
  "csubject \<Rightarrow> string \<Rightarrow> conn_seq \<Rightarrow> (string \<times> (string \<times> val)) option" where
  "step_command subject operation s = (let sid = cs_subject_id subject in
     if operation = ''discovering''
     then Some (CMD_DISCOVER_SENSORS_FOR_SUBJECTS,
                (''excluded_addresses'', strs (exclusions {sid} s)))
     else (case map_of (cq_selected s) sid of
             None \<Rightarrow> None
           | Some addresses \<Rightarrow> Some (CMD_CONNECT_SUBJECTS, (''selected_addresses'', strs addresses))))"

definition step_timeout :: "csubject \<Rightarrow> nat" where
  "step_timeout subject = 30 + 45 * length (cs_locations subject)"

definition step ::
  "uuid_source \<Rightarrow> dispatcher \<Rightarrow> csubject \<Rightarrow> string \<Rightarrow> conn_seq \<Rightarrow> conn_seq \<times> effect list" where
  "step uuid disp subject operation s =
     (let token = uuid (cq_uuids s) in
      and_then (progress operation (Some subject) []
          (s\<lparr>cq_uuids := Suc (cq_uuids s),
             cq_pending := Some \<lparr>p_token = token, p_subject = subject, p_operation = operation\<rparr>\<rparr>))
        (\<lambda>s. case step_command subject operation s of
           None \<Rightarrow> (s, [Raised ''KeyError''])
         | Some (command, extra) \<Rightarrow>
             (let payload = VDict [(''correlation_id'', VStr token),
                                   (''connection_sequence_id'', cq_sequence_id s),
                                   (''subject_ids'', VList [VStr (cs_subject_id subject)]),
                                   extra]
              in and_then (s\<lparr>cq_timer := Some (token, step_timeout subject)\<rparr>,
                           [TimerStart token (step_timeout subject),
                            Dispatch (cs_node_id subject) command payload])
                   (\<lambda>s. case disp (cs_node_id subject) command payload of
                      None \<Rightarrow> (s, [])
                    | Some msg \<Rightarrow> and_then (fail_step (VStr msg) None None s)
                                    (\<lambda>s. (s\<lparr>cq_pending := None\<rparr>, []))))))"

text \<open>The \<open>while\<close> loop skips the subjects that are already connected; the last emission
  reads \<open>self.subjects[-1]\<close>, which exists because \<open>start\<close> refuses an empty configuration.\<close>

function next_subject :: "uuid_source \<Rightarrow> dispatcher \<Rightarrow> conn_seq \<Rightarrow> conn_seq \<times> effect list" where
  "next_subject uuid disp s =
     (if cq_index s < length (cq_subjects s)
      then (let subject = cq_subjects s ! cq_index s; sid = cs_subject_id subject in
            if sid \<in> cq_completed s
            then and_then (progress ''subject_connected'' (Some subject) [(''skipped'', VBool True)] s)
                   (\<lambda>_. next_subject uuid disp (s\<lparr>cq_index := Suc (cq_index s)\<rparr>))
            else step uuid disp subject
                   (if sid \<in> cq_discovered s then ''connecting'' else ''discovering'') s)
      else if cq_subjects s = [] then (s\<lparr>cq_active := False\<rparr>, [Raised ''IndexError''])
      else progress ''completed'' (Some (last (cq_subjects s))) [] (s\<lparr>cq_active := False\<rparr>))"
  by pat_completeness auto
termination
  by (relation "measure (\<lambda>(uuid, disp, s). length (cq_subjects s) - cq_index s)") auto

declare next_subject.simps [simp del]

definition start_sequence ::
  "uuid_source \<Rightarrow> dispatcher \<Rightarrow> val \<Rightarrow> conn_seq \<Rightarrow> conn_seq \<times> effect list" where
  "start_sequence uuid disp correlation_id s =
     (if busy s
      then (s, [Emit (VDict [(''type'', VStr EVT_SUBJECT_CONNECTION_PROGRESS),
             (''payload'', VDict [(''correlation_id'', correlation_id), (''phase'', VStr ''failed''),
               (''subject_id'', opt_val (map_option (cs_subject_id \<circ> p_subject) (cq_pending s))),
               (''node_id'', opt_val (map_option (cs_node_id \<circ> p_subject) (cq_pending s))),
               (''operation'', VStr ''connect_all''),
               (''message'', VStr ''Connect All is still in progress; wait for completion or Reset'')])])])
      else if cq_subjects s = [] then (s, [Raised ''No configured subjects for Connect All''])
      else (let n = cq_uuids s;
                m = (if truthy correlation_id then n else Suc n)
            in next_subject uuid disp
                 (s\<lparr>cq_correlation_id := py_or correlation_id (VStr (uuid n)),
                    cq_sequence_id := VStr (uuid m), cq_uuids := Suc m,
                    cq_active := True, cq_index := 0\<rparr>)))"

definition expired :: "string \<Rightarrow> conn_seq \<Rightarrow> conn_seq \<times> effect list" where
  "expired token s =
     (if map_option p_token (cq_pending s) = Some token \<and> cq_active s
      then fail_step (VStr ''Timed out waiting for operation completion; wait for its result or Reset before retrying'')
             None None s
      else (s, []))"

section \<open>Events\<close>

definition forget_subject :: "csubject \<Rightarrow> conn_seq \<Rightarrow> conn_seq" where
  "forget_subject subject s = s
     \<lparr>cq_selected := dpop (cs_subject_id subject) (cq_selected s),
      cq_completed := cq_completed s - {cs_subject_id subject},
      cq_discovered := cq_discovered s - {cs_subject_id subject}\<rparr>"

text \<open>\<open>EVT_SENSOR_CLEANUP_COMPLETE\<close>: an authoritative Reset of one node.\<close>

definition on_cleanup_complete :: "val \<Rightarrow> val \<Rightarrow> conn_seq \<Rightarrow> conn_seq \<times> effect list" where
  "on_cleanup_complete event payload s =
     (if truthy (vget payload ''recover_session'') \<and>
         vget payload ''core_ready_for_configuration'' = VBool True
      then (let node = vget_or payload ''node_id'' (vget event ''node_id'');
                s' = fold forget_subject
                       (filter (\<lambda>x. VStr (cs_node_id x) = node) (cq_subjects s)) s
            in case cq_pending s' of
                 None \<Rightarrow> (s', [])
               | Some p \<Rightarrow>
                   if VStr (cs_node_id (p_subject p)) = node
                   then and_then (if cq_active s'
                                  then fail_step (VStr ''Connect All interrupted by Reset'') None None s'
                                  else (s', []))
                          (\<lambda>s. (s\<lparr>cq_pending := None\<rparr>, []))
                   else (s', []))
      else (s, []))"

text \<open>The loop over \<open>self.selected.items()\<close> of \<open>EVT_SENSOR_DISCONNECTED\<close>.\<close>

fun lose_sensors ::
  "string set \<Rightarrow> (string \<times> string list) list \<Rightarrow> conn_seq \<Rightarrow> conn_seq \<times> effect list" where
  "lose_sensors lost [] s = (s, [])"
| "lose_sensors lost ((sid, addresses) # rest) s =
     (if lost \<inter> set addresses \<noteq> {}
      then (let was_complete = sid \<in> cq_completed s;
                s' = s\<lparr>cq_completed := cq_completed s - {sid}\<rparr>
            in if cq_active s' \<and> was_complete
               then (case find (\<lambda>x. cs_subject_id x = sid) (cq_subjects s') of
                       None \<Rightarrow> (s', [Raised ''StopIteration''])
                     | Some subject \<Rightarrow>
                         and_then (fail_step (VStr ''Previously connected subject lost a sensor'')
                                     (Some subject) (Some ''connecting'') s')
                           (lose_sensors lost rest))
               else lose_sensors lost rest s')
      else lose_sensors lost rest s)"

definition on_sensor_disconnected :: "val \<Rightarrow> conn_seq \<Rightarrow> conn_seq \<times> effect list" where
  "on_sensor_disconnected payload s =
     lose_sensors
       (set (map normalized (as_list (vget_or payload ''disconnected_sensors'' (VList [])))))
       (cq_selected s) s"

text \<open>\<open>EVT_SENSORS_DISCOVERED\<close> of a scan outside the workflow: it replaces the selection of the
  subjects it reports and takes their progress back.\<close>

fun unsolicited_discovery :: "val list \<Rightarrow> conn_seq \<Rightarrow> conn_seq" where
  "unsolicited_discovery [] s = s"
| "unsolicited_discovery (result # results) s =
     unsolicited_discovery results
       (case find (\<lambda>x. VStr (cs_subject_id x) = vget result ''subject_id'') (cq_subjects s) of
          None \<Rightarrow> s
        | Some subject \<Rightarrow>
            (let sid = cs_subject_id subject in s
               \<lparr>cq_completed := cq_completed s - {sid}, cq_discovered := cq_discovered s - {sid},
                cq_selected := dput sid
                  (map normalized (as_list (vget_or result ''discovered_sensors'' (VList []))))
                  (cq_selected s)\<rparr>))"

definition reply_matches :: "val \<Rightarrow> val \<Rightarrow> pending_step \<Rightarrow> conn_seq \<Rightarrow> bool" where
  "reply_matches event payload p s \<longleftrightarrow>
     vget payload ''correlation_id'' = VStr (p_token p) \<and>
     vget payload ''connection_sequence_id'' = cq_sequence_id s \<and>
     vget_or payload ''node_id'' (vget event ''node_id'') = VStr (cs_node_id (p_subject p)) \<and>
     (let kind = vget event ''type'' in
      kind \<in> {VStr EVT_SENSORS_DISCOVERED, VStr EVT_SENSOR_CONNECTED, VStr EVT_ERROR} \<and>
      (kind \<noteq> VStr EVT_ERROR \<longrightarrow>
         kind = (if p_operation p = ''discovering'' then VStr EVT_SENSORS_DISCOVERED
                 else VStr EVT_SENSOR_CONNECTED)))"

definition reply_results :: "val \<Rightarrow> string \<Rightarrow> val list" where
  "reply_results payload sid =
     filter (\<lambda>r. vget r ''subject_id'' = VStr sid) (as_list (vget_or payload ''subjects'' (VList [])))"

definition discovered_addresses :: "val \<Rightarrow> string \<Rightarrow> string list" where
  "discovered_addresses payload sid = (case reply_results payload sid of
     [] \<Rightarrow> []
   | r # _ \<Rightarrow> map normalized (as_list (vget_or r ''discovered_sensors'' (VList []))))"

definition connected_sensors :: "val \<Rightarrow> string \<Rightarrow> val list" where
  "connected_sensors payload sid = (case reply_results payload sid of
     [] \<Rightarrow> []
   | r # _ \<Rightarrow> as_list (vget_or r ''connected_sensors'' (VList [])))"

definition reply_complete :: "val \<Rightarrow> string \<Rightarrow> bool" where
  "reply_complete payload sid \<longleftrightarrow>
     length (reply_results payload sid) = 1 \<and> vget payload ''operation_complete'' = VBool True"

definition valid_discovery :: "val \<Rightarrow> csubject \<Rightarrow> conn_seq \<Rightarrow> bool" where
  "valid_discovery payload subject s =
     (let sid = cs_subject_id subject; addresses = discovered_addresses payload sid in
      reply_complete payload sid \<and>
      length addresses = length (cs_locations subject) \<and>
      (\<forall>a \<in> set addresses. a \<noteq> []) \<and> distinct addresses \<and>
      set (selected_outside s {sid}) \<inter> set addresses = {})"

definition valid_connection :: "val \<Rightarrow> csubject \<Rightarrow> conn_seq \<Rightarrow> bool" where
  "valid_connection payload subject s =
     (let sid = cs_subject_id subject; sensors = connected_sensors payload sid;
          addresses = map (\<lambda>x. normalized (vget x ''address'')) sensors;
          chosen = dget_or (cq_selected s) sid [] in
      reply_complete payload sid \<and>
      length addresses = length (cs_locations subject) \<and>
      distinct addresses \<and>
      set addresses = set chosen \<and>
      mset (map (\<lambda>x. (normalized (vget x ''address''), vget x ''location'')) sensors) =
        mset (zip chosen (cs_locations subject)) \<and>
      (\<forall>x \<in> set sensors. vget x ''status'' = VStr ''CONNECTED'' \<and>
                         vget x ''setup_complete'' = VBool True))"

definition identify_payload :: "string \<Rightarrow> string \<Rightarrow> conn_seq \<Rightarrow> val" where
  "identify_payload sid token s = VDict [(''subject_id'', VStr sid),
     (''connection_sequence_id'', cq_sequence_id s), (''correlation_id'', VStr token),
     (''sequence_correlation_id'', cq_correlation_id s)]"

text \<open>Identification after a connected subject: a failure is reported and does not stop the
  sequence.\<close>

definition identify :: "uuid_source \<Rightarrow> dispatcher \<Rightarrow> csubject \<Rightarrow> conn_seq \<Rightarrow> conn_seq \<times> effect list" where
  "identify uuid disp subject s =
     (let sid = cs_subject_id subject; payload = identify_payload sid (uuid (cq_uuids s)) s
      in (s\<lparr>cq_uuids := Suc (cq_uuids s)\<rparr>,
          Dispatch (cs_node_id subject) CMD_IDENTIFY_SENSOR payload #
          (case disp (cs_node_id subject) CMD_IDENTIFY_SENSOR payload of
             None \<Rightarrow> []
           | Some msg \<Rightarrow> [Emit (VDict [(''type'', VStr EVT_ERROR), (''payload'', VDict
               [(''correlation_id'', cq_correlation_id s), (''subject_id'', VStr sid),
                (''node_id'', VStr (cs_node_id subject)), (''operation'', VStr ''identify''),
                (''severity'', VStr ''warning''), (''message'', VStr msg)])])])))"

text \<open>A failed terminal reply: the failure is reported while the sequence is active, and the
  outstanding step is over.\<close>

definition reject_reply :: "val \<Rightarrow> conn_seq \<Rightarrow> conn_seq \<times> effect list" where
  "reject_reply message s =
     and_then (if cq_active s then fail_step message None None s else (s, []))
       (\<lambda>s. (s\<lparr>cq_pending := None\<rparr>, []))"

definition on_discovery_reply ::
  "uuid_source \<Rightarrow> dispatcher \<Rightarrow> val \<Rightarrow> csubject \<Rightarrow> conn_seq \<Rightarrow> conn_seq \<times> effect list" where
  "on_discovery_reply uuid disp payload subject s =
     (if \<not> valid_discovery payload subject s
      then reject_reply (VStr ''Incomplete discovery or duplicate sensor addresses'') s
      else (let sid = cs_subject_id subject;
                s' = s\<lparr>cq_selected := dput sid (discovered_addresses payload sid) (cq_selected s),
                       cq_discovered := insert sid (cq_discovered s), cq_pending := None\<rparr>
            in if cq_active s' then step uuid disp subject ''connecting'' s' else (s', [])))"

definition on_connection_reply ::
  "uuid_source \<Rightarrow> dispatcher \<Rightarrow> val \<Rightarrow> csubject \<Rightarrow> conn_seq \<Rightarrow> conn_seq \<times> effect list" where
  "on_connection_reply uuid disp payload subject s =
     (if \<not> valid_connection payload subject s
      then reject_reply (VStr ''Incomplete connection or sensor setup'') s
      else (let sid = cs_subject_id subject;
                s' = s\<lparr>cq_completed := insert sid (cq_completed s), cq_pending := None\<rparr>
            in if \<not> cq_active s' then (s', [])
               else and_then (progress ''subject_connected'' (Some subject) [] s') (\<lambda>s.
                    and_then (identify uuid disp subject s) (\<lambda>s.
                    next_subject uuid disp (s\<lparr>cq_index := Suc (cq_index s)\<rparr>)))))"

text \<open>Even a partial selection is kept, for exclusion and Reset diagnostics.\<close>

definition keep_partial_selection :: "val \<Rightarrow> pending_step \<Rightarrow> conn_seq \<Rightarrow> conn_seq" where
  "keep_partial_selection payload p s =
     (let chosen = map normalized (as_list (vget_or payload ''selected_addresses'' (VList [])))
      in if chosen \<noteq> [] \<and> p_operation p = ''discovering''
         then s\<lparr>cq_selected := dput (cs_subject_id (p_subject p)) chosen (cq_selected s)\<rparr>
         else s)"

definition on_reply ::
  "uuid_source \<Rightarrow> dispatcher \<Rightarrow> val \<Rightarrow> val \<Rightarrow> conn_seq \<Rightarrow> conn_seq \<times> effect list" where
  "on_reply uuid disp event payload s = (case cq_pending s of
     None \<Rightarrow> (s, [])
   | Some p \<Rightarrow>
       if \<not> reply_matches event payload p s then (s, [])
       else and_then (cancel_timer s) (\<lambda>s.
         (let s = keep_partial_selection payload p s in
          if vget event ''type'' = VStr EVT_ERROR
          then reject_reply (vget_or payload ''message'' (VStr ''Subject operation failed'')) s
          else if p_operation p = ''discovering''
          then on_discovery_reply uuid disp payload (p_subject p) s
          else on_connection_reply uuid disp payload (p_subject p) s)))"

definition on_event ::
  "uuid_source \<Rightarrow> dispatcher \<Rightarrow> val \<Rightarrow> conn_seq \<Rightarrow> conn_seq \<times> effect list" where
  "on_event uuid disp event s =
     (let kind = vget event ''type''; payload = vget event ''payload'' in
      if \<not> is_dict payload then (s, [])
      else if kind = VStr EVT_SENSOR_CLEANUP_STARTED
      then (if cq_active s
            then fail_step (VStr ''Connect All interrupted by sensor cleanup'') None None s
            else (s, []))
      else if kind = VStr EVT_SENSOR_CLEANUP_COMPLETE then on_cleanup_complete event payload s
      else if kind = VStr EVT_SENSOR_DISCONNECTED then on_sensor_disconnected payload s
      else on_reply uuid disp event payload
             (if kind = VStr EVT_SENSORS_DISCOVERED \<and>
                 \<not> truthy (vget payload ''connection_sequence_id'')
              then unsolicited_discovery (as_list (vget_or payload ''subjects'' (VList []))) s
              else s))"

text \<open>The inputs of the object, in the order its lock admits them.\<close>

datatype conn_input =
    Configure "csubject list"
  | Start val
  | Event val
  | Expire string

fun conn_step :: "uuid_source \<Rightarrow> dispatcher \<Rightarrow> conn_input \<Rightarrow> conn_seq \<Rightarrow> conn_seq \<times> effect list" where
  "conn_step uuid disp (Configure subjects) s = configure subjects s"
| "conn_step uuid disp (Start correlation_id) s = start_sequence uuid disp correlation_id s"
| "conn_step uuid disp (Event event) s = on_event uuid disp event s"
| "conn_step uuid disp (Expire token) s = expired token s"

fun conn_run :: "uuid_source \<Rightarrow> dispatcher \<Rightarrow> conn_input list \<Rightarrow> conn_seq \<Rightarrow> conn_seq \<times> effect list" where
  "conn_run uuid disp [] s = (s, [])"
| "conn_run uuid disp (i # is) s =
     and_then (conn_step uuid disp i s) (conn_run uuid disp is)"

end
