(* ===== verification/Actions.thy ===== *)
theory Actions
  imports Nexus_Prelude
begin

text \<open>
  Methods of stateful objects as actions: from the state an action gives the new state, the effects
  in order, and the text of the exception that left it, if any. The calculus \<open>ok I P a s\<close> says that
  the action \<open>a\<close>, run from \<open>s\<close>, ends in a state with \<open>I\<close> and performs only effects with \<open>P\<close>, whether
  it returns or raises.
\<close>

type_synonym ('s, 'e) action = "'s \<Rightarrow> 's \<times> 'e list \<times> string option"

section \<open>Actions\<close>

definition skip :: "('s, 'e) action" where
  "skip s = (s, [], None)"

definition upd :: "('s \<Rightarrow> 's) \<Rightarrow> ('s, 'e) action" where
  "upd f s = (f s, [], None)"

definition out :: "'e \<Rightarrow> ('s, 'e) action" where
  "out x s = (s, [x], None)"

definition raise :: "string \<Rightarrow> ('s, 'e) action" where
  "raise x s = (s, [], Some x)"

definition seq :: "('s, 'e) action \<Rightarrow> ('s, 'e) action \<Rightarrow> ('s, 'e) action" where
  "seq a b s = (case a s of
     (s', es, Some x) \<Rightarrow> (s', es, Some x)
   | (s', es, None) \<Rightarrow> (case b s' of (s'', fs, x) \<Rightarrow> (s'', es @ fs, x)))"

definition catch :: "('s, 'e) action \<Rightarrow> (string \<Rightarrow> ('s, 'e) action) \<Rightarrow> ('s, 'e) action" where
  "catch a h s = (case a s of
     (s', es, None) \<Rightarrow> (s', es, None)
   | (s', es, Some x) \<Rightarrow> (case h x s' of (s'', fs, y) \<Rightarrow> (s'', es @ fs, y)))"

definition query :: "('s \<Rightarrow> ('s, 'e) action) \<Rightarrow> ('s, 'e) action" where
  "query f s = f s s"

fun for_each :: "'a list \<Rightarrow> ('a \<Rightarrow> ('s, 'e) action) \<Rightarrow> ('s, 'e) action" where
  "for_each [] f = skip"
| "for_each (x # xs) f = seq (f x) (for_each xs f)"

named_theorems ok_simps \<open>the calculus of actions\<close>
named_theorems ok_intros \<open>actions that keep the state\<close>

section \<open>A calculus of actions\<close>

definition ok :: "('s \<Rightarrow> bool) \<Rightarrow> ('e \<Rightarrow> bool) \<Rightarrow> ('s, 'e) action \<Rightarrow> 's \<Rightarrow> bool" where
  "ok I P a s \<longleftrightarrow> (case a s of (s', es, x) \<Rightarrow> I s' \<and> (\<forall>f \<in> set es. P f))"

lemma ok_basic [ok_simps]:
  "ok I P skip s = I s" "ok I P (upd f) s = I (f s)" "ok I P (out x) s = (I s \<and> P x)"
  "ok I P (raise y) s = I s" "ok I P (query g) s = ok I P (g s) s"
  by (auto simp: ok_def skip_def upd_def out_def raise_def query_def)

lemma ok_seq_basic [ok_simps]:
  "ok I P (seq skip b) s = ok I P b s" "ok I P (seq (upd f) b) s = ok I P b (f s)"
  "ok I P (seq (out x) b) s = (P x \<and> ok I P b s)" "ok I P (seq (raise y) b) s = I s"
  "ok I P (seq (query g) b) s = ok I P (seq (g s) b) s"
  "ok I P (seq (seq a b) c) s = ok I P (seq a (seq b c)) s"
  by (auto simp: ok_def seq_def skip_def upd_def out_def raise_def query_def split: prod.splits option.splits)

lemma ok_if [ok_simps]: "ok I P (if c then a else b) s = (if c then ok I P a s else ok I P b s)"
  "ok I P (seq (if c then a else b) d) s = (if c then ok I P (seq a d) s else ok I P (seq b d) s)"
  by simp_all

lemma ok_skip: "I s \<Longrightarrow> ok I P skip s"
  by (simp add: ok_basic)

lemma ok_out: "I s \<Longrightarrow> P x \<Longrightarrow> ok I P (out x) s"
  by (simp add: ok_basic)

lemma ok_upd: "I (f s) \<Longrightarrow> ok I P (upd f) s"
  by (simp add: ok_basic)

lemma ok_raise: "I s \<Longrightarrow> ok I P (raise x) s"
  by (simp add: ok_basic)

lemma ok_query: "ok I P (g s) s \<Longrightarrow> ok I P (query g) s"
  by (simp add: ok_basic)

lemma ok_branch: "(c \<Longrightarrow> ok I P a s) \<Longrightarrow> (\<not> c \<Longrightarrow> ok I P b s) \<Longrightarrow> ok I P (if c then a else b) s"
  by simp

lemma ok_option:
  "(x = None \<Longrightarrow> ok I P a s) \<Longrightarrow> (\<And>y. x = Some y \<Longrightarrow> ok I P (b y) s) \<Longrightarrow>
   ok I P (case x of None \<Rightarrow> a | Some y \<Rightarrow> b y) s"
  by (cases x) simp_all

lemmas ok_structure = ok_skip ok_raise ok_query ok_branch ok_option

lemma ok_seq: "ok I P a s \<Longrightarrow> (\<And>t. I t \<Longrightarrow> ok I P b t) \<Longrightarrow> ok I P (seq a b) s"
  by (fastforce simp: ok_def seq_def split: prod.splits option.splits)

lemma ok_catch: "ok I P a s \<Longrightarrow> (\<And>x t. I t \<Longrightarrow> ok I P (h x) t) \<Longrightarrow> ok I P (catch a h) s"
  by (fastforce simp: ok_def catch_def split: prod.splits option.splits)

lemma ok_for_each: "I s \<Longrightarrow> (\<And>x t. x \<in> set xs \<Longrightarrow> I t \<Longrightarrow> ok I P (f x) t) \<Longrightarrow> ok I P (for_each xs f) s"
  by (induction xs arbitrary: s) (auto simp: ok_basic intro: ok_seq)

lemma ok_weaken: "ok I P a s \<Longrightarrow> (\<And>t. I t \<Longrightarrow> J t) \<Longrightarrow> (\<And>x. P x \<Longrightarrow> Q x) \<Longrightarrow> ok J Q a s"
  by (auto simp: ok_def split: prod.splits)

lemma ok_conj: "ok I P a s \<Longrightarrow> ok J Q a s \<Longrightarrow> ok (\<lambda>t. I t \<and> J t) (\<lambda>x. P x \<and> Q x) a s"
  by (auto simp: ok_def split: prod.splits)

text \<open>Reading an execution that returned.\<close>

lemma okD: "ok I P a s \<Longrightarrow> a s = (t, es, x) \<Longrightarrow> I t"
  by (auto simp: ok_def split: prod.splits)

lemma seq_returned: "seq a b s = (t, es, None) \<Longrightarrow> \<exists>u fs gs. a s = (u, fs, None) \<and> b u = (t, gs, None)"
  by (auto simp: seq_def split: prod.splits option.splits)

lemma seq_upd: "seq (upd f) b s = b (f s)"
  by (simp add: seq_def upd_def split: prod.split)

lemma query_apply: "query g s = g s s"
  by (simp add: query_def)

lemma for_each_append: "for_each (xs @ ys) f = seq (for_each xs f) (for_each ys f)"
proof (induction xs)
  case Nil
  show ?case by (auto simp: fun_eq_iff seq_def skip_def split: prod.splits)
next
  case (Cons x xs)
  then show ?case by (auto simp: fun_eq_iff seq_def split: prod.splits option.splits)
qed

section \<open>Accounts\<close>

text \<open>\<open>thrifty c f a\<close>: from any state the effects of \<open>a\<close> that \<open>c\<close> counts are paid for by the credit \<open>f\<close> that
  the state loses.\<close>

definition thrifty :: "('e \<Rightarrow> bool) \<Rightarrow> ('s \<Rightarrow> nat) \<Rightarrow> ('s, 'e) action \<Rightarrow> bool" where
  "thrifty c f a \<longleftrightarrow> (\<forall>s. case a s of (s', es, x) \<Rightarrow> length (filter c es) + f s' \<le> f s)"

named_theorems thrifty_intros \<open>actions within their credit\<close>

lemma thrifty_skip [thrifty_intros]: "thrifty c f skip"
  by (simp add: thrifty_def skip_def)

lemma thrifty_raise [thrifty_intros]: "thrifty c f (raise x)"
  by (simp add: thrifty_def raise_def)

lemma thrifty_upd [thrifty_intros]: "(\<And>s. f (g s) \<le> f s) \<Longrightarrow> thrifty c f (upd g)"
  by (simp add: thrifty_def upd_def)

lemma thrifty_out [thrifty_intros]: "\<not> c x \<Longrightarrow> thrifty c f (out x)"
  by (simp add: thrifty_def out_def)

lemma thrifty_query [thrifty_intros]: "(\<And>s. thrifty c f (g s)) \<Longrightarrow> thrifty c f (query g)"
  by (simp add: thrifty_def query_def)

lemma thrifty_if [thrifty_intros]: "(b \<Longrightarrow> thrifty c f a1) \<Longrightarrow> (\<not> b \<Longrightarrow> thrifty c f a2) \<Longrightarrow> thrifty c f (if b then a1 else a2)"
  by simp

lemma thrifty_option [thrifty_intros]:
  "(x = None \<Longrightarrow> thrifty c f a) \<Longrightarrow> (\<And>y. x = Some y \<Longrightarrow> thrifty c f (b y)) \<Longrightarrow> thrifty c f (case x of None \<Rightarrow> a | Some y \<Rightarrow> b y)"
  by (cases x) simp_all

lemma thrifty_sum [thrifty_intros]:
  "(\<And>y. x = Inl y \<Longrightarrow> thrifty c f (a y)) \<Longrightarrow> (\<And>y. x = Inr y \<Longrightarrow> thrifty c f (b y)) \<Longrightarrow>
   thrifty c f (case x of Inl y \<Rightarrow> a y | Inr y \<Rightarrow> b y)"
  by (cases x) simp_all

lemma thrifty_pair [thrifty_intros]:
  "(\<And>y z. x = (y, z) \<Longrightarrow> thrifty c f (a y z)) \<Longrightarrow> thrifty c f (case x of (y, z) \<Rightarrow> a y z)"
  by (cases x) simp_all

lemma thrifty_seq [thrifty_intros]: "thrifty c f a \<Longrightarrow> thrifty c f b \<Longrightarrow> thrifty c f (seq a b)"
  by (fastforce simp: thrifty_def seq_def split: prod.splits option.splits)

lemma thrifty_catch [thrifty_intros]: "thrifty c f a \<Longrightarrow> (\<And>x. thrifty c f (h x)) \<Longrightarrow> thrifty c f (catch a h)"
  by (fastforce simp: thrifty_def catch_def split: prod.splits option.splits)

lemma thrifty_for_each [thrifty_intros]: "(\<And>x. thrifty c f (g x)) \<Longrightarrow> thrifty c f (for_each xs g)"
  by (induction xs) (auto intro: thrifty_skip thrifty_seq)

lemma thriftyD: "thrifty c f a \<Longrightarrow> a s = (s', es, x) \<Longrightarrow> length (filter c es) + f s' \<le> f s"
  by (auto simp: thrifty_def split: prod.splits)

section \<open>Logs\<close>

text \<open>\<open>logs view f pick a\<close>: what \<open>view\<close> sees after \<open>a\<close> is what it saw before, updated by \<open>f\<close> with the items that
  \<open>pick\<close> finds in the effects, in order.\<close>

definition logs :: "('s \<Rightarrow> 'v) \<Rightarrow> ('i \<Rightarrow> 'v \<Rightarrow> 'v) \<Rightarrow> ('e \<Rightarrow> 'i list) \<Rightarrow> ('s, 'e) action \<Rightarrow> bool" where
  "logs view f pick a \<longleftrightarrow> (\<forall>s. case a s of (s', es, x) \<Rightarrow> view s' = fold f (concat (map pick es)) (view s))"

named_theorems logs_intros \<open>actions that keep a log\<close>

lemma logs_skip [logs_intros]: "logs view f pick skip"
  by (simp add: logs_def skip_def)

lemma logs_raise [logs_intros]: "logs view f pick (raise x)"
  by (simp add: logs_def raise_def)

lemma logs_upd [logs_intros]: "(\<And>s. view (g s) = view s) \<Longrightarrow> logs view f pick (upd g)"
  by (simp add: logs_def upd_def)

lemma logs_out [logs_intros]: "pick x = [] \<Longrightarrow> logs view f pick (out x)"
  by (simp add: logs_def out_def)

lemma logs_query [logs_intros]: "(\<And>s. logs view f pick (g s)) \<Longrightarrow> logs view f pick (query g)"
  by (simp add: logs_def query_def)

lemma logs_if [logs_intros]:
  "(b \<Longrightarrow> logs view f pick a1) \<Longrightarrow> (\<not> b \<Longrightarrow> logs view f pick a2) \<Longrightarrow> logs view f pick (if b then a1 else a2)"
  by simp

lemma logs_option [logs_intros]:
  "(x = None \<Longrightarrow> logs view f pick a) \<Longrightarrow> (\<And>y. x = Some y \<Longrightarrow> logs view f pick (b y)) \<Longrightarrow>
   logs view f pick (case x of None \<Rightarrow> a | Some y \<Rightarrow> b y)"
  by (cases x) simp_all

lemma logs_sum [logs_intros]:
  "(\<And>y. x = Inl y \<Longrightarrow> logs view f pick (a y)) \<Longrightarrow> (\<And>y. x = Inr y \<Longrightarrow> logs view f pick (b y)) \<Longrightarrow>
   logs view f pick (case x of Inl y \<Rightarrow> a y | Inr y \<Rightarrow> b y)"
  by (cases x) simp_all

lemma logs_pair [logs_intros]:
  "(\<And>y z. x = (y, z) \<Longrightarrow> logs view f pick (a y z)) \<Longrightarrow> logs view f pick (case x of (y, z) \<Rightarrow> a y z)"
  by (cases x) simp_all

lemma logs_seq [logs_intros]: "logs view f pick a \<Longrightarrow> logs view f pick b \<Longrightarrow> logs view f pick (seq a b)"
  by (fastforce simp: logs_def seq_def split: prod.splits option.splits)

lemma logs_catch [logs_intros]: "logs view f pick a \<Longrightarrow> (\<And>x. logs view f pick (h x)) \<Longrightarrow> logs view f pick (catch a h)"
  by (fastforce simp: logs_def catch_def split: prod.splits option.splits)

lemma logs_for_each [logs_intros]: "(\<And>x. logs view f pick (g x)) \<Longrightarrow> logs view f pick (for_each xs g)"
  by (induction xs) (auto intro: logs_skip logs_seq)

lemma logsD: "logs view f pick a \<Longrightarrow> a s = (s', es, x) \<Longrightarrow> view s' = fold f (concat (map pick es)) (view s)"
  by (auto simp: logs_def split: prod.splits)

section \<open>Relations that actions keep\<close>

text \<open>A relation between the state before, the state after and the effects between. When it is reflexive and composes,
  every combination of related actions is related, whether it returns or raises.\<close>

definition related :: "('s \<Rightarrow> 's \<Rightarrow> 'e list \<Rightarrow> bool) \<Rightarrow> ('s, 'e) action \<Rightarrow> bool" where
  "related R a \<longleftrightarrow> (\<forall>s t es x. a s = (t, es, x) \<longrightarrow> R s t es)"

lemma relatedD: "related R a \<Longrightarrow> a s = (t, es, x) \<Longrightarrow> R s t es"
  by (auto simp: related_def)

locale action_relation =
  fixes R :: "'s \<Rightarrow> 's \<Rightarrow> 'e list \<Rightarrow> bool"
  assumes still: "R s s []"
    and composed: "R s t es \<Longrightarrow> R t u fs \<Longrightarrow> R s u (es @ fs)"
begin

lemma rel_skip: "related R skip"
  by (simp add: related_def skip_def still)

lemma rel_raise: "related R (raise x)"
  by (simp add: related_def raise_def still)

lemma rel_upd: "(\<And>s. R s (f s) []) \<Longrightarrow> related R (upd f)"
  by (simp add: related_def upd_def)

lemma rel_out: "(\<And>s. R s s [x]) \<Longrightarrow> related R (out x)"
  by (simp add: related_def out_def)

lemma rel_query: "(\<And>s. related R (g s)) \<Longrightarrow> related R (query g)"
  by (simp add: related_def query_def)

lemma rel_query_at: "(\<And>s t es x. g s s = (t, es, x) \<Longrightarrow> R s t es) \<Longrightarrow> related R (query g)"
  by (simp add: related_def query_def)

lemma rel_if: "(c \<Longrightarrow> related R a) \<Longrightarrow> (\<not> c \<Longrightarrow> related R b) \<Longrightarrow> related R (if c then a else b)"
  by simp

lemma rel_option:
  "(o1 = None \<Longrightarrow> related R a) \<Longrightarrow> (\<And>x. o1 = Some x \<Longrightarrow> related R (f x)) \<Longrightarrow> related R (case o1 of None \<Rightarrow> a | Some x \<Rightarrow> f x)"
  by (simp split: option.split)

lemma rel_sum: "(\<And>x. r = Inl x \<Longrightarrow> related R (f x)) \<Longrightarrow> (\<And>x. r = Inr x \<Longrightarrow> related R (g x)) \<Longrightarrow>
    related R (case r of Inl x \<Rightarrow> f x | Inr x \<Rightarrow> g x)"
  by (simp split: sum.split)

lemma rel_bool: "(b \<Longrightarrow> related R f) \<Longrightarrow> (\<not> b \<Longrightarrow> related R g) \<Longrightarrow> related R (case b of True \<Rightarrow> f | False \<Rightarrow> g)"
  by (simp split: bool.split)

lemma rel_pair: "(\<And>x y. p = (x, y) \<Longrightarrow> related R (f x y)) \<Longrightarrow> related R (case p of (x, y) \<Rightarrow> f x y)"
  by (simp split: prod.split)

lemma rel_let: "related R (f v) \<Longrightarrow> related R (let x = v in f x)"
  by simp

lemma rel_seq: "related R a \<Longrightarrow> related R b \<Longrightarrow> related R (seq a b)"
  by (fastforce simp: related_def seq_def intro: composed split: prod.splits option.splits)

lemma rel_catch: "related R a \<Longrightarrow> (\<And>x. related R (h x)) \<Longrightarrow> related R (catch a h)"
  by (fastforce simp: related_def catch_def intro: composed split: prod.splits option.splits)

lemma rel_for_each: "(\<And>x. x \<in> set xs \<Longrightarrow> related R (f x)) \<Longrightarrow> related R (for_each xs f)"
  by (induction xs) (auto intro: rel_skip rel_seq)

lemmas rel_intros = rel_skip rel_raise rel_upd rel_out rel_query rel_if rel_option rel_sum rel_bool rel_pair rel_let rel_seq rel_catch rel_for_each

end

end
