(* ===== verification/Master_Node.thy ===== *)
theory Master_Node
  imports Master_Plan Connection_Sequence Actions
begin

text \<open>
  The coordinator, class \<open>MasterNode\<close> of \<^verbatim>\<open>distributed/master_node.py\<close>: the
  official-start and drain barriers, the two-phase system initialization with its recovery, the
  AI-node broadcast, the routing of commands, and the handling of worker messages and local
  events.

  A method is an action of type \<open>act\<close> (theory \<open>Actions\<close>). What the methods take from
  outside is the record \<open>menv\<close>: fresh identifiers, clock readings, the ranking that orders
  the iteration over sets, the texts of exceptions (\<open>me_str\<close>) and lists (\<open>me_repr\<close>), whether a bus and a handler
  are attached, and for each call into another component the exception it raises (\<open>None\<close> when
  it returns): \<open>me_local\<close> for \<open>MessageHandler._handle_local\<close>, \<open>me_send\<close> for the ZeroMQ router
  socket, \<open>me_prepare\<close> for \<open>prepare_stream_start\<close>, \<open>me_guard\<close> for the Core's recovery and
  disconnect guards, \<open>me_drained\<close> for the callback after the last stream has drained. The event
  bus queues events, so an emitted event reaches its subscribers in a later step. Timers are
  effects; their expiry is an input. Node and subject ids are strings, as the protocol has them.
\<close>

section \<open>State\<close>

record official_record =
  os_session_timestamp :: val
  os_subject_ids :: "string list"
  os_expected :: "string set"
  os_ready :: "string set"
  os_official :: "string set"
  os_ready_announced :: bool
  os_commit_dispatched :: bool

record drain_ack =
  ack_status :: val
  ack_reason :: val
  ack_subject_ids :: "string list"
  ack_session_timestamp :: val
  ack_drained :: bool

record drain_record =
  dr_scope :: string
  dr_subject_ids :: "string list"
  dr_expected :: "string set"
  dr_acks :: "(string, drain_ack) dict"
  dr_finalizing :: bool
  dr_finalized :: bool

record init_record =
  ir_correlation_id :: val
  ir_initialization_id :: string
  ir_previous :: "(string, string) dict"
  ir_requested :: "(string, string) dict"
  ir_expected :: "string set"
  ir_plan :: plan
  ir_replies :: "(string, val) dict"
  ir_connection_subjects :: "val list"

record init_recovery =
  rc_previous :: "(string, string) dict"
  rc_requested :: "(string, string) dict"
  rc_participants :: "string set"
  rc_initialization_id :: string
  rc_results :: "(string, val) dict"
  rc_cleanup_id :: val
  rc_cleanup_nodes :: "string set"

record master =
  mn_registry :: node_registry
  mn_conn :: conn_seq
  mn_drains :: "(string, drain_record) dict"
  mn_official :: "(string, official_record) dict"
  mn_pending :: "init_record option"
  mn_recovery :: "init_recovery option"
  mn_dispatching :: bool
  mn_active :: "string set"
  mn_last_ai_broadcast :: int
  mn_uuids :: nat

datatype meffect =
    MEmit val
  | MSend val val
  | MLocal string val
  | MPrepare
  | MFinalize val
  | MTimerStart string nat
  | MTimerCancel string

type_synonym act = "(master, meffect) action"

record menv =
  me_uuid :: "nat \<Rightarrow> string"
  me_conn_uuid :: "nat \<Rightarrow> string"
  me_now :: int
  me_stamp :: string
  me_received_utc :: int
  me_received_monotonic :: int
  me_dispatch_utc :: "nat \<Rightarrow> int"
  me_dispatch_monotonic :: "nat \<Rightarrow> int"
  me_ms :: "int \<Rightarrow> val"
  me_rank :: "string \<Rightarrow> nat"
  me_str :: "py_error \<Rightarrow> string"
  me_repr :: "val \<Rightarrow> string"
  me_bus :: bool
  me_handler :: bool
  me_dispatcher :: bool
  me_local :: "string \<Rightarrow> val \<Rightarrow> string option"
  me_send :: "val \<Rightarrow> val \<Rightarrow> string option"
  me_prepare :: "string option"
  me_guard :: "string option"
  me_drained :: "(val \<Rightarrow> string option) option"
  me_usb_path :: val

section \<open>Actions\<close>

definition emit :: "menv \<Rightarrow> val \<Rightarrow> act" where
  "emit e ev = (if me_bus e then out (MEmit ev) else skip)"

definition event :: "string \<Rightarrow> (string \<times> val) list \<Rightarrow> val" where
  "event ty pl = VDict [(''type'', VStr ty), (''payload'', VDict pl)]"

definition node_event :: "string \<Rightarrow> (string \<times> val) list \<Rightarrow> val" where
  "node_event ty pl = VDict [(''type'', VStr ty), (''node_id'', VStr MASTER), (''payload'', VDict pl)]"

definition command :: "string \<Rightarrow> val \<Rightarrow> val" where
  "command ty pl = VDict [(''type'', VStr ty), (''payload'', pl)]"

definition sorted_ids :: "string set \<Rightarrow> val" where
  "sorted_ids ns = VList (map VStr (sorted_list_of_set ns))"

definition ids :: "string list \<Rightarrow> val" where
  "ids xs = VList (map VStr xs)"

definition id_list :: "val \<Rightarrow> string list" where
  "id_list v = map py_str (as_list v)"

definition map_val :: "(string, string) dict \<Rightarrow> val" where
  "map_val d = VDict (map (\<lambda>(k, v). (k, VStr v)) d)"

section \<open>Sending\<close>

definition send_multipart :: "menv \<Rightarrow> val \<Rightarrow> val \<Rightarrow> act" where
  "send_multipart e ident msg = (case me_send e ident msg of
     None \<Rightarrow> out (MSend ident msg)
   | Some x \<Rightarrow> raise x)"

definition send_to :: "menv \<Rightarrow> val \<Rightarrow> string \<Rightarrow> act" where
  "send_to e msg node_id = query (\<lambda>s.
     let ident = get_identity (mn_registry s) node_id in
     if truthy ident then send_multipart e ident msg else skip)"

definition send_command :: "menv \<Rightarrow> val \<Rightarrow> string option \<Rightarrow> act" where
  "send_command e msg target = (case target of
     Some node_id \<Rightarrow> send_to e msg node_id
   | None \<Rightarrow> query (\<lambda>s. for_each (get_worker_ids (mn_registry s)) (send_to e msg)))"

definition handle_local :: "menv \<Rightarrow> string \<Rightarrow> val \<Rightarrow> act" where
  "handle_local e ty pl = seq (out (MLocal ty pl))
     (case me_local e ty pl of None \<Rightarrow> skip | Some x \<Rightarrow> raise x)"

text \<open>A command for one node: the local handler for the master (when there is one), the router for
  the others.\<close>

definition deliver :: "menv \<Rightarrow> string \<Rightarrow> string \<Rightarrow> val \<Rightarrow> act" where
  "deliver e ty node_id pl =
     (if node_id = MASTER then (if me_handler e then handle_local e ty pl else skip)
      else send_command e (command ty pl) (Some node_id))"

definition emit_dispatch_error :: "menv \<Rightarrow> string \<Rightarrow> val \<Rightarrow> act" where
  "emit_dispatch_error e message pl =
     emit e (event EVT_ERROR ((''message'', VStr message) #
       (if truthy (vget pl ''correlation_id'')
        then [(''correlation_id'', vget pl ''correlation_id'')] else [])))"

section \<open>The official-start barrier\<close>

definition create_official_start_record ::
  "string \<Rightarrow> val \<Rightarrow> string list \<Rightarrow> string list \<Rightarrow> act" where
  "create_official_start_record start_session_id ts subject_ids expected_nodes = upd (\<lambda>s.
     s\<lparr>mn_official := [(start_session_id, \<lparr>os_session_timestamp = ts, os_subject_ids = subject_ids,
        os_expected = set expected_nodes, os_ready = {}, os_official = {},
        os_ready_announced = False, os_commit_dispatched = False\<rparr>)]\<rparr>)"

text \<open>The update of the record under the lock, and whether readiness is to be announced.\<close>

definition record_official :: "string \<Rightarrow> string \<Rightarrow> official_record \<Rightarrow> official_record \<times> bool" where
  "record_official node_id event_type r =
     (if event_type = EVT_STREAM_READY_FOR_OFFICIAL then
        (let r = r\<lparr>os_ready := insert node_id (os_ready r)\<rparr> in
         if os_ready r = os_expected r \<and> \<not> os_ready_announced r
         then (r\<lparr>os_ready_announced := True\<rparr>, True) else (r, False))
      else if event_type = EVT_STREAM_OFFICIAL_STARTED
      then (r\<lparr>os_official := insert node_id (os_official r)\<rparr>, False)
      else (r, False))"

definition ready_payload :: "string \<Rightarrow> official_record \<Rightarrow> (string \<times> val) list" where
  "ready_payload start_session_id r =
     [(''start_session_id'', VStr start_session_id),
      (''session_timestamp'', os_session_timestamp r),
      (''subject_ids'', ids (os_subject_ids r)),
      (''expected_nodes'', sorted_ids (os_expected r)),
      (''ready_nodes'', sorted_ids (os_ready r))]"

definition record_official_start_event ::
  "menv \<Rightarrow> (val \<Rightarrow> act) \<Rightarrow> string \<Rightarrow> string \<Rightarrow> val \<Rightarrow> act" where
  "record_official_start_event e dispatcher node_id event_type pl = query (\<lambda>s.
     let sid = vget pl ''start_session_id'' in
     if node_id = [] \<or> \<not> truthy sid then skip
     else case map_of (mn_official s) (py_str sid) of
       None \<Rightarrow> skip
     | Some r \<Rightarrow>
         if node_id \<notin> os_expected r then skip
         else if py_str (vget pl ''session_timestamp'') \<noteq> py_str (os_session_timestamp r) then skip
         else (case record_official node_id event_type r of (r', announce) \<Rightarrow>
           seq (upd (\<lambda>s. s\<lparr>mn_official := dput (py_str sid) r' (mn_official s)\<rparr>))
             (if announce \<and> me_bus e then
                seq (emit e (node_event EVT_DISTRIBUTED_READY_FOR_OFFICIAL (ready_payload (py_str sid) r')))
                  (if me_dispatcher e then
                     dispatcher (command CMD_START_OFFICIAL_STREAM
                       (VDict [(''start_session_id'', VStr (py_str sid)),
                               (''session_timestamp'', os_session_timestamp r')]))
                   else skip)
              else skip)))"

section \<open>The drain barrier\<close>

definition create_drain_record :: "string \<Rightarrow> string \<Rightarrow> string list \<Rightarrow> string list \<Rightarrow> act" where
  "create_drain_record stop_session_id scope subject_ids expected_nodes = upd (\<lambda>s.
     s\<lparr>mn_drains := dput stop_session_id \<lparr>dr_scope = scope, dr_subject_ids = subject_ids,
        dr_expected = set expected_nodes, dr_acks = [], dr_finalizing = False,
        dr_finalized = False\<rparr> (mn_drains s)\<rparr>)"

definition ack_of :: "val \<Rightarrow> drain_ack" where
  "ack_of pl = \<lparr>ack_status = vget_or pl ''status'' (VStr ''ok''), ack_reason = vget pl ''reason'',
     ack_subject_ids = id_list (vget pl ''subject_ids''),
     ack_session_timestamp = vget pl ''session_timestamp'',
     ack_drained = truthy (vget_or pl ''drained'' (VBool True))\<rparr>"

definition add_ack :: "string \<Rightarrow> val \<Rightarrow> drain_record \<Rightarrow> drain_record" where
  "add_ack node_id pl r = r\<lparr>dr_acks := dput node_id (ack_of pl) (dr_acks r)\<rparr>"

definition all_drained :: "drain_record \<Rightarrow> bool" where
  "all_drained r \<longleftrightarrow> dr_expected r \<subseteq> fst ` set (dr_acks r) \<and>
     (\<forall>n \<in> dr_expected r. case map_of (dr_acks r) n of None \<Rightarrow> True | Some a \<Rightarrow> ack_drained a)"

definition should_finalize :: "drain_record \<Rightarrow> bool" where
  "should_finalize r \<longleftrightarrow> all_drained r \<and> \<not> dr_finalizing r \<and> \<not> dr_finalized r"

definition ack_val :: "drain_ack \<Rightarrow> val" where
  "ack_val a = VDict [(''status'', ack_status a), (''reason'', ack_reason a),
     (''subject_ids'', ids (ack_subject_ids a)), (''session_timestamp'', ack_session_timestamp a),
     (''drained'', VBool (ack_drained a))]"

definition drained_subjects :: "drain_record \<Rightarrow> string set" where
  "drained_subjects r = \<Union> ((\<lambda>a. set (ack_subject_ids a)) ` set (dvalues (dr_acks r)))"

definition drain_result :: "string \<Rightarrow> drain_record \<Rightarrow> (string \<times> val) list" where
  "drain_result stop_session_id r =
     (let as = dvalues (dr_acks r);
          reasons = filter truthy (map ack_reason as);
          stamps = remdups (filter truthy (map ack_session_timestamp as));
          reason = py_join ''; '' (map py_str reasons)
      in [(''stop_session_id'', VStr stop_session_id),
          (''status'', VStr (if list_ex (\<lambda>a. ack_status a \<noteq> VStr ''ok'') as then ''error'' else ''ok'')),
          (''reason'', if reason = [] then VNone else VStr reason),
          (''session_timestamp'', if length stamps = 1 then hd stamps else VNone),
          (''acks'', VDict (map (\<lambda>(n, a). (n, ack_val a)) (dr_acks r)))])"

definition emit_aggregate_drain ::
  "menv \<Rightarrow> drain_record \<Rightarrow> (string \<times> val) list \<Rightarrow> bool \<Rightarrow> act" where
  "emit_aggregate_drain e r result all_streams =
     emit e (node_event EVT_STREAM_DRAINED (dmerge result
       [(''aggregate'', VBool True), (''scope'', VStr (dr_scope r)),
        (''subject_ids'', ids (dr_subject_ids r)), (''expected_node_ids'', sorted_ids (dr_expected r)),
        (''all_streams_drained'', VBool all_streams)]))"

definition set_drain :: "string \<Rightarrow> drain_record \<Rightarrow> act" where
  "set_drain sid r = upd (\<lambda>s. s\<lparr>mn_drains := dput sid r (mn_drains s)\<rparr>)"

definition record_drain_ack :: "menv \<Rightarrow> string \<Rightarrow> val \<Rightarrow> act" where
  "record_drain_ack e node_id pl = query (\<lambda>s.
     let key = vget pl ''stop_session_id''; sid = py_str key in
     if \<not> truthy key then skip
     else case map_of (mn_drains s) sid of
       None \<Rightarrow> skip
     | Some r0 \<Rightarrow>
         (let r = add_ack node_id pl r0 in
          if \<not> should_finalize r then set_drain sid r
          else (let active = mn_active s - drained_subjects r; all_streams = (active = {});
                    result = drain_result sid r;
                    finished = r\<lparr>dr_finalizing := False, dr_finalized := True\<rparr>
                in seq (upd (\<lambda>s. s\<lparr>mn_active := active\<rparr>))
            (if \<not> all_streams
             then seq (set_drain sid finished)
                    (emit_aggregate_drain e finished result False)
             else case me_drained e of
               None \<Rightarrow> seq (set_drain sid finished) (emit_aggregate_drain e finished result True)
             | Some callback \<Rightarrow>
                 seq (set_drain sid (r\<lparr>dr_finalizing := True\<rparr>))
                 (seq (out (MFinalize (VDict result)))
                 (case callback (VDict result) of
                    Some exc \<Rightarrow>
                      seq (set_drain sid (r\<lparr>dr_finalizing := False\<rparr>))
                        (emit_aggregate_drain e (r\<lparr>dr_finalizing := False\<rparr>)
                          (dput ''reason'' (VStr exc) (dput ''status'' (VStr ''error'') result)) True)
                  | None \<Rightarrow>
                      seq (set_drain sid finished) (emit_aggregate_drain e finished result True)))))))"


section \<open>System initialization\<close>

text \<open>The subjects as \<open>connection_sequence.configure\<close> receives them.\<close>

definition connection_subject :: "(string, string) dict \<Rightarrow> val \<Rightarrow> csubject" where
  "connection_subject requested sub = \<lparr>cs_subject_id = sid_of sub,
     cs_node_id = dget_or requested (sid_of sub) [],
     cs_locations = concat (map (\<lambda>sensor. as_list (vget_or sensor ''locations'' (VList [])))
       (as_list (vget_or sub ''sensors'' (VList []))))\<rparr>"

definition conn_effect :: "menv \<Rightarrow> master \<Rightarrow> effect \<Rightarrow> meffect list" where
  "conn_effect e s x = (case x of
     Emit v \<Rightarrow> if me_bus e then [MEmit v] else []
   | Dispatch node ty pl \<Rightarrow>
       if node = MASTER then [MLocal ty pl]
       else (let ident = get_identity (mn_registry s) node in
             if truthy ident \<and> me_send e ident (command ty pl) = None
             then [MSend ident (command ty pl)] else [])
   | TimerStart t n \<Rightarrow> [MTimerStart t n]
   | TimerCancel t \<Rightarrow> [MTimerCancel t]
   | Raised x \<Rightarrow> [])"

text \<open>\<open>_dispatch_connection_step\<close>, as the connection sequence sees it: the exception it raises.\<close>

definition dispatch_connection_step :: "menv \<Rightarrow> master \<Rightarrow> string \<Rightarrow> string \<Rightarrow> val \<Rightarrow> string option" where
  "dispatch_connection_step e s node ty pl =
     (if node = MASTER then me_local e ty pl
      else (let ident = get_identity (mn_registry s) node in
            if truthy ident then me_send e ident (command ty pl) else None))"

text \<open>A call of the connection sequence: its events, timers and dispatched commands are the
  master's, and an exception that leaves it leaves the caller.\<close>

definition conn_call :: "menv \<Rightarrow> conn_input \<Rightarrow> act" where
  "conn_call e i s =
     (case conn_step (me_conn_uuid e) (dispatch_connection_step e s) i (mn_conn s) of (c, es) \<Rightarrow>
        (s\<lparr>mn_conn := c\<rparr>, concat (map (conn_effect e s) es),
         (case filter (\<lambda>x. case x of Raised _ \<Rightarrow> True | _ \<Rightarrow> False) es of
            Raised x # _ \<Rightarrow> Some x | _ \<Rightarrow> None)))"

definition init_result :: "init_record \<Rightarrow> (string \<times> val) list" where
  "init_result r =
     [(''correlation_id'', ir_correlation_id r), (''initialization_id'', VStr (ir_initialization_id r)),
      (''expected_node_ids'', sorted_ids (ir_expected r)), (''node_results'', VDict (ir_replies r))]"

definition init_failure_payload :: "init_record \<Rightarrow> string \<Rightarrow> (string \<times> val) list" where
  "init_failure_payload r failure = init_result r @
     [(''message'', VStr (failure @ ''. Reset all participating nodes before retrying.'')),
      (''initialization_complete'', VBool False), (''configuration_state'', VStr ''mixed_or_unknown''),
      (''recovery_required'', VBool True), (''previous_assignments'', map_val (ir_previous r)),
      (''requested_assignments'', map_val (ir_requested r)), (''ownership_authoritative'', VBool False),
      (''missing_node_ids'', sorted_ids (ir_expected r - fst ` set (ir_replies r)))]"

definition SESSION_KEYS :: "string list" where
  "SESSION_KEYS = [''site'', ''session_timestamp'', ''session_label'', ''session_name'', ''app_id'', ''app_name'']"

definition init_success_payload :: "init_record \<Rightarrow> (string \<times> val) list" where
  "init_success_payload r =
     (let local = as_dict (dget_or (ir_replies r) MASTER (VDict [])) in
      init_result r @
      map (\<lambda>k. (k, the (map_of local k))) (filter (\<lambda>k. map_of local k \<noteq> None) SESSION_KEYS) @
      [(''message'', VStr ''System initialization confirmed by every required node''),
       (''initialization_complete'', VBool True), (''configuration_state'', VStr ''installed''),
       (''recovery_required'', VBool False), (''subject_ids'', ids (dkeys (ir_requested r)))])"

definition finish_initialization :: "menv \<Rightarrow> init_record \<Rightarrow> string option \<Rightarrow> act" where
  "finish_initialization e r failure = query (\<lambda>s.
     if map_option ir_initialization_id (mn_pending s) \<noteq> Some (ir_initialization_id r) then skip
     else
       seq (out (MTimerCancel (ir_initialization_id r)))
       (seq (upd (\<lambda>s. s\<lparr>mn_pending := None\<rparr>))
       (case failure of
          Some msg \<Rightarrow>
            seq (upd (\<lambda>s. s\<lparr>mn_recovery := Some \<lparr>rc_previous = ir_previous r, rc_requested = ir_requested r,
                   rc_participants = ir_expected r, rc_initialization_id = ir_initialization_id r,
                   rc_results = ir_replies r, rc_cleanup_id = VNone, rc_cleanup_nodes = {}\<rparr>,
                   mn_registry := replace_subjects [] (mn_registry s)\<rparr>))
              (emit e (node_event EVT_ERROR (init_failure_payload r msg)))
        | None \<Rightarrow>
            seq (upd (\<lambda>s. s\<lparr>mn_registry := replace_subjects (ir_requested r) (mn_registry s)\<rparr>))
            (seq (conn_call e (Configure
                    (map (connection_subject (ir_requested r)) (ir_connection_subjects r))))
              (emit e (node_event EVT_SYSTEM_INITIALIZED (init_success_payload r)))))))"

definition expected_subjects :: "init_record \<Rightarrow> string \<Rightarrow> string list" where
  "expected_subjects r node_id = sort (map sid_of (dget_or (ir_plan r) node_id []))"

definition reply_installed :: "init_record \<Rightarrow> string \<Rightarrow> string \<Rightarrow> val \<Rightarrow> bool" where
  "reply_installed r node_id event_type pl \<longleftrightarrow>
     event_type \<noteq> EVT_NODE_INITIALIZATION_FAILED \<and>
     vget pl ''configuration_state'' = VStr ''installed'' \<and>
     is_list (vget pl ''subject_ids'') \<and> list_all is_str (as_list (vget pl ''subject_ids'')) \<and>
     sort (id_list (vget pl ''subject_ids'')) = expected_subjects r node_id"

definition reply_accepted :: "init_record \<Rightarrow> string \<Rightarrow> val \<Rightarrow> bool" where
  "reply_accepted r node_id pl \<longleftrightarrow>
     vget pl ''initialization_id'' = VStr (ir_initialization_id r) \<and>
     vget pl ''correlation_id'' = ir_correlation_id r \<and>
     node_id \<in> ir_expected r \<and> node_id \<notin> fst ` set (ir_replies r)"

definition record_initialization_reply :: "menv \<Rightarrow> string \<Rightarrow> string \<Rightarrow> val \<Rightarrow> act" where
  "record_initialization_reply e node_id event_type pl = query (\<lambda>s.
     case mn_pending s of
       None \<Rightarrow> skip
     | Some r0 \<Rightarrow>
         if \<not> reply_accepted r0 node_id pl then skip
         else (let r = r0\<lparr>ir_replies := dput node_id pl (ir_replies r0)\<rparr> in
           seq (upd (\<lambda>s. s\<lparr>mn_pending := Some r\<rparr>))
             (if \<not> reply_installed r node_id event_type pl then
                finish_initialization e r (Some (''Initialization failed on '' @ node_id @ '': '' @
                  py_str (vget_or pl ''message'' (VStr ''configuration mismatch''))))
              else if ir_expected r \<subseteq> fst ` set (ir_replies r)
              then finish_initialization e r None
              else skip)))"

definition record_initialization_recovery :: "val \<Rightarrow> act" where
  "record_initialization_recovery pl = query (\<lambda>s.
     case mn_recovery s of
       None \<Rightarrow> skip
     | Some rc \<Rightarrow>
         if \<not> truthy (rc_cleanup_id rc) \<or> vget pl ''correlation_id'' \<noteq> rc_cleanup_id rc
            \<or> \<not> is_str (vget pl ''node_id'') \<or> py_str (vget pl ''node_id'') \<notin> rc_participants rc
            \<or> vget pl ''core_ready_for_configuration'' \<noteq> VBool True
         then skip
         else (let rc = rc\<lparr>rc_cleanup_nodes := insert (py_str (vget pl ''node_id'')) (rc_cleanup_nodes rc)\<rparr> in
           if rc_participants rc \<subseteq> rc_cleanup_nodes rc
           then upd (\<lambda>s. s\<lparr>mn_registry := replace_subjects [] (mn_registry s), mn_recovery := None\<rparr>)
           else upd (\<lambda>s. s\<lparr>mn_recovery := Some rc\<rparr>)))"

text \<open>Every participant besides the master must be reachable.\<close>

fun check_participants :: "node_registry \<Rightarrow> string list \<Rightarrow> plan \<Rightarrow> py_error + plan" where
  "check_participants r [] p = Inr p"
| "check_participants r (nid # nids) p =
     (let p = (if nid \<in> fst ` set p then p else p @ [(nid, [])]) in
      if nid \<noteq> MASTER \<and> \<not> truthy (get_identity r nid)
      then Inl (ValueError ''Previously assigned node is unavailable; recover it before reconfiguration'' [VStr nid])
      else check_participants r nids p)"

definition required_nodes :: "(string, string) dict \<Rightarrow> (string, string) dict \<Rightarrow> string list" where
  "required_nodes previous requested = map snd previous @ map snd requested @ [MASTER]"

definition prepare_initialization :: "menv \<Rightarrow> val \<Rightarrow> master \<Rightarrow> py_error + plan \<times> plan" where
  "prepare_initialization e pl s =
     (if mn_active s \<noteq> {} then Inl (ValueError ''Cannot reconfigure while subjects are acquiring or draining'' [])
      else if \<not> me_handler e then Inl (ValueError ''Local initialization handler unavailable'' [])
      else case me_guard e of
        Some x \<Rightarrow> Inl (RuntimeError x)
      | None \<Rightarrow>
          rbind (plan_subject_assignments (mn_registry s) (vget_or pl ''subjects'' (VList []))) (\<lambda>p.
          rbind (check_participants (mn_registry s)
                   (set_iter (me_rank e) (required_nodes (owners (mn_registry s)) (assignments_of p))) p)
            (\<lambda>p'. Inr (p, p'))))"

definition subjects_val :: "node_registry \<Rightarrow> val" where
  "subjects_val r = VDict (map (\<lambda>(sid, i). (sid, VDict [(''assigned_node'', VStr (assigned_node i)),
     (''meta'', meta i)])) (get_subjects r))"

definition reject_initialization :: "menv \<Rightarrow> val \<Rightarrow> py_error \<Rightarrow> act" where
  "reject_initialization e correlation_id err = query (\<lambda>s.
     emit e (event EVT_ERROR
       [(''message'', VStr (''System init rejected: '' @ me_str e err)),
        (''correlation_id'', correlation_id), (''configuration_state'', VStr ''previous_retained''),
        (''recovery_required'', VBool False), (''initialization_complete'', VBool False),
        (''previous_assignments'', subjects_val (mn_registry s))]))"

definition init_node_payload :: "val \<Rightarrow> init_record \<Rightarrow> string \<Rightarrow> val" where
  "init_node_payload pl r nid = VDict (dmerge (as_dict pl)
     [(''subjects'', VList (dget_or (ir_plan r) nid [])), (''correlation_id'', ir_correlation_id r),
      (''initialization_id'', VStr (ir_initialization_id r))])"

text \<open>Remote participants first, the synchronous local installation last.\<close>

definition dispatch_initialization :: "menv \<Rightarrow> val \<Rightarrow> init_record \<Rightarrow> string list \<Rightarrow> act" where
  "dispatch_initialization e pl r nids =
     for_each (filter (\<lambda>n. n \<noteq> MASTER) nids @ filter (\<lambda>n. n = MASTER) nids) (\<lambda>nid.
       if nid = MASTER then handle_local e CMD_INIT_SYSTEM (init_node_payload pl r nid)
       else send_command e (command CMD_INIT_SYSTEM (init_node_payload pl r nid)) (Some nid))"

definition new_init_record :: "menv \<Rightarrow> val \<Rightarrow> val \<Rightarrow> master \<Rightarrow> plan \<Rightarrow> plan \<Rightarrow> init_record" where
  "new_init_record e pl correlation_id s p p' =
     (let requested = assignments_of p; previous = owners (mn_registry s) in
      \<lparr>ir_correlation_id = correlation_id, ir_initialization_id = me_uuid e (mn_uuids s),
       ir_previous = previous, ir_requested = requested,
       ir_expected = set (required_nodes previous requested), ir_plan = p', ir_replies = [],
       ir_connection_subjects = as_list (vget_or pl ''subjects'' (VList []))\<rparr>)"

definition launch_initialization :: "menv \<Rightarrow> val \<Rightarrow> init_record \<Rightarrow> act" where
  "launch_initialization e pl r =
     seq (upd (\<lambda>s. s\<lparr>mn_uuids := Suc (mn_uuids s), mn_pending := Some r, mn_dispatching := True\<rparr>))
     (seq (out (MTimerStart (ir_initialization_id r) 90))
     (seq (catch (dispatch_initialization e pl r
                    (set_iter (me_rank e) (required_nodes (ir_previous r) (ir_requested r)))) (\<lambda>x.
             finish_initialization e r (Some (''System initialization dispatch failed: '' @ x))))
          (upd (\<lambda>s. s\<lparr>mn_dispatching := False\<rparr>))))"

definition begin_initialization :: "menv \<Rightarrow> val \<Rightarrow> act" where
  "begin_initialization e pl = query (\<lambda>s0.
     let given = vget pl ''correlation_id'';
         s = (if truthy given then s0 else s0\<lparr>mn_uuids := Suc (mn_uuids s0)\<rparr>);
         correlation_id = (if truthy given then given else VStr (me_uuid e (mn_uuids s0)))
     in seq (upd (\<lambda>_. s))
          (if mn_pending s \<noteq> None \<or> mn_recovery s \<noteq> None \<or> mn_dispatching s then
             emit_dispatch_error e ''Initialization is pending or requires Reset before another attempt''
               (VDict [(''correlation_id'', correlation_id)])
           else case prepare_initialization e pl s of
             Inl AttributeError \<Rightarrow> raise (me_str e AttributeError)
           | Inl err \<Rightarrow> reject_initialization e correlation_id err
           | Inr (p, p') \<Rightarrow> launch_initialization e pl (new_init_record e pl correlation_id s p p')))"

definition initialization_expired :: "menv \<Rightarrow> string \<Rightarrow> act" where
  "initialization_expired e iid = query (\<lambda>s. case mn_pending s of
     Some r \<Rightarrow> if ir_initialization_id r = iid
               then finish_initialization e r (Some ''System initialization timed out'') else skip
   | None \<Rightarrow> skip)"

section \<open>AI nodes\<close>

definition broadcast_ai_registry :: "menv \<Rightarrow> bool \<Rightarrow> act" where
  "broadcast_ai_registry e force = query (\<lambda>s.
     if \<not> force \<and> me_now e - mn_last_ai_broadcast s < 10 then skip
     else seq (send_command e (command ''ai_node_registry'' (VDict [(''nodes'',
                 VDict (map (\<lambda>(nid, d). (nid, VDict [(''ip'', ip d), (''compute_port'', compute_port d),
                   (''last_seen'', last_seen d), (''capabilities'', capabilities d)]))
                   (get_ai_nodes (mn_registry s))))])) None)
            (upd (\<lambda>s. s\<lparr>mn_last_ai_broadcast := me_now e\<rparr>)))"


section \<open>Routing of commands\<close>

definition OWNERSHIP_COMMANDS :: "string list" where
  "OWNERSHIP_COMMANDS = [CMD_DISCOVER_SENSORS, CMD_DISCOVER_SENSORS_FOR_SUBJECTS, CMD_CONNECT_TO_ALL,
     CMD_CONNECT_SUBJECTS, CMD_START_STREAM_FOR_ALL, CMD_START_STREAM_FOR_SUBJECTS]"

definition SEQUENCE_BLOCKED :: "string list" where
  "SEQUENCE_BLOCKED = [CMD_DISCOVER_SENSORS, CMD_DISCOVER_SENSORS_FOR_SUBJECTS, CMD_CONNECT_SUBJECTS,
     CMD_CONNECT_TO_ALL, CMD_IDENTIFY_SENSOR, CMD_INIT_SYSTEM]"

definition MASTER_ONLY :: "string list" where
  "MASTER_ONLY = [CMD_IS_SERVER_READY, CMD_SYSTEM_SETUP, CMD_USB_MOUNT, CMD_USB_SAFE_UNMOUNT,
     CMD_GET_USB_STATUS, CMD_GET_DEVICE_INFO, CMD_ROBOT_MOTION, CMD_ROBOT_STOP]"

definition START_COMMANDS :: "string list" where
  "START_COMMANDS = [CMD_START_STREAM_FOR_ALL, CMD_START_STREAM_FOR_SUBJECTS]"

definition STOP_COMMANDS :: "string list" where
  "STOP_COMMANDS = [CMD_STOP_STREAM_FOR_ALL, CMD_STOP_STREAM_FOR_SUBJECTS]"

definition identify_sensor :: "menv \<Rightarrow> val \<Rightarrow> val \<Rightarrow> act" where
  "identify_sensor e msg pl = query (\<lambda>s.
     let sid = py_str (vget pl ''subject_id'') in
     case map_of (get_subjects (mn_registry s)) sid of
       None \<Rightarrow> emit_dispatch_error e (''Unknown subject '' @ sid) pl
     | Some info \<Rightarrow>
         if assigned_node info = MASTER
         then (if me_handler e then handle_local e CMD_IDENTIFY_SENSOR pl else skip)
         else send_command e msg (Some (assigned_node info)))"

text \<open>Which subjects each participant of a Reset cleans up; the keys are the participants.\<close>

definition cleanup_nodes :: "node_registry \<Rightarrow> string list option \<Rightarrow> (string, string list) dict" where
  "cleanup_nodes r requested =
     (let nodes = fold (\<lambda>(sid, i) d. if (case requested of None \<Rightarrow> True | Some rs \<Rightarrow> sid \<in> set rs)
                                     then dappend (assigned_node i) sid d else d)
                    (get_subjects r) []
      in if nodes = [] then [(MASTER, [])] else nodes)"

definition add_participants :: "string list \<Rightarrow> (string, string list) dict \<Rightarrow> (string, string list) dict" where
  "add_participants ps d = fold (\<lambda>n d. if n \<in> fst ` set d then d else d @ [(n, [])]) ps d"

definition disconnect_command :: "menv \<Rightarrow> string \<Rightarrow> val \<Rightarrow> act" where
  "disconnect_command e msg_type pl = query (\<lambda>s.
     if mn_pending s \<noteq> None \<or> mn_dispatching s
      then emit_dispatch_error e ''Wait for initialization to finish or time out before Reset'' pl
      else
        (let requested = (if msg_type = CMD_DISCONNECT_SUBJECTS \<and> vget pl ''subject_ids'' \<noteq> VNone
                          then Some (id_list (vget pl ''subject_ids'')) else None);
             nodes0 = cleanup_nodes (mn_registry s) requested;
             recovery = (if msg_type = CMD_DISCONNECT_ALL then mn_recovery s else None);
             nodes = (case recovery of None \<Rightarrow> nodes0
                      | Some rc \<Rightarrow> add_participants (set_iter (me_rank e) (sorted_list_of_set (rc_participants rc))) nodes0);
             resetting = (recovery \<noteq> None \<and> vget pl ''recover_session'' = VBool True);
             fresh = (resetting \<and> \<not> truthy (vget pl ''correlation_id''));
             cid = (if fresh then VStr (me_uuid e (mn_uuids s)) else vget pl ''correlation_id'');
             pl1 = (if resetting then vput ''correlation_id'' cid pl else pl);
             s1 = (if fresh then s\<lparr>mn_uuids := Suc (mn_uuids s)\<rparr> else s);
             s2 = (if resetting then s1\<lparr>mn_recovery := map_option (\<lambda>rc. rc\<lparr>rc_cleanup_id := cid,
                      rc_cleanup_nodes := {}\<rparr>) (mn_recovery s1)\<rparr> else s1);
             expected = ids (sort (dkeys nodes));
             deadline = VInt (me_now e + 90);
             pl2 = vput ''cleanup_deadline_unix_s'' deadline pl1
         in seq (upd (\<lambda>_. s2)) (seq (emit e (event EVT_SENSOR_CLEANUP_STARTED
                   [(''correlation_id'', vget pl2 ''correlation_id''), (''expected_node_ids'', expected),
                    (''cleanup_deadline_unix_s'', deadline)]))
              (for_each (filter (\<lambda>(n, _). n \<noteq> MASTER) nodes @ filter (\<lambda>(n, _). n = MASTER) nodes)
                (\<lambda>(n, sids). deliver e msg_type n
                   (let np = vput ''expected_node_ids'' expected pl2 in
                    if requested \<noteq> None then vput ''subject_ids'' (ids sids) np else np))))))"

definition update_file_path :: "menv \<Rightarrow> val \<Rightarrow> act" where
  "update_file_path e pl =
     seq (if me_handler e
          then handle_local e CMD_UPDATE_FILE_PATH (VDict [(''file_path'', vget pl ''file_path'')]) else skip)
     (if map_of (as_dict pl) ''file_path'' = None then raise (me_str e (KeyError (VStr ''file_path'')))
      else query (\<lambda>s. for_each (get_worker_ids (mn_registry s)) (\<lambda>w. send_command e
             (command CMD_UPDATE_FILE_PATH (VDict [(''file_path'', vget pl ''network_path'')])) (Some w))))"

text \<open>The commit of an official start: only when every expected node is ready; the remote nodes
  before the master.\<close>

definition timing :: "menv \<Rightarrow> nat \<Rightarrow> string \<Rightarrow> val" where
  "timing e n node_id = VDict
     [(''coordinator_node_id'', VStr MASTER),
      (''coordinator_command_received_utc_ns'', VInt (me_received_utc e)),
      (''coordinator_command_received_monotonic_ns'', VInt (me_received_monotonic e)),
      (''coordinator_dispatch_utc_ns'', VInt (me_dispatch_utc e n)),
      (''coordinator_dispatch_monotonic_ns'', VInt (me_dispatch_monotonic e n)),
      (''coordinator_dispatch_offset_ms'', me_ms e (me_dispatch_monotonic e n - me_received_monotonic e)),
      (''dispatch_sequence'', VInt (int n)), (''target_node_id'', VStr node_id)]"

definition commit_order :: "string set \<Rightarrow> string list" where
  "commit_order expected = (let ns = sorted_list_of_set expected in
     filter (\<lambda>n. n \<noteq> MASTER) ns @ (if MASTER \<in> expected then [MASTER] else []))"

definition start_official_stream :: "menv \<Rightarrow> val \<Rightarrow> act" where
  "start_official_stream e pl = query (\<lambda>s.
     let key = vget pl ''start_session_id''; sid = py_str key in
     case (if is_str key then map_of (mn_official s) sid else None) of
       None \<Rightarrow> emit_dispatch_error e ''Unknown or stale distributed start session'' pl
     | Some r \<Rightarrow>
         if os_ready r \<noteq> os_expected r then
           emit_dispatch_error e
             (''Distributed stream is not ready for official acquisition; waiting for '' @
              me_repr e (sorted_ids (os_expected r - os_ready r))) pl
         else
           seq (upd (\<lambda>s. s\<lparr>mn_official := dput sid (r\<lparr>os_commit_dispatched := True\<rparr>) (mn_official s)\<rparr>))
             (for_each (enumerate 1 (commit_order (os_expected r))) (\<lambda>(n, node_id).
                deliver e CMD_START_OFFICIAL_STREAM node_id
                  (vput ''official_start_timing'' (timing e n node_id)
                    (vput ''session_timestamp'' (os_session_timestamp r) pl)))))"

text \<open>General dispatch: which node gets which subjects, and the session fields of its payload.\<close>

definition nodes_to_subjects :: "node_registry \<Rightarrow> string list \<Rightarrow> (string, string list) dict" where
  "nodes_to_subjects r subject_ids = fold (\<lambda>sid d. dappend
     (case map_of (get_subjects r) sid of None \<Rightarrow> ''master'' | Some i \<Rightarrow> assigned_node i) sid d)
     subject_ids []"

definition session_fields :: "val \<Rightarrow> val \<Rightarrow> val \<Rightarrow> val \<Rightarrow> val" where
  "session_fields ts start stop pl =
     (let pl = (if truthy ts then vput ''session_timestamp'' ts pl else pl);
          pl = (if truthy start then vput ''official_start_mode'' (VStr ''coordinated'')
                                       (vput ''start_session_id'' start pl) else pl)
      in if truthy stop then vput ''stop_session_id'' stop pl else pl)"

definition fan_out :: "menv \<Rightarrow> string \<Rightarrow> bool \<Rightarrow> (string, val) dict \<Rightarrow> act" where
  "fan_out e msg_type stopping node_payloads =
     (if stopping then
        seq (for_each (filter (\<lambda>(n, _). n \<noteq> MASTER) node_payloads) (\<lambda>(n, pl).
               send_command e (command msg_type pl) (Some n)))
          (case map_of node_payloads MASTER of
             None \<Rightarrow> skip
           | Some pl \<Rightarrow> if truthy pl \<and> me_handler e then handle_local e msg_type pl else skip)
      else for_each node_payloads (\<lambda>(n, pl). deliver e msg_type n pl))"

text \<open>The session identifiers of a start or stop command; fresh ones are drawn when missing.\<close>

definition fresh_or :: "menv \<Rightarrow> val \<Rightarrow> master \<Rightarrow> master \<times> val" where
  "fresh_or e given s = (if truthy given then (s, given)
     else (s\<lparr>mn_uuids := Suc (mn_uuids s)\<rparr>, VStr (me_uuid e (mn_uuids s))))"

text \<open>The body of the two branches of the general dispatch: an explicit list of subjects, or every
  node that owns one.\<close>

definition route_subjects :: "menv \<Rightarrow> string \<Rightarrow> val \<Rightarrow> val \<Rightarrow> val \<Rightarrow> val \<Rightarrow> act" where
  "route_subjects e msg_type pl ts start stop = query (\<lambda>s.
     let starting = msg_type \<in> set START_COMMANDS; stopping = msg_type \<in> set STOP_COMMANDS;
         given = truthy (vget pl ''subject_ids'');
         sids = (if given then id_list (vget pl ''subject_ids'') else dkeys (get_subjects (mn_registry s)));
         targets = (if given then nodes_to_subjects (mn_registry s) sids
                    else map (\<lambda>n. (n, [])) (set_iter (me_rank e)
                           (map (\<lambda>(_, i). assigned_node i) (get_subjects (mn_registry s)))));
         payloads = map (\<lambda>(n, ss). (n, session_fields ts start stop
                      (if given then vput ''subject_ids'' (ids ss) pl else pl))) targets
     in seq (if starting then upd (\<lambda>s. s\<lparr>mn_active := mn_active s \<union> set sids\<rparr>) else skip)
       (seq (if starting then create_official_start_record (py_str start) ts sids (dkeys targets) else skip)
       (seq (if stopping then create_drain_record (py_str stop) (if given then ''subjects'' else ''all'')
                                sids (dkeys targets) else skip)
          (fan_out e msg_type stopping payloads))))"

definition general_dispatch :: "menv \<Rightarrow> string \<Rightarrow> val \<Rightarrow> act" where
  "general_dispatch e msg_type pl = query (\<lambda>s0.
     let starting = msg_type \<in> set START_COMMANDS; stopping = msg_type \<in> set STOP_COMMANDS;
          ts = (if starting then py_or (vget pl ''session_timestamp'') (VStr (me_stamp e)) else VNone);
          (s1, start) = (if starting then fresh_or e (vget pl ''start_session_id'') s0 else (s0, VNone));
          (s, stop) = (if stopping then fresh_or e (vget pl ''stop_session_id'') s1 else (s1, VNone))
      in seq (upd (\<lambda>_. s))
        (seq (if starting \<and> me_handler e
              then seq (out MPrepare) (case me_prepare e of None \<Rightarrow> skip | Some x \<Rightarrow> raise x) else skip)
           (if msg_type = CMD_START_OFFICIAL_STREAM then start_official_stream e pl
            else route_subjects e msg_type pl ts start stop)))"

definition unsettled :: "master \<Rightarrow> bool" where
  "unsettled s \<longleftrightarrow> mn_pending s \<noteq> None \<or> mn_recovery s \<noteq> None"

definition dispatch_command :: "menv \<Rightarrow> val \<Rightarrow> act" where
  "dispatch_command e msg = query (\<lambda>s.
     let pl = vget_or msg ''payload'' (VDict []); msg_type = py_str (vget msg ''type'') in
      if unsettled s \<and> msg_type \<in> set OWNERSHIP_COMMANDS then
        emit_dispatch_error e
          ''Initialization is pending or requires Reset; configuration ownership is not authoritative'' pl
      else if msg_type = CMD_CONNECT_TO_ALL \<and> length (cq_subjects (mn_conn s)) > 1 then
        conn_call e (Start (vget pl ''correlation_id''))
      else if busy (mn_conn s) \<and> msg_type \<in> set SEQUENCE_BLOCKED then
        emit_dispatch_error e ''Connect All is still in progress; wait for completion or Reset'' pl
      else
        (let pl = (if msg_type = CMD_DISCOVER_SENSORS_FOR_SUBJECTS
                   then vput ''excluded_addresses'' (sorted_ids
                     (set (exclusions (set (id_list (vget pl ''subject_ids''))) (mn_conn s)) \<union>
                      set (id_list (vget pl ''excluded_addresses'')))) pl
                   else pl)
         in if msg_type = CMD_IDENTIFY_SENSOR \<and> truthy (vget pl ''subject_id'') then identify_sensor e msg pl
         else if msg_type \<in> {CMD_DISCONNECT_ALL, CMD_DISCONNECT_SUBJECTS} then disconnect_command e msg_type pl
         else if msg_type = CMD_UPDATE_FILE_PATH then update_file_path e pl
         else if msg_type \<in> set MASTER_ONLY then (if me_handler e then handle_local e msg_type pl else skip)
         else if msg_type = CMD_INIT_SYSTEM then begin_initialization e pl
         else general_dispatch e msg_type pl))"

section \<open>Messages and events\<close>

definition handle_local_system_event :: "menv \<Rightarrow> val \<Rightarrow> act" where
  "handle_local_system_event e ev =
     (let event_type = py_str (vget ev ''type''); pl = py_or (vget ev ''payload'') (VDict []);
          node_id = py_str (vget_or ev ''node_id'' (VStr MASTER)) in
      seq (conn_call e (Event ev))
      (seq (if event_type \<in> {EVT_NODE_INITIALIZED, EVT_NODE_INITIALIZATION_FAILED}
            then record_initialization_reply e node_id event_type pl
            else if event_type = EVT_SENSOR_CLEANUP_COMPLETE then record_initialization_recovery pl
            else skip)
           (if event_type = EVT_STREAM_DRAINED \<and> \<not> truthy (vget ev ''node_id'')
            then record_drain_ack e MASTER pl
            else if event_type \<in> {EVT_STREAM_READY_FOR_OFFICIAL, EVT_STREAM_OFFICIAL_STARTED} \<and> node_id = MASTER
            then record_official_start_event e (dispatch_command e) MASTER event_type pl
            else skip)))"

definition register_message :: "menv \<Rightarrow> val \<Rightarrow> val \<Rightarrow> act" where
  "register_message e ident msg =
     (let r = py_str (vget_or msg ''role'' (VStr ''worker'')) in
      if map_of (as_dict msg) ''node_id'' = None then raise (me_str e (KeyError (VStr ''node_id'')))
      else seq (upd (\<lambda>s. s\<lparr>mn_registry := register_node (VInt (me_now e)) (py_str (vget msg ''node_id''))
             (vget msg ''ip'') r ident (vget msg ''compute_port'')
             (vget_or msg ''capabilities'' (VDict [])) (mn_registry s)\<rparr>))
      (seq (if r = ''ai'' then broadcast_ai_registry e True else skip)
        (send_multipart e ident (VDict [(''type'', VStr ''REGISTER_ACK''), (''status'', VStr ''OK''),
           (''usb_path'', me_usb_path e)]))))"

definition heartbeat_message :: "menv \<Rightarrow> val \<Rightarrow> val \<Rightarrow> string \<Rightarrow> act" where
  "heartbeat_message e ident msg node_id = query (\<lambda>s.
     case map_of (get_nodes (mn_registry s)) node_id of
       None \<Rightarrow> skip
     | Some n \<Rightarrow> seq (send_multipart e ident (VDict [(''type'', VStr ''HEARTBEAT_ACK''),
                        (''node_id'', VStr MASTER), (''ts'', vget msg ''ts'')]))
                   (if role n = ''ai'' then broadcast_ai_registry e False else skip))"

text \<open>One message of the router loop. An exception inside the loop body is printed and the loop
  goes on.\<close>

definition router_message :: "menv \<Rightarrow> val \<Rightarrow> val \<Rightarrow> act" where
  "router_message e ident msg = catch
     (let msg_type = py_str (vget msg ''type''); node_id = py_str (py_or (vget msg ''node_id'') (VStr []));
          pl = py_or (vget msg ''payload'') (VDict []) in
      if msg_type = ''REGISTER'' then register_message e ident msg
      else seq (if node_id \<noteq> [] then upd (\<lambda>s. s\<lparr>mn_registry := heartbeat (VInt (me_now e)) node_id (mn_registry s)\<rparr>)
                else skip)
        (if msg_type = ''HEARTBEAT'' then heartbeat_message e ident msg node_id
         else if msg_type \<in> {EVT_NODE_INITIALIZED, EVT_NODE_INITIALIZATION_FAILED}
         then record_initialization_reply e node_id msg_type pl
         else if msg_type = EVT_SYSTEM_INITIALIZED then skip
         else seq (if msg_type = EVT_STREAM_DRAINED then record_drain_ack e node_id pl
                   else if msg_type \<in> {EVT_STREAM_READY_FOR_OFFICIAL, EVT_STREAM_OFFICIAL_STARTED}
                   then record_official_start_event e (dispatch_command e) node_id msg_type pl
                   else skip)
                (if me_bus e then out (MEmit msg) else raise (me_str e AttributeError))))
     (\<lambda>_. skip)"

text \<open>\<open>stop\<close>: a pending initialization is abandoned.\<close>

definition stop_master :: act where
  "stop_master = query (\<lambda>s. case mn_pending s of
     None \<Rightarrow> skip
   | Some r \<Rightarrow> seq (out (MTimerCancel (ir_initialization_id r))) (upd (\<lambda>s. s\<lparr>mn_pending := None\<rparr>)))"

definition init_master :: "menv \<Rightarrow> val \<Rightarrow> val \<Rightarrow> master" where
  "init_master e my_ip caps =
     \<lparr>mn_registry = register_node (VInt (me_now e)) MASTER my_ip ''master'' VNone VNone caps init_node_registry,
      mn_conn = init_conn_seq, mn_drains = [], mn_official = [], mn_pending = None, mn_recovery = None,
      mn_dispatching = False, mn_active = {}, mn_last_ai_broadcast = 0, mn_uuids = 0\<rparr>"

text \<open>The inputs of the coordinator and its runs; the environment may differ from step to step.\<close>

datatype minput =
    Router val val
  | LocalEvent val
  | Command val
  | InitExpired string
  | ConnExpired string

fun master_input :: "menv \<Rightarrow> minput \<Rightarrow> act" where
  "master_input e (Router ident msg) = router_message e ident msg"
| "master_input e (LocalEvent ev) = handle_local_system_event e ev"
| "master_input e (Command msg) = dispatch_command e msg"
| "master_input e (InitExpired iid) = initialization_expired e iid"
| "master_input e (ConnExpired token) = conn_call e (Expire token)"

fun master_run :: "(menv \<times> minput) list \<Rightarrow> master \<Rightarrow> master \<times> meffect list" where
  "master_run [] s = (s, [])"
| "master_run ((e, i) # xs) s =
     (case master_input e i s of (s', es, _) \<Rightarrow>
        (case master_run xs s' of (s'', fs) \<Rightarrow> (s'', es @ fs)))"

end
