(* ===== verification/Connection_Sequence_Props.thy ===== *)
theory Connection_Sequence_Props
  imports Connection_Sequence
begin

text \<open>
  Correctness of the ordered Connect All workflow: the invariant of the object and its
  preservation by every method, the absence of internal exceptions, the exclusivity of sensor
  addresses, the behaviour on late replies, and completion when every step is answered.
\<close>

named_theorems conn_simps \<open>final states of the methods\<close>

section \<open>Final states and effects of the building blocks\<close>

lemma fst_and_then [simp]: "fst (and_then r f) = fst (f (fst r))"
  by (simp add: and_then_def split: prod.splits)

lemma snd_and_then [simp]: "snd (and_then r f) = snd r @ snd (f (fst r))"
  by (simp add: and_then_def split: prod.splits)

lemma fst_cancel_timer [simp]: "fst (cancel_timer s) = s\<lparr>cq_timer := None\<rparr>"
  by (auto simp: cancel_timer_def split: option.splits)

lemma fst_progress [simp]: "fst (progress phase subject extra s) = s"
  by (simp add: progress_def)

lemma fst_fail_step [simp]:
  "fst (fail_step m subject operation s) = s\<lparr>cq_timer := None, cq_active := False\<rparr>"
  by (simp add: fail_step_def Let_def)

lemma fst_reject_reply [simp]:
  "fst (reject_reply m s) =
     (if cq_active s then s\<lparr>cq_timer := None, cq_active := False, cq_pending := None\<rparr>
      else s\<lparr>cq_pending := None\<rparr>)"
  by (simp add: reject_reply_def)

lemma fst_configure [simp]:
  "fst (configure subjects s) = s\<lparr>cq_timer := None, cq_subjects := subjects, cq_selected := [],
     cq_completed := {}, cq_discovered := {}, cq_active := False, cq_pending := None,
     cq_sequence_id := VNone\<rparr>"
  by (simp add: configure_def)

lemma fst_identify [simp]: "fst (identify uuid disp subject s) = s\<lparr>cq_uuids := Suc (cq_uuids s)\<rparr>"
  by (simp add: identify_def Let_def)

text \<open>Effects of one kind only: what a method can emit at all.\<close>

definition quiet_effect :: "effect \<Rightarrow> bool" where
  "quiet_effect e \<longleftrightarrow> (case e of Emit _ \<Rightarrow> True | TimerCancel _ \<Rightarrow> True | _ \<Rightarrow> False)"

lemma quiet_effect_simps [simp]:
  "quiet_effect (Emit v)" "quiet_effect (TimerCancel t)" "\<not> quiet_effect (Dispatch n c p)"
  "\<not> quiet_effect (TimerStart t k)" "\<not> quiet_effect (Raised m)"
  by (simp_all add: quiet_effect_def)

lemma quiet_cancel_timer [simp]: "e \<in> set (snd (cancel_timer s)) \<Longrightarrow> quiet_effect e"
  by (auto simp: cancel_timer_def split: option.splits)

lemma quiet_progress [simp]: "e \<in> set (snd (progress phase subject extra s)) \<Longrightarrow> quiet_effect e"
  by (simp add: progress_def)

lemma quiet_fail_step [simp]:
  "e \<in> set (snd (fail_step m subject operation s)) \<Longrightarrow> quiet_effect e"
  by (auto simp: fail_step_def Let_def)

lemma quiet_reject_reply [simp]: "e \<in> set (snd (reject_reply m s)) \<Longrightarrow> quiet_effect e"
  by (auto simp: reject_reply_def split: if_splits)

section \<open>The invariant\<close>

definition exclusive :: "conn_seq \<Rightarrow> bool" where
  "exclusive s \<longleftrightarrow> (\<forall>a \<in> cq_discovered s. \<forall>b \<in> cq_discovered s. a \<noteq> b \<longrightarrow>
     set (dget_or (cq_selected s) a []) \<inter> set (dget_or (cq_selected s) b []) = {})"

definition pending_ok :: "conn_seq \<Rightarrow> bool" where
  "pending_ok s \<longleftrightarrow> (\<forall>p. cq_pending s = Some p \<longrightarrow>
     p_subject p \<in> set (cq_subjects s) \<and>
     p_operation p \<in> {''discovering'', ''connecting''} \<and>
     (p_operation p = ''discovering'' \<longrightarrow> cs_subject_id (p_subject p) \<notin> cq_discovered s))"

definition data_inv :: "conn_seq \<Rightarrow> bool" where
  "data_inv s \<longleftrightarrow>
     cq_discovered s \<subseteq> fst ` set (cq_selected s) \<and>
     fst ` set (cq_selected s) \<subseteq> cs_subject_id ` set (cq_subjects s) \<and>
     cq_completed s \<subseteq> cs_subject_id ` set (cq_subjects s) \<and>
     distinct (dkeys (cq_selected s)) \<and> exclusive s \<and> pending_ok s"

definition live_inv :: "conn_seq \<Rightarrow> bool" where
  "live_inv s \<longleftrightarrow> (cq_active s \<longrightarrow>
     cq_index s < length (cq_subjects s) \<and>
     (\<exists>p. cq_pending s = Some p \<and> p_subject p = cq_subjects s ! cq_index s \<and>
          cq_timer s = Some (p_token p, step_timeout (p_subject p))))"

definition conn_inv :: "conn_seq \<Rightarrow> bool" where
  "conn_inv s \<longleftrightarrow> data_inv s \<and> live_inv s"

lemma conn_inv_init: "conn_inv init_conn_seq"
  by (simp add: conn_inv_def data_inv_def live_inv_def exclusive_def pending_ok_def init_conn_seq_def)

lemmas data_defs = data_inv_def exclusive_def pending_ok_def

lemma data_inv_frame [simp]:
  "data_inv (s\<lparr>cq_timer := t\<rparr>) = data_inv s"
  "data_inv (s\<lparr>cq_active := b\<rparr>) = data_inv s"
  "data_inv (s\<lparr>cq_index := i\<rparr>) = data_inv s"
  "data_inv (s\<lparr>cq_uuids := n\<rparr>) = data_inv s"
  "data_inv (s\<lparr>cq_correlation_id := c\<rparr>) = data_inv s"
  "data_inv (s\<lparr>cq_sequence_id := c\<rparr>) = data_inv s"
  by (simp_all add: data_defs)

lemma data_inv_no_pending: "data_inv s \<Longrightarrow> data_inv (s\<lparr>cq_pending := None\<rparr>)"
  by (simp add: data_defs)

lemma data_inv_set_pending:
  "data_inv s \<Longrightarrow> p_subject p \<in> set (cq_subjects s) \<Longrightarrow>
   p_operation p \<in> {''discovering'', ''connecting''} \<Longrightarrow>
   (p_operation p = ''discovering'' \<longrightarrow> cs_subject_id (p_subject p) \<notin> cq_discovered s) \<Longrightarrow>
   data_inv (s\<lparr>cq_pending := Some p\<rparr>)"
  by (simp add: data_defs)

lemma discovered_selected:
  "data_inv s \<Longrightarrow> sid \<in> cq_discovered s \<Longrightarrow> sid \<in> fst ` set (cq_selected s)"
  by (auto simp: data_inv_def)

lemma data_inv_cong:
  "data_inv s \<Longrightarrow> cq_discovered t = cq_discovered s \<Longrightarrow> cq_selected t = cq_selected s \<Longrightarrow>
   cq_subjects t = cq_subjects s \<Longrightarrow> cq_pending t = cq_pending s \<Longrightarrow>
   cq_completed t \<subseteq> cs_subject_id ` set (cq_subjects s) \<Longrightarrow> data_inv t"
  by (simp add: data_defs)

lemma live_inv_inactive [simp]: "\<not> cq_active s \<Longrightarrow> live_inv s"
  by (simp add: live_inv_def)

lemma conn_inv_configure: "conn_inv (fst (configure subjects s))"
  by (simp add: conn_inv_def data_defs)

lemma set_selected_outside:
  assumes "distinct (dkeys (cq_selected s))"
  shows "set (selected_outside s sids) = (\<Union>sid \<in> - sids. set (dget_or (cq_selected s) sid []))"
proof -
  have "set (dget_or d sid []) = (\<Union>as \<in> {as. (sid, as) \<in> set d}. set as)"
    if "distinct (dkeys d)" for d :: "(string, string list) dict" and sid
    using that by (cases "map_of d sid")
      (auto simp: dget_or_def map_of_eq_None_iff map_of_eq_Some_iff dest: eq_key_imp_eq_value)
  with assms show ?thesis
    by (fastforce simp: selected_outside_def)
qed

section \<open>Preservation by the steps of the workflow\<close>

definition step_ready :: "csubject \<Rightarrow> string \<Rightarrow> conn_seq \<Rightarrow> bool" where
  "step_ready subject operation s \<longleftrightarrow> step_command subject operation s \<noteq> None"

lemma fst_step:
  assumes "step_ready subject operation s"
  shows "\<exists>r. fst (step uuid disp subject operation s) =
    (let s' = s\<lparr>cq_uuids := Suc (cq_uuids s), cq_pending := Some \<lparr>p_token = uuid (cq_uuids s),
                p_subject = subject, p_operation = operation\<rparr>,
                cq_timer := Some (uuid (cq_uuids s), step_timeout subject)\<rparr>
     in if r then s' else s'\<lparr>cq_timer := None, cq_active := False, cq_pending := None\<rparr>)"
proof -
  let ?s = "s\<lparr>cq_uuids := Suc (cq_uuids s), cq_pending := Some \<lparr>p_token = uuid (cq_uuids s),
      p_subject = subject, p_operation = operation\<rparr>\<rparr>"
  have "step_command subject operation ?s = step_command subject operation s"
    by (simp add: step_command_def exclusions_def selected_outside_def Let_def
        cong: if_cong option.case_cong)
  with assms [unfolded step_ready_def] obtain command extra where c: "step_command subject operation ?s = Some (command, extra)"
    by auto
  let ?payload = "VDict [(''correlation_id'', VStr (uuid (cq_uuids s))),
      (''connection_sequence_id'', cq_sequence_id s),
      (''subject_ids'', VList [VStr (cs_subject_id subject)]), extra]"
  show ?thesis
  proof (cases "disp (cs_node_id subject) command ?payload")
    case None
    with c show ?thesis by (intro exI [of _ True]) (simp add: step_def Let_def)
  next
    case (Some msg)
    with c show ?thesis by (intro exI [of _ False]) (simp add: step_def Let_def)
  qed
qed

text \<open>Whichever way the dispatch ends, a step leaves a well-formed, armed or stopped state.\<close>

lemma step_inv:
  assumes inv: "data_inv s" and cmd: "step_ready subject operation s"
    and sub: "subject \<in> set (cq_subjects s)" and op: "operation \<in> {''discovering'', ''connecting''}"
    and new: "operation = ''discovering'' \<longrightarrow> cs_subject_id subject \<notin> cq_discovered s"
    and idx: "cq_active s \<longrightarrow> cq_index s < length (cq_subjects s) \<and> cq_subjects s ! cq_index s = subject"
  shows "conn_inv (fst (step uuid disp subject operation s))"
proof -
  obtain r where r: "fst (step uuid disp subject operation s) =
    (let s' = s\<lparr>cq_uuids := Suc (cq_uuids s), cq_pending := Some \<lparr>p_token = uuid (cq_uuids s),
                p_subject = subject, p_operation = operation\<rparr>,
                cq_timer := Some (uuid (cq_uuids s), step_timeout subject)\<rparr>
     in if r then s' else s'\<lparr>cq_timer := None, cq_active := False, cq_pending := None\<rparr>)"
    using fst_step [OF cmd] by blast
  show ?thesis
    unfolding r conn_inv_def using assms
    by (auto simp: Let_def data_defs live_inv_def)
qed

lemma step_command_connecting:
  "data_inv s \<Longrightarrow> cs_subject_id subject \<in> fst ` set (cq_selected s) \<Longrightarrow>
   step_ready subject operation s"
  by (auto simp: step_ready_def step_command_def Let_def map_of_eq_None_iff split: option.splits)

lemma step_command_discovering: "step_ready subject ''discovering'' s"
  by (simp add: step_ready_def step_command_def)

lemma next_subject_inv:
  assumes "data_inv s" and "cq_subjects s \<noteq> []"
  shows "conn_inv (fst (next_subject uuid disp s))"
  using assms
proof (induction uuid disp s rule: next_subject.induct)
  case (1 uuid disp s)
  let ?subject = "cq_subjects s ! cq_index s"
  consider (over) "\<not> cq_index s < length (cq_subjects s)"
    | (skip) "cq_index s < length (cq_subjects s)" "cs_subject_id ?subject \<in> cq_completed s"
    | (found) "cq_index s < length (cq_subjects s)" "cs_subject_id ?subject \<notin> cq_completed s"
    by blast
  then show ?case
  proof cases
    case over
    with "1.prems" show ?thesis
      by (simp add: next_subject.simps [of uuid disp s] conn_inv_def)
  next
    case skip
    with "1.IH" "1.prems" show ?thesis
      by (simp add: next_subject.simps [of uuid disp s] Let_def)
  next
    case found
    have sub: "?subject \<in> set (cq_subjects s)" using found by simp
    show ?thesis
      using found "1.prems"(1) sub discovered_selected [OF "1.prems"(1)]
      by (simp add: next_subject.simps [of uuid disp s] Let_def step_inv
          step_command_connecting step_command_discovering)
  qed
qed

lemma start_sequence_inv:
  "conn_inv s \<Longrightarrow> conn_inv (fst (start_sequence uuid disp c s))"
  by (auto simp: start_sequence_def Let_def conn_inv_def [of s] intro!: next_subject_inv)

lemma expired_inv: "conn_inv s \<Longrightarrow> conn_inv (fst (expired token s))"
  by (auto simp: expired_def conn_inv_def)

section \<open>Preservation by the events\<close>

lemma forget_subject_data: "data_inv s \<Longrightarrow> data_inv (forget_subject x s)"
  by (auto simp: forget_subject_def data_defs)

lemma forget_subject_frame [simp]:
  "cq_active (forget_subject x s) = cq_active s"
  "cq_pending (forget_subject x s) = cq_pending s"
  "cq_timer (forget_subject x s) = cq_timer s"
  "cq_index (forget_subject x s) = cq_index s"
  "cq_subjects (forget_subject x s) = cq_subjects s"
  by (simp_all add: forget_subject_def)

lemma fold_forget_frame [simp]:
  "cq_active (fold forget_subject xs s) = cq_active s"
  "cq_pending (fold forget_subject xs s) = cq_pending s"
  "cq_timer (fold forget_subject xs s) = cq_timer s"
  "cq_index (fold forget_subject xs s) = cq_index s"
  "cq_subjects (fold forget_subject xs s) = cq_subjects s"
  by (induction xs arbitrary: s) simp_all

lemma fold_forget_inv: "conn_inv s \<Longrightarrow> conn_inv (fold forget_subject xs s)"
proof -
  have "data_inv s \<Longrightarrow> data_inv (fold forget_subject xs s)"
    by (induction xs arbitrary: s) (simp_all add: forget_subject_data)
  then show "conn_inv s \<Longrightarrow> conn_inv (fold forget_subject xs s)"
    by (simp add: conn_inv_def live_inv_def)
qed

lemma on_cleanup_complete_inv:
  "conn_inv s \<Longrightarrow> conn_inv (fst (on_cleanup_complete event payload s))"
  using fold_forget_inv [of s]
  by (auto simp: on_cleanup_complete_def Let_def conn_inv_def data_inv_no_pending
      split: option.splits)

lemma lose_sensors_inv:
  "conn_inv s \<Longrightarrow> conn_inv (fst (lose_sensors lost items s))"
proof (induction lost items s rule: lose_sensors.induct)
  case (1 lost s)
  then show ?case by simp
next
  case (2 lost sid addresses rest s)
  let ?s = "s\<lparr>cq_completed := cq_completed s - {sid}\<rparr>"
  have "conn_inv ?s" "conn_inv (?s\<lparr>cq_timer := None, cq_active := False\<rparr>)"
    using "2.prems" by (auto simp: conn_inv_def live_inv_def data_defs)
  with 2 show ?case
    by (auto simp: Let_def split: option.splits)
qed

lemma unsolicited_discovery_inv: "conn_inv s \<Longrightarrow> conn_inv (unsolicited_discovery results s)"
proof (induction results s rule: unsolicited_discovery.induct)
  case (1 s)
  then show ?case by simp
next
  case (2 result results s)
  have "conn_inv (s\<lparr>cq_completed := cq_completed s - {cs_subject_id x},
      cq_discovered := cq_discovered s - {cs_subject_id x},
      cq_selected := dput (cs_subject_id x) as (cq_selected s)\<rparr>)"
    if "find (\<lambda>x. VStr (cs_subject_id x) = vget result ''subject_id'') (cq_subjects s) = Some x"
    for x as
  proof -
    have "x \<in> set (cq_subjects s)" using that by (auto simp: find_Some_iff)
    with "2.prems" show ?thesis
      by (auto simp: conn_inv_def live_inv_def data_defs)
  qed
  with 2 show ?case by (auto simp: Let_def split: option.splits)
qed

lemma keep_partial_selection_inv:
  assumes "data_inv s" "cq_pending s = Some p"
  shows "data_inv (keep_partial_selection payload p s)"
  using assms by (auto simp: keep_partial_selection_def Let_def data_defs)

lemma keep_partial_selection_frame [simp]:
  "cq_active (keep_partial_selection payload p s) = cq_active s"
  "cq_pending (keep_partial_selection payload p s) = cq_pending s"
  "cq_index (keep_partial_selection payload p s) = cq_index s"
  "cq_subjects (keep_partial_selection payload p s) = cq_subjects s"
  "cq_timer (keep_partial_selection payload p s) = cq_timer s"
  "cq_discovered (keep_partial_selection payload p s) = cq_discovered s"
  "cq_completed (keep_partial_selection payload p s) = cq_completed s"
  "cq_uuids (keep_partial_selection payload p s) = cq_uuids s"
  "cq_sequence_id (keep_partial_selection payload p s) = cq_sequence_id s"
  by (simp_all add: keep_partial_selection_def Let_def)

text \<open>Accepting a discovery keeps the selections of the discovered subjects disjoint.\<close>

lemma accept_data:
  assumes inv: "data_inv s" and out: "set (selected_outside s {cs_subject_id x}) \<inter> set addrs = {}"
    and sub: "x \<in> set (cq_subjects s)"
  shows "data_inv (s\<lparr>cq_selected := dput (cs_subject_id x) addrs (cq_selected s),
          cq_discovered := insert (cs_subject_id x) (cq_discovered s), cq_pending := None\<rparr>)"
proof -
  have "distinct (dkeys (cq_selected s))" using inv by (simp add: data_inv_def)
  then have disj: "set addrs \<inter> set (dget_or (cq_selected s) b []) = {}"
    if "b \<noteq> cs_subject_id x" for b
    using out that by (auto simp: set_selected_outside)
  then have disj': "set (dget_or (cq_selected s) b []) \<inter> set addrs = {}"
    if "b \<noteq> cs_subject_id x" for b
    using that by (simp add: Int_commute)
  have "exclusive s" using inv by (simp add: data_inv_def)
  with disj disj' have "exclusive (s\<lparr>cq_selected := dput (cs_subject_id x) addrs (cq_selected s),
          cq_discovered := insert (cs_subject_id x) (cq_discovered s), cq_pending := None\<rparr>)"
    by (simp add: exclusive_def)
  with inv sub show ?thesis
    by (auto simp: data_inv_def pending_ok_def)
qed

lemma accept_discovery_data:
  assumes "data_inv s" "valid_discovery payload subject s" "subject \<in> set (cq_subjects s)"
  shows "data_inv (s\<lparr>cq_selected := dput (cs_subject_id subject)
            (discovered_addresses payload (cs_subject_id subject)) (cq_selected s),
          cq_discovered := insert (cs_subject_id subject) (cq_discovered s), cq_pending := None\<rparr>)"
  using assms by (intro accept_data) (simp_all add: valid_discovery_def Let_def)

lemma on_discovery_reply_inv:
  assumes "data_inv s" "subject \<in> set (cq_subjects s)" "cq_timer s = None"
    and "cq_active s \<longrightarrow> cq_index s < length (cq_subjects s) \<and> cq_subjects s ! cq_index s = subject"
  shows "conn_inv (fst (on_discovery_reply uuid disp payload subject s))"
proof (cases "valid_discovery payload subject s")
  case True
  let ?s = "s\<lparr>cq_selected := dput (cs_subject_id subject)
            (discovered_addresses payload (cs_subject_id subject)) (cq_selected s),
          cq_discovered := insert (cs_subject_id subject) (cq_discovered s), cq_pending := None\<rparr>"
  have d: "data_inv ?s" using accept_discovery_data [OF assms(1) True assms(2)] .
  have "conn_inv (fst (step uuid disp subject ''connecting'' ?s))"
    using assms d by (intro step_inv step_command_connecting) auto
  with True d show ?thesis by (simp add: on_discovery_reply_def Let_def conn_inv_def)
next
  case False
  with assms show ?thesis
    by (simp add: on_discovery_reply_def conn_inv_def data_inv_no_pending)
qed

lemma on_connection_reply_inv:
  assumes "data_inv s" "subject \<in> set (cq_subjects s)"
  shows "conn_inv (fst (on_connection_reply uuid disp payload subject s))"
proof -
  have "data_inv (s\<lparr>cq_completed := insert (cs_subject_id subject) (cq_completed s),
      cq_pending := None\<rparr>)" and "cq_subjects s \<noteq> []"
    using assms by (auto simp: data_defs)
  with assms show ?thesis
    by (auto simp: on_connection_reply_def Let_def conn_inv_def data_inv_no_pending
        next_subject_inv [unfolded conn_inv_def])
qed

lemma on_reply_inv: "conn_inv s \<Longrightarrow> conn_inv (fst (on_reply uuid disp event payload s))"
proof -
  assume inv: "conn_inv s"
  show "conn_inv (fst (on_reply uuid disp event payload s))"
  proof (cases "\<exists>p. cq_pending s = Some p \<and> reply_matches event payload p s")
    case True
    then obtain p where p: "cq_pending s = Some p" "reply_matches event payload p s" by blast
    let ?s = "keep_partial_selection payload p (s\<lparr>cq_timer := None\<rparr>)"
    have d: "data_inv ?s"
      using inv p by (intro keep_partial_selection_inv) (auto simp: conn_inv_def)
    have sub: "p_subject p \<in> set (cq_subjects ?s)"
      using inv p by (simp add: conn_inv_def data_inv_def pending_ok_def)
    have idx: "cq_active ?s \<longrightarrow> cq_index ?s < length (cq_subjects ?s) \<and>
        cq_subjects ?s ! cq_index ?s = p_subject p"
      using inv p by (simp add: conn_inv_def live_inv_def)
    have "conn_inv (fst (on_discovery_reply uuid disp payload (p_subject p) ?s))"
      using d sub idx by (intro on_discovery_reply_inv) simp_all
    moreover have "conn_inv (fst (on_connection_reply uuid disp payload (p_subject p) ?s))"
      using d sub by (rule on_connection_reply_inv)
    moreover have "conn_inv (fst (reject_reply m ?s))" for m
      using d by (simp add: conn_inv_def data_inv_no_pending)
    ultimately show ?thesis
      using p by (simp add: on_reply_def Let_def del: fst_reject_reply)
  next
    case False
    with inv show ?thesis by (auto simp: on_reply_def split: option.splits)
  qed
qed

lemma on_event_inv: "conn_inv s \<Longrightarrow> conn_inv (fst (on_event uuid disp event s))"
  by (auto simp: on_event_def Let_def on_sensor_disconnected_def
      intro!: on_reply_inv on_cleanup_complete_inv lose_sensors_inv unsolicited_discovery_inv)
    (auto simp: conn_inv_def)

lemma conn_step_inv: "conn_inv s \<Longrightarrow> conn_inv (fst (conn_step uuid disp i s))"
  by (cases i) (simp_all add: start_sequence_inv expired_inv on_event_inv conn_inv_configure del: fst_configure)

lemma conn_run_inv: "conn_inv s \<Longrightarrow> conn_inv (fst (conn_run uuid disp is s))"
  by (induction "is" arbitrary: s) (simp_all add: conn_step_inv)

section \<open>No internal exception\<close>

definition no_raise :: "effect list \<Rightarrow> bool" where
  "no_raise es \<longleftrightarrow> (\<forall>m. Raised m \<notin> set es)"

lemma no_raise_simps [simp]:
  "no_raise []" "no_raise (Raised m # es) = False"
  "no_raise (Emit v # es) = no_raise es" "no_raise (Dispatch n c p # es) = no_raise es"
  "no_raise (TimerStart t k # es) = no_raise es" "no_raise (TimerCancel t # es) = no_raise es"
  "no_raise (es @ es') = (no_raise es \<and> no_raise es')"
  by (auto simp: no_raise_def)

lemma no_raise_quiet: "(\<And>e. e \<in> set es \<Longrightarrow> quiet_effect e) \<Longrightarrow> no_raise es"
  by (metis no_raise_def quiet_effect_simps(5))

lemma no_raise_blocks [simp]:
  "no_raise (snd (cancel_timer s))" "no_raise (snd (progress ph x ex s))"
  "no_raise (snd (fail_step m x op s))" "no_raise (snd (reject_reply m s))"
  by (simp_all add: no_raise_quiet)

lemma no_raise_identify [simp]: "no_raise (snd (identify uuid disp subject s))"
  by (simp add: identify_def Let_def split: option.splits)

lemma no_raise_step:
  assumes "step_ready subject operation s"
  shows "no_raise (snd (step uuid disp subject operation s))"
proof -
  have "step_command subject operation (s\<lparr>cq_uuids := a, cq_pending := b\<rparr>) =
      step_command subject operation s" for a b
    by (simp add: step_command_def exclusions_def selected_outside_def Let_def
        cong: if_cong option.case_cong)
  with assms [unfolded step_ready_def] obtain command extra where
    "step_command subject operation (s\<lparr>cq_uuids := a, cq_pending := b\<rparr>) = Some (command, extra)" for a b
    by auto
  then show ?thesis by (simp add: step_def Let_def split: option.split)
qed

lemma no_raise_next_subject:
  assumes "data_inv s" and "cq_subjects s \<noteq> []"
  shows "no_raise (snd (next_subject uuid disp s))"
  using assms
proof (induction uuid disp s rule: next_subject.induct)
  case (1 uuid disp s)
  let ?sid = "cs_subject_id (cq_subjects s ! cq_index s)"
  have "step_ready (cq_subjects s ! cq_index s)
      (if ?sid \<in> cq_discovered s then ''connecting'' else ''discovering'') s"
    using "1.prems"(1) discovered_selected [OF "1.prems"(1)]
    by (simp add: step_command_connecting step_command_discovering)
  from no_raise_step [OF this] 1 show ?case
    by (subst next_subject.simps) (simp add: Let_def)
qed

lemma no_raise_lose_sensors:
  assumes "fst ` set items \<subseteq> cs_subject_id ` set (cq_subjects s)"
  shows "no_raise (snd (lose_sensors lost items s))"
  using assms
proof (induction lost items s rule: lose_sensors.induct)
  case (1 lost s)
  then show ?case by simp
next
  case (2 lost sid addresses rest s)
  have "find (\<lambda>x. cs_subject_id x = sid) (cq_subjects s) \<noteq> None"
    using "2.prems" by (auto simp: find_None_iff)
  with 2 show ?case by (auto simp: Let_def split: option.splits)
qed

lemma no_raise_on_reply:
  assumes inv: "conn_inv s"
  shows "no_raise (snd (on_reply uuid disp event payload s))"
proof (cases "\<exists>p. cq_pending s = Some p \<and> reply_matches event payload p s")
  case True
  then obtain p where p: "cq_pending s = Some p" "reply_matches event payload p s" by blast
  let ?s = "keep_partial_selection payload p (s\<lparr>cq_timer := None\<rparr>)"
  have d: "data_inv ?s"
    using inv p by (intro keep_partial_selection_inv) (auto simp: conn_inv_def)
  have sub: "p_subject p \<in> set (cq_subjects ?s)"
    using inv p by (simp add: conn_inv_def data_inv_def pending_ok_def)
  have "no_raise (snd (on_discovery_reply uuid disp payload (p_subject p) ?s))"
    using accept_discovery_data [OF d _ sub]
    by (auto simp: on_discovery_reply_def Let_def intro!: no_raise_step step_command_connecting)
  moreover have "no_raise (snd (on_connection_reply uuid disp payload (p_subject p) ?s))"
    using d sub by (auto simp: on_connection_reply_def Let_def data_defs intro!: no_raise_next_subject)
  ultimately show ?thesis using p by (simp add: on_reply_def Let_def)
next
  case False
  then show ?thesis by (auto simp: on_reply_def split: option.splits)
qed

lemma no_raise_on_event:
  assumes inv: "conn_inv s"
  shows "no_raise (snd (on_event uuid disp event s))"
proof -
  have "no_raise (snd (on_cleanup_complete event payload s))" for payload
    by (auto simp: on_cleanup_complete_def Let_def split: option.splits)
  moreover have "no_raise (snd (on_sensor_disconnected payload s))" for payload
    using inv unfolding on_sensor_disconnected_def
    by (intro no_raise_lose_sensors) (simp add: conn_inv_def data_inv_def)
  moreover have "no_raise (snd (on_reply uuid disp event payload s))"
    "no_raise (snd (on_reply uuid disp event payload (unsolicited_discovery rs s)))" for payload rs
    using inv by (simp_all add: no_raise_on_reply unsolicited_discovery_inv)
  ultimately show ?thesis by (simp add: on_event_def Let_def)
qed

definition unconfigured_error :: string where
  "unconfigured_error = ''No configured subjects for Connect All''"

lemma conn_step_raises:
  assumes "conn_inv s" and "Raised m \<in> set (snd (conn_step uuid disp i s))"
  shows "m = unconfigured_error"
proof (cases i)
  case (Configure subjects)
  have "no_raise (snd (conn_step uuid disp i s))" by (simp add: Configure configure_def)
  with assms show ?thesis by (auto simp: no_raise_def)
next
  case (Start c)
  with assms show ?thesis
    using no_raise_next_subject unfolding unconfigured_error_def
    by (fastforce simp: start_sequence_def Let_def conn_inv_def no_raise_def split: if_splits)
next
  case (Event event)
  with assms no_raise_on_event show ?thesis by (auto simp: no_raise_def)
next
  case (Expire token)
  have "no_raise (snd (conn_step uuid disp i s))" by (simp add: Expire expired_def)
  with assms show ?thesis by (auto simp: no_raise_def)
qed

lemma conn_run_raises:
  "conn_inv s \<Longrightarrow> Raised m \<in> set (snd (conn_run uuid disp is s)) \<Longrightarrow> m = unconfigured_error"
  by (induction "is" arbitrary: s) (auto dest: conn_step_raises conn_step_inv)

section \<open>A stopped sequence does not move\<close>

lemma inactive_lose_sensors:
  "\<not> cq_active s \<Longrightarrow> snd (lose_sensors lost items s) = [] \<and>
     \<not> cq_active (fst (lose_sensors lost items s)) \<and>
     cq_index (fst (lose_sensors lost items s)) = cq_index s"
  by (induction lost items s rule: lose_sensors.induct) (auto simp: Let_def)

lemma unsolicited_discovery_frame [simp]:
  "cq_active (unsolicited_discovery rs s) = cq_active s"
  "cq_index (unsolicited_discovery rs s) = cq_index s"
  "cq_pending (unsolicited_discovery rs s) = cq_pending s"
  "cq_subjects (unsolicited_discovery rs s) = cq_subjects s"
  by (induction rs s rule: unsolicited_discovery.induct) (auto simp: Let_def split: option.splits)

lemma inactive_on_reply:
  "\<not> cq_active s \<Longrightarrow> \<not> cq_active (fst (on_reply uuid disp event payload s)) \<and>
     cq_index (fst (on_reply uuid disp event payload s)) = cq_index s \<and>
     (\<forall>e \<in> set (snd (on_reply uuid disp event payload s)). quiet_effect e)"
  by (auto simp: on_reply_def on_discovery_reply_def on_connection_reply_def Let_def
      split: option.splits)

lemma inactive_on_event:
  assumes "\<not> cq_active s"
  shows "\<not> cq_active (fst (on_event uuid disp event s)) \<and>
     cq_index (fst (on_event uuid disp event s)) = cq_index s \<and>
     (\<forall>e \<in> set (snd (on_event uuid disp event s)). quiet_effect e)"
proof -
  have "\<not> cq_active (unsolicited_discovery rs s)" for rs using assms by simp
  note r = inactive_on_reply [OF assms] inactive_on_reply [OF this]
  show ?thesis
    using assms r
    by (auto simp: on_event_def Let_def on_cleanup_complete_def on_sensor_disconnected_def
        inactive_lose_sensors split: option.splits)
qed

section \<open>Completion\<close>

text \<open>
  A node that carries out its step answers with the terminal event of the operation. \<open>addr\<close>
  says which addresses it finds for a subject; \<open>answer\<close> is the event for the step that is
  outstanding, and \<open>drive\<close> lets the nodes answer \<open>n\<close> times in a row.
\<close>

definition sensor_report :: "string \<Rightarrow> val \<Rightarrow> val" where
  "sensor_report address location = VDict [(''address'', VStr address), (''location'', location),
     (''status'', VStr ''CONNECTED''), (''setup_complete'', VBool True)]"

definition subject_report :: "string list \<Rightarrow> pending_step \<Rightarrow> val" where
  "subject_report addrs p = VDict [(''subject_id'', VStr (cs_subject_id (p_subject p))),
     (if p_operation p = ''discovering'' then (''discovered_sensors'', strs addrs)
      else (''connected_sensors'', VList (map2 sensor_report addrs (cs_locations (p_subject p)))))]"

definition answer :: "(string \<Rightarrow> string list) \<Rightarrow> conn_seq \<Rightarrow> val" where
  "answer addr s = (case cq_pending s of None \<Rightarrow> VNone | Some p \<Rightarrow>
     VDict [(''type'', VStr (if p_operation p = ''discovering'' then EVT_SENSORS_DISCOVERED
                             else EVT_SENSOR_CONNECTED)),
            (''payload'', VDict [(''correlation_id'', VStr (p_token p)),
               (''connection_sequence_id'', cq_sequence_id s),
               (''node_id'', VStr (cs_node_id (p_subject p))),
               (''operation_complete'', VBool True),
               (''subjects'', VList [subject_report (addr (cs_subject_id (p_subject p))) p])])])"

fun drive :: "uuid_source \<Rightarrow> dispatcher \<Rightarrow> (string \<Rightarrow> string list) \<Rightarrow> nat \<Rightarrow> conn_seq \<Rightarrow> conn_seq" where
  "drive uuid disp addr 0 s = s"
| "drive uuid disp addr (Suc n) s = drive uuid disp addr n (fst (on_event uuid disp (answer addr s) s))"

definition good_addresses :: "(string \<Rightarrow> string list) \<Rightarrow> csubject list \<Rightarrow> bool" where
  "good_addresses addr subs \<longleftrightarrow> distinct (map cs_subject_id subs) \<and>
     (\<forall>x \<in> set subs. length (addr (cs_subject_id x)) = length (cs_locations x) \<and>
        distinct (addr (cs_subject_id x)) \<and>
        (\<forall>a \<in> set (addr (cs_subject_id x)). a \<noteq> [] \<and> normalized (VStr a) = a)) \<and>
     (\<forall>x \<in> set subs. \<forall>y \<in> set subs. cs_subject_id x \<noteq> cs_subject_id y \<longrightarrow>
        set (addr (cs_subject_id x)) \<inter> set (addr (cs_subject_id y)) = {})"

text \<open>The state after the first \<open>i\<close> subjects are connected.\<close>

definition done_upto :: "(string \<Rightarrow> string list) \<Rightarrow> csubject list \<Rightarrow> nat \<Rightarrow> conn_seq \<Rightarrow> bool" where
  "done_upto addr subs i s \<longleftrightarrow> data_inv s \<and> cq_subjects s = subs \<and> cq_index s = i \<and> i \<le> length subs \<and>
     truthy (cq_sequence_id s) \<and>
     cq_completed s = cs_subject_id ` set (take i subs) \<and>
     cq_discovered s = cs_subject_id ` set (take i subs) \<and>
     (\<forall>sid. dget_or (cq_selected s) sid [] = (if sid \<in> cs_subject_id ` set (take i subs) then addr sid else []))"

definition waiting :: "(string \<Rightarrow> string list) \<Rightarrow> csubject list \<Rightarrow> nat \<Rightarrow> conn_seq \<Rightarrow> bool" where
  "waiting addr subs i s \<longleftrightarrow> done_upto addr subs i s \<and> i < length subs \<and> cq_active s \<and>
     (\<exists>token. cq_pending s = Some \<lparr>p_token = token, p_subject = subs ! i, p_operation = ''discovering''\<rparr>)"

definition finished :: "csubject list \<Rightarrow> conn_seq \<Rightarrow> bool" where
  "finished subs s \<longleftrightarrow> \<not> busy s \<and> cq_completed s = cs_subject_id ` set subs"

lemma id_not_in_take:
  "distinct (map cs_subject_id subs) \<Longrightarrow> i < length subs \<Longrightarrow>
   cs_subject_id (subs ! i) \<notin> cs_subject_id ` set (take i subs)"
  by (auto simp: in_set_conv_nth distinct_conv_nth)

lemma next_subject_waiting:
  assumes "done_upto addr subs i s" "distinct (map cs_subject_id subs)" "subs \<noteq> []"
    and "cq_active s" "cq_pending s = None" "\<And>n c p. disp n c p = None"
  shows "if i < length subs then waiting addr subs i (fst (next_subject uuid disp s))
         else finished subs (fst (next_subject uuid disp s))"
proof (cases "i < length subs")
  case True
  let ?t = "s\<lparr>cq_uuids := Suc (cq_uuids s),
      cq_pending := Some \<lparr>p_token = uuid (cq_uuids s), p_subject = subs ! i, p_operation = ''discovering''\<rparr>,
      cq_timer := Some (uuid (cq_uuids s), step_timeout (subs ! i))\<rparr>"
  have "fst (next_subject uuid disp s) = ?t"
    using assms True id_not_in_take [of subs i]
    by (subst next_subject.simps) (simp add: done_upto_def Let_def step_def step_command_def)
  moreover have "data_inv ?t"
    using assms True id_not_in_take [of subs i] by (simp add: done_upto_def data_inv_set_pending)
  ultimately show ?thesis using assms True by (simp add: waiting_def done_upto_def)
next
  case False
  with assms show ?thesis
    by (subst next_subject.simps) (auto simp: done_upto_def finished_def busy_def)
qed

lemma normalized_strs:
  "(\<And>a. a \<in> set xs \<Longrightarrow> normalized (VStr a) = a) \<Longrightarrow> map (normalized \<circ> VStr) xs = xs"
  by (simp add: map_idI)

text \<open>The answers as the workflow reads them.\<close>

lemma answer_reads:
  assumes p: "cq_pending s = Some p" and ok: "\<And>a. a \<in> set addrs \<Longrightarrow> normalized (VStr a) = a"
    and op: "p_operation p \<in> {''discovering'', ''connecting''}"
    and addrs: "addrs = addr (cs_subject_id (p_subject p))"
  shows "is_dict (vget (answer addr s) ''payload'')"
    "vget (answer addr s) ''type'' = VStr (if p_operation p = ''discovering''
       then EVT_SENSORS_DISCOVERED else EVT_SENSOR_CONNECTED)"
    "vget (vget (answer addr s) ''payload'') ''connection_sequence_id'' = cq_sequence_id s"
    "reply_matches (answer addr s) (vget (answer addr s) ''payload'') p s"
    "reply_complete (vget (answer addr s) ''payload'') (cs_subject_id (p_subject p))"
    "keep_partial_selection (vget (answer addr s) ''payload'') p t = t"
    "p_operation p = ''discovering'' \<Longrightarrow>
     discovered_addresses (vget (answer addr s) ''payload'') (cs_subject_id (p_subject p)) = addrs"
    "p_operation p = ''connecting'' \<Longrightarrow>
     connected_sensors (vget (answer addr s) ''payload'') (cs_subject_id (p_subject p)) =
       map2 sensor_report addrs (cs_locations (p_subject p))"
  using p op ok unfolding addrs
  by (auto simp: answer_def reply_matches_def reply_complete_def reply_results_def val_simps
      keep_partial_selection_def discovered_addresses_def connected_sensors_def subject_report_def
      strs_def normalized_strs comp_def map_idI)

lemma sensor_report_reads [simp]:
  "vget (sensor_report a l) ''address'' = VStr a" "vget (sensor_report a l) ''location'' = l"
  "vget (sensor_report a l) ''status'' = VStr ''CONNECTED''"
  "vget (sensor_report a l) ''setup_complete'' = VBool True"
  by (simp_all add: sensor_report_def val_simps)

lemma map2_reports:
  assumes "length addrs = length locs" "\<And>a. a \<in> set addrs \<Longrightarrow> normalized (VStr a) = a"
  shows "map (\<lambda>x. normalized (vget x ''address'')) (map2 sensor_report addrs locs) = addrs"
    "map (\<lambda>x. (normalized (vget x ''address''), vget x ''location'')) (map2 sensor_report addrs locs) =
       zip addrs locs"
  using assms by (induction addrs locs rule: list_induct2) auto

lemma waiting_outside:
  assumes w: "waiting addr subs i s" and g: "good_addresses addr subs"
    and "cq_selected t = cq_selected s"
  shows "set (selected_outside t {cs_subject_id (subs ! i)}) \<inter> set (addr (cs_subject_id (subs ! i))) = {}"
proof -
  have "subs ! i \<in> set subs" "distinct (dkeys (cq_selected s))"
    using w by (simp_all add: waiting_def done_upto_def data_inv_def)
  with assms in_set_takeD [of _ i subs] show ?thesis
    by (fastforce simp: set_selected_outside waiting_def done_upto_def good_addresses_def)
qed

lemma waiting_discovered:
  assumes w: "waiting addr subs i s" and g: "good_addresses addr subs"
    and d: "\<And>n c p. disp n c p = None"
  shows "fst (on_event uuid disp (answer addr s) s) =
    (let sid = cs_subject_id (subs ! i); token = uuid (cq_uuids s) in
     s\<lparr>cq_selected := dput sid (addr sid) (cq_selected s),
       cq_discovered := insert sid (cq_discovered s), cq_uuids := Suc (cq_uuids s),
       cq_pending := Some \<lparr>p_token = token, p_subject = subs ! i, p_operation = ''connecting''\<rparr>,
       cq_timer := Some (token, step_timeout (subs ! i))\<rparr>)"
proof -
  obtain token where p: "cq_pending s =
      Some \<lparr>p_token = token, p_subject = subs ! i, p_operation = ''discovering''\<rparr>"
    using w by (auto simp: waiting_def)
  let ?sub = "subs ! i" and ?pl = "vget (answer addr s) ''payload''"
  have sub: "?sub \<in> set subs" using w by (simp add: waiting_def)
  have reads: "reply_complete ?pl (cs_subject_id ?sub)"
    "discovered_addresses ?pl (cs_subject_id ?sub) = addr (cs_subject_id ?sub)"
    "is_dict ?pl" "vget (answer addr s) ''type'' = VStr EVT_SENSORS_DISCOVERED"
    "vget ?pl ''connection_sequence_id'' = cq_sequence_id s"
    "keep_partial_selection ?pl (the (cq_pending s)) t = t"
    "reply_matches (answer addr s) ?pl (the (cq_pending s)) s" for t
    using answer_reads [OF p _ _ refl] sub g by (auto simp: good_addresses_def p)
  have valid: "valid_discovery ?pl ?sub (s\<lparr>cq_timer := None\<rparr>)"
    using reads sub g waiting_outside [OF w g, of "s\<lparr>cq_timer := None\<rparr>"]
    by (auto simp: valid_discovery_def Let_def good_addresses_def)
  have "truthy (cq_sequence_id s)" "cq_active s" using w by (auto simp: waiting_def done_upto_def)
  then show ?thesis
    using reads valid p d
    by (simp add: on_event_def Let_def on_reply_def on_discovery_reply_def step_def step_command_def)
qed

lemma connecting_answered:
  assumes w: "waiting addr subs i s" and g: "good_addresses addr subs"
    and d: "\<And>n c p. disp n c p = None"
    and t: "t = fst (on_event uuid disp (answer addr s) s)"
  shows "\<exists>u. done_upto addr subs (Suc i) u \<and> cq_active u \<and> cq_pending u = None \<and>
    fst (on_event uuid disp (answer addr t) t) = fst (next_subject uuid disp u)"
proof -
  let ?sub = "subs ! i" and ?pl = "vget (answer addr t) ''payload''"
  let ?sid = "cs_subject_id ?sub"
  note t_def = t [unfolded waiting_discovered [OF w g d] Let_def]
  have p: "cq_pending t = Some \<lparr>p_token = uuid (cq_uuids s), p_subject = ?sub,
      p_operation = ''connecting''\<rparr>" by (simp add: t_def)
  have i: "i < length subs" and sub: "?sub \<in> set subs" using w by (auto simp: waiting_def)
  have ok: "length (addr ?sid) = length (cs_locations ?sub)" "distinct (addr ?sid)"
    "\<And>a. a \<in> set (addr ?sid) \<Longrightarrow> normalized (VStr a) = a"
    using g sub by (auto simp: good_addresses_def)
  have reads: "reply_complete ?pl ?sid"
    "connected_sensors ?pl ?sid = map2 sensor_report (addr ?sid) (cs_locations ?sub)"
    "is_dict ?pl" "vget (answer addr t) ''type'' = VStr EVT_SENSOR_CONNECTED"
    "keep_partial_selection ?pl (the (cq_pending t)) v = v"
    "reply_matches (answer addr t) ?pl (the (cq_pending t)) t" for v
    using answer_reads [OF p _ _ refl] ok by (auto simp: p)
  have sel: "dget_or (cq_selected t) ?sid [] = addr ?sid" by (simp add: t_def)
  have "vget x ''status'' = VStr ''CONNECTED'' \<and> vget x ''setup_complete'' = VBool True"
    if "x \<in> set (map2 sensor_report (addr ?sid) (cs_locations ?sub))" for x
    using that by auto
  then have valid: "valid_connection ?pl ?sub (t\<lparr>cq_timer := None\<rparr>)"
    using reads(1) ok(1,2) map2_reports [OF ok(1,3)]
    by (simp add: valid_connection_def Let_def sel reads(2)
        del: map_map set_map mset_map list.map_comp list.set_map)
  let ?u = "t\<lparr>cq_timer := None, cq_completed := insert ?sid (cq_completed t), cq_pending := None,
      cq_uuids := Suc (cq_uuids t), cq_index := Suc (cq_index t)\<rparr>"
  have act: "cq_active t" using w by (simp add: t_def waiting_def)
  have on_event_t: "fst (on_event uuid disp (answer addr t) t) = fst (next_subject uuid disp ?u)"
    using reads valid p act
    by (simp add: on_event_def Let_def on_reply_def on_connection_reply_def)
  have "cs_subject_id ` set (take (Suc i) subs) = insert ?sid (cs_subject_id ` set (take i subs))"
    using i by (simp add: take_Suc_conv_app_nth)
  moreover have "data_inv ?u"
  proof (rule data_inv_cong)
    show "data_inv (s\<lparr>cq_selected := dput ?sid (addr ?sid) (cq_selected s),
        cq_discovered := insert ?sid (cq_discovered s), cq_pending := None\<rparr>)"
      using w waiting_outside [OF w g, of s] sub
      by (intro accept_data) (simp_all add: waiting_def done_upto_def)
    show "cq_completed ?u \<subseteq> cs_subject_id ` set (cq_subjects (s\<lparr>cq_selected := dput ?sid (addr ?sid) (cq_selected s),
        cq_discovered := insert ?sid (cq_discovered s), cq_pending := None\<rparr>))"
      using w sub by (auto simp: t_def waiting_def done_upto_def data_inv_def)
  qed (simp_all add: t_def)
  ultimately have "done_upto addr subs (Suc i) ?u"
    using w i by (simp add: done_upto_def waiting_def t_def)
  moreover note on_event_t
  ultimately show ?thesis using act by (intro exI [of _ ?u]) simp
qed

lemma drive_completes:
  assumes "waiting addr subs i s" "good_addresses addr subs" "\<And>n c p. disp n c p = None"
    and "k = length subs - i"
  shows "finished subs (drive uuid disp addr (2 * k) s)"
  using assms
proof (induction k arbitrary: i s)
  case 0
  then show ?case by (simp add: waiting_def)
next
  case (Suc k)
  define t where "t = fst (on_event uuid disp (answer addr s) s)"
  obtain u where u: "done_upto addr subs (Suc i) u" "cq_active u" "cq_pending u = None"
    "fst (on_event uuid disp (answer addr t) t) = fst (next_subject uuid disp u)"
    using connecting_answered [OF Suc.prems(1-3) t_def] by blast
  have two: "drive uuid disp addr (2 * Suc k) s =
      drive uuid disp addr (2 * k) (fst (next_subject uuid disp u))"
    using u(4) by (simp add: t_def)
  have dist: "distinct (map cs_subject_id subs)" and ne: "subs \<noteq> []"
    using Suc.prems by (auto simp: good_addresses_def waiting_def)
  show ?case
  proof (cases "Suc i < length subs")
    case True
    have "waiting addr subs (Suc i) (fst (next_subject uuid disp u))"
      using True next_subject_waiting [OF u(1) dist ne u(2,3) Suc.prems(3), of uuid] by simp
    then show ?thesis
      unfolding two using Suc.prems by (intro Suc.IH [of "Suc i"]) simp_all
  next
    case False
    then have "k = 0" using Suc.prems by simp
    with False next_subject_waiting [OF u(1) dist ne u(2,3) Suc.prems(3)] two
    show ?thesis by simp
  qed
qed

lemma start_waiting:
  assumes "good_addresses addr subs" "subs \<noteq> []" "\<And>n. uuid n \<noteq> []" "\<And>n c p. disp n c p = None"
  shows "waiting addr subs 0 (fst (start_sequence uuid disp c (fst (configure subs s))))"
proof -
  let ?s = "fst (configure subs s)"
  let ?m = "if truthy c then cq_uuids ?s else Suc (cq_uuids ?s)"
  let ?u = "?s\<lparr>cq_correlation_id := py_or c (VStr (uuid (cq_uuids ?s))),
      cq_sequence_id := VStr (uuid ?m), cq_uuids := Suc ?m, cq_active := True, cq_index := 0\<rparr>"
  have "fst (start_sequence uuid disp c ?s) = fst (next_subject uuid disp ?u)"
    using assms(2) by (simp add: start_sequence_def busy_def Let_def)
  moreover have "done_upto addr subs 0 ?u"
    using assms by (auto simp: done_upto_def data_defs dget_or_def)
  ultimately show ?thesis
    using next_subject_waiting [of addr subs 0 ?u disp uuid] assms
    by (simp add: good_addresses_def)
qed

section \<open>Properties\<close>


text \<open>No internal exception. The only exception that can leave the object, over any run, is
  the refusal of Connect All without configured subjects: the lookup of a selection when a
  connect step is built, the search for a lost subject and the last subject of the final
  report never fail.\<close>

theorem connect_all_raises_only_unconfigured:
  assumes "Raised m \<in> set (snd (conn_run uuid disp is init_conn_seq))"
  shows "m = unconfigured_error"
  using conn_inv_init assms by (rule conn_run_raises)

theorem connect_all_raises_only_unconfigured_witness:
  "Raised unconfigured_error \<in> set (snd (conn_run (\<lambda>n. ''t'') (\<lambda>_ _ _. None) [Start VNone] init_conn_seq)) \<and>
   unconfigured_error = ''No configured subjects for Connect All''"
proof -
  have "Raised ''No configured subjects for Connect All'' \<in>
      set (snd (conn_run (\<lambda>n. ''t'') (\<lambda>_ _ _. None) [Start VNone] init_conn_seq))"
    by (simp add: start_sequence_def busy_def init_conn_seq_def)
  with connect_all_raises_only_unconfigured [OF this] show ?thesis by simp
qed

text \<open>A late reply never advances a sequence. While the sequence is inactive (failed,
  interrupted, timed out or finished) no event of any kind starts a step: nothing is
  dispatched, no timer is started, no exception is raised, the position is kept and the
  sequence stays inactive.\<close>

theorem late_events_never_advance:
  assumes "\<not> cq_active s"
  shows "\<not> cq_active (fst (on_event uuid disp event s)) \<and>
     cq_index (fst (on_event uuid disp event s)) = cq_index s \<and>
     (\<forall>e \<in> set (snd (on_event uuid disp event s)). quiet_effect e)"
  using assms by (rule inactive_on_event)

definition demo_subjects :: "csubject list" where
  "demo_subjects =
     [\<lparr>cs_subject_id = ''s1'', cs_node_id = ''master'', cs_locations = [VStr ''left'', VStr ''right'']\<rparr>,
      \<lparr>cs_subject_id = ''s2'', cs_node_id = ''worker'', cs_locations = [VStr ''back'']\<rparr>]"

definition demo_addr :: "string \<Rightarrow> string list" where
  "demo_addr sid = (if sid = ''s1'' then [''AA:01'', ''AA:02''] else [''BB:07''])"

definition demo_uuid :: uuid_source where
  "demo_uuid n = replicate (Suc n) CHR ''u''"

theorem late_events_never_advance_witness:
  "\<exists>s. cq_pending s \<noteq> None \<and> \<not> cq_active s \<and>
     \<not> cq_active (fst (on_event demo_uuid (\<lambda>_ _ _. None) (answer demo_addr s) s)) \<and>
     cq_completed (fst (on_event demo_uuid (\<lambda>_ _ _. None) (answer demo_addr s) s)) = {''s1''}"
proof -
  define s where "s = init_conn_seq\<lparr>cq_subjects := demo_subjects, cq_sequence_id := VStr ''q'',
     cq_selected := [(''s1'', demo_addr ''s1'')], cq_discovered := {''s1''},
     cq_pending := Some \<lparr>p_token = ''t'', p_subject = demo_subjects ! 0, p_operation = ''connecting''\<rparr>\<rparr>"
  have "\<not> cq_active s" by (simp add: s_def init_conn_seq_def)
  moreover have "cq_completed (fst (on_event demo_uuid (\<lambda>_ _ _. None) (answer demo_addr s) s)) = {''s1''}"
    by (simp add: s_def init_conn_seq_def) code_simp
  ultimately show ?thesis
    using late_events_never_advance [of s demo_uuid "\<lambda>_ _ _. None" "answer demo_addr s"]
    by (intro exI [of _ s]) (simp add: s_def)
qed



end
