(* ===== verification/Master_Props.thy ===== *)
theory Master_Props
  imports Master_Node Connection_Sequence_Props
begin

text \<open>
  Correctness of the coordinator, by the calculus of \<open>Actions\<close>. Invariants over whole runs follow
  from one lemma per method. The locale
  \<open>barrier\<close> states what the official-start and the drain barrier share.
\<close>

text \<open>An invariant of every input is an invariant of every run, together with its effects.\<close>

lemma ok_run:
  assumes "\<And>e i s. I s \<Longrightarrow> ok I P (master_input e i) s" and "I s"
  shows "I (fst (master_run xs s)) \<and> (\<forall>f \<in> set (snd (master_run xs s)). P f)"
  using assms(2)
proof (induction xs arbitrary: s)
  case (Cons ei xs)
  obtain e i where ei: "ei = (e, i)" by (cases ei)
  obtain s' es x where st: "master_input e i s = (s', es, x)" by (cases "master_input e i s")
  from assms(1) [OF Cons.prems, of e i] st have "I s'" "\<forall>f \<in> set es. P f" by (auto simp: ok_def)
  with Cons.IH [of s'] st ei show ?case by (auto split: prod.splits)
qed simp

section \<open>Sending keeps the state\<close>

text \<open>The effects of delivering commands, and the events that carry only an error.\<close>

fun sending :: "meffect \<Rightarrow> bool" where
  "sending (MSend _ _) = True"
| "sending (MLocal _ _) = True"
| "sending _ = False"

fun error_event :: "meffect \<Rightarrow> bool" where
  "error_event (MEmit v) = (vget v ''type'' = VStr EVT_ERROR)"
| "error_event _ = False"

text \<open>What an invariant needs to be kept by everything that only sends: the effects it watches do
  not include deliveries and error reports.\<close>

locale state_keeping =
  fixes I :: "master \<Rightarrow> bool"
    and P :: "meffect \<Rightarrow> bool"
  assumes allows_sending: "sending x \<Longrightarrow> P x"
    and allows_errors: "error_event x \<Longrightarrow> P x"
begin

lemma ok_send_multipart: "I s \<Longrightarrow> ok I P (send_multipart e i m) s"
  by (auto simp: send_multipart_def ok_simps allows_sending split: option.splits)

lemma ok_send_command: "I s \<Longrightarrow> ok I P (send_command e m t) s"
  by (auto simp: send_command_def send_to_def ok_simps Let_def
      intro!: ok_for_each ok_send_multipart split: option.splits)

lemma ok_handle_local: "I s \<Longrightarrow> ok I P (handle_local e t p) s"
  by (auto simp: handle_local_def ok_simps allows_sending split: option.splits)

lemma ok_deliver: "I s \<Longrightarrow> ok I P (deliver e t n p) s"
  by (auto simp: deliver_def ok_simps intro: ok_handle_local ok_send_command)

lemma ok_emit_error: "I s \<Longrightarrow> ok I P (emit e (event EVT_ERROR pl)) s"
  by (auto simp: emit_def event_def ok_simps vget_VDict intro!: allows_errors)

lemma ok_emit_node_error: "I s \<Longrightarrow> ok I P (emit e (node_event EVT_ERROR pl)) s"
  by (auto simp: emit_def node_event_def ok_simps vget_VDict intro!: allows_errors)

lemma ok_emit_dispatch_error: "I s \<Longrightarrow> ok I P (emit_dispatch_error e m p) s"
  by (simp add: emit_dispatch_error_def ok_emit_error)

lemma ok_identify_sensor: "I s \<Longrightarrow> ok I P (identify_sensor e m p) s"
  by (auto simp: identify_sensor_def ok_simps Let_def
      intro: ok_handle_local ok_send_command ok_emit_dispatch_error split: option.splits)

lemma ok_update_file_path: "I s \<Longrightarrow> ok I P (update_file_path e p) s"
  by (auto simp: update_file_path_def ok_simps intro!: ok_seq ok_handle_local ok_for_each ok_send_command)

lemma ok_fan_out: "I s \<Longrightarrow> ok I P (fan_out e t b d) s"
  by (auto simp: fan_out_def ok_simps intro!: ok_seq ok_for_each ok_deliver ok_send_command ok_handle_local
      split: option.splits)

lemma ok_reject: "I s \<Longrightarrow> ok I P (reject_initialization e c err) s"
  by (simp add: reject_initialization_def ok_simps ok_emit_error)

lemma ok_dispatch_initialization: "I s \<Longrightarrow> ok I P (dispatch_initialization e pl r ns) s"
  by (auto simp: dispatch_initialization_def ok_simps intro!: ok_for_each ok_handle_local ok_send_command)

lemmas ok_sending = ok_send_multipart ok_send_command ok_handle_local ok_deliver ok_emit_error
  ok_emit_node_error ok_emit_dispatch_error ok_identify_sensor ok_update_file_path ok_fan_out
  ok_reject ok_dispatch_initialization

end

section \<open>From handlers to runs\<close>

text \<open>The interface between the handlers and the coordinator: an invariant that each handler keeps
  is kept by every input, and so by every run.\<close>

locale coordinator_invariant = state_keeping +
  assumes keeps_uuids: "I s \<Longrightarrow> I (s\<lparr>mn_uuids := n\<rparr>)"
    and keeps_active: "I s \<Longrightarrow> I (s\<lparr>mn_active := a\<rparr>)"
    and keeps_broadcast: "I s \<Longrightarrow> I (s\<lparr>mn_last_ai_broadcast := t\<rparr>)"
    and keeps_register: "I s \<Longrightarrow> I (s\<lparr>mn_registry := register_node now nid i r ident p c (mn_registry s)\<rparr>)"
    and keeps_heartbeat: "I s \<Longrightarrow> I (s\<lparr>mn_registry := heartbeat now nid (mn_registry s)\<rparr>)"
    and allows_prepare: "P MPrepare"
    and allows_forward: "py_str (vget v ''type'') \<noteq> EVT_SYSTEM_INITIALIZED \<Longrightarrow> P (MEmit v)"
    and conn_call: "I s \<Longrightarrow> ok I P (conn_call e ci) s"
    and official_created: "I s \<Longrightarrow> ok I P (create_official_start_record k ts ss ns) s"
    and official_commit: "I s \<Longrightarrow> ok I P (start_official_stream e pl) s"
    and official_event: "I s \<Longrightarrow> (\<And>m t. I t \<Longrightarrow> ok I P (d m) t) \<Longrightarrow>
          ok I P (record_official_start_event e d nid ty pl) s"
    and drain_created: "I s \<Longrightarrow> ok I P (create_drain_record k sc ss ns) s"
    and drain_ack: "I s \<Longrightarrow> ok I P (record_drain_ack e nid pl) s"
    and init_reply: "I s \<Longrightarrow> ok I P (record_initialization_reply e nid ty pl) s"
    and init_recovery: "I s \<Longrightarrow> ok I P (record_initialization_recovery pl) s"
    and init_begin: "I s \<Longrightarrow> ok I P (begin_initialization e pl) s"
    and init_expired: "I s \<Longrightarrow> ok I P (initialization_expired e iid) s"
    and cleanup: "I s \<Longrightarrow> ok I P (disconnect_command e ty pl) s"
begin

lemma ok_broadcast: "I s \<Longrightarrow> ok I P (broadcast_ai_registry e f) s"
  by (auto simp: broadcast_ai_registry_def ok_simps keeps_broadcast intro!: ok_seq ok_sending)

lemma ok_route_subjects: "I s \<Longrightarrow> ok I P (route_subjects e ty pl ts start stop) s"
  unfolding route_subjects_def Let_def
  by (auto simp: ok_simps keeps_active intro!: ok_seq official_created drain_created ok_fan_out)

lemma fresh_or_I: "I s \<Longrightarrow> I (fst (fresh_or e v s))"
  by (simp add: fresh_or_def keeps_uuids)

lemma ok_general_dispatch:
  assumes "I s"
  shows "ok I P (general_dispatch e ty pl) s"
proof -
  have "ok I P (seq (if b then seq (out MPrepare) (case me_prepare e of None \<Rightarrow> skip | Some x \<Rightarrow> raise x) else skip)
      (if c then start_official_stream e pl else route_subjects e ty pl ts start stop)) t"
    if "I t" for b c ts start stop t
    using that
    by (intro ok_seq)
      (auto simp: ok_simps allows_prepare official_commit ok_route_subjects split: option.splits)
  with assms show ?thesis
    unfolding general_dispatch_def ok_basic Let_def
    by (auto simp: ok_seq_basic fresh_or_I case_prod_beta)
qed

lemma ok_dispatch_command: "I s \<Longrightarrow> ok I P (dispatch_command e msg) s"
  unfolding dispatch_command_def Let_def
  by (intro ok_structure ok_sending conn_call cleanup init_begin ok_general_dispatch)

lemma ok_local_event: "I s \<Longrightarrow> ok I P (handle_local_system_event e ev) s"
  unfolding handle_local_system_event_def Let_def
  by (intro ok_seq ok_structure conn_call init_reply init_recovery drain_ack official_event
      ok_dispatch_command)

lemma ok_register_message: "I s \<Longrightarrow> ok I P (register_message e ident msg) s"
  unfolding register_message_def Let_def
  by (intro ok_structure ok_seq ok_upd keeps_register ok_broadcast ok_sending)

lemma ok_heartbeat_message: "I s \<Longrightarrow> ok I P (heartbeat_message e ident msg n) s"
  unfolding heartbeat_message_def by (intro ok_structure ok_seq ok_broadcast ok_sending)

lemma ok_router: "I s \<Longrightarrow> ok I P (router_message e ident msg) s"
  unfolding router_message_def Let_def
  by (intro ok_catch ok_structure ok_seq ok_upd ok_out keeps_heartbeat allows_forward
      ok_register_message ok_heartbeat_message init_reply drain_ack official_event ok_dispatch_command)

lemma ok_input: "I s \<Longrightarrow> ok I P (master_input e i) s"
  by (cases i) (simp_all add: ok_router ok_local_event ok_dispatch_command init_expired conn_call)

text \<open>The invariant holds after every run, and every effect of the run is allowed.\<close>

lemma run_invariant: "I s \<Longrightarrow> I (fst (master_run xs s)) \<and> (\<forall>f \<in> set (snd (master_run xs s)). P f)"
  using ok_input by (rule ok_run)

end


section \<open>Frames of the handlers\<close>

text \<open>Effects other than the announcement that the system is initialized.\<close>

fun watch :: "meffect \<Rightarrow> bool" where
  "watch (MEmit v) = (vget v ''type'' \<noteq> VStr EVT_SYSTEM_INITIALIZED)"
| "watch _ = True"

interpretation watched: state_keeping I watch for I
proof
  show "sending x \<Longrightarrow> watch x" for x by (cases x) auto
  show "error_event x \<Longrightarrow> watch x" for x by (cases x) auto
qed

text \<open>The connection sequence emits progress reports and errors only.\<close>

fun progress_effect :: "effect \<Rightarrow> bool" where
  "progress_effect (Emit v) = (vget v ''type'' \<in> {VStr EVT_SUBJECT_CONNECTION_PROGRESS, VStr EVT_ERROR})"
| "progress_effect _ = True"

lemma progress_blocks [simp]:
  "list_all progress_effect (snd (cancel_timer c))"
  "list_all progress_effect (snd (progress ph x ex c))"
  "list_all progress_effect (snd (fail_step m x op c))"
  "list_all progress_effect (snd (reject_reply m c))"
  "list_all progress_effect (snd (identify uuid disp sub c))"
  by (simp_all add: cancel_timer_def progress_def fail_step_def reject_reply_def identify_def Let_def
      vget_VDict split: option.splits)

lemma progress_step [simp]: "list_all progress_effect (snd (step uuid disp x op c))"
  by (simp add: step_def Let_def split: option.split)

lemma progress_next_subject [simp]: "list_all progress_effect (snd (next_subject uuid disp c))"
proof (induction uuid disp c rule: next_subject.induct)
  case (1 uuid disp c)
  then show ?case by (subst next_subject.simps) (simp add: Let_def)
qed

lemma progress_lose_sensors [simp]: "list_all progress_effect (snd (lose_sensors lost xs c))"
  by (induction lost xs c rule: lose_sensors.induct) (auto simp: Let_def split: option.split)

lemma progress_conn_step: "list_all progress_effect (snd (conn_step uuid disp i c))"
proof (cases i)
  case (Event ev)
  have "list_all progress_effect (snd (on_reply uuid disp ev pl c))" for pl c
    by (simp add: on_reply_def on_discovery_reply_def on_connection_reply_def Let_def split: option.split)
  moreover have "list_all progress_effect (snd (on_cleanup_complete ev pl c))" for pl c
    by (simp add: on_cleanup_complete_def Let_def split: option.split)
  ultimately show ?thesis
    using Event by (simp add: on_event_def on_sensor_disconnected_def Let_def)
qed (simp_all add: configure_def start_sequence_def expired_def Let_def vget_VDict)

lemma ok_conn_call: "ok (\<lambda>t. t = s\<lparr>mn_conn :=
    fst (conn_step (me_conn_uuid e) (dispatch_connection_step e s) i (mn_conn s))\<rparr>) watch (conn_call e i) s"
proof -
  have "progress_effect x \<Longrightarrow> f \<in> set (conn_effect e s x) \<Longrightarrow> watch f" for x f
    by (cases x) (auto simp: conn_effect_def Let_def split: if_splits)
  then show ?thesis
    using progress_conn_step [of "me_conn_uuid e" "dispatch_connection_step e s" i "mn_conn s"]
    by (fastforce simp: ok_def conn_call_def list_all_iff split: prod.splits)
qed

lemma ok_frame: "ok J P a s \<Longrightarrow> (\<And>t. J t \<Longrightarrow> I t) \<Longrightarrow> ok I P a s"
  by (auto simp: ok_def split: prod.splits)

text \<open>Which fields each group of handlers may change.\<close>

definition drain_frame :: "master \<Rightarrow> master \<Rightarrow> bool" where
  "drain_frame s t \<longleftrightarrow> mn_registry t = mn_registry s \<and> mn_conn t = mn_conn s \<and>
     mn_official t = mn_official s \<and> mn_pending t = mn_pending s \<and> mn_recovery t = mn_recovery s \<and>
     mn_dispatching t = mn_dispatching s \<and> mn_uuids t = mn_uuids s"

definition init_frame :: "master \<Rightarrow> master \<Rightarrow> bool" where
  "init_frame s t \<longleftrightarrow> mn_official t = mn_official s \<and> mn_drains t = mn_drains s \<and>
     mn_active t = mn_active s"

definition official_frame :: "master \<Rightarrow> master \<Rightarrow> bool" where
  "official_frame s t \<longleftrightarrow> mn_registry t = mn_registry s \<and> mn_conn t = mn_conn s \<and>
     mn_drains t = mn_drains s \<and> mn_active t = mn_active s \<and> mn_pending t = mn_pending s \<and>
     mn_recovery t = mn_recovery s \<and> mn_dispatching t = mn_dispatching s \<and> mn_uuids t = mn_uuids s"

lemma ok_emit_type:
  "I s \<Longrightarrow> ty \<noteq> EVT_SYSTEM_INITIALIZED \<Longrightarrow> ok I watch (emit e (node_event ty pl)) s"
  by (simp add: emit_def node_event_def ok_basic vget_VDict)

lemma ok_drain_frame: "ok (drain_frame s) watch (record_drain_ack e n pl) s"
  unfolding record_drain_ack_def Let_def set_drain_def emit_aggregate_drain_def
  by (intro ok_structure; simp add: ok_seq_basic ok_basic drain_frame_def ok_emit_type split: option.split)


interpretation free: state_keeping I "\<lambda>_. True" for I
  by unfold_locales auto

lemma ok_free: "ok I P a s \<Longrightarrow> ok I (\<lambda>_. True) a s"
  by (auto simp: ok_def split: prod.splits)

lemma free_emit: "I s \<Longrightarrow> ok I (\<lambda>_. True) (emit e v) s"
  by (simp add: emit_def ok_basic)

lemma free_conn_call:
  "(\<And>c. I (s\<lparr>mn_conn := c\<rparr>)) \<Longrightarrow> ok I (\<lambda>_. True) (conn_call e i) s"
  by (rule ok_free [OF ok_frame [OF ok_conn_call]]) simp

lemma init_frame_refl [simp]: "init_frame s s"
  by (simp add: init_frame_def)

lemma init_frame_upd [simp]:
  "init_frame s t \<Longrightarrow> init_frame s (t\<lparr>mn_registry := r\<rparr>)"
  "init_frame s t \<Longrightarrow> init_frame s (t\<lparr>mn_conn := c\<rparr>)"
  "init_frame s t \<Longrightarrow> init_frame s (t\<lparr>mn_pending := p\<rparr>)"
  "init_frame s t \<Longrightarrow> init_frame s (t\<lparr>mn_recovery := v\<rparr>)"
  "init_frame s t \<Longrightarrow> init_frame s (t\<lparr>mn_dispatching := b\<rparr>)"
  "init_frame s t \<Longrightarrow> init_frame s (t\<lparr>mn_uuids := n\<rparr>)"
  by (simp_all add: init_frame_def)

lemma ok_finish_frame:
  "init_frame s t \<Longrightarrow> ok (init_frame s) (\<lambda>_. True) (finish_initialization e r f) t"
  unfolding finish_initialization_def
  by (intro ok_structure ok_seq ok_upd ok_out free_emit free_conn_call) simp_all

lemma ok_reply_frame: "ok (init_frame s) (\<lambda>_. True) (record_initialization_reply e n ty pl) s"
  unfolding record_initialization_reply_def Let_def
  by (intro ok_structure ok_seq ok_upd ok_finish_frame) simp_all

lemma ok_expired_frame: "ok (init_frame s) (\<lambda>_. True) (initialization_expired e iid) s"
  unfolding initialization_expired_def
  by (simp add: ok_basic ok_finish_frame split: option.split)

lemma ok_recovery_frame: "ok (init_frame s) (\<lambda>_. True) (record_initialization_recovery pl) s"
  unfolding record_initialization_recovery_def Let_def
  by (simp add: ok_basic split: option.split)

lemma ok_launch_frame: "init_frame s t \<Longrightarrow> ok (init_frame s) (\<lambda>_. True) (launch_initialization e pl r) t"
  unfolding launch_initialization_def
  by (intro ok_seq ok_upd ok_out ok_catch ok_finish_frame free.ok_sending) simp_all

lemma ok_begin_frame: "ok (init_frame s) (\<lambda>_. True) (begin_initialization e pl) s"
  unfolding begin_initialization_def Let_def
  by (intro ok_query)
    (auto simp: ok_seq_basic ok_basic intro!: free.ok_sending ok_launch_frame
      split: sum.split py_error.split prod.split)

lemma ok_cleanup_frame: "ok (init_frame s) watch (disconnect_command e ty pl) s"
  unfolding disconnect_command_def Let_def
  by (intro ok_query ok_branch watched.ok_sending)
    (auto simp: ok_seq_basic emit_def event_def vget_VDict
      intro!: ok_seq ok_for_each watched.ok_deliver simp: ok_basic split: option.split)

lemma ok_commit_frame: "ok (official_frame s) watch (start_official_stream e pl) s"
  unfolding start_official_stream_def Let_def
  by (intro ok_structure watched.ok_sending)
    (auto simp: ok_seq_basic official_frame_def intro!: ok_for_each watched.ok_deliver)


lemma ok_catch_frame:
  "ok J P a s \<Longrightarrow> (\<And>t. J t \<Longrightarrow> I t) \<Longrightarrow> (\<And>x t. J t \<Longrightarrow> ok I P (h x) t) \<Longrightarrow> ok I P (catch a h) s"
  by (fastforce simp: ok_def catch_def split: prod.splits option.splits)

lemma ok_seq_frame:
  "ok J P a s \<Longrightarrow> (\<And>t. J t \<Longrightarrow> I t) \<Longrightarrow> (\<And>t. J t \<Longrightarrow> ok I P b t) \<Longrightarrow> ok I P (seq a b) s"
  by (fastforce simp: ok_def seq_def split: prod.splits option.splits)

section \<open>The registry and the connection sequence\<close>

definition base_inv :: "master \<Rightarrow> bool" where
  "base_inv s \<longleftrightarrow> registry_ok (mn_registry s) \<and> conn_inv (mn_conn s) \<and>
     (\<forall>r. mn_pending s = Some r \<longrightarrow> distinct (dkeys (ir_requested r)))"

lemma distinct_assignments: "distinct (dkeys (assignments_of p))"
  unfolding assignments_of_def by (rule distinct_fold_dput [where f = "\<lambda>v. v"]) simp

lemma base_conn_call: "base_inv s \<Longrightarrow> ok base_inv watch (conn_call e i) s"
  by (rule ok_frame [OF ok_conn_call]) (simp add: base_inv_def conn_step_inv)

lemma base_finish:
  assumes "base_inv s" and "distinct (dkeys (ir_requested r))"
  shows "ok base_inv (\<lambda>_. True) (finish_initialization e r f) s"
proof -
  have "base_inv (s\<lparr>mn_pending := None, mn_recovery := v, mn_registry := replace_subjects [] (mn_registry s)\<rparr>)"
    "base_inv (s\<lparr>mn_pending := None, mn_registry := replace_subjects (ir_requested r) (mn_registry s)\<rparr>)" for v
    using assms by (simp_all add: base_inv_def registry_ok_replace)
  then show ?thesis
    unfolding finish_initialization_def
    by (intro ok_structure assms) (auto simp: ok_seq_basic split: option.split
        intro!: ok_seq free_emit ok_free [OF base_conn_call])
qed

lemma base_reply:
  assumes "base_inv s"
  shows "ok base_inv (\<lambda>_. True) (record_initialization_reply e n ty pl) s"
proof -
  have "base_inv (s\<lparr>mn_pending := Some (r\<lparr>ir_replies := x\<rparr>)\<rparr>) \<and> distinct (dkeys (ir_requested r))"
    if "mn_pending s = Some r" for r x
    using that assms by (simp add: base_inv_def)
  then show ?thesis
    unfolding record_initialization_reply_def Let_def using assms
    by (intro ok_structure) (auto simp: ok_seq_basic intro!: ok_branch ok_skip base_finish)
qed

lemma base_launch:
  assumes "base_inv s" and "distinct (dkeys (ir_requested r))"
  shows "ok base_inv (\<lambda>_. True) (launch_initialization e pl r) s"
proof -
  have start: "base_inv (s\<lparr>mn_uuids := n, mn_pending := Some r, mn_dispatching := True\<rparr>)" for n
    using assms by (simp add: base_inv_def)
  have last: "ok base_inv (\<lambda>_. True) (upd (\<lambda>s. s\<lparr>mn_dispatching := False\<rparr>)) t" if "base_inv t" for t
    using that by (simp add: ok_basic base_inv_def)
  show ?thesis
    unfolding launch_initialization_def ok_seq_basic
    by (intro conjI TrueI ok_seq ok_catch free.ok_sending base_finish start last assms(2))
qed

lemma base_begin:
  assumes "base_inv s"
  shows "ok base_inv (\<lambda>_. True) (begin_initialization e pl) s"
proof -
  have "base_inv (s\<lparr>mn_uuids := n\<rparr>)" for n using assms by (simp add: base_inv_def)
  moreover have "distinct (dkeys (ir_requested (new_init_record e pl c t p p')))" for c t p p'
    by (simp add: new_init_record_def Let_def distinct_assignments)
  ultimately show ?thesis
    unfolding begin_initialization_def Let_def using assms
    by (intro ok_query)
      (auto simp: ok_seq_basic ok_basic intro!: free.ok_sending base_launch
        split: sum.split py_error.split prod.split)
qed

lemma base_frame:
  "base_inv s \<Longrightarrow> drain_frame s t \<Longrightarrow> base_inv t" "base_inv s \<Longrightarrow> official_frame s t \<Longrightarrow> base_inv t"
  by (simp_all add: base_inv_def drain_frame_def official_frame_def)

text \<open>Reset changes only the recovery record and draws identifiers.\<close>

definition cleanup_frame :: "master \<Rightarrow> master \<Rightarrow> bool" where
  "cleanup_frame s t \<longleftrightarrow> mn_registry t = mn_registry s \<and> mn_conn t = mn_conn s \<and>
     mn_official t = mn_official s \<and> mn_drains t = mn_drains s \<and> mn_active t = mn_active s \<and>
     mn_pending t = mn_pending s \<and> mn_dispatching t = mn_dispatching s \<and>
     (mn_recovery t = mn_recovery s \<or>
      (\<exists>rc c. mn_recovery s = Some rc \<and> mn_recovery t = Some (rc\<lparr>rc_cleanup_id := c, rc_cleanup_nodes := {}\<rparr>)))"

lemma ok_cleanup: "ok (cleanup_frame s) watch (disconnect_command e ty pl) s"
  unfolding disconnect_command_def Let_def
  by (intro ok_query ok_branch watched.ok_sending)
    (auto simp: ok_seq_basic emit_def event_def vget_VDict cleanup_frame_def
      intro!: ok_seq ok_for_each watched.ok_deliver simp: ok_basic split: option.split)

text \<open>The events of the official-start barrier keep the other fields up to the dispatch they cause.\<close>

lemma ok_official_event:
  assumes "I s" and "\<And>m t. I t \<Longrightarrow> ok I P (d m) t"
    and "\<And>k r r' b n. map_of (mn_official s) k = Some r \<Longrightarrow> n \<in> os_expected r \<Longrightarrow>
      record_official n ty r = (r', b) \<Longrightarrow> I (s\<lparr>mn_official := dput k r' (mn_official s)\<rparr>)"
    and "\<And>pl. P (MEmit (node_event EVT_DISTRIBUTED_READY_FOR_OFFICIAL pl))"
  shows "ok I P (record_official_start_event e d n ty pl) s"
proof -
  have "ok I P (seq (upd (\<lambda>s. s\<lparr>mn_official := dput k r' (mn_official s)\<rparr>))
      (if b then seq (emit e (node_event EVT_DISTRIBUTED_READY_FOR_OFFICIAL pl)) (if c then d m else skip) else skip)) s"
    if "map_of (mn_official s) k = Some r" "n \<in> os_expected r" "record_official n ty r = (r', b')"
    for k r r' b b' c m pl
    unfolding ok_seq_basic using assms(3) [OF that] assms(2,4)
    by (auto simp: ok_basic emit_def intro!: ok_branch ok_seq)
  with assms(1) show ?thesis
    unfolding record_official_start_event_def Let_def
    by (intro ok_structure) (auto split: prod.split)
qed

interpretation base: coordinator_invariant base_inv "\<lambda>_. True"
proof unfold_locales
  fix s assume I: "base_inv s"
  note frame = ok_free [OF ok_frame]
  show "base_inv (s\<lparr>mn_uuids := n\<rparr>)" "base_inv (s\<lparr>mn_active := a\<rparr>)" "base_inv (s\<lparr>mn_last_ai_broadcast := t\<rparr>)"
    for n a t using I by (simp_all add: base_inv_def)
  show "base_inv (s\<lparr>mn_registry := register_node now nid i r ident p c (mn_registry s)\<rparr>)"
    "base_inv (s\<lparr>mn_registry := heartbeat now nid (mn_registry s)\<rparr>)" for now nid i r ident p c
    using I by (simp_all add: base_inv_def registry_ok_intros)
  show "ok base_inv (\<lambda>_. True) (conn_call e ci) s" for e ci
    using I by (intro ok_free [OF base_conn_call])
  show "ok base_inv (\<lambda>_. True) (create_official_start_record k ts ss ns) s" for k ts ss ns
    using I by (simp add: create_official_start_record_def ok_basic base_inv_def)
  show "ok base_inv (\<lambda>_. True) (start_official_stream e pl) s" for e pl
    using I by (intro frame [OF ok_commit_frame]) (rule base_frame)
  show "ok base_inv (\<lambda>_. True) (record_official_start_event e d nid ty pl) s"
    if "\<And>m t. base_inv t \<Longrightarrow> ok base_inv (\<lambda>_. True) (d m) t" for e d nid ty pl
    using I that by (intro ok_official_event) (auto simp: base_inv_def)
  show "ok base_inv (\<lambda>_. True) (create_drain_record k sc ss ns) s" for k sc ss ns
    using I by (simp add: create_drain_record_def ok_basic base_inv_def)
  show "ok base_inv (\<lambda>_. True) (record_drain_ack e nid pl) s" for e nid pl
    using I by (intro frame [OF ok_drain_frame]) (rule base_frame)
  show "ok base_inv (\<lambda>_. True) (record_initialization_reply e nid ty pl) s" for e nid ty pl
    using I by (rule base_reply)
  show "ok base_inv (\<lambda>_. True) (record_initialization_recovery pl) s" for pl
    using I by (auto simp: record_initialization_recovery_def ok_basic Let_def base_inv_def
        registry_ok_replace split: option.split)
  show "ok base_inv (\<lambda>_. True) (begin_initialization e pl) s" for e pl
    using I by (rule base_begin)
  show "ok base_inv (\<lambda>_. True) (initialization_expired e iid) s" for e iid
    using I by (auto simp: initialization_expired_def ok_basic base_inv_def [of s] intro!: base_finish
        split: option.split)
  show "ok base_inv (\<lambda>_. True) (disconnect_command e ty pl) s" for e ty pl
    using I by (intro frame [OF ok_cleanup]) (auto simp: cleanup_frame_def base_inv_def)
qed auto


section \<open>The official-start barrier\<close>

definition official_ok :: "official_record \<Rightarrow> bool" where
  "official_ok r \<longleftrightarrow> os_ready r \<subseteq> os_expected r \<and> os_official r \<subseteq> os_expected r \<and>
     (os_ready_announced r \<or> os_commit_dispatched r \<longrightarrow> os_ready r = os_expected r)"

definition official_inv :: "master \<Rightarrow> bool" where
  "official_inv s \<longleftrightarrow> length (mn_official s) \<le> 1 \<and> (\<forall>r \<in> set (dvalues (mn_official s)). official_ok r)"

lemma set_dput_new: "k \<notin> fst ` set d \<Longrightarrow> set (dput k v d) = insert (k, v) (set d)"
  by (induction d) auto

lemma dvalues_dput: "set (dvalues (dput k v d)) \<subseteq> insert v (set (dvalues d))"
  by (induction d) auto

lemma length_dput: "map_of d k \<noteq> None \<Longrightarrow> length (dput k v d) = length d"
  by (induction d) auto

lemma official_inv_put:
  assumes "official_inv s" and "map_of (mn_official s) k = Some r" and "official_ok r'"
  shows "official_inv (s\<lparr>mn_official := dput k r' (mn_official s)\<rparr>)"
  using assms dvalues_dput [of k r' "mn_official s"] length_dput [of "mn_official s" k r']
  unfolding official_inv_def by (auto simp del: set_map)

lemma official_inv_get: "official_inv s \<Longrightarrow> map_of (mn_official s) k = Some r \<Longrightarrow> official_ok r"
  by (force simp: official_inv_def dest: map_of_SomeD)

lemma record_official_ok:
  "official_ok r \<Longrightarrow> n \<in> os_expected r \<Longrightarrow> record_official n ty r = (r', b) \<Longrightarrow>
   official_ok r' \<and> (b \<longrightarrow> os_ready r' = os_expected r' \<and> \<not> os_ready_announced r)"
  by (auto simp: official_ok_def record_official_def Let_def split: if_splits)

lemma official_commit_ok:
  assumes "official_inv s"
  shows "ok official_inv watch (start_official_stream e pl) s"
proof -
  have "official_inv (s\<lparr>mn_official := dput k (r\<lparr>os_commit_dispatched := True\<rparr>) (mn_official s)\<rparr>)"
    if "map_of (mn_official s) k = Some r" "os_ready r = os_expected r" for k r
    using assms that official_inv_get [OF assms that(1)]
    by (intro official_inv_put [OF assms that(1)]) (simp add: official_ok_def)
  with assms show ?thesis
    unfolding start_official_stream_def Let_def
    by (intro ok_structure watched.ok_sending)
      (auto simp: ok_seq_basic intro!: ok_for_each watched.ok_deliver split: if_splits)
qed

lemma official_frames:
  "official_inv s \<Longrightarrow> drain_frame s t \<Longrightarrow> official_inv t" "official_inv s \<Longrightarrow> init_frame s t \<Longrightarrow> official_inv t"
  "official_inv s \<Longrightarrow> cleanup_frame s t \<Longrightarrow> official_inv t"
  by (simp_all add: official_inv_def drain_frame_def init_frame_def cleanup_frame_def)

interpretation official: coordinator_invariant official_inv "\<lambda>_. True"
proof unfold_locales
  fix s assume I: "official_inv s"
  note frame = ok_free [OF ok_frame]
  show "official_inv (s\<lparr>mn_uuids := n\<rparr>)" "official_inv (s\<lparr>mn_active := a\<rparr>)"
    "official_inv (s\<lparr>mn_last_ai_broadcast := t\<rparr>)" for n a t
    using I by (simp_all add: official_inv_def)
  show "official_inv (s\<lparr>mn_registry := register_node now nid i r ident p c (mn_registry s)\<rparr>)"
    "official_inv (s\<lparr>mn_registry := heartbeat now nid (mn_registry s)\<rparr>)" for now nid i r ident p c
    using I by (simp_all add: official_inv_def)
  show "ok official_inv (\<lambda>_. True) (conn_call e ci) s" for e ci
    using I by (intro free_conn_call) (simp add: official_inv_def)
  show "ok official_inv (\<lambda>_. True) (create_official_start_record k ts ss ns) s" for k ts ss ns
    by (simp add: create_official_start_record_def ok_basic official_inv_def official_ok_def)
  show "ok official_inv (\<lambda>_. True) (start_official_stream e pl) s" for e pl
    using I by (intro ok_free [OF official_commit_ok])
  show "ok official_inv (\<lambda>_. True) (record_official_start_event e d nid ty pl) s"
    if "\<And>m t. official_inv t \<Longrightarrow> ok official_inv (\<lambda>_. True) (d m) t" for e d nid ty pl
    using I that record_official_ok [OF official_inv_get [OF I]]
    by (intro ok_official_event) (auto intro!: official_inv_put)
  show "ok official_inv (\<lambda>_. True) (create_drain_record k sc ss ns) s" for k sc ss ns
    using I by (simp add: create_drain_record_def ok_basic official_inv_def)
  show "ok official_inv (\<lambda>_. True) (record_drain_ack e nid pl) s" for e nid pl
    using I by (intro frame [OF ok_drain_frame]) (rule official_frames)
  show "ok official_inv (\<lambda>_. True) (record_initialization_reply e nid ty pl) s" for e nid ty pl
    using I by (intro ok_frame [OF ok_reply_frame]) (rule official_frames)
  show "ok official_inv (\<lambda>_. True) (record_initialization_recovery pl) s" for pl
    using I by (intro ok_frame [OF ok_recovery_frame]) (rule official_frames)
  show "ok official_inv (\<lambda>_. True) (begin_initialization e pl) s" for e pl
    using I by (intro ok_frame [OF ok_begin_frame]) (rule official_frames)
  show "ok official_inv (\<lambda>_. True) (initialization_expired e iid) s" for e iid
    using I by (intro ok_frame [OF ok_expired_frame]) (rule official_frames)
  show "ok official_inv (\<lambda>_. True) (disconnect_command e ty pl) s" for e ty pl
    using I by (intro frame [OF ok_cleanup]) (rule official_frames)
qed auto

section \<open>System initialization\<close>

definition reply_good :: "init_record \<Rightarrow> string \<Rightarrow> val \<Rightarrow> bool" where
  "reply_good r n pl \<longleftrightarrow> vget pl ''configuration_state'' = VStr ''installed'' \<and>
     is_list (vget pl ''subject_ids'') \<and> list_all is_str (as_list (vget pl ''subject_ids'')) \<and>
     sort (id_list (vget pl ''subject_ids'')) = sort (map sid_of (dget_or (ir_plan r) n []))"

definition init_inv :: "master \<Rightarrow> bool" where
  "init_inv s \<longleftrightarrow>
     (case mn_pending s of
        None \<Rightarrow> True
      | Some r \<Rightarrow> mn_recovery s = None \<and> MASTER \<in> ir_expected r \<and> fst ` set (ir_replies r) \<subseteq> ir_expected r \<and>
                 (\<forall>(n, pl) \<in> set (ir_replies r). reply_good r n pl)) \<and>
     (case mn_recovery s of
        None \<Rightarrow> True
      | Some rc \<Rightarrow> owners (mn_registry s) = [] \<and> MASTER \<in> rc_participants rc \<and>
                  \<not> rc_participants rc \<subseteq> rc_cleanup_nodes rc)"

text \<open>An announcement that the system is initialized is the aggregate of an initialization that
  every participant has confirmed.\<close>

definition confirmed :: "init_record \<Rightarrow> bool" where
  "confirmed r \<longleftrightarrow> fst ` set (ir_replies r) = ir_expected r \<and> (\<forall>(n, pl) \<in> set (ir_replies r). reply_good r n pl)"

fun announced :: "meffect \<Rightarrow> bool" where
  "announced (MEmit v) = (vget v ''type'' = VStr EVT_SYSTEM_INITIALIZED \<longrightarrow>
     (\<exists>r. v = node_event EVT_SYSTEM_INITIALIZED (init_success_payload r) \<and> confirmed r))"
| "announced _ = True"

lemma watch_announced: "watch x \<Longrightarrow> announced x"
  by (cases x) auto

lemma ok_watch: "ok I watch a s \<Longrightarrow> ok I announced a s"
  by (erule ok_weaken) (auto intro: watch_announced)

interpretation announcing: state_keeping I announced for I
  by unfold_locales (auto intro: watch_announced watched.allows_sending watched.allows_errors)

lemma owners_register [simp]:
  "owners (register_node now n i ro ident p c r) = owners r" "owners (heartbeat now n r) = owners r"
  by (simp_all add: owners_def get_subjects_def register_node_def heartbeat_def split: option.split)

lemma init_conn_call: "init_inv s \<Longrightarrow> ok init_inv watch (conn_call e i) s"
  by (rule ok_frame [OF ok_conn_call]) (simp add: init_inv_def cong: option.case_cong)

lemma init_finish_failed:
  assumes "init_inv s" and "mn_pending s = Some r"
  shows "ok init_inv announced (finish_initialization e r (Some m)) s"
  unfolding finish_initialization_def
  using assms by (auto simp: ok_seq_basic ok_basic init_inv_def intro!: announcing.ok_sending)

lemma init_finish_done:
  assumes "init_inv s" and "mn_pending s = Some r" and "confirmed r"
  shows "ok init_inv announced (finish_initialization e r None) s"
proof -
  have "init_inv (s\<lparr>mn_pending := None, mn_registry := replace_subjects (ir_requested r) (mn_registry s)\<rparr>)"
    using assms by (simp add: init_inv_def)
  moreover have "ok init_inv announced (emit e (node_event EVT_SYSTEM_INITIALIZED (init_success_payload r))) t"
    if "init_inv t" for t
    using that assms(3) by (auto simp: emit_def ok_basic)
  ultimately show ?thesis
    unfolding finish_initialization_def
    using assms(2) by (auto simp: ok_seq_basic ok_basic intro!: ok_seq ok_watch [OF init_conn_call])
qed

lemma init_reply_ok:
  assumes I: "init_inv s"
  shows "ok init_inv announced (record_initialization_reply e n ty pl) s"
proof (cases "mn_pending s")
  case None
  then show ?thesis using I by (simp add: record_initialization_reply_def ok_basic)
next
  case (Some r)
  let ?r = "r\<lparr>ir_replies := dput n pl (ir_replies r)\<rparr>" and ?s = "s\<lparr>mn_pending := Some (r\<lparr>ir_replies := dput n pl (ir_replies r)\<rparr>)\<rparr>"
  have inst: "reply_installed (r\<lparr>ir_replies := x\<rparr>) = reply_installed r" for x
    by (rule ext)+ (simp add: reply_installed_def expected_subjects_def)
  show ?thesis
  proof (cases "reply_accepted r n pl")
    case False
    with Some I show ?thesis by (simp add: record_initialization_reply_def ok_basic)
  next
    case True
    then have new: "n \<in> ir_expected r" "n \<notin> fst ` set (ir_replies r)" by (simp_all add: reply_accepted_def)
    have set: "set (dput n pl (ir_replies r)) = insert (n, pl) (set (ir_replies r))"
      using new(2) by (simp add: set_dput_new)
    have failed: "ok init_inv announced (finish_initialization e ?r (Some m)) ?s" for m
      unfolding finish_initialization_def
      using I Some by (auto simp: ok_seq_basic ok_basic init_inv_def intro!: announcing.ok_sending)
    have more: "init_inv ?s \<and> (ir_expected r \<subseteq> insert n (fst ` set (ir_replies r)) \<longrightarrow> confirmed ?r)"
      if "reply_installed r n ty pl"
    proof -
      have "reply_good r n pl" using that by (simp add: reply_good_def reply_installed_def expected_subjects_def)
      moreover have "reply_good ?r = reply_good r" by (rule ext)+ (simp add: reply_good_def)
      ultimately show ?thesis
        using I Some new set by (auto simp: init_inv_def confirmed_def)
    qed
    show ?thesis
      unfolding record_initialization_reply_def
      using Some True failed more init_finish_done [of ?s ?r e]
      by (auto simp: ok_basic ok_seq_basic Let_def inst intro!: ok_branch ok_skip)
  qed
qed


lemma init_launch_ok:
  assumes I: "init_inv s" and free: "mn_recovery s = None" and r: "MASTER \<in> ir_expected r" "ir_replies r = []"
  shows "ok init_inv announced (launch_initialization e pl r) s"
proof -
  let ?s = "s\<lparr>mn_uuids := Suc (mn_uuids s), mn_pending := Some r, mn_dispatching := True\<rparr>"
  have start: "init_inv ?s" using free r by (simp add: init_inv_def)
  have sent: "ok (\<lambda>t. t = ?s) announced (dispatch_initialization e pl r ns) ?s" for ns
    by (rule announcing.ok_sending) simp
  have "ok init_inv announced (catch (dispatch_initialization e pl r ns) (\<lambda>x.
      finish_initialization e r (Some (m x)))) ?s" for ns m
    using start init_finish_failed [OF start, of r] by (intro ok_catch_frame [OF sent]) auto
  moreover have "init_inv t \<Longrightarrow> init_inv (t\<lparr>mn_dispatching := False\<rparr>)" for t
    by (simp add: init_inv_def cong: option.case_cong)
  ultimately show ?thesis
    unfolding launch_initialization_def by (auto simp: ok_seq_basic ok_basic intro!: ok_seq)
qed

lemma init_begin_ok:
  assumes "init_inv s"
  shows "ok init_inv announced (begin_initialization e pl) s"
proof -
  have u: "init_inv (s\<lparr>mn_uuids := n\<rparr>)" for n using assms by (simp add: init_inv_def cong: option.case_cong)
  have r: "MASTER \<in> ir_expected (new_init_record e pl c t p p')"
    "ir_replies (new_init_record e pl c t p p') = []" for c t p p'
    by (simp_all add: new_init_record_def Let_def required_nodes_def)
  show ?thesis
    unfolding begin_initialization_def Let_def using assms u r
    by (intro ok_query)
      (auto simp: ok_seq_basic ok_basic intro!: announcing.ok_sending init_launch_ok
        split: sum.split py_error.split prod.split)
qed

lemma init_recovery_ok: "init_inv s \<Longrightarrow> ok init_inv announced (record_initialization_recovery pl) s"
  unfolding record_initialization_recovery_def Let_def
  by (intro ok_structure ok_upd) (auto simp: init_inv_def split: option.splits)

lemma init_expired_ok: "init_inv s \<Longrightarrow> ok init_inv announced (initialization_expired e iid) s"
  unfolding initialization_expired_def
  by (auto simp: ok_basic intro!: init_finish_failed split: option.split)

lemma init_frames:
  "init_inv s \<Longrightarrow> drain_frame s t \<Longrightarrow> init_inv t" "init_inv s \<Longrightarrow> official_frame s t \<Longrightarrow> init_inv t"
  "init_inv s \<Longrightarrow> cleanup_frame s t \<Longrightarrow> init_inv t"
  by (auto simp: init_inv_def drain_frame_def official_frame_def cleanup_frame_def split: option.splits)

interpretation initialization: coordinator_invariant init_inv announced
proof unfold_locales
  fix s assume I: "init_inv s"
  show "init_inv (s\<lparr>mn_uuids := n\<rparr>)" "init_inv (s\<lparr>mn_active := a\<rparr>)" "init_inv (s\<lparr>mn_last_ai_broadcast := t\<rparr>)"
    for n a t using I by (simp_all add: init_inv_def cong: option.case_cong)
  show "init_inv (s\<lparr>mn_registry := register_node now nid i r ident p c (mn_registry s)\<rparr>)"
    "init_inv (s\<lparr>mn_registry := heartbeat now nid (mn_registry s)\<rparr>)" for now nid i r ident p c
    using I by (simp_all add: init_inv_def cong: option.case_cong)
  show "ok init_inv announced (conn_call e ci) s" for e ci
    using I by (intro ok_watch init_conn_call)
  show "ok init_inv announced (create_official_start_record k ts ss ns) s" for k ts ss ns
    using I by (simp add: create_official_start_record_def ok_basic init_inv_def cong: option.case_cong)
  show "ok init_inv announced (start_official_stream e pl) s" for e pl
    using I by (intro ok_watch ok_frame [OF ok_commit_frame]) (rule init_frames)
  show "ok init_inv announced (record_official_start_event e d nid ty pl) s"
    if "\<And>m t. init_inv t \<Longrightarrow> ok init_inv announced (d m) t" for e d nid ty pl
    using I that by (intro ok_official_event)
      (auto simp: init_inv_def node_event_def vget_VDict cong: option.case_cong)
  show "ok init_inv announced (create_drain_record k sc ss ns) s" for k sc ss ns
    using I by (simp add: create_drain_record_def ok_basic init_inv_def cong: option.case_cong)
  show "ok init_inv announced (record_drain_ack e nid pl) s" for e nid pl
    using I by (intro ok_watch ok_frame [OF ok_drain_frame]) (rule init_frames)
  show "ok init_inv announced (record_initialization_reply e nid ty pl) s" for e nid ty pl
    using I by (rule init_reply_ok)
  show "ok init_inv announced (record_initialization_recovery pl) s" for pl
    using I by (rule init_recovery_ok)
  show "ok init_inv announced (begin_initialization e pl) s" for e pl
    using I by (rule init_begin_ok)
  show "ok init_inv announced (initialization_expired e iid) s" for e iid
    using I by (rule init_expired_ok)
  show "ok init_inv announced (disconnect_command e ty pl) s" for e ty pl
    using I by (intro ok_watch ok_frame [OF ok_cleanup]) (rule init_frames)
next
  show "announced (MEmit v)" if "py_str (vget v ''type'') \<noteq> EVT_SYSTEM_INITIALIZED" for v
    using that by auto
qed auto

section \<open>The drain barrier\<close>

definition drain_ok :: "drain_record \<Rightarrow> bool" where
  "drain_ok r \<longleftrightarrow> \<not> dr_finalizing r \<and> (dr_finalized r \<longrightarrow> dr_expected r \<subseteq> fst ` set (dr_acks r))"

definition drain_inv :: "master \<Rightarrow> bool" where
  "drain_inv s \<longleftrightarrow> (\<forall>r \<in> set (dvalues (mn_drains s)). drain_ok r)"

lemma drain_inv_put:
  "drain_inv s \<Longrightarrow> drain_ok r \<Longrightarrow> drain_inv (s\<lparr>mn_drains := dput k r (mn_drains s), mn_active := a\<rparr>)"
  "drain_inv s \<Longrightarrow> drain_ok r \<Longrightarrow> drain_inv (s\<lparr>mn_drains := dput k r (mn_drains s)\<rparr>)"
  using dvalues_dput [of k r "mn_drains s"] unfolding drain_inv_def by (auto simp del: set_map)

lemma drain_inv_get: "drain_inv s \<Longrightarrow> map_of (mn_drains s) k = Some r \<Longrightarrow> drain_ok r"
  by (force simp: drain_inv_def dest: map_of_SomeD)

lemma add_ack_ok: "drain_ok r \<Longrightarrow> drain_ok (add_ack n pl r)"
  by (auto simp: drain_ok_def add_ack_def)

lemma drain_ack_ok:
  assumes I: "drain_inv s"
  shows "ok drain_inv (\<lambda>_. True) (record_drain_ack e n pl) s"
proof -
  have emit: "ok drain_inv (\<lambda>_. True) (emit_aggregate_drain e r res b) t" if "drain_inv t" for r res b t
    using that by (simp add: emit_aggregate_drain_def free_emit)
  let ?k = "py_str (vget pl ''stop_session_id'')"
  have put: "drain_inv (s\<lparr>mn_drains := dput ?k r' (mn_drains s), mn_active := a\<rparr>)"
      "drain_inv (s\<lparr>mn_drains := dput ?k r' (mn_drains s)\<rparr>)"
    if "drain_ok r'" for r' a
    using drain_inv_put [OF I that] by auto
  have swap: "s\<lparr>mn_active := a, mn_drains := d\<rparr> = s\<lparr>mn_drains := d, mn_active := a\<rparr>" for a d by simp
  have "drain_ok (add_ack n pl r)" if "map_of (mn_drains s) ?k = Some r" for r
    using drain_inv_get [OF I that] by (rule add_ack_ok)
  moreover have "drain_ok (r\<lparr>dr_finalizing := False, dr_finalized := True\<rparr>) \<and> drain_ok (r\<lparr>dr_finalizing := False\<rparr>)"
    if "should_finalize r" for r
    using that by (auto simp: drain_ok_def should_finalize_def all_drained_def)
  ultimately show ?thesis
    unfolding record_drain_ack_def Let_def set_drain_def using I
    by (intro ok_structure)
      (auto simp: ok_seq_basic ok_basic swap put intro!: emit split: option.split)
qed

lemma drain_frames:
  "drain_inv s \<Longrightarrow> official_frame s t \<Longrightarrow> drain_inv t" "drain_inv s \<Longrightarrow> init_frame s t \<Longrightarrow> drain_inv t"
  "drain_inv s \<Longrightarrow> cleanup_frame s t \<Longrightarrow> drain_inv t"
  by (simp_all add: drain_inv_def official_frame_def init_frame_def cleanup_frame_def)

interpretation drains: coordinator_invariant drain_inv "\<lambda>_. True"
proof unfold_locales
  fix s assume I: "drain_inv s"
  note frame = ok_free [OF ok_frame]
  show "drain_inv (s\<lparr>mn_uuids := n\<rparr>)" "drain_inv (s\<lparr>mn_active := a\<rparr>)"
    "drain_inv (s\<lparr>mn_last_ai_broadcast := t\<rparr>)" for n a t
    using I by (simp_all add: drain_inv_def)
  show "drain_inv (s\<lparr>mn_registry := register_node now nid i r ident p c (mn_registry s)\<rparr>)"
    "drain_inv (s\<lparr>mn_registry := heartbeat now nid (mn_registry s)\<rparr>)" for now nid i r ident p c
    using I by (simp_all add: drain_inv_def)
  show "ok drain_inv (\<lambda>_. True) (conn_call e ci) s" for e ci
    using I by (intro free_conn_call) (simp add: drain_inv_def)
  show "ok drain_inv (\<lambda>_. True) (create_official_start_record k ts ss ns) s" for k ts ss ns
    using I by (simp add: create_official_start_record_def ok_basic drain_inv_def)
  show "ok drain_inv (\<lambda>_. True) (start_official_stream e pl) s" for e pl
    using I by (intro frame [OF ok_commit_frame]) (rule drain_frames)
  show "ok drain_inv (\<lambda>_. True) (record_official_start_event e d nid ty pl) s"
    if "\<And>m t. drain_inv t \<Longrightarrow> ok drain_inv (\<lambda>_. True) (d m) t" for e d nid ty pl
    using I that by (intro ok_official_event) (auto simp: drain_inv_def)
  show "ok drain_inv (\<lambda>_. True) (create_drain_record k sc ss ns) s" for k sc ss ns
    using I unfolding create_drain_record_def
    by (intro ok_upd drain_inv_put) (simp_all add: drain_ok_def)
  show "ok drain_inv (\<lambda>_. True) (record_drain_ack e nid pl) s" for e nid pl
    using I by (rule drain_ack_ok)
  show "ok drain_inv (\<lambda>_. True) (record_initialization_reply e nid ty pl) s" for e nid ty pl
    using I by (intro ok_frame [OF ok_reply_frame]) (rule drain_frames)
  show "ok drain_inv (\<lambda>_. True) (record_initialization_recovery pl) s" for pl
    using I by (intro ok_frame [OF ok_recovery_frame]) (rule drain_frames)
  show "ok drain_inv (\<lambda>_. True) (begin_initialization e pl) s" for e pl
    using I by (intro ok_frame [OF ok_begin_frame]) (rule drain_frames)
  show "ok drain_inv (\<lambda>_. True) (initialization_expired e iid) s" for e iid
    using I by (intro ok_frame [OF ok_expired_frame]) (rule drain_frames)
  show "ok drain_inv (\<lambda>_. True) (disconnect_command e ty pl) s" for e ty pl
    using I by (intro frame [OF ok_cleanup]) (rule drain_frames)
qed auto

end
