(* ===== verification/Master_Theorems.thy ===== *)
theory Master_Theorems
  imports Master_Props
begin

text \<open>
  The properties of the coordinator: what holds after every run of its inputs, who receives a
  command, and how the barriers open. The environment \<open>calm_env\<close>, in which every call returns,
  serves the witnesses.
\<close>

section \<open>Barriers\<close>

text \<open>A barrier collects the senders of the messages that count; it opens when every expected one
  has been seen, whatever the order and the repetitions.\<close>

locale barrier =
  fixes arrive :: "'m \<Rightarrow> 's \<Rightarrow> 's"
    and sender :: "'m \<Rightarrow> 'n"
    and counts :: "'s \<Rightarrow> 'm \<Rightarrow> bool"
    and seen expected :: "'s \<Rightarrow> 'n set"
  assumes seen_arrive: "seen (arrive m s) = (if counts s m then insert (sender m) (seen s) else seen s)"
    and expected_arrive: "expected (arrive m s) = expected s"
    and counts_arrive: "counts (arrive m s) m' = counts s m'"
begin

lemma expected_run: "expected (fold arrive ms s) = expected s"
  by (induction ms arbitrary: s) (simp_all add: expected_arrive)

lemma seen_run: "seen (fold arrive ms s) = seen s \<union> sender ` {m \<in> set ms. counts s m}"
  by (induction ms arbitrary: s) (auto simp: seen_arrive counts_arrive)

lemma opens_iff:
  "seen s = {} \<Longrightarrow> expected (fold arrive ms s) \<subseteq> seen (fold arrive ms s) \<longleftrightarrow>
     (\<forall>n \<in> expected s. \<exists>m \<in> set ms. counts s m \<and> sender m = n)"
  by (auto simp: seen_run expected_run)

lemma order_irrelevant: "set ms = set ms' \<Longrightarrow> seen (fold arrive ms s) = seen (fold arrive ms' s)"
  by (simp add: seen_run)

end

fun arrive_official :: "string \<times> string \<Rightarrow> official_record \<Rightarrow> official_record" where
  "arrive_official (n, ty) r = (if n \<in> os_expected r then fst (record_official n ty r) else r)"

interpretation start_barrier: barrier arrive_official fst
  "\<lambda>r (n, ty). n \<in> os_expected r \<and> ty = EVT_STREAM_READY_FOR_OFFICIAL" os_ready os_expected
  by unfold_locales (auto simp: record_official_def Let_def split: prod.splits if_splits)

interpretation drain_barrier: barrier "\<lambda>(n, pl). add_ack n pl" fst "\<lambda>_ _. True"
  "\<lambda>r. fst ` set (dr_acks r)" dr_expected
  by unfold_locales (auto simp: add_ack_def split: prod.splits)

section \<open>Deliveries without exceptions\<close>

definition reachable_node :: "menv \<Rightarrow> master \<Rightarrow> string \<Rightarrow> bool" where
  "reachable_node e s n \<longleftrightarrow> (if n = MASTER then me_handler e else truthy (get_identity (mn_registry s) n))"

definition no_exceptions :: "menv \<Rightarrow> bool" where
  "no_exceptions e \<longleftrightarrow> (\<forall>ty pl. me_local e ty pl = None) \<and> (\<forall>i m. me_send e i m = None) \<and> me_prepare e = None"

definition delivery :: "master \<Rightarrow> string \<Rightarrow> string \<Rightarrow> val \<Rightarrow> meffect" where
  "delivery s ty n pl = (if n = MASTER then MLocal ty pl
     else MSend (get_identity (mn_registry s) n) (command ty pl))"

lemma deliver_eq:
  "no_exceptions e \<Longrightarrow> reachable_node e s n \<Longrightarrow> deliver e ty n pl s = (s, [delivery s ty n pl], None)"
  by (simp add: no_exceptions_def reachable_node_def delivery_def deliver_def handle_local_def
      send_command_def send_to_def send_multipart_def query_def seq_def out_def skip_def Let_def)

lemma for_each_eq:
  "(\<And>x. x \<in> set xs \<Longrightarrow> f x s = (s, g x, None)) \<Longrightarrow> for_each xs f s = (s, concat (map g xs), None)"
  by (induction xs) (simp_all add: skip_def seq_def)

lemma seq_skip: "seq skip b s = b s"
  by (simp add: seq_def skip_def split: prod.splits)

lemma seq_eq: "a s = (t, es, None) \<Longrightarrow> seq a b s = (case b t of (u, fs, x) \<Rightarrow> (u, es @ fs, x))"
  by (simp add: seq_def)

lemma query_eq: "query g s = g s s"
  by (simp add: query_def)

section \<open>The official-start commit\<close>

lemma distinct_commit_order: "finite N \<Longrightarrow> distinct (commit_order N) \<and> set (commit_order N) = N"
  by (auto simp: commit_order_def Let_def)

definition commit_payload :: "menv \<Rightarrow> val \<Rightarrow> official_record \<Rightarrow> nat \<times> string \<Rightarrow> val" where
  "commit_payload e pl r = (\<lambda>(i, n). vput ''official_start_timing'' (timing e i n)
     (vput ''session_timestamp'' (os_session_timestamp r) pl))"

lemma start_official_eq:
  assumes "no_exceptions e" and "map_of (mn_official s) k = Some r" and "os_ready r = os_expected r"
    and "vget pl ''start_session_id'' = VStr k" and "finite (os_expected r)"
    and "\<forall>n \<in> os_expected r. reachable_node e s n"
  shows "start_official_stream e pl s =
    (s\<lparr>mn_official := dput k (r\<lparr>os_commit_dispatched := True\<rparr>) (mn_official s)\<rparr>,
     map (\<lambda>(i, n). delivery s CMD_START_OFFICIAL_STREAM n (commit_payload e pl r (i, n)))
       (enumerate 1 (commit_order (os_expected r))), None)"
proof -
  let ?t = "s\<lparr>mn_official := dput k (r\<lparr>os_commit_dispatched := True\<rparr>) (mn_official s)\<rparr>"
  let ?f = "\<lambda>(i, n). deliver e CMD_START_OFFICIAL_STREAM n (vput ''official_start_timing'' (timing e i n)
      (vput ''session_timestamp'' (os_session_timestamp r) pl))"
  let ?g = "\<lambda>(i, n). delivery s CMD_START_OFFICIAL_STREAM n (commit_payload e pl r (i, n))"
  have "for_each (enumerate 1 (commit_order (os_expected r))) ?f ?t
    = (?t, concat (map (\<lambda>x. [?g x]) (enumerate 1 (commit_order (os_expected r)))), None)"
  proof (rule for_each_eq)
    fix x assume x: "x \<in> set (enumerate 1 (commit_order (os_expected r)))"
    obtain i n where x_eq: "x = (i, n)" by (cases x)
    with x have "n \<in> set (commit_order (os_expected r))"
      by (auto simp: enumerate_eq_zip dest: set_zip_rightD)
    with assms have "reachable_node e ?t n"
      using distinct_commit_order [OF assms(5)] by (simp add: reachable_node_def)
    with deliver_eq [OF assms(1) this] x_eq show "?f x ?t = (?t, [?g x], None)"
      by (simp add: delivery_def commit_payload_def)
  qed
  with assms(2-4) show ?thesis
    by (simp add: start_official_stream_def query_eq seq_upd Let_def comp_def case_prod_beta)
qed

section \<open>Announcing readiness\<close>

text \<open>The coordinator's own message that commits the start reaches the commit directly.\<close>

lemma dispatch_official:
  "dispatch_command e (command CMD_START_OFFICIAL_STREAM (VDict d)) s = start_official_stream e (VDict d) s"
proof -
  have "general_dispatch e CMD_START_OFFICIAL_STREAM (VDict d) s = start_official_stream e (VDict d) s"
    by (simp add: general_dispatch_def query_eq seq_upd seq_skip START_COMMANDS_def STOP_COMMANDS_def)
  then show ?thesis
    by (simp add: dispatch_command_def query_eq command_def vget_VDict vget_or_VDict OWNERSHIP_COMMANDS_def
        SEQUENCE_BLOCKED_def MASTER_ONLY_def)
qed

fun is_ready_event :: "meffect \<Rightarrow> bool" where
  "is_ready_event (MEmit v) = (vget v ''type'' = VStr EVT_DISTRIBUTED_READY_FOR_OFFICIAL)"
| "is_ready_event _ = False"

interpretation unready: state_keeping I "\<lambda>x. \<not> is_ready_event x" for I
proof
  show "sending x \<Longrightarrow> \<not> is_ready_event x" for x by (cases x) auto
  show "error_event x \<Longrightarrow> \<not> is_ready_event x" for x by (cases x) auto
qed

lemma official_commit_quiet:
  assumes "map_of (mn_official s) k = Some r"
  shows "ok (\<lambda>t. \<exists>b. mn_official t = dput k (r\<lparr>os_commit_dispatched := b\<rparr>) (mn_official s))
    (\<lambda>x. \<not> is_ready_event x)
    (start_official_stream e (VDict [(''start_session_id'', VStr k), (''session_timestamp'', ts)])) s"
proof -
  have same: "\<exists>b. mn_official s = dput k (r\<lparr>os_commit_dispatched := b\<rparr>) (mn_official s)"
    using assms by (intro exI [of _ "os_commit_dispatched r"]) (simp add: update_triv)
  show ?thesis
    unfolding start_official_stream_def Let_def
    by (intro ok_query) (use same assms in \<open>auto simp: vget_VDict ok_seq_basic
        intro!: unready.ok_sending ok_for_each unready.ok_deliver ok_branch\<close>)
qed

definition ready_message :: "string \<Rightarrow> official_record \<Rightarrow> val \<Rightarrow> bool" where
  "ready_message k r pl \<longleftrightarrow> vget pl ''start_session_id'' = VStr k \<and> k \<noteq> [] \<and>
     py_str (vget pl ''session_timestamp'') = py_str (os_session_timestamp r)"

lemma commit_keeps_record:
  assumes "map_of (mn_official t) k = Some r"
  obtains u fs y b where
    "start_official_stream e (VDict [(''start_session_id'', VStr k), (''session_timestamp'', ts)]) t = (u, fs, y)"
    and "filter is_ready_event fs = []" and "map_of (mn_official u) k = Some (r\<lparr>os_commit_dispatched := b\<rparr>)"
proof -
  let ?msg = "VDict [(''start_session_id'', VStr k), (''session_timestamp'', ts)]"
  obtain u fs y where commit: "start_official_stream e ?msg t = (u, fs, y)" by (cases "start_official_stream e ?msg t")
  from official_commit_quiet [OF assms, of e ts] commit
  have "\<exists>b. mn_official u = dput k (r\<lparr>os_commit_dispatched := b\<rparr>) (mn_official t)"
    and "\<forall>f \<in> set fs. \<not> is_ready_event f" by (auto simp: ok_def)
  then show ?thesis using that [OF commit] by (auto simp: filter_empty_conv)
qed

lemma ready_event_step:
  assumes r: "map_of (mn_official s) k = Some r" and m: "ready_message k r pl"
    and n: "n \<in> os_expected r" "n \<noteq> []" and bus: "me_bus e"
    and run: "record_official_start_event e (dispatch_command e) n EVT_STREAM_READY_FOR_OFFICIAL pl s = (s', es, x)"
  defines "complete \<equiv> insert n (os_ready r) = os_expected r \<and> \<not> os_ready_announced r"
  shows "length (filter is_ready_event es) = (if complete then 1 else 0) \<and>
    (\<exists>r'. map_of (mn_official s') k = Some r' \<and> os_ready r' = insert n (os_ready r) \<and>
           os_expected r' = os_expected r \<and> os_session_timestamp r' = os_session_timestamp r \<and>
           os_ready_announced r' = (os_ready_announced r \<or> complete))"
proof -
  let ?r = "r\<lparr>os_ready := insert n (os_ready r)\<rparr>"
  define r' where "r' = (if complete then ?r\<lparr>os_ready_announced := True\<rparr> else ?r)"
  have rec: "record_official n EVT_STREAM_READY_FOR_OFFICIAL r = (r', complete)"
    by (simp add: record_official_def Let_def r'_def complete_def)
  have fields: "os_ready r' = insert n (os_ready r)" "os_expected r' = os_expected r"
    "os_session_timestamp r' = os_session_timestamp r"
    "os_ready_announced r' = (os_ready_announced r \<or> complete)"
    by (simp_all add: r'_def)
  let ?t = "s\<lparr>mn_official := dput k r' (mn_official s)\<rparr>"
  let ?msg = "VDict [(''start_session_id'', VStr k), (''session_timestamp'', os_session_timestamp r')]"
  have eq: "record_official_start_event e (dispatch_command e) n EVT_STREAM_READY_FOR_OFFICIAL pl s =
      (if complete then seq (out (MEmit (node_event EVT_DISTRIBUTED_READY_FOR_OFFICIAL (ready_payload k r'))))
         (if me_dispatcher e then dispatch_command e (command CMD_START_OFFICIAL_STREAM ?msg) else skip) ?t
       else (?t, [], None))"
    using r m n bus rec
    by (simp add: record_official_start_event_def query_eq Let_def ready_message_def seq_upd emit_def skip_def)
  show ?thesis
  proof (cases "complete \<and> me_dispatcher e")
    case True
    obtain u fs y b where commit: "start_official_stream e ?msg ?t = (u, fs, y)" "filter is_ready_event fs = []"
      "map_of (mn_official u) k = Some (r'\<lparr>os_commit_dispatched := b\<rparr>)"
      by (rule commit_keeps_record [of ?t k r' e "os_session_timestamp r'"]) simp_all
    from True eq run commit(1) have "s' = u"
      "es = MEmit (node_event EVT_DISTRIBUTED_READY_FOR_OFFICIAL (ready_payload k r')) # fs"
      by (auto simp: seq_def out_def dispatch_official)
    with commit(2,3) fields True show ?thesis by (simp add: node_event_def vget_VDict)
  next
    case False
    with eq run fields show ?thesis
      by (auto simp: seq_def out_def skip_def node_event_def vget_VDict split: if_splits)
  qed
qed

text \<open>A sequence of readiness reports, each handled in its own environment.\<close>

fun ready_run :: "(menv \<times> string \<times> val) list \<Rightarrow> master \<Rightarrow> master \<times> meffect list" where
  "ready_run [] s = (s, [])"
| "ready_run ((e, n, pl) # xs) s =
     (case record_official_start_event e (dispatch_command e) n EVT_STREAM_READY_FOR_OFFICIAL pl s of
        (s', es, _) \<Rightarrow> (case ready_run xs s' of (s'', fs) \<Rightarrow> (s'', es @ fs)))"

lemma ready_run_announces:
  assumes "map_of (mn_official s) k = Some r" and "os_ready r \<subseteq> os_expected r"
    and "os_ready_announced r \<longleftrightarrow> os_ready r = os_expected r"
    and "\<forall>(e, n, pl) \<in> set xs. me_bus e \<and> n \<in> os_expected r \<and> n \<noteq> [] \<and> ready_message k r pl"
  shows "length (filter is_ready_event (snd (ready_run xs s))) =
    (if \<not> os_ready_announced r \<and> os_expected r \<subseteq> os_ready r \<union> (fst \<circ> snd) ` set xs then 1 else 0)"
  using assms
proof (induction xs arbitrary: s r)
  case Nil
  then show ?case by auto
next
  case (Cons x xs)
  obtain e n pl where x: "x = (e, n, pl)" by (cases x)
  obtain s' es y where run:
    "record_official_start_event e (dispatch_command e) n EVT_STREAM_READY_FOR_OFFICIAL pl s = (s', es, y)"
    by (cases "record_official_start_event e (dispatch_command e) n EVT_STREAM_READY_FOR_OFFICIAL pl s")
  from Cons.prems x have c: "ready_message k r pl" "n \<in> os_expected r" "n \<noteq> []" "me_bus e" by auto
  note step = ready_event_step [OF Cons.prems(1) c run]
  from step obtain r' where r': "map_of (mn_official s') k = Some r'" "os_ready r' = insert n (os_ready r)"
    "os_expected r' = os_expected r" "os_session_timestamp r' = os_session_timestamp r"
    "os_ready_announced r' = (os_ready_announced r \<or>
       insert n (os_ready r) = os_expected r \<and> \<not> os_ready_announced r)" by auto
  have "length (filter is_ready_event (snd (ready_run xs s'))) =
    (if \<not> os_ready_announced r' \<and> os_expected r' \<subseteq> os_ready r' \<union> (fst \<circ> snd) ` set xs then 1 else 0)"
    using Cons.prems r' c(2) by (intro Cons.IH) (auto simp: ready_message_def)
  moreover have "os_ready r \<union> (fst \<circ> snd) ` set (x # xs) = os_ready r' \<union> (fst \<circ> snd) ` set xs"
    using x r'(2) by auto
  ultimately show ?case
    using x run step [THEN conjunct1] r' Cons.prems(2,3) c(2) by (auto split: prod.splits if_splits)
qed


section \<open>Draining\<close>

fun is_drain_event :: "meffect \<Rightarrow> bool" where
  "is_drain_event (MEmit v) = (vget v ''type'' = VStr EVT_STREAM_DRAINED)"
| "is_drain_event _ = False"

definition drain_message :: "string \<Rightarrow> menv \<times> string \<times> val \<Rightarrow> bool" where
  "drain_message k = (\<lambda>(e, n, pl). vget pl ''stop_session_id'' = VStr k \<and> k \<noteq> [] \<and> me_bus e \<and>
     (\<forall>f v. me_drained e = Some f \<longrightarrow> f v = None))"

lemma drain_step:
  assumes r: "map_of (mn_drains s) k = Some r" and m: "drain_message k (e, n, pl)"
    and run: "record_drain_ack e n pl s = (s', es, x)"
  shows "length (filter is_drain_event es) = (if should_finalize (add_ack n pl r) then 1 else 0)"
    and "map_of (mn_drains s') k = Some (if should_finalize (add_ack n pl r)
           then (add_ack n pl r)\<lparr>dr_finalizing := False, dr_finalized := True\<rparr> else add_ack n pl r)"
proof -
  have "length (filter is_drain_event es) = (if should_finalize (add_ack n pl r) then 1 else 0) \<and>
    map_of (mn_drains s') k = Some (if should_finalize (add_ack n pl r)
           then (add_ack n pl r)\<lparr>dr_finalizing := False, dr_finalized := True\<rparr> else add_ack n pl r)"
    using r m run
    by (auto simp: record_drain_ack_def query_eq Let_def drain_message_def set_drain_def emit_aggregate_drain_def
        emit_def seq_upd upd_def out_def seq_def node_event_def vget_VDict split: if_splits option.splits)
  then show "length (filter is_drain_event es) = (if should_finalize (add_ack n pl r) then 1 else 0)"
    and "map_of (mn_drains s') k = Some (if should_finalize (add_ack n pl r)
           then (add_ack n pl r)\<lparr>dr_finalizing := False, dr_finalized := True\<rparr> else add_ack n pl r)"
    by simp_all
qed

fun drain_run :: "(menv \<times> string \<times> val) list \<Rightarrow> master \<Rightarrow> master \<times> meffect list" where
  "drain_run [] s = (s, [])"
| "drain_run ((e, n, pl) # xs) s = (case record_drain_ack e n pl s of
     (s', es, _) \<Rightarrow> (case drain_run xs s' of (s'', fs) \<Rightarrow> (s'', es @ fs)))"

abbreviation drain_events :: "(menv \<times> string \<times> val) list \<Rightarrow> master \<Rightarrow> nat" where
  "drain_events xs s \<equiv> length (filter is_drain_event (snd (drain_run xs s)))"

lemma drain_run_finalized:
  assumes "map_of (mn_drains s) k = Some r" and "dr_finalized r" and "\<forall>x \<in> set xs. drain_message k x"
  shows "drain_events xs s = 0"
  using assms
proof (induction xs arbitrary: s r)
  case (Cons x xs)
  obtain e n pl where x: "x = (e, n, pl)" by (cases x)
  obtain s' es y where run: "record_drain_ack e n pl s = (s', es, y)" by (cases "record_drain_ack e n pl s")
  have no: "\<not> should_finalize (add_ack n pl r)" using Cons.prems(2) by (simp add: should_finalize_def add_ack_def)
  from Cons.prems(3) x have "drain_message k (e, n, pl)" by simp
  note step = drain_step [OF Cons.prems(1) this run]
  have "drain_events xs s' = 0"
    using Cons.prems step(2) no by (intro Cons.IH [of s' "add_ack n pl r"]) (auto simp: add_ack_def)
  with x run step(1) no show ?case by (auto split: prod.splits)
qed simp

lemma drain_events_Cons:
  assumes "map_of (mn_drains s) k = Some r" and "\<forall>x \<in> set ((e, n, pl) # xs). drain_message k x"
  obtains s' where "drain_events ((e, n, pl) # xs) s =
      (if should_finalize (add_ack n pl r) then 1 else drain_events xs s')"
    and "\<not> should_finalize (add_ack n pl r) \<Longrightarrow> map_of (mn_drains s') k = Some (add_ack n pl r)"
proof -
  obtain s' es y where run: "record_drain_ack e n pl s = (s', es, y)" by (cases "record_drain_ack e n pl s")
  from assms(2) have "drain_message k (e, n, pl)" by simp
  note step = drain_step [OF assms(1) this run]
  have "drain_events xs s' = 0" if "should_finalize (add_ack n pl r)"
    using assms(2) step(2) that
    by (intro drain_run_finalized [where r = "(add_ack n pl r)\<lparr>dr_finalizing := False, dr_finalized := True\<rparr>"]) auto
  with run step show ?thesis by (intro that [of s']) (auto split: prod.splits)
qed

lemma add_ack_simps [simp]:
  "dr_expected (add_ack n pl r) = dr_expected r" "dr_finalized (add_ack n pl r) = dr_finalized r"
  "dr_finalizing (add_ack n pl r) = dr_finalizing r" "fst ` set (dr_acks (add_ack n pl r)) = insert n (fst ` set (dr_acks r))"
  by (auto simp: add_ack_def)

lemma add_ack_drained:
  assumes "\<forall>a \<in> set (dvalues (dr_acks r)). ack_drained a" and "ack_drained (ack_of pl)"
  shows "\<forall>a \<in> set (dvalues (dr_acks (add_ack n pl r))). ack_drained a"
  using assms dvalues_dput [of n "ack_of pl" "dr_acks r"] by (auto simp: add_ack_def simp del: set_map)

lemma should_finalize_drained:
  assumes "\<forall>a \<in> set (dvalues (dr_acks r)). ack_drained a" and "dr_expected r \<subseteq> fst ` set (dr_acks r)"
    and "\<not> dr_finalized r" and "\<not> dr_finalizing r"
  shows "should_finalize r"
proof -
  have "all_drained r" using assms(1,2) by (fastforce simp: all_drained_def split: option.splits dest: map_of_SomeD)
  with assms(3,4) show ?thesis by (simp add: should_finalize_def)
qed

lemma drain_run_early:
  assumes "map_of (mn_drains s) k = Some r" and "\<forall>x \<in> set xs. drain_message k x"
  shows "drain_events xs s \<le> 1 \<and>
    (\<not> dr_expected r \<subseteq> fst ` set (dr_acks r) \<union> (fst \<circ> snd) ` set xs \<longrightarrow> drain_events xs s = 0)"
  using assms
proof (induction xs arbitrary: s r)
  case (Cons x xs)
  obtain e n pl where x: "x = (e, n, pl)" by (cases x)
  obtain s' where s': "drain_events (x # xs) s = (if should_finalize (add_ack n pl r) then 1 else drain_events xs s')"
    "\<not> should_finalize (add_ack n pl r) \<Longrightarrow> map_of (mn_drains s') k = Some (add_ack n pl r)"
    using drain_events_Cons [OF Cons.prems [unfolded x]] x by metis
  have "should_finalize (add_ack n pl r) \<Longrightarrow> dr_expected r \<subseteq> insert n (fst ` set (dr_acks r))"
    by (simp add: should_finalize_def all_drained_def)
  with s' x Cons.IH [of s' "add_ack n pl r"] Cons.prems(2) show ?case by auto
qed simp

lemma drain_run_reports:
  assumes "map_of (mn_drains s) k = Some r" and "\<forall>x \<in> set xs. drain_message k x"
    and "\<not> dr_finalized r" and "\<not> dr_finalizing r" and "xs \<noteq> []"
    and "dr_expected r \<subseteq> fst ` set (dr_acks r) \<union> (fst \<circ> snd) ` set xs"
    and "\<forall>a \<in> set (dvalues (dr_acks r)). ack_drained a" and "\<forall>(e, n, pl) \<in> set xs. ack_drained (ack_of pl)"
  shows "drain_events xs s = 1"
  using assms
proof (induction xs arbitrary: s r)
  case (Cons x xs)
  obtain e n pl where x: "x = (e, n, pl)" by (cases x)
  obtain s' where s': "drain_events (x # xs) s = (if should_finalize (add_ack n pl r) then 1 else drain_events xs s')"
    "\<not> should_finalize (add_ack n pl r) \<Longrightarrow> map_of (mn_drains s') k = Some (add_ack n pl r)"
    using drain_events_Cons [OF Cons.prems(1,2) [unfolded x]] x by metis
  have drained: "\<forall>a \<in> set (dvalues (dr_acks (add_ack n pl r))). ack_drained a"
    using Cons.prems(7,8) x by (intro add_ack_drained) auto
  show ?case
  proof (cases "should_finalize (add_ack n pl r)")
    case False
    with should_finalize_drained [OF drained] Cons.prems(3,4,6) x have "xs \<noteq> []" by auto
    with Cons.IH [OF s'(2) _ _ _ _ _ drained] False Cons.prems x s'(1) show ?thesis by auto
  qed (simp add: s'(1))
qed simp


section \<open>Routing\<close>

definition owner_of :: "node_registry \<Rightarrow> string \<Rightarrow> string" where
  "owner_of r sid = (case map_of (get_subjects r) sid of None \<Rightarrow> MASTER | Some i \<Rightarrow> assigned_node i)"

lemma nodes_to_subjects_fold:
  "distinct (dkeys d) \<Longrightarrow>
   distinct (dkeys (fold (\<lambda>sid d. dappend (f sid) sid d) sids d)) \<and>
   fst ` set (fold (\<lambda>sid d. dappend (f sid) sid d) sids d) = fst ` set d \<union> f ` set sids \<and>
   dget_or (fold (\<lambda>sid d. dappend (f sid) sid d) sids d) n [] = dget_or d n [] @ filter (\<lambda>sid. f sid = n) sids"
  by (induction sids arbitrary: d) auto

lemma nodes_to_subjects_spec:
  "distinct (dkeys (nodes_to_subjects r sids))"
  "fst ` set (nodes_to_subjects r sids) = owner_of r ` set sids"
  "dget_or (nodes_to_subjects r sids) n [] = filter (\<lambda>sid. owner_of r sid = n) sids"
proof -
  have "nodes_to_subjects r sids = fold (\<lambda>sid d. dappend (owner_of r sid) sid d) sids []"
    unfolding nodes_to_subjects_def owner_of_def MASTER_def by (rule refl)
  with nodes_to_subjects_fold [of "[]" "owner_of r" sids n] show
    "distinct (dkeys (nodes_to_subjects r sids))"
    "fst ` set (nodes_to_subjects r sids) = owner_of r ` set sids"
    "dget_or (nodes_to_subjects r sids) n [] = filter (\<lambda>sid. owner_of r sid = n) sids"
    by (simp_all add: dget_or_def [of "[]"])
qed

lemma fan_out_eq:
  assumes "no_exceptions e" and "\<forall>(n, pl) \<in> set d. reachable_node e s n"
  shows "fan_out e ty False d s = (s, map (\<lambda>(n, pl). delivery s ty n pl) d, None)"
proof -
  have "for_each d (\<lambda>(n, pl). deliver e ty n pl) s = (s, concat (map (\<lambda>x. [case x of (n, pl) \<Rightarrow> delivery s ty n pl]) d), None)"
    using assms deliver_eq by (intro for_each_eq) auto
  then show ?thesis by (simp add: fan_out_def comp_def case_prod_beta)
qed

lemma route_given:
  assumes "no_exceptions e" and "ty \<notin> set STOP_COMMANDS" and "truthy (vget pl ''subject_ids'')"
    and "\<forall>sid \<in> set (id_list (vget pl ''subject_ids'')). reachable_node e s (owner_of (mn_registry s) sid)"
  shows "\<exists>t. route_subjects e ty pl ts start stop s =
      (t, map (\<lambda>(n, ss). delivery s ty n (session_fields ts start stop (vput ''subject_ids'' (ids ss) pl)))
            (nodes_to_subjects (mn_registry s) (id_list (vget pl ''subject_ids''))), None) \<and>
    mn_registry t = mn_registry s \<and>
    (ty \<in> set START_COMMANDS \<longrightarrow> mn_active t = mn_active s \<union> set (id_list (vget pl ''subject_ids'')) \<and>
       (\<exists>r. map_of (mn_official t) (py_str start) = Some r \<and>
          os_expected r = owner_of (mn_registry s) ` set (id_list (vget pl ''subject_ids'')) \<and>
          os_ready r = {} \<and> \<not> os_ready_announced r))"
proof -
  let ?sids = "id_list (vget pl ''subject_ids'')"
  let ?d = "nodes_to_subjects (mn_registry s) ?sids"
  let ?f = "\<lambda>(n, ss). (n, session_fields ts start stop (vput ''subject_ids'' (ids ss) pl))"
  have reach: "\<forall>(n, p) \<in> set (map ?f ?d). reachable_node e t n" if "mn_registry t = mn_registry s" for t
    using assms(4) that nodes_to_subjects_spec(2) [of "mn_registry s" ?sids]
    by (force simp: reachable_node_def)
  have deliv: "fan_out e ty False (map ?f ?d) t = (t, map (\<lambda>(n, ss). delivery s ty n
      (session_fields ts start stop (vput ''subject_ids'' (ids ss) pl))) ?d, None)"
    if "mn_registry t = mn_registry s" for t
    using fan_out_eq [OF assms(1) reach [OF that], of ty] that
    by (simp add: comp_def case_prod_beta delivery_def)
  have keys: "set (dkeys ?d) = owner_of (mn_registry s) ` set ?sids" using nodes_to_subjects_spec(2) by auto
  show ?thesis
    using assms(2,3) keys
    by (auto simp: route_subjects_def query_eq Let_def seq_upd seq_skip create_official_start_record_def deliv)
qed

section \<open>Completing an initialization\<close>

fun init_run :: "menv \<Rightarrow> (string \<times> val) list \<Rightarrow> master \<Rightarrow> master \<times> meffect list" where
  "init_run e [] s = (s, [])"
| "init_run e ((n, pl) # xs) s = (case record_initialization_reply e n EVT_NODE_INITIALIZED pl s of
     (s', es, _) \<Rightarrow> (case init_run e xs s' of (s'', fs) \<Rightarrow> (s'', es @ fs)))"

fun is_init_event :: "meffect \<Rightarrow> bool" where
  "is_init_event (MEmit v) = (vget v ''type'' = VStr EVT_SYSTEM_INITIALIZED)"
| "is_init_event _ = False"

definition reply_ok :: "init_record \<Rightarrow> string \<times> val \<Rightarrow> bool" where
  "reply_ok r = (\<lambda>(n, pl). vget pl ''initialization_id'' = VStr (ir_initialization_id r) \<and>
     vget pl ''correlation_id'' = ir_correlation_id r \<and> n \<in> ir_expected r \<and> reply_good r n pl)"

lemma reply_installed_replies [simp]: "reply_installed (r\<lparr>ir_replies := x\<rparr>) = reply_installed r"
  by (rule ext)+ (simp add: reply_installed_def expected_subjects_def)

lemma filter_init_watch: "list_all watch es \<Longrightarrow> filter is_init_event es = []"
proof -
  have "watch x \<Longrightarrow> \<not> is_init_event x" for x by (cases x) auto
  then show "list_all watch es \<Longrightarrow> filter is_init_event es = []" by (auto simp: list_all_iff filter_empty_conv)
qed

lemma conn_configure_call:
  "\<exists>fs. conn_call e (Configure subs) s = (s\<lparr>mn_conn := fst (configure subs (mn_conn s))\<rparr>, fs, None) \<and>
     list_all watch fs"
proof -
  obtain t fs x where call: "conn_call e (Configure subs) s = (t, fs, x)" by (cases "conn_call e (Configure subs) s")
  have "x = None"
    using call by (auto simp: conn_call_def configure_def and_then_def cancel_timer_def split: prod.splits option.splits)
  with call ok_conn_call [where s = s and e = e and i = "Configure subs"] show ?thesis by (simp add: ok_def list_all_iff)
qed

lemma finish_success:
  assumes "mn_pending s = Some r" and "me_bus e" and "finish_initialization e r None s = (t, es, x)"
  shows "mn_pending t = None \<and> owners (mn_registry t) = ir_requested r \<and> mn_recovery t = mn_recovery s \<and>
    cq_subjects (mn_conn t) = map (connection_subject (ir_requested r)) (ir_connection_subjects r) \<and>
    length (filter is_init_event es) = 1"
proof -
  let ?u = "s\<lparr>mn_pending := None, mn_registry := replace_subjects (ir_requested r) (mn_registry s)\<rparr>"
  let ?subs = "map (connection_subject (ir_requested r)) (ir_connection_subjects r)"
  from conn_configure_call [of e ?subs ?u] obtain fs where
    call: "conn_call e (Configure ?subs) ?u = (?u\<lparr>mn_conn := fst (configure ?subs (mn_conn ?u))\<rparr>, fs, None)"
    and fs: "list_all watch fs" by blast
  have ev: "is_init_event (MEmit (node_event EVT_SYSTEM_INITIALIZED (init_success_payload r)))"
    by (simp add: node_event_def vget_VDict)
  from assms call show ?thesis
    using filter_init_watch [OF fs] ev
    by (auto simp: finish_initialization_def query_eq seq_upd emit_def out_def seq_def upd_def)
qed

lemma init_run_done: "mn_pending s = None \<Longrightarrow> init_run e xs s = (s, [])"
  by (induction xs) (auto simp: record_initialization_reply_def query_eq skip_def)

lemma init_run_confirms:
  assumes "mn_pending s = Some r" and "me_bus e" and "mn_recovery s = None"
    and "distinct (map fst xs)" and "\<forall>x \<in> set xs. reply_ok r x"
    and "fst ` set (ir_replies r) \<inter> fst ` set xs = {}"
    and "ir_expected r = fst ` set (ir_replies r) \<union> fst ` set xs" and "xs \<noteq> []"
  shows "mn_pending (fst (init_run e xs s)) = None \<and> mn_recovery (fst (init_run e xs s)) = None \<and>
    owners (mn_registry (fst (init_run e xs s))) = ir_requested r \<and>
    cq_subjects (mn_conn (fst (init_run e xs s))) =
      map (connection_subject (ir_requested r)) (ir_connection_subjects r) \<and>
    length (filter is_init_event (snd (init_run e xs s))) = 1"
  using assms
proof (induction xs arbitrary: s r)
  case (Cons x xs)
  obtain n pl where x: "x = (n, pl)" by (cases x)
  let ?r = "r\<lparr>ir_replies := dput n pl (ir_replies r)\<rparr>" and ?s = "s\<lparr>mn_pending := Some (r\<lparr>ir_replies := dput n pl (ir_replies r)\<rparr>)\<rparr>"
  from Cons.prems x have acc: "reply_accepted r n pl" and inst: "reply_installed r n EVT_NODE_INITIALIZED pl"
    by (auto simp: reply_accepted_def reply_ok_def reply_good_def reply_installed_def expected_subjects_def)
  have ok: "reply_ok ?r = reply_ok r" by (auto simp: reply_ok_def reply_good_def fun_eq_iff)
  have step: "record_initialization_reply e n EVT_NODE_INITIALIZED pl s =
      (if ir_expected r \<subseteq> insert n (fst ` set (ir_replies r)) then finish_initialization e ?r None ?s else (?s, [], None))"
    using Cons.prems(1) acc inst by (simp add: record_initialization_reply_def query_eq Let_def seq_upd skip_def)
  show ?case
  proof (cases "xs = []")
    case True
    obtain t es y where fin: "finish_initialization e ?r None ?s = (t, es, y)"
      by (cases "finish_initialization e ?r None ?s")
    with True x step Cons.prems have run: "init_run e (x # xs) s = (t, es)" by auto
    from finish_success [OF _ Cons.prems(2) fin] Cons.prems(3) show ?thesis unfolding run by simp
  next
    case False
    with Cons.prems x have "\<not> ir_expected r \<subseteq> insert n (fst ` set (ir_replies r))"
      by (cases xs) (auto simp: subset_iff)
    with step x have "init_run e (x # xs) s = init_run e xs ?s" by (simp split: prod.splits)
    moreover have "mn_pending (fst (init_run e xs ?s)) = None \<and> mn_recovery (fst (init_run e xs ?s)) = None \<and>
        owners (mn_registry (fst (init_run e xs ?s))) = ir_requested ?r \<and>
        cq_subjects (mn_conn (fst (init_run e xs ?s))) =
          map (connection_subject (ir_requested ?r)) (ir_connection_subjects ?r) \<and>
        length (filter is_init_event (snd (init_run e xs ?s))) = 1"
      using Cons.prems x False ok by (intro Cons.IH) auto
    ultimately show ?thesis by simp
  qed
qed simp


section \<open>Properties\<close>

definition calm_env :: menv where
  "calm_env = \<lparr>me_uuid = (\<lambda>n. ''u'' @ replicate n CHR ''x''), me_conn_uuid = (\<lambda>n. ''c'' @ replicate n CHR ''x''),
     me_now = 100, me_stamp = ''20260101_000000'', me_received_utc = 0, me_received_monotonic = 0,
     me_dispatch_utc = int, me_dispatch_monotonic = int, me_ms = VInt, me_rank = length, me_str = (\<lambda>_. ''error''),
     me_repr = (\<lambda>_. ''[]''), me_bus = True, me_handler = True, me_dispatcher = True, me_local = (\<lambda>_ _. None),
     me_send = (\<lambda>_ _. None), me_prepare = None, me_guard = None, me_drained = Some (\<lambda>_. None),
     me_usb_path = VNone\<rparr>"

definition demo_master :: master where
  "demo_master = init_master calm_env VNone (VDict [(''supported_sensors'', VList [VStr ''imu''])])"

definition demo_subject :: val where
  "demo_subject = VDict [(''subject_id'', VStr ''s1''), (''sensors'', VList [VDict [(''local_name'', VStr ''imu'')]])]"

definition demo_inputs :: "(menv \<times> minput) list" where
  "demo_inputs =
     [(calm_env, Command (VDict [(''type'', VStr CMD_INIT_SYSTEM), (''payload'', VDict
         [(''correlation_id'', VStr ''c''), (''subjects'', VList [demo_subject])])])),
      (calm_env, LocalEvent (VDict [(''type'', VStr EVT_NODE_INITIALIZED), (''payload'', VDict
         [(''correlation_id'', VStr ''c''), (''initialization_id'', VStr ''u''),
          (''configuration_state'', VStr ''installed''), (''subject_ids'', VList [VStr ''s1''])])]))]"



text \<open>Initialization and recovery exclude each other: after any run, an initialization is pending
  only while no recovery is outstanding, all its recorded replies are good ones from expected
  nodes, and as long as a recovery is outstanding no subject has an owner and some participant has
  not yet reported its cleanup.\<close>

theorem initialization_recovery_exclusive:
  "init_inv (fst (master_run xs (init_master e my_ip caps)))"
proof -
  have "init_inv (init_master e my_ip caps)" by (simp add: init_inv_def init_master_def)
  from initialization.run_invariant [OF this] show ?thesis by blast
qed

text \<open>C20. A confirmed initialization completes: when the expected nodes of a pending initialization
  each reply once, in any order, with the configuration installed, the coordinator announces the
  initialized system exactly once, the registry holds exactly the requested ownership, the
  connection sequence is configured with the requested subjects and no recovery is needed.\<close>

theorem initialization_completes:
  assumes "mn_pending s = Some r" and "mn_recovery s = None" and "me_bus e" and "ir_replies r = []"
    and "distinct (map fst xs)" and "fst ` set xs = ir_expected r" and "ir_expected r \<noteq> {}"
    and "\<forall>x \<in> set xs. reply_ok r x"
  shows "mn_pending (fst (init_run e xs s)) = None \<and> mn_recovery (fst (init_run e xs s)) = None \<and>
    owners (mn_registry (fst (init_run e xs s))) = ir_requested r \<and>
    cq_subjects (mn_conn (fst (init_run e xs s))) =
      map (connection_subject (ir_requested r)) (ir_connection_subjects r) \<and>
    length (filter is_init_event (snd (init_run e xs s))) = 1"
  using assms by (intro init_run_confirms) auto

theorem initialization_completes_witness:
  "\<exists>s r x. mn_pending s = Some r \<and> fst x = MASTER \<and> mn_pending (fst (init_run calm_env [x] s)) = None \<and>
     owners (mn_registry (fst (init_run calm_env [x] s))) = [(''s1'', MASTER)]"
proof -
  define s where "s = fst (master_run (take 1 demo_inputs) demo_master)"
  define pl where "pl = VDict [(''correlation_id'', VStr ''c''), (''initialization_id'', VStr ''u''),
      (''configuration_state'', VStr ''installed''), (''subject_ids'', VList [VStr ''s1''])]"
  have shape: "(case mn_pending s of None \<Rightarrow> False | Some r \<Rightarrow> mn_recovery s = None \<and> ir_replies r = [] \<and>
      ir_expected r = {MASTER} \<and> reply_ok r (MASTER, pl) \<and> ir_requested r = [(''s1'', MASTER)])"
    unfolding s_def pl_def by code_simp
  then obtain r where r: "mn_pending s = Some r" "mn_recovery s = None" "ir_replies r = []"
    "ir_expected r = {MASTER}" "reply_ok r (MASTER, pl)" "ir_requested r = [(''s1'', MASTER)]"
    by (auto split: option.splits)
  have "mn_pending (fst (init_run calm_env [(MASTER, pl)] s)) = None \<and>
      owners (mn_registry (fst (init_run calm_env [(MASTER, pl)] s))) = [(''s1'', MASTER)]"
    using initialization_completes [OF r(1,2) _ r(3), of calm_env "[(MASTER, pl)]"] r
    by (simp add: calm_env_def del: init_run.simps)
  with r(1) show ?thesis by (intro exI [of _ s] exI [of _ r] exI [of _ "(MASTER, pl)"]) simp
qed

text \<open>C14. The official start is safe: after any run there is at most one start session, only its
  expected nodes are counted, and readiness is announced or the commit dispatched only when every
  expected node is ready.\<close>

theorem official_start_safe:
  "official_inv (fst (master_run xs (init_master e my_ip caps)))"
proof -
  have "official_inv (init_master e my_ip caps)" by (simp add: official_inv_def init_master_def)
  from official.run_invariant [OF this] show ?thesis by blast
qed

text \<open>C31. Readiness is announced exactly once: over any sequence of readiness reports of expected
  nodes for one start session, in any order and with any repetitions, the announcement is emitted
  once if every expected node has reported and not at all otherwise, even though the announcement
  itself triggers the commit.\<close>

theorem official_ready_announced_once:
  assumes "map_of (mn_official s) k = Some r" and "os_ready r = {}" and "\<not> os_ready_announced r"
    and "os_expected r \<noteq> {}"
    and "\<forall>(e, n, pl) \<in> set xs. me_bus e \<and> n \<in> os_expected r \<and> n \<noteq> [] \<and> ready_message k r pl"
  shows "length (filter is_ready_event (snd (ready_run xs s))) =
    (if os_expected r \<subseteq> (fst \<circ> snd) ` set xs then 1 else 0)"
  using ready_run_announces [OF assms(1), of xs] assms(2-5) by auto

definition demo_start :: master where
  "demo_start = fst (create_official_start_record ''k'' (VStr ''t'') [''s1''] [''master'', ''w1''] demo_master)"

theorem official_ready_announced_once_witness:
  "length (filter is_ready_event (snd (ready_run
     [(calm_env, ''w1'', VDict [(''start_session_id'', VStr ''k''), (''session_timestamp'', VStr ''t'')]),
      (calm_env, ''w1'', VDict [(''start_session_id'', VStr ''k''), (''session_timestamp'', VStr ''t'')]),
      (calm_env, ''master'', VDict [(''start_session_id'', VStr ''k''), (''session_timestamp'', VStr ''t'')])]
     demo_start))) = 1"
proof -
  let ?pl = "VDict [(''start_session_id'', VStr ''k''), (''session_timestamp'', VStr ''t'')]"
  let ?r = "\<lparr>os_session_timestamp = VStr ''t'', os_subject_ids = [''s1''], os_expected = {''master'', ''w1''},
     os_ready = {}, os_official = {}, os_ready_announced = False, os_commit_dispatched = False\<rparr>"
  have rec: "map_of (mn_official demo_start) ''k'' = Some ?r"
    by (simp add: demo_start_def create_official_start_record_def upd_def)
  have "ready_message ''k'' ?r ?pl" by (simp add: ready_message_def vget_VDict)
  then show ?thesis
    using official_ready_announced_once [OF rec,
        of "[(calm_env, ''w1'', ?pl), (calm_env, ''w1'', ?pl), (calm_env, ''master'', ?pl)]"]
    by (simp add: calm_env_def del: ready_run.simps)
qed

text \<open>The commit reaches every participant once: when every expected node is ready and the calls
  succeed, the start command is delivered exactly once to each expected node, the remote nodes in
  sorted order before the master, with the session's timestamp and consecutive sequence numbers.\<close>

theorem official_commit_delivered:
  assumes "no_exceptions e" and "map_of (mn_official s) k = Some r" and "os_ready r = os_expected r"
    and "vget pl ''start_session_id'' = VStr k" and "finite (os_expected r)"
    and "\<forall>n \<in> os_expected r. reachable_node e s n"
  shows "\<exists>ns. distinct ns \<and> set ns = os_expected r \<and> sorted (filter (\<lambda>n. n \<noteq> MASTER) ns) \<and>
    (MASTER \<in> os_expected r \<longrightarrow> last ns = MASTER) \<and>
    start_official_stream e pl s =
      (s\<lparr>mn_official := dput k (r\<lparr>os_commit_dispatched := True\<rparr>) (mn_official s)\<rparr>,
       map (\<lambda>(i, n). delivery s CMD_START_OFFICIAL_STREAM n (commit_payload e pl r (i, n))) (enumerate 1 ns), None)"
proof -
  have "sorted (filter (\<lambda>n. n \<noteq> MASTER) (commit_order (os_expected r)))"
    using assms(5) by (auto simp: commit_order_def Let_def sorted_filter [where f = "\<lambda>x. x", simplified])
  moreover have "MASTER \<in> os_expected r \<longrightarrow> last (commit_order (os_expected r)) = MASTER"
    by (simp add: commit_order_def Let_def)
  ultimately show ?thesis
    using start_official_eq [OF assms] distinct_commit_order [OF assms(5)] by blast
qed

theorem official_commit_delivered_witness:
  "\<exists>r ns. map_of (mn_official demo_start) ''k'' = Some r \<and>
     (\<exists>t. start_official_stream calm_env (VDict [(''start_session_id'', VStr ''k'')])
        (demo_start\<lparr>mn_official := [(''k'', r\<lparr>os_expected := {MASTER}, os_ready := {MASTER}\<rparr>)]\<rparr>)
      = (t, map (\<lambda>(i, n). MLocal CMD_START_OFFICIAL_STREAM (commit_payload calm_env
           (VDict [(''start_session_id'', VStr ''k'')]) r (i, n))) (enumerate 1 [MASTER]), None)) \<and> set ns = {MASTER}"
proof -
  obtain r where r: "map_of (mn_official demo_start) ''k'' = Some r"
    by (simp add: demo_start_def create_official_start_record_def upd_def)
  let ?r = "r\<lparr>os_expected := {MASTER}, os_ready := {MASTER}\<rparr>"
  let ?s = "demo_start\<lparr>mn_official := [(''k'', ?r)]\<rparr>"
  let ?pl = "VDict [(''start_session_id'', VStr ''k'')]"
  have "no_exceptions calm_env" by (simp add: no_exceptions_def calm_env_def)
  from official_commit_delivered [OF this, of ?s "''k''" ?r ?pl] obtain ns where
    ns: "distinct ns" "set ns = {MASTER}" and run: "start_official_stream calm_env ?pl ?s =
      (?s\<lparr>mn_official := dput ''k'' (?r\<lparr>os_commit_dispatched := True\<rparr>) (mn_official ?s)\<rparr>,
       map (\<lambda>(i, n). delivery ?s CMD_START_OFFICIAL_STREAM n (commit_payload calm_env ?pl ?r (i, n))) (enumerate 1 ns), None)"
    by (auto simp: vget_VDict reachable_node_def calm_env_def)
  from ns have "ns = [MASTER]" by (cases ns; cases "tl ns") auto
  with run r show ?thesis
    by (intro exI [of _ r] exI [of _ ns]) (auto simp: delivery_def commit_payload_def)
qed



text \<open>Commands reach the owners: when a command names subjects and the calls succeed, each node
  that owns one of them receives exactly one command, which lists exactly its own subjects in the
  order given, and a start command opens a barrier that expects exactly these nodes.\<close>

theorem subjects_routed_to_owners:
  assumes "no_exceptions e" and "ty \<notin> set STOP_COMMANDS" and "truthy (vget pl ''subject_ids'')"
    and "\<forall>sid \<in> set (id_list (vget pl ''subject_ids'')). reachable_node e s (owner_of (mn_registry s) sid)"
  shows "\<exists>t ns. distinct ns \<and> set ns = owner_of (mn_registry s) ` set (id_list (vget pl ''subject_ids'')) \<and>
    route_subjects e ty pl ts start stop s =
      (t, map (\<lambda>n. delivery s ty n (session_fields ts start stop (vput ''subject_ids''
            (ids (filter (\<lambda>sid. owner_of (mn_registry s) sid = n) (id_list (vget pl ''subject_ids'')))) pl))) ns, None) \<and>
    (ty \<in> set START_COMMANDS \<longrightarrow> (\<exists>r. map_of (mn_official t) (py_str start) = Some r \<and>
       os_expected r = set ns \<and> os_ready r = {} \<and> \<not> os_ready_announced r))"
proof -
  let ?sids = "id_list (vget pl ''subject_ids'')" and ?d = "nodes_to_subjects (mn_registry s) (id_list (vget pl ''subject_ids''))"
  have d: "?d = map (\<lambda>n. (n, filter (\<lambda>sid. owner_of (mn_registry s) sid = n) ?sids)) (dkeys ?d)"
  proof -
    have "ss = filter (\<lambda>sid. owner_of (mn_registry s) sid = n) ?sids" if "(n, ss) \<in> set ?d" for n ss
      using that nodes_to_subjects_spec(1,3) [of "mn_registry s" ?sids] by (metis in_plan_iff)
    then show ?thesis by (auto simp: map_idI comp_def intro!: nth_equalityI) (metis nth_mem prod.collapse)
  qed
  from route_given [OF assms] obtain t where t: "route_subjects e ty pl ts start stop s =
      (t, map (\<lambda>(n, ss). delivery s ty n (session_fields ts start stop (vput ''subject_ids'' (ids ss) pl))) ?d, None)"
    "ty \<in> set START_COMMANDS \<longrightarrow> (\<exists>r. map_of (mn_official t) (py_str start) = Some r \<and>
       os_expected r = owner_of (mn_registry s) ` set ?sids \<and> os_ready r = {} \<and> \<not> os_ready_announced r)" by blast
  have "map (\<lambda>(n, ss). delivery s ty n (session_fields ts start stop (vput ''subject_ids'' (ids ss) pl))) ?d =
      map (\<lambda>n. delivery s ty n (session_fields ts start stop (vput ''subject_ids''
            (ids (filter (\<lambda>sid. owner_of (mn_registry s) sid = n) ?sids)) pl))) (dkeys ?d)"
    by (subst d) (simp add: comp_def)
  with t nodes_to_subjects_spec(1,2) [of "mn_registry s" ?sids] show ?thesis
    by (intro exI [of _ t] exI [of _ "dkeys ?d"]) simp
qed

theorem subjects_routed_to_owners_witness:
  "\<exists>t. route_subjects calm_env CMD_CONNECT_SUBJECTS (VDict [(''subject_ids'', VList [VStr ''s1'', VStr ''s2''])])
      VNone VNone VNone demo_master =
    (t, [MLocal CMD_CONNECT_SUBJECTS (VDict [(''subject_ids'', VList [VStr ''s1'', VStr ''s2''])])], None)"
proof -
  let ?pl = "VDict [(''subject_ids'', VList [VStr ''s1'', VStr ''s2''])]"
  have own: "owner_of (mn_registry demo_master) sid = MASTER" for sid
    by (simp add: owner_of_def demo_master_def init_master_def get_subjects_def register_node_def init_node_registry_def)
  have sids: "id_list (vget ?pl ''subject_ids'') = [''s1'', ''s2'']" by (simp add: id_list_def vget_VDict)
  have ne: "no_exceptions calm_env" by (simp add: no_exceptions_def calm_env_def)
  have stop: "CMD_CONNECT_SUBJECTS \<notin> set STOP_COMMANDS" by (simp add: STOP_COMMANDS_def)
  have tr: "truthy (vget ?pl ''subject_ids'')" by (simp add: vget_VDict)
  have reach: "\<forall>sid \<in> set (id_list (vget ?pl ''subject_ids'')). reachable_node calm_env demo_master
      (owner_of (mn_registry demo_master) sid)"
    by (simp add: own reachable_node_def calm_env_def)
  from subjects_routed_to_owners [OF ne stop tr reach, of VNone VNone VNone]
  obtain t ns where ns: "distinct ns"
    "set ns = owner_of (mn_registry demo_master) ` set (id_list (vget ?pl ''subject_ids''))" and run:
    "route_subjects calm_env CMD_CONNECT_SUBJECTS ?pl VNone VNone VNone demo_master = (t, map (\<lambda>n.
       delivery demo_master CMD_CONNECT_SUBJECTS n (session_fields VNone VNone VNone (vput ''subject_ids''
            (ids (filter (\<lambda>sid. owner_of (mn_registry demo_master) sid = n)
               (id_list (vget ?pl ''subject_ids'')))) ?pl))) ns, None)"
    by blast
  from ns have "ns = [MASTER]" by (cases ns; cases "tl ns") (auto simp: own sids)
  with run show ?thesis
    by (auto simp: own sids delivery_def session_fields_def ids_def vput_def)
qed


end
