(* ===== verification/Subjects.thy ===== *)
theory Subjects
  imports Complex_Main Master_Plan
begin

text \<open>
  Subjects and their sensors: \<^verbatim>\<open>core/subject.py\<close> (class \<open>Subject\<close>) and
  \<^verbatim>\<open>core/orchestrators/subject_graph.py\<close> (class \<open>SubjectGraph\<close>).

  A subject's configuration is the JSON value of the client. The installed plugin classes are a
  parameter: \<open>resolve name\<close> is \<open>resolve_installed_sensor_class\<close>, and a \<open>sensor_class\<close> says what
  the code uses of a class: the computations of its specification (\<open>None\<close> when
  \<open>load_raw_spec\<close> raises), the exception of its constructor, and its default sampling rate, a
  rational number. Blocks handed to the file manager are the effects of an ingestion.
\<close>

section \<open>Subjects\<close>

record sample =
  sa_address :: string
  sa_data :: val

record sensor_meta =
  sm_location :: val
  sm_f_block_size :: "int option"
  sm_algorithm :: val

record sensor_entry =
  se_name :: string
  se_address :: "string option"
  se_raw_data :: "sample list"
  se_meta :: sensor_meta

record subject =
  sb_subject_id :: string
  sb_configs :: "val list"
  sb_sensors :: "sensor_entry list"
  sb_sample_count :: nat
  sb_is_streaming :: bool

definition new_subject :: "string \<Rightarrow> val list \<Rightarrow> subject" where
  "new_subject sid configs = \<lparr>sb_subject_id = sid, sb_configs = configs, sb_sensors = [],
     sb_sample_count = 0, sb_is_streaming = False\<rparr>"

definition add_sensor :: "sensor_entry \<Rightarrow> subject \<Rightarrow> subject" where
  "add_sensor sensor sub = sub\<lparr>sb_sensors := sb_sensors sub @ [sensor\<lparr>se_raw_data := []\<rparr>]\<rparr>"

text \<open>The first entry with an address, and its replacement.\<close>

definition find_entry :: "string \<Rightarrow> sensor_entry list \<Rightarrow> sensor_entry option" where
  "find_entry address es = find (\<lambda>e. se_address e = Some address) es"

fun put_entry :: "string \<Rightarrow> sensor_entry \<Rightarrow> sensor_entry list \<Rightarrow> sensor_entry list" where
  "put_entry address new [] = []"
| "put_entry address new (e # es) =
     (if se_address e = Some address then new # es else e # put_entry address new es)"

definition block_size :: "sensor_entry \<Rightarrow> int" where
  "block_size e = (case sm_f_block_size (se_meta e) of None \<Rightarrow> 300 | Some n \<Rightarrow> n)"

text \<open>Python slices \<open>xs[:n]\<close> and \<open>xs[n:]\<close>, also for negative \<open>n\<close>.\<close>

definition slice_to :: "int \<Rightarrow> 'a list \<Rightarrow> 'a list" where
  "slice_to n xs = (if n \<ge> 0 then take (nat n) xs else take (nat (int (length xs) + n)) xs)"

definition slice_from :: "int \<Rightarrow> 'a list \<Rightarrow> 'a list" where
  "slice_from n xs = (if n \<ge> 0 then drop (nat n) xs else drop (nat (int (length xs) + n)) xs)"

text \<open>The \<open>while\<close> loop that hands over complete blocks; a loop that does not end is \<open>None\<close>.\<close>

partial_function (option) hand_over ::
  "int \<Rightarrow> 'a list \<Rightarrow> 'a list list \<Rightarrow> ('a list \<times> 'a list list) option" where
  "hand_over n raw blocks =
     (if int (length raw) \<ge> n then hand_over n (slice_from n raw) (blocks @ [slice_to n raw])
      else Some (raw, blocks))"

text \<open>\<open>ingest_sample\<close>: the new subject, the blocks enqueued for the sensor, and the returned flag.\<close>

definition ingest_sample :: "sample \<Rightarrow> subject \<Rightarrow> (subject \<times> sample list list \<times> bool) option" where
  "ingest_sample x sub0 =
     (let sub = sub0\<lparr>sb_sample_count := Suc (sb_sample_count sub0)\<rparr> in
      case find_entry (sa_address x) (sb_sensors sub) of
        None \<Rightarrow> Some (sub, [], False)
      | Some e \<Rightarrow>
          map_option (\<lambda>(raw, blocks).
             (sub\<lparr>sb_sensors := put_entry (sa_address x) (e\<lparr>se_raw_data := raw\<rparr>) (sb_sensors sub)\<rparr>, blocks, True))
            (hand_over (block_size e) (se_raw_data e @ [x]) []))"

text \<open>\<open>ingest_result\<close> and \<open>ingest_intermediate_result\<close>: what is written to storage, if anything.\<close>

definition ingest_result :: "val \<Rightarrow> subject \<Rightarrow> (sensor_entry \<times> val) option" where
  "ingest_result result sub = (case vget result ''address'' of
     VStr address \<Rightarrow> map_option (\<lambda>e. (e, result)) (find_entry address (sb_sensors sub))
   | VNone \<Rightarrow> map_option (\<lambda>e. (e, result)) (find (\<lambda>e. se_address e = None) (sb_sensors sub))
   | _ \<Rightarrow> None)"

definition result_for_subject :: "subject \<Rightarrow> val \<Rightarrow> bool" where
  "result_for_subject sub entry \<longleftrightarrow>
     (let addr = vget entry ''address'' in
      (truthy addr \<and> (\<exists>e \<in> set (sb_sensors sub). map_option VStr (se_address e) = Some addr)) \<or>
      vget entry ''subject_id'' = VStr (sb_subject_id sub))"

definition ingest_intermediate_result :: "val \<Rightarrow> subject \<Rightarrow> (string \<times> string \<times> val) option" where
  "ingest_intermediate_result result sub =
     (let subject_results = filter (result_for_subject sub) (as_list (vget_or result ''results'' (VList [])));
          algo_name = py_str (py_or (vget result ''algorithm_name'') (VStr []))
      in if subject_results = [] then None
         else if algo_name = [] then None
         else Some (sb_subject_id sub, algo_name,
                VDict [(''algorithm_name'', vget result ''algorithm_name''), (''stage'', vget result ''stage''),
                       (''results'', VList subject_results)]))"

definition set_location :: "string \<Rightarrow> val \<Rightarrow> subject \<Rightarrow> py_error + subject \<times> sensor_entry" where
  "set_location address location sub = (case find_entry address (sb_sensors sub) of
     None \<Rightarrow> Inl (ValueError ''No sensor with address for subject'' [VStr address, VStr (sb_subject_id sub)])
   | Some e \<Rightarrow>
       (let e = e\<lparr>se_meta := (se_meta e)\<lparr>sm_location := location\<rparr>\<rparr> in
        Inr (sub\<lparr>sb_sensors := put_entry address e (sb_sensors sub)\<rparr>, e)))"

section \<open>The subject graph\<close>

record sensor_class =
  sc_computations :: "val list option"
  sc_new_error :: "string option"
  sc_sampling_rate :: "rat option"

record subject_graph =
  sg_max_total_sensors :: int
  sg_subjects :: "subject list"

datatype init_error =
    TooManySensors int int
  | LocationCount string val int nat
  | DuplicateLocation string val val
  | UnsupportedPlugin val
  | CannotRun string val val
  | SensorInitFailed val string

datatype init_failure = Rejected init_error | Raised py_error

fun lift_py :: "py_error + 'a \<Rightarrow> init_failure + 'a" where
  "lift_py (Inl e) = Inl (Raised e)"
| "lift_py (Inr x) = Inr x"

definition folded :: "val \<Rightarrow> string" where
  "folded v = py_lower (py_strip (py_str v))"

text \<open>The validation loops over the sensor entries of one subject.\<close>

fun check_locations ::
  "string \<Rightarrow> val \<Rightarrow> val list \<Rightarrow> (string \<times> string) list \<Rightarrow> init_failure + (string \<times> string) list" where
  "check_locations sid name [] seen = Inr seen"
| "check_locations sid name (location # locations) seen =
     (let key = (folded (py_or name (VStr [])), folded location) in
      if key \<in> set seen then Inl (Rejected (DuplicateLocation sid name location))
      else check_locations sid name locations (seen @ [key]))"

definition locations_of :: "val \<Rightarrow> val list" where
  "locations_of s_conf = as_list (vget_or s_conf ''locations'' (VList []))"

fun check_sensors ::
  "string \<Rightarrow> val list \<Rightarrow> (string \<times> string) list \<Rightarrow> init_failure + (string \<times> string) list" where
  "check_sensors sid [] seen = Inr seen"
| "check_sensors sid (s_conf # confs) seen =
     rbind (lift_py (rbind (py_get s_conf ''number_of'' (VInt 1)) py_int)) (\<lambda>num.
       if int (length (locations_of s_conf)) \<noteq> num
       then Inl (Rejected (LocationCount sid (vget s_conf ''local_name'') num (length (locations_of s_conf))))
       else rbind (check_locations sid (vget s_conf ''local_name'') (locations_of s_conf) seen)
              (check_sensors sid confs))"

definition algorithm_of :: "val \<Rightarrow> val" where
  "algorithm_of s_conf = py_or (vget s_conf ''compute_algorithm'')
     (VDict [(''name'', VStr ''pass_through''), (''inputs'', VDict [])])"

definition check_algorithm :: "string \<Rightarrow> sensor_class \<Rightarrow> val \<Rightarrow> init_failure + unit" where
  "check_algorithm sid cls s_conf =
     rbind (lift_py (py_get (algorithm_of s_conf) ''name'' VNone)) (\<lambda>algo_name.
       let requested = py_lower (py_strip (py_str (py_or algo_name (VStr []))));
           supported = (case sc_computations cls of None \<Rightarrow> [] | Some cs \<Rightarrow> cs)
       in if requested \<noteq> [] \<and> requested \<noteq> ''pass_through'' \<and>
             requested \<notin> set (map (\<lambda>n. py_lower (py_strip (py_str n))) (filter truthy supported))
          then Inl (Rejected (CannotRun sid (vget s_conf ''local_name'') algo_name))
          else Inr ())"

text \<open>\<open>int(rate * 5)\<close> with \<open>rate = attributes.get("SAMPLING_RATE") or 1\<close>, the attributes being the
  defaults of the class updated by the client's, where a rate is a number or null.\<close>

definition truncated :: "rat \<Rightarrow> int" where
  "truncated q = (if q \<ge> 0 then \<lfloor>q\<rfloor> else \<lceil>q\<rceil>)"

definition sampling_rate :: "sensor_class \<Rightarrow> val \<Rightarrow> rat" where
  "sampling_rate cls s_conf =
     (let rate = (case map_of (as_dict (py_or (vget s_conf ''attributes'') (VDict []))) ''SAMPLING_RATE'' of
                    None \<Rightarrow> sc_sampling_rate cls
                  | Some (VInt i) \<Rightarrow> Some (rat_of_int i)
                  | Some (VBool b) \<Rightarrow> Some (of_bool b)
                  | Some _ \<Rightarrow> None)
      in case rate of None \<Rightarrow> 1 | Some q \<Rightarrow> if q = 0 then 1 else q)"

definition f_block_size :: "sensor_class \<Rightarrow> val \<Rightarrow> int" where
  "f_block_size cls s_conf = truncated (sampling_rate cls s_conf * 5)"

definition new_entry :: "sensor_class \<Rightarrow> val \<Rightarrow> val \<Rightarrow> sensor_entry" where
  "new_entry cls s_conf location = \<lparr>se_name = py_str (vget s_conf ''local_name''), se_address = None,
     se_raw_data = [], se_meta = \<lparr>sm_location = location, sm_f_block_size = Some (f_block_size cls s_conf),
       sm_algorithm = algorithm_of s_conf\<rparr>\<rparr>"

fun build_sensors ::
  "(val \<Rightarrow> sensor_class option) \<Rightarrow> string \<Rightarrow> val list \<Rightarrow> subject \<Rightarrow> init_failure + subject" where
  "build_sensors resolve sid [] sub = Inr sub"
| "build_sensors resolve sid (s_conf # confs) sub =
     (case map_of (as_dict s_conf) ''local_name'' of
        None \<Rightarrow> Inl (Raised (KeyError (VStr ''local_name'')))
      | Some name \<Rightarrow> (case resolve name of
          None \<Rightarrow> Inl (Rejected (UnsupportedPlugin name))
        | Some cls \<Rightarrow>
            rbind (check_algorithm sid cls s_conf) (\<lambda>_.
              case sc_new_error cls of
                Some exc \<Rightarrow> if locations_of s_conf = [] then build_sensors resolve sid confs sub
                           else Inl (Rejected (SensorInitFailed name exc))
              | None \<Rightarrow> build_sensors resolve sid confs
                          (fold (\<lambda>loc. add_sensor (new_entry cls s_conf loc)) (locations_of s_conf) sub))))"

definition build_subject :: "(val \<Rightarrow> sensor_class option) \<Rightarrow> val \<Rightarrow> init_failure + subject" where
  "build_subject resolve conf =
     (case map_of (as_dict conf) ''subject_id'' of
        None \<Rightarrow> Inl (Raised (KeyError (VStr ''subject_id'')))
      | Some sid \<Rightarrow>
          (let confs = as_list (vget_or conf ''sensors'' (VList [])) in
           rbind (check_sensors (py_str sid) confs []) (\<lambda>_.
             build_sensors resolve (py_str sid) confs (new_subject (py_str sid) confs))))"

fun init_each ::
  "(val \<Rightarrow> sensor_class option) \<Rightarrow> val list \<Rightarrow> subject_graph \<Rightarrow> subject_graph \<times> init_failure option" where
  "init_each resolve [] g = (g, None)"
| "init_each resolve (conf # confs) g = (case build_subject resolve conf of
     Inl f \<Rightarrow> (g, Some f)
   | Inr sub \<Rightarrow> init_each resolve confs (g\<lparr>sg_subjects := sg_subjects g @ [sub]\<rparr>))"

definition init_subjects ::
  "(val \<Rightarrow> sensor_class option) \<Rightarrow> val list \<Rightarrow> subject_graph \<Rightarrow> subject_graph \<times> init_failure option" where
  "init_subjects resolve confs g0 =
     (let g = g0\<lparr>sg_subjects := []\<rparr> in
      case rmap sensor_count confs of
        Inl e \<Rightarrow> (g, Some (Raised e))
      | Inr ns \<Rightarrow>
          if sum_list ns > sg_max_total_sensors g
          then (g, Some (Rejected (TooManySensors (sum_list ns) (sg_max_total_sensors g))))
          else init_each resolve confs g)"

definition get_subjects_by_ids :: "string list \<Rightarrow> subject_graph \<Rightarrow> subject list" where
  "get_subjects_by_ids sids g = filter (\<lambda>s. sb_subject_id s \<in> set sids) (sg_subjects g)"

definition find_subject_by_address :: "string \<Rightarrow> subject_graph \<Rightarrow> subject option" where
  "find_subject_by_address address g =
     find (\<lambda>s. \<exists>e \<in> set (sb_sensors s). se_address e = Some address) (sg_subjects g)"

definition find_subject_by_id :: "string \<Rightarrow> subject_graph \<Rightarrow> subject option" where
  "find_subject_by_id sid g = find (\<lambda>s. sb_subject_id s = sid) (sg_subjects g)"

definition find_location_by_address :: "string \<Rightarrow> subject_graph \<Rightarrow> (subject \<times> val) option" where
  "find_location_by_address address g = (case find_subject_by_address address g of
     None \<Rightarrow> None
   | Some s \<Rightarrow> Some (s, case find_entry address (sb_sensors s) of
                         None \<Rightarrow> VNone | Some e \<Rightarrow> sm_location (se_meta e)))"

end
