(* ===== verification/Subjects_Props.thy ===== *)
theory Subjects_Props
  imports Subjects
begin

text \<open>
  Correctness of the subjects: the block loop of the ingestion, losslessness of the ingestion
  over any sequence of samples, and what an initialization of the subject graph establishes.
\<close>

section \<open>The block loop\<close>

lemma hand_over_terminates:
  assumes "n > 0"
  shows "\<exists>raw' bs. hand_over n raw blocks = Some (raw', blocks @ bs) \<and> concat bs @ raw' = raw \<and>
    (\<forall>b \<in> set bs. int (length b) = n) \<and> int (length raw') < n"
proof (induction raw arbitrary: blocks rule: length_induct)
  case (1 raw)
  show ?case
  proof (cases "int (length raw) \<ge> n")
    case False
    then show ?thesis by (intro exI [of _ raw] exI [of _ "[]"]) (simp add: hand_over.simps)
  next
    case True
    then have "length (drop (nat n) raw) < length raw" using assms by simp
    with 1 obtain raw' bs where ih: "hand_over n (drop (nat n) raw) (blocks @ [take (nat n) raw]) =
        Some (raw', (blocks @ [take (nat n) raw]) @ bs)" "concat bs @ raw' = drop (nat n) raw"
      "\<forall>b \<in> set bs. int (length b) = n" "int (length raw') < n" by blast
    have "hand_over n raw blocks = Some (raw', blocks @ (take (nat n) raw # bs))"
      using True assms ih(1) by (simp add: hand_over.simps [of n raw] slice_to_def slice_from_def)
    moreover have "concat (take (nat n) raw # bs) @ raw' = raw" using ih(2) by simp
    moreover have "\<forall>b \<in> set (take (nat n) raw # bs). int (length b) = n" using ih(3) True assms by simp
    ultimately show ?thesis using ih(4) by blast
  qed
qed

lemma hand_over_positive: "hand_over n raw blocks = Some y \<Longrightarrow> n > 0"
  by (erule hand_over.raw_induct [where P = "\<lambda>n raw blocks y. n > 0", rotated])
    (fastforce split: if_splits)

lemma hand_over_diverges: "n \<le> 0 \<Longrightarrow> hand_over n raw blocks = None"
  using hand_over_positive [of n raw blocks] by (cases "hand_over n raw blocks") auto

section \<open>Ingestion\<close>

lemma find_entry_put:
  "se_address new = Some a \<Longrightarrow>
   find_entry b (put_entry a new es) = (if a = b \<and> find_entry a es \<noteq> None then Some new else find_entry b es)"
  by (induction es) (auto simp: find_entry_def)

lemma find_entry_address: "find_entry a es = Some e \<Longrightarrow> se_address e = Some a"
  by (auto simp: find_entry_def find_Some_iff)

fun ingest_all :: "sample list \<Rightarrow> subject \<Rightarrow> (subject \<times> (string \<times> sample list) list) option" where
  "ingest_all [] sub = Some (sub, [])"
| "ingest_all (x # xs) sub = (case ingest_sample x sub of
     None \<Rightarrow> None
   | Some (sub', bs, _) \<Rightarrow> map_option (\<lambda>(sub'', rest). (sub'', map (Pair (sa_address x)) bs @ rest)) (ingest_all xs sub'))"

definition blocks_of :: "string \<Rightarrow> (string \<times> sample list) list \<Rightarrow> sample list list" where
  "blocks_of a bs = map snd (filter (\<lambda>(b, _). b = a) bs)"

definition positive_blocks :: "subject \<Rightarrow> bool" where
  "positive_blocks sub \<longleftrightarrow> (\<forall>e \<in> set (sb_sensors sub). block_size e > 0)"

lemma set_put_entry: "set (put_entry a new es) \<subseteq> insert new (set es)"
  by (induction es) auto

lemma ingest_sample_spec:
  assumes "positive_blocks sub"
  shows "\<exists>sub' bs f. ingest_sample x sub = Some (sub', bs, f) \<and> positive_blocks sub' \<and>
    (f \<longleftrightarrow> find_entry (sa_address x) (sb_sensors sub) \<noteq> None) \<and>
    (\<forall>a e. find_entry a (sb_sensors sub) = Some e \<longrightarrow> (\<exists>raw. find_entry a (sb_sensors sub') = Some (e\<lparr>se_raw_data := raw\<rparr>) \<and>
       (if a = sa_address x then concat bs @ raw = se_raw_data e @ [x] \<and> int (length raw) < block_size e \<and>
          (\<forall>b \<in> set bs. int (length b) = block_size e) else raw = se_raw_data e)))"
proof (cases "find_entry (sa_address x) (sb_sensors sub)")
  case None
  then have "a \<noteq> sa_address x" if "find_entry a (sb_sensors sub) = Some e" for a e using that by auto
  moreover have "\<exists>raw. e = e\<lparr>se_raw_data := raw\<rparr> \<and> raw = se_raw_data e" for e :: sensor_entry
    by (intro exI [of _ "se_raw_data e"]) simp
  ultimately show ?thesis
    using assms None by (auto simp: ingest_sample_def Let_def positive_blocks_def)
next
  case (Some e)
  have mem: "e \<in> set (sb_sensors sub)" using Some by (auto simp: find_entry_def find_Some_iff)
  then have pos: "block_size e > 0" using assms by (simp add: positive_blocks_def)
  from hand_over_terminates [OF pos, of "se_raw_data e @ [x]" "[]"] obtain raw bs where
    h: "hand_over (block_size e) (se_raw_data e @ [x]) [] = Some (raw, bs)" "concat bs @ raw = se_raw_data e @ [x]"
    "\<forall>b \<in> set bs. int (length b) = block_size e" "int (length raw) < block_size e" by auto
  let ?new = "e\<lparr>se_raw_data := raw\<rparr>"
  let ?sub = "sub\<lparr>sb_sample_count := Suc (sb_sample_count sub), sb_sensors := put_entry (sa_address x) ?new (sb_sensors sub)\<rparr>"
  have run: "ingest_sample x sub = Some (?sub, bs, True)"
    using Some h(1) by (simp add: ingest_sample_def Let_def)
  have bs_new: "block_size ?new = block_size e" by (simp add: block_size_def)
  have "positive_blocks ?sub"
    using assms set_put_entry [of "sa_address x" ?new "sb_sensors sub"] pos bs_new
    by (auto simp: positive_blocks_def)
  moreover have "find_entry a (sb_sensors ?sub) = (if sa_address x = a then Some ?new else find_entry a (sb_sensors sub))" for a
    using find_entry_put [of ?new "sa_address x" a "sb_sensors sub"] find_entry_address [OF Some] Some by auto
  moreover have "\<exists>raw. e' = e'\<lparr>se_raw_data := raw\<rparr> \<and> raw = se_raw_data e'" for e' :: sensor_entry
    by (intro exI [of _ "se_raw_data e'"]) simp
  ultimately show ?thesis using run Some h by (intro exI [of _ ?sub] exI [of _ bs] exI [of _ True]) auto
qed

lemma ingest_all_spec:
  assumes "positive_blocks sub"
  shows "\<exists>sub' bs. ingest_all xs sub = Some (sub', bs) \<and>
    (\<forall>a e. find_entry a (sb_sensors sub) = Some e \<longrightarrow> int (length (se_raw_data e)) < block_size e \<longrightarrow>
      (\<exists>raw. find_entry a (sb_sensors sub') = Some (e\<lparr>se_raw_data := raw\<rparr>) \<and>
        concat (blocks_of a bs) @ raw = se_raw_data e @ filter (\<lambda>x. sa_address x = a) xs \<and>
        int (length raw) < block_size e \<and> (\<forall>b \<in> set (blocks_of a bs). int (length b) = block_size e)))"
  using assms
proof (induction xs arbitrary: sub)
  case Nil
  have "\<exists>raw. e = e\<lparr>se_raw_data := raw\<rparr> \<and> raw = se_raw_data e" for e :: sensor_entry
    by (intro exI [of _ "se_raw_data e"]) simp
  then show ?case by (auto simp: blocks_of_def)
next
  case (Cons x xs)
  from ingest_sample_spec [OF Cons.prems, of x] obtain sub1 bs1 f where one: "ingest_sample x sub = Some (sub1, bs1, f)"
    "positive_blocks sub1" and step: "\<And>a e. find_entry a (sb_sensors sub) = Some e \<Longrightarrow>
      \<exists>raw. find_entry a (sb_sensors sub1) = Some (e\<lparr>se_raw_data := raw\<rparr>) \<and>
       (if a = sa_address x then concat bs1 @ raw = se_raw_data e @ [x] \<and> int (length raw) < block_size e \<and>
          (\<forall>b \<in> set bs1. int (length b) = block_size e) else raw = se_raw_data e)" by blast
  from Cons.IH [OF one(2)] obtain sub' bs where rest: "ingest_all xs sub1 = Some (sub', bs)" and
    ih: "\<And>a e. find_entry a (sb_sensors sub1) = Some e \<Longrightarrow> int (length (se_raw_data e)) < block_size e \<Longrightarrow>
      \<exists>raw. find_entry a (sb_sensors sub') = Some (e\<lparr>se_raw_data := raw\<rparr>) \<and>
        concat (blocks_of a bs) @ raw = se_raw_data e @ filter (\<lambda>x. sa_address x = a) xs \<and>
        int (length raw) < block_size e \<and> (\<forall>b \<in> set (blocks_of a bs). int (length b) = block_size e)" by blast
  let ?bs = "map (Pair (sa_address x)) bs1 @ bs"
  have run: "ingest_all (x # xs) sub = Some (sub', ?bs)" using one rest by simp
  have blocks: "blocks_of a ?bs = (if a = sa_address x then bs1 else []) @ blocks_of a bs" for a
    by (auto simp: blocks_of_def comp_def)
  show ?case
  proof (intro exI [of _ sub'] exI [of _ ?bs] conjI run allI impI)
    fix a e assume e: "find_entry a (sb_sensors sub) = Some e" "int (length (se_raw_data e)) < block_size e"
    from step [OF e(1)] obtain raw where raw: "find_entry a (sb_sensors sub1) = Some (e\<lparr>se_raw_data := raw\<rparr>)"
      "if a = sa_address x then concat bs1 @ raw = se_raw_data e @ [x] \<and> int (length raw) < block_size e \<and>
          (\<forall>b \<in> set bs1. int (length b) = block_size e) else raw = se_raw_data e" by blast
    have bsz: "block_size (e\<lparr>se_raw_data := raw\<rparr>) = block_size e" by (simp add: block_size_def)
    from ih [OF raw(1)] raw(2) e(2) obtain raw' where "find_entry a (sb_sensors sub') = Some (e\<lparr>se_raw_data := raw'\<rparr>)"
      "concat (blocks_of a bs) @ raw' = raw @ filter (\<lambda>x. sa_address x = a) xs"
      "int (length raw') < block_size e" "\<forall>b \<in> set (blocks_of a bs). int (length b) = block_size e"
      unfolding bsz by (auto split: if_splits)
    with raw(2) show "\<exists>raw. find_entry a (sb_sensors sub') = Some (e\<lparr>se_raw_data := raw\<rparr>) \<and>
        concat (blocks_of a ?bs) @ raw = se_raw_data e @ filter (\<lambda>x. sa_address x = a) (x # xs) \<and>
        int (length raw) < block_size e \<and> (\<forall>b \<in> set (blocks_of a ?bs). int (length b) = block_size e)"
      unfolding blocks by (intro exI [of _ raw']) (auto split: if_splits)
  qed
qed


section \<open>Initialization of the graph\<close>

definition sensor_keys :: "val list \<Rightarrow> (string \<times> string) list" where
  "sensor_keys confs = concat (map (\<lambda>c. map (\<lambda>l. (folded (py_or (vget c ''local_name'') (VStr [])), folded l))
     (locations_of c)) confs)"

lemma rbind_Inr_lift: "rbind (lift_py r) f = Inr y \<longleftrightarrow> (\<exists>x. r = Inr x \<and> f x = Inr y)"
  by (cases r) auto

lemma check_locations_Inr:
  "check_locations sid name ls seen = Inr seen' \<Longrightarrow>
   seen' = seen @ map (\<lambda>l. (folded (py_or name (VStr [])), folded l)) ls \<and> (distinct seen \<longrightarrow> distinct seen')"
proof (induction ls arbitrary: seen)
  case (Cons l ls)
  let ?key = "(folded (py_or name (VStr [])), folded l)"
  from Cons.prems have new: "?key \<notin> set seen" and rest: "check_locations sid name ls (seen @ [?key]) = Inr seen'"
    by (auto simp: Let_def split: if_splits)
  note ih = Cons.IH [OF rest]
  show ?case
  proof (intro conjI impI)
    show "seen' = seen @ map (\<lambda>l. (folded (py_or name (VStr [])), folded l)) (l # ls)" using ih by simp
    have "distinct (seen @ [?key])" if "distinct seen" using new that by simp
    then show "distinct seen'" if "distinct seen" using ih that by blast
  qed
qed simp

lemma check_sensors_Inr:
  "check_sensors sid confs seen = Inr seen' \<Longrightarrow>
   seen' = seen @ sensor_keys confs \<and> (distinct seen \<longrightarrow> distinct seen') \<and>
   list_all (\<lambda>c. rbind (py_get c ''number_of'' (VInt 1)) py_int = Inr (int (length (locations_of c)))) confs"
proof (induction confs arbitrary: seen)
  case (Cons c confs)
  from Cons.prems obtain num where num: "rbind (py_get c ''number_of'' (VInt 1)) py_int = Inr num"
      "int (length (locations_of c)) = num"
    and bind: "rbind (check_locations sid (vget c ''local_name'') (locations_of c) seen) (check_sensors sid confs) = Inr seen'"
    by (auto simp only: check_sensors.simps rbind_Inr_lift split: if_splits)
  from bind obtain mid where mid: "check_locations sid (vget c ''local_name'') (locations_of c) seen = Inr mid"
    and rest: "check_sensors sid confs mid = Inr seen'"
    by (auto simp only: rbind_Inr_iff)
  note ih = Cons.IH [OF rest] and here = check_locations_Inr [OF mid]
  show ?case
  proof (intro conjI impI)
    show "seen' = seen @ sensor_keys (c # confs)" using ih here by (simp add: sensor_keys_def)
    show "distinct seen'" if "distinct seen" using ih here that by blast
    show "list_all (\<lambda>c. rbind (py_get c ''number_of'' (VInt 1)) py_int = Inr (int (length (locations_of c)))) (c # confs)"
      using ih num by simp
  qed
qed (simp add: sensor_keys_def)

lemma fold_add_sensor:
  "sb_sensors (fold (\<lambda>l. add_sensor (f l)) ls sub) = sb_sensors sub @ map (\<lambda>l. (f l)\<lparr>se_raw_data := []\<rparr>) ls \<and>
   sb_subject_id (fold (\<lambda>l. add_sensor (f l)) ls sub) = sb_subject_id sub \<and>
   sb_configs (fold (\<lambda>l. add_sensor (f l)) ls sub) = sb_configs sub"
  by (induction ls arbitrary: sub) (auto simp: add_sensor_def)

definition fresh_entry :: "sensor_entry \<Rightarrow> bool" where
  "fresh_entry e \<longleftrightarrow> se_address e = None \<and> se_raw_data e = []"

lemma build_sensors_Inr:
  "build_sensors resolve sid confs sub = Inr sub' \<Longrightarrow>
   sb_subject_id sub' = sb_subject_id sub \<and> sb_configs sub' = sb_configs sub \<and>
   map (\<lambda>e. sm_location (se_meta e)) (sb_sensors sub') =
     map (\<lambda>e. sm_location (se_meta e)) (sb_sensors sub) @ concat (map locations_of confs) \<and>
   (list_all fresh_entry (sb_sensors sub) \<longrightarrow> list_all fresh_entry (sb_sensors sub'))"
proof (induction confs arbitrary: sub)
  case (Cons c confs)
  from Cons.prems obtain name where name: "map_of (as_dict c) ''local_name'' = Some name"
    by (cases "map_of (as_dict c) ''local_name''") simp_all
  with Cons.prems obtain cls where cls: "resolve name = Some cls" by (cases "resolve name") simp_all
  from Cons.prems name cls have bind: "rbind (check_algorithm sid cls c) (\<lambda>_.
      case sc_new_error cls of
        Some exc \<Rightarrow> if locations_of c = [] then build_sensors resolve sid confs sub
                   else Inl (Rejected (SensorInitFailed name exc))
      | None \<Rightarrow> build_sensors resolve sid confs
                  (fold (\<lambda>loc. add_sensor (new_entry cls c loc)) (locations_of c) sub)) = Inr sub'" by simp
  then have cases:
    "(sc_new_error cls \<noteq> None \<and> locations_of c = [] \<and> build_sensors resolve sid confs sub = Inr sub') \<or>
     (sc_new_error cls = None \<and> build_sensors resolve sid confs
        (fold (\<lambda>loc. add_sensor (new_entry cls c loc)) (locations_of c) sub) = Inr sub')"
    by (cases "sc_new_error cls") (auto simp only: rbind_Inr_iff option.simps split: if_splits)
  from cases show ?case
  proof
    assume "sc_new_error cls \<noteq> None \<and> locations_of c = [] \<and> build_sensors resolve sid confs sub = Inr sub'"
    with Cons.IH [of sub] show ?thesis by simp
  next
    assume a: "sc_new_error cls = None \<and> build_sensors resolve sid confs
        (fold (\<lambda>loc. add_sensor (new_entry cls c loc)) (locations_of c) sub) = Inr sub'"
    have fresh: "list_all fresh_entry (map (\<lambda>l. (new_entry cls c l)\<lparr>se_raw_data := []\<rparr>) ls)" for ls
      by (simp add: list_all_iff fresh_entry_def new_entry_def)
    have locs: "map (\<lambda>e. sm_location (se_meta e)) (map (\<lambda>l. (new_entry cls c l)\<lparr>se_raw_data := []\<rparr>) ls) = ls" for ls
      by (simp add: new_entry_def comp_def)
    note ih = Cons.IH [OF a [THEN conjunct2]] and f = fold_add_sensor [of "new_entry cls c" "locations_of c" sub]
    show ?thesis
      using ih unfolding f [THEN conjunct1] f [THEN conjunct2, THEN conjunct1] f [THEN conjunct2, THEN conjunct2]
        map_append locs by (simp add: fresh)
  qed
qed simp

text \<open>What one initialized subject satisfies.\<close>

definition subject_built :: "val \<Rightarrow> subject \<Rightarrow> bool" where
  "subject_built conf sub \<longleftrightarrow>
     (let confs = as_list (vget_or conf ''sensors'' (VList [])) in
      sb_subject_id sub = py_str (vget conf ''subject_id'') \<and> sb_configs sub = confs \<and>
      map (\<lambda>e. sm_location (se_meta e)) (sb_sensors sub) = concat (map locations_of confs) \<and>
      distinct (sensor_keys confs) \<and> list_all fresh_entry (sb_sensors sub) \<and>
      (is_list (vget_or conf ''sensors'' (VList [])) \<longrightarrow> sensor_count conf = Inr (int (length (sb_sensors sub)))))"

lemma sensor_count_list:
  assumes "is_dict conf" and "is_list (vget_or conf ''sensors'' (VList []))"
    and "list_all (\<lambda>c. rbind (py_get c ''number_of'' (VInt 1)) py_int = Inr (int (length (locations_of c))))
      (as_list (vget_or conf ''sensors'' (VList [])))"
  shows "sensor_count conf = Inr (int (length (concat (map locations_of (as_list (vget_or conf ''sensors'' (VList [])))))))"
proof -
  have "list_all (\<lambda>c. rbind (py_get c ''number_of'' (VInt 1)) py_int = Inr (int (length (locations_of c)))) cs \<Longrightarrow>
    rmap (\<lambda>s. rbind (py_get s ''number_of'' (VInt 1)) py_int) cs = Inr (map (\<lambda>c. int (length (locations_of c))) cs)" for cs
    by (induction cs) auto
  moreover have "sum_list (map (\<lambda>c. int (length (locations_of c))) cs) = int (length (concat (map locations_of cs)))" for cs
    by (induction cs) auto
  moreover have "is_list v \<Longrightarrow> py_iter v = Inr (as_list v)" for v by (cases v) auto
  ultimately show ?thesis using assms by (simp add: sensor_count_def py_get_def)
qed

lemma build_subject_Inr:
  assumes "build_subject resolve conf = Inr sub"
  shows "subject_built conf sub"
proof -
  let ?confs = "as_list (vget_or conf ''sensors'' (VList []))"
  from assms obtain sid seen where sid: "map_of (as_dict conf) ''subject_id'' = Some sid"
    and seen: "check_sensors (py_str sid) ?confs [] = Inr seen"
    and built: "build_sensors resolve (py_str sid) ?confs (new_subject (py_str sid) ?confs) = Inr sub"
    by (auto simp: build_subject_def rbind_Inr_iff Let_def split: option.splits)
  note b = build_sensors_Inr [OF built] and c = check_sensors_Inr [OF seen]
  have dict: "is_dict conf" using sid by (cases conf) auto
  have len: "length (sb_sensors sub) = length (concat (map locations_of ?confs))"
  proof -
    have "map (\<lambda>e. sm_location (se_meta e)) (sb_sensors sub) = concat (map locations_of ?confs)"
      using b by (simp add: new_subject_def)
    from arg_cong [where f = length, OF this] show ?thesis by (simp only: length_map)
  qed
  have "is_list (vget_or conf ''sensors'' (VList [])) \<longrightarrow> sensor_count conf = Inr (int (length (sb_sensors sub)))"
    using c sensor_count_list [OF dict] len by simp
  moreover have "distinct (sensor_keys ?confs)" using c by auto
  moreover have "vget conf ''subject_id'' = sid" using sid by (simp add: vget_def vget_or_def)
  ultimately show ?thesis
    using b unfolding subject_built_def Let_def by (simp add: new_subject_def)
qed

lemma init_each_spec:
  "init_each resolve confs g = (g', out) \<Longrightarrow> \<exists>pre post subs.
     confs = pre @ post \<and> list_all2 subject_built pre subs \<and> sg_subjects g' = sg_subjects g @ subs \<and>
     sg_max_total_sensors g' = sg_max_total_sensors g \<and> (out = None \<longleftrightarrow> post = [])"
proof (induction confs arbitrary: g)
  case (Cons conf confs)
  show ?case
  proof (cases "build_subject resolve conf")
    case (Inl f)
    with Cons.prems show ?thesis
      by (intro exI [of _ "[]"] exI [of _ "conf # confs"] exI [of _ "[]"]) auto
  next
    case (Inr sub)
    with Cons.prems have "init_each resolve confs (g\<lparr>sg_subjects := sg_subjects g @ [sub]\<rparr>) = (g', out)" by simp
    from Cons.IH [OF this] obtain pre post subs where "confs = pre @ post" "list_all2 subject_built pre subs"
      "sg_subjects g' = (sg_subjects g @ [sub]) @ subs" "sg_max_total_sensors g' = sg_max_total_sensors g"
      "out = None \<longleftrightarrow> post = []" by auto
    with build_subject_Inr [OF Inr] show ?thesis
      by (intro exI [of _ "conf # pre"] exI [of _ post] exI [of _ "sub # subs"]) auto
  qed
qed auto

section \<open>Properties\<close>

definition demo_class :: sensor_class where
  "demo_class = \<lparr>sc_computations = Some [], sc_new_error = None, sc_sampling_rate = Some 60\<rparr>"

definition demo_conf :: val where
  "demo_conf = VDict [(''subject_id'', VStr ''s1''), (''sensors'', VList
     [VDict [(''local_name'', VStr ''imu''), (''number_of'', VInt 2),
             (''locations'', VList [VStr ''left'', VStr ''right''])]])]"

text \<open>C17. No sample is lost, reordered or cut: for sensors with a positive block size, ingesting any
  sequence of samples ends, and for every sensor of the subject the blocks handed to the file
  manager, followed by the samples still buffered, are exactly the samples of that sensor in
  arrival order; every block has exactly the sensor's block size and less than a block is
  buffered.\<close>

theorem ingestion_lossless:
  assumes "positive_blocks sub"
  shows "\<exists>sub' bs. ingest_all xs sub = Some (sub', bs) \<and>
    (\<forall>a e. find_entry a (sb_sensors sub) = Some e \<longrightarrow> int (length (se_raw_data e)) < block_size e \<longrightarrow>
      (\<exists>raw. find_entry a (sb_sensors sub') = Some (e\<lparr>se_raw_data := raw\<rparr>) \<and>
        concat (blocks_of a bs) @ raw = se_raw_data e @ filter (\<lambda>x. sa_address x = a) xs \<and>
        int (length raw) < block_size e \<and> (\<forall>b \<in> set (blocks_of a bs). int (length b) = block_size e)))"
  using assms by (rule ingest_all_spec)

definition demo_entry :: sensor_entry where
  "demo_entry = \<lparr>se_name = ''imu'', se_address = Some ''A'', se_raw_data = [],
     se_meta = \<lparr>sm_location = VStr ''left'', sm_f_block_size = Some 2, sm_algorithm = VNone\<rparr>\<rparr>"

theorem ingestion_lossless_witness:
  "\<exists>sub' bs. ingest_all [\<lparr>sa_address = ''A'', sa_data = VInt i\<rparr>. i \<leftarrow> [1, 2, 3]]
     (add_sensor demo_entry (new_subject ''s1'' [])) = Some (sub', bs) \<and>
     (\<exists>raw. concat (blocks_of ''A'' bs) @ raw = [\<lparr>sa_address = ''A'', sa_data = VInt i\<rparr>. i \<leftarrow> [1, 2, 3]] \<and>
        int (length raw) < 2)"
proof -
  let ?sub = "add_sensor demo_entry (new_subject ''s1'' [])"
  have e: "find_entry ''A'' (sb_sensors ?sub) = Some demo_entry" "block_size demo_entry = 2"
    by (simp_all add: find_entry_def add_sensor_def new_subject_def demo_entry_def block_size_def)
  have pos: "positive_blocks ?sub"
    by (simp add: positive_blocks_def add_sensor_def new_subject_def demo_entry_def block_size_def)
  from ingestion_lossless [OF pos, of "[\<lparr>sa_address = ''A'', sa_data = VInt i\<rparr>. i \<leftarrow> [1, 2, 3]]"] e
  show ?thesis by (force simp: demo_entry_def)
qed

text \<open>A block size below one never returns: when the configured sampling rate is so low that
  five seconds of it truncate to no whole sample, the ingestion of the next sample of the sensor
  does not terminate.\<close>

theorem ingestion_diverges_below_one:
  assumes "find_entry (sa_address x) (sb_sensors sub) = Some e" and "block_size e \<le> 0"
  shows "ingest_sample x sub = None"
  using assms hand_over_diverges [of "block_size e"] by (simp add: ingest_sample_def Let_def)

theorem ingestion_diverges_below_one_witness:
  "f_block_size (demo_class\<lparr>sc_sampling_rate := Some (1/10)\<rparr>) demo_conf = 0 \<and>
   ingest_sample \<lparr>sa_address = ''A'', sa_data = VNone\<rparr> (add_sensor
     ((new_entry (demo_class\<lparr>sc_sampling_rate := Some (1/10)\<rparr>) demo_conf (VStr ''left''))\<lparr>se_address := Some ''A''\<rparr>)
     (new_subject ''s1'' [])) = None"
proof -
  let ?cls = "demo_class\<lparr>sc_sampling_rate := Some (1/10)\<rparr>"
  let ?e = "(new_entry ?cls demo_conf (VStr ''left''))\<lparr>se_address := Some ''A''\<rparr>"
  let ?sub = "add_sensor ?e (new_subject ''s1'' [])" and ?x = "\<lparr>sa_address = ''A'', sa_data = VNone\<rparr>"
  have zero: "f_block_size ?cls demo_conf = 0"
    by (simp add: f_block_size_def sampling_rate_def demo_conf_def demo_class_def vget_VDict py_or_def truncated_def
        floor_eq_iff)
  have "find_entry (sa_address ?x) (sb_sensors ?sub) = Some (?e\<lparr>se_raw_data := []\<rparr>)"
    by (simp add: find_entry_def add_sensor_def new_subject_def)
  moreover have "block_size (?e\<lparr>se_raw_data := []\<rparr>) \<le> 0"
    using zero by (simp add: block_size_def new_entry_def)
  ultimately have "ingest_sample ?x ?sub = None" by (rule ingestion_diverges_below_one)
  with zero show ?thesis by blast
qed

text \<open>C39. An accepted configuration is realised exactly: when the initialization of the subject graph
  succeeds, there is one subject per entry in order, with its id, one fresh sensor per configured
  location in order and no sensor/location pair twice, and all subjects together have at most the
  allowed number of sensors.\<close>

theorem subject_graph_realises_configuration:
  assumes "init_subjects resolve confs g = (g', None)"
    and "\<forall>c \<in> set confs. is_list (vget_or c ''sensors'' (VList []))"
  shows "list_all2 subject_built confs (sg_subjects g') \<and>
    int (length (concat (map sb_sensors (sg_subjects g')))) \<le> sg_max_total_sensors g"
proof -
  let ?g = "g\<lparr>sg_subjects := []\<rparr>"
  from assms(1) obtain ns where ns: "rmap sensor_count confs = Inr ns" "sum_list ns \<le> sg_max_total_sensors g"
    and each: "init_each resolve confs ?g = (g', None)"
    by (auto simp: init_subjects_def Let_def split: sum.splits if_splits)
  from init_each_spec [OF each] have built: "list_all2 subject_built confs (sg_subjects g')" by auto
  have "list_all2 subject_built cs subs \<Longrightarrow> \<forall>c \<in> set cs. is_list (vget_or c ''sensors'' (VList [])) \<Longrightarrow>
      rmap sensor_count cs = Inr ms \<Longrightarrow> sum_list ms = int (length (concat (map sb_sensors subs)))" for cs subs ms
    by (induction cs subs arbitrary: ms rule: list_all2_induct)
      (auto simp: rbind_Inr_iff subject_built_def Let_def)
  from this [OF built assms(2) ns(1)] ns(2) built show ?thesis by simp
qed

theorem subject_graph_realises_configuration_witness:
  "\<exists>g'. init_subjects (\<lambda>_. Some demo_class) [demo_conf] \<lparr>sg_max_total_sensors = 8, sg_subjects = []\<rparr> = (g', None) \<and>
     list_all2 subject_built [demo_conf] (sg_subjects g')"
proof -
  let ?g = "\<lparr>sg_max_total_sensors = 8, sg_subjects = []\<rparr>"
  have "snd (init_subjects (\<lambda>_. Some demo_class) [demo_conf] ?g) = None"
    by (simp add: init_subjects_def demo_conf_def sensor_count_def py_get_def vget_or_VDict Let_def build_subject_def
        locations_of_def folded_def py_or_def vget_VDict check_algorithm_def algorithm_of_def demo_class_def
        py_lower_def py_strip_def py_lstrip_def py_isspace_def char_in_def py_lower_char_def)
  then obtain g' where run: "init_subjects (\<lambda>_. Some demo_class) [demo_conf] ?g = (g', None)"
    by (cases "init_subjects (\<lambda>_. Some demo_class) [demo_conf] ?g") auto
  have "\<forall>c \<in> set [demo_conf]. is_list (vget_or c ''sensors'' (VList []))" by (simp add: demo_conf_def vget_or_VDict)
  from subject_graph_realises_configuration [OF run this] run show ?thesis by blast
qed

end
