(* ===== verification/Startup_Gate.thy ===== *)
theory Startup_Gate
  imports Complex_Main Subjects
begin

text \<open>
  The startup gate: per-sensor statistics of \<^verbatim>\<open>core/startup_gate.py\<close> (class
  \<open>StartupGateSensorStats\<close>) and the criteria of \<open>Core\<close> in \<^verbatim>\<open>core/core.py\<close> that read them
  (\<open>_is_sensor_startup_stable\<close>, \<open>_required_startup_packets\<close>, \<open>_effective_startup_min_rate_hz\<close>).

  Times, rates and durations, floats in the code, are rational numbers; sensor timestamps are
  integers in microseconds. Rounding is Python's \<open>round\<close> (to even at the midpoint) and \<open>int\<close>
  (towards zero). The printed traces are left out.
\<close>

section \<open>Statistics\<close>

record gate_stats =
  gs_address :: string
  gs_location :: val
  gs_expected_rate_hz :: "int option"
  gs_stream_start_command_time :: "rat option"
  gs_first_packet_time :: "rat option"
  gs_last_sensor_timestamp :: "int option"
  gs_first_wall_time :: "rat option"
  gs_last_wall_time :: "rat option"
  gs_packets_received :: nat
  gs_gap_events :: nat
  gs_estimated_dropped_packets :: int

definition new_gate_stats :: "string \<Rightarrow> val \<Rightarrow> int option \<Rightarrow> gate_stats" where
  "new_gate_stats address location rate = \<lparr>gs_address = address, gs_location = location, gs_expected_rate_hz = rate,
     gs_stream_start_command_time = None, gs_first_packet_time = None, gs_last_sensor_timestamp = None,
     gs_first_wall_time = None, gs_last_wall_time = None, gs_packets_received = 0, gs_gap_events = 0,
     gs_estimated_dropped_packets = 0\<rparr>"

definition reset_for_attempt :: "rat option \<Rightarrow> gate_stats \<Rightarrow> gate_stats" where
  "reset_for_attempt start_command_time st = st\<lparr>gs_stream_start_command_time := start_command_time,
     gs_first_packet_time := None, gs_last_sensor_timestamp := None, gs_first_wall_time := None,
     gs_last_wall_time := None, gs_packets_received := 0, gs_gap_events := 0, gs_estimated_dropped_packets := 0\<rparr>"

text \<open>A number that Python takes as true.\<close>

definition set_rate :: "int option \<Rightarrow> int option" where
  "set_rate rate = (case rate of Some r \<Rightarrow> if r = 0 then None else Some r | None \<Rightarrow> None)"

definition expected_delta_us :: "gate_stats \<Rightarrow> rat option" where
  "expected_delta_us st = map_option (\<lambda>r. 1000000 / rat_of_int r) (set_rate (gs_expected_rate_hz st))"

text \<open>\<open>round(q)\<close>: the nearest integer, the even one at the midpoint.\<close>

definition py_round :: "rat \<Rightarrow> int" where
  "py_round q = (let f = \<lfloor>q\<rfloor>; d = q - of_int f in
     if d < 1/2 then f else if d > 1/2 then f + 1 else if even f then f else f + 1)"

definition record_gap_if_needed :: "int option \<Rightarrow> gate_stats \<Rightarrow> gate_stats" where
  "record_gap_if_needed timestamp st =
     (case (timestamp, gs_last_sensor_timestamp st, expected_delta_us st) of
        (Some t, Some l, Some delta) \<Rightarrow>
          if t - l \<le> truncated (delta * (3/2)) then st
          else (let missing_packets = max (py_round (of_int (t - l) / delta) - 1) 0 in
                if missing_packets \<le> 0 then st
                else st\<lparr>gs_gap_events := Suc (gs_gap_events st),
                        gs_estimated_dropped_packets := gs_estimated_dropped_packets st + missing_packets\<rparr>)
      | _ \<Rightarrow> st)"

text \<open>A sample's timestamp and sampling rate, where it has them.\<close>

record reading =
  rd_sample :: sample
  rd_timestamp :: "int option"
  rd_sampling_rate :: "rat option"

definition learn_rate :: "rat option \<Rightarrow> gate_stats \<Rightarrow> gate_stats" where
  "learn_rate rate st = (case (gs_expected_rate_hz st, rate) of
     (None, Some q) \<Rightarrow> if q \<noteq> 0 then st\<lparr>gs_expected_rate_hz := Some (truncated q)\<rparr> else st
   | _ \<Rightarrow> st)"

definition record_sample :: "reading \<Rightarrow> rat \<Rightarrow> gate_stats \<Rightarrow> gate_stats" where
  "record_sample x wall_time st0 =
     (let st = learn_rate (rd_sampling_rate x) st0;
          st = (if gs_first_packet_time st = None then st\<lparr>gs_first_packet_time := Some wall_time\<rparr> else st);
          st = (if gs_first_wall_time st = None then st\<lparr>gs_first_wall_time := Some wall_time\<rparr>
                else record_gap_if_needed (rd_timestamp x) st)
      in st\<lparr>gs_last_sensor_timestamp := rd_timestamp x, gs_last_wall_time := Some wall_time,
            gs_packets_received := Suc (gs_packets_received st)\<rparr>)"

definition startup_duration_seconds :: "gate_stats \<Rightarrow> rat" where
  "startup_duration_seconds st = (case (gs_first_wall_time st, gs_last_wall_time st) of
     (Some a, Some b) \<Rightarrow> max (b - a) 0 | _ \<Rightarrow> 0)"

definition startup_observed_rate_hz :: "gate_stats \<Rightarrow> rat" where
  "startup_observed_rate_hz st =
     (let duration = startup_duration_seconds st in
      if duration \<le> 0 \<or> gs_packets_received st < 2 then 0
      else (of_nat (gs_packets_received st) - 1) / duration)"

definition time_to_first_packet_ms :: "gate_stats \<Rightarrow> rat option" where
  "time_to_first_packet_ms st = (case (gs_stream_start_command_time st, gs_first_packet_time st) of
     (Some a, Some b) \<Rightarrow> Some (max ((b - a) * 1000) 0) | _ \<Rightarrow> None)"

section \<open>The criteria\<close>

definition STARTUP_PACKETS_REQUIRED :: int where "STARTUP_PACKETS_REQUIRED = 60"

definition STARTUP_MIN_PACKETS_REQUIRED :: int where "STARTUP_MIN_PACKETS_REQUIRED = 3"

definition STARTUP_MIN_RATE_RATIO :: rat where "STARTUP_MIN_RATE_RATIO = 95 / 100"

definition STARTUP_MIN_OBSERVATION_SECONDS :: rat where "STARTUP_MIN_OBSERVATION_SECONDS = 2"

definition required_startup_packets :: "gate_stats \<Rightarrow> int" where
  "required_startup_packets st = (case set_rate (gs_expected_rate_hz st) of
     None \<Rightarrow> STARTUP_PACKETS_REQUIRED
   | Some r \<Rightarrow> max STARTUP_MIN_PACKETS_REQUIRED
       (min STARTUP_PACKETS_REQUIRED \<lceil>rat_of_int r * STARTUP_MIN_OBSERVATION_SECONDS\<rceil>))"

definition effective_startup_min_rate_hz :: "gate_stats \<Rightarrow> rat option" where
  "effective_startup_min_rate_hz st =
     map_option (\<lambda>r. rat_of_int r * STARTUP_MIN_RATE_RATIO) (set_rate (gs_expected_rate_hz st))"

definition is_sensor_startup_stable :: "gate_stats \<Rightarrow> bool" where
  "is_sensor_startup_stable st =
     (if gs_first_packet_time st = None then False
      else if int (gs_packets_received st) < required_startup_packets st then False
      else if startup_duration_seconds st < STARTUP_MIN_OBSERVATION_SECONDS then False
      else if (case effective_startup_min_rate_hz st of None \<Rightarrow> False | Some m \<Rightarrow> startup_observed_rate_hz st < m) then False
      else if gs_gap_events st > 0 \<or> gs_estimated_dropped_packets st > 0 then False
      else True)"

text \<open>The readings of one attempt with their arrival times.\<close>

definition record_samples :: "(reading \<times> rat) list \<Rightarrow> gate_stats \<Rightarrow> gate_stats" where
  "record_samples xs st = fold (\<lambda>(x, t). record_sample x t) xs st"

section \<open>What the statistics say\<close>

text \<open>The packets lost between two timestamps that are \<open>k\<close> sample periods apart.\<close>

lemma py_round_int [simp]: "py_round (of_int i) = i"
  by (simp add: py_round_def Let_def)

lemma py_round_1 [simp]: "py_round 1 = 1"
  using py_round_int [of 1] by simp

definition lost :: "gate_stats \<Rightarrow> int \<Rightarrow> int \<Rightarrow> int" where
  "lost st l t = (case expected_delta_us st of None \<Rightarrow> 0 | Some delta \<Rightarrow>
     if t - l \<le> truncated (delta * (3/2)) then 0 else max (py_round (of_int (t - l) / delta) - 1) 0)"

lemma lost_nonneg: "lost st l t \<ge> 0"
  by (simp add: lost_def split: option.split)

lemma record_gap:
  "record_gap_if_needed (Some t) st = (case gs_last_sensor_timestamp st of None \<Rightarrow> st
     | Some l \<Rightarrow> if lost st l t = 0 then st
                 else st\<lparr>gs_gap_events := Suc (gs_gap_events st),
                         gs_estimated_dropped_packets := gs_estimated_dropped_packets st + lost st l t\<rparr>)"
  by (auto simp: record_gap_if_needed_def lost_def Let_def split: option.split)

lemma lost_periods:
  assumes "gs_expected_rate_hz st = Some r" and "r > 0" and "k \<ge> 1"
    and "rat_of_int (t - l) = of_int k * (1000000 / of_int r)"
  shows "lost st l t = k - 1"
proof -
  have d: "expected_delta_us st = Some (1000000 / of_int r)"
    using assms(1,2) by (simp add: expected_delta_us_def set_rate_def)
  let ?d = "1000000 / rat_of_int r"
  have pos: "?d > 0" using assms(2) by simp
  have div: "rat_of_int (t - l) / ?d = of_int k" using assms(2,4) by simp
  show ?thesis
  proof (cases "k = 1")
    case True
    then show ?thesis using d div by (simp add: lost_def)
  next
    case False
    with assms(3) have "k \<ge> 2" by simp
    then have "rat_of_int k \<ge> 2" by (metis of_int_le_iff of_int_numeral)
    then have "rat_of_int k > 3/2" by linarith
    with pos have "?d * (3/2) < of_int k * ?d" using mult_strict_right_mono [of "3/2" "rat_of_int k" ?d]
      by (simp only: mult.commute)
    moreover have "of_int (truncated (?d * (3/2))) \<le> ?d * (3/2)"
      using pos by (simp add: truncated_def) 
    ultimately have "rat_of_int (truncated (?d * (3/2))) < of_int (t - l)" using assms(4) by linarith
    then have "truncated (?d * (3/2)) < t - l" by (simp only: of_int_less_iff)
    with d div \<open>k \<ge> 2\<close> show ?thesis by (simp add: lost_def)
  qed
qed

text \<open>Readings that carry the sequence numbers \<open>ns\<close> of a sensor sampling at \<open>r\<close> Hz: the timestamps are those
  of the sensor's clock, an arbitrary origin \<open>c\<close> plus the number of periods.\<close>

definition numbered :: "int \<Rightarrow> rat \<Rightarrow> (reading \<times> rat) list \<Rightarrow> int list \<Rightarrow> bool" where
  "numbered r c xs ns \<longleftrightarrow> sorted_wrt (<) ns \<and>
     list_all2 (\<lambda>x n. \<exists>t. rd_timestamp (fst x) = Some t \<and> rat_of_int t = c + of_int n * (1000000 / of_int r)) xs ns"

definition attempt :: "string \<Rightarrow> val \<Rightarrow> int \<Rightarrow> rat option \<Rightarrow> gate_stats" where
  "attempt a l r start = reset_for_attempt start (new_gate_stats a l (Some r))"

lemma record_samples_snoc: "record_samples (xs @ [x]) st = record_sample (fst x) (snd x) (record_samples xs st)"
  by (cases x) (simp add: record_samples_def)

lemma record_first:
  "record_sample x w (attempt a l r start) =
     (attempt a l r start)\<lparr>gs_first_packet_time := Some w, gs_first_wall_time := Some w,
        gs_last_sensor_timestamp := rd_timestamp x, gs_last_wall_time := Some w, gs_packets_received := 1\<rparr>"
  by (simp add: record_sample_def Let_def learn_rate_def attempt_def reset_for_attempt_def new_gate_stats_def)

lemma record_next:
  assumes "gs_expected_rate_hz st = Some r" "gs_first_packet_time st \<noteq> None" "gs_first_wall_time st \<noteq> None"
    "gs_last_sensor_timestamp st = Some u" "rd_timestamp x = Some t"
  shows "record_sample x w st = (let d = lost st u t in
     (if d = 0 then st else st\<lparr>gs_gap_events := Suc (gs_gap_events st),
        gs_estimated_dropped_packets := gs_estimated_dropped_packets st + d\<rparr>)
     \<lparr>gs_last_sensor_timestamp := Some t, gs_last_wall_time := Some w, gs_packets_received := Suc (gs_packets_received st)\<rparr>)"
proof -
  from assms obtain p f where "gs_first_packet_time st = Some p" "gs_first_wall_time st = Some f" by auto
  with assms show ?thesis by (simp add: record_sample_def Let_def learn_rate_def record_gap)
qed

lemma record_samples_numbered:
  assumes "numbered r c xs ns" and "r > 0" and "xs \<noteq> []"
  shows "let st = record_samples xs (attempt a l r start) in
    gs_expected_rate_hz st = Some r \<and> gs_first_packet_time st \<noteq> None \<and> gs_first_wall_time st = Some (snd (hd xs)) \<and>
    gs_last_wall_time st = Some (snd (last xs)) \<and> gs_last_sensor_timestamp st = rd_timestamp (fst (last xs)) \<and>
    gs_packets_received st = length xs \<and>
    gs_estimated_dropped_packets st = (last ns - hd ns) - (int (length ns) - 1) \<and> gs_estimated_dropped_packets st \<ge> 0 \<and>
    (gs_gap_events st = 0 \<longleftrightarrow> gs_estimated_dropped_packets st = 0)"
  using assms(1,3)
proof (induction xs arbitrary: ns rule: rev_induct)
  case (snoc x xs)
  from snoc.prems(1) obtain ms n where ns: "ns = ms @ [n]" and num: "numbered r c xs ms"
    and x: "\<exists>t. rd_timestamp (fst x) = Some t \<and> rat_of_int t = c + of_int n * (1000000 / of_int r)"
    and less: "\<forall>m \<in> set ms. m < n"
    by (auto simp: numbered_def list_all2_append1 list_all2_Cons1 sorted_wrt_append)
  show ?case
  proof (cases "xs = []")
    case True
    then have "record_samples (xs @ [x]) (attempt a l r start) = record_sample (fst x) (snd x) (attempt a l r start)"
      by (simp add: record_samples_def split_def)
    with True num ns show ?thesis
      by (simp add: record_first numbered_def Let_def) (simp add: attempt_def reset_for_attempt_def new_gate_stats_def)
  next
    case False
    define st where "st = record_samples xs (attempt a l r start)"
    from num False have ms: "ms \<noteq> []" by (auto simp: numbered_def)
    note ih = snoc.IH [OF num False, folded st_def, unfolded Let_def]
    from num have "\<exists>t. rd_timestamp (fst (last xs)) = Some t \<and> rat_of_int t = c + of_int (last ms) * (1000000 / of_int r)"
      unfolding numbered_def using False ms by (auto simp: list_all2_conv_all_nth last_conv_nth)
    then obtain u where u: "rd_timestamp (fst (last xs)) = Some u" "rat_of_int u = c + of_int (last ms) * (1000000 / of_int r)" by blast
    from x obtain t where t: "rd_timestamp (fst x) = Some t" "rat_of_int t = c + of_int n * (1000000 / of_int r)" by blast
    have "lost st u t = (n - last ms) - 1"
    proof (rule lost_periods [of st r])
      show "gs_expected_rate_hz st = Some r" using ih by blast
      show "n - last ms \<ge> 1" using less ms by (metis last_in_set zle_diff1_eq zless_imp_add1_zle add.commute diff_ge_0_iff_ge le_diff_eq)
      show "rat_of_int (t - u) = of_int (n - last ms) * (1000000 / of_int r)"
        using u(2) t(2) by (simp add: algebra_simps add_divide_distrib [symmetric] diff_divide_distrib [symmetric])
    qed (use assms(2) in simp)
    moreover have "last ms < n" using less ms by simp
    moreover have "record_samples (xs @ [x]) (attempt a l r start) = record_sample (fst x) (snd x) st"
      by (simp add: record_samples_snoc st_def)
    ultimately show ?thesis
      using ih u(1) t(1) ms False record_next [of st r u "fst x" t "snd x"] by (auto simp: Let_def ns)
  qed
qed simp

lemma required_packets_rate:
  assumes "set_rate (gs_expected_rate_hz st) = Some r"
  shows "required_startup_packets st = max 3 (min 60 (2 * r))"
proof -
  have "\<lceil>rat_of_int r * 2\<rceil> = 2 * r" using ceiling_of_int [where 'a = rat, of "r * 2"] by simp
  with assms show ?thesis
    by (simp add: required_startup_packets_def STARTUP_PACKETS_REQUIRED_def STARTUP_MIN_PACKETS_REQUIRED_def
        STARTUP_MIN_OBSERVATION_SECONDS_def)
qed

lemma stableD:
  assumes "is_sensor_startup_stable st" and "set_rate (gs_expected_rate_hz st) = Some r"
  shows "int (gs_packets_received st) \<ge> max 3 (min 60 (2 * r))" "startup_duration_seconds st \<ge> 2"
    "startup_observed_rate_hz st \<ge> of_int r * (95 / 100)" "gs_gap_events st = 0" "gs_estimated_dropped_packets st \<le> 0"
  using assms unfolding is_sensor_startup_stable_def required_packets_rate [OF assms(2)]
  by (simp_all add: effective_startup_min_rate_hz_def STARTUP_MIN_RATE_RATIO_def STARTUP_MIN_OBSERVATION_SECONDS_def
      not_less split: if_splits)

section \<open>Properties\<close>

text \<open>C29. The gate lets only complete streams pass: when the readings of an attempt carry timestamps of a
  sensor that samples at its expected rate, a sensor found stable has delivered every packet between
  its first and its last one, at least the required number of them, over at least the observation time
  and at no less than 95 percent of the expected rate.\<close>

theorem gate_stable_means_complete:
  assumes "numbered r c xs ns" and "r > 0" and "xs \<noteq> []"
    and "is_sensor_startup_stable (record_samples xs (attempt a l r start))"
  shows "last ns - hd ns = int (length xs) - 1 \<and> int (length xs) \<ge> max 3 (min 60 (2 * r)) \<and>
    snd (last xs) - snd (hd xs) \<ge> 2 \<and>
    rat_of_int (int (length xs) - 1) \<ge> 95 / 100 * of_int r * (snd (last xs) - snd (hd xs))"
proof -
  define st where "st = record_samples xs (attempt a l r start)"
  note st = record_samples_numbered [OF assms(1-3), of a l start, folded st_def, unfolded Let_def]
  have len: "length ns = length xs" using assms(1) by (auto simp: numbered_def dest: list_all2_lengthD)
  have rate: "set_rate (gs_expected_rate_hz st) = Some r" using st assms(2) by (simp add: set_rate_def)
  have stable: "is_sensor_startup_stable st" using assms(4) by (simp add: st_def)
  have dur: "startup_duration_seconds st = max (snd (last xs) - snd (hd xs)) 0"
    using st by (simp add: startup_duration_seconds_def)
  note facts = stableD [OF stable rate]
  from facts(2) dur have two: "snd (last xs) - snd (hd xs) \<ge> 2" by (simp add: max_def split: if_splits)
  from facts(4) st have zero: "gs_estimated_dropped_packets st = 0" by blast
  from facts(1) st have packets: "int (length xs) \<ge> max 3 (min 60 (2 * r))" by simp
  note facts(3)
  moreover have "startup_observed_rate_hz st = (of_nat (length xs) - 1) / (snd (last xs) - snd (hd xs))"
  proof -
    have "\<not> length xs < 2" using packets by simp
    with dur two st show ?thesis by (simp add: startup_observed_rate_hz_def Let_def)
  qed
  ultimately have "of_int r * (95 / 100) * (snd (last xs) - snd (hd xs)) \<le> rat_of_nat (length xs) - 1"
    using two by (simp add: le_divide_eq)
  then have "rat_of_int (int (length xs) - 1) \<ge> 95 / 100 * of_int r * (snd (last xs) - snd (hd xs))"
    by (simp add: mult.commute mult.left_commute)
  with zero st two packets len show ?thesis by auto
qed

text \<open>The readings of a sensor at \<open>r\<close> Hz that loses nothing, \<open>n\<close> of them.\<close>

definition perfect :: "string \<Rightarrow> int \<Rightarrow> rat \<Rightarrow> nat \<Rightarrow> (reading \<times> rat) list" where
  "perfect a r w0 n = map (\<lambda>i. (\<lparr>rd_sample = \<lparr>sa_address = a, sa_data = VNone\<rparr>,
      rd_timestamp = Some (int i * (1000000 div r)), rd_sampling_rate = Some (of_int r)\<rparr>,
      w0 + of_nat i / of_int r)) [0..<n]"

lemma perfect_numbered:
  assumes "r > 0" and "r dvd 1000000"
  shows "numbered r 0 (perfect a r w0 n) (map int [0..<n])"
proof -
  have "rat_of_int (1000000 div r) = 1000000 / of_int r"
    using assms by (metis of_int_div of_int_numeral)
  then show ?thesis
    by (auto simp: numbered_def perfect_def list_all2_conv_all_nth sorted_wrt_iff_nth_less)
qed

text \<open>The gate lets every healthy sensor pass: a sensor whose rate divides a second into whole
  microseconds and that delivers its packets on time is found stable as soon as two seconds of them
  have arrived, however low its rate.\<close>

theorem gate_passes_healthy_sensor:
  assumes "r \<ge> 1" and "r dvd 1000000" and "int n \<ge> 2 * r + 1"
  shows "is_sensor_startup_stable (record_samples (perfect a r w0 n) (attempt a l r start))"
proof -
  define st where "st = record_samples (perfect a r w0 n) (attempt a l r start)"
  have n: "n > 0" using assms by simp
  then have ne: "perfect a r w0 n \<noteq> []" by (simp add: perfect_def)
  have "numbered r 0 (perfect a r w0 n) (map int [0..<n])" using assms by (intro perfect_numbered) auto
  from record_samples_numbered [OF this _ ne, of a l start] assms(1) n
  have st: "gs_expected_rate_hz st = Some r" "gs_first_packet_time st \<noteq> None" "gs_first_wall_time st = Some w0"
    "gs_last_wall_time st = Some (w0 + of_nat (n - 1) / of_int r)" "gs_packets_received st = n"
    "gs_estimated_dropped_packets st = 0" "gs_gap_events st = 0"
    by (auto simp: st_def Let_def perfect_def hd_map last_map of_nat_diff)
  have r: "rat_of_int r \<ge> 1" using assms(1) by simp
  have n1: "rat_of_nat (n - 1) \<ge> 2 * of_int r"
  proof -
    have "int (n - 1) \<ge> 2 * r" using assms(3) n by simp
    then have "rat_of_int (int (n - 1)) \<ge> rat_of_int (2 * r)" by (simp only: of_int_le_iff)
    then show ?thesis by simp
  qed
  have dur: "startup_duration_seconds st = of_nat (n - 1) / of_int r"
    using st r by (simp add: startup_duration_seconds_def)
  then have two: "startup_duration_seconds st \<ge> 2" using n1 r by (simp add: le_divide_eq)
  have "n \<ge> 2" using assms by simp
  with two dur st r have rate: "startup_observed_rate_hz st = of_int r"
    using n1 by (simp add: startup_observed_rate_hz_def Let_def of_nat_diff)
  have req: "required_startup_packets st \<le> int n"
    using required_packets_rate [of st r] st assms by (simp add: set_rate_def)
  have "effective_startup_min_rate_hz st = Some (of_int r * (95 / 100))"
    using st assms by (simp add: effective_startup_min_rate_hz_def set_rate_def STARTUP_MIN_RATE_RATIO_def)
  with st two rate req r have "is_sensor_startup_stable st"
    by (simp add: is_sensor_startup_stable_def STARTUP_MIN_OBSERVATION_SECONDS_def)
  then show ?thesis by (simp add: st_def)
qed

theorem gate_passes_healthy_sensor_witness:
  "is_sensor_startup_stable (record_samples (perfect ''A'' 1 0 3) (attempt ''A'' VNone 1 None))"
  by (rule gate_passes_healthy_sensor) simp_all

theorem gate_stable_means_complete_witness:
  "snd (last (perfect ''A'' 1 0 3)) - snd (hd (perfect ''A'' 1 0 3)) \<ge> 2"
proof -
  have num: "numbered 1 0 (perfect ''A'' 1 0 3) (map int [0..<3])" by (rule perfect_numbered) simp_all
  have "is_sensor_startup_stable (record_samples (perfect ''A'' 1 0 3) (attempt ''A'' VNone 1 None))"
    by (simp add: perfect_def record_samples_def upt_rec attempt_def reset_for_attempt_def new_gate_stats_def record_sample_def
        Let_def learn_rate_def record_gap_if_needed_def expected_delta_us_def set_rate_def truncated_def
        is_sensor_startup_stable_def startup_duration_seconds_def startup_observed_rate_hz_def required_startup_packets_def
        effective_startup_min_rate_hz_def STARTUP_PACKETS_REQUIRED_def STARTUP_MIN_PACKETS_REQUIRED_def
        STARTUP_MIN_OBSERVATION_SECONDS_def STARTUP_MIN_RATE_RATIO_def)
  from gate_stable_means_complete [OF num _ _ this] show ?thesis by (simp add: perfect_def)
qed

end
