(* ===== verification/Core_Stream.thy ===== *)
theory Core_Stream
  imports Startup_Gate Actions Message_Types
begin

text \<open>
  The acquisition lifecycle of \<open>Core\<close>, from \<^verbatim>\<open>core/core.py\<close>: the start of a stream, the
  startup gate with its threads, the official start, the routing of samples and results, the stop with
  its drain, the session archive, and the installation and reset of a configuration.

  The methods are actions on the record \<open>core\<close>; what they call in the file manager, the sensor manager,
  the compute manager and on the event bus are effects. \<open>cenv\<close> holds what a call takes from outside:
  the clock, the sampling rate attribute of a sensor object, and for each call that can fail the text
  of the exception it raises. A background thread that the code starts is the effect \<open>CSpawn\<close>; its
  code runs in steps, one per region in which it holds the startup lock, and a step that goes on
  spawns the rest.

  Diagnostics files, timing measurements, what the file manager says of the session directory and the
  texts of logs are left out. The subjects of the core
  and of its subject graph are the same list.
\<close>

section \<open>State\<close>

record core =
  co_site :: string
  co_node_id :: string
  co_subjects :: "subject list"
  co_max_total_sensors :: int
  co_session_label :: val
  co_session_name :: val
  co_active_subject_ids :: "string list option"
  co_session_timestamp :: val
  co_archived_session_timestamp :: val
  co_app_id :: "string option"
  co_app_name :: "string option"
  co_pending_correlation_id :: val
  co_stream_phase :: string
  co_startup_attempt :: nat
  co_startup_max_attempts :: nat
  co_startup_subject_ids :: "string list"
  co_startup_addresses :: "string list"
  co_startup_stats :: "(string, gate_stats) dict"
  co_startup_retry_pending :: bool
  co_startup_manual_stop :: bool
  co_startup_gate_token :: nat
  co_pending_stream_tags :: "(string, val) dict"
  co_startup_last_failure_reason :: "string option"
  co_finalization_pending :: bool
  co_official_origin_ns :: "int option"
  co_official_start_mode :: val
  co_start_session_id :: val
  co_official_commit_received :: bool
  co_official_outputs_active :: bool
  co_prepared_subject_ids :: "string list"
  co_recovery_in_progress :: bool
  co_requires_recovery :: bool
  co_stopping_subject_ids :: "string list"
  co_stop_results_timestamp :: val
  co_physical_stop_results :: "(string, val) dict"
  co_reset_waiters :: "val list"
  co_battery_check_active :: bool
  co_battery_results :: "(string, val) dict"

record sensor_status =
  ss_address :: string
  ss_location :: val
  ss_expected_rate_hz :: "int option"
  ss_startup_packets :: nat
  ss_startup_rate_hz :: rat
  ss_time_to_first_packet_ms :: "rat option"
  ss_gap_events :: nat
  ss_dropped_packets :: int
  ss_packets_required :: int
  ss_min_rate_hz :: "rat option"
  ss_stable :: bool

record startup_status =
  su_phase :: string
  su_start_session_id :: val
  su_official_start_mode :: val
  su_attempt :: nat
  su_max_attempts :: nat
  su_required_sensor_count :: nat
  su_stable_sensor_count :: nat
  su_sensors :: "sensor_status list"
  su_min_rate_hz :: "rat option"
  su_reason :: "string option"

datatype gate_stage = GSettle | GWatch | GPrepare | GReady

datatype cthread =
    Gate nat gate_stage
  | Retry nat
  | Stopping "string list option" "string list" val
  | Recovering val
  | BatteryCheck

datatype ceffect =
    CEmit string val
  | CStartup string startup_status "string option"
  | CDiagnostics string val
  | CStartDiagnostics val "string list" "string list"
  | CFinalizeDiagnostics val string "string option"
  | CFinishDiagnostics val
  | CArchive val
  | CFileStart string val val
  | CFileStop string
  | CEnqueueBlock string "sample list"
  | CFlush
  | CWriteResult string val
  | CWriteIntermediate string string val
  | CConsolidate "string list"
  | CComputeSample reading
  | CComputeReset
  | CComputeClear
  | CSensorsInit
  | CConfigure "(string \<times> val list) list"
  | CStartAll
  | CStartSpecific "string list"
  | CStopAll
  | CStopSpecific "string list"
  | CEnableRouting
  | CUpdateScope "string list"
  | CRecoverSensors bool "val list"
  | CMarkPartial "string list"
  | CSummary val string
  | CDiscover
  | CDiscoverFor "string list" val
  | CRegisterAlgorithms "string list"
  | CConnectAll
  | CConnectSpecific "string list"
  | CConnectionSequence val
  | CConnectionStep string "string list" val
  | CDisconnectAll val
  | CDisconnect "string list" val
  | CIdentify string
  | CNodeEmit string string val
  | CHost string val
  | CSpawn cthread

type_synonym core_action = "(core, ceffect) action"

text \<open>The answer of the sensor manager to a stop: none to wait for, a result per sensor, or an
  exception with its type and its text.\<close>

datatype stop_answer = NoCompletion | Completed "val list" | Failed string string

record cenv =
  ce_bus :: bool
  ce_now :: rat
  ce_now_ns :: int
  ce_stamp :: string
  ce_deadline :: bool
  ce_sampling_rate :: "sensor_entry \<Rightarrow> rat option"
  ce_start_stream :: "string \<Rightarrow> string option"
  ce_sensors :: "string option"
  ce_compute :: "string option"
  ce_routing :: "string option"
  ce_stop :: stop_answer
  ce_raw_write_failures :: "string list"
  ce_consolidation :: "string + val list"
  ce_resolve :: "val \<Rightarrow> sensor_class option"
  ce_text :: "init_failure \<Rightarrow> string"
  ce_connected :: "sensor_entry \<Rightarrow> bool"
  ce_recovery :: "string + val"
  ce_identifies :: "sensor_entry \<Rightarrow> bool"
  ce_setup_complete :: "sensor_entry \<Rightarrow> bool"
  ce_battery_classes :: "val list"
  ce_battery_summary :: "string + val"

section \<open>Auxiliary actions\<close>

definition call :: "string option \<Rightarrow> ceffect \<Rightarrow> core_action" where
  "call exc eff = seq (out eff) (case exc of None \<Rightarrow> skip | Some x \<Rightarrow> raise x)"

definition emit_event :: "cenv \<Rightarrow> string \<Rightarrow> val \<Rightarrow> core_action" where
  "emit_event e ty pl = (if ce_bus e then out (CEmit ty pl) else skip)"

definition add_key :: "string \<Rightarrow> val \<Rightarrow> bool \<Rightarrow> (string \<times> val) list \<Rightarrow> (string \<times> val) list" where
  "add_key k v present d = (if present then dput k v d else d)"

definition opt_str :: "string option \<Rightarrow> val" where
  "opt_str x = (case x of None \<Rightarrow> VNone | Some s \<Rightarrow> VStr s)"

definition event_context :: "core \<Rightarrow> string list \<Rightarrow> (string \<times> val) list" where
  "event_context s subject_ids =
     add_key ''subject_ids'' (VList (map VStr subject_ids)) (subject_ids \<noteq> [])
       (add_key ''correlation_id'' (co_pending_correlation_id s) (truthy (co_pending_correlation_id s))
         (add_key ''app_name'' (opt_str (co_app_name s)) (truthy (opt_str (co_app_name s)))
           (add_key ''app_id'' (opt_str (co_app_id s)) (truthy (opt_str (co_app_id s)))
             [(''site'', VStr (co_site s)), (''session_timestamp'', co_session_timestamp s),
              (''session_label'', co_session_label s), (''session_name'', co_session_name s)])))"

definition sensor_entries :: "core \<Rightarrow> sensor_entry list" where
  "sensor_entries s = concat (map sb_sensors (co_subjects s))"

definition location_for_address :: "core \<Rightarrow> string \<Rightarrow> val" where
  "location_for_address s address = (case find_entry address (sensor_entries s) of
     None \<Rightarrow> VNone | Some en \<Rightarrow> sm_location (se_meta en))"

definition expected_rate_for_address :: "cenv \<Rightarrow> core \<Rightarrow> string \<Rightarrow> int option" where
  "expected_rate_for_address e s address = (case find_entry address (sensor_entries s) of
     None \<Rightarrow> None
   | Some en \<Rightarrow> (case ce_sampling_rate e en of None \<Rightarrow> None
                | Some q \<Rightarrow> if q = 0 then None else Some (truncated q)))"

definition addresses_of :: "subject list \<Rightarrow> string list" where
  "addresses_of subs = concat (map (\<lambda>sub. concat (map (\<lambda>en. case se_address en of
     None \<Rightarrow> [] | Some a \<Rightarrow> if a = [] then [] else [a]) (sb_sensors sub))) subs)"

definition has_active_streams :: "core \<Rightarrow> bool" where
  "has_active_streams s \<longleftrightarrow> (\<exists>sub \<in> set (co_subjects s). sb_is_streaming sub)"

text \<open>Subjects selected by a command: all of them, or the first one with each id.\<close>

fun modify_first :: "string \<Rightarrow> (subject \<Rightarrow> subject) \<Rightarrow> subject list \<Rightarrow> subject list" where
  "modify_first sid f [] = []"
| "modify_first sid f (sub # subs) =
     (if sb_subject_id sub = sid then f sub # subs else sub # modify_first sid f subs)"

definition modify_targets :: "string list option \<Rightarrow> (subject \<Rightarrow> subject) \<Rightarrow> subject list \<Rightarrow> subject list" where
  "modify_targets tg f subs = (case tg of None \<Rightarrow> map f subs | Some sids \<Rightarrow> fold (\<lambda>sid. modify_first sid f) sids subs)"

definition find_subject :: "core \<Rightarrow> string \<Rightarrow> subject option" where
  "find_subject s sid = find (\<lambda>sub. sb_subject_id sub = sid) (co_subjects s)"

definition targets :: "core \<Rightarrow> string list option \<Rightarrow> subject list" where
  "targets s tg = (case tg of None \<Rightarrow> co_subjects s | Some sids \<Rightarrow> List.map_filter (find_subject s) sids)"

text \<open>\<open>_get_subjects_by_ids\<close>, with the list of the missing ids as Python prints it.\<close>

definition quoted :: "string \<Rightarrow> string" where
  "quoted x = [CHR 0x27] @ x @ [CHR 0x27]"

definition get_subjects_by_ids_then :: "string list \<Rightarrow> (subject list \<Rightarrow> core_action) \<Rightarrow> core_action" where
  "get_subjects_by_ids_then sids k = query (\<lambda>s.
     let missing = filter (\<lambda>sid. find_subject s sid = None) sids in
     if missing \<noteq> [] then raise (''Subject(s) not found: ['' @ py_join '', '' (map quoted missing) @ '']'')
     else k (List.map_filter (find_subject s) sids))"

section \<open>The startup gate\<close>

definition startup_min_rate_hz :: "core \<Rightarrow> rat option" where
  "startup_min_rate_hz s =
     (let ms = List.map_filter effective_startup_min_rate_hz (dvalues (co_startup_stats s)) in
      if ms = [] then None else Some (Min (set ms)))"

definition round3 :: "rat \<Rightarrow> rat" where
  "round3 q = of_int (py_round (q * 1000)) / 1000"

definition as_status_payload :: "gate_stats \<Rightarrow> sensor_status" where
  "as_status_payload st = \<lparr>ss_address = gs_address st, ss_location = gs_location st,
     ss_expected_rate_hz = gs_expected_rate_hz st, ss_startup_packets = gs_packets_received st,
     ss_startup_rate_hz = round3 (startup_observed_rate_hz st),
     ss_time_to_first_packet_ms = map_option round3 (time_to_first_packet_ms st),
     ss_gap_events = gs_gap_events st, ss_dropped_packets = gs_estimated_dropped_packets st,
     ss_packets_required = required_startup_packets st, ss_min_rate_hz = effective_startup_min_rate_hz st,
     ss_stable = is_sensor_startup_stable st\<rparr>"

definition startup_status_payload :: "string \<Rightarrow> string option \<Rightarrow> core \<Rightarrow> startup_status" where
  "startup_status_payload phase reason s =
     (let sensors = map as_status_payload (List.map_filter (map_of (co_startup_stats s)) (co_startup_addresses s)) in
      \<lparr>su_phase = phase, su_start_session_id = co_start_session_id s, su_official_start_mode = co_official_start_mode s,
       su_attempt = co_startup_attempt s, su_max_attempts = co_startup_max_attempts s,
       su_required_sensor_count = length (co_startup_addresses s),
       su_stable_sensor_count = length (filter ss_stable sensors), su_sensors = sensors,
       su_min_rate_hz = startup_min_rate_hz s, su_reason = reason\<rparr>)"

definition coordinated :: "core \<Rightarrow> bool" where
  "coordinated s \<longleftrightarrow> co_official_start_mode s = VStr ''coordinated''"

definition emit_startup_event :: "string \<Rightarrow> string \<Rightarrow> string option \<Rightarrow> core_action" where
  "emit_startup_event ty phase reason = query (\<lambda>s.
     out (CStartup ty (startup_status_payload phase reason s) (if coordinated s then Some (co_node_id s) else None)))"

definition reset_startup_gate_state :: "cenv \<Rightarrow> string list \<Rightarrow> string list \<Rightarrow> core \<Rightarrow> core" where
  "reset_startup_gate_state e subject_ids addresses s = s\<lparr>
     co_startup_gate_token := Suc (co_startup_gate_token s), co_startup_attempt := 1, co_stream_phase := ''starting'',
     co_startup_subject_ids := subject_ids, co_startup_addresses := addresses, co_startup_retry_pending := False,
     co_startup_manual_stop := False, co_startup_last_failure_reason := None,
     co_startup_stats := fold (\<lambda>a. dput a (reset_for_attempt (Some (ce_now e))
        (new_gate_stats a (location_for_address s a) (expected_rate_for_address e s a)))) addresses []\<rparr>"

definition clear_startup_gate_state :: "string \<Rightarrow> core \<Rightarrow> core" where
  "clear_startup_gate_state phase s = s\<lparr>
     co_startup_gate_token := Suc (co_startup_gate_token s), co_stream_phase := phase, co_startup_subject_ids := [],
     co_startup_addresses := [], co_startup_retry_pending := False, co_startup_manual_stop := False,
     co_startup_last_failure_reason := None, co_startup_stats := [], co_startup_attempt := 0,
     co_pending_stream_tags := [], co_official_start_mode := VStr ''local'', co_start_session_id := VNone,
     co_official_commit_received := False, co_official_outputs_active := False, co_prepared_subject_ids := [],
     co_official_origin_ns := None\<rparr>"

text \<open>Opening the outputs of the subjects that are starting.\<close>

definition prepare_subject :: "cenv \<Rightarrow> subject \<Rightarrow> core_action" where
  "prepare_subject e sub = query (\<lambda>s.
     let sid = sb_subject_id sub in
     if sid \<notin> set (co_startup_subject_ids s) then skip
     else if sid \<in> set (co_prepared_subject_ids s) then skip
     else (case ce_start_stream e sid of
             Some x \<Rightarrow> raise x
           | None \<Rightarrow> seq (out (CFileStart sid (co_session_timestamp s) (dget_or (co_pending_stream_tags s) sid VNone)))
                      (upd (\<lambda>s. s\<lparr>co_prepared_subject_ids := co_prepared_subject_ids s @ [sid]\<rparr>))))"

definition prepare_official_persistence :: "cenv \<Rightarrow> core_action" where
  "prepare_official_persistence e = query (\<lambda>s. for_each (co_subjects s) (prepare_subject e))"

definition mark_streaming :: "core \<Rightarrow> core" where
  "mark_streaming s = s\<lparr>co_subjects := map (\<lambda>sub. if sb_subject_id sub \<in> set (co_startup_subject_ids s)
     then sub\<lparr>sb_is_streaming := True\<rparr> else sub) (co_subjects s)\<rparr>"

definition activate_official_streaming :: "cenv \<Rightarrow> core_action" where
  "activate_official_streaming e = query (\<lambda>s.
     if coordinated s \<and> \<not> co_official_commit_received s
     then raise ''Coordinated official persistence requires the global commit''
     else seq (call (ce_compute e) CComputeReset)
         (seq (prepare_official_persistence e)
         (seq (upd mark_streaming)
         (seq (upd (\<lambda>s. s\<lparr>co_official_origin_ns := Some (ce_now_ns e)\<rparr>))
           (call (ce_routing e) CEnableRouting)))))"

text \<open>The thread of \<open>_evaluate_startup_gate\<close>: the settling loop, the loop that watches the sensors, the
  opening of the outputs without the lock, and the announcement.\<close>

definition all_stable :: "core \<Rightarrow> bool" where
  "all_stable s \<longleftrightarrow> co_startup_addresses s \<noteq> [] \<and>
     list_all (\<lambda>a. case map_of (co_startup_stats s) a of None \<Rightarrow> True | Some st \<Rightarrow> is_sensor_startup_stable st)
       (co_startup_addresses s)"

definition gate_current :: "nat \<Rightarrow> string \<Rightarrow> core \<Rightarrow> bool" where
  "gate_current token phase s \<longleftrightarrow> token = co_startup_gate_token s \<and> co_stream_phase s = phase"

definition set_phase :: "string \<Rightarrow> core_action" where
  "set_phase phase = upd (\<lambda>s. s\<lparr>co_stream_phase := phase\<rparr>)"

definition gate_pass :: "cenv \<Rightarrow> nat \<Rightarrow> core_action" where
  "gate_pass e token = query (\<lambda>s.
     if coordinated s
     then seq (set_phase ''preparing_official'') (out (CSpawn (Gate token GPrepare)))
     else seq (set_phase ''activating_official'')
         (seq (activate_official_streaming e)
         (seq (emit_startup_event EVT_STREAM_OFFICIAL_STARTED ''official_streaming'' None)
           (upd (\<lambda>s. s\<lparr>co_stream_phase := ''official_streaming'', co_official_outputs_active := True\<rparr>)))))"

definition stop_startup_sensors :: "cenv \<Rightarrow> core_action" where
  "stop_startup_sensors e = query (\<lambda>s. call (ce_sensors e) (CStopSpecific (co_startup_addresses s)))"

definition startup_failed :: "cenv \<Rightarrow> string \<Rightarrow> core_action" where
  "startup_failed e reason =
     seq (upd (\<lambda>s. s\<lparr>co_stream_phase := ''startup_failed'', co_startup_retry_pending := False,
            co_startup_last_failure_reason := Some reason\<rparr>))
       (seq (emit_startup_event EVT_STREAM_STARTUP_FAILED ''startup_failed'' (Some reason))
         (stop_startup_sensors e))"

definition GATE_TIMEOUT :: string where
  "GATE_TIMEOUT = ''startup gate timeout elapsed before all sensors became stable''"

definition gate_timeout :: "cenv \<Rightarrow> nat \<Rightarrow> core_action" where
  "gate_timeout e token = query (\<lambda>s.
     if \<not> gate_current token ''warming_up'' s then skip
     else if co_startup_attempt s < co_startup_max_attempts s then
       seq (upd (\<lambda>s. s\<lparr>co_stream_phase := ''retrying_startup'', co_startup_retry_pending := True\<rparr>))
         (seq (emit_startup_event EVT_STREAM_STARTUP_RETRY ''retrying_startup'' (Some GATE_TIMEOUT))
           (stop_startup_sensors e))
     else startup_failed e GATE_TIMEOUT)"

fun gate_step :: "cenv \<Rightarrow> nat \<Rightarrow> gate_stage \<Rightarrow> core_action" where
  "gate_step e token GSettle =
     (if ce_deadline e then out (CSpawn (Gate token GWatch))
      else query (\<lambda>s. if gate_current token ''warming_up'' s then out (CSpawn (Gate token GSettle)) else skip))"
| "gate_step e token GWatch =
     (if ce_deadline e then gate_timeout e token
      else query (\<lambda>s. if \<not> gate_current token ''warming_up'' s then skip
                      else if all_stable s then gate_pass e token
                      else out (CSpawn (Gate token GWatch))))"
| "gate_step e token GPrepare =
     catch (seq (prepare_official_persistence e) (out (CSpawn (Gate token GReady))))
       (\<lambda>x. query (\<lambda>s. if \<not> gate_current token ''preparing_official'' s then skip
                        else startup_failed e (''official persistence preparation failed: '' @ x)))"
| "gate_step e token GReady =
     query (\<lambda>s. if \<not> gate_current token ''preparing_official'' s then skip
                 else seq (set_phase ''ready_for_official'')
                        (emit_startup_event EVT_STREAM_READY_FOR_OFFICIAL ''ready_for_official'' None))"

definition schedule_startup_retry :: "cenv \<Rightarrow> nat \<Rightarrow> core_action" where
  "schedule_startup_retry e token = query (\<lambda>s.
     if token \<noteq> co_startup_gate_token s then skip
     else if co_startup_manual_stop s \<or> co_stream_phase s \<noteq> ''retrying_startup'' then skip
     else seq (upd (\<lambda>s. s\<lparr>co_startup_attempt := Suc (co_startup_attempt s), co_startup_retry_pending := False,
                co_stream_phase := ''starting'',
                co_startup_stats := map (\<lambda>(a, st). (a, reset_for_attempt (Some (ce_now e)) st)) (co_startup_stats s)\<rparr>))
            (call (ce_sensors e) (CStartSpecific (co_startup_addresses s))))"

section \<open>Start\<close>

definition ensure_recovery_idle :: core_action where
  "ensure_recovery_idle = query (\<lambda>s. if co_recovery_in_progress s
     then raise ''Core recovery is still in progress; wait for Reset completion'' else skip)"

definition ensure_disconnect_allowed :: core_action where
  "ensure_disconnect_allowed = query (\<lambda>s. if co_finalization_pending s
     then raise ''Cannot disconnect sensors while stream finalization is still in progress'' else skip)"

definition begin_start :: core_action where
  "begin_start = seq ensure_recovery_idle (query (\<lambda>s.
     if co_subjects s = [] then raise ''Configure a session before starting acquisition''
     else set_phase ''starting''))"

definition new_session :: "cenv \<Rightarrow> val \<Rightarrow> core \<Rightarrow> core" where
  "new_session e payload s = s\<lparr>co_session_timestamp := vget_or payload ''session_timestamp'' (VStr (ce_stamp e)),
     co_official_start_mode := vget_or payload ''official_start_mode'' (VStr ''local''),
     co_start_session_id := vget payload ''start_session_id'', co_official_commit_received := False,
     co_official_outputs_active := False, co_prepared_subject_ids := [], co_archived_session_timestamp := VNone,
     co_official_origin_ns := None\<rparr>"

definition clear_raw_data :: "subject \<Rightarrow> subject" where
  "clear_raw_data sub = sub\<lparr>sb_is_streaming := False, sb_sensors := map (\<lambda>en. en\<lparr>se_raw_data := []\<rparr>) (sb_sensors sub)\<rparr>"

definition stream_tags :: "val \<Rightarrow> subject list \<Rightarrow> (string, val) dict" where
  "stream_tags payload subs = fold (\<lambda>sub. dput (sb_subject_id sub)
     (vget_or (py_or (vget payload ''tags'') (VDict [])) (sb_subject_id sub) (vget payload ''tag''))) subs []"

definition launch :: "cenv \<Rightarrow> val \<Rightarrow> string list option \<Rightarrow> subject list \<Rightarrow> core_action" where
  "launch e payload tg subs =
     seq (upd (\<lambda>s. s\<lparr>co_pending_stream_tags := stream_tags payload subs,
            co_subjects := modify_targets tg clear_raw_data (co_subjects s)\<rparr>))
     (seq (upd (reset_startup_gate_state e (map sb_subject_id subs) (addresses_of subs)))
       (query (\<lambda>s. out (CStartDiagnostics (co_session_timestamp s) (map sb_subject_id subs) (addresses_of subs)))))"

definition start_stream :: "cenv \<Rightarrow> val \<Rightarrow> core_action" where
  "start_stream e payload = seq begin_start (seq (upd (new_session e payload)) (query (\<lambda>s.
     seq (launch e payload None (co_subjects s)) (call (ce_sensors e) CStartAll))))"

definition start_stream_for_subjects :: "cenv \<Rightarrow> val \<Rightarrow> core_action" where
  "start_stream_for_subjects e payload = seq begin_start
     (case map_of (as_dict payload) ''subject_ids'' of
        None \<Rightarrow> raise (quoted ''subject_ids'')
      | Some v \<Rightarrow> seq (upd (new_session e payload))
          (get_subjects_by_ids_then (map py_str (as_list v)) (\<lambda>subs.
             seq (upd (\<lambda>s. s\<lparr>co_active_subject_ids := Some (map sb_subject_id subs)\<rparr>))
             (seq (launch e payload (Some (map sb_subject_id subs)) subs)
               (if addresses_of subs \<noteq> [] then call (ce_sensors e) (CStartSpecific (addresses_of subs)) else skip)))))"

section \<open>Callbacks of the sensor manager\<close>

definition subjects_to_process :: "core \<Rightarrow> subject list" where
  "subjects_to_process s = (case co_active_subject_ids s of
     None \<Rightarrow> co_subjects s | Some sids \<Rightarrow> filter (\<lambda>sub. sb_subject_id sub \<in> set sids) (co_subjects s))"

definition sensors_among :: "string list \<Rightarrow> subject \<Rightarrow> val" where
  "sensors_among addresses sub = VList (concat (map (\<lambda>en. case se_address en of
     None \<Rightarrow> [] | Some a \<Rightarrow> if a \<in> set addresses then [VStr a] else []) (sb_sensors sub)))"

definition subjects_payload :: "core \<Rightarrow> string \<Rightarrow> (subject \<Rightarrow> val) \<Rightarrow> subject list \<Rightarrow> val" where
  "subjects_payload s key f subs = VDict (dmerge
     [(''subjects'', VList (map (\<lambda>sub. VDict [(''subject_id'', VStr (sb_subject_id sub)), (key, f sub)]) subs))]
     (event_context s (map sb_subject_id subs)))"

definition end_operation :: core_action where
  "end_operation = upd (\<lambda>s. s\<lparr>co_active_subject_ids := None, co_pending_correlation_id := VNone\<rparr>)"

definition on_stream_started :: "cenv \<Rightarrow> string list \<Rightarrow> core_action" where
  "on_stream_started e addresses = query (\<lambda>s.
     let subs = subjects_to_process s;
         pl = subjects_payload s ''streaming_sensors'' (sensors_among addresses) subs
     in if subs = [] then raise ''UnboundLocalError''
        else seq (emit_event e EVT_STREAM_STARTED pl)
            (seq (out (CDiagnostics EVT_STREAM_STARTED pl))
            (seq (if co_startup_addresses s \<noteq> []
                  then seq (set_phase ''warming_up'')
                      (seq (emit_startup_event EVT_STREAM_WARMUP_STARTED ''warming_up'' None)
                        (out (CSpawn (Gate (co_startup_gate_token s) GSettle))))
                  else skip)
              end_operation)))"

section \<open>Session archive and drain\<close>

definition finalize_session_archive :: core_action where
  "finalize_session_archive = query (\<lambda>s.
     if \<not> truthy (co_session_timestamp s) then skip
     else if co_archived_session_timestamp s = co_session_timestamp s then skip
     else seq (out (CFinishDiagnostics (co_session_timestamp s)))
         (seq (out (CArchive (co_session_timestamp s)))
           (upd (\<lambda>s. s\<lparr>co_archived_session_timestamp := co_session_timestamp s\<rparr>))))"

definition finalize_distributed_session :: "cenv \<Rightarrow> val \<Rightarrow> string \<Rightarrow> string option \<Rightarrow> core_action" where
  "finalize_distributed_session e ts status reason = query (\<lambda>s.
     if truthy ts \<and> py_str ts \<noteq> py_str (co_session_timestamp s)
     then raise (''Refusing to finalize distributed session '' @ py_str ts)
     else seq (out (CFinalizeDiagnostics (co_session_timestamp s) status reason)) finalize_session_archive)"

definition drained_payload :: "core \<Rightarrow> val \<Rightarrow> string \<Rightarrow> string list \<Rightarrow> string \<Rightarrow> string option \<Rightarrow> bool \<Rightarrow> (string \<times> val) list" where
  "drained_payload s ctx scope sids status reason drained =
     add_key ''reason'' (opt_str reason) (truthy (opt_str reason))
       (dmerge [(''stop_session_id'', vget ctx ''stop_session_id''), (''scope'', VStr scope),
           (''subject_ids'', VList (map VStr sids)), (''status'', VStr status), (''drained'', VBool drained),
           (''all_local_streams_stopped'', VBool (\<not> has_active_streams s))]
         (event_context s sids))"

definition emit_stream_drained :: "cenv \<Rightarrow> (string \<times> val) list \<Rightarrow> core_action" where
  "emit_stream_drained e pl = emit_event e EVT_STREAM_DRAINED (VDict pl)"

definition cleanup_failed_startup_session :: "cenv \<Rightarrow> core_action" where
  "cleanup_failed_startup_session e = query (\<lambda>s.
     let failed = remdups (co_startup_subject_ids s);
         reason = (case co_startup_last_failure_reason s of Some r \<Rightarrow> (if r = [] then ''startup gate failed'' else r)
                   | None \<Rightarrow> ''startup gate failed'')
     in seq (for_each (filter (\<lambda>sub. sb_subject_id sub \<in> set failed) (co_subjects s)) (\<lambda>sub. out (CFileStop (sb_subject_id sub))))
       (seq (upd (\<lambda>s. s\<lparr>co_subjects := map (\<lambda>sub. if sb_subject_id sub \<in> set failed then sub\<lparr>sb_is_streaming := False\<rparr> else sub)
              (co_subjects s)\<rparr>))
         (query (\<lambda>s.
            let pl = drained_payload s VNone ''all'' failed ''error'' (Some reason) True in
            seq (out (CFinalizeDiagnostics (co_session_timestamp s) ''startup_failed'' (Some reason)))
              (seq (if \<not> has_active_streams s then finalize_session_archive else skip)
                (emit_stream_drained e pl))))))"

definition on_stream_stopped :: "cenv \<Rightarrow> string list \<Rightarrow> core_action" where
  "on_stream_stopped e addresses = query (\<lambda>s.
     let subs = filter (\<lambda>sub. \<exists>en \<in> set (sb_sensors sub). \<exists>a \<in> set addresses. se_address en = Some a) (subjects_to_process s);
         pl = subjects_payload s ''discovered_sensors'' (sensors_among addresses) subs
     in seq (emit_event e EVT_STREAM_STOPPED pl)
       (seq (out (CDiagnostics EVT_STREAM_STOPPED pl))
       (seq (if co_stream_phase s = ''retrying_startup'' \<and> co_startup_retry_pending s \<and> \<not> co_startup_manual_stop s
             then out (CSpawn (Retry (co_startup_gate_token s)))
             else if co_stream_phase s = ''startup_failed'' then cleanup_failed_startup_session e
             else if co_stream_phase s \<noteq> ''official_streaming'' then set_phase ''idle''
             else skip)
         end_operation)))"

text \<open>\<open>_on_data\<close>: the gate's statistics, then the routing of an official sample. A sample whose ingestion
  does not end leaves the callback without a result.\<close>

definition gate_observes :: "reading \<Rightarrow> core \<Rightarrow> bool" where
  "gate_observes x s \<longleftrightarrow> sa_address (rd_sample x) \<noteq> [] \<and> sa_address (rd_sample x) \<in> set (dkeys (co_startup_stats s)) \<and>
     co_stream_phase s \<in> {''starting'', ''warming_up'', ''retrying_startup''} \<and> rd_sampling_rate x \<noteq> None"

definition observe_sample :: "cenv \<Rightarrow> reading \<Rightarrow> core \<Rightarrow> core" where
  "observe_sample e x s = (if gate_observes x s
     then s\<lparr>co_startup_stats := map (\<lambda>(a, st). if a = sa_address (rd_sample x) then (a, record_sample x (ce_now e) st) else (a, st))
              (co_startup_stats s)\<rparr>
     else s)"

definition official_streaming :: "core \<Rightarrow> bool" where
  "official_streaming s \<longleftrightarrow> co_stream_phase s = ''official_streaming'' \<and> co_official_outputs_active s \<and>
     (\<not> coordinated s \<or> co_official_commit_received s)"

definition owner_of_address :: "core \<Rightarrow> string \<Rightarrow> subject option" where
  "owner_of_address s address = find (\<lambda>sub. \<exists>en \<in> set (sb_sensors sub). se_address en = Some address) (co_subjects s)"

fun replace_first :: "(subject \<Rightarrow> bool) \<Rightarrow> subject \<Rightarrow> subject list \<Rightarrow> subject list" where
  "replace_first p new [] = []"
| "replace_first p new (sub # subs) = (if p sub then new # subs else sub # replace_first p new subs)"

definition on_data :: "cenv \<Rightarrow> reading \<Rightarrow> core \<Rightarrow> (core \<times> ceffect list) option" where
  "on_data e x s0 =
     (let s = observe_sample e x s0; a = sa_address (rd_sample x) in
      if \<not> official_streaming s then Some (s, [])
      else case owner_of_address s a of
        None \<Rightarrow> Some (s, [])
      | Some sub \<Rightarrow>
          if \<not> sb_is_streaming sub \<or> sb_subject_id sub \<in> set (co_stopping_subject_ids s) then Some (s, [])
          else map_option (\<lambda>(sub', blocks, _).
                 (s\<lparr>co_subjects := replace_first (\<lambda>sub. \<exists>en \<in> set (sb_sensors sub). se_address en = Some a) sub' (co_subjects s)\<rparr>,
                  map (CEnqueueBlock a) blocks @ [CComputeSample x]))
               (ingest_sample (rd_sample x) sub))"

text \<open>\<open>_on_compute_result\<close>: the result is written for its sensor and published, in the payload of
  \<^verbatim>\<open>core/orchestrators/event_assembler.py\<close>.\<close>

definition build_compute_payload :: "string \<Rightarrow> val \<Rightarrow> val \<Rightarrow> (string \<times> val) list \<Rightarrow> val" where
  "build_compute_payload sid result location context = VDict (dmerge
     [(''subject_id'', VStr sid), (''result'', result), (''address'', vget result ''address''), (''sensor_id'', vget result ''address''),
      (''location'', location), (''algorithm_name'', vget result ''algorithm_name'')] context)"

definition on_compute_result :: "cenv \<Rightarrow> val \<Rightarrow> core_action" where
  "on_compute_result e result = query (\<lambda>s.
     if \<not> co_official_outputs_active s then skip
     else case vget result ''address'' of
        VStr a \<Rightarrow> (case owner_of_address s a of
            None \<Rightarrow> skip
          | Some sub \<Rightarrow> if \<not> sb_is_streaming sub then skip
              else seq (case ingest_result result sub of None \<Rightarrow> skip | Some (en, r) \<Rightarrow> out (CWriteResult a r))
                (emit_event e EVT_COMPUTE_RESULT (build_compute_payload (sb_subject_id sub) result
                   (case find_entry a (sb_sensors sub) of None \<Rightarrow> VNone | Some en \<Rightarrow> sm_location (se_meta en))
                   (event_context s [sb_subject_id sub]))))
      | _ \<Rightarrow> skip)"

section \<open>Official start\<close>

definition core_start_official_stream :: "cenv \<Rightarrow> val \<Rightarrow> core_action" where
  "core_start_official_stream e payload = query (\<lambda>s.
     let sid = vget payload ''start_session_id''; ts = vget payload ''session_timestamp'' in
     if \<not> coordinated s then raise ''Official-start commands are only valid for coordinated streams''
     else if \<not> truthy sid \<or> sid \<noteq> co_start_session_id s
     then raise ''Official-start command does not match the active start session''
     else if truthy ts \<and> py_str ts \<noteq> py_str (co_session_timestamp s)
     then raise ''Official-start command has a stale session timestamp''
     else if co_stream_phase s = ''official_streaming''
     then emit_startup_event EVT_STREAM_OFFICIAL_STARTED ''official_streaming'' None
     else if co_stream_phase s = ''activating_official'' then skip
     else if co_stream_phase s \<noteq> ''ready_for_official''
     then raise (''Local stream is not ready for official acquisition (phase='' @ co_stream_phase s @ '')'')
     else seq (upd (\<lambda>s. s\<lparr>co_official_commit_received := True, co_stream_phase := ''activating_official''\<rparr>))
        (seq (catch (activate_official_streaming e) (\<lambda>x.
               seq (upd (\<lambda>s. s\<lparr>co_official_commit_received := False, co_official_outputs_active := False,
                      co_official_origin_ns := None, co_stream_phase := ''startup_failed'',
                      co_startup_last_failure_reason := Some ''official persistence activation failed''\<rparr>))
                 (raise x)))
        (seq (emit_startup_event EVT_STREAM_OFFICIAL_STARTED ''official_streaming'' None)
          (upd (\<lambda>s. s\<lparr>co_stream_phase := ''official_streaming'', co_official_outputs_active := True\<rparr>)))))"

end
