(* ===== verification/Session_Paths.thy ===== *)
theory Session_Paths
  imports Nexus_Prelude
begin

text \<open>
  Names of sessions, directories and files, from \<^verbatim>\<open>file_manager/FileManager.py\<close> and
  \<^verbatim>\<open>file_manager/session_archive.py\<close>: how labels, identifiers and tags of clients become components of
  paths. A path is the list of its components below the storage root.
\<close>

type_synonym path = "string list"

section \<open>Sanitizers\<close>

definition label_char :: "char \<Rightarrow> bool" where
  "label_char c \<longleftrightarrow> char_in 65 90 c \<or> char_in 97 122 c \<or> char_in 48 57 c \<or> c \<in> set ''._-''"

definition alnum_char :: "char \<Rightarrow> bool" where
  "alnum_char c \<longleftrightarrow> char_in 65 90 c \<or> char_in 97 122 c \<or> char_in 48 57 c"

text \<open>\<open>re.sub("[^A-Za-z0-9._-]+", "_", s)\<close>: a run of other characters becomes one underscore.\<close>

fun sub_runs :: "bool \<Rightarrow> string \<Rightarrow> string" where
  "sub_runs inside [] = []"
| "sub_runs inside (c # cs) = (if label_char c then c # sub_runs False cs
     else if inside then sub_runs True cs else CHR ''_'' # sub_runs True cs)"

definition sanitize_label :: "string \<Rightarrow> string" where
  "sanitize_label label = (let cleaned = sub_runs False (py_strip label) in if cleaned = [] then ''session'' else cleaned)"

definition sanitize_tag :: "string \<Rightarrow> string" where
  "sanitize_tag tag = (let cleaned = sub_runs False (py_strip tag) in if cleaned = [] then ''untagged'' else cleaned)"

definition strip_chars :: "(char \<Rightarrow> bool) \<Rightarrow> string \<Rightarrow> string" where
  "strip_chars p s = rev (dropWhile p (rev (dropWhile p s)))"

definition dot_or_blank :: "char \<Rightarrow> bool" where
  "dot_or_blank c \<longleftrightarrow> c = CHR '' '' \<or> c = CHR ''.''"

definition windows_reserved_names :: "string list" where
  "windows_reserved_names = [''CON'', ''PRN'', ''AUX'', ''NUL''] @
     map (\<lambda>i. ''COM'' @ digits_of i) [1..<10] @ map (\<lambda>i. ''LPT'' @ digits_of i) [1..<10]"

definition stem :: "string \<Rightarrow> string" where
  "stem s = py_upper (takeWhile (\<lambda>c. c \<noteq> CHR ''.'') s)"

definition sanitize_component :: "string \<Rightarrow> string \<Rightarrow> string" where
  "sanitize_component value fallback =
     (let cleaned = strip_chars dot_or_blank (sub_runs False (py_strip value)) in
      if cleaned = [] \<or> cleaned = ''.'' \<or> cleaned = ''..'' then fallback
      else if stem cleaned \<in> set windows_reserved_names then CHR ''_'' # cleaned
      else cleaned)"

definition sanitize_sensor_id :: "string \<Rightarrow> string" where
  "sanitize_sensor_id value = sanitize_component (filter alnum_char (py_strip value)) ''na''"

section \<open>Paths\<close>

text \<open>The site as the constructor keeps it, the session name (\<open>None\<close> before the first label), and the
  layout below the root.\<close>

definition resolve_base_dir :: "string \<Rightarrow> path" where
  "resolve_base_dir site = [sanitize_component site ''local'', ''sessions'']"

definition build_session_id :: "string \<Rightarrow> string \<Rightarrow> string" where
  "build_session_id session_name session_index =
     sanitize_component session_name ''sys_session'' @ ''_'' @ sanitize_component session_index ''unknown''"

definition session_dir :: "string \<Rightarrow> string \<Rightarrow> string \<Rightarrow> path" where
  "session_dir site session_name session_index = resolve_base_dir site @ [build_session_id session_name session_index]"

definition diagnostics_dir :: "string \<Rightarrow> string \<Rightarrow> string \<Rightarrow> string \<Rightarrow> path" where
  "diagnostics_dir site session_name session_index node_id =
     session_dir site session_name session_index @ [sanitize_component node_id ''standalone'' @ ''-diagnostics'']"

definition build_subject_activity_dir :: "path \<Rightarrow> string \<Rightarrow> string \<Rightarrow> path" where
  "build_subject_activity_dir dir subject_id activity = dir @ [''subjects'', sanitize_component subject_id ''unknown_subject'',
     ''activities'', sanitize_component activity ''sys'']"

definition sensor_file :: "string \<Rightarrow> string \<Rightarrow> string \<Rightarrow> string" where
  "sensor_file location sensor_id ext = sanitize_component location ''na'' @ ''_'' @ sanitize_sensor_id sensor_id @ ext"

definition build_raw_path :: "path \<Rightarrow> string \<Rightarrow> string \<Rightarrow> string \<Rightarrow> string \<Rightarrow> path" where
  "build_raw_path dir subject_id activity location sensor_id =
     build_subject_activity_dir dir subject_id activity @ [''raw'', sensor_file location sensor_id ''.csv'']"

definition build_real_time_path :: "path \<Rightarrow> string \<Rightarrow> string \<Rightarrow> string \<Rightarrow> string \<Rightarrow> string \<Rightarrow> path" where
  "build_real_time_path dir subject_id activity algorithm location sensor_id =
     build_subject_activity_dir dir subject_id activity @
     [''computed'', ''real_time'', sanitize_component algorithm ''unknown'', sensor_file location sensor_id ''.ndjson'']"

definition build_intermediate_path :: "path \<Rightarrow> string \<Rightarrow> string \<Rightarrow> string \<Rightarrow> path" where
  "build_intermediate_path dir subject_id activity algorithm =
     build_subject_activity_dir dir subject_id activity @
     [''computed'', ''intermediate'', sanitize_component algorithm ''unknown'' @ ''.ndjson'']"

definition build_consolidated_path :: "path \<Rightarrow> string \<Rightarrow> string \<Rightarrow> string \<Rightarrow> path" where
  "build_consolidated_path dir subject_id activity algorithm =
     build_subject_activity_dir dir subject_id activity @
     [''computed'', ''consolidated'', sanitize_component algorithm ''unknown'' @ ''.ndjson'']"

text \<open>The name of an archive.\<close>

definition archive_clean :: "string \<Rightarrow> string \<Rightarrow> string" where
  "archive_clean value fallback =
     (let cleaned = map (\<lambda>c. if label_char c then c else CHR ''_'') (py_strip value) in if cleaned = [] then fallback else cleaned)"

definition build_session_archive_name :: "string \<Rightarrow> string \<Rightarrow> string" where
  "build_session_archive_name session_name session_timestamp =
     archive_clean session_name ''session'' @ ''_'' @ archive_clean session_timestamp ''unknown_session'' @ ''.zip''"

text \<open>For evaluation.\<close>

lemma label_char_code [code]: "label_char c \<longleftrightarrow> c \<in> set (uppercase @ lowercase @ ''0123456789'' @ ''._-'')"
  by (simp only: label_char_def char_in_ranges set_append Un_iff)

lemma alnum_char_code [code]: "alnum_char c \<longleftrightarrow> c \<in> set (uppercase @ lowercase @ ''0123456789'')"
  by (simp only: alnum_char_def char_in_ranges set_append Un_iff)

lemma windows_reserved_names_code:
  "windows_reserved_names = [''CON'', ''PRN'', ''AUX'', ''NUL'',
     ''COM1'', ''COM2'', ''COM3'', ''COM4'', ''COM5'', ''COM6'', ''COM7'', ''COM8'', ''COM9'',
     ''LPT1'', ''LPT2'', ''LPT3'', ''LPT4'', ''LPT5'', ''LPT6'', ''LPT7'', ''LPT8'', ''LPT9'']"
  by code_simp

declare windows_reserved_names_code [code]

section \<open>Components are safe\<close>

text \<open>A component that no file system reads as anything but a plain name: allowed characters only, no dot at
  either end (so neither the directory itself nor its parent), and not the name of a device.\<close>

definition safe_component :: "string \<Rightarrow> bool" where
  "safe_component c \<longleftrightarrow> c \<noteq> [] \<and> list_all label_char c \<and> hd c \<noteq> CHR ''.'' \<and> last c \<noteq> CHR ''.'' \<and>
     stem c \<notin> set windows_reserved_names"

lemma label_underscore [simp]: "label_char CHR ''_''"
  by (simp add: label_char_def)

lemma label_char_alnum: "alnum_char c \<Longrightarrow> label_char c"
  by (auto simp: alnum_char_def label_char_def)

lemma sub_runs_label: "list_all label_char (sub_runs b s)"
  by (induction b s rule: sub_runs.induct) auto

lemma set_strip_chars: "set (strip_chars p s) \<subseteq> set s"
  by (auto simp: strip_chars_def dest!: set_dropWhileD)

lemma strip_chars_last: "strip_chars p s \<noteq> [] \<Longrightarrow> \<not> p (last (strip_chars p s))"
  using hd_dropWhile [of p "rev (dropWhile p s)"] by (auto simp: strip_chars_def last_rev)

lemma strip_chars_hd: "strip_chars p s \<noteq> [] \<Longrightarrow> \<not> p (hd (strip_chars p s))"
proof -
  assume ne: "strip_chars p s \<noteq> []"
  define t where "t = dropWhile p s"
  obtain q where q: "rev t = q @ dropWhile p (rev t)" by (metis takeWhile_dropWhile_id)
  then have t: "t = strip_chars p s @ rev q" by (metis rev_append rev_rev_ident strip_chars_def t_def)
  with ne have "t \<noteq> []" "hd t = hd (strip_chars p s)" by auto
  then show ?thesis using hd_dropWhile [of p s] by (simp add: t_def)
qed

lemma no_underscore_reserved: "x \<in> set windows_reserved_names \<Longrightarrow> list_all alnum_char x"
  by (auto simp: windows_reserved_names_def upt_rec digits_of.simps alnum_char_def char_in_def)

lemma py_upper_underscore: "c \<in> set s \<Longrightarrow> c = CHR ''_'' \<or> c = CHR ''-'' \<Longrightarrow> \<not> list_all alnum_char (py_upper s)"
  by (auto simp: py_upper_def py_upper_char_def char_in_def alnum_char_def list_all_iff intro!: bexI [of _ c])

lemma stem_marked:
  assumes "c \<in> set (takeWhile (\<lambda>c. c \<noteq> CHR ''.'') s)" and "c = CHR ''_'' \<or> c = CHR ''-''"
  shows "stem s \<notin> set windows_reserved_names"
  using py_upper_underscore [OF assms] no_underscore_reserved by (auto simp: stem_def)

lemma sanitize_component_safe:
  assumes "safe_component fallback"
  shows "safe_component (sanitize_component value fallback)"
proof -
  define cleaned where "cleaned = strip_chars dot_or_blank (sub_runs False (py_strip value))"
  have chars: "list_all label_char cleaned"
    using set_strip_chars [of dot_or_blank "sub_runs False (py_strip value)"] sub_runs_label [of False "py_strip value"]
    by (auto simp: cleaned_def list_all_iff)
  have ends: "cleaned \<noteq> [] \<Longrightarrow> hd cleaned \<noteq> CHR ''.'' \<and> last cleaned \<noteq> CHR ''.''"
    using strip_chars_hd [of dot_or_blank] strip_chars_last [of dot_or_blank] by (auto simp: cleaned_def dot_or_blank_def)
  have "stem (CHR ''_'' # cleaned) \<notin> set windows_reserved_names"
    by (rule stem_marked [of "CHR ''_''"]) simp_all
  with assms chars ends show ?thesis
    unfolding sanitize_component_def cleaned_def [symmetric] Let_def by (auto simp: safe_component_def)
qed

text \<open>A name built from safe ones.\<close>

lemma safe_joined:
  assumes "safe_component a" "list_all label_char b" "b \<noteq> []" "last b \<noteq> CHR ''.''" "hd b = CHR ''_'' \<or> hd b = CHR ''-''"
  shows "safe_component (a @ b)"
proof -
  obtain c cs where b: "b = c # cs" using assms(3) by (cases b) auto
  have "stem (a @ b) \<notin> set windows_reserved_names"
  proof (cases "CHR ''.'' \<in> set a")
    case True
    then have "takeWhile (\<lambda>c. c \<noteq> CHR ''.'') (a @ b) = takeWhile (\<lambda>c. c \<noteq> CHR ''.'') a"
      by (intro takeWhile_append1 [of "CHR ''.''"]) simp_all
    then show ?thesis using assms(1) by (simp add: safe_component_def stem_def)
  next
    case False
    then have "takeWhile (\<lambda>c. c \<noteq> CHR ''.'') (a @ b) = a @ takeWhile (\<lambda>c. c \<noteq> CHR ''.'') b"
      by (intro takeWhile_append2) auto
    then have "c \<in> set (takeWhile (\<lambda>c. c \<noteq> CHR ''.'') (a @ b))" using assms(5) b by auto
    then show ?thesis using assms(5) b by (intro stem_marked) auto
  qed
  with assms show ?thesis by (auto simp: safe_component_def)
qed

lemma safe_extended:
  assumes "safe_component a" "list_all label_char b" "b \<noteq> []" "last b \<noteq> CHR ''.''" "hd b = CHR ''.''"
  shows "safe_component (a @ b)"
proof -
  obtain cs where b: "b = CHR ''.'' # cs" using assms(3,5) by (cases b) auto
  have "takeWhile (\<lambda>c. c \<noteq> CHR ''.'') (a @ b) = takeWhile (\<lambda>c. c \<noteq> CHR ''.'') a"
    unfolding b by (rule takeWhile_tail) simp
  then have "stem (a @ b) = stem a" by (simp add: stem_def)
  with assms show ?thesis by (simp add: safe_component_def)
qed

lemma safe_fixed:
  "safe_component ''local''" "safe_component ''sessions''" "safe_component ''sys_session''" "safe_component ''unknown''"
  "safe_component ''standalone''" "safe_component ''subjects''" "safe_component ''unknown_subject''" "safe_component ''activities''"
  "safe_component ''sys''" "safe_component ''na''" "safe_component ''raw''" "safe_component ''computed''" "safe_component ''real_time''"
  "safe_component ''intermediate''" "safe_component ''consolidated''"
  by code_simp+

lemmas safe_sanitized = sanitize_component_safe [OF safe_fixed(1)] sanitize_component_safe [OF safe_fixed(3)]
  sanitize_component_safe [OF safe_fixed(4)] sanitize_component_safe [OF safe_fixed(5)] sanitize_component_safe [OF safe_fixed(7)]
  sanitize_component_safe [OF safe_fixed(9)] sanitize_component_safe [OF safe_fixed(10)]

lemma safe_chars: "safe_component c \<Longrightarrow> list_all label_char c" "safe_component c \<Longrightarrow> c \<noteq> []" "safe_component c \<Longrightarrow> last c \<noteq> CHR ''.''"
  by (simp_all add: safe_component_def)

lemma label_literals: "list_all label_char ''_''" "list_all label_char ''-diagnostics''" "list_all label_char ''.csv''" "list_all label_char ''.ndjson''"
  "list_all label_char ''.zip''"
  by code_simp+

lemma safe_session_id: "safe_component (build_session_id name ts)"
  unfolding build_session_id_def
  using safe_chars [OF safe_sanitized(3) [of ts]] label_literals
  by (intro safe_joined safe_sanitized) simp_all

lemma safe_sensor_file:
  assumes "ext = ''.csv'' \<or> ext = ''.ndjson''"
  shows "safe_component (sensor_file location sensor_id ext)"
proof -
  have ext: "list_all label_char ext" "ext \<noteq> []" "last ext \<noteq> CHR ''.''" "hd ext = CHR ''.''"
    using assms label_literals by auto
  have id: "safe_component (sanitize_sensor_id sensor_id)"
    unfolding sanitize_sensor_id_def by (rule safe_sanitized)
  have "safe_component (sanitize_component location ''na'' @ (''_'' @ sanitize_sensor_id sensor_id))"
    using safe_chars [OF id] label_literals by (intro safe_joined safe_sanitized) simp_all
  from safe_extended [OF this ext] show ?thesis by (simp add: sensor_file_def)
qed

lemma safe_ndjson: "safe_component a \<Longrightarrow> safe_component (a @ ''.ndjson'')"
  using label_literals by (intro safe_extended) simp_all

lemma safe_diagnostics: "safe_component a \<Longrightarrow> safe_component (a @ ''-diagnostics'')"
  using label_literals by (intro safe_joined) simp_all

section \<open>Containment\<close>

text \<open>All files of a session, for given identifiers.\<close>

definition output_paths ::
  "string \<Rightarrow> string \<Rightarrow> string \<Rightarrow> string \<Rightarrow> string \<Rightarrow> string \<Rightarrow> string \<Rightarrow> string \<Rightarrow> string \<Rightarrow> path list" where
  "output_paths site name ts node sid activity algorithm location sensor =
     (let dir = session_dir site name ts in
      [build_raw_path dir sid activity location sensor, build_real_time_path dir sid activity algorithm location sensor,
       build_intermediate_path dir sid activity algorithm, build_consolidated_path dir sid activity algorithm,
       diagnostics_dir site name ts node])"

text \<open>C36. No identifier leads out of the session: whatever strings a client gives for site, label, timestamp, node,
  subject, tag, algorithm, location and sensor, every output path lies below the session's directory, and
  each of its components is a plain name: never empty, the directory itself or its parent, without
  separators, and no device name of Windows.\<close>

theorem output_paths_contained:
  "list_all (\<lambda>p. take 3 p = session_dir site name ts \<and> list_all safe_component p)
     (output_paths site name ts node sid activity algorithm location sensor)"
  by (auto simp: output_paths_def Let_def build_raw_path_def build_real_time_path_def build_intermediate_path_def
      build_consolidated_path_def diagnostics_dir_def build_subject_activity_dir_def session_dir_def resolve_base_dir_def
      safe_sanitized safe_fixed safe_session_id safe_ndjson safe_diagnostics intro!: safe_sensor_file)

text \<open>The names are not injective: subjects whose identifiers differ in separators only share a directory, so the
  file of one algorithm's intermediate results is the same file for both.\<close>

lemma identifiers_collide:
  "build_intermediate_path dir ''S 1'' activity algorithm = build_intermediate_path dir ''S_1'' activity algorithm"
proof -
  have "sanitize_component ''S 1'' ''unknown_subject'' = sanitize_component ''S_1'' ''unknown_subject''" by code_simp
  then show ?thesis by (simp add: build_intermediate_path_def build_subject_activity_dir_def)
qed

end
