(* ===== verification/Core_Session.thy ===== *)
theory Core_Session
  imports Core_Stream Session_Paths
begin

text \<open>
  The rest of the acquisition lifecycle of \<open>Core\<close> in \<^verbatim>\<open>core/core.py\<close>: the stop with its drain, the
  installation of a configuration with its rollback, the recovery of a session, the discovery and
  connection commands, and the sequences of inputs.

  \<open>_stop_stream_impl\<close> is split where it waits for the sensors, because callbacks and threads run
  meanwhile: \<open>stop_begin\<close> ends with the effect that leaves the thread \<open>Stopping\<close>, and \<open>stop_finish\<close>
  goes on when the answer is there. Of the calls of the rest of the stop the consolidation, which runs
  plugins, can raise; the calls of the file manager there are taken to succeed. A command that arrives while a stop is waiting is not taken: the
  handler of commands is still in the stop. \<open>core_run\<close> takes inputs in any order: commands,
  callbacks of the sensor manager, samples, results, steps of threads.
\<close>

section \<open>Stop\<close>

text \<open>\<open>try: a finally: f\<close>\<close>

definition always :: "('s, 'e) action \<Rightarrow> ('s, 'e) action \<Rightarrow> ('s, 'e) action" where
  "always a f = seq (catch a (\<lambda>x. seq f (raise x))) f"

definition acquiring_elsewhere :: "string list \<Rightarrow> core \<Rightarrow> bool" where
  "acquiring_elsewhere sids s \<longleftrightarrow> (\<exists>sub \<in> set (co_subjects s). sb_is_streaming sub \<and> sb_subject_id sub \<notin> set sids)"

definition stop_requested :: "string list \<Rightarrow> core \<Rightarrow> core" where
  "stop_requested sids s =
     (let s' = s\<lparr>co_finalization_pending := True, co_stopping_subject_ids := co_stopping_subject_ids s @ sids\<rparr> in
      if acquiring_elsewhere sids s then s'
      else s'\<lparr>co_startup_manual_stop := True, co_startup_retry_pending := False,
              co_stream_phase := (if co_stream_phase s \<in> {''idle'', ''startup_failed''} then co_stream_phase s else ''stopping''),
              co_startup_gate_token := Suc (co_startup_gate_token s)\<rparr>)"

definition stop_sensors :: "cenv \<Rightarrow> string list option \<Rightarrow> subject list \<Rightarrow> core_action" where
  "stop_sensors e tg subs = (case tg of
     None \<Rightarrow> call (ce_sensors e) CStopAll
   | Some sids \<Rightarrow> seq (upd (\<lambda>s. s\<lparr>co_active_subject_ids := Some sids\<rparr>))
       (if addresses_of subs \<noteq> [] then call (ce_sensors e) (CStopSpecific (addresses_of subs)) else skip))"

definition stop_scope :: "string list option \<Rightarrow> string" where
  "stop_scope tg = (case tg of None \<Rightarrow> ''all'' | Some _ \<Rightarrow> ''subjects'')"

text \<open>The \<open>except\<close> and \<open>finally\<close> branches.\<close>

definition stop_failed :: "cenv \<Rightarrow> string list option \<Rightarrow> string list \<Rightarrow> val \<Rightarrow> string \<Rightarrow> core_action" where
  "stop_failed e tg sids ctx x =
     seq (upd (\<lambda>s. s\<lparr>co_finalization_pending := False\<rparr>)) (query (\<lambda>s.
       seq (out (CSummary (co_session_timestamp s) ''drain_summary''))
         (seq (emit_stream_drained e (drained_payload s ctx (stop_scope tg) sids ''error'' (Some x) False))
           (raise x))))"

definition streaming_addresses :: "core \<Rightarrow> string list" where
  "streaming_addresses s = addresses_of (filter sb_is_streaming (co_subjects s))"

definition stop_finally :: "string list \<Rightarrow> core_action" where
  "stop_finally sids =
     seq (upd (\<lambda>s. s\<lparr>co_finalization_pending := False, co_active_subject_ids := None,
            co_stopping_subject_ids := filter (\<lambda>sid. sid \<notin> set sids) (co_stopping_subject_ids s)\<rparr>))
       (query (\<lambda>s. seq (out (CUpdateScope (streaming_addresses s)))
          (if \<not> has_active_streams s then upd (clear_startup_gate_state ''idle'') else skip)))"

definition stop_begin :: "cenv \<Rightarrow> string list option \<Rightarrow> val \<Rightarrow> core_action" where
  "stop_begin e tg ctx = query (\<lambda>s.
     let subs = targets s tg; sids = map sb_subject_id subs in
     seq (upd (stop_requested sids))
       (catch (catch (seq (stop_sensors e tg subs) (out (CSpawn (Stopping tg sids ctx)))) (stop_failed e tg sids ctx))
         (\<lambda>x. seq (stop_finally sids) (raise x))))"

definition stop_stream :: "cenv \<Rightarrow> val \<Rightarrow> core_action" where
  "stop_stream e ctx = stop_begin e None ctx"

definition stop_stream_for_subjects :: "cenv \<Rightarrow> string list \<Rightarrow> val \<Rightarrow> core_action" where
  "stop_stream_for_subjects e sids ctx = get_subjects_by_ids_then sids (\<lambda>subs.
     stop_begin e (Some (map sb_subject_id subs)) ctx)"

text \<open>What the sensor manager answered: the result of each sensor, and the error if a sensor is not
  known to have stopped.\<close>

definition unresolved :: "val list \<Rightarrow> val list" where
  "unresolved rs = filter (\<lambda>r. vget r ''status'' \<noteq> VStr ''stopped'') rs"

definition physical_stop :: "string list \<Rightarrow> stop_answer \<Rightarrow> val list \<times> string option" where
  "physical_stop addresses answer = (case answer of
     NoCompletion \<Rightarrow> ([], None)
   | Completed rs \<Rightarrow> (rs, if unresolved rs = [] then None
        else Some (''RuntimeError: '' @ py_join ''; '' (map (\<lambda>r. py_str (vget r ''address'') @ '': '' @
               py_str (vget_or r ''error'' (vget r ''status''))) (unresolved rs))))
   | Failed ty msg \<Rightarrow> (map (\<lambda>a. VDict [(''address'', VStr a), (''status'', VStr ''unconfirmed''), (''error'', VStr msg)]) addresses,
        Some (ty @ '': '' @ msg)))"

definition stop_answered :: "cenv \<Rightarrow> string list option \<Rightarrow> string list \<Rightarrow> stop_answer" where
  "stop_answered e tg addresses = (if tg \<noteq> None \<and> addresses = [] then NoCompletion else ce_stop e)"

text \<open>\<open>_flush_pending_samples\<close>: the samples that did not fill a block.\<close>

definition flush_subject :: "subject \<Rightarrow> core_action" where
  "flush_subject sub = for_each (sb_sensors sub) (\<lambda>en. if se_raw_data en = [] then skip
     else out (CEnqueueBlock (case se_address en of None \<Rightarrow> [] | Some a \<Rightarrow> a) (se_raw_data en)))"

definition empty_buffers :: "subject \<Rightarrow> subject" where
  "empty_buffers sub = sub\<lparr>sb_sensors := map (\<lambda>en. en\<lparr>se_raw_data := []\<rparr>) (sb_sensors sub)\<rparr>"

definition flush_pending_samples :: "string list option \<Rightarrow> core_action" where
  "flush_pending_samples tg = (case tg of
     None \<Rightarrow> query (\<lambda>s. seq (for_each (co_subjects s) flush_subject)
                          (upd (\<lambda>s. s\<lparr>co_subjects := map empty_buffers (co_subjects s)\<rparr>)))
   | Some sids \<Rightarrow> for_each sids (\<lambda>sid. query (\<lambda>s. case find_subject s sid of None \<Rightarrow> skip
        | Some sub \<Rightarrow> seq (flush_subject sub)
                         (upd (\<lambda>s. s\<lparr>co_subjects := modify_first sid empty_buffers (co_subjects s)\<rparr>)))))"

definition consolidate :: "cenv \<Rightarrow> string list \<Rightarrow> core_action" where
  "consolidate e sids = seq (out (CConsolidate sids)) (case ce_consolidation e of
     Inl x \<Rightarrow> raise x
   | Inr payloads \<Rightarrow> seq (out (CMarkPartial sids)) (for_each payloads (\<lambda>pl. query (\<lambda>s.
        emit_event e EVT_CONSOLIDATED_RESULT
          (if is_dict pl then VDict (dmerge (as_dict pl)
             (event_context s (if truthy (vget pl ''subject_id'') then [py_str (vget pl ''subject_id'')] else []))) else pl)))))"

definition close_outputs :: "string list option \<Rightarrow> core_action" where
  "close_outputs tg = query (\<lambda>s.
     seq (for_each (targets s tg) (\<lambda>sub. out (CFileStop (sb_subject_id sub))))
       (upd (\<lambda>s. s\<lparr>co_subjects := modify_targets tg (\<lambda>sub. sub\<lparr>sb_is_streaming := False\<rparr>) (co_subjects s)\<rparr>)))"

definition record_stop_results :: "val list \<Rightarrow> core \<Rightarrow> core" where
  "record_stop_results rs s0 =
     (let s = (if co_stop_results_timestamp s0 = co_session_timestamp s0 then s0
               else s0\<lparr>co_stop_results_timestamp := co_session_timestamp s0, co_physical_stop_results := []\<rparr>)
      in s\<lparr>co_physical_stop_results := fold (\<lambda>r. dput (py_str (vget r ''address'')) r) rs (co_physical_stop_results s)\<rparr>)"

definition EARLIER_STOP :: string where
  "EARLIER_STOP = ''RuntimeError: Earlier subject physical STOP remains unconfirmed''"

definition stop_error :: "core \<Rightarrow> string option \<Rightarrow> string option" where
  "stop_error s err = (if err = None \<and> \<not> has_active_streams s \<and> unresolved (dvalues (co_physical_stop_results s)) \<noteq> []
     then Some EARLIER_STOP else err)"

definition stop_reason :: "string option \<Rightarrow> string list \<Rightarrow> string option" where
  "stop_reason err failures =
     (let reasons = (case err of None \<Rightarrow> [] | Some x \<Rightarrow> [''physical sensor stop failed: '' @ x]) @
        (if failures = [] then [] else [''raw write failures recorded for subject(s): '' @ py_join '', '' (sort failures)])
      in if reasons = [] then None else Some (py_join ''; '' reasons))"

definition finalize_stop :: "cenv \<Rightarrow> string list option \<Rightarrow> string list \<Rightarrow> val \<Rightarrow> val list \<Rightarrow> string option \<Rightarrow> core_action" where
  "finalize_stop e tg sids ctx rs err0 = query (\<lambda>s.
     let err = stop_error s err0; failures = ce_raw_write_failures e; bad = (err \<noteq> None \<or> failures \<noteq> []);
         status = (if bad then ''error'' else ''ok''); reason = stop_reason err failures;
         pl = dput ''partial'' (VBool bad) (dput ''physical_stop_complete'' (VBool (err = None))
                (dput ''physical_stop_results'' (VList rs)
                  (drained_payload s ctx (stop_scope tg) sids status reason True)));
         pl' = add_key ''raw_write_failures'' (VList (map VStr failures)) (failures \<noteq> []) pl
     in seq (if \<not> has_active_streams s then out (CFinalizeDiagnostics (co_session_timestamp s) status reason)
             else out (CSummary (co_session_timestamp s) ''stop_summary''))
       (seq (if has_active_streams s then skip
             else if truthy (vget ctx ''stop_session_id'') then out (CFinishDiagnostics (co_session_timestamp s))
             else finalize_session_archive)
       (seq (upd (\<lambda>s. s\<lparr>co_finalization_pending := False\<rparr>))
         (emit_stream_drained e pl'))))"

definition stop_body :: "cenv \<Rightarrow> string list option \<Rightarrow> string list \<Rightarrow> val \<Rightarrow> core_action" where
  "stop_body e tg sids ctx = query (\<lambda>s.
     let addresses = addresses_of (targets s tg); (rs, err) = physical_stop addresses (stop_answered e tg addresses)
     in seq (flush_pending_samples tg)
       (seq (out CFlush)
       (seq (consolidate e sids)
       (seq (close_outputs tg)
       (seq (upd (record_stop_results rs))
         (finalize_stop e tg sids ctx rs err))))))"

definition stop_finish :: "cenv \<Rightarrow> string list option \<Rightarrow> string list \<Rightarrow> val \<Rightarrow> core_action" where
  "stop_finish e tg sids ctx = always (catch (stop_body e tg sids ctx) (stop_failed e tg sids ctx)) (stop_finally sids)"

section \<open>Configuration\<close>

definition acquiring_phases :: "string list" where
  "acquiring_phases = [''starting'', ''warming_up'', ''preparing_official'', ''activating_official'']"

definition core_acquiring :: "core \<Rightarrow> bool" where
  "core_acquiring s \<longleftrightarrow> has_active_streams s \<or> co_stream_phase s \<in> set acquiring_phases"

text \<open>\<open>FileManager.set_session_label\<close>, which the core reads back.\<close>

definition set_session_label :: "string \<Rightarrow> core \<Rightarrow> core" where
  "set_session_label label s = (let l = VStr (if label \<noteq> [] then sanitize_label label else ''sys_session'') in
     s\<lparr>co_session_name := l, co_session_label := l\<rparr>)"

definition REQUIRES_RESET :: string where
  "REQUIRES_RESET = ''Reset is required after failed configuration installation''"

definition init_guards :: "val \<Rightarrow> core_action" where
  "init_guards confs = seq ensure_recovery_idle (seq ensure_disconnect_allowed (query (\<lambda>s.
     if co_requires_recovery s then raise REQUIRES_RESET
     else if core_acquiring s then raise ''Cannot reconfigure while a subject is acquiring''
     else if \<not> is_list confs then raise ''Subjects must be a list'' else skip)))"

definition graph_of :: "core \<Rightarrow> subject_graph" where
  "graph_of s = \<lparr>sg_max_total_sensors = co_max_total_sensors s, sg_subjects = co_subjects s\<rparr>"

definition init_subjects_of_core :: "cenv \<Rightarrow> val list \<Rightarrow> core_action" where
  "init_subjects_of_core e confs = query (\<lambda>s. case init_subjects (ce_resolve e) confs (graph_of s) of (g, failure) \<Rightarrow>
     seq (upd (\<lambda>s. s\<lparr>co_subjects := sg_subjects g\<rparr>))
       (case failure of None \<Rightarrow> skip | Some f \<Rightarrow> raise (ce_text e f)))"

definition stripped_or_none :: "val \<Rightarrow> string option" where
  "stripped_or_none v = (if truthy v then Some (py_strip (py_str v)) else None)"

definition install :: "cenv \<Rightarrow> string option \<Rightarrow> val \<Rightarrow> val \<Rightarrow> core_action" where
  "install e label app_id app_name =
     seq (call (ce_sensors e) CSensorsInit)
     (seq (upd (\<lambda>s. s\<lparr>co_app_id := stripped_or_none app_id, co_app_name := stripped_or_none app_name\<rparr>))
     (seq (upd (\<lambda>s. case label of None \<Rightarrow> s | Some l \<Rightarrow> set_session_label l s))
       (call (ce_compute e) CComputeClear)))"

definition rollback :: "core \<Rightarrow> core \<Rightarrow> core" where
  "rollback s0 s = s\<lparr>co_subjects := co_subjects s0, co_app_id := co_app_id s0, co_app_name := co_app_name s0,
     co_session_label := co_session_label s0, co_session_name := co_session_name s0\<rparr>"

definition subject_ids :: "core \<Rightarrow> string list" where
  "subject_ids s = map sb_subject_id (co_subjects s)"

definition connection_configuration :: "core \<Rightarrow> (string \<times> val list) list" where
  "connection_configuration s = map (\<lambda>sub. (sb_subject_id sub, map (\<lambda>en. sm_location (se_meta en)) (sb_sensors sub))) (co_subjects s)"

definition initialized_payload :: "core \<Rightarrow> val \<Rightarrow> (string \<times> val) list" where
  "initialized_payload s corr = dmerge (dmerge
     [(''message'', VStr (''System initialised with '' @ py_str_int (int (length (co_subjects s))) @ '' subject(s)''))]
     (event_context s (subject_ids s)))
     [(''subject_ids'', VList (map VStr (subject_ids s))), (''configuration_state'', VStr ''installed''),
      (''correlation_id'', corr), (''initialization_complete'', VBool True)]"

definition init_core :: "cenv \<Rightarrow> val \<Rightarrow> string option \<Rightarrow> val \<Rightarrow> val \<Rightarrow> bool \<Rightarrow> core_action" where
  "init_core e confs label app_id app_name emit_initialized = query (\<lambda>s0.
     seq (catch (seq (init_guards confs) (seq (init_subjects_of_core e (as_list confs))
            (catch (install e label app_id app_name)
              (\<lambda>x. seq (upd (\<lambda>s. s\<lparr>co_requires_recovery := True\<rparr>)) (raise x)))))
          (\<lambda>x. seq (upd (rollback s0)) (raise x)))
       (query (\<lambda>s. seq (out (CConfigure (connection_configuration s)))
          (if emit_initialized then emit_event e EVT_SYSTEM_INITIALIZED
             (VDict (initialized_payload s (co_pending_correlation_id s0))) else skip))))"

section \<open>Recovery\<close>

definition with_expected_nodes :: "core \<Rightarrow> val \<Rightarrow> val" where
  "with_expected_nodes s ctx = vput ''expected_node_ids''
     (py_or (vget ctx ''expected_node_ids'') (VList [VStr (co_node_id s)])) ctx"

definition with_deadline :: "cenv \<Rightarrow> val \<Rightarrow> val" where
  "with_deadline e ctx = (if map_of (as_dict ctx) ''cleanup_deadline_unix_s'' \<noteq> None then VDict (as_dict ctx)
     else vput ''cleanup_deadline_unix_s'' (VInt (\<lfloor>ce_now e\<rfloor> + 90)) ctx)"

definition announce_cleanup_then :: "cenv \<Rightarrow> val \<Rightarrow> (val \<Rightarrow> core_action) \<Rightarrow> core_action" where
  "announce_cleanup_then e ctx k = query (\<lambda>s.
     seq (emit_event e EVT_SENSOR_CLEANUP_STARTED (with_expected_nodes s (with_deadline e ctx))) (k (with_deadline e ctx)))"

definition core_on_cleanup_complete :: "cenv \<Rightarrow> val \<Rightarrow> core_action" where
  "core_on_cleanup_complete e payload = query (\<lambda>s.
     emit_event e EVT_SENSOR_CLEANUP_COMPLETE (with_expected_nodes s (vput ''node_id'' (VStr (co_node_id s)) payload)))"

definition complete_reset :: "cenv \<Rightarrow> val \<Rightarrow> core_action" where
  "complete_reset e report = query (\<lambda>s.
     seq (upd (\<lambda>s. s\<lparr>co_reset_waiters := []\<rparr>))
       (for_each (co_reset_waiters s) (\<lambda>ctx. core_on_cleanup_complete e (VDict (dmerge (as_dict ctx) (as_dict report))))))"

definition core_reset_session :: "cenv \<Rightarrow> val \<Rightarrow> core_action" where
  "core_reset_session e cleanup_context = seq ensure_disconnect_allowed (query (\<lambda>s.
     let ctx = vput ''recover_session'' (VBool True) cleanup_context in
     if co_recovery_in_progress s then upd (\<lambda>s. s\<lparr>co_reset_waiters := co_reset_waiters s @ [ctx]\<rparr>)
     else if core_acquiring s then raise ''Stop all subjects before resetting Core''
     else seq (upd (\<lambda>s. s\<lparr>co_recovery_in_progress := True\<rparr>))
         (catch (seq (call (ce_compute e) CComputeClear)
             (seq (call (ce_sensors e) (CRecoverSensors (vget ctx ''allow_ble_reset'' = VBool True)
                (filter is_str (as_list (vget ctx ''confirmed_stopped_sensor_addresses'')))))
               (out (CSpawn (Recovering ctx)))))
           (\<lambda>x. seq (upd (\<lambda>s. s\<lparr>co_recovery_in_progress := False\<rparr>))
                 (seq (complete_reset e (VDict [(''core_ready_for_configuration'', VBool False), (''results'', VList [])]))
                   (raise x))))))"

definition recovery_failed :: "string \<Rightarrow> val" where
  "recovery_failed x = VDict [(''core_ready_for_configuration'', VBool False),
     (''gateway_communication_available'', VBool False), (''recovery_complete'', VBool False),
     (''results'', VList [VDict [(''address'', VStr ''core''), (''status'', VStr ''failed''), (''error'', VStr x)]])]"

definition recovered :: "val \<Rightarrow> core \<Rightarrow> core" where
  "recovered recovery s = (clear_startup_gate_state ''idle'' s)\<lparr>co_subjects := [], co_session_timestamp := VNone,
     co_active_subject_ids := None,
     co_requires_recovery := (if vget recovery ''core_ready_for_configuration'' = VBool True then False
                              else co_requires_recovery s)\<rparr>"

definition finish_recovery :: "cenv \<Rightarrow> val \<Rightarrow> core_action" where
  "finish_recovery e ctx =
     (let report = (case ce_recovery e of Inl x \<Rightarrow> recovery_failed x | Inr r \<Rightarrow> r) in
      seq (case ce_recovery e of Inl x \<Rightarrow> skip | Inr r \<Rightarrow> upd (recovered r))
        (seq (upd (\<lambda>s. s\<lparr>co_recovery_in_progress := False\<rparr>))
          (seq (core_on_cleanup_complete e (VDict (dmerge (as_dict ctx) (as_dict report))))
            (complete_reset e report))))"

definition disconnect_all :: "cenv \<Rightarrow> val \<Rightarrow> core_action" where
  "disconnect_all e ctx = seq ensure_disconnect_allowed (announce_cleanup_then e ctx (\<lambda>ctx.
     if truthy (vget ctx ''recover_session'') then core_reset_session e ctx
     else call (ce_sensors e) (CDisconnectAll ctx)))"

definition disconnect_subjects :: "cenv \<Rightarrow> string list \<Rightarrow> val \<Rightarrow> core_action" where
  "disconnect_subjects e sids ctx = seq ensure_disconnect_allowed (get_subjects_by_ids_then sids (\<lambda>subs.
     announce_cleanup_then e ctx (\<lambda>ctx. call (ce_sensors e) (CDisconnect (addresses_of subs) ctx))))"

section \<open>Discovery and connection\<close>

definition discover_sensors :: "cenv \<Rightarrow> core_action" where
  "discover_sensors e = seq (upd (\<lambda>s. s\<lparr>co_active_subject_ids := None\<rparr>)) (call (ce_sensors e) CDiscover)"

definition discover_sensors_for_subjects :: "cenv \<Rightarrow> string list \<Rightarrow> val \<Rightarrow> core_action" where
  "discover_sensors_for_subjects e sids excluded = get_subjects_by_ids_then sids (\<lambda>subs.
     seq (upd (\<lambda>s. s\<lparr>co_active_subject_ids := Some (map sb_subject_id subs)\<rparr>))
       (call (ce_sensors e) (CDiscoverFor (map sb_subject_id subs) excluded)))"

definition start_connection_sequence :: "val \<Rightarrow> core_action" where
  "start_connection_sequence payload = seq ensure_recovery_idle (seq ensure_disconnect_allowed
     (out (CConnectionSequence (vget payload ''correlation_id''))))"

definition connect_all :: "cenv \<Rightarrow> core_action" where
  "connect_all e = query (\<lambda>s. if length (co_subjects s) > 1
     then start_connection_sequence (VDict [(''correlation_id'', co_pending_correlation_id s)])
     else seq (upd (\<lambda>s. s\<lparr>co_active_subject_ids := None\<rparr>)) (call (ce_sensors e) CConnectAll))"

definition connect_subjects :: "cenv \<Rightarrow> string list \<Rightarrow> core_action" where
  "connect_subjects e sids = get_subjects_by_ids_then sids (\<lambda>subs.
     seq (upd (\<lambda>s. s\<lparr>co_active_subject_ids := Some (map sb_subject_id subs)\<rparr>))
       (if addresses_of subs \<noteq> [] then call (ce_sensors e) (CConnectSpecific (addresses_of subs)) else skip))"

definition core_identify_sensor :: "cenv \<Rightarrow> val \<Rightarrow> val \<Rightarrow> core_action" where
  "core_identify_sensor e sid location = query (\<lambda>s. case find_subject s (py_str sid) of
     None \<Rightarrow> raise (''Subject '' @ py_str sid @ '' not found'')
   | Some sub \<Rightarrow> (case find (\<lambda>en. sm_location (se_meta en) = location) (sb_sensors sub) of
       None \<Rightarrow> raise (''No sensor assigned for '' @ py_str location @ '' in '' @ py_str sid)
     | Some en \<Rightarrow> if \<not> ce_connected e en then skip
         else call (ce_sensors e) (CIdentify (case se_address en of None \<Rightarrow> [] | Some a \<Rightarrow> a))))"

text \<open>\<open>repr(v)\<close>, for strings without quotes and backslashes.\<close>

fun py_repr :: "val \<Rightarrow> string" and repr_items :: "(string \<times> val) list \<Rightarrow> string list" where
  "py_repr (VStr x) = quoted x"
| "py_repr (VList xs) = ''['' @ py_join '', '' (map py_repr xs) @ '']''"
| "py_repr (VDict d) = ''{'' @ py_join '', '' (repr_items d) @ ''}''"
| "py_repr VNone = ''None''"
| "py_repr (VBool b) = (if b then ''True'' else ''False'')"
| "py_repr (VInt i) = py_str_int i"
| "repr_items [] = []"
| "repr_items ((k, v) # d) = (quoted k @ '': '' @ py_repr v) # repr_items d"

definition addresses_found :: "subject \<Rightarrow> val" where
  "addresses_found sub = VList (map VStr (List.map_filter se_address (sb_sensors sub)))"

definition on_discover :: "cenv \<Rightarrow> val \<Rightarrow> core_action" where
  "on_discover e payload = query (\<lambda>s.
     if is_dict payload \<and> vget payload ''valid'' = VBool False
     then seq end_operation (emit_event e EVT_ERROR
            (VStr (''Not enough devices found: '' @ py_repr (vget_or payload ''missing'' (VList [])))))
     else let subs = subjects_to_process s in
       seq (out (CRegisterAlgorithms (map sb_subject_id subs)))
         (seq (emit_event e EVT_SENSORS_DISCOVERED (subjects_payload s ''discovered_sensors'' addresses_found subs))
           end_operation))"

end
