(* ===== verification/Core_Callbacks.thy ===== *)
theory Core_Callbacks
  imports Core_Session
begin

text \<open>
  The rest of the core's callbacks and operations, from \<^verbatim>\<open>core/core.py\<close>: what the sensor manager and the
  compute manager report (connections, link losses, intermediate results, timings, batteries, errors),
  one step of Connect All on a subject, and the battery check.

  A sensor object is named by its address. What the code reads of it when a callback runs is part of the
  callback: the status of a connected sensor, whether a dropped one had been connected, the outcome of a
  submitted step.
\<close>

section \<open>Sensors\<close>

definition connected_info :: "(string \<times> string) list \<Rightarrow> subject \<Rightarrow> val" where
  "connected_info sensors sub = VList (concat (map (\<lambda>(a, status). case find_entry a (sb_sensors sub) of
     None \<Rightarrow> []
   | Some en \<Rightarrow> [VDict [(''address'', VStr a), (''status'', VStr status), (''location'', sm_location (se_meta en))]]) sensors))"

definition on_connected :: "cenv \<Rightarrow> (string \<times> string) list \<Rightarrow> core_action" where
  "on_connected e sensors = query (\<lambda>s.
     seq (emit_event e EVT_SENSOR_CONNECTED (subjects_payload s ''connected_sensors'' (connected_info sensors) (subjects_to_process s)))
       end_operation)"

text \<open>\<open>dropped\<close> are the addresses whose sensor was connected and is not being cleaned up; \<open>lost_at\<close> the time that a
  sensor noted for its loss.\<close>

definition disconnected_sensors :: "core \<Rightarrow> string list \<Rightarrow> (subject \<times> sensor_entry) list" where
  "disconnected_sensors s addresses = concat (map (\<lambda>sub. map (Pair sub) (filter (\<lambda>en. case se_address en of
     None \<Rightarrow> False | Some a \<Rightarrow> a \<in> set addresses) (sb_sensors sub))) (co_subjects s))"

definition on_disconnected :: "cenv \<Rightarrow> string list \<Rightarrow> string list \<Rightarrow> (string \<times> val) list \<Rightarrow> core_action" where
  "on_disconnected e addresses dropped lost_at = query (\<lambda>s.
     let gone = disconnected_sensors s addresses; address = (\<lambda>en. case se_address en of None \<Rightarrow> VNone | Some a \<Rightarrow> VStr a) in
     seq (emit_event e EVT_SENSOR_DISCONNECTED (VDict (dmerge
         [(''disconnected_sensors'', VList (map VStr addresses)),
          (''unexpected'', VBool (co_stream_phase s = ''official_streaming'' \<and>
             (\<exists>(sub, en) \<in> set gone. \<exists>a \<in> set dropped. se_address en = Some a))),
          (''lost_at'', py_or (case gone of [] \<Rightarrow> VNone
             | (sub, en) # _ \<Rightarrow> (case se_address en of None \<Rightarrow> VNone | Some a \<Rightarrow> dget_or lost_at a VNone)) (VStr (ce_stamp e))),
          (''sensors'', VList (map (\<lambda>(sub, en). VDict [(''subject_id'', VStr (sb_subject_id sub)), (''address'', address en),
             (''name'', VStr (se_name en)), (''location'', sm_location (se_meta en))]) gone))]
         (event_context s []))))
       (upd (\<lambda>s. s\<lparr>co_pending_correlation_id := VNone\<rparr>)))"

definition on_identify :: "cenv \<Rightarrow> string \<Rightarrow> core_action" where
  "on_identify e sensor = query (\<lambda>s.
     seq (emit_event e EVT_SENSOR_IDENTIFIED (VDict (dmerge [(''sensor'', VStr sensor)] (event_context s []))))
       (upd (\<lambda>s. s\<lparr>co_pending_correlation_id := VNone\<rparr>)))"

definition on_diagnostics :: "cenv \<Rightarrow> val \<Rightarrow> core_action" where
  "on_diagnostics e diagnostics = query (\<lambda>s.
     let pl = VDict (dmerge (if is_dict diagnostics then as_dict diagnostics else [(''diagnostics'', diagnostics)]) (event_context s [])) in
     seq (out (CDiagnostics EVT_SENSOR_DIAGNOSTICS pl)) (emit_event e EVT_SENSOR_DIAGNOSTICS pl))"

definition on_error :: "cenv \<Rightarrow> string \<Rightarrow> core_action" where
  "on_error e x = query (\<lambda>s.
     seq (out (CDiagnostics ''error'' (VStr (''ERROR: '' @ x))))
       (seq (emit_event e EVT_ERROR (VDict (dmerge [(''message'', VStr (''ERROR: '' @ x))] (event_context s []))))
         (upd (\<lambda>s. s\<lparr>co_pending_correlation_id := VNone\<rparr>))))"

section \<open>Results\<close>

definition build_intermediate_payload :: "string \<Rightarrow> val \<Rightarrow> string \<Rightarrow> val list \<Rightarrow> (string \<times> val) list \<Rightarrow> val" where
  "build_intermediate_payload sid name stage results context = VDict (dmerge
     [(''subject_id'', VStr sid), (''algorithm_name'', name), (''stage'', VStr stage), (''results'', VList results)] context)"

text \<open>The subject of one entry of an intermediate result, and the entry with the location of its sensor.\<close>

definition assign_entry :: "core \<Rightarrow> val \<Rightarrow> (subject \<times> val) option" where
  "assign_entry s entry =
     (let found = (case vget entry ''address'' of
         VStr a \<Rightarrow> if a \<noteq> [] then (case owner_of_address s a of None \<Rightarrow> None
             | Some sub \<Rightarrow> Some (sub, case find_entry a (sb_sensors sub) of None \<Rightarrow> entry
                 | Some en \<Rightarrow> vput ''location'' (sm_location (se_meta en)) entry))
           else (if truthy (vget entry ''subject_id'') then map_option (\<lambda>sub. (sub, entry)) (find_subject s (py_str (vget entry ''subject_id''))) else None)
       | v \<Rightarrow> if truthy v then None
           else (if truthy (vget entry ''subject_id'') then map_option (\<lambda>sub. (sub, entry)) (find_subject s (py_str (vget entry ''subject_id''))) else None))
      in case found of None \<Rightarrow> None | Some (sub, en) \<Rightarrow> if sb_is_streaming sub then Some (sub, en) else None)"

definition subjects_map :: "core \<Rightarrow> val list \<Rightarrow> (subject, val list) dict" where
  "subjects_map s results = fold (\<lambda>entry d. case assign_entry s entry of None \<Rightarrow> d | Some (sub, en) \<Rightarrow> dappend sub en d) results []"

definition on_intermediate_result :: "cenv \<Rightarrow> val \<Rightarrow> core_action" where
  "on_intermediate_result e result = query (\<lambda>s.
     if \<not> co_official_outputs_active s then skip
     else for_each (subjects_map s (as_list (vget_or result ''results'' (VList [])))) (\<lambda>(sub, entries).
       seq (case ingest_intermediate_result (VDict [(''algorithm_name'', vget result ''algorithm_name''), (''stage'', vget result ''stage''),
              (''results'', VList entries)]) sub of None \<Rightarrow> skip | Some (sid, algo, r) \<Rightarrow> out (CWriteIntermediate sid algo r))
         (emit_event e EVT_INTERMEDIATE_RESULT (build_intermediate_payload (sb_subject_id sub) (vget result ''algorithm_name'')
            (py_str (vget result ''stage'')) entries (event_context s [sb_subject_id sub])))))"

definition on_compute_performance :: "cenv \<Rightarrow> val \<Rightarrow> core_action" where
  "on_compute_performance e performance = query (\<lambda>s.
     if \<not> co_official_outputs_active s then skip
     else (let a = py_str (vget performance ''address'');
               publish = (\<lambda>pl. seq (out (CDiagnostics EVT_COMPUTE_PERFORMANCE pl)) (emit_event e EVT_COMPUTE_PERFORMANCE pl));
               stamped = (\<lambda>d. VDict (if map_of d ''observed_at'' = None then d @ [(''observed_at'', VStr (ce_stamp e))] else d)) in
       case owner_of_address s a of
         None \<Rightarrow> publish (stamped (dmerge (as_dict performance) (event_context s [])))
       | Some sub \<Rightarrow> if \<not> sb_is_streaming sub then skip
           else publish (stamped (dmerge (as_dict performance)
             ([(''subject_id'', VStr (sb_subject_id sub)),
               (''location'', case find_entry a (sb_sensors sub) of None \<Rightarrow> VNone | Some en \<Rightarrow> sm_location (se_meta en))]
              @ event_context s [sb_subject_id sub])))))"

section \<open>One step of Connect All\<close>

definition emit_connection_event :: "cenv \<Rightarrow> string \<Rightarrow> val \<Rightarrow> core_action" where
  "emit_connection_event e ty pl = (if ce_bus e then out (CEmit ty pl)
     else out (CConnectionSequence (VDict [(''type'', VStr ty), (''payload'', pl)])))"

definition step_subject :: "val \<Rightarrow> string + val" where
  "step_subject payload = (if truthy (vget payload ''subject_id'') then Inr (vget payload ''subject_id'')
     else case map_of (as_dict payload) ''subject_ids'' of
        None \<Rightarrow> Inl (quoted ''subject_ids'')
      | Some v \<Rightarrow> (case as_list v of [] \<Rightarrow> Inl ''list index out of range'' | x # _ \<Rightarrow> Inr x))"

definition step_context :: "core \<Rightarrow> val \<Rightarrow> string \<Rightarrow> (string \<times> val) list" where
  "step_context s payload sid = [(''correlation_id'', vget payload ''correlation_id''),
     (''connection_sequence_id'', vget payload ''connection_sequence_id''), (''subject_ids'', VList [VStr sid]),
     (''subject_id'', VStr sid), (''node_id'', VStr (co_node_id s))]"

definition normal_address :: "string \<Rightarrow> string" where
  "normal_address a = py_upper (py_strip a)"

definition known_addresses :: "subject \<Rightarrow> string list" where
  "known_addresses sub = filter (\<lambda>a. a \<noteq> []) (List.map_filter se_address (sb_sensors sub))"

definition setup_done :: "cenv \<Rightarrow> sensor_entry \<Rightarrow> bool" where
  "setup_done e en \<longleftrightarrow> ce_connected e en \<and> ce_setup_complete e en"

definition execute_connection_step :: "cenv \<Rightarrow> string \<Rightarrow> val \<Rightarrow> core_action" where
  "execute_connection_step e command payload = (case step_subject payload of
     Inl x \<Rightarrow> raise x
   | Inr sidv \<Rightarrow> query (\<lambda>s. let sid = py_str sidv in case find_subject s sid of
       None \<Rightarrow> raise (''Subject '' @ sid @ '' not found'')
     | Some sub \<Rightarrow>
         if map_of (as_dict payload) ''connection_sequence_id'' = None then raise (quoted ''connection_sequence_id'')
         else if command = CMD_IDENTIFY_SENSOR then
           for_each (filter (ce_identifies e) (sb_sensors sub)) (\<lambda>en.
             call (ce_sensors e) (CConnectionStep ''identify'' (case se_address en of None \<Rightarrow> [] | Some a \<Rightarrow> [a]) payload))
         else if command = CMD_DISCOVER_SENSORS_FOR_SUBJECTS then
           call (ce_sensors e) (CConnectionStep ''discover_for_subject'' (known_addresses sub) payload)
         else if set (map normal_address (known_addresses sub)) \<noteq>
             set (map (\<lambda>v. normal_address (py_str v)) (as_list (vget_or payload ''selected_addresses'' (VList []))))
         then raise (''Selected addresses changed for subject '' @ sid @ ''; Reset or rediscover it'')
         else call (ce_sensors e) (CConnectionStep ''connect_specific_sensors''
                (List.map_filter se_address (filter (\<lambda>en. \<not> setup_done e en) (sb_sensors sub))) payload)))"

text \<open>The outcome of a submitted step: the exception of its future, or what its listeners captured.\<close>

record step_outcome =
  so_raised :: "string option"
  so_error :: val
  so_discover :: val

definition step_failure :: "step_outcome \<Rightarrow> string option" where
  "step_failure r = (case so_raised r of Some x \<Rightarrow> Some x
     | None \<Rightarrow> if truthy (so_error r) then Some (py_str (so_error r)) else None)"

definition identified :: "cenv \<Rightarrow> val \<Rightarrow> string \<Rightarrow> string \<Rightarrow> step_outcome \<Rightarrow> core_action" where
  "identified e payload sid address r = query (\<lambda>s. case step_failure r of
     None \<Rightarrow> skip
   | Some x \<Rightarrow> emit_connection_event e EVT_ERROR (VDict (dmerge (step_context s payload sid)
       [(''correlation_id'', vget payload ''sequence_correlation_id''), (''operation'', VStr ''identify''), (''severity'', VStr ''warning''),
        (''address'', VStr address), (''message'', VStr (''Identification failed: '' @ x))])))"

definition covered :: "cenv \<Rightarrow> val \<Rightarrow> sensor_entry \<Rightarrow> bool" where
  "covered e found en \<longleftrightarrow> ce_connected e en \<or>
     (case se_address en of None \<Rightarrow> False | Some a \<Rightarrow> VStr a \<in> set (as_list found))"

definition step_completed :: "cenv \<Rightarrow> bool \<Rightarrow> val \<Rightarrow> string \<Rightarrow> step_outcome \<Rightarrow> core_action" where
  "step_completed e discovering payload sid r = query (\<lambda>s. case find_subject s sid of
     None \<Rightarrow> skip
   | Some sub \<Rightarrow>
     (let base = dmerge (step_context s payload sid) [(''selected_addresses'', VList (map VStr (known_addresses sub))),
            (''operation'', VStr (if discovering then ''discovering'' else ''connecting''))];
          finish = (\<lambda>ty data. emit_connection_event e ty (VDict (dmerge base
            [(''operation_complete'', VBool True), (''subjects'', VList [VDict ((''subject_id'', VStr sid) # data)])]))) in
      catch
        (case step_failure r of
           Some x \<Rightarrow> raise x
         | None \<Rightarrow>
             if discovering then
               (if is_dict (so_discover r) \<and> vget (so_discover r) ''valid'' = VBool False
                then raise (''Incomplete discovery: '' @ py_repr (vget_or (so_discover r) ''missing'' (VList [])))
                else if \<not> list_all (covered e (so_discover r)) (sb_sensors sub)
                then raise ''Incomplete discovery: not every required slot was discovered''
                else seq (call (ce_compute e) (CRegisterAlgorithms [sid]))
                       (finish EVT_SENSORS_DISCOVERED [(''discovered_sensors'', VList (map VStr (known_addresses sub)))]))
             else finish EVT_SENSOR_CONNECTED [(''connected_sensors'', VList (map (\<lambda>en. VDict
                 [(''address'', case se_address en of None \<Rightarrow> VNone | Some a \<Rightarrow> VStr a), (''location'', sm_location (se_meta en)),
                  (''status'', VStr ''CONNECTED''), (''setup_complete'', VBool True)])
                 (filter (setup_done e) (sb_sensors sub))))])
        (\<lambda>x. emit_connection_event e EVT_ERROR (VDict (dmerge base [(''message'', VStr x),
           (''setup_completed_addresses'', VList (map (\<lambda>en. case se_address en of None \<Rightarrow> VNone | Some a \<Rightarrow> VStr a)
              (filter (setup_done e) (sb_sensors sub))))])))))"

section \<open>Battery check\<close>

definition check_battery :: "cenv \<Rightarrow> val \<Rightarrow> core_action" where
  "check_battery e timeouts = (if ce_battery_classes e = []
     then emit_event e EVT_BATTERY_CHECK (VDict [(''timestamp'', VStr (ce_stamp e)), (''results'', VList []),
            (''msg'', VStr ''No BLE sensors with notify_battery capability found.'')])
     else seq (upd (\<lambda>s. s\<lparr>co_battery_results := [], co_battery_check_active := True\<rparr>))
         (seq (call (ce_sensors e) (CHost ''check_battery_preinit'' (VList [VList (ce_battery_classes e), timeouts])))
           (out (CSpawn BatteryCheck))))"

definition on_battery :: "cenv \<Rightarrow> val \<Rightarrow> core_action" where
  "on_battery e batt = query (\<lambda>s.
     let address = vget batt ''address''; battery = vget batt ''battery'';
         reading = [(''battery_level'', vget battery ''battery_level''), (''is_charging'', vget battery ''is_charging'')] in
     seq (emit_event e EVT_BATTERY_UPDATE (VDict (dmerge ((''address'', address) # reading) (event_context s []))))
       (if co_battery_check_active s \<and> truthy address
        then upd (\<lambda>s. s\<lparr>co_battery_results := dput (py_str address) (VDict reading) (co_battery_results s)\<rparr>) else skip))"

definition battery_result :: "core \<Rightarrow> val \<Rightarrow> val \<Rightarrow> val" where
  "battery_result s errors sensor =
     (let address = vget sensor ''address''; base = [(''address'', address), (''name'', vget sensor ''name'')] in
      case map_of (co_battery_results s) (py_str address) of
        Some r \<Rightarrow> VDict (dmerge (base @ [(''status'', VStr ''ok'')]) (as_dict r))
      | None \<Rightarrow> (case map_of (as_dict errors) (py_str address) of
          Some err \<Rightarrow> VDict (base @ [(''status'', VStr ''error''), (''error'', err)])
        | None \<Rightarrow> VDict (base @ [(''status'', VStr ''timeout'')])))"

definition emit_battery_results :: "cenv \<Rightarrow> core_action" where
  "emit_battery_results e = seq
     (case ce_battery_summary e of
        Inl x \<Rightarrow> emit_event e EVT_ERROR (VStr (''Battery check failed: '' @ x))
      | Inr summary \<Rightarrow> query (\<lambda>s. emit_event e EVT_BATTERY_CHECK (VDict [(''timestamp'', VStr (ce_stamp e)),
          (''results'', VList (map (battery_result s (vget_or summary ''errors'' (VDict [])))
             (as_list (vget_or summary ''sensors'' (VList [])))))])))
     (upd (\<lambda>s. s\<lparr>co_battery_check_active := False\<rparr>))"

section \<open>Callbacks\<close>

datatype ccallback =
    Connected "(string \<times> string) list"
  | Disconnected "string list" "string list" "(string \<times> val) list"
  | IntermediateReady val
  | PerformanceReady val
  | Identified string
  | Battery val
  | DiagnosticsReported val
  | ErrorReported string
  | StepIdentified val string string step_outcome
  | StepCompleted bool val string step_outcome

fun callback_action :: "cenv \<Rightarrow> ccallback \<Rightarrow> core_action" where
  "callback_action e (Connected sensors) = on_connected e sensors"
| "callback_action e (Disconnected addresses dropped lost_at) = on_disconnected e addresses dropped lost_at"
| "callback_action e (IntermediateReady r) = on_intermediate_result e r"
| "callback_action e (PerformanceReady p) = on_compute_performance e p"
| "callback_action e (Identified sensor) = on_identify e sensor"
| "callback_action e (Battery b) = on_battery e b"
| "callback_action e (DiagnosticsReported d) = on_diagnostics e d"
| "callback_action e (ErrorReported x) = on_error e x"
| "callback_action e (StepIdentified payload sid address r) = identified e payload sid address r"
| "callback_action e (StepCompleted discovering payload sid r) = step_completed e discovering payload sid r"

end
