(* ===== verification/Message_Handler.thy ===== *)
theory Message_Handler
  imports Core_Callbacks
begin

text \<open>
  The command handler of a node, from \<^verbatim>\<open>gateway/messaging/message_handler.py\<close> (class
  \<open>MessageHandler\<close>), on top of the core: which command calls which operation, what is refused, and
  how an exception becomes an error event.

  Calls to the host (hooks, USB, robot, battery check, storage path) are the effect \<open>CHost\<close>. \<open>henv\<close>
  holds the environment of the core and what the handler asks of the host: the answers of the
  providers, whether Connect All is busy, and the exceptions of those calls. A stop leaves the
  thread \<open>Stopping\<close>; \<open>finish_stop_command\<close> is the rest of the handler after it.
\<close>

record henv =
  he_core :: cenv
  he_fresh_id :: string
  he_sequence_busy :: bool
  he_before_start :: "string option option"
  he_after_stop :: "string option option"
  he_runtime :: val
  he_snapshot_at :: string
  he_version :: string
  he_capabilities :: val
  he_archive_service :: val
  he_usb_mount :: bool
  he_usb_unmount :: bool
  he_usb_status :: "val option"
  he_robot :: "string option option"

record handler =
  mh_site :: string
  mh_node_id :: string
  mh_is_ready :: bool
  mh_dispatcher :: bool
  mh_core :: "core option"

type_synonym handler_action = "(handler, ceffect) action"

section \<open>Events\<close>

definition with_correlation :: "val \<Rightarrow> (string \<times> val) list \<Rightarrow> val" where
  "with_correlation corr d = VDict (add_key ''correlation_id'' corr (truthy corr) d)"

definition emit_error :: "val \<Rightarrow> string \<Rightarrow> ('s, ceffect) action" where
  "emit_error corr message = out (CEmit EVT_ERROR (with_correlation corr [(''message'', VStr message)]))"

definition host_call :: "string option option \<Rightarrow> string \<Rightarrow> val \<Rightarrow> ('s, ceffect) action" where
  "host_call service what pl = (case service of None \<Rightarrow> skip
     | Some exc \<Rightarrow> seq (out (CHost what pl)) (case exc of None \<Rightarrow> skip | Some x \<Rightarrow> raise x))"

section \<open>Commands that do not reach the core\<close>

definition server_ready_payload :: "henv \<Rightarrow> string \<Rightarrow> bool \<Rightarrow> (string \<times> val) list" where
  "server_ready_payload v site ready = (let runtime = he_runtime v; cap = he_capabilities v in
     if ready then
       [(''msg'', VStr ''System Server Ready''), (''site'', VStr site), (''role'', vget runtime ''role''),
        (''device_type'', vget runtime ''device_type''),
        (''ble'', VDict [(''backend'', vget runtime ''ble_backend''), (''backend_label'', vget runtime ''ble_backend_label'')]),
        (''supported_sensors'', vget cap ''supported_sensors''), (''supported_algorithms'', vget cap ''supported_algorithms''),
        (''supported_gateways'', vget cap ''supported_gateways''), (''supported_bridges'', vget cap ''supported_bridges''),
        (''archive_service'', he_archive_service v)]
     else [(''msg'', VStr ''System Server NOT Ready''), (''archive_service'', he_archive_service v)])"

definition plugin_inventory_payload :: "henv \<Rightarrow> string \<Rightarrow> val" where
  "plugin_inventory_payload v site =
     (let cap = he_capabilities v; runtime = he_runtime v;
          or_empty = (\<lambda>x. VList (as_list (py_or x (VList []))));
          sensors = map (\<lambda>sensor. VDict [(''name'', vget sensor ''name''), (''locations'', or_empty (vget sensor ''locations'')),
             (''computations'', or_empty (vget sensor ''computations''))]) (as_list (vget cap ''supported_sensors''));
          algorithms = map (\<lambda>name. VDict [(''name'', name)]) (as_list (vget cap ''supported_algorithms''));
          apps = as_list (vget runtime ''neia_apps''); workflows = as_list (vget runtime ''neia_workflows'');
          count = (\<lambda>xs. VInt (int (length xs)))
      in VDict [(''snapshot_id'', VStr (site @ ''-'' @ he_snapshot_at v)), (''synced_at'', VStr (he_snapshot_at v)),
           (''sensors'', VList sensors), (''algorithms'', VList algorithms), (''apps'', VList apps), (''workflows'', VList workflows),
           (''summary'', VDict [(''sensors'', count sensors), (''algorithms'', count algorithms), (''apps'', count apps),
              (''workflows'', count workflows)])])"

definition device_info_payload :: "henv \<Rightarrow> string \<Rightarrow> bool \<Rightarrow> val \<Rightarrow> val" where
  "device_info_payload v site ready corr =
     (let runtime = he_runtime v; cap = he_capabilities v;
          active_bridge = py_or (vget runtime ''active_bridge'') (VBool False);
          status = py_or (vget runtime ''status'') (VStr (if ready then ''online'' else ''offline''));
          usb_disk = py_or (vget runtime ''usb_disk'') (VDict [(''present'', VBool False), (''path'', VNone)]);
          software_version = py_or (vget runtime ''software_version'') (VStr (''nexus-n3-core '' @ he_version v))
      in with_correlation corr
        [(''site'', VStr site), (''snapshot_at'', VStr (he_snapshot_at v)),
         (''device'', VDict [(''display_name'', py_or (vget runtime ''display_name'') (VStr site)), (''site'', VStr site),
            (''role'', vget runtime ''role''), (''status'', status), (''gateway_name'', vget runtime ''gateway_name''),
            (''active_bridge'', active_bridge), (''iot_hub_device_id'', vget runtime ''iot_hub_device_id''),
            (''serial_number'', vget runtime ''serial_number''), (''device_type'', vget runtime ''device_type''),
            (''software_version'', software_version)]),
         (''admin_summary'', VDict [(''server_status'', vget_or runtime ''server_status'' (VStr ''unknown'')),
            (''uptime_seconds'', vget runtime ''uptime_seconds''), (''uptime'', vget_or runtime ''uptime'' (VStr ''unknown'')),
            (''remote_bridge'', active_bridge),
            (''remote_control_enabled'', VBool (truthy (vget runtime ''remote_control_enabled''))),
            (''usb_storage_mounted'', VBool (truthy (vget usb_disk ''present''))), (''usb_disk'', usb_disk),
            (''last_heartbeat_at'', vget runtime ''last_heartbeat_at'')]),
         (''ble'', VDict [(''backend'', vget runtime ''ble_backend''), (''backend_label'', vget runtime ''ble_backend_label'')]),
         (''capabilities'', cap), (''plugin_inventory'', plugin_inventory_payload v site), (''robot'', vget cap ''robot'')])"

definition usb_unsupported :: "string \<Rightarrow> string \<Rightarrow> ('s, ceffect) action" where
  "usb_unsupported action err = out (CEmit EVT_USB_STATUS (VDict [(''ok'', VBool False), (''action'', VStr action),
     (''present'', VBool False), (''path'', VNone), (''error'', VStr err)]))"

definition robot_command :: "henv \<Rightarrow> string \<Rightarrow> string \<Rightarrow> (string \<times> val) list \<Rightarrow> (string \<times> val) list \<Rightarrow> val \<Rightarrow> ('s, ceffect) action" where
  "robot_command v what ty msg status corr = (case he_robot v of
     None \<Rightarrow> emit_error corr (''Robot '' @ what @ '' command failed: no robot service available on this node'')
   | Some exc \<Rightarrow> catch (seq (host_call (he_robot v) ''robot'' (VDict msg))
         (out (CEmit EVT_ROBOT_STATUS (VDict ([(''ok'', VBool True), (''command'', VStr ty)] @ status @ [(''correlation_id'', corr)])))))
       (\<lambda>x. emit_error corr (''Robot '' @ what @ '' command failed: '' @ x)))"

definition host_command :: "henv \<Rightarrow> string \<Rightarrow> bool \<Rightarrow> string \<Rightarrow> val \<Rightarrow> ('s, ceffect) action option" where
  "host_command v site ready ty payload =
     (let corr = vget payload ''correlation_id'' in
      if ty = CMD_IS_SERVER_READY then Some (out (CEmit EVT_SERVER_READY (with_correlation corr (server_ready_payload v site ready))))
      else if ty = CMD_GET_DEVICE_INFO then Some (out (CEmit EVT_DEVICE_INFO (device_info_payload v site ready corr)))
      else if ty = CMD_FORWARD_CONTROL_CENTER_MESSAGE then
        Some (if is_dict (vget payload ''message'') then out (CEmit EVT_CONTROL_CENTER_MESSAGE (vget payload ''message''))
              else out (CEmit EVT_ERROR (VStr ''Control Center forward failed: invalid message payload'')))
      else if ty = CMD_USB_MOUNT then Some (if he_usb_mount v then out (CHost ''usb_mount'' VNone)
              else usb_unsupported ''mount'' ''USB mount unsupported on this node'')
      else if ty = CMD_USB_SAFE_UNMOUNT then Some (if he_usb_unmount v then out (CHost ''usb_unmount'' VNone)
              else usb_unsupported ''unmount'' ''USB unmount unsupported on this node'')
      else if ty = CMD_GET_USB_STATUS then Some (case he_usb_status v of
          None \<Rightarrow> usb_unsupported ''status'' ''USB status unavailable on this node''
        | Some st \<Rightarrow> out (CEmit EVT_USB_STATUS st))
      else if ty = CMD_ROBOT_MOTION then Some (robot_command v ''motion'' ty
          [(''type'', VStr ''cmd_motion''), (''action'', vget payload ''action''), (''speed'', vget_or payload ''speed'' (VInt 0)),
           (''robot_id'', vget payload ''robot_id''), (''source'', vget_or payload ''source'' (VStr ''gateway''))]
          [(''action'', vget payload ''action''), (''robot_id'', vget payload ''robot_id'')] corr)
      else if ty = CMD_ROBOT_STOP then Some (robot_command v ''stop'' ty
          [(''type'', VStr ''cmd_stop''), (''robot_id'', vget payload ''robot_id''), (''source'', vget_or payload ''source'' (VStr ''gateway''))]
          [(''robot_id'', vget payload ''robot_id'')] corr)
      else None)"

section \<open>Commands of the core\<close>

text \<open>An operation under the correlation id of its command; an exception clears it and becomes an
  error event.\<close>

definition guarded_command :: "val \<Rightarrow> string \<Rightarrow> core_action \<Rightarrow> core_action" where
  "guarded_command corr what a = seq (upd (\<lambda>s. s\<lparr>co_pending_correlation_id := corr\<rparr>))
     (catch a (\<lambda>x. seq (upd (\<lambda>s. s\<lparr>co_pending_correlation_id := VNone\<rparr>)) (emit_error corr (what @ '' failed: '' @ x))))"

definition keyed :: "val \<Rightarrow> string \<Rightarrow> (val \<Rightarrow> ('s, 'e) action) \<Rightarrow> ('s, 'e) action" where
  "keyed payload key k = (case map_of (as_dict payload) key of None \<Rightarrow> raise (quoted key) | Some v \<Rightarrow> k v)"

definition ids_of :: "val \<Rightarrow> string list" where
  "ids_of v = map py_str (as_list v)"

definition failure_configuration :: "val \<Rightarrow> core \<Rightarrow> (string \<times> val) list" where
  "failure_configuration confs s =
     [(''configuration_state'', VStr (if co_requires_recovery s then ''recovery_required'' else ''previous_retained'')),
      (''recovery_required'', VBool (co_requires_recovery s)),
      (''previous_subject_ids'', VList (map VStr (subject_ids s))),
      (''requested_subject_ids'', VList (map (\<lambda>c. vget c ''subject_id'') (filter is_dict (as_list confs)))),
      (''configured_subject_ids'', if co_requires_recovery s then VNone else VList (map VStr (subject_ids s)))]"

definition initialization_failed :: "string \<Rightarrow> val \<Rightarrow> val \<Rightarrow> string \<Rightarrow> (string \<times> val) list \<Rightarrow> ('s, ceffect) action" where
  "initialization_failed node corr initialization_id x configuration =
     (let hint = (if truthy (vget (VDict configuration) ''recovery_required'') then '' Reset is required before retrying.''
                  else '' Previous configuration was retained.'')
      in out (CNodeEmit node (if truthy initialization_id then EVT_NODE_INITIALIZATION_FAILED else EVT_ERROR)
           (VDict (dmerge [(''message'', VStr (''System init failed: '' @ x @ ''.'' @ hint)), (''correlation_id'', corr),
              (''initialization_id'', initialization_id), (''initialization_complete'', VBool False)] configuration))))"

definition unknown_configuration :: "(string \<times> val) list" where
  "unknown_configuration = [(''configuration_state'', VStr ''unknown''), (''recovery_required'', VBool True),
     (''configured_subject_ids'', VNone)]"

definition label_of :: "val \<Rightarrow> string option" where
  "label_of v = (if v = VNone then None else Some (py_str v))"

definition handle_init :: "henv \<Rightarrow> val \<Rightarrow> core_action" where
  "handle_init v payload = query (\<lambda>s0.
     let corr = py_or (vget payload ''correlation_id'') (VStr (he_fresh_id v)); iid = vget payload ''initialization_id'' in
     seq (case map_of (as_dict payload) ''subjects'' of
            None \<Rightarrow> initialization_failed (co_node_id s0) corr iid (quoted ''subjects'') unknown_configuration
          | Some confs \<Rightarrow>
              seq (upd (\<lambda>s. s\<lparr>co_pending_correlation_id := corr\<rparr>))
                (catch (seq (init_core (he_core v) confs (label_of (vget payload ''init_label'')) (vget payload ''app_id'')
                              (vget payload ''app_name'') False)
                         (query (\<lambda>s. out (CNodeEmit (co_node_id s) (if truthy iid then EVT_NODE_INITIALIZED else EVT_SYSTEM_INITIALIZED)
                            (VDict (dmerge (initialized_payload s corr) [(''correlation_id'', corr), (''initialization_id'', iid),
                               (''initialization_complete'', VBool (\<not> truthy iid))]))))))
                   (\<lambda>x. query (\<lambda>s. initialization_failed (co_node_id s) corr iid x (failure_configuration confs s)))))
       (upd (\<lambda>s. s\<lparr>co_pending_correlation_id := VNone\<rparr>)))"

definition core_command :: "henv \<Rightarrow> string \<Rightarrow> val \<Rightarrow> core_action option" where
  "core_command v ty payload =
     (let e = he_core v; corr = vget payload ''correlation_id'' in
      if ty = CMD_INIT_SYSTEM then Some (handle_init v payload)
      else if ty = CMD_UPDATE_FILE_PATH then Some (keyed payload ''file_path'' (\<lambda>p. out (CHost ''set_file_path'' p)))
      else if ty = CMD_DISCOVER_SENSORS then Some (guarded_command corr ''Discover sensors'' (discover_sensors e))
      else if ty = CMD_DISCOVER_SENSORS_FOR_SUBJECTS then Some (guarded_command corr ''Discover sensors for subjects''
        (keyed payload ''subject_ids'' (\<lambda>ids. discover_sensors_for_subjects e (ids_of ids) (vget_or payload ''excluded_addresses'' (VList [])))))
      else if ty = CMD_CONNECT_TO_ALL then Some (guarded_command corr ''Connect all'' (connect_all e))
      else if ty = CMD_CONNECT_SUBJECTS then Some (guarded_command corr ''Connect subjects''
        (keyed payload ''subject_ids'' (\<lambda>ids. connect_subjects e (ids_of ids))))
      else if ty = CMD_DISCONNECT_SUBJECTS then Some (guarded_command corr ''Disconnect subjects''
        (keyed payload ''subject_ids'' (\<lambda>ids. disconnect_subjects e (ids_of ids) payload)))
      else if ty = CMD_DISCONNECT_ALL then Some (guarded_command corr ''Disconnect all'' (disconnect_all e payload))
      else if ty = CMD_START_STREAM_FOR_SUBJECTS then Some (seq (host_call (he_before_start v) ''before_stream_start'' VNone)
        (guarded_command corr ''Start stream for subjects'' (start_stream_for_subjects e payload)))
      else if ty = CMD_START_STREAM_FOR_ALL then Some (seq (host_call (he_before_start v) ''before_stream_start'' VNone)
        (guarded_command corr ''Start stream for all'' (start_stream e payload)))
      else if ty = CMD_START_OFFICIAL_STREAM then Some (catch (core_start_official_stream e payload)
        (\<lambda>x. emit_error corr (''Official stream start failed: '' @ x)))
      else if ty = CMD_STOP_STREAM_FOR_SUBJECTS then Some (guarded_command corr ''Stop stream for subjects''
        (keyed payload ''subject_ids'' (\<lambda>ids. stop_stream_for_subjects e (ids_of ids) payload)))
      else if ty = CMD_STOP_STREAM_FOR_ALL then Some (guarded_command corr ''Stop stream for all'' (stop_stream e payload))
      else if ty = CMD_IDENTIFY_SENSOR then Some (guarded_command corr ''Identify sensor''
        (keyed payload ''subject_id'' (\<lambda>sid. keyed payload ''location'' (core_identify_sensor e sid))))
      else if ty = CMD_CHECK_BATTERY then Some (check_battery e
        (VDict [(''scan_timeout'', vget_or payload ''scan_timeout'' (VInt 5)), (''read_timeout'', vget_or payload ''read_timeout'' (VInt 10))]))
      else None)"

text \<open>The handler after the wait of a stop: the hook after the last stream, or the error event.\<close>

definition finish_stop_command :: "henv \<Rightarrow> string list option \<Rightarrow> string list \<Rightarrow> val \<Rightarrow> core_action" where
  "finish_stop_command v tg sids payload =
     catch (seq (stop_finish (he_core v) tg sids payload)
              (query (\<lambda>s. if has_active_streams s then skip else host_call (he_after_stop v) ''after_stream_stop'' VNone)))
       (\<lambda>x. seq (upd (\<lambda>s. s\<lparr>co_pending_correlation_id := VNone\<rparr>))
             (emit_error (vget payload ''correlation_id'')
               ((case tg of None \<Rightarrow> ''Stop stream for all'' | Some _ \<Rightarrow> ''Stop stream for subjects'') @ '' failed: '' @ x)))"

section \<open>The handler\<close>

definition needs_installed_configuration :: "string \<Rightarrow> bool" where
  "needs_installed_configuration ty \<longleftrightarrow> ty \<in> {CMD_DISCOVER_SENSORS, CMD_DISCOVER_SENSORS_FOR_SUBJECTS, CMD_CONNECT_TO_ALL,
     CMD_CONNECT_SUBJECTS, CMD_START_STREAM_FOR_ALL, CMD_START_STREAM_FOR_SUBJECTS}"

definition waits_for_sequence :: "string \<Rightarrow> bool" where
  "waits_for_sequence ty \<longleftrightarrow> ty \<in> {CMD_DISCOVER_SENSORS, CMD_DISCOVER_SENSORS_FOR_SUBJECTS, CMD_CONNECT_TO_ALL,
     CMD_CONNECT_SUBJECTS, CMD_IDENTIFY_SENSOR, CMD_INIT_SYSTEM}"

definition connection_step :: "string \<Rightarrow> val \<Rightarrow> bool" where
  "connection_step ty payload \<longleftrightarrow> truthy (vget payload ''connection_sequence_id'') \<and>
     ty \<in> {CMD_DISCOVER_SENSORS_FOR_SUBJECTS, CMD_CONNECT_SUBJECTS, CMD_IDENTIFY_SENSOR}"

definition handle_connection_step :: "('s, ceffect) action \<Rightarrow> string \<Rightarrow> string \<Rightarrow> val \<Rightarrow> ('s, ceffect) action" where
  "handle_connection_step a node ty payload =
     (let sid = py_or (vget payload ''subject_id'')
        (case as_list (vget payload ''subject_ids'') of [] \<Rightarrow> VNone | x # _ \<Rightarrow> x)
      in catch a
        (\<lambda>x. out (CEmit EVT_ERROR (VDict (dmerge (as_dict payload) [(''node_id'', VStr node),
           (''correlation_id'', vget_or payload ''sequence_correlation_id'' (vget payload ''correlation_id'')), (''subject_id'', sid),
           (''operation'', VStr (if ty = CMD_IDENTIFY_SENSOR then ''identify'' else ty)),
           (''severity'', VStr (if ty = CMD_IDENTIFY_SENSOR then ''warning'' else ''error'')), (''message'', VStr x)])))))"

definition unknown_command :: "string \<Rightarrow> ('s, ceffect) action" where
  "unknown_command ty = out (CEmit EVT_ERROR (VDict [(''msg'', VStr (''Unknown command '' @ ty))]))"

definition handle_with_core :: "henv \<Rightarrow> bool \<Rightarrow> string \<Rightarrow> val \<Rightarrow> core_action" where
  "handle_with_core v ready ty payload = query (\<lambda>s.
     let corr = vget payload ''correlation_id'' in
     if co_requires_recovery s \<and> needs_installed_configuration ty then emit_error corr REQUIRES_RESET
     else if connection_step ty payload then handle_connection_step (execute_connection_step (he_core v) ty payload) (co_node_id s) ty payload
     else if ty = CMD_CONNECT_TO_ALL \<and> length (co_subjects s) > 1 then start_connection_sequence payload
     else if he_sequence_busy v \<and> waits_for_sequence ty
     then emit_error corr ''Connect All is still in progress; wait for completion or Reset''
     else case host_command v (co_site s) ready ty payload of
        Some a \<Rightarrow> a
      | None \<Rightarrow> (case core_command v ty payload of Some a \<Rightarrow> a | None \<Rightarrow> unknown_command ty))"

text \<open>Before the system is set up there is no core: its operations raise, and only the initialization
  reports it.\<close>

definition handle_without_core :: "henv \<Rightarrow> handler \<Rightarrow> string \<Rightarrow> val \<Rightarrow> handler_action" where
  "handle_without_core v h ty payload =
     (if connection_step ty payload then handle_connection_step (raise ''AttributeError'') (mh_node_id h) ty payload
      else case host_command v (mh_site h) (mh_is_ready h) ty payload of
         Some a \<Rightarrow> a
       | None \<Rightarrow> if ty = CMD_INIT_SYSTEM
           then initialization_failed (mh_node_id h) (py_or (vget payload ''correlation_id'') (VStr (he_fresh_id v)))
                  (vget payload ''initialization_id'') ''AttributeError'' unknown_configuration
           else case core_command v ty payload of Some _ \<Rightarrow> raise ''AttributeError'' | None \<Rightarrow> unknown_command ty)"

definition new_core :: "string \<Rightarrow> string \<Rightarrow> core" where
  "new_core site node = \<lparr>co_site = site, co_node_id = node, co_subjects = [], co_max_total_sensors = 8,
     co_session_label = VNone, co_session_name = VNone, co_active_subject_ids = None,
     co_session_timestamp = VNone, co_archived_session_timestamp = VNone, co_app_id = None, co_app_name = None,
     co_pending_correlation_id = VNone, co_stream_phase = ''idle'', co_startup_attempt = 0, co_startup_max_attempts = 1,
     co_startup_subject_ids = [], co_startup_addresses = [], co_startup_stats = [], co_startup_retry_pending = False,
     co_startup_manual_stop = False, co_startup_gate_token = 0, co_pending_stream_tags = [],
     co_startup_last_failure_reason = None, co_finalization_pending = False, co_official_origin_ns = None,
     co_official_start_mode = VStr ''local'', co_start_session_id = VNone, co_official_commit_received = False,
     co_official_outputs_active = False, co_prepared_subject_ids = [], co_recovery_in_progress = False,
     co_requires_recovery = False, co_stopping_subject_ids = [], co_stop_results_timestamp = VNone,
     co_physical_stop_results = [], co_reset_waiters = [], co_battery_check_active = False, co_battery_results = []\<rparr>"

definition setup_system :: "val \<Rightarrow> handler_action" where
  "setup_system payload = seq (upd (\<lambda>h. h\<lparr>mh_core := Some (new_core (mh_site h) (mh_node_id h))\<rparr>))
     (seq (out (CHost ''set_file_path'' (vget payload ''file_path''))) (upd (\<lambda>h. h\<lparr>mh_is_ready := True\<rparr>)))"

text \<open>An operation of the core inside the handler.\<close>

definition on_core :: "core_action \<Rightarrow> handler_action" where
  "on_core a h = (case mh_core h of None \<Rightarrow> (h, [], None)
     | Some c \<Rightarrow> (case a c of (c', es, x) \<Rightarrow> (h\<lparr>mh_core := Some c'\<rparr>, es, x)))"

definition handle_local_command :: "henv \<Rightarrow> string \<Rightarrow> val \<Rightarrow> handler_action" where
  "handle_local_command v ty payload = query (\<lambda>h.
     if ty = CMD_SYSTEM_SETUP then setup_system payload
     else case mh_core h of
        None \<Rightarrow> handle_without_core v h ty payload
      | Some _ \<Rightarrow> on_core (handle_with_core v (mh_is_ready h) ty payload))"

definition handle :: "henv \<Rightarrow> val \<Rightarrow> handler_action" where
  "handle v msg = query (\<lambda>h.
     if mh_dispatcher h then out (CHost ''dispatch'' msg)
     else handle_local_command v (py_str (vget msg ''type'')) (vget_or msg ''payload'' (VDict [])))"

end
