(* ===== verification/Core_Run.thy ===== *)
theory Core_Run
  imports Message_Handler
begin

text \<open>
  A node in operation: the command handler with its core, and the threads that are under way. An
  input is a message of a client, a callback of the managers, a sample, a compute result, the
  address that a discovery gives a sensor, or a step of one of the threads; inputs come in any order,
  each with its own environment. A message that arrives while a stop waits for the sensors is not
  taken. An exception ends the callback or the thread. \<open>None\<close> is a node that hangs in the ingestion of
  a sample.
\<close>

type_synonym node = "handler \<times> cthread list"

datatype ninput =
    Message val
  | StreamStarted "string list"
  | StreamStopped "string list"
  | Data reading
  | ResultReady val
  | Discovered val
  | Callback ccallback
  | AddressGiven nat nat string
  | ThreadStep nat

definition thread_action :: "henv \<Rightarrow> cthread \<Rightarrow> core_action" where
  "thread_action v t = (case t of
     Gate token stage \<Rightarrow> gate_step (he_core v) token stage
   | Retry token \<Rightarrow> schedule_startup_retry (he_core v) token
   | Stopping tg sids payload \<Rightarrow> finish_stop_command v tg sids payload
   | Recovering ctx \<Rightarrow> finish_recovery (he_core v) ctx
   | BatteryCheck \<Rightarrow> emit_battery_results (he_core v))"

definition spawned :: "ceffect list \<Rightarrow> cthread list" where
  "spawned es = List.map_filter (\<lambda>eff. case eff of CSpawn t \<Rightarrow> Some t | _ \<Rightarrow> None) es"

definition stop_waits :: "cthread list \<Rightarrow> bool" where
  "stop_waits ts \<longleftrightarrow> (\<exists>t \<in> set ts. case t of Stopping _ _ _ \<Rightarrow> True | _ \<Rightarrow> False)"

definition give_address :: "nat \<Rightarrow> nat \<Rightarrow> string \<Rightarrow> core \<Rightarrow> core" where
  "give_address i j a s = s\<lparr>co_subjects := (if i < length (co_subjects s)
     then (co_subjects s)[i := (co_subjects s ! i)\<lparr>sb_sensors := (if j < length (sb_sensors (co_subjects s ! i))
        then (sb_sensors (co_subjects s ! i))[j := (sb_sensors (co_subjects s ! i) ! j)\<lparr>se_address := Some a\<rparr>]
        else sb_sensors (co_subjects s ! i))\<rparr>]
     else co_subjects s)\<rparr>"

definition perform :: "handler_action \<Rightarrow> node \<Rightarrow> node \<times> ceffect list" where
  "perform a n = (case a (fst n) of (h, es, _) \<Rightarrow> ((h, snd n @ spawned es), es))"

definition deliver_sample :: "henv \<Rightarrow> reading \<Rightarrow> node \<Rightarrow> (node \<times> ceffect list) option" where
  "deliver_sample v x n = (case mh_core (fst n) of
     None \<Rightarrow> Some (n, [])
   | Some c \<Rightarrow> map_option (\<lambda>(c', es). (((fst n)\<lparr>mh_core := Some c'\<rparr>, snd n), es)) (on_data (he_core v) x c))"

definition node_step :: "henv \<Rightarrow> ninput \<Rightarrow> node \<Rightarrow> (node \<times> ceffect list) option" where
  "node_step v i n = (case i of
     Message m \<Rightarrow> Some (if stop_waits (snd n) then (n, []) else perform (handle v m) n)
   | StreamStarted addresses \<Rightarrow> Some (perform (on_core (on_stream_started (he_core v) addresses)) n)
   | StreamStopped addresses \<Rightarrow> Some (perform (on_core (on_stream_stopped (he_core v) addresses)) n)
   | Data x \<Rightarrow> deliver_sample v x n
   | ResultReady r \<Rightarrow> Some (perform (on_core (on_compute_result (he_core v) r)) n)
   | Discovered pl \<Rightarrow> Some (perform (on_core (on_discover (he_core v) pl)) n)
   | Callback cb \<Rightarrow> Some (perform (on_core (callback_action (he_core v) cb)) n)
   | AddressGiven i j a \<Rightarrow> Some (perform (on_core (upd (give_address i j a))) n)
   | ThreadStep k \<Rightarrow> Some (if k < length (snd n)
       then perform (on_core (thread_action v (snd n ! k))) (fst n, take k (snd n) @ drop (Suc k) (snd n))
       else (n, [])))"

fun node_run :: "(henv \<times> ninput) list \<Rightarrow> node \<Rightarrow> (node \<times> ceffect list) option" where
  "node_run [] n = Some (n, [])"
| "node_run ((v, i) # is) n = (case node_step v i n of
     None \<Rightarrow> None
   | Some (n', es) \<Rightarrow> map_option (\<lambda>(n'', fs). (n'', es @ fs)) (node_run is n'))"

section \<open>Relations kept by runs\<close>

text \<open>What every admitted step relates, every run of admitted inputs relates.\<close>

locale run_relation =
  fixes admitted :: "ninput \<Rightarrow> bool"
    and related :: "node \<Rightarrow> ceffect list \<Rightarrow> node \<Rightarrow> bool"
  assumes no_step: "related n [] n"
    and compose: "related n es m \<Longrightarrow> related m fs k \<Longrightarrow> related n (es @ fs) k"
    and step: "node_step v i n = Some (n', es) \<Longrightarrow> admitted i \<Longrightarrow> related n es n'"
begin

lemma run: "node_run xs n = Some (n', es) \<Longrightarrow> \<forall>(v, i) \<in> set xs. admitted i \<Longrightarrow> related n es n'"
proof (induction xs arbitrary: n es)
  case Nil
  then have "n' = n" "es = []" by simp_all
  then show ?case using no_step [of n] by simp
next
  case (Cons x xs)
  obtain v i where x: "x = (v, i)" by (cases x)
  from Cons.prems(1) obtain m fs gs where *: "node_step v i n = Some (m, fs)" "node_run xs m = Some (n', gs)" "es = fs @ gs"
    by (auto simp: x split: option.splits)
  from Cons.prems(2) have "admitted i" "\<forall>(v, i) \<in> set xs. admitted i" by (auto simp: x)
  with compose [OF step [OF *(1)] Cons.IH [OF *(2)]] *(3) show ?case by (simp only:)
qed

end

section \<open>A node in official streaming\<close>

text \<open>One subject with one sensor, for the examples: blocks of two samples, and an environment in which
  every call succeeds.\<close>

definition ex_env :: cenv where
  "ex_env = \<lparr>ce_bus = True, ce_now = 0, ce_now_ns = 0, ce_stamp = ''t0'', ce_deadline = False, ce_sampling_rate = (\<lambda>_. None),
     ce_start_stream = (\<lambda>_. None), ce_sensors = None, ce_compute = None, ce_routing = None, ce_stop = NoCompletion,
     ce_raw_write_failures = [], ce_consolidation = Inr [],
     ce_resolve = (\<lambda>_. None), ce_text = (\<lambda>_. ''rejected''), ce_connected = (\<lambda>_. True),
     ce_recovery = Inr (VDict [(''core_ready_for_configuration'', VBool True)]),
     ce_identifies = (\<lambda>_. False), ce_setup_complete = (\<lambda>_. True), ce_battery_classes = [], ce_battery_summary = Inl ''none''\<rparr>"

definition ex_henv :: henv where
  "ex_henv = \<lparr>he_core = ex_env, he_fresh_id = ''f'', he_sequence_busy = False, he_before_start = None,
     he_after_stop = None, he_runtime = VNone, he_snapshot_at = [], he_version = [], he_capabilities = VNone,
     he_archive_service = VNone, he_usb_mount = False, he_usb_unmount = False, he_usb_status = None, he_robot = None\<rparr>"

definition ex_sensor :: "string \<Rightarrow> sensor_entry" where
  "ex_sensor a = \<lparr>se_name = ''imu'', se_address = Some a, se_raw_data = [],
     se_meta = \<lparr>sm_location = VStr ''wrist'', sm_f_block_size = Some 2, sm_algorithm = VNone\<rparr>\<rparr>"

definition ex_subject :: "string \<Rightarrow> string \<Rightarrow> bool \<Rightarrow> subject" where
  "ex_subject sid a streaming = \<lparr>sb_subject_id = sid, sb_configs = [], sb_sensors = [ex_sensor a], sb_sample_count = 0,
     sb_is_streaming = streaming\<rparr>"

definition ex_core :: core where
  "ex_core = (new_core ''site'' ''n1'')\<lparr>co_subjects := [ex_subject ''S'' ''A'' True], co_stream_phase := ''official_streaming'',
     co_official_outputs_active := True, co_session_timestamp := VStr ''t1'', co_startup_subject_ids := [''S''],
     co_startup_addresses := [''A'']\<rparr>"

definition ex_handler :: handler where
  "ex_handler = \<lparr>mh_site = ''site'', mh_node_id = ''n1'', mh_is_ready = True, mh_dispatcher = False, mh_core = Some ex_core\<rparr>"

end
