(* ===== verification/Core_Archive.thy ===== *)
theory Core_Archive
  imports Core_Run
begin

text \<open>
  A session is archived at most once: every operation pays for the archive it makes with the credit
  of a session that is not archived yet, and only a start gives new credit.
\<close>

definition is_archive :: "ceffect \<Rightarrow> bool" where
  "is_archive eff \<longleftrightarrow> (case eff of CArchive _ \<Rightarrow> True | _ \<Rightarrow> False)"

definition credit :: "core \<Rightarrow> nat" where
  "credit s = (if truthy (co_session_timestamp s) \<and> co_archived_session_timestamp s \<noteq> co_session_timestamp s then 1 else 0)"

lemma is_archive_simps [simp]: "is_archive (CArchive ts)"
  by (simp add: is_archive_def)

text \<open>The credit depends on two fields.\<close>

lemma credit_cong: "co_session_timestamp s = co_session_timestamp t \<Longrightarrow>
   co_archived_session_timestamp s = co_archived_session_timestamp t \<Longrightarrow> credit s \<le> credit t"
  by (simp add: credit_def)

abbreviation frugal :: "core_action \<Rightarrow> bool" where
  "frugal \<equiv> thrifty is_archive credit"

lemma frugal_archive [thrifty_intros]: "frugal finalize_session_archive"
  by (auto simp: thrifty_def finalize_session_archive_def query_def seq_def out_def upd_def skip_def credit_def is_archive_def)

lemmas frugal_upd = thrifty_upd [where f = credit, OF credit_cong]

lemma frugal_keyed [thrifty_intros]: "(\<And>v. thrifty c f (k v)) \<Longrightarrow> thrifty c f (keyed pl key k)"
  by (auto simp: keyed_def intro!: thrifty_intros)

lemma frugal_call [thrifty_intros]: "\<not> is_archive eff \<Longrightarrow> frugal (call x eff)"
  by (auto simp: call_def intro!: thrifty_intros)

lemma frugal_emit [thrifty_intros]: "frugal (emit_event e ty pl)"
  by (auto simp: emit_event_def is_archive_def intro!: thrifty_intros)

lemma frugal_startup_event [thrifty_intros]: "frugal (emit_startup_event ty ph r)"
  by (auto simp: emit_startup_event_def is_archive_def intro!: thrifty_intros)

lemma frugal_set_phase [thrifty_intros]: "frugal (set_phase ph)"
  by (auto simp: set_phase_def intro!: frugal_upd)

lemma frugal_get_subjects [thrifty_intros]: "(\<And>subs. frugal (k subs)) \<Longrightarrow> frugal (get_subjects_by_ids_then sids k)"
  by (auto simp: get_subjects_by_ids_then_def Let_def intro!: thrifty_intros)

lemma frugal_prepare [thrifty_intros]: "frugal (prepare_official_persistence e)"
  by (auto simp: prepare_official_persistence_def prepare_subject_def Let_def is_archive_def credit_def intro!: thrifty_intros)

lemma frugal_activate [thrifty_intros]: "frugal (activate_official_streaming e)"
  by (auto simp: activate_official_streaming_def mark_streaming_def is_archive_def credit_def intro!: thrifty_intros)

lemma frugal_failed [thrifty_intros]: "frugal (startup_failed e r)"
  by (auto simp: startup_failed_def stop_startup_sensors_def is_archive_def credit_def intro!: thrifty_intros)

lemma frugal_gate_pass [thrifty_intros]: "frugal (gate_pass e token)"
  by (auto simp: gate_pass_def is_archive_def credit_def intro!: thrifty_intros)

lemma frugal_gate_timeout [thrifty_intros]: "frugal (gate_timeout e token)"
  by (auto simp: gate_timeout_def stop_startup_sensors_def is_archive_def credit_def intro!: thrifty_intros)

lemma frugal_gate [thrifty_intros]: "frugal (gate_step e token stage)"
  by (cases stage) (auto simp: is_archive_def intro!: thrifty_intros)

lemma frugal_retry [thrifty_intros]: "frugal (schedule_startup_retry e token)"
  by (auto simp: schedule_startup_retry_def is_archive_def credit_def intro!: thrifty_intros)

lemma frugal_end_operation [thrifty_intros]: "frugal end_operation"
  by (auto simp: end_operation_def credit_def intro!: thrifty_intros)

lemma frugal_started [thrifty_intros]: "frugal (on_stream_started e addresses)"
  by (auto simp: on_stream_started_def Let_def is_archive_def intro!: thrifty_intros)

lemma frugal_drained [thrifty_intros]: "frugal (emit_stream_drained e pl)"
  by (auto simp: emit_stream_drained_def intro!: thrifty_intros)

lemma frugal_cleanup [thrifty_intros]: "frugal (cleanup_failed_startup_session e)"
  by (auto simp: cleanup_failed_startup_session_def Let_def is_archive_def credit_def intro!: thrifty_intros)

lemma frugal_stopped [thrifty_intros]: "frugal (on_stream_stopped e addresses)"
  by (auto simp: on_stream_stopped_def Let_def is_archive_def intro!: thrifty_intros)

lemma thrifty_str [thrifty_intros]:
  "(\<And>a. v = VStr a \<Longrightarrow> thrifty c f (g a)) \<Longrightarrow> thrifty c f (case v of VStr a \<Rightarrow> g a | _ \<Rightarrow> skip)"
  by (cases v) (auto intro: thrifty_intros)

lemma frugal_result [thrifty_intros]: "frugal (on_compute_result e r)"
  by (auto simp: on_compute_result_def is_archive_def intro!: thrifty_intros)

lemma frugal_connection_event [thrifty_intros]: "frugal (emit_connection_event e ty pl)"
  by (auto simp: emit_connection_event_def is_archive_def intro!: thrifty_intros)

lemma frugal_execute_step [thrifty_intros]: "frugal (execute_connection_step e command pl)"
  by (auto simp: execute_connection_step_def Let_def is_archive_def intro!: thrifty_intros)

lemma frugal_battery [thrifty_intros]: "frugal (check_battery e pl)" "frugal (emit_battery_results e)"
  by (auto simp: check_battery_def emit_battery_results_def is_archive_def credit_def intro!: thrifty_intros)

lemmas callback_defs = on_connected_def on_disconnected_def on_intermediate_result_def on_compute_performance_def on_identify_def
  on_battery_def on_diagnostics_def on_error_def identified_def step_completed_def

lemma frugal_callback [thrifty_intros]: "frugal (callback_action e cb)"
  by (cases cb) (auto simp: callback_defs Let_def is_archive_def credit_def intro!: thrifty_intros)

lemma frugal_official [thrifty_intros]: "frugal (core_start_official_stream e pl)"
  by (auto simp: core_start_official_stream_def Let_def is_archive_def credit_def intro!: thrifty_intros)

lemma frugal_guards [thrifty_intros]: "frugal ensure_recovery_idle" "frugal ensure_disconnect_allowed"
  by (auto simp: ensure_recovery_idle_def ensure_disconnect_allowed_def intro!: thrifty_intros)

subsection \<open>Stop\<close>

lemma frugal_stop_failed [thrifty_intros]: "frugal (stop_failed e tg sids ctx x)"
  by (auto simp: stop_failed_def is_archive_def credit_def intro!: thrifty_intros)

lemma frugal_stop_finally [thrifty_intros]: "frugal (stop_finally sids)"
  by (auto simp: stop_finally_def clear_startup_gate_state_def is_archive_def credit_def intro!: thrifty_intros)

lemma frugal_stop_sensors [thrifty_intros]: "frugal (stop_sensors e tg subs)"
  by (auto simp: stop_sensors_def is_archive_def credit_def intro!: thrifty_intros)

lemma frugal_stop_begin [thrifty_intros]: "frugal (stop_begin e tg ctx)"
  by (auto simp: stop_begin_def stop_requested_def Let_def is_archive_def credit_def intro!: thrifty_intros)

lemma frugal_stop [thrifty_intros]: "frugal (stop_stream e ctx)" "frugal (stop_stream_for_subjects e sids ctx)"
  by (auto simp: stop_stream_def stop_stream_for_subjects_def intro!: thrifty_intros)

lemma frugal_flush [thrifty_intros]: "frugal (flush_pending_samples tg)"
  by (auto simp: flush_pending_samples_def flush_subject_def is_archive_def credit_def intro!: thrifty_intros)

lemma frugal_consolidate [thrifty_intros]: "frugal (consolidate e sids)"
  by (auto simp: consolidate_def is_archive_def intro!: thrifty_intros)

lemma frugal_close [thrifty_intros]: "frugal (close_outputs tg)"
  by (auto simp: close_outputs_def is_archive_def credit_def intro!: thrifty_intros)

lemma frugal_finalize [thrifty_intros]: "frugal (finalize_stop e tg sids ctx rs err)"
  by (auto simp: finalize_stop_def Let_def is_archive_def credit_def intro!: thrifty_intros)

lemma frugal_stop_body [thrifty_intros]: "frugal (stop_body e tg sids ctx)"
  by (auto simp: stop_body_def record_stop_results_def Let_def is_archive_def credit_def intro!: thrifty_intros)

lemma frugal_stop_finish [thrifty_intros]: "frugal (stop_finish e tg sids ctx)"
  by (auto simp: stop_finish_def always_def intro!: thrifty_intros)

subsection \<open>Configuration, recovery, connection\<close>

lemma frugal_install [thrifty_intros]: "frugal (install e label app_id app_name)"
  by (auto simp: install_def set_session_label_def Let_def is_archive_def credit_def intro!: thrifty_intros split: option.split)

lemma frugal_init [thrifty_intros]: "frugal (init_core e confs label app_id app_name em)"
  by (auto simp: init_core_def init_guards_def init_subjects_of_core_def rollback_def is_archive_def credit_def intro!: thrifty_intros)

lemma frugal_cleanup_complete [thrifty_intros]: "frugal (core_on_cleanup_complete e pl)"
  by (auto simp: core_on_cleanup_complete_def intro!: thrifty_intros)

lemma frugal_announce [thrifty_intros]: "(\<And>ctx. frugal (k ctx)) \<Longrightarrow> frugal (announce_cleanup_then e ctx k)"
  by (auto simp: announce_cleanup_then_def intro!: thrifty_intros)

lemma frugal_complete_reset [thrifty_intros]: "frugal (complete_reset e r)"
  by (auto simp: complete_reset_def credit_def intro!: thrifty_intros)

lemma frugal_reset [thrifty_intros]: "frugal (core_reset_session e ctx)"
  by (auto simp: core_reset_session_def Let_def is_archive_def credit_def intro!: thrifty_intros)

lemma frugal_recovery [thrifty_intros]: "frugal (finish_recovery e ctx)"
  by (auto simp: finish_recovery_def recovered_def clear_startup_gate_state_def Let_def credit_def intro!: thrifty_intros)

lemma frugal_connection [thrifty_intros]:
  "frugal (disconnect_all e ctx)" "frugal (disconnect_subjects e sids ctx)" "frugal (discover_sensors e)"
  "frugal (discover_sensors_for_subjects e sids ex)" "frugal (start_connection_sequence pl)" "frugal (connect_all e)"
  "frugal (connect_subjects e sids)" "frugal (on_discover e pl)" "frugal (core_identify_sensor e sid loc)"
  by (auto simp: disconnect_all_def disconnect_subjects_def discover_sensors_def discover_sensors_for_subjects_def
      start_connection_sequence_def connect_all_def connect_subjects_def on_discover_def core_identify_sensor_def Let_def
      is_archive_def credit_def intro!: thrifty_intros)

section \<open>The node\<close>

definition node_credit :: "handler \<Rightarrow> nat" where
  "node_credit h = (case mh_core h of None \<Rightarrow> 0 | Some c \<Rightarrow> credit c)"

abbreviation frugal_node :: "handler_action \<Rightarrow> bool" where
  "frugal_node \<equiv> thrifty is_archive node_credit"

lemma frugal_on_core: "frugal a \<Longrightarrow> frugal_node (on_core a)"
  by (fastforce simp: thrifty_def on_core_def node_credit_def split: option.splits prod.splits)

text \<open>The host's commands, on any state.\<close>

lemma thrifty_error [thrifty_intros]: "thrifty is_archive f (emit_error corr m)"
  by (auto simp: emit_error_def is_archive_def intro!: thrifty_intros)

lemma thrifty_host_call [thrifty_intros]: "thrifty is_archive f (host_call sv what pl)"
  by (auto simp: host_call_def is_archive_def intro!: thrifty_intros)

lemma thrifty_init_failed [thrifty_intros]: "thrifty is_archive f (initialization_failed node corr iid x conf)"
  by (auto simp: initialization_failed_def Let_def is_archive_def intro!: thrifty_intros)

lemma thrifty_step [thrifty_intros]: "thrifty is_archive f a \<Longrightarrow> thrifty is_archive f (handle_connection_step a node ty pl)"
  by (auto simp: handle_connection_step_def Let_def is_archive_def intro!: thrifty_intros)

lemma thrifty_unknown [thrifty_intros]: "thrifty is_archive f (unknown_command ty)"
  by (auto simp: unknown_command_def is_archive_def intro!: thrifty_intros)

lemma thrifty_host: "host_command v site ready ty pl = Some a \<Longrightarrow> thrifty is_archive f a"
  by (auto simp: host_command_def Let_def usb_unsupported_def robot_command_def is_archive_def
      intro!: thrifty_intros split: if_splits)

text \<open>The commands that begin a session.\<close>

definition begins_session :: "string \<Rightarrow> bool" where
  "begins_session ty \<longleftrightarrow> ty \<in> {CMD_START_STREAM_FOR_ALL, CMD_START_STREAM_FOR_SUBJECTS}"

lemma frugal_attempt [thrifty_intros]: "frugal a \<Longrightarrow> frugal (guarded_command corr what a)"
  by (auto simp: guarded_command_def credit_def intro!: thrifty_intros)

lemma frugal_handle_init [thrifty_intros]: "frugal (handle_init v pl)"
  by (auto simp: handle_init_def Let_def is_archive_def credit_def intro!: thrifty_intros)

lemma frugal_command: "core_command v ty pl = Some a \<Longrightarrow> \<not> begins_session ty \<Longrightarrow> frugal a"
  by (auto simp: core_command_def Let_def begins_session_def is_archive_def intro!: thrifty_intros split: if_splits)

lemma frugal_handle_with_core: "\<not> begins_session ty \<Longrightarrow> frugal (handle_with_core v ready ty pl)"
  by (auto simp: handle_with_core_def Let_def intro!: thrifty_intros split: option.split dest: thrifty_host frugal_command)

lemma frugal_finish_stop [thrifty_intros]: "frugal (finish_stop_command v tg sids pl)"
  by (auto simp: finish_stop_command_def credit_def intro!: thrifty_intros)

lemma frugal_thread: "frugal (thread_action v t)"
  by (cases t) (auto simp: thread_action_def intro!: thrifty_intros)

lemma frugal_handle_local: "\<not> begins_session ty \<Longrightarrow> frugal_node (handle_local_command v ty pl)"
  by (auto simp: handle_local_command_def setup_system_def handle_without_core_def node_credit_def is_archive_def credit_def new_core_def
      intro!: thrifty_intros frugal_on_core frugal_handle_with_core split: option.split dest: thrifty_host)

definition begins :: "ninput \<Rightarrow> bool" where
  "begins i \<longleftrightarrow> (case i of Message m \<Rightarrow> begins_session (py_str (vget m ''type'')) | _ \<Rightarrow> False)"

lemma frugal_handle: "\<not> begins_session (py_str (vget m ''type'')) \<Longrightarrow> frugal_node (handle v m)"
  by (auto simp: handle_def is_archive_def intro!: thrifty_intros frugal_handle_local)

lemma perform_credit: "frugal_node a \<Longrightarrow> perform a n = (n', es) \<Longrightarrow> length (filter is_archive es) + node_credit (fst n') \<le> node_credit (fst n)"
  by (auto simp: perform_def split: prod.splits dest: thriftyD)

lemma on_data_credit: "on_data e x s = Some (s', es) \<Longrightarrow> filter is_archive es = [] \<and> credit s' = credit s"
  by (auto simp: on_data_def Let_def observe_sample_def credit_def is_archive_def filter_empty_conv split: if_splits option.splits)

lemma node_step_credit:
  assumes "node_step v i n = Some (n', es)" and "\<not> begins i"
  shows "length (filter is_archive es) + node_credit (fst n') \<le> node_credit (fst n)"
proof (cases i)
  case (Data x)
  then show ?thesis using assms(1)
    by (auto simp: node_step_def deliver_sample_def node_credit_def split: option.splits dest!: on_data_credit)
next
  case (ThreadStep k)
  then show ?thesis using assms(1)
    by (auto simp: node_step_def split: if_splits dest!: perform_credit [OF frugal_on_core [OF frugal_thread]])
next
  case (AddressGiven j k a)
  have "frugal (upd (give_address j k a))"
    by (auto simp: give_address_def credit_def intro!: thrifty_intros)
  with AddressGiven show ?thesis using assms(1) perform_credit [OF frugal_on_core] by (auto simp: node_step_def)
qed (use assms in \<open>auto simp: node_step_def begins_def split: if_splits
       dest!: perform_credit [rotated] intro: frugal_handle frugal_on_core thrifty_intros\<close>)

interpretation archive_account: run_relation "\<lambda>i. \<not> begins i"
  "\<lambda>n es n'. length (filter is_archive es) + node_credit (fst n') \<le> node_credit (fst n)"
  by unfold_locales (auto dest: node_step_credit)

text \<open>C21. Between two starts a node archives at most one session, and none once the session is archived:
  whatever messages, callbacks, samples and thread steps come and in whatever order, a run without a
  start command archives at most as often as there is a session that is not archived yet.\<close>

theorem session_archived_once:
  assumes "node_run inputs (h, ts) = Some (n', es)"
    and "\<forall>(v, i) \<in> set inputs. \<not> begins i"
  shows "length (filter is_archive es) \<le> 1 \<and>
    (\<forall>c. mh_core h = Some c \<and> co_archived_session_timestamp c = co_session_timestamp c \<longrightarrow> filter is_archive es = [])"
proof -
  have "length (filter is_archive es) \<le> node_credit h"
    using archive_account.run [OF assms] by simp
  moreover have "node_credit h \<le> 1" by (simp add: node_credit_def credit_def split: option.split)
  ultimately show ?thesis by (auto simp: node_credit_def credit_def)
qed

theorem session_archived_once_witness:
  "\<exists>n' es. node_run [(ex_henv, Message (VDict [(''type'', VStr CMD_STOP_STREAM_FOR_ALL)])), (ex_henv, ThreadStep 0)]
     (ex_handler, []) = Some (n', es) \<and> filter is_archive es = [CArchive (VStr ''t1'')] \<and> length (filter is_archive es) \<le> 1"
proof -
  let ?xs = "[(ex_henv, Message (VDict [(''type'', VStr CMD_STOP_STREAM_FOR_ALL)])), (ex_henv, ThreadStep 0)]"
  have "case node_run ?xs (ex_handler, []) of None \<Rightarrow> False | Some (n', es) \<Rightarrow> filter is_archive es = [CArchive (VStr ''t1'')]"
    by code_simp
  then obtain n' es where run: "node_run ?xs (ex_handler, []) = Some (n', es)"
    and es: "filter is_archive es = [CArchive (VStr ''t1'')]"
    by (auto split: option.splits)
  have "\<forall>(v, i) \<in> set ?xs. \<not> begins i"
    by (simp add: begins_def begins_session_def val_simps)
  from session_archived_once [OF run this] run es show ?thesis by blast
qed

end
