(* ===== verification/Core_Commit.thy ===== *)
theory Core_Commit
  imports Core_Run
begin

text \<open>
  A coordinated stream stays quiet until the global commit: the invariant \<open>quiet\<close> of the core and what
  it forbids, kept by every operation but the starts and the commit itself.
\<close>

text \<open>Effects that persist, compute or route acquired data.\<close>

fun official_output :: "ceffect \<Rightarrow> bool" where
  "official_output (CEnqueueBlock a b) = True"
| "official_output (CComputeSample x) = True"
| "official_output (CWriteResult a r) = True"
| "official_output (CWriteIntermediate sid algo r) = True"
| "official_output CEnableRouting = True"
| "official_output _ = False"

abbreviation silent :: "ceffect \<Rightarrow> bool" where
  "silent eff \<equiv> \<not> official_output eff"

definition unbuffered :: "subject \<Rightarrow> bool" where
  "unbuffered sub \<longleftrightarrow> (\<forall>en \<in> set (sb_sensors sub). se_raw_data en = [])"

definition no_buffers :: "subject list \<Rightarrow> bool" where
  "no_buffers subs \<longleftrightarrow> list_all unbuffered subs"

definition quiet :: "core \<Rightarrow> bool" where
  "quiet s \<longleftrightarrow> \<not> co_official_outputs_active s \<and> co_stream_phase s \<noteq> ''official_streaming'' \<and> no_buffers (co_subjects s) \<and>
     (coordinated s \<and> \<not> co_official_commit_received s \<or> co_startup_addresses s = [])"

abbreviation calm :: "core_action \<Rightarrow> core \<Rightarrow> bool" where
  "calm \<equiv> ok quiet silent"

lemma silent_out: "silent eff \<Longrightarrow> quiet s \<Longrightarrow> calm (out eff) s"
  by (simp add: ok_out)

section \<open>Buffers\<close>

lemma unbuffered_streaming [simp]: "unbuffered (sub\<lparr>sb_is_streaming := b\<rparr>) = unbuffered sub"
  by (simp add: unbuffered_def)

lemma unbuffered_cleared [simp]: "unbuffered (empty_buffers sub)" "unbuffered (clear_raw_data sub)"
  by (auto simp: unbuffered_def empty_buffers_def clear_raw_data_def)

lemma unbuffered_add [simp]: "unbuffered (add_sensor en sub) = unbuffered sub"
  by (auto simp: unbuffered_def add_sensor_def)

lemma no_buffers_simps [simp]: "no_buffers []" "no_buffers (sub # subs) \<longleftrightarrow> unbuffered sub \<and> no_buffers subs"
  "no_buffers (xs @ ys) \<longleftrightarrow> no_buffers xs \<and> no_buffers ys"
  by (auto simp: no_buffers_def)

lemma no_buffers_map: "no_buffers subs \<Longrightarrow> (\<And>sub. unbuffered sub \<Longrightarrow> unbuffered (f sub)) \<Longrightarrow> no_buffers (map f subs)"
  by (induction subs) auto

lemma no_buffers_first:
  "no_buffers subs \<Longrightarrow> (\<And>sub. unbuffered sub \<Longrightarrow> unbuffered (f sub)) \<Longrightarrow> no_buffers (modify_first sid f subs)"
  by (induction subs) auto

lemma no_buffers_targets:
  "no_buffers subs \<Longrightarrow> (\<And>sub. unbuffered sub \<Longrightarrow> unbuffered (f sub)) \<Longrightarrow> no_buffers (modify_targets tg f subs)"
  unfolding modify_targets_def
  by (cases tg) (auto intro!: no_buffers_map fold_invariant [where P = no_buffers and Q = "\<lambda>_. True"] no_buffers_first)

lemma add_sensors_empty:
  "unbuffered sub \<Longrightarrow> unbuffered (fold (\<lambda>loc. add_sensor (new_entry cls c loc)) locs sub)"
  by (induction locs arbitrary: sub) simp_all

lemma build_sensors_empty: "build_sensors resolve sid confs sub = Inr sub' \<Longrightarrow> unbuffered sub \<Longrightarrow> unbuffered sub'"
  by (induction confs arbitrary: sub) (auto simp: rbind_def add_sensors_empty split: option.splits if_splits sum.splits)

lemma build_subject_empty: "build_subject resolve c = Inr sub \<Longrightarrow> unbuffered sub"
  by (auto simp: build_subject_def rbind_def Let_def split: option.splits sum.splits
      dest!: build_sensors_empty) (simp add: unbuffered_def new_subject_def)

lemma init_each_empty: "init_each resolve confs g = (g', f) \<Longrightarrow> no_buffers (sg_subjects g) \<Longrightarrow> no_buffers (sg_subjects g')"
  by (induction confs arbitrary: g) (auto split: sum.splits dest: build_subject_empty)

lemma init_subjects_empty: "init_subjects resolve confs g = (g', f) \<Longrightarrow> no_buffers (sg_subjects g')"
  by (auto simp: init_subjects_def Let_def split: sum.splits if_splits dest: init_each_empty)

section \<open>Operations\<close>

lemma calm_call: "silent eff \<Longrightarrow> quiet s \<Longrightarrow> calm (call x eff) s"
  by (auto simp: call_def ok_simps split: option.split)

lemma calm_emit: "quiet s \<Longrightarrow> calm (emit_event e ty pl) s"
  by (simp add: emit_event_def ok_simps)

lemma calm_startup_event: "quiet s \<Longrightarrow> calm (emit_startup_event ty ph r) s"
  by (simp add: emit_startup_event_def ok_simps)

lemma calm_set_phase: "quiet s \<Longrightarrow> ph \<noteq> ''official_streaming'' \<Longrightarrow> calm (set_phase ph) s"
  by (simp add: set_phase_def ok_simps quiet_def coordinated_def)

lemma calm_archive: "quiet s \<Longrightarrow> calm finalize_session_archive s"
  by (simp add: finalize_session_archive_def ok_simps quiet_def coordinated_def)

lemma calm_get_subjects: "quiet s \<Longrightarrow> (\<And>subs. calm (k subs) s) \<Longrightarrow> calm (get_subjects_by_ids_then sids k) s"
  by (simp add: get_subjects_by_ids_then_def Let_def ok_simps)

lemma calm_guards: "quiet s \<Longrightarrow> calm ensure_recovery_idle s" "quiet s \<Longrightarrow> calm ensure_disconnect_allowed s"
  by (simp_all add: ensure_recovery_idle_def ensure_disconnect_allowed_def ok_simps)

lemma calm_end: "quiet s \<Longrightarrow> calm end_operation s"
  by (simp add: end_operation_def ok_simps quiet_def coordinated_def)

lemmas calm_basic = ok_structure ok_seq ok_catch ok_for_each calm_call calm_emit calm_startup_event calm_set_phase calm_archive
  calm_get_subjects calm_guards calm_end silent_out

lemma calm_prepare: "quiet s \<Longrightarrow> calm (prepare_official_persistence e) s"
  unfolding prepare_official_persistence_def
  by (intro ok_query ok_for_each)
    (auto simp: prepare_subject_def Let_def ok_simps quiet_def coordinated_def intro!: ok_structure)

lemma calm_failed: "quiet s \<Longrightarrow> calm (startup_failed e r) s"
  unfolding startup_failed_def stop_startup_sensors_def
  by (intro calm_basic ok_upd) (auto simp: quiet_def coordinated_def)

text \<open>A gate can only pass with sensors to wait for, and then the stream is coordinated.\<close>

lemma calm_gate_pass: "quiet s \<Longrightarrow> all_stable s \<Longrightarrow> calm (gate_pass e token) s"
  by (simp add: gate_pass_def ok_simps set_phase_def quiet_def all_stable_def coordinated_def)

lemma calm_gate_timeout: "quiet s \<Longrightarrow> calm (gate_timeout e token) s"
  unfolding gate_timeout_def stop_startup_sensors_def
  by (intro calm_basic ok_upd calm_failed) (auto simp: quiet_def coordinated_def)

lemma calm_gate: "quiet s \<Longrightarrow> calm (gate_step e token stage) s"
proof (cases stage)
  case GSettle
  then show "quiet s \<Longrightarrow> ?thesis" by (simp add: ok_simps)
next
  case GWatch
  then show "quiet s \<Longrightarrow> ?thesis" by (simp add: ok_simps calm_gate_timeout calm_gate_pass)
next
  case GPrepare
  then show "quiet s \<Longrightarrow> ?thesis" by (auto intro!: calm_basic calm_prepare calm_failed)
next
  case GReady
  then show "quiet s \<Longrightarrow> ?thesis" by (auto intro!: calm_basic)
qed

lemma calm_retry: "quiet s \<Longrightarrow> calm (schedule_startup_retry e token) s"
  unfolding schedule_startup_retry_def
  by (intro calm_basic ok_upd) (auto simp: quiet_def coordinated_def)

lemma calm_started: "quiet s \<Longrightarrow> calm (on_stream_started e addresses) s"
  unfolding on_stream_started_def Let_def
  by (intro calm_basic) auto

lemma calm_cleanup: "quiet s \<Longrightarrow> calm (cleanup_failed_startup_session e) s"
  unfolding cleanup_failed_startup_session_def Let_def emit_stream_drained_def
  by (intro calm_basic ok_upd) (auto simp: quiet_def coordinated_def intro!: no_buffers_map)

lemma calm_stopped: "quiet s \<Longrightarrow> calm (on_stream_stopped e addresses) s"
  unfolding on_stream_stopped_def Let_def
  by (intro calm_basic calm_cleanup) auto

lemma calm_result: "quiet s \<Longrightarrow> calm (on_compute_result e r) s"
  by (simp add: on_compute_result_def ok_simps quiet_def)

lemma calm_data: "quiet s \<Longrightarrow> on_data e x s = Some (s', es) \<Longrightarrow> quiet s' \<and> es = []"
  by (auto simp: on_data_def Let_def observe_sample_def official_streaming_def quiet_def coordinated_def split: if_splits)

subsection \<open>Stop\<close>

lemma calm_stop_failed: "quiet s \<Longrightarrow> calm (stop_failed e tg sids ctx x) s"
  unfolding stop_failed_def emit_stream_drained_def
  by (intro calm_basic ok_upd) (auto simp: quiet_def coordinated_def)

lemma quiet_cleared: "quiet s \<Longrightarrow> ph \<noteq> ''official_streaming'' \<Longrightarrow> quiet (clear_startup_gate_state ph s)"
  by (simp add: quiet_def clear_startup_gate_state_def)

lemma calm_stop_finally: "quiet s \<Longrightarrow> calm (stop_finally sids) s"
  unfolding stop_finally_def
  by (intro calm_basic ok_upd quiet_cleared) (auto simp: quiet_def coordinated_def)

lemma quiet_stop_requested: "quiet s \<Longrightarrow> quiet (stop_requested sids s)"
  by (auto simp: stop_requested_def Let_def quiet_def coordinated_def)

lemma calm_stop_sensors: "quiet s \<Longrightarrow> calm (stop_sensors e tg subs) s"
  unfolding stop_sensors_def
  by (intro calm_basic ok_upd) (auto simp: quiet_def coordinated_def)

lemma calm_stop_begin: "quiet s \<Longrightarrow> calm (stop_begin e tg ctx) s"
  unfolding stop_begin_def Let_def
  by (intro calm_basic ok_upd quiet_stop_requested calm_stop_sensors calm_stop_failed calm_stop_finally) auto

text \<open>A quiet core has nothing to flush.\<close>

lemma calm_flush_subject: "quiet s \<Longrightarrow> unbuffered sub \<Longrightarrow> calm (flush_subject sub) s"
  unfolding flush_subject_def by (intro ok_for_each) (auto simp: unbuffered_def ok_simps)

lemma no_buffersD: "no_buffers subs \<Longrightarrow> sub \<in> set subs \<Longrightarrow> unbuffered sub"
  by (simp add: no_buffers_def list_all_iff)

lemma find_subject_unbuffered: "quiet s \<Longrightarrow> find_subject s sid = Some sub \<Longrightarrow> unbuffered sub"
  by (auto simp: find_subject_def quiet_def find_Some_iff intro: no_buffersD)

lemma quiet_subjects: "quiet s \<Longrightarrow> no_buffers subs \<Longrightarrow> quiet (s\<lparr>co_subjects := subs\<rparr>)"
  by (auto simp: quiet_def coordinated_def)

lemma quiet_no_buffers: "quiet s \<Longrightarrow> no_buffers (co_subjects s)"
  by (simp add: quiet_def)

lemma calm_flush: "quiet s \<Longrightarrow> calm (flush_pending_samples tg) s"
proof (cases tg)
  case None
  then show "quiet s \<Longrightarrow> ?thesis" unfolding flush_pending_samples_def option.case
    by (intro calm_basic ok_upd quiet_subjects no_buffers_map calm_flush_subject)
      (auto dest: quiet_no_buffers intro: no_buffersD)
next
  case (Some sids)
  then show "quiet s \<Longrightarrow> ?thesis" unfolding flush_pending_samples_def Some option.case
    by (intro calm_basic ok_upd quiet_subjects no_buffers_first calm_flush_subject)
      (auto dest: quiet_no_buffers find_subject_unbuffered)
qed

lemma calm_consolidate: "quiet s \<Longrightarrow> calm (consolidate e sids) s"
  by (cases "ce_consolidation e") (auto simp: consolidate_def ok_simps intro!: calm_basic)

lemma calm_close: "quiet s \<Longrightarrow> calm (close_outputs tg) s"
  unfolding close_outputs_def
  by (intro calm_basic ok_upd quiet_subjects no_buffers_targets) (auto dest: quiet_no_buffers)

lemma calm_finalize: "quiet s \<Longrightarrow> calm (finalize_stop e tg sids ctx rs err) s"
  unfolding finalize_stop_def Let_def emit_stream_drained_def
  by (intro calm_basic ok_upd) (auto simp: quiet_def coordinated_def)

lemma quiet_results: "quiet s \<Longrightarrow> quiet (record_stop_results rs s)"
  by (auto simp: record_stop_results_def Let_def quiet_def coordinated_def)

lemma calm_stop_body: "quiet s \<Longrightarrow> calm (stop_body e tg sids ctx) s"
  unfolding stop_body_def Let_def
  by (auto simp: ok_simps split: prod.split
      intro!: ok_seq calm_flush calm_consolidate calm_close ok_upd quiet_results calm_finalize silent_out)

lemma calm_stop_finish: "quiet s \<Longrightarrow> calm (stop_finish e tg sids ctx) s"
  unfolding stop_finish_def always_def
  by (intro calm_basic calm_stop_body calm_stop_failed calm_stop_finally)

subsection \<open>Configuration, recovery, connection\<close>

lemma calm_init_subjects: "quiet s \<Longrightarrow> calm (init_subjects_of_core e confs) s"
  by (auto simp: init_subjects_of_core_def ok_simps split: prod.split option.split
      intro!: quiet_subjects dest: init_subjects_empty)

lemma calm_install: "quiet s \<Longrightarrow> calm (install e label app_id app_name) s"
  unfolding install_def
  by (intro calm_basic ok_upd)
    (auto simp: quiet_def coordinated_def set_session_label_def Let_def split: option.split)

lemma quiet_rollback: "quiet s \<Longrightarrow> quiet t \<Longrightarrow> quiet (rollback s t)"
  by (simp add: rollback_def quiet_def coordinated_def)

lemma calm_init: "quiet s \<Longrightarrow> calm (init_core e confs label app_id app_name em) s"
  unfolding init_core_def init_guards_def
  by (intro calm_basic ok_upd calm_init_subjects calm_install quiet_rollback) (auto simp: quiet_def coordinated_def)

lemma calm_cleanup_complete: "quiet s \<Longrightarrow> calm (core_on_cleanup_complete e pl) s"
  unfolding core_on_cleanup_complete_def by (intro calm_basic)

lemma calm_complete_reset: "quiet s \<Longrightarrow> calm (complete_reset e r) s"
  unfolding complete_reset_def
  by (intro calm_basic ok_upd calm_cleanup_complete) (auto simp: quiet_def coordinated_def)

lemma calm_reset: "quiet s \<Longrightarrow> calm (core_reset_session e ctx) s"
  unfolding core_reset_session_def Let_def
  by (intro calm_basic ok_upd calm_complete_reset) (auto simp: quiet_def coordinated_def)

lemma quiet_recovered: "quiet s \<Longrightarrow> quiet (recovered r s)"
  by (simp add: quiet_def recovered_def clear_startup_gate_state_def)

lemma calm_recovery: "quiet s \<Longrightarrow> calm (finish_recovery e ctx) s"
proof -
  assume q: "quiet s"
  have "calm (case ce_recovery e of Inl x \<Rightarrow> skip | Inr r \<Rightarrow> upd (recovered r)) s"
    using q by (cases "ce_recovery e") (simp_all add: ok_simps quiet_recovered)
  then show ?thesis unfolding finish_recovery_def Let_def
    by (rule ok_seq) (intro calm_basic ok_upd calm_cleanup_complete calm_complete_reset; auto simp: quiet_def coordinated_def)
qed

lemma calm_connection:
  assumes "quiet s"
  shows "calm (disconnect_all e ctx) s" "calm (disconnect_subjects e sids ctx) s" "calm (discover_sensors e) s"
    "calm (discover_sensors_for_subjects e sids ex) s" "calm (start_connection_sequence pl) s" "calm (connect_all e) s"
    "calm (connect_subjects e sids) s" "calm (on_discover e pl) s" "calm (core_identify_sensor e sid loc) s"
  using assms
  unfolding disconnect_all_def disconnect_subjects_def discover_sensors_def discover_sensors_for_subjects_def
      start_connection_sequence_def connect_all_def connect_subjects_def on_discover_def core_identify_sensor_def Let_def announce_cleanup_then_def
  by (intro calm_basic ok_upd calm_reset; auto simp: quiet_def coordinated_def)+

section \<open>The node\<close>

definition quiet_node :: "handler \<Rightarrow> bool" where
  "quiet_node h \<longleftrightarrow> (\<forall>c. mh_core h = Some c \<longrightarrow> quiet c)"

lemma quiet_node_update [simp]: "quiet_node (h\<lparr>mh_core := Some c\<rparr>) = quiet c"
  "quiet_node (h\<lparr>mh_core := Some c, mh_is_ready := b\<rparr>) = quiet c"
  by (simp_all add: quiet_node_def)

lemma calm_on_core: "(\<And>c. quiet c \<Longrightarrow> calm a c) \<Longrightarrow> quiet_node h \<Longrightarrow> ok quiet_node silent (on_core a) h"
  by (fastforce simp: ok_def on_core_def quiet_node_def split: option.splits prod.splits)

text \<open>The host's commands, on any state.\<close>

lemma ok_error: "I s \<Longrightarrow> ok I silent (emit_error corr m) s"
  by (simp add: emit_error_def ok_simps)

lemma ok_host_call: "I s \<Longrightarrow> ok I silent (host_call sv what pl) s"
  by (auto simp: host_call_def ok_simps split: option.split)

lemma ok_init_failed: "I s \<Longrightarrow> ok I silent (initialization_failed node corr iid x conf) s"
  by (simp add: initialization_failed_def Let_def ok_simps)

lemma ok_connection_step: "(\<And>t. I t \<Longrightarrow> ok I silent a t) \<Longrightarrow> I s \<Longrightarrow> ok I silent (handle_connection_step a node ty pl) s"
  unfolding handle_connection_step_def Let_def by (intro ok_structure ok_seq ok_catch ok_out) auto

lemma ok_unknown: "I s \<Longrightarrow> ok I silent (unknown_command ty) s"
  by (simp add: unknown_command_def ok_simps)

lemma ok_robot: "I s \<Longrightarrow> ok I silent (robot_command v what ty msg st corr) s"
  unfolding robot_command_def by (intro ok_structure ok_seq ok_catch ok_out ok_error ok_host_call) auto

lemmas ok_host_steps = ok_error ok_host_call ok_init_failed ok_connection_step ok_unknown ok_robot

lemma ok_host: "host_command v site ready ty pl = Some a \<Longrightarrow> I s \<Longrightarrow> ok I silent a s"
  by (auto simp: host_command_def Let_def usb_unsupported_def ok_simps intro!: ok_robot split: if_splits option.splits)

subsection \<open>Steps and callbacks\<close>

lemma calm_connection_event: "quiet s \<Longrightarrow> calm (emit_connection_event e ty pl) s"
  by (simp add: emit_connection_event_def ok_simps)

lemma calm_execute_step: "quiet s \<Longrightarrow> calm (execute_connection_step e command pl) s"
  unfolding execute_connection_step_def Let_def
  by (cases "step_subject pl") (auto intro!: calm_basic)

lemma calm_battery: "quiet s \<Longrightarrow> calm (check_battery e pl) s" "quiet s \<Longrightarrow> calm (emit_battery_results e) s"
  unfolding check_battery_def emit_battery_results_def
  by (intro calm_basic ok_upd; auto simp: quiet_def coordinated_def)
    (cases "ce_battery_summary e", auto intro!: calm_basic ok_upd simp: quiet_def coordinated_def)

lemma calm_step_completed: "quiet s \<Longrightarrow> calm (step_completed e d pl sid r) s"
  unfolding step_completed_def Let_def
  by (intro calm_basic calm_connection_event) auto

lemma calm_callback: "quiet s \<Longrightarrow> calm (callback_action e cb) s"
proof (cases cb)
  case (StepCompleted d pl sid r)
  then show "quiet s \<Longrightarrow> ?thesis" by (simp add: calm_step_completed)
qed (auto simp: on_connected_def on_disconnected_def on_intermediate_result_def on_compute_performance_def on_identify_def on_battery_def
      on_diagnostics_def on_error_def identified_def Let_def ok_simps quiet_def coordinated_def emit_event_def end_operation_def
      emit_connection_event_def split: option.splits)

definition opens_outputs :: "string \<Rightarrow> bool" where
  "opens_outputs ty \<longleftrightarrow> ty \<in> {CMD_START_STREAM_FOR_ALL, CMD_START_STREAM_FOR_SUBJECTS, CMD_START_OFFICIAL_STREAM}"

lemma calm_attempt: "quiet s \<Longrightarrow> (\<And>c. quiet c \<Longrightarrow> calm a c) \<Longrightarrow> calm (guarded_command corr what a) s"
  unfolding guarded_command_def by (intro calm_basic ok_upd ok_error) (auto simp: quiet_def coordinated_def)

lemma calm_keyed: "quiet s \<Longrightarrow> (\<And>v. calm (k v) s) \<Longrightarrow> calm (keyed pl key k) s"
  by (auto simp: keyed_def ok_simps split: option.split)

lemma calm_stops: "quiet s \<Longrightarrow> calm (stop_stream e ctx) s" "quiet s \<Longrightarrow> calm (stop_stream_for_subjects e sids ctx) s"
  unfolding stop_stream_def stop_stream_for_subjects_def by (intro calm_get_subjects calm_stop_begin, assumption+)+

lemma calm_handle_init: "quiet s \<Longrightarrow> calm (handle_init v pl) s"
  unfolding handle_init_def Let_def
  by (intro calm_basic ok_upd ok_init_failed calm_init) (auto simp: quiet_def coordinated_def)

lemma calm_command: "core_command v ty pl = Some a \<Longrightarrow> \<not> opens_outputs ty \<Longrightarrow> quiet s \<Longrightarrow> calm a s"
  by (auto simp: core_command_def Let_def opens_outputs_def split: if_splits
      intro!: calm_handle_init calm_attempt calm_keyed calm_connection calm_stops calm_battery silent_out)

lemma calm_handle_with_core: "\<not> opens_outputs ty \<Longrightarrow> quiet s \<Longrightarrow> calm (handle_with_core v ready ty pl) s"
  unfolding handle_with_core_def Let_def
  by (intro ok_structure ok_host_steps calm_connection) (auto dest: ok_host calm_command intro: calm_execute_step)

lemma calm_finish_stop: "quiet s \<Longrightarrow> calm (finish_stop_command v tg sids pl) s"
  unfolding finish_stop_command_def
  by (intro calm_basic ok_upd ok_host_steps calm_stop_finish) (auto simp: quiet_def coordinated_def)

lemma calm_thread: "quiet s \<Longrightarrow> calm (thread_action v t) s"
  by (cases t) (auto simp: thread_action_def intro: calm_gate calm_retry calm_finish_stop calm_recovery calm_battery)

lemma quiet_new_core: "quiet (new_core site node)"
  by (simp add: quiet_def new_core_def)

lemma calm_without_core: "quiet_node h \<Longrightarrow> ok quiet_node silent (handle_without_core v h ty pl) h"
  unfolding handle_without_core_def
  by (intro ok_structure ok_host_steps) (auto dest: ok_host)

lemma calm_handle_local: "\<not> opens_outputs ty \<Longrightarrow> quiet_node h \<Longrightarrow> ok quiet_node silent (handle_local_command v ty pl) h"
  by (auto simp: handle_local_command_def ok_simps setup_system_def quiet_new_core split: option.split
      intro!: calm_without_core calm_on_core calm_handle_with_core)

lemma calm_handle: "\<not> opens_outputs (py_str (vget m ''type'')) \<Longrightarrow> quiet_node h \<Longrightarrow> ok quiet_node silent (handle v m) h"
  by (simp add: handle_def ok_simps calm_handle_local)

definition opens :: "ninput \<Rightarrow> bool" where
  "opens i \<longleftrightarrow> (case i of Message m \<Rightarrow> opens_outputs (py_str (vget m ''type'')) | _ \<Rightarrow> False)"

lemma perform_calm: "ok quiet_node silent a (fst n) \<Longrightarrow> perform a n = (n', es) \<Longrightarrow> quiet_node (fst n') \<and> (\<forall>f \<in> set es. silent f)"
  by (auto simp: perform_def ok_def split: prod.splits)

lemma no_buffers_update: "no_buffers subs \<Longrightarrow> unbuffered sub \<Longrightarrow> no_buffers (subs[i := sub])"
  by (induction subs arbitrary: i) (auto split: nat.split)

lemma quiet_give_address: "quiet s \<Longrightarrow> quiet (give_address i j a s)"
proof -
  assume q: "quiet s"
  let ?sub = "co_subjects s ! i"
  have "unbuffered (?sub\<lparr>sb_sensors := (if j < length (sb_sensors ?sub)
      then (sb_sensors ?sub)[j := (sb_sensors ?sub ! j)\<lparr>se_address := Some a\<rparr>] else sb_sensors ?sub)\<rparr>)"
    if "i < length (co_subjects s)"
    using no_buffersD [OF quiet_no_buffers [OF q] nth_mem [OF that]]
    by (auto simp: unbuffered_def dest!: subsetD [OF set_update_subset_insert])
  then show ?thesis using q quiet_no_buffers [OF q] unfolding give_address_def
    by (cases "i < length (co_subjects s)") (simp_all add: quiet_subjects no_buffers_update)
qed

lemma node_step_calm:
  assumes "node_step v i n = Some (n', es)" and "\<not> opens i" and "quiet_node (fst n)"
  shows "quiet_node (fst n') \<and> (\<forall>f \<in> set es. silent f)"
proof (cases i)
  case (Data x)
  show ?thesis
  proof (cases "mh_core (fst n)")
    case None
    then show ?thesis using Data assms(1,3) by (simp add: node_step_def deliver_sample_def)
  next
    case (Some c)
    with Data assms(1) obtain c' where on: "on_data (he_core v) x c = Some (c', es)"
      and n': "n' = ((fst n)\<lparr>mh_core := Some c'\<rparr>, snd n)"
      by (auto simp: node_step_def deliver_sample_def)
    from assms(3) Some have "quiet c" by (simp add: quiet_node_def)
    from calm_data [OF this on] n' show ?thesis by simp
  qed
next
  case (Message m)
  with assms(2,3) have "ok quiet_node silent (handle v m) (fst n)"
    by (auto simp: opens_def intro: calm_handle)
  then show ?thesis using assms(1,3) Message
    by (auto simp: node_step_def split: if_splits dest!: perform_calm [rotated])
next
  case (ThreadStep k)
  have "ok quiet_node silent (on_core (thread_action v t)) (fst n)" for t
    using assms(3) by (intro calm_on_core calm_thread)
  then show ?thesis using assms(1,3) ThreadStep
    by (auto simp: node_step_def split: if_splits dest!: perform_calm [rotated])
next
  case (AddressGiven j k a)
  have "ok quiet_node silent (on_core (upd (give_address j k a))) (fst n)"
    using assms(3) by (intro calm_on_core ok_upd quiet_give_address)
  then show ?thesis using assms(1,3) AddressGiven
    by (auto simp: node_step_def split: if_splits dest!: perform_calm [rotated])
qed (use assms in \<open>auto simp: node_step_def dest!: perform_calm [rotated]
       intro: calm_on_core calm_started calm_stopped calm_result calm_connection calm_callback\<close>)

interpretation quiet_run: run_relation "\<lambda>i. \<not> opens i"
  "\<lambda>n es n'. quiet_node (fst n) \<longrightarrow> quiet_node (fst n') \<and> (\<forall>f \<in> set es. silent f)"
  by unfold_locales (auto dest: node_step_calm)

lemma coordinated_start_quiet:
  assumes "start_stream e payload c = (c', fs, None)" and "vget payload ''official_start_mode'' = VStr ''coordinated''"
  shows "quiet c'"
proof -
  have mode: "vget_or payload ''official_start_mode'' d = VStr ''coordinated''" for d
    using assms(2) by (auto simp: vget_def vget_or_def split: option.splits)
  have "no_buffers (map clear_raw_data subs)" for subs
    by (induction subs) simp_all
  then show ?thesis using assms(1) mode
    by (auto simp: start_stream_def begin_start_def ensure_recovery_idle_def query_def seq_def raise_def skip_def upd_def out_def
        set_phase_def launch_def call_def new_session_def reset_startup_gate_state_def modify_targets_def quiet_def coordinated_def
        split: if_splits option.splits)
qed


definition ex_reading :: "string \<Rightarrow> int \<Rightarrow> reading" where
  "ex_reading a i = \<lparr>rd_sample = \<lparr>sa_address = a, sa_data = VInt i\<rparr>, rd_timestamp = Some i, rd_sampling_rate = Some 1\<rparr>"

definition ex_coordinated :: val where
  "ex_coordinated = VDict [(''official_start_mode'', VStr ''coordinated''), (''start_session_id'', VStr ''x'')]"

definition ex_before_commit :: "(henv \<times> ninput) list" where
  "ex_before_commit = [(ex_henv, StreamStarted [''A'']), (ex_henv, Data (ex_reading ''A'' 1)), (ex_henv, ThreadStep 0),
     (ex_henv, Message (VDict [(''type'', VStr CMD_STOP_STREAM_FOR_ALL)])), (ex_henv, ThreadStep 1)]"

definition ex_started :: "core \<times> ceffect list \<times> string option" where
  "ex_started = start_stream ex_env ex_coordinated ex_core"


end
