(* ===== verification/Core_Stop.thy ===== *)
theory Core_Stop
  imports Core_Run
begin

text \<open>
  What a stop guarantees: it is over when it returns or raises, it announces its end exactly once, and
  the announcement tells the truth about the sensors and the data.
\<close>

section \<open>Execution of the parts\<close>

lemma seq_normal: "a s = (s', es, None) \<Longrightarrow> seq a b s = (case b s' of (s'', fs, x) \<Rightarrow> (s'', es @ fs, x))"
  by (simp add: seq_def)

lemma seq_raised: "a s = (s', es, Some x) \<Longrightarrow> seq a b s = (s', es, Some x)"
  by (simp add: seq_def)

lemma for_each_out: "for_each xs (\<lambda>x. out (f x)) s = (s, map f xs, None)"
  by (induction xs) (simp_all add: skip_def seq_def out_def)

lemma for_each_const: "(\<And>x. x \<in> set xs \<Longrightarrow> g x s = (s, h x, None)) \<Longrightarrow> for_each xs g s = (s, concat (map h xs), None)"
  by (induction xs) (simp_all add: skip_def seq_def)

definition tail_blocks :: "subject \<Rightarrow> ceffect list" where
  "tail_blocks sub = concat (map (\<lambda>en. if se_raw_data en = [] then []
     else [CEnqueueBlock (case se_address en of None \<Rightarrow> [] | Some a \<Rightarrow> a) (se_raw_data en)]) (sb_sensors sub))"

lemma flush_subject_exec: "flush_subject sub s = (s, tail_blocks sub, None)"
  unfolding flush_subject_def tail_blocks_def by (rule for_each_const) (simp add: skip_def out_def)

lemma flush_all_exec:
  "flush_pending_samples None s =
     (s\<lparr>co_subjects := map empty_buffers (co_subjects s)\<rparr>, concat (map tail_blocks (co_subjects s)), None)"
  by (simp add: flush_pending_samples_def query_def seq_def for_each_const [where h = tail_blocks] flush_subject_exec upd_def)

definition consolidated_events :: "cenv \<Rightarrow> core \<Rightarrow> val list \<Rightarrow> ceffect list" where
  "consolidated_events e s pls = (if ce_bus e then map (\<lambda>pl. CEmit EVT_CONSOLIDATED_RESULT
     (if is_dict pl then VDict (dmerge (as_dict pl)
        (event_context s (if truthy (vget pl ''subject_id'') then [py_str (vget pl ''subject_id'')] else []))) else pl)) pls else [])"

lemma consolidate_exec:
  "consolidate e sids s = (case ce_consolidation e of
     Inl x \<Rightarrow> (s, [CConsolidate sids], Some x)
   | Inr pls \<Rightarrow> (s, CConsolidate sids # CMarkPartial sids # consolidated_events e s pls, None))"
proof (cases "ce_consolidation e")
  case (Inr pls)
  have "for_each pls (\<lambda>pl. query (\<lambda>s. emit_event e EVT_CONSOLIDATED_RESULT (g s pl))) s =
      (s, if ce_bus e then map (\<lambda>pl. CEmit EVT_CONSOLIDATED_RESULT (g s pl)) pls else [], None)" for g
    by (subst for_each_const [where h = "\<lambda>pl. if ce_bus e then [CEmit EVT_CONSOLIDATED_RESULT (g s pl)] else []"])
      (auto simp: query_def emit_event_def out_def skip_def concat_map_singleton)
  with Inr show ?thesis by (simp add: consolidate_def seq_def out_def consolidated_events_def)
qed (simp add: consolidate_def seq_def out_def raise_def)

lemma close_all_exec:
  "close_outputs None s = (s\<lparr>co_subjects := map (\<lambda>sub. sub\<lparr>sb_is_streaming := False\<rparr>) (co_subjects s)\<rparr>,
     map (\<lambda>sub. CFileStop (sb_subject_id sub)) (co_subjects s), None)"
  by (simp add: close_outputs_def query_def seq_def for_each_out upd_def targets_def modify_targets_def)

text \<open>The state when the outputs are closed.\<close>

definition all_closed :: "val list \<Rightarrow> core \<Rightarrow> core" where
  "all_closed rs s = record_stop_results rs (s\<lparr>co_subjects := map (\<lambda>sub. (empty_buffers sub)\<lparr>sb_is_streaming := False\<rparr>) (co_subjects s)\<rparr>)"

lemma all_closed_not_streaming: "\<not> has_active_streams (all_closed rs s)"
  by (auto simp: all_closed_def record_stop_results_def Let_def has_active_streams_def)

lemma stop_all_body_exec:
  assumes "physical_stop (addresses_of (co_subjects s)) (ce_stop e) = (rs, err)"
  shows "stop_body e None sids ctx s = (case ce_consolidation e of
     Inl x \<Rightarrow> (s\<lparr>co_subjects := map empty_buffers (co_subjects s)\<rparr>,
               concat (map tail_blocks (co_subjects s)) @ [CFlush, CConsolidate sids], Some x)
   | Inr pls \<Rightarrow> (case finalize_stop e None sids ctx rs err (all_closed rs s) of (s', es, x) \<Rightarrow>
       (s', concat (map tail_blocks (co_subjects s)) @ CFlush # CConsolidate sids # CMarkPartial sids #
          consolidated_events e (s\<lparr>co_subjects := map empty_buffers (co_subjects s)\<rparr>) pls @
          map (\<lambda>sub. CFileStop (sb_subject_id sub)) (map empty_buffers (co_subjects s)) @ es, x)))"
proof -
  have tg: "targets s None = co_subjects s" by (simp add: targets_def)
  have closed: "record_stop_results rs (s\<lparr>co_subjects := map (sb_is_streaming_update (\<lambda>_. False) \<circ> empty_buffers) (co_subjects s)\<rparr>)
      = all_closed rs s"
    by (simp add: all_closed_def comp_def)
  show ?thesis
    by (cases "ce_consolidation e")
      (simp_all add: stop_body_def query_def tg stop_answered_def assms seq_normal [OF flush_all_exec] seq_def [of "out _"] out_def
        seq_def [of "consolidate _ _"] consolidate_exec seq_normal [OF close_all_exec] seq_def [of "upd _"] upd_def closed
        split: prod.split)
qed

section \<open>The end of a stop\<close>

definition drained_payloads :: "ceffect list \<Rightarrow> val list" where
  "drained_payloads es = List.map_filter (\<lambda>eff. case eff of CEmit ty pl \<Rightarrow> if ty = EVT_STREAM_DRAINED then Some pl else None | _ \<Rightarrow> None) es"

lemma drain_events_simps [simp]: "drained_payloads [] = []" "drained_payloads (es @ fs) = drained_payloads es @ drained_payloads fs"
  "drained_payloads (eff # es) = (case eff of CEmit ty pl \<Rightarrow> if ty = EVT_STREAM_DRAINED then [pl] else [] | _ \<Rightarrow> []) @ drained_payloads es"
  by (auto simp: drained_payloads_def List.map_filter_def split: ceffect.split)

lemma no_drain_tail [simp]: "drained_payloads (concat (map tail_blocks subs)) = []"
proof -
  have "drained_payloads (tail_blocks sub) = []" for sub
    unfolding tail_blocks_def by (induction "sb_sensors sub") (auto simp: drained_payloads_def List.map_filter_def)
  then show ?thesis by (induction subs) simp_all
qed

lemma no_drain_files [simp]: "drained_payloads (map (\<lambda>sub. CFileStop (f sub)) subs) = []"
  by (induction subs) simp_all

lemma no_drain_consolidated [simp]: "drained_payloads (consolidated_events e s pls) = []"
  by (cases "ce_bus e") (simp_all add: consolidated_events_def, induction pls, simp_all)

lemma archive_exec:
  "\<exists>es a. finalize_session_archive s = (s\<lparr>co_archived_session_timestamp := a\<rparr>, es, None) \<and> drained_payloads es = []"
proof (cases "truthy (co_session_timestamp s) \<and> co_archived_session_timestamp s \<noteq> co_session_timestamp s")
  case True
  then show ?thesis
    by (auto simp: finalize_session_archive_def query_def seq_def out_def upd_def intro!: exI [of _ "co_session_timestamp s"])
next
  case False
  then have "finalize_session_archive s = (s\<lparr>co_archived_session_timestamp := co_archived_session_timestamp s\<rparr>, [], None)"
    by (simp add: finalize_session_archive_def query_def skip_def)
  then show ?thesis by (intro exI [of _ "[]"] exI [of _ "co_archived_session_timestamp s"]) simp
qed

text \<open>The announcement of a stop, by what it says of the sensors and of the data.\<close>

definition announces :: "bool \<Rightarrow> bool \<Rightarrow> val \<Rightarrow> bool" where
  "announces ok_status drained pl \<longleftrightarrow>
     vget pl ''drained'' = VBool drained \<and> vget pl ''status'' = VStr (if ok_status then ''ok'' else ''error'')"

lemma vget_dput: "vget (VDict (dput k v d)) k' = (if k = k' then v else vget (VDict d) k')"
  using vget_vput [of k v "VDict d" k'] by (simp add: vput_def)

lemma vget_add_key: "k \<noteq> k' \<Longrightarrow> vget (VDict (add_key k v b d)) k' = vget (VDict d) k'"
  by (simp add: add_key_def vget_dput)

lemma event_context_fresh: "k \<notin> {''subject_ids'', ''correlation_id'', ''app_name'', ''app_id'', ''site'', ''session_timestamp'',
   ''session_label'', ''session_name''} \<Longrightarrow> map_of (event_context s sids) k = None"
  by (simp add: event_context_def add_key_def)

lemma dmerge_fresh: "map_of e k = None \<Longrightarrow> map_of (dmerge d e) k = map_of d k"
  unfolding dmerge_def by (induction e arbitrary: d) (auto split: if_splits)

lemma drained_payload_announces:
  "announces st d (VDict (drained_payload s ctx scope sids (if st then ''ok'' else ''error'') reason d))"
proof -
  have "map_of (event_context s sids) ''drained'' = None" "map_of (event_context s sids) ''status'' = None"
    by (simp_all add: event_context_fresh)
  then show ?thesis
    by (simp add: announces_def drained_payload_def vget_add_key vget_def vget_or_def add_key_def dmerge_fresh)
qed

lemma finalize_all_exec:
  assumes "\<not> has_active_streams s" and "ce_bus e"
  shows "\<exists>a es pl. finalize_stop e tg sids ctx rs err s = (s\<lparr>co_archived_session_timestamp := a, co_finalization_pending := False\<rparr>,
      es @ [CEmit EVT_STREAM_DRAINED pl], None) \<and> drained_payloads es = [] \<and>
    announces (stop_error s err = None \<and> ce_raw_write_failures e = []) True pl"
proof -
  let ?good = "stop_error s err = None \<and> ce_raw_write_failures e = []"
  obtain es a where ar: "finalize_session_archive s = (s\<lparr>co_archived_session_timestamp := a\<rparr>, es, None)" "drained_payloads es = []"
    using archive_exec by blast
  have st: "(if stop_error s err \<noteq> None \<or> ce_raw_write_failures e \<noteq> [] then ''error'' else ''ok'') = (if ?good then ''ok'' else ''error'')"
    by simp
  define pl where "pl = add_key ''raw_write_failures'' (VList (map VStr (ce_raw_write_failures e))) (ce_raw_write_failures e \<noteq> [])
     (dput ''partial'' (VBool (stop_error s err \<noteq> None \<or> ce_raw_write_failures e \<noteq> []))
       (dput ''physical_stop_complete'' (VBool (stop_error s err = None)) (dput ''physical_stop_results'' (VList rs)
         (drained_payload s ctx (stop_scope tg) sids (if stop_error s err \<noteq> None \<or> ce_raw_write_failures e \<noteq> [] then ''error'' else ''ok'')
            (stop_reason (stop_error s err) (ce_raw_write_failures e)) True))))"
  have "announces ?good True (VDict pl)"
    using drained_payload_announces [of ?good True s ctx "stop_scope tg" sids]
    unfolding pl_def st announces_def by (simp add: vget_add_key vget_dput)
  moreover have "\<exists>a es. finalize_stop e tg sids ctx rs err s = (s\<lparr>co_archived_session_timestamp := a, co_finalization_pending := False\<rparr>,
      es @ [CEmit EVT_STREAM_DRAINED (VDict pl)], None) \<and> drained_payloads es = []"
  proof (cases "truthy (vget ctx ''stop_session_id'')")
    case True
    have "s\<lparr>co_finalization_pending := False\<rparr> = s\<lparr>co_archived_session_timestamp := co_archived_session_timestamp s, co_finalization_pending := False\<rparr>"
      by simp
    with True assms show ?thesis unfolding finalize_stop_def query_def Let_def pl_def [symmetric] emit_stream_drained_def emit_event_def
      by (intro exI [of _ "co_archived_session_timestamp s"]) (simp add: seq_def out_def upd_def)
  next
    case False
    with assms show ?thesis unfolding finalize_stop_def query_def Let_def pl_def [symmetric] emit_stream_drained_def emit_event_def
      by (intro exI [of _ a] exI [of _ "CFinalizeDiagnostics (co_session_timestamp s)
            (if stop_error s err \<noteq> None \<or> ce_raw_write_failures e \<noteq> [] then ''error'' else ''ok'')
            (stop_reason (stop_error s err) (ce_raw_write_failures e)) # es"]) (simp add: seq_def out_def upd_def ar)
  qed
  ultimately show ?thesis by blast
qed

lemma stop_finally_exec:
  "stop_finally sids s = (let t = s\<lparr>co_finalization_pending := False, co_active_subject_ids := None,
       co_stopping_subject_ids := filter (\<lambda>sid. sid \<notin> set sids) (co_stopping_subject_ids s)\<rparr> in
     (if \<not> has_active_streams s then clear_startup_gate_state ''idle'' t else t, [CUpdateScope (streaming_addresses t)], None))"
  by (simp add: stop_finally_def seq_def upd_def query_def out_def skip_def has_active_streams_def Let_def)

lemma stop_failed_exec:
  assumes "ce_bus e"
  shows "\<exists>pl. stop_failed e tg sids ctx x s = (s\<lparr>co_finalization_pending := False\<rparr>,
     [CSummary (co_session_timestamp s) ''drain_summary'', CEmit EVT_STREAM_DRAINED pl], Some x) \<and> announces False False pl"
  using assms drained_payload_announces [of False False "s\<lparr>co_finalization_pending := False\<rparr>" ctx "stop_scope tg" sids "Some x"]
  by (auto simp: stop_failed_def seq_def upd_def query_def out_def emit_stream_drained_def emit_event_def raise_def)



end
