(* ===== verification/Core_Acquisition.thy ===== *)
theory Core_Acquisition
  imports Core_Stop Subjects_Props
begin

text \<open>
  An official acquisition from its first sample to the end of the stop: what reaches storage is what
  the sensors delivered. The account per address is \<open>persisted\<close>, the samples in the blocks handed to
  the file manager, and \<open>buffered\<close>, those still in the buffers of the sensors.
\<close>

section \<open>Accounts\<close>

definition persisted :: "string \<Rightarrow> ceffect list \<Rightarrow> sample list" where
  "persisted a es = concat (map (\<lambda>eff. case eff of CEnqueueBlock b xs \<Rightarrow> if a = b then xs else [] | _ \<Rightarrow> []) es)"

definition of_address :: "string \<Rightarrow> sensor_entry \<Rightarrow> bool" where
  "of_address a en \<longleftrightarrow> se_address en = Some a"

definition buffered :: "string \<Rightarrow> sensor_entry list \<Rightarrow> sample list" where
  "buffered a ens = concat (map se_raw_data (filter (of_address a) ens))"

definition unique_addresses :: "sensor_entry list \<Rightarrow> bool" where
  "unique_addresses ens \<longleftrightarrow> distinct (List.map_filter se_address ens)"

definition recording :: "core \<Rightarrow> bool" where
  "recording s \<longleftrightarrow> official_streaming s \<and> list_all (\<lambda>sub. sb_is_streaming sub \<and> positive_blocks sub) (co_subjects s) \<and>
     co_stopping_subject_ids s = [] \<and> unique_addresses (sensor_entries s)"

lemma persisted_simps [simp]: "persisted a [] = []" "persisted a (es @ fs) = persisted a es @ persisted a fs"
  "persisted a (eff # es) = (case eff of CEnqueueBlock b xs \<Rightarrow> if a = b then xs else [] | _ \<Rightarrow> []) @ persisted a es"
  by (simp_all add: persisted_def)

lemma buffered_simps [simp]: "buffered a [] = []" "buffered a (xs @ ys) = buffered a xs @ buffered a ys"
  "buffered a (en # ens) = (if of_address a en then se_raw_data en else []) @ buffered a ens"
  by (simp_all add: buffered_def)

lemma persisted_blocks: "persisted a (map (CEnqueueBlock b) bs) = (if a = b then concat bs else [])"
  by (induction bs) auto

lemma map_filter_append: "List.map_filter f (xs @ ys) = List.map_filter f xs @ List.map_filter f ys"
  by (simp add: List.map_filter_def)

lemma map_filter_Cons: "List.map_filter f (x # xs) = (case f x of None \<Rightarrow> [] | Some y \<Rightarrow> [y]) @ List.map_filter f xs"
  by (simp add: List.map_filter_def split: option.split)

lemma addresses_put:
  "se_address new = Some a \<Longrightarrow> List.map_filter se_address (put_entry a new ens) = List.map_filter se_address ens"
  by (induction ens) (auto simp: map_filter_Cons split: option.split)

lemma not_of_address: "a \<notin> set (List.map_filter se_address ens) \<Longrightarrow> buffered a ens = []"
  by (induction ens) (auto simp: map_filter_Cons of_address_def split: option.splits)

text \<open>One sample: what leaves the buffer of its sensor and what stays.\<close>

lemma buffered_put:
  assumes "find_entry a ens = Some en" and "unique_addresses ens" and "se_address new = Some a"
  shows "buffered b ens = (if b = a then se_raw_data en else buffered b ens)"
    and "buffered b (put_entry a new ens) = (if b = a then se_raw_data new else buffered b ens)"
proof -
  have "buffered a ens = se_raw_data en \<and> buffered a (put_entry a new ens) = se_raw_data new"
    using assms
  proof (induction ens)
    case (Cons x ens)
    show ?case
    proof (cases "se_address x = Some a")
      case True
      then have "a \<notin> set (List.map_filter se_address ens)" using Cons.prems(2) by (simp add: unique_addresses_def map_filter_Cons)
      with True Cons.prems show ?thesis by (simp add: find_entry_def not_of_address of_address_def)
    next
      case False
      with Cons show ?thesis
        by (simp add: find_entry_def unique_addresses_def map_filter_Cons of_address_def split: option.splits)
    qed
  qed (simp add: find_entry_def)
  moreover have "buffered b (put_entry a new ens) = buffered b ens" if "b \<noteq> a"
    using that assms(3) by (induction ens) (auto simp: of_address_def)
  ultimately show "buffered b ens = (if b = a then se_raw_data en else buffered b ens)"
    "buffered b (put_entry a new ens) = (if b = a then se_raw_data new else buffered b ens)" by auto
qed

lemma put_entry_append:
  "put_entry a new (xs @ ys) = (if find_entry a xs = None then xs @ put_entry a new ys else put_entry a new xs @ ys)"
  by (induction xs) (auto simp: find_entry_def)

lemma find_entry_append: "find_entry a (xs @ ys) = (case find_entry a xs of None \<Rightarrow> find_entry a ys | Some en \<Rightarrow> Some en)"
  by (induction xs) (auto simp: find_entry_def)

lemma find_entry_None: "find_entry a ens = None \<longleftrightarrow> (\<forall>en \<in> set ens. se_address en \<noteq> Some a)"
  by (auto simp: find_entry_def find_None_iff)

definition owns :: "string \<Rightarrow> subject \<Rightarrow> bool" where
  "owns a sub \<longleftrightarrow> (\<exists>en \<in> set (sb_sensors sub). se_address en = Some a)"

lemma owns_find: "owns a sub \<longleftrightarrow> find_entry a (sb_sensors sub) \<noteq> None"
  by (simp add: owns_def find_entry_None)

lemma owner_entries:
  assumes "find (owns a) subs = Some sub" and "sb_sensors sub' = put_entry a new (sb_sensors sub)"
  shows "concat (map sb_sensors (replace_first (owns a) sub' subs)) = put_entry a new (concat (map sb_sensors subs))"
    and "find_entry a (concat (map sb_sensors subs)) = find_entry a (sb_sensors sub)"
  using assms by (induction subs) (auto simp: put_entry_append find_entry_append owns_find split: if_splits option.splits)

lemma owner_exists: "find (owns a) subs = None \<longleftrightarrow> find_entry a (concat (map sb_sensors subs)) = None"
  by (auto simp: find_entry_None find_None_iff owns_def)

lemma list_all_replace: "list_all P subs \<Longrightarrow> P new \<Longrightarrow> list_all P (replace_first p new subs)"
  by (induction subs) auto

lemma ingest_entry:
  assumes "positive_blocks sub" and "find_entry (sa_address x) (sb_sensors sub) = Some en"
  obtains raw bs where "ingest_sample x sub = Some (sub\<lparr>sb_sample_count := Suc (sb_sample_count sub),
      sb_sensors := put_entry (sa_address x) (en\<lparr>se_raw_data := raw\<rparr>) (sb_sensors sub)\<rparr>, bs, True)"
    and "concat bs @ raw = se_raw_data en @ [x]"
proof -
  have "en \<in> set (sb_sensors sub)" using assms(2) by (auto simp: find_entry_def find_Some_iff)
  then have pos: "block_size en > 0" using assms(1) by (simp add: positive_blocks_def)
  from hand_over_terminates [OF pos, of "se_raw_data en @ [x]" "[]"] obtain raw bs where
    "hand_over (block_size en) (se_raw_data en @ [x]) [] = Some (raw, bs)" "concat bs @ raw = se_raw_data en @ [x]" by auto
  with assms(2) show ?thesis by (intro that [of raw bs]) (simp_all add: ingest_sample_def Let_def)
qed

lemma positive_put: "positive_blocks sub \<Longrightarrow> find_entry a (sb_sensors sub) = Some en \<Longrightarrow>
   positive_blocks (sub\<lparr>sb_sample_count := k, sb_sensors := put_entry a (en\<lparr>se_raw_data := raw\<rparr>) (sb_sensors sub)\<rparr>)"
  using set_put_entry [of a "en\<lparr>se_raw_data := raw\<rparr>" "sb_sensors sub"]
  by (auto simp: positive_blocks_def block_size_def find_entry_def find_Some_iff)

lemma owns_fold: "(\<lambda>sub. \<exists>en \<in> set (sb_sensors sub). se_address en = Some a) = owns a"
  by (rule ext) (simp add: owns_def)

lemma on_data_account:
  assumes "recording s"
  shows "\<exists>s' es. on_data e x s = Some (s', es) \<and> recording s' \<and>
    List.map_filter se_address (sensor_entries s') = List.map_filter se_address (sensor_entries s) \<and>
    (\<forall>a \<in> set (List.map_filter se_address (sensor_entries s)). persisted a es @ buffered a (sensor_entries s') =
       buffered a (sensor_entries s) @ (if sa_address (rd_sample x) = a then [rd_sample x] else []))"
proof -
  let ?x = "rd_sample x"
  let ?a = "sa_address ?x"
  have off: "official_streaming s" and stop: "co_stopping_subject_ids s = []" and un: "unique_addresses (sensor_entries s)"
    and all: "list_all (\<lambda>sub. sb_is_streaming sub \<and> positive_blocks sub) (co_subjects s)"
    using assms by (simp_all add: recording_def)
  have obs: "observe_sample e x s = s" using off by (simp add: observe_sample_def gate_observes_def official_streaming_def)
  show ?thesis
  proof (cases "owner_of_address s ?a")
    case None
    then have no: "find_entry ?a (sensor_entries s) = None"
      by (simp add: owner_of_address_def owns_fold owner_exists sensor_entries_def)
    have "?a \<noteq> a" if "a \<in> set (List.map_filter se_address (sensor_entries s))" for a
      using that no by (auto simp: find_entry_None List.map_filter_def)
    then show ?thesis using None off assms by (auto simp: on_data_def Let_def obs)
  next
    case (Some sub)
    then have own: "find (owns ?a) (co_subjects s) = Some sub" by (simp add: owner_of_address_def owns_fold)
    then have mem: "sub \<in> set (co_subjects s)" and "owns ?a sub" by (auto simp: find_Some_iff)
    with all have str: "sb_is_streaming sub" "positive_blocks sub" by (auto simp: list_all_iff)
    from \<open>owns ?a sub\<close> obtain en where en: "find_entry ?a (sb_sensors sub) = Some en" by (auto simp: owns_find)
    from ingest_entry [OF str(2) en] obtain raw bs where
      ing: "ingest_sample ?x sub = Some (sub\<lparr>sb_sample_count := Suc (sb_sample_count sub),
         sb_sensors := put_entry ?a (en\<lparr>se_raw_data := raw\<rparr>) (sb_sensors sub)\<rparr>, bs, True)"
      and cat: "concat bs @ raw = se_raw_data en @ [?x]" .
    let ?new = "en\<lparr>se_raw_data := raw\<rparr>"
    let ?sub = "sub\<lparr>sb_sample_count := Suc (sb_sample_count sub), sb_sensors := put_entry ?a ?new (sb_sensors sub)\<rparr>"
    let ?s = "s\<lparr>co_subjects := replace_first (owns ?a) ?sub (co_subjects s)\<rparr>"
    let ?es = "map (CEnqueueBlock ?a) bs @ [CComputeSample x]"
    have run: "on_data e x s = Some (?s, ?es)"
      using Some str off stop ing by (simp add: on_data_def Let_def obs owns_fold)
    have adr: "se_address ?new = Some ?a" using find_entry_address [OF en] by simp
    have ent: "sensor_entries ?s = put_entry ?a ?new (sensor_entries s)" "find_entry ?a (sensor_entries s) = Some en"
      using owner_entries [OF own, of ?sub ?new] en by (simp_all add: sensor_entries_def)
    have "official_streaming ?s" using off by (simp add: official_streaming_def coordinated_def)
    then have "recording ?s"
      using stop un list_all_replace [OF all, of ?sub] str positive_put [OF str(2) en] ent(1) addresses_put [OF adr]
      by (simp add: recording_def unique_addresses_def)
    moreover have "persisted b ?es @ buffered b (sensor_entries ?s) =
        buffered b (sensor_entries s) @ (if ?a = b then [?x] else [])" for b
      using buffered_put [OF ent(2) un adr, of b] cat by (auto simp: ent(1) persisted_blocks)
    ultimately show ?thesis using run ent(1) addresses_put [OF adr] by auto
  qed
qed

section \<open>Samples of a run\<close>

definition samples_of :: "(henv \<times> reading) list \<Rightarrow> string \<Rightarrow> sample list" where
  "samples_of xs a = filter (\<lambda>x. sa_address x = a) (map (rd_sample \<circ> snd) xs)"

definition data_inputs :: "(henv \<times> reading) list \<Rightarrow> (henv \<times> ninput) list" where
  "data_inputs xs = map (\<lambda>(v, x). (v, Data x)) xs"

lemma feed_account:
  assumes "mh_core h = Some c" and "recording c"
  shows "\<exists>c' es. node_run (data_inputs xs) (h, ts) = Some ((h\<lparr>mh_core := Some c'\<rparr>, ts), es) \<and> recording c' \<and>
    List.map_filter se_address (sensor_entries c') = List.map_filter se_address (sensor_entries c) \<and>
    (\<forall>a \<in> set (List.map_filter se_address (sensor_entries c)).
       persisted a es @ buffered a (sensor_entries c') = buffered a (sensor_entries c) @ samples_of xs a)"
  using assms
proof (induction xs arbitrary: h c)
  case Nil
  then have "h\<lparr>mh_core := Some c\<rparr> = h" by (cases h) simp
  with Nil show ?case by (intro exI [of _ c] exI [of _ "[]"]) (simp add: data_inputs_def samples_of_def)
next
  case (Cons vx xs)
  obtain v x where vx: "vx = (v, x)" by (cases vx)
  from on_data_account [OF Cons.prems(2), of "he_core v" x] obtain c1 es1 where
    one: "on_data (he_core v) x c = Some (c1, es1)" "recording c1"
      "List.map_filter se_address (sensor_entries c1) = List.map_filter se_address (sensor_entries c)"
    and acc: "\<forall>a \<in> set (List.map_filter se_address (sensor_entries c)). persisted a es1 @ buffered a (sensor_entries c1) =
      buffered a (sensor_entries c) @ (if sa_address (rd_sample x) = a then [rd_sample x] else [])" by blast
  from Cons.IH [of "h\<lparr>mh_core := Some c1\<rparr>" c1] one(2) obtain c' es where
    rest: "node_run (data_inputs xs) (h\<lparr>mh_core := Some c1\<rparr>, ts) = Some ((h\<lparr>mh_core := Some c'\<rparr>, ts), es)" "recording c'"
      "List.map_filter se_address (sensor_entries c') = List.map_filter se_address (sensor_entries c1)"
    and ih: "\<forall>a \<in> set (List.map_filter se_address (sensor_entries c1)).
      persisted a es @ buffered a (sensor_entries c') = buffered a (sensor_entries c1) @ samples_of xs a" by auto
  have "node_step v (Data x) (h, ts) = Some ((h\<lparr>mh_core := Some c1\<rparr>, ts), es1)"
    using Cons.prems(1) one(1) by (simp add: node_step_def deliver_sample_def)
  then have run: "node_run (data_inputs (vx # xs)) (h, ts) = Some ((h\<lparr>mh_core := Some c'\<rparr>, ts), es1 @ es)"
    using rest(1) by (simp add: data_inputs_def vx)
  have "persisted a (es1 @ es) @ buffered a (sensor_entries c') = buffered a (sensor_entries c) @ samples_of (vx # xs) a"
    if a: "a \<in> set (List.map_filter se_address (sensor_entries c))" for a
  proof -
    have "persisted a (es1 @ es) @ buffered a (sensor_entries c') = persisted a es1 @ buffered a (sensor_entries c1) @ samples_of xs a"
      using ih a one(3) by simp
    also have "\<dots> = buffered a (sensor_entries c) @ (if sa_address (rd_sample x) = a then [rd_sample x] else []) @ samples_of xs a"
      using acc a by (metis append.assoc)
    finally show ?thesis by (simp add: samples_of_def vx)
  qed
  with run rest one(3) show ?case by auto
qed

lemma node_run_append:
  "node_run (xs @ ys) n = (case node_run xs n of None \<Rightarrow> None
     | Some (n', es) \<Rightarrow> map_option (\<lambda>(n'', fs). (n'', es @ fs)) (node_run ys n'))"
  by (induction xs arbitrary: n) (auto simp: option.map_comp option.map_ident comp_def case_prod_unfold split: option.splits)

section \<open>The stop after them\<close>

fun is_block :: "ceffect \<Rightarrow> bool" where
  "is_block (CEnqueueBlock a xs) = True"
| "is_block _ = False"

lemma persisted_no_blocks: "\<forall>eff \<in> set es. \<not> is_block eff \<Longrightarrow> persisted a es = []"
  by (induction es) (auto split: ceffect.split)

text \<open>An action whose effects begin with \<open>es\<close> and hand over no block afterwards.\<close>

definition then_no_blocks :: "ceffect list \<Rightarrow> core_action \<Rightarrow> core \<Rightarrow> bool" where
  "then_no_blocks es a s \<longleftrightarrow> (case a s of (s', fs, x) \<Rightarrow> \<exists>rest. fs = es @ rest \<and> (\<forall>eff \<in> set rest. \<not> is_block eff))"

abbreviation blockless :: "core_action \<Rightarrow> bool" where
  "blockless a \<equiv> (\<forall>s. ok (\<lambda>_. True) (\<lambda>eff. \<not> is_block eff) a s)"

lemma then_seq: "then_no_blocks es a s \<Longrightarrow> blockless b \<Longrightarrow> then_no_blocks es (seq a b) s"
  by (fastforce simp: then_no_blocks_def ok_def seq_def split: prod.splits option.splits)

lemma then_catch: "then_no_blocks es a s \<Longrightarrow> (\<And>x. blockless (h x)) \<Longrightarrow> then_no_blocks es (catch a h) s"
proof -
  assume a: "then_no_blocks es a s" and h: "\<And>x. blockless (h x)"
  obtain s' fs x where r: "a s = (s', fs, x)" by (metis prod_cases3)
  with a obtain rest where rest: "fs = es @ rest" "\<forall>eff \<in> set rest. \<not> is_block eff" by (auto simp: then_no_blocks_def)
  show ?thesis
  proof (cases x)
    case None
    with r rest show ?thesis by (simp add: then_no_blocks_def catch_def)
  next
    case (Some y)
    obtain s'' gs z where hr: "h y s' = (s'', gs, z)" by (metis prod_cases3)
    with spec [OF h, of y s'] have "\<forall>eff \<in> set gs. \<not> is_block eff" by (simp add: ok_def)
    with r rest Some hr show ?thesis by (auto simp: then_no_blocks_def catch_def)
  qed
qed

lemma blockless_seq: "blockless a \<Longrightarrow> blockless b \<Longrightarrow> blockless (seq a b)"
  by (blast intro: ok_seq)

lemma blockless_finalize: "blockless (finalize_stop e tg sids ctx rs err)"
  by (auto simp: finalize_stop_def finalize_session_archive_def emit_stream_drained_def emit_event_def Let_def ok_simps)

lemma blockless_failed: "blockless (stop_failed e tg sids ctx x)"
  by (auto simp: stop_failed_def emit_stream_drained_def emit_event_def ok_simps)

lemma blockless_finally: "blockless (stop_finally sids)"
  by (auto simp: stop_finally_def ok_simps)

lemma blockless_raise: "blockless (raise x)"
  by (simp add: ok_simps)

lemma blockless_error: "blockless (seq (upd f) (emit_error corr m))"
  by (simp add: ok_simps emit_error_def)

lemma blockless_hook: "blockless (query (\<lambda>s. if b s then skip else host_call sv w pl))"
  by (auto simp: ok_simps host_call_def split: option.split)

lemma body_blocks: "then_no_blocks (concat (map tail_blocks (co_subjects s))) (stop_body e None sids ctx) s"
proof -
  obtain rs err where ph: "physical_stop (addresses_of (co_subjects s)) (ce_stop e) = (rs, err)" by fastforce
  have ev: "\<not> is_block eff" if "eff \<in> set (consolidated_events e t pls)" for eff t pls
    using that by (auto simp: consolidated_events_def split: if_splits)
  obtain s' es x where fin: "finalize_stop e None sids ctx rs err (all_closed rs s) = (s', es, x)" by (metis prod_cases3)
  have "\<forall>eff \<in> set es. \<not> is_block eff"
    using spec [OF blockless_finalize, of e None sids ctx rs err "all_closed rs s"] fin by (simp add: ok_def)
  then show ?thesis
    by (cases "ce_consolidation e") (auto simp: then_no_blocks_def stop_all_body_exec [OF ph] fin dest: ev)
qed

lemma finish_blocks: "then_no_blocks (concat (map tail_blocks (co_subjects s))) (finish_stop_command v None sids pl) s"
  unfolding finish_stop_command_def stop_finish_def always_def
  by (intro then_catch then_seq body_blocks blockless_failed blockless_finally blockless_hook blockless_error blockless_seq blockless_raise)

lemma tail_persisted: "a \<noteq> [] \<Longrightarrow> persisted a (tail_blocks sub) = buffered a (sb_sensors sub)"
proof -
  assume a: "a \<noteq> []"
  have "persisted a (concat (map (\<lambda>en. if se_raw_data en = [] then []
     else [CEnqueueBlock (case se_address en of None \<Rightarrow> [] | Some a \<Rightarrow> a) (se_raw_data en)]) ens)) = buffered a ens" for ens
    using a by (induction ens) (auto simp: of_address_def split: option.splits)
  then show ?thesis by (simp add: tail_blocks_def)
qed

lemma tails_persisted: "a \<noteq> [] \<Longrightarrow> persisted a (concat (map tail_blocks subs)) = buffered a (concat (map sb_sensors subs))"
  by (induction subs) (simp_all add: tail_persisted)

lemma stop_message_exec:
  assumes "mh_core h = Some c" and "\<not> mh_dispatcher h" and "vget m ''type'' = VStr CMD_STOP_STREAM_FOR_ALL"
    and "ce_sensors (he_core v) = None"
  shows "\<exists>c' pl. handle v m h = (h\<lparr>mh_core := Some c'\<rparr>, [CStopAll, CSpawn (Stopping None (subject_ids c) pl)], None) \<and>
    co_subjects c' = co_subjects c"
  using assms
  by (auto simp: handle_def handle_local_command_def query_def on_core_def handle_with_core_def needs_installed_configuration_def
      connection_step_def waits_for_sequence_def host_command_def core_command_def guarded_command_def stop_stream_def stop_begin_def
      stop_sensors_def call_def seq_def upd_def catch_def out_def skip_def stop_requested_def targets_def subject_ids_def Let_def)

text \<open>C1. An official acquisition loses nothing and invents nothing. In official streaming, with distinct
  sensor addresses, block sizes of at least one and nothing buffered, any samples that arrive before the
  stop of all subjects are handled without hanging, and when the stop is over the blocks handed to
  storage for a sensor are exactly its samples, each once and in order of arrival, whether or not the
  sensors confirm the stop and also when the consolidation fails.\<close>

theorem acquisition_lossless:
  assumes "mh_core h = Some c" and "\<not> mh_dispatcher h" and "recording c"
    and "\<forall>en \<in> set (sensor_entries c). se_raw_data en = []"
    and "a \<in> set (List.map_filter se_address (sensor_entries c))" and "a \<noteq> []"
    and "vget m ''type'' = VStr CMD_STOP_STREAM_FOR_ALL" and "ce_sensors (he_core v) = None"
  shows "\<exists>n' es. node_run (data_inputs xs @ [(v, Message m), (w, ThreadStep 0)]) (h, []) = Some (n', es) \<and>
     persisted a es = samples_of xs a"
proof -
  from feed_account [OF assms(1,3), of xs "[]"] obtain c1 es1 where
    feed: "node_run (data_inputs xs) (h, []) = Some ((h\<lparr>mh_core := Some c1\<rparr>, []), es1)"
    and acc: "persisted a es1 @ buffered a (sensor_entries c1) = buffered a (sensor_entries c) @ samples_of xs a"
    using assms(5) by blast
  have "buffered a (sensor_entries c) = []" using assms(4) by (simp add: buffered_def)
  with acc have acc: "persisted a es1 @ buffered a (sensor_entries c1) = samples_of xs a" by simp
  from stop_message_exec [of "h\<lparr>mh_core := Some c1\<rparr>" c1 m v] assms(2,7,8) obtain c2 pl where
    msg: "handle v m (h\<lparr>mh_core := Some c1\<rparr>) = (h\<lparr>mh_core := Some c2\<rparr>, [CStopAll, CSpawn (Stopping None (subject_ids c1) pl)], None)"
    and same: "co_subjects c2 = co_subjects c1" by auto
  have step1: "node_step v (Message m) (h\<lparr>mh_core := Some c1\<rparr>, []) = Some ((h\<lparr>mh_core := Some c2\<rparr>, [Stopping None (subject_ids c1) pl]),
      [CStopAll, CSpawn (Stopping None (subject_ids c1) pl)])"
    by (simp add: node_step_def stop_waits_def perform_def msg spawned_def List.map_filter_def)
  obtain c3 es3 x where fin: "finish_stop_command w None (subject_ids c1) pl c2 = (c3, es3, x)" by (metis prod_cases3)
  have "persisted a es3 = buffered a (sensor_entries c1)"
    using finish_blocks [of c2 w "subject_ids c1" pl] fin same tails_persisted [OF assms(6)]
    by (auto simp: then_no_blocks_def sensor_entries_def persisted_no_blocks)
  moreover have "node_step w (ThreadStep 0) (h\<lparr>mh_core := Some c2\<rparr>, [Stopping None (subject_ids c1) pl]) =
      Some ((h\<lparr>mh_core := Some c3\<rparr>, spawned es3), es3)"
    by (simp add: node_step_def perform_def on_core_def thread_action_def fin)
  ultimately show ?thesis using acc by (simp add: node_run_append feed step1)
qed

definition ex_sample :: "int \<Rightarrow> reading" where
  "ex_sample i = \<lparr>rd_sample = \<lparr>sa_address = ''A'', sa_data = VInt i\<rparr>, rd_timestamp = Some i, rd_sampling_rate = Some 1\<rparr>"

definition ex_stop :: val where
  "ex_stop = VDict [(''type'', VStr CMD_STOP_STREAM_FOR_ALL)]"

theorem acquisition_lossless_witness:
  "\<exists>n' es. node_run (data_inputs [(ex_henv, ex_sample 1), (ex_henv, ex_sample 2), (ex_henv, ex_sample 3)] @
      [(ex_henv, Message ex_stop), (ex_henv, ThreadStep 0)]) (ex_handler, []) = Some (n', es) \<and>
     persisted ''A'' es = [rd_sample (ex_sample 1), rd_sample (ex_sample 2), rd_sample (ex_sample 3)]"
proof -
  have a: "mh_core ex_handler = Some ex_core" "\<not> mh_dispatcher ex_handler" "vget ex_stop ''type'' = VStr CMD_STOP_STREAM_FOR_ALL"
    "ce_sensors (he_core ex_henv) = None"
    by (simp_all add: ex_handler_def ex_henv_def ex_env_def ex_stop_def val_simps)
  have b: "recording ex_core" by code_simp
  have c: "\<forall>en \<in> set (sensor_entries ex_core). se_raw_data en = []" by code_simp
  have d: "''A'' \<in> set (List.map_filter se_address (sensor_entries ex_core))" by code_simp
  have e: "samples_of [(ex_henv, ex_sample 1), (ex_henv, ex_sample 2), (ex_henv, ex_sample 3)] ''A'' =
      [rd_sample (ex_sample 1), rd_sample (ex_sample 2), rd_sample (ex_sample 3)]"
    by (simp add: samples_of_def ex_sample_def)
  show ?thesis
    using acquisition_lossless [OF a(1,2) b c d _ a(3,4), of "[(ex_henv, ex_sample 1), (ex_henv, ex_sample 2), (ex_henv, ex_sample 3)]"]
    unfolding e by simp
qed

section \<open>The specification of a recording\<close>

text \<open>Abstractly a recording is a log per sensor address to which a sample of a known sensor is appended.
  The log of a core is what it has handed to storage followed by what it still buffers.\<close>

definition known :: "core \<Rightarrow> string set" where
  "known s = set (List.map_filter se_address (sensor_entries s))"

definition log_sample :: "string set \<Rightarrow> sample \<Rightarrow> (string \<Rightarrow> sample list) \<Rightarrow> string \<Rightarrow> sample list" where
  "log_sample ks x l = (if sa_address x \<in> ks then l(sa_address x := l (sa_address x) @ [x]) else l)"

definition sample_log :: "ceffect list \<Rightarrow> core \<Rightarrow> string \<Rightarrow> sample list" where
  "sample_log es s a = (if a \<in> known s then persisted a es @ buffered a (sensor_entries s) else [])"

lemma empty_buffers_entries:
  "concat (map sb_sensors (map empty_buffers subs)) = map (\<lambda>en. en\<lparr>se_raw_data := []\<rparr>) (concat (map sb_sensors subs))"
  by (induction subs) (simp_all add: empty_buffers_def)

lemma flushed_entries:
  "List.map_filter se_address (map (\<lambda>en. en\<lparr>se_raw_data := []\<rparr>) ens) = List.map_filter se_address ens"
  "buffered a (map (\<lambda>en. en\<lparr>se_raw_data := []\<rparr>) ens) = []"
  by (induction ens) (auto simp: map_filter_Cons List.map_filter_def)

text \<open>C6. The recording refines its log: in official streaming the handling of a sample, with its buffers,
  blocks and hand-over to storage, is the append of the log and keeps the core recording; the flush at
  the stop leaves the log as it is and the buffers empty. The handling of a sample always returns.\<close>

theorem recording_refines_log:
  assumes "recording s" and "[] \<notin> known s"
  shows "(\<exists>s' fs. on_data e x s = Some (s', fs) \<and> recording s' \<and> known s' = known s \<and>
       sample_log (es @ fs) s' = log_sample (known s) (rd_sample x) (sample_log es s)) \<and>
     (\<exists>s' fs. flush_pending_samples None s = (s', fs, None) \<and> known s' = known s \<and>
       sample_log (es @ fs) s' = sample_log es s \<and> (\<forall>a. buffered a (sensor_entries s') = []))"
proof
  from on_data_account [OF assms(1), of e x] obtain s' fs where on: "on_data e x s = Some (s', fs)" "recording s'"
    and adr: "known s' = known s"
    and acc: "\<forall>a \<in> known s. persisted a fs @ buffered a (sensor_entries s') =
      buffered a (sensor_entries s) @ (if sa_address (rd_sample x) = a then [rd_sample x] else [])"
    by (auto simp: known_def)
  have "sample_log (es @ fs) s' a = log_sample (known s) (rd_sample x) (sample_log es s) a" for a
    using acc adr by (auto simp: sample_log_def log_sample_def)
  then have "sample_log (es @ fs) s' = log_sample (known s) (rd_sample x) (sample_log es s)" by blast
  with on adr show "\<exists>s' fs. on_data e x s = Some (s', fs) \<and> recording s' \<and> known s' = known s \<and>
       sample_log (es @ fs) s' = log_sample (known s) (rd_sample x) (sample_log es s)" by blast
next
  let ?s = "s\<lparr>co_subjects := map empty_buffers (co_subjects s)\<rparr>"
  have ent: "sensor_entries ?s = map (\<lambda>en. en\<lparr>se_raw_data := []\<rparr>) (sensor_entries s)"
    using empty_buffers_entries [of "co_subjects s"] by (simp add: sensor_entries_def)
  have "sample_log (es @ concat (map tail_blocks (co_subjects s))) ?s a = sample_log es s a" for a
    using assms(2) tails_persisted [of a "co_subjects s"]
    by (cases "a = []") (auto simp: sample_log_def known_def ent flushed_entries sensor_entries_def [of s])
  then show "\<exists>s' fs. flush_pending_samples None s = (s', fs, None) \<and> known s' = known s \<and>
       sample_log (es @ fs) s' = sample_log es s \<and> (\<forall>a. buffered a (sensor_entries s') = [])"
    by (intro exI [of _ ?s] exI [of _ "concat (map tail_blocks (co_subjects s))"])
      (auto simp: flush_all_exec known_def ent flushed_entries)
qed

theorem recording_refines_log_witness:
  "\<exists>s' fs. on_data ex_env (ex_sample 1) ex_core = Some (s', fs) \<and>
     sample_log fs s' = (\<lambda>a. if a = ''A'' then [rd_sample (ex_sample 1)] else [])"
proof -
  have r: "recording ex_core" and k: "[] \<notin> known ex_core" by code_simp+
  have "known ex_core = {''A''}" by (simp add: known_def ex_core_def sensor_entries_def ex_subject_def ex_sensor_def List.map_filter_def)
  moreover have "sample_log [] ex_core = (\<lambda>a. [])"
    by (rule ext) (simp add: sample_log_def ex_core_def sensor_entries_def ex_subject_def ex_sensor_def)
  ultimately have "log_sample (known ex_core) (rd_sample (ex_sample 1)) (sample_log [] ex_core) =
      (\<lambda>a. if a = ''A'' then [rd_sample (ex_sample 1)] else [])"
    by (simp add: log_sample_def ex_sample_def fun_eq_iff)
  with recording_refines_log [OF r k, of ex_env "ex_sample 1" "[]"] show ?thesis by auto
qed

end
