(* ===== verification/Core_Configuration.thy ===== *)
theory Core_Configuration
  imports Core_Stop
begin

text \<open>
  Configuration and recovery of the core: the rollback of a failed installation, the completion of
  resets, and two behaviours of the starts and of the stop that lose data.
\<close>

section \<open>Installation\<close>

lemma guards_exec: "\<exists>y. init_guards confs s = (s, [], y) \<and> (y = None \<longrightarrow> \<not> co_requires_recovery s \<and> \<not> core_acquiring s \<and> \<not> co_recovery_in_progress s)"
  by (simp add: init_guards_def ensure_recovery_idle_def ensure_disconnect_allowed_def seq_def query_def raise_def skip_def)

lemma init_subjects_exec:
  "init_subjects (ce_resolve e) confs (graph_of s) = (g, f) \<Longrightarrow>
   init_subjects_of_core e confs s = (s\<lparr>co_subjects := sg_subjects g\<rparr>, [], map_option (ce_text e) f)"
  by (simp add: init_subjects_of_core_def query_def seq_def upd_def skip_def raise_def split: option.split)

definition installed_by :: "string option \<Rightarrow> val \<Rightarrow> val \<Rightarrow> core \<Rightarrow> core" where
  "installed_by label app_id app_name s =
     (case label of None \<Rightarrow> \<lambda>s. s | Some l \<Rightarrow> set_session_label l)
       (s\<lparr>co_app_id := stripped_or_none app_id, co_app_name := stripped_or_none app_name\<rparr>)"

lemma install_exec:
  "\<exists>s' es y. install e label app_id app_name s = (s', es, y) \<and> CSensorsInit \<in> set es \<and>
     rollback t s' = rollback t s \<and> (y = None \<longrightarrow> s' = installed_by label app_id app_name s)"
  by (cases "ce_sensors e"; cases "ce_compute e"; cases label)
    (auto simp: install_def call_def seq_def upd_def out_def skip_def raise_def rollback_def installed_by_def set_session_label_def Let_def)

lemma rollback_subjects [simp]: "rollback s (s\<lparr>co_subjects := subs\<rparr>) = s" "rollback s s = s"
  by (simp_all add: rollback_def)

lemma rollback_recovery: "rollback t (s\<lparr>co_requires_recovery := b\<rparr>) = (rollback t s)\<lparr>co_requires_recovery := b\<rparr>"
  by (simp add: rollback_def)

text \<open>C23. A configuration is installed as a whole or not at all. If \<open>init_core\<close> raises, the core is what it
  was before, subjects, application and session label included, except that it requires recovery if the
  sensor manager was already touched. If it returns, the subjects are those the subject graph built from
  the request, no subject is acquiring, and no recovery is required.\<close>

theorem init_core_all_or_nothing:
  assumes "init_core e confs label app_id app_name em s = (s', es, x)"
  shows "(x \<noteq> None \<longrightarrow> s' = s\<lparr>co_requires_recovery := (co_requires_recovery s \<or> CSensorsInit \<in> set es)\<rparr>) \<and>
    (x = None \<longrightarrow> (\<exists>g. init_subjects (ce_resolve e) (as_list confs) (graph_of s) = (g, None) \<and> co_subjects s' = sg_subjects g) \<and>
       \<not> core_acquiring s \<and> \<not> co_requires_recovery s')"
proof -
  obtain y where g: "init_guards confs s = (s, [], y)"
    and ok: "y = None \<longrightarrow> \<not> co_requires_recovery s \<and> \<not> core_acquiring s \<and> \<not> co_recovery_in_progress s"
    using guards_exec by blast
  obtain gr f where gf: "init_subjects (ce_resolve e) (as_list confs) (graph_of s) = (gr, f)" by fastforce
  let ?s1 = "s\<lparr>co_subjects := sg_subjects gr\<rparr>"
  note sub = init_subjects_exec [OF gf]
  obtain s2 es2 z where ins: "install e label app_id app_name ?s1 = (s2, es2, z)" "CSensorsInit \<in> set es2"
    "rollback s s2 = s" "z = None \<longrightarrow> s2 = installed_by label app_id app_name ?s1"
    using install_exec [of e label app_id app_name ?s1 s] by auto
  show ?thesis
  proof (cases y)
    case (Some w)
    with assms g show ?thesis
      by (auto simp: init_core_def query_def seq_def catch_def upd_def raise_def)
  next
    case None
    show ?thesis
    proof (cases f)
      case (Some w)
      with assms g None sub ok show ?thesis
        by (auto simp: init_core_def query_def seq_def catch_def upd_def raise_def)
    next
      case f: None
      show ?thesis
      proof (cases z)
        case (Some w)
        with assms g None sub f ins(1,2,3) show ?thesis
          by (auto simp: init_core_def query_def seq_def catch_def upd_def raise_def rollback_recovery)
      next
        case z: None
        have s2: "co_subjects s2 = sg_subjects gr" "co_requires_recovery s2 = co_requires_recovery s"
          using ins(4) z by (auto simp: installed_by_def set_session_label_def Let_def split: option.split)
        from assms g None sub f ins(1) z have "s' = s2" "x = None"
          by (auto simp: init_core_def query_def seq_def catch_def out_def emit_event_def skip_def split: if_splits)
        with s2 gf f ok None show ?thesis by simp
      qed
    qed
  qed
qed

definition ex_class :: sensor_class where
  "ex_class = \<lparr>sc_computations = Some [], sc_new_error = None, sc_sampling_rate = Some 1\<rparr>"

definition ex_configuration :: val where
  "ex_configuration = VList [VDict [(''subject_id'', VStr ''S2''),
     (''sensors'', VList [VDict [(''local_name'', VStr ''imu''), (''locations'', VList [VStr ''wrist''])]])]]"

definition ex_idle :: core where
  "ex_idle = (new_core ''site'' ''n1'')\<lparr>co_subjects := [ex_subject ''S'' ''A'' False]\<rparr>"

theorem init_core_all_or_nothing_witness:
  "\<exists>s' es x. init_core (ex_env\<lparr>ce_resolve := \<lambda>_. Some ex_class, ce_sensors := Some ''no adapter''\<rparr>) ex_configuration None VNone VNone True ex_idle
      = (s', es, x) \<and> x \<noteq> None \<and> s' = ex_idle\<lparr>co_requires_recovery := True\<rparr>"
proof -
  let ?e = "ex_env\<lparr>ce_resolve := \<lambda>_. Some ex_class, ce_sensors := Some ''no adapter''\<rparr>"
  obtain s' es x where r: "init_core ?e ex_configuration None VNone VNone True ex_idle = (s', es, x)" by (metis prod_cases3)
  have "case init_core ?e ex_configuration None VNone VNone True ex_idle of (s', es, x) \<Rightarrow> x = Some ''no adapter'' \<and> es = [CSensorsInit]"
    by code_simp
  with r have "x = Some ''no adapter''" "es = [CSensorsInit]" by auto
  with init_core_all_or_nothing [OF r] r show ?thesis by auto
qed

section \<open>Recovery\<close>

definition completion :: "core \<Rightarrow> val \<Rightarrow> val \<Rightarrow> ceffect" where
  "completion s report ctx = CEmit EVT_SENSOR_CLEANUP_COMPLETE
     (with_expected_nodes s (vput ''node_id'' (VStr (co_node_id s)) (VDict (dmerge (as_dict ctx) (as_dict report)))))"

lemma completion_cong: "co_node_id s = co_node_id t \<Longrightarrow> completion s r c = completion t r c"
  by (simp add: completion_def with_expected_nodes_def)

lemma complete_reset_exec:
  assumes "ce_bus e"
  shows "complete_reset e report s = (s\<lparr>co_reset_waiters := []\<rparr>, map (completion s report) (co_reset_waiters s), None)"
proof -
  let ?s = "s\<lparr>co_reset_waiters := []\<rparr>"
  have "for_each ws (\<lambda>ctx. core_on_cleanup_complete e (VDict (dmerge (as_dict ctx) (as_dict report)))) ?s =
      (?s, concat (map (\<lambda>c. [completion s report c]) ws), None)" for ws
    using assms by (intro for_each_const)
      (simp add: core_on_cleanup_complete_def query_def emit_event_def out_def completion_def with_expected_nodes_def)
  then show ?thesis by (simp add: complete_reset_def query_def seq_def upd_def concat_map_singleton)
qed

text \<open>C40. Every reset request is answered: when the recovery of the sensors is over, successful or not, one
  completion event goes out for the request that began it and one for each request that arrived
  meanwhile, each with its own context, and no recovery is in progress any more. After a recovery that
  reports the core as ready, a configuration is accepted again.\<close>

theorem recovery_answers_every_reset:
  assumes "finish_recovery e ctx s = (s', es, x)" and "ce_bus e"
  shows "x = None \<and> \<not> co_recovery_in_progress s' \<and> co_reset_waiters s' = [] \<and>
    (\<exists>report. es = map (completion s report) (ctx # co_reset_waiters s)) \<and>
    (\<forall>r. ce_recovery e = Inr r \<and> vget r ''core_ready_for_configuration'' = VBool True \<and> \<not> co_finalization_pending s \<longrightarrow>
       co_subjects s' = [] \<and> co_stream_phase s' = ''idle'' \<and> (\<forall>confs. init_guards (VList confs) s' = (s', [], None)))"
proof -
  define report where "report = (case ce_recovery e of Inl x \<Rightarrow> recovery_failed x | Inr r \<Rightarrow> r)"
  define t where "t = (case ce_recovery e of Inl x \<Rightarrow> s | Inr r \<Rightarrow> recovered r s)\<lparr>co_recovery_in_progress := False\<rparr>"
  have t: "co_node_id t = co_node_id s" "co_reset_waiters t = co_reset_waiters s" "\<not> co_recovery_in_progress t"
    by (auto simp: t_def recovered_def clear_startup_gate_state_def split: sum.split)
  have first: "(case ce_recovery e of Inl x \<Rightarrow> skip | Inr r \<Rightarrow> upd (recovered r)) s = (case ce_recovery e of Inl x \<Rightarrow> s | Inr r \<Rightarrow> recovered r s, [], None)"
    by (cases "ce_recovery e") (simp_all add: skip_def upd_def)
  have second: "upd (\<lambda>s. s\<lparr>co_recovery_in_progress := False\<rparr>) (case ce_recovery e of Inl x \<Rightarrow> s | Inr r \<Rightarrow> recovered r s) = (t, [], None)"
    by (simp add: upd_def t_def)
  have own: "core_on_cleanup_complete e (VDict (dmerge (as_dict ctx) (as_dict report))) t = (t, [completion s report ctx], None)"
    using assms(2) t(1) by (simp add: core_on_cleanup_complete_def query_def emit_event_def out_def completion_def with_expected_nodes_def)
  have res: "finish_recovery e ctx s = (t\<lparr>co_reset_waiters := []\<rparr>, map (completion s report) (ctx # co_reset_waiters s), None)"
    unfolding finish_recovery_def Let_def report_def [symmetric]
    by (simp add: seq_normal [where a = "case ce_recovery e of Inl x \<Rightarrow> skip | Inr r \<Rightarrow> upd (recovered r)" and s = s, OF first] seq_normal [where a = "upd (\<lambda>s. s\<lparr>co_recovery_in_progress := False\<rparr>)", OF second] seq_normal [where a = "core_on_cleanup_complete e (VDict (dmerge (as_dict ctx) (as_dict report)))", OF own] complete_reset_exec [OF assms(2)] t completion_cong [OF t(1)])
  have "co_subjects s' = [] \<and> co_stream_phase s' = ''idle'' \<and> (\<forall>confs. init_guards (VList confs) s' = (s', [], None))"
    if "ce_recovery e = Inr r" "vget r ''core_ready_for_configuration'' = VBool True" "\<not> co_finalization_pending s" for r
    using assms(1) that res
    by (auto simp: t_def recovered_def clear_startup_gate_state_def init_guards_def ensure_recovery_idle_def ensure_disconnect_allowed_def
        seq_def query_def skip_def core_acquiring_def acquiring_phases_def has_active_streams_def)
  with assms(1) res t(3) show ?thesis by auto
qed

theorem recovery_answers_every_reset_witness:
  "\<exists>s' es x. finish_recovery ex_env VNone (ex_idle\<lparr>co_recovery_in_progress := True, co_reset_waiters := [VDict [(''k'', VInt 1)]]\<rparr>) = (s', es, x) \<and>
     length es = 2 \<and> init_guards (VList []) s' = (s', [], None)"
proof -
  let ?s = "ex_idle\<lparr>co_recovery_in_progress := True, co_reset_waiters := [VDict [(''k'', VInt 1)]]\<rparr>"
  obtain s' es x where r: "finish_recovery ex_env VNone ?s = (s', es, x)" by (metis prod_cases3)
  have "ce_bus ex_env" "ce_recovery ex_env = Inr (VDict [(''core_ready_for_configuration'', VBool True)])"
    "\<not> co_finalization_pending ?s"
    by (simp_all add: ex_env_def ex_idle_def new_core_def)
  with recovery_answers_every_reset [OF r] r show ?thesis by (auto simp: val_simps)
qed

section \<open>Samples that are not recorded\<close>

definition records_nothing :: "core \<Rightarrow> bool" where
  "records_nothing s \<longleftrightarrow> (\<forall>e x. \<exists>s'. on_data e x s = Some (s', []) \<and> co_subjects s' = co_subjects s)"

lemma not_official_records_nothing: "co_stream_phase s \<noteq> ''official_streaming'' \<Longrightarrow> records_nothing s"
  by (auto simp: records_nothing_def on_data_def observe_sample_def official_streaming_def Let_def)

text \<open>From the moment a stop of all subjects has been requested no further sample is recorded, neither
  one that the sensors sent before they stopped nor one in flight: until the stop is over the core
  drops every sample it is given, although the stop waits for them.\<close>

theorem late_samples_dropped:
  assumes "stop_stream e ctx s = (s', es, None)"
  shows "records_nothing s'"
proof -
  have "acquiring_elsewhere (map sb_subject_id (co_subjects s)) s = False"
    by (auto simp: acquiring_elsewhere_def)
  then have "co_stream_phase s' \<in> {''idle'', ''startup_failed'', ''stopping''}"
    using assms by (cases "ce_sensors e")
      (auto simp: stop_stream_def stop_begin_def query_def Let_def targets_def stop_sensors_def call_def seq_def upd_def out_def skip_def
        raise_def catch_def stop_requested_def stop_failed_def emit_stream_drained_def emit_event_def stop_finally_exec split: if_splits)
  then show ?thesis by (intro not_official_records_nothing) auto
qed

theorem late_samples_dropped_witness: "records_nothing (fst (stop_stream ex_env VNone ex_core)) \<and> official_streaming ex_core"
proof -
  obtain s' es x where r: "stop_stream ex_env VNone ex_core = (s', es, x)" by (metis prod_cases3)
  have "snd (snd (stop_stream ex_env VNone ex_core)) = None" by code_simp
  with r have "stop_stream ex_env VNone ex_core = (s', es, None)" by simp
  from late_samples_dropped [OF this] r have "records_nothing (fst (stop_stream ex_env VNone ex_core))" by simp
  moreover have "official_streaming ex_core" by code_simp
  ultimately show ?thesis by simp
qed

lemma modify_first_other: "sub \<in> set subs \<Longrightarrow> sb_subject_id sub \<noteq> sid \<Longrightarrow> sub \<in> set (modify_first sid f subs)"
  by (induction subs) auto

lemma modify_targets_other:
  "sub \<in> set subs \<Longrightarrow> sb_subject_id sub \<notin> set sids \<Longrightarrow> sub \<in> set (modify_targets (Some sids) f subs)"
  unfolding modify_targets_def by (induction sids arbitrary: subs) (auto simp: modify_first_other)

lemma find_subject_id: "find_subject s sid = Some sub \<Longrightarrow> sb_subject_id sub = sid"
  by (auto simp: find_subject_def find_Some_iff)

lemma found_ids: "\<forall>sub \<in> set (List.map_filter (find_subject s) sids). sb_subject_id sub \<in> set sids"
  by (auto simp: List.map_filter_def dest: find_subject_id)

text \<open>Starting some subjects interrupts the acquisition of the others: once \<open>start_stream_for_subjects\<close>
  has returned, a subject that was streaming and is not among those started is still marked as
  streaming, but none of its samples is recorded until the new subjects have passed their gate, and the
  session timestamp under which it is recorded is the new one.\<close>

theorem start_interrupts_other_subjects:
  assumes "start_stream_for_subjects e payload s = (s', es, None)"
    and "sub \<in> set (co_subjects s)" and "sb_is_streaming sub"
    and "sb_subject_id sub \<notin> set (ids_of (vget payload ''subject_ids''))"
  shows "sub \<in> set (co_subjects s') \<and> records_nothing s' \<and>
    co_session_timestamp s' = vget_or payload ''session_timestamp'' (VStr (ce_stamp e))"
proof -
  obtain v where v: "map_of (as_dict payload) ''subject_ids'' = Some v"
    using assms(1) by (cases "map_of (as_dict payload) ''subject_ids''")
      (auto simp: start_stream_for_subjects_def begin_start_def ensure_recovery_idle_def seq_def query_def raise_def skip_def
        set_phase_def upd_def split: if_splits)
  then have ids: "ids_of (vget payload ''subject_ids'') = map py_str (as_list v)" by (simp add: vget_def vget_or_def ids_of_def)
  define t where "t = new_session e payload (s\<lparr>co_stream_phase := ''starting''\<rparr>)"
  define subs where "subs = List.map_filter (find_subject t) (map py_str (as_list v))"
  have "sb_subject_id sub \<notin> sb_subject_id ` set subs"
    using assms(4) found_ids [of t "map py_str (as_list v)"] unfolding ids subs_def by auto
  then have keep: "sub \<in> set (modify_targets (Some (map sb_subject_id subs)) clear_raw_data (co_subjects s))"
    using assms(2) by (intro modify_targets_other) auto
  from assms(1) v have fin: "co_subjects s' = modify_targets (Some (map sb_subject_id subs)) clear_raw_data (co_subjects s) \<and>
      co_stream_phase s' = ''starting'' \<and> co_session_timestamp s' = vget_or payload ''session_timestamp'' (VStr (ce_stamp e))"
    by (auto simp: start_stream_for_subjects_def begin_start_def ensure_recovery_idle_def seq_def query_def raise_def skip_def
        set_phase_def upd_def get_subjects_by_ids_then_def Let_def t_def [symmetric] subs_def [symmetric] launch_def out_def call_def
        reset_startup_gate_state_def split: if_splits option.splits) (simp_all add: t_def new_session_def)
  with keep show ?thesis by (simp add: not_official_records_nothing)
qed

definition ex_two :: core where
  "ex_two = ex_core\<lparr>co_subjects := [ex_subject ''S'' ''A'' True, ex_subject ''S2'' ''B'' False]\<rparr>"

theorem start_interrupts_other_subjects_witness:
  "official_streaming ex_two \<and> records_nothing (fst (start_stream_for_subjects ex_env (VDict [(''subject_ids'', VList [VStr ''S2''])]) ex_two))"
proof -
  let ?p = "VDict [(''subject_ids'', VList [VStr ''S2''])]"
  obtain s' es x where r: "start_stream_for_subjects ex_env ?p ex_two = (s', es, x)" by (metis prod_cases3)
  have "snd (snd (start_stream_for_subjects ex_env ?p ex_two)) = None" by code_simp
  with r have r': "start_stream_for_subjects ex_env ?p ex_two = (s', es, None)" by simp
  have "official_streaming ex_two" by code_simp
  moreover from start_interrupts_other_subjects [OF r', of "ex_subject ''S'' ''A'' True"] have "records_nothing s'"
    by (simp add: ex_two_def ex_subject_def ids_of_def val_simps)
  ultimately show ?thesis using r by simp
qed

text \<open>A start for an unknown subject raises, and leaves the phase in which neither a configuration nor a
  reset is accepted.\<close>

lemma failed_start_blocks_configuration:
  assumes "\<not> co_recovery_in_progress s" and "co_subjects s \<noteq> []" and "\<not> co_finalization_pending s"
    and "map_of (as_dict payload) ''subject_ids'' = Some (VList [VStr sid])" and "find_subject s sid = None"
  shows "\<exists>s' x y z. start_stream_for_subjects e payload s = (s', [], Some x) \<and> init_guards confs s' = (s', [], Some y) \<and>
    core_reset_session e' ctx s' = (s', [], Some z)"
proof -
  let ?s = "new_session e payload (s\<lparr>co_stream_phase := ''starting''\<rparr>)"
  have f: "find_subject ?s sid = None" using assms(5) by (simp add: find_subject_def new_session_def)
  have "start_stream_for_subjects e payload s = (?s, [], Some (''Subject(s) not found: ['' @ quoted sid @ '']''))"
    using assms f
    by (simp add: start_stream_for_subjects_def begin_start_def ensure_recovery_idle_def seq_def query_def raise_def skip_def
        set_phase_def upd_def get_subjects_by_ids_then_def Let_def)
  moreover have "core_acquiring ?s" "\<not> co_recovery_in_progress ?s" "\<not> co_finalization_pending ?s"
    using assms by (simp_all add: core_acquiring_def acquiring_phases_def new_session_def)
  ultimately show ?thesis
    by (simp add: init_guards_def core_reset_session_def ensure_recovery_idle_def ensure_disconnect_allowed_def seq_def query_def raise_def skip_def Let_def)
qed

end
