(* ===== verification/Algorithm_Host.thy ===== *)
theory Algorithm_Host
  imports Subjects Actions
begin

text \<open>
  Algorithm plugins behind their host process: \<^verbatim>\<open>plugins/runtime/algorithm_host.py\<close> (class
  \<open>AlgorithmHost\<close>) and the client side of \<^verbatim>\<open>plugins/runtime/algorithm_runtime.py\<close> and
  \<^verbatim>\<open>plugins/runtime/transport.py\<close>.

  A plugin is code of a third party, so it is a parameter, the record \<open>plugin\<close>: its constructor, what an
  instance does with a sample (the new instance, the results it emits in order, the exception), and its
  two optional executors. The states of instances and executors are of the type \<open>'p\<close>. A request to the
  host is a value of \<open>host_request\<close>; the JSON text of requests and answers, and objects rebuilt from it, are
  represented by the values they encode. Measured times are left out.
\<close>

type_synonym buffers = "(val, val list) dict"

record 'p plugin =
  pl_new :: "val \<Rightarrow> string + 'p"
  pl_on_sample :: "'p \<Rightarrow> sample \<Rightarrow> 'p \<times> val list \<times> string option"
  pl_intermediate :: "'p option"
  pl_should_run :: "'p \<Rightarrow> buffers \<Rightarrow> 'p \<times> (string + bool)"
  pl_run :: "'p \<Rightarrow> buffers \<Rightarrow> 'p \<times> (string + val)"
  pl_consolidation :: "'p option"
  pl_consolidate :: "'p \<Rightarrow> string \<Rightarrow> val list \<Rightarrow> 'p \<times> (string + val)"

section \<open>The host process\<close>

record 'p host =
  ho_instances :: "(string, 'p) dict"
  ho_instance_configs :: "(string, val) dict"
  ho_emitted_results :: "val list"
  ho_intermediate_executor :: "'p option"
  ho_consolidation_executor :: "'p option"

definition new_host :: "'p plugin \<Rightarrow> 'p host" where
  "new_host p = \<lparr>ho_instances = [], ho_instance_configs = [], ho_emitted_results = [],
     ho_intermediate_executor = pl_intermediate p, ho_consolidation_executor = pl_consolidation p\<rparr>"

datatype host_request =
    StartAlgorithm string val
  | ResetSession
  | IngestSample string sample
  | ShouldRunIntermediate buffers
  | RunIntermediate buffers
  | RunConsolidation string "val list"
  | RunBatch val "sample list"
  | Shutdown

definition host_start_algorithm :: "'p plugin \<Rightarrow> string \<Rightarrow> val \<Rightarrow> 'p host \<Rightarrow> 'p host \<times> (string + val)" where
  "host_start_algorithm p address params h =
     (let h = h\<lparr>ho_instance_configs := dput address params (ho_instance_configs h)\<rparr> in
      case pl_new p params of
        Inl x \<Rightarrow> (h, Inl x)
      | Inr i \<Rightarrow> (h\<lparr>ho_instances := dput address i (ho_instances h)\<rparr>,
                  Inr (VDict [(''address'', VStr address), (''started'', VBool True)])))"

fun recreate :: "'p plugin \<Rightarrow> (string \<times> val) list \<Rightarrow> (string, 'p) dict \<Rightarrow> (string, 'p) dict \<times> string option" where
  "recreate p [] d = (d, None)"
| "recreate p ((address, params) # cs) d = (case pl_new p params of
     Inl x \<Rightarrow> (d, Some x)
   | Inr i \<Rightarrow> recreate p cs (dput address i d))"

definition host_reset_session :: "'p plugin \<Rightarrow> 'p host \<Rightarrow> 'p host \<times> (string + val)" where
  "host_reset_session p h = (case recreate p (ho_instance_configs h) [] of (d, x) \<Rightarrow>
     (h\<lparr>ho_instances := d, ho_emitted_results := []\<rparr>,
      case x of Some x \<Rightarrow> Inl x
      | None \<Rightarrow> Inr (VDict [(''ok'', VBool True), (''reset_addresses'', VList (map VStr (dkeys (ho_instance_configs h))))])))"

definition key_error :: "string \<Rightarrow> string" where
  "key_error k = [CHR 0x27] @ k @ [CHR 0x27]"

definition host_ingest_sample :: "'p plugin \<Rightarrow> string \<Rightarrow> sample \<Rightarrow> 'p host \<Rightarrow> 'p host \<times> (string + val)" where
  "host_ingest_sample p address x h = (case map_of (ho_instances h) address of
     None \<Rightarrow> (h, Inl (key_error address))
   | Some i \<Rightarrow> (case pl_on_sample p i x of (i', rs, exc) \<Rightarrow>
       (let h' = h\<lparr>ho_instances := dput address i' (ho_instances h)\<rparr> in
        case exc of
          Some e \<Rightarrow> (h'\<lparr>ho_emitted_results := rs\<rparr>, Inl e)
        | None \<Rightarrow> (h'\<lparr>ho_emitted_results := []\<rparr>, Inr (VDict [(''results'', VList rs)])))))"

definition host_should_run_intermediate :: "'p plugin \<Rightarrow> buffers \<Rightarrow> 'p host \<Rightarrow> 'p host \<times> (string + val)" where
  "host_should_run_intermediate p bufs h = (case ho_intermediate_executor h of
     None \<Rightarrow> (h, Inr (VBool False))
   | Some i \<Rightarrow> (case pl_should_run p i bufs of (i', r) \<Rightarrow>
       (h\<lparr>ho_intermediate_executor := Some i'\<rparr>, map_sum id VBool r)))"

definition host_run_intermediate :: "'p plugin \<Rightarrow> buffers \<Rightarrow> 'p host \<Rightarrow> 'p host \<times> (string + val)" where
  "host_run_intermediate p bufs h = (case ho_intermediate_executor h of
     None \<Rightarrow> (h, Inr VNone)
   | Some i \<Rightarrow> (case pl_run p i bufs of (i', r) \<Rightarrow> (h\<lparr>ho_intermediate_executor := Some i'\<rparr>, r)))"

definition host_run_consolidation :: "'p plugin \<Rightarrow> string \<Rightarrow> val list \<Rightarrow> 'p host \<Rightarrow> 'p host \<times> (string + val)" where
  "host_run_consolidation p sid records h = (case ho_consolidation_executor h of
     None \<Rightarrow> (h, Inr VNone)
   | Some i \<Rightarrow> (case pl_consolidate p i sid records of (i', r) \<Rightarrow> (h\<lparr>ho_consolidation_executor := Some i'\<rparr>, r)))"

fun batch :: "'p plugin \<Rightarrow> 'p \<Rightarrow> sample list \<Rightarrow> val list \<Rightarrow> val list \<times> string option" where
  "batch p i [] rs = (rs, None)"
| "batch p i (x # xs) rs = (case pl_on_sample p i x of
     (i', rs', None) \<Rightarrow> batch p i' xs (rs @ rs')
   | (i', rs', Some e) \<Rightarrow> (rs @ rs', Some e))"

definition host_run_batch :: "'p plugin \<Rightarrow> val \<Rightarrow> sample list \<Rightarrow> 'p host \<Rightarrow> 'p host \<times> (string + val)" where
  "host_run_batch p params xs h = (case pl_new p params of
     Inl e \<Rightarrow> (h, Inl e)
   | Inr i \<Rightarrow> (case batch p i xs [] of
        (rs, Some e) \<Rightarrow> (h\<lparr>ho_emitted_results := rs\<rparr>, Inl e)
      | (rs, None) \<Rightarrow> (h\<lparr>ho_emitted_results := []\<rparr>, Inr (VDict [(''results'', VList rs)]))))"

definition host_shutdown :: "'p host \<Rightarrow> 'p host \<times> (string + val)" where
  "host_shutdown h = (h\<lparr>ho_instances := [], ho_instance_configs := [], ho_emitted_results := []\<rparr>,
     Inr (VDict [(''ok'', VBool True)]))"

text \<open>The request loop of \<open>main\<close>: an exception of a method becomes the error of its answer.\<close>

fun host_serve :: "'p plugin \<Rightarrow> host_request \<Rightarrow> 'p host \<Rightarrow> 'p host \<times> (string + val)" where
  "host_serve p (StartAlgorithm address params) h = host_start_algorithm p address params h"
| "host_serve p ResetSession h = host_reset_session p h"
| "host_serve p (IngestSample address x) h = host_ingest_sample p address x h"
| "host_serve p (ShouldRunIntermediate bufs) h = host_should_run_intermediate p bufs h"
| "host_serve p (RunIntermediate bufs) h = host_run_intermediate p bufs h"
| "host_serve p (RunConsolidation sid records) h = host_run_consolidation p sid records h"
| "host_serve p (RunBatch params xs) h = host_run_batch p params xs h"
| "host_serve p Shutdown h = host_shutdown h"

section \<open>The transport\<close>

text \<open>What happens to a request between the processes: it is answered, it is never executed, or it is
  executed and the answer does not arrive in time. A request on a closed transport is refused.\<close>

datatype link = Answered | NotSent string | AnswerLost string

record 'p client =
  cl_plugin :: "'p plugin"
  cl_closed :: bool
  cl_host :: "'p host"

definition transport_request :: "link \<Rightarrow> host_request \<Rightarrow> 'p client \<Rightarrow> 'p client \<times> (string + val)" where
  "transport_request l c cl =
     (if cl_closed cl then (cl, Inl ''plugin transport is closed'')
      else case l of
        NotSent x \<Rightarrow> (cl, Inl x)
      | AnswerLost x \<Rightarrow> (cl\<lparr>cl_host := fst (host_serve (cl_plugin cl) c (cl_host cl))\<rparr>, Inl x)
      | Answered \<Rightarrow> (case host_serve (cl_plugin cl) c (cl_host cl) of (h, r) \<Rightarrow> (cl\<lparr>cl_host := h\<rparr>, r)))"

definition transport_close :: "link \<Rightarrow> 'p client \<Rightarrow> 'p client" where
  "transport_close l cl = (if cl_closed cl then cl
     else (fst (transport_request l Shutdown cl))\<lparr>cl_closed := True\<rparr>)"

section \<open>Isolation of the sensors that share a host\<close>

text \<open>The reference: an instance that gets the samples of one sensor and nothing else. The results of a
  sample whose callback raises are not returned.\<close>

fun alone :: "'p plugin \<Rightarrow> 'p \<Rightarrow> sample list \<Rightarrow> 'p \<times> val list" where
  "alone p i [] = (i, [])"
| "alone p i (x # xs) = (case pl_on_sample p i x of (i', rs, exc) \<Rightarrow>
     (case alone p i' xs of (i'', rs') \<Rightarrow> (i'', (if exc = None then rs else []) @ rs')))"

lemma alone_append:
  "alone p i (xs @ ys) = (case alone p i xs of (i', rs) \<Rightarrow> case alone p i' ys of (i'', rs') \<Rightarrow> (i'', rs @ rs'))"
  by (induction xs arbitrary: i) (auto split: prod.splits)

text \<open>A host that gets the samples of several sensors, in any order, with the results it answers.\<close>

fun host_ingest_all :: "'p plugin \<Rightarrow> (string \<times> sample) list \<Rightarrow> 'p host \<Rightarrow> 'p host \<times> (string \<times> val list) list" where
  "host_ingest_all p [] h = (h, [])"
| "host_ingest_all p ((address, x) # xs) h = (case host_serve p (IngestSample address x) h of (h', r) \<Rightarrow>
     (case host_ingest_all p xs h' of (h'', rs) \<Rightarrow>
       (h'', (address, case r of Inl e \<Rightarrow> [] | Inr v \<Rightarrow> as_list (vget v ''results'')) # rs)))"

definition sensor_samples :: "string \<Rightarrow> (string \<times> sample) list \<Rightarrow> sample list" where
  "sensor_samples a xs = map snd (filter (\<lambda>(b, _). b = a) xs)"

definition answers_of :: "string \<Rightarrow> (string \<times> val list) list \<Rightarrow> val list" where
  "answers_of a rs = concat (map snd (filter (\<lambda>(b, _). b = a) rs))"

lemma sensor_samples_simps [simp]:
  "sensor_samples a [] = []" "sensor_samples a ((b, x) # xs) = (if b = a then x # sensor_samples a xs else sensor_samples a xs)"
  by (simp_all add: sensor_samples_def)

lemma answers_of_simps [simp]:
  "answers_of a [] = []" "answers_of a ((b, r) # rs) = (if b = a then r @ answers_of a rs else answers_of a rs)"
  by (simp_all add: answers_of_def)

lemma host_ingest_instances:
  "map_of (ho_instances (fst (host_ingest_sample p b x h))) =
     (case map_of (ho_instances h) b of None \<Rightarrow> map_of (ho_instances h)
      | Some i \<Rightarrow> (map_of (ho_instances h))(b \<mapsto> fst (pl_on_sample p i x)))"
  by (auto simp: host_ingest_sample_def Let_def split: option.splits prod.splits)

lemma host_ingest_answer:
  "map_of (ho_instances h) b = Some i \<Longrightarrow>
   (case snd (host_ingest_sample p b x h) of Inl e \<Rightarrow> [] | Inr v \<Rightarrow> as_list (vget v ''results'')) =
   (case pl_on_sample p i x of (i', rs, exc) \<Rightarrow> if exc = None then rs else [])"
  by (auto simp: host_ingest_sample_def Let_def val_simps split: option.splits prod.splits)

lemma host_isolation:
  "map_of (ho_instances h) a = Some i \<Longrightarrow> host_ingest_all p xs h = (h', rs) \<Longrightarrow>
   map_of (ho_instances h') a = Some (fst (alone p i (sensor_samples a xs))) \<and>
   answers_of a rs = snd (alone p i (sensor_samples a xs))"
proof (induction xs arbitrary: h i h' rs)
  case (Cons bx xs)
  obtain b x where bx: "bx = (b, x)" by (cases bx)
  define h1 where "h1 = fst (host_ingest_sample p b x h)"
  define r where "r = snd (host_ingest_sample p b x h)"
  obtain h2 rs2 where rest: "host_ingest_all p xs h1 = (h2, rs2)" by (cases "host_ingest_all p xs h1")
  have out: "h' = h2" "rs = (b, case r of Inl e \<Rightarrow> [] | Inr v \<Rightarrow> as_list (vget v ''results'')) # rs2"
    using Cons.prems(2) rest by (simp_all add: bx h1_def r_def split: prod.splits)
  show ?case
  proof (cases "b = a")
    case True
    obtain j ys exc where s: "pl_on_sample p i x = (j, ys, exc)" by (cases "pl_on_sample p i x")
    have "map_of (ho_instances h1) a = Some j"
      using Cons.prems(1) s True by (simp add: h1_def host_ingest_instances)
    from Cons.IH [OF this rest] show ?thesis
      using True s Cons.prems(1) host_ingest_answer [of h a i p x]
      by (simp add: bx out r_def split: prod.splits)
  next
    case False
    then have "map_of (ho_instances h1) a = Some i"
      using Cons.prems(1) by (simp add: h1_def host_ingest_instances split: option.splits)
    from Cons.IH [OF this rest] False show ?thesis by (simp add: bx out)
  qed
qed simp

text \<open>A session reset gives every configured sensor a fresh instance, when the constructor succeeds.\<close>

lemma recreate_all:
  "\<forall>(a, c) \<in> set cs. \<exists>i. pl_new p c = Inr i \<Longrightarrow> distinct (dkeys cs) \<Longrightarrow>
   snd (recreate p cs d) = None \<and>
   map_of (fst (recreate p cs d)) a = (case map_of cs a of None \<Rightarrow> map_of d a | Some c \<Rightarrow> Some (projr (pl_new p c)))"
proof (induction cs arbitrary: d)
  case (Cons ac cs)
  obtain b c where bc: "ac = (b, c)" by (cases ac)
  with Cons.prems obtain i where i: "pl_new p c = Inr i" by auto
  from Cons.prems bc have "map_of cs b = None" by (auto simp: map_of_eq_None_iff)
  with Cons.IH [of "dput b i d"] Cons.prems i show ?case by (auto simp: bc split: option.splits)
qed simp

lemma host_reset_fresh:
  assumes "\<forall>(a, c) \<in> set (ho_instance_configs h). \<exists>i. pl_new p c = Inr i"
    and "distinct (dkeys (ho_instance_configs h))"
  shows "\<exists>v. snd (host_reset_session p h) = Inr v"
    and "map_of (ho_instances (fst (host_reset_session p h))) a =
      map_option (\<lambda>c. projr (pl_new p c)) (map_of (ho_instance_configs h) a)"
  using recreate_all [OF assms, of "[]" a]
  by (auto simp: host_reset_session_def split: prod.splits option.splits)

text \<open>A configuration whose constructor raises makes every later session reset of its host fail: it is
  stored before the instance is built.\<close>

lemma recreate_fails:
  "(a, c) \<in> set cs \<Longrightarrow> pl_new p c = Inl x \<Longrightarrow> snd (recreate p cs d) \<noteq> None"
  by (induction cs arbitrary: d) (auto split: sum.splits)

lemma failed_start_poisons_reset:
  assumes "pl_new p params = Inl x"
  shows "\<exists>y. snd (host_reset_session p (fst (host_serve p (StartAlgorithm a params) h))) = Inl y"
proof -
  have "map_of (dput a params (ho_instance_configs h)) a = Some params" by simp
  then have "(a, params) \<in> set (dput a params (ho_instance_configs h))" by (rule map_of_SomeD)
  from recreate_fails [OF this assms, of "[]"] assms show ?thesis
    by (auto simp: host_reset_session_def host_start_algorithm_def split: prod.splits option.splits)
qed

end
