(* ===== verification/Compute_Manager.thy ===== *)
theory Compute_Manager
  imports Algorithm_Host
begin

text \<open>
  Running algorithms on samples: \<^verbatim>\<open>compute_manager/compute_manager.py\<close> (class \<open>ComputeManager\<close>),
  \<^verbatim>\<open>intermediate_stage.py\<close>, \<^verbatim>\<open>consolidation_stage.py\<close>, \<^verbatim>\<open>result_router.py\<close> and
  \<^verbatim>\<open>remote_compute_service.py\<close> beside it, the client side of the plugin runtime
  (\<^verbatim>\<open>plugins/runtime/algorithm_runtime.py\<close>) and \<^verbatim>\<open>core/orchestrators/compute_orchestrator.py\<close>.

  The state of all of them is the record \<open>compute\<close>: the core has exactly one of each. Algorithm and
  executor objects are proxies of a host client, so they are represented by the client's key. Calls to
  listeners and to the file manager are effects. \<open>penv\<close> holds what a step takes from outside: the
  clock, the fate of each request to a host, the installed plugins, the exceptions of the listeners and
  what the file manager reads. Times are in nanoseconds; the measurements of the plugin host, and the
  cadence drift computed from them, are left out.
\<close>

section \<open>State\<close>

record queued =
  qd_sample :: sample
  qd_timing :: "(string, val) dict"
  qd_enqueued_ns :: int
  qd_depth :: nat

record performance =
  pf_algorithm_name :: val
  pf_address :: val
  pf_result_count :: val
  pf_received_ns :: int
  pf_samples_since_result :: nat
  pf_interval_ns :: "int option"
  pf_trigger :: "(string, val) dict"
  pf_queue_wait_ns :: "int option"
  pf_enqueue_to_result_ns :: "int option"
  pf_trigger_to_result_ns :: "int option"
  pf_depth :: "nat option"

record 'p compute =
  cm_algorithms :: "(string, string) dict"
  cm_queue :: "queued list"
  cm_context :: "(queued \<times> int) option"
  cm_last_result_ns :: "(val \<times> val, int) dict"
  cm_samples_since_result :: "(val, nat) dict"
  cm_intermediate_executors :: "(val, string) dict"
  cm_results :: "(val, buffers) dict"
  cm_consolidation_executors :: "(val, string) dict"
  cm_remote_counts :: "(val \<times> val, int) dict"
  cm_clients :: "(string, 'p client) dict"
  cm_registered_executors :: "val list"
  cm_registered_consolidation :: "val list"

datatype peffect =
    PResult val
  | PIntermediate val
  | PPerformance performance
  | PError string
  | PWriteConsolidated string val val
  | PConsolidated val

record 'p penv =
  pe_now_ns :: int
  pe_link :: "string \<Rightarrow> host_request \<Rightarrow> link"
  pe_find_plugin :: "string \<Rightarrow> 'p plugin option"
  pe_spawn_error :: "string \<Rightarrow> string option"
  pe_result_listener :: "val \<Rightarrow> string option"
  pe_intermediate_listener :: "val \<Rightarrow> string option"
  pe_performance_listener :: "performance \<Rightarrow> string option"
  pe_read_intermediate :: "string \<Rightarrow> val \<Rightarrow> val list"
  pe_write_error :: "string \<Rightarrow> val \<Rightarrow> string option"
  pe_sampling_rate :: "sensor_entry \<Rightarrow> val"

type_synonym 'p compute_action = "('p compute, peffect) action"

definition new_compute :: "'p compute" where
  "new_compute = \<lparr>cm_algorithms = [], cm_queue = [], cm_context = None, cm_last_result_ns = [], cm_samples_since_result = [],
     cm_intermediate_executors = [], cm_results = [], cm_consolidation_executors = [], cm_remote_counts = [], cm_clients = [],
     cm_registered_executors = [], cm_registered_consolidation = []\<rparr>"

definition max_results_per_stream :: nat where
  "max_results_per_stream = 1000"

section \<open>Host clients\<close>

text \<open>A request to the host of a client, then the rest of the caller. A client that the runtime has
  closed is not in the dictionary any more; its transport refuses.\<close>

definition request_then :: "'p penv \<Rightarrow> string \<Rightarrow> host_request \<Rightarrow> (val \<Rightarrow> 'p compute_action) \<Rightarrow> 'p compute_action" where
  "request_then e k c cont = query (\<lambda>s. case map_of (cm_clients s) k of
     None \<Rightarrow> raise ''plugin transport is closed''
   | Some cl \<Rightarrow> (case transport_request (pe_link e k c) c cl of (cl', r) \<Rightarrow>
       seq (upd (\<lambda>s. s\<lparr>cm_clients := dput k cl' (cm_clients s)\<rparr>))
         (case r of Inl x \<Rightarrow> raise x | Inr v \<Rightarrow> cont v)))"

definition normalize_algorithm_name :: "val \<Rightarrow> string" where
  "normalize_algorithm_name name = py_lower (py_strip (py_str name))"

definition get_algorithm_client_then :: "'p penv \<Rightarrow> val \<Rightarrow> (string option \<Rightarrow> 'p compute_action) \<Rightarrow> 'p compute_action" where
  "get_algorithm_client_then e name cont = query (\<lambda>s. let k = normalize_algorithm_name name in
     case map_of (cm_clients s) k of
       Some cl \<Rightarrow> cont (Some k)
     | None \<Rightarrow> (case pe_find_plugin e k of
         None \<Rightarrow> cont None
       | Some p \<Rightarrow> (case pe_spawn_error e k of
           Some x \<Rightarrow> raise x
         | None \<Rightarrow> seq (upd (\<lambda>s. s\<lparr>cm_clients := dput k \<lparr>cl_plugin = p, cl_closed = False, cl_host = new_host p\<rparr> (cm_clients s)\<rparr>))
                    (cont (Some k)))))"

definition runtime_reset_session :: "'p penv \<Rightarrow> 'p compute_action" where
  "runtime_reset_session e = query (\<lambda>s. for_each (dkeys (cm_clients s)) (\<lambda>k. request_then e k ResetSession (\<lambda>_. skip)))"

definition runtime_close :: "'p compute_action" where
  "runtime_close = upd (\<lambda>s. s\<lparr>cm_clients := []\<rparr>)"

section \<open>The intermediate stage\<close>

definition buffers_of :: "val \<Rightarrow> 'p compute \<Rightarrow> buffers" where
  "buffers_of algo s = dget_or (cm_results s) algo []"

definition buffer_result :: "val \<Rightarrow> val \<Rightarrow> val \<Rightarrow> 'p compute \<Rightarrow> 'p compute" where
  "buffer_result algo address r s = s\<lparr>cm_results := dput algo
     (dput address (deque_append max_results_per_stream r (dget_or (buffers_of algo s) address [])) (buffers_of algo s)) (cm_results s)\<rparr>"

definition attribute :: "val \<Rightarrow> string \<Rightarrow> (val \<Rightarrow> 'p compute_action) \<Rightarrow> 'p compute_action" where
  "attribute r k cont = (case map_of (as_dict r) k of
     None \<Rightarrow> raise (key_error ''RemoteComputeResult'' @ '' object has no attribute '' @ key_error k)
   | Some v \<Rightarrow> cont v)"

definition hashable_key :: "val \<Rightarrow> bool" where
  "hashable_key v = (case v of VList _ \<Rightarrow> False | VDict _ \<Rightarrow> False | _ \<Rightarrow> True)"

definition error_cb :: "string \<Rightarrow> 'p compute_action" where
  "error_cb x = out (PError x)"

text \<open>\<open>handle_result\<close>: the executor runs on the buffers of its algorithm; only the exceptions of \<open>run\<close> are
  caught.\<close>

definition run_executor_then :: "'p penv \<Rightarrow> val \<Rightarrow> (val \<Rightarrow> 'p compute_action) \<Rightarrow> 'p compute_action" where
  "run_executor_then e algo cont = query (\<lambda>s.
     case map_of (cm_intermediate_executors s) algo of
       None \<Rightarrow> cont VNone
     | Some k \<Rightarrow> request_then e k (ShouldRunIntermediate (buffers_of algo s)) (\<lambda>b.
         if \<not> truthy b then cont VNone
         else query (\<lambda>s. case map_of (cm_clients s) k of
           None \<Rightarrow> seq (error_cb (''Intermediate executor failed for '' @ py_str algo @ '': plugin transport is closed'')) (cont VNone)
         | Some cl \<Rightarrow> (case transport_request (pe_link e k (RunIntermediate (buffers_of algo s))) (RunIntermediate (buffers_of algo s)) cl of (cl', res) \<Rightarrow>
             seq (upd (\<lambda>s. s\<lparr>cm_clients := dput k cl' (cm_clients s)\<rparr>))
               (case res of
                  Inl x \<Rightarrow> seq (error_cb (''Intermediate executor failed for '' @ py_str algo @ '': '' @ x)) (cont VNone)
                | Inr v \<Rightarrow> cont v)))))"

definition stage_handle_result_then :: "'p penv \<Rightarrow> val \<Rightarrow> (val \<Rightarrow> 'p compute_action) \<Rightarrow> 'p compute_action" where
  "stage_handle_result_then e r cont = attribute r ''algorithm_name'' (\<lambda>algo. attribute r ''address'' (\<lambda>address.
     if \<not> hashable_key algo \<or> \<not> hashable_key address then raise ''unhashable type''
     else seq (upd (buffer_result algo address r)) (run_executor_then e algo cont)))"

text \<open>\<open>get_results\<close>, which also creates the buffers that it reads.\<close>

definition slice_last :: "int option \<Rightarrow> 'a list \<Rightarrow> 'a list" where
  "slice_last limit xs = (case limit of None \<Rightarrow> xs
     | Some n \<Rightarrow> if n = 0 then xs else slice_from (- n) xs)"

definition get_results :: "val \<Rightarrow> val \<Rightarrow> int option \<Rightarrow> 'p compute \<Rightarrow> 'p compute \<times> val list" where
  "get_results algo address limit s =
     (if truthy address
      then (s\<lparr>cm_results := dput algo (dput address (dget_or (buffers_of algo s) address []) (buffers_of algo s)) (cm_results s)\<rparr>,
            slice_last limit (dget_or (buffers_of algo s) address []))
      else (s\<lparr>cm_results := dput algo (buffers_of algo s) (cm_results s)\<rparr>,
            slice_last limit (concat (dvalues (buffers_of algo s)))))"

section \<open>The compute manager\<close>

definition register_algorithm :: "string \<Rightarrow> string \<Rightarrow> 'p compute \<Rightarrow> 'p compute" where
  "register_algorithm address k s = s\<lparr>cm_algorithms := dput address k (cm_algorithms s)\<rparr>"

definition has_algorithm :: "string \<Rightarrow> 'p compute \<Rightarrow> bool" where
  "has_algorithm address s \<longleftrightarrow> address \<in> set (dkeys (cm_algorithms s))"

definition register_intermediate_executor :: "val \<Rightarrow> string \<Rightarrow> 'p compute \<Rightarrow> 'p compute" where
  "register_intermediate_executor name k s = s\<lparr>cm_intermediate_executors := dput name k (cm_intermediate_executors s)\<rparr>"

definition register_consolidation_executor :: "val \<Rightarrow> string \<Rightarrow> 'p compute \<Rightarrow> 'p compute" where
  "register_consolidation_executor name k s = s\<lparr>cm_consolidation_executors := dput name k (cm_consolidation_executors s)\<rparr>"

definition intermediate_stage_reset :: "'p compute \<Rightarrow> 'p compute" where
  "intermediate_stage_reset s = s\<lparr>cm_intermediate_executors := [], cm_results := []\<rparr>"

definition consolidation_stage_reset :: "'p compute \<Rightarrow> 'p compute" where
  "consolidation_stage_reset s = s\<lparr>cm_consolidation_executors := []\<rparr>"

definition manager_reset_session :: "'p compute \<Rightarrow> 'p compute" where
  "manager_reset_session s = (consolidation_stage_reset (intermediate_stage_reset s))\<lparr>
     cm_last_result_ns := [], cm_samples_since_result := [], cm_queue := []\<rparr>"

definition manager_reset :: "'p compute \<Rightarrow> 'p compute" where
  "manager_reset s = (consolidation_stage_reset (intermediate_stage_reset (s\<lparr>cm_algorithms := []\<rparr>)))\<lparr>
     cm_last_result_ns := [], cm_samples_since_result := [], cm_queue := []\<rparr>"

definition setdefault :: "string \<Rightarrow> val \<Rightarrow> (string, val) dict \<Rightarrow> (string, val) dict" where
  "setdefault k v d = (if map_of d k = None then d @ [(k, v)] else d)"

definition manager_ingest_sample :: "'p penv \<Rightarrow> sample \<Rightarrow> (string, val) dict \<Rightarrow> 'p compute \<Rightarrow> 'p compute" where
  "manager_ingest_sample e x timing s = s\<lparr>cm_queue := cm_queue s @ [\<lparr>qd_sample = x,
     qd_timing = setdefault ''source_timestamp'' (vget (sa_data x) ''timestamp'')
       (setdefault ''host_receive_monotonic_ns'' (VInt (pe_now_ns e)) timing),
     qd_enqueued_ns = pe_now_ns e, qd_depth = length (cm_queue s)\<rparr>]\<rparr>"

text \<open>\<open>_build_compute_performance\<close>\<close>

definition trigger_keys :: "string list" where
  "trigger_keys = [''source_timestamp'', ''gateway_timestamp_us'', ''host_receive_monotonic_ns'', ''core_receive_monotonic_ns'',
     ''normalized_session_ns'']"

definition timing_ns :: "(string, val) dict \<Rightarrow> string \<Rightarrow> int option" where
  "timing_ns d k = (case map_of d k of Some (VInt n) \<Rightarrow> Some n | _ \<Rightarrow> None)"

definition build_compute_performance :: "'p penv \<Rightarrow> val \<Rightarrow> 'p compute \<Rightarrow> performance" where
  "build_compute_performance e r s =
     (let name = vget r ''algorithm_name''; address = vget r ''address''; now = pe_now_ns e;
          timing = (case cm_context s of None \<Rightarrow> [] | Some (q, _) \<Rightarrow> qd_timing q) in
      \<lparr>pf_algorithm_name = name, pf_address = address, pf_result_count = vget r ''result_count'', pf_received_ns = now,
       pf_samples_since_result = dget_or (cm_samples_since_result s) address 0,
       pf_interval_ns = map_option (\<lambda>prev. now - prev) (map_of (cm_last_result_ns s) (name, address)),
       pf_trigger = List.map_filter (\<lambda>k. case map_of timing k of None \<Rightarrow> None
          | Some v \<Rightarrow> if v = VNone then None else Some (k, v)) trigger_keys,
       pf_queue_wait_ns = map_option (\<lambda>(q, dispatched). dispatched - qd_enqueued_ns q) (cm_context s),
       pf_enqueue_to_result_ns = map_option (\<lambda>(q, _). now - qd_enqueued_ns q) (cm_context s),
       pf_trigger_to_result_ns = map_option (\<lambda>host. now - host) (timing_ns timing ''host_receive_monotonic_ns''),
       pf_depth = map_option (\<lambda>(q, _). qd_depth q) (cm_context s)\<rparr>)"

definition note_result :: "'p penv \<Rightarrow> val \<Rightarrow> 'p compute \<Rightarrow> 'p compute" where
  "note_result e r s = s\<lparr>cm_samples_since_result := dput (vget r ''address'') 0 (cm_samples_since_result s),
     cm_last_result_ns := dput (vget r ''algorithm_name'', vget r ''address'') (pe_now_ns e) (cm_last_result_ns s)\<rparr>"

definition listener :: "peffect \<Rightarrow> string option \<Rightarrow> 'p compute_action" where
  "listener eff exc = seq (out eff) (case exc of None \<Rightarrow> skip | Some x \<Rightarrow> raise x)"

definition router_handle_result :: "'p penv \<Rightarrow> val \<Rightarrow> 'p compute_action" where
  "router_handle_result e r = seq (listener (PResult r) (pe_result_listener e r))
     (stage_handle_result_then e r (\<lambda>v. if truthy v then listener (PIntermediate v) (pe_intermediate_listener e v) else skip))"

definition on_algorithm_result :: "'p penv \<Rightarrow> val \<Rightarrow> 'p compute_action" where
  "on_algorithm_result e r = attribute r ''algorithm_name'' (\<lambda>_.
     if \<not> hashable_key (vget r ''algorithm_name'') \<or> \<not> hashable_key (vget r ''address'') then raise ''unhashable type''
     else query (\<lambda>s. let perf = build_compute_performance e r s in
       seq (upd (note_result e r))
       (seq (router_handle_result e r)
         (catch (listener (PPerformance perf) (pe_performance_listener e perf))
           (\<lambda>x. error_cb (''Error emitting compute performance diagnostics: '' @ x))))))"

text \<open>One turn of the worker loop: \<open>on_sample\<close> of the proxy asks the host and hands its results on.\<close>

definition count_sample :: "string \<Rightarrow> 'p compute \<Rightarrow> 'p compute" where
  "count_sample address s = s\<lparr>cm_samples_since_result :=
     dput (VStr address) (Suc (dget_or (cm_samples_since_result s) (VStr address) 0)) (cm_samples_since_result s)\<rparr>"

definition on_sample :: "'p penv \<Rightarrow> string \<Rightarrow> sample \<Rightarrow> 'p compute_action" where
  "on_sample e k x = request_then e k (IngestSample (sa_address x) x) (\<lambda>v.
     for_each (as_list (vget v ''results'')) (on_algorithm_result e))"

definition worker_step :: "'p penv \<Rightarrow> 'p compute_action" where
  "worker_step e = query (\<lambda>s. case cm_queue s of
     [] \<Rightarrow> skip
   | q # qs \<Rightarrow> seq (upd (\<lambda>s. s\<lparr>cm_queue := qs\<rparr>))
       (case map_of (cm_algorithms s) (sa_address (qd_sample q)) of
          None \<Rightarrow> skip
        | Some k \<Rightarrow> seq (upd (\<lambda>s. s\<lparr>cm_context := Some (q, pe_now_ns e)\<rparr>))
           (seq (upd (count_sample (sa_address (qd_sample q))))
           (seq (catch (on_sample e k (qd_sample q))
                   (\<lambda>x. error_cb (''Error processing sample from '' @ sa_address (qd_sample q) @ '': '' @ x)))
             (upd (\<lambda>s. s\<lparr>cm_context := None\<rparr>))))))"

section \<open>Remote results\<close>

definition on_remote_result :: "'p penv \<Rightarrow> val \<Rightarrow> 'p compute_action" where
  "on_remote_result e r = query (\<lambda>s.
     case (map_of (as_dict r) ''algorithm_name'', map_of (as_dict r) ''address'') of
       (Some algo, Some address) \<Rightarrow>
         if \<not> hashable_key algo \<or> \<not> hashable_key address
         then seq (error_cb ''Remote result count update failed: unhashable type'') (on_algorithm_result e r)
         else (let n = dget_or (cm_remote_counts s) (algo, address) 0 + 1 in
           seq (upd (\<lambda>s. s\<lparr>cm_remote_counts := dput (algo, address) n (cm_remote_counts s)\<rparr>))
             (on_algorithm_result e (if map_of (as_dict r) ''result_count'' = None then r else vput ''result_count'' (VInt n) r)))
     | _ \<Rightarrow> seq (error_cb ''Remote result count update failed: missing attribute'') (on_algorithm_result e r))"

text \<open>\<open>_select_ai_endpoint\<close>: the first registered compute node that supports the algorithm.\<close>

definition supports :: "val \<Rightarrow> val \<Rightarrow> bool" where
  "supports name data \<longleftrightarrow> \<not> truthy name \<or>
     normalize_algorithm_name name \<in> set (filter (\<lambda>n. n \<noteq> []) (map normalize_algorithm_name
       (as_list (vget_or (py_or (vget data ''capabilities'') (VDict [])) ''supported_algorithms'' (VList [])))))"

fun select_ai_endpoint :: "(string, val) dict \<Rightarrow> val \<Rightarrow> string option" where
  "select_ai_endpoint [] name = None"
| "select_ai_endpoint ((_, data) # others) name =
     (if supports name data \<and> truthy (vget data ''ip'') \<and> truthy (vget data ''compute_port'')
      then Some (''tcp://'' @ py_str (vget data ''ip'') @ '':'' @ py_str (vget data ''compute_port''))
      else select_ai_endpoint others name)"

section \<open>The compute orchestrator\<close>

definition orchestrator_reset :: "'p penv \<Rightarrow> 'p compute_action" where
  "orchestrator_reset e = seq (upd manager_reset) (seq runtime_close
     (upd (\<lambda>s. s\<lparr>cm_registered_executors := [], cm_registered_consolidation := []\<rparr>)))"

definition orchestrator_reset_session :: "'p penv \<Rightarrow> 'p compute_action" where
  "orchestrator_reset_session e = seq (runtime_reset_session e) (upd manager_reset_session)"

definition start_params :: "'p penv \<Rightarrow> string \<Rightarrow> sensor_entry \<Rightarrow> string \<Rightarrow> val" where
  "start_params e sid en address = VDict [(''address'', VStr address), (''sampling_rate'', pe_sampling_rate e en),
     (''input_parameters'', vget (sm_algorithm (se_meta en)) ''inputs''), (''subject_id'', VStr sid),
     (''location'', sm_location (se_meta en))]"

definition register_once :: "val \<Rightarrow> string \<Rightarrow> 'p compute \<Rightarrow> 'p compute" where
  "register_once name k s =
     (let s1 = (if name \<in> set (cm_registered_executors s) then s
                else (register_intermediate_executor name k s)\<lparr>cm_registered_executors := cm_registered_executors s @ [name]\<rparr>)
      in if name \<in> set (cm_registered_consolidation s1) then s1
         else (register_consolidation_executor name k s1)\<lparr>cm_registered_consolidation := cm_registered_consolidation s1 @ [name]\<rparr>)"

definition register_sensor :: "'p penv \<Rightarrow> string \<Rightarrow> sensor_entry \<Rightarrow> 'p compute_action" where
  "register_sensor e sid en = (case se_address en of
     None \<Rightarrow> skip
   | Some address \<Rightarrow> (let name = vget (sm_algorithm (se_meta en)) ''name'' in
       if \<not> truthy name then skip
       else get_algorithm_client_then e name (\<lambda>client. case client of
           None \<Rightarrow> error_cb (''Failed to resolve algorithm plugin '' @ key_error (py_str name) @ '' for sensor '' @ address @
                     '': plugin is not installed or not enabled'')
         | Some k \<Rightarrow> seq (upd (register_once name k)) (query (\<lambda>s.
             if has_algorithm address s then skip
             else request_then e k (StartAlgorithm address (start_params e sid en address)) (\<lambda>_.
               upd (register_algorithm address k)))))))"

definition register_algorithms :: "'p penv \<Rightarrow> subject list \<Rightarrow> 'p compute_action" where
  "register_algorithms e subs = for_each subs (\<lambda>sub. for_each (sb_sensors sub) (register_sensor e (sb_subject_id sub)))"

text \<open>\<open>run_for_subject\<close> and \<open>run_consolidation\<close>: a consolidated payload is kept when it is a dictionary. The
  payloads returned to the core are the effects \<open>PConsolidated\<close>.\<close>

definition run_for_subject_then ::
  "'p penv \<Rightarrow> string \<Rightarrow> val \<Rightarrow> val list \<Rightarrow> (val \<Rightarrow> 'p compute_action) \<Rightarrow> 'p compute_action" where
  "run_for_subject_then e sid name records cont = query (\<lambda>s. case map_of (cm_consolidation_executors s) name of
     None \<Rightarrow> cont VNone
   | Some k \<Rightarrow> (case map_of (cm_clients s) k of
       None \<Rightarrow> seq (error_cb (''Consolidation executor failed for '' @ py_str name @ '': plugin transport is closed'')) (cont VNone)
     | Some cl \<Rightarrow> (case transport_request (pe_link e k (RunConsolidation sid records)) (RunConsolidation sid records) cl of (cl', res) \<Rightarrow>
         seq (upd (\<lambda>s. s\<lparr>cm_clients := dput k cl' (cm_clients s)\<rparr>))
           (case res of
              Inl x \<Rightarrow> seq (error_cb (''Consolidation executor failed for '' @ py_str name @ '': '' @ x)) (cont VNone)
            | Inr v \<Rightarrow> cont v))))"

definition subject_algorithms :: "subject \<Rightarrow> val list" where
  "subject_algorithms sub = sort_key py_str (remdups (filter truthy
     (map (\<lambda>en. vget (py_or (sm_algorithm (se_meta en)) (VDict [])) ''name'') (sb_sensors sub))))"

definition consolidate_one :: "'p penv \<Rightarrow> string \<Rightarrow> val \<Rightarrow> 'p compute_action" where
  "consolidate_one e sid name = (let records = pe_read_intermediate e sid name in
     if records = [] then skip
     else run_for_subject_then e sid name records (\<lambda>v.
       if \<not> is_dict v then skip
       else seq (out (PConsolidated v)) (seq (out (PWriteConsolidated sid name v))
              (case pe_write_error e sid name of None \<Rightarrow> skip | Some x \<Rightarrow> raise x))))"

definition run_consolidation :: "'p penv \<Rightarrow> subject list \<Rightarrow> 'p compute_action" where
  "run_consolidation e subs = for_each subs (\<lambda>sub. for_each (subject_algorithms sub) (consolidate_one e (sb_subject_id sub)))"

end
