(* ===== verification/Compute_Props.thy ===== *)
theory Compute_Props
  imports Compute_Manager
begin

text \<open>
  The compute manager in operation: its inputs in any order, what a session reset does to the executors,
  the window of buffered results, and the independence of sensors whose algorithms share a host.
\<close>

section \<open>Runs\<close>

datatype cinput =
    Ingest sample "(string, val) dict"
  | WorkerTurn
  | RemoteResult val
  | Register "subject list"
  | SessionReset
  | Consolidate "subject list"
  | Clear

fun compute_step :: "'p penv \<Rightarrow> cinput \<Rightarrow> 'p compute_action" where
  "compute_step e (Ingest x timing) = upd (manager_ingest_sample e x timing)"
| "compute_step e WorkerTurn = worker_step e"
| "compute_step e (RemoteResult r) = on_remote_result e r"
| "compute_step e (Register subs) = register_algorithms e subs"
| "compute_step e SessionReset = orchestrator_reset_session e"
| "compute_step e (Consolidate subs) = run_consolidation e subs"
| "compute_step e Clear = orchestrator_reset e"

text \<open>An exception ends the call that raised it, not the run.\<close>

fun compute_run :: "('p penv \<times> cinput) list \<Rightarrow> 'p compute \<Rightarrow> 'p compute \<times> peffect list" where
  "compute_run [] s = (s, [])"
| "compute_run ((e, i) # is) s = (case compute_step e i s of (s', es, _) \<Rightarrow>
     (case compute_run is s' of (s'', fs) \<Rightarrow> (s'', es @ fs)))"

section \<open>Invariants\<close>

text \<open>\<open>admitted i\<close> says which inputs come; \<open>I\<close> does not depend on the queue, the buffers, the clients and the
  accounts; \<open>P\<close> allows the effects, those of an executor only while one is registered.\<close>

definition cleared :: "'p compute \<Rightarrow> 'p compute" where
  "cleared s = (manager_reset s)\<lparr>cm_clients := [], cm_registered_executors := [], cm_registered_consolidation := []\<rparr>"

definition algorithm_name :: "sensor_entry \<Rightarrow> val" where
  "algorithm_name en = vget (sm_algorithm (se_meta en)) ''name''"

definition algorithm_names :: "subject list \<Rightarrow> val set" where
  "algorithm_names subs = {algorithm_name en | en sub. sub \<in> set subs \<and> en \<in> set (sb_sensors sub)}"

locale compute_invariant =
  fixes I :: "'p compute \<Rightarrow> bool" and P :: "peffect \<Rightarrow> bool" and admitted :: "cinput \<Rightarrow> bool"
  assumes frame: "I (s\<lparr>cm_clients := cls\<rparr>) = I s" "I (s\<lparr>cm_queue := q\<rparr>) = I s" "I (s\<lparr>cm_context := ctx\<rparr>) = I s"
      "I (s\<lparr>cm_remote_counts := n\<rparr>) = I s" "I (s\<lparr>cm_results := bufs\<rparr>) = I s" "I (s\<lparr>cm_algorithms := algos\<rparr>) = I s"
      "I (s\<lparr>cm_samples_since_result := counts\<rparr>) = I s" "I (s\<lparr>cm_last_result_ns := tms\<rparr>) = I s"
    and plain: "P (PResult r)" "P (PPerformance pf)" "P (PError x)"
    and intermediate: "I s \<Longrightarrow> map_of (cm_intermediate_executors s) name = Some k \<Longrightarrow> P (PIntermediate v)"
    and consolidation: "I s \<Longrightarrow> map_of (cm_consolidation_executors s) name = Some k \<Longrightarrow>
      P (PConsolidated v) \<and> P (PWriteConsolidated sid name v)"
    and registered: "admitted (Register subs) \<Longrightarrow> name \<in> algorithm_names subs \<Longrightarrow> I s \<Longrightarrow> I (register_once name k s)"
    and session: "I s \<Longrightarrow> I (manager_reset_session s)"
    and clearing: "admitted Clear \<Longrightarrow> I s \<Longrightarrow> I (cleared s)"
begin

lemma frames [simp]:
  "I (buffer_result algo address r s) = I s" "I (note_result e r s) = I s"
  "I (count_sample a s) = I s" "I (manager_ingest_sample e x timing s) = I s" "I (register_algorithm a k s) = I s"
  by (simp_all add: frame buffer_result_def note_result_def count_sample_def manager_ingest_sample_def register_algorithm_def)

lemma request:
  assumes "I s" and "\<And>v t. I t \<Longrightarrow> ok I P (cont v) t"
  shows "ok I P (request_then e k c cont) s"
  using assms by (auto simp: request_then_def ok_simps frame split: option.splits prod.splits sum.splits)

lemma listening: "I s \<Longrightarrow> P f \<Longrightarrow> ok I P (listener f x) s"
  by (auto simp: listener_def ok_simps split: option.splits)

lemma error: "I s \<Longrightarrow> ok I P (error_cb x) s"
  by (simp add: error_cb_def ok_simps plain)

lemma attributes: "I s \<Longrightarrow> (\<And>v. ok I P (cont v) s) \<Longrightarrow> ok I P (attribute r k cont) s"
  by (auto simp: attribute_def ok_simps split: option.splits)

lemma stage:
  assumes "I s" and "\<And>t. I t \<Longrightarrow> ok I P (cont VNone) t"
    and "\<And>t v. I t \<Longrightarrow> P (PIntermediate v) \<Longrightarrow> ok I P (cont v) t"
  shows "ok I P (stage_handle_result_then e r cont) s"
  unfolding stage_handle_result_then_def run_executor_then_def
  by (intro attributes ok_branch ok_raise ok_seq ok_upd ok_query ok_option request)
    (auto simp: ok_simps frame error_cb_def plain assms(1,2) intro!: assms(3) intro: intermediate split: prod.splits sum.splits)

lemma router: "I s \<Longrightarrow> ok I P (router_handle_result e r) s"
  unfolding router_handle_result_def by (intro ok_seq listening stage plain) (auto simp: ok_simps intro: listening)

lemma result: "I s \<Longrightarrow> ok I P (on_algorithm_result e r) s"
  unfolding on_algorithm_result_def Let_def
  by (intro attributes ok_branch ok_raise ok_query ok_seq ok_upd ok_catch router listening error plain) simp_all

lemma worker: "I s \<Longrightarrow> ok I P (worker_step e) s"
  unfolding worker_step_def on_sample_def
  by (rule ok_query, cases "cm_queue s")
    (auto simp: ok_simps frame split: option.splits intro!: ok_seq ok_catch request ok_for_each result error ok_upd)

lemma remote: "I s \<Longrightarrow> ok I P (on_remote_result e r) s"
  unfolding on_remote_result_def Let_def
  by (rule ok_query) (auto simp: frame split: option.splits intro!: ok_seq result error ok_upd)

lemma reset: "I s \<Longrightarrow> ok I P (orchestrator_reset_session e) s"
  unfolding orchestrator_reset_session_def runtime_reset_session_def
  by (intro ok_seq ok_query ok_for_each request ok_skip ok_upd session)

lemma consolidating: "I s \<Longrightarrow> ok I P (run_consolidation e subs) s"
  unfolding run_consolidation_def consolidate_one_def Let_def run_for_subject_then_def
  by (intro ok_for_each ok_branch ok_skip ok_query ok_option)
    (auto simp: ok_simps frame error_cb_def plain consolidation split: prod.splits sum.splits option.splits)

lemma client:
  assumes "I s" and "\<And>k t. I t \<Longrightarrow> ok I P (cont k) t"
  shows "ok I P (get_algorithm_client_then e name cont) s"
  using assms unfolding get_algorithm_client_then_def Let_def
  by (auto simp: ok_simps frame split: option.splits)

lemma register_one:
  assumes "I s" and "admitted (Register subs)" and "algorithm_name en \<in> algorithm_names subs"
  shows "ok I P (register_sensor e sid en) s"
proof -
  have go: "ok I P (seq (upd (register_once (algorithm_name en) k)) (query (\<lambda>s. if has_algorithm a s then skip
     else request_then e k (StartAlgorithm a ps) (\<lambda>_. upd (register_algorithm a k))))) t" if "I t" for k a ps t
    using registered [OF assms(2,3) that] by (auto simp: ok_simps intro!: request)
  show ?thesis using assms(1) unfolding register_sensor_def Let_def
    by (intro ok_option ok_branch ok_skip client error go [unfolded algorithm_name_def])
qed

lemma register: "I s \<Longrightarrow> admitted (Register subs) \<Longrightarrow> ok I P (register_algorithms e subs) s"
  unfolding register_algorithms_def
  by (intro ok_for_each register_one) (auto simp: algorithm_names_def)

lemma clear: "I s \<Longrightarrow> admitted Clear \<Longrightarrow> ok I P (orchestrator_reset e) s"
  using clearing by (simp add: orchestrator_reset_def runtime_close_def ok_simps cleared_def)

lemma step: "admitted i \<Longrightarrow> I s \<Longrightarrow> ok I P (compute_step e i) s"
  by (cases i) (simp_all add: ok_upd worker remote register reset consolidating clear)

lemma run:
  assumes "I s" and "\<forall>(e, i) \<in> set is. admitted i"
  shows "I (fst (compute_run is s)) \<and> (\<forall>f \<in> set (snd (compute_run is s)). P f)"
  using assms
proof (induction "is" arbitrary: s)
  case (Cons ei "is")
  obtain e i where ei: "ei = (e, i)" by (cases ei)
  have "ok I P (compute_step e i) s" using Cons.prems ei by (auto intro: step)
  then have "I (fst (compute_step e i s))" "\<forall>f \<in> set (fst (snd (compute_step e i s))). P f"
    by (auto simp: ok_def split: prod.splits)
  with Cons.IH [of "fst (compute_step e i s)"] Cons.prems(2) show ?case
    by (auto simp: ei split: prod.splits)
qed simp

end

section \<open>Executors after a session reset\<close>

definition aggregated :: "peffect \<Rightarrow> bool" where
  "aggregated f = (case f of PIntermediate _ \<Rightarrow> True | PConsolidated _ \<Rightarrow> True | PWriteConsolidated _ _ _ \<Rightarrow> True | _ \<Rightarrow> False)"

definition silenced :: "val set \<Rightarrow> 'p compute \<Rightarrow> bool" where
  "silenced names s \<longleftrightarrow> cm_intermediate_executors s = [] \<and> cm_consolidation_executors s = [] \<and>
     names \<subseteq> set (cm_registered_executors s) \<and> names \<subseteq> set (cm_registered_consolidation s)"

definition registered_together :: "'p compute \<Rightarrow> bool" where
  "registered_together s \<longleftrightarrow> cm_registered_consolidation s = cm_registered_executors s"

text \<open>An input that leaves the configuration as it is: no clearing, and no algorithm that was not
  registered before.\<close>

fun same_configuration :: "val set \<Rightarrow> cinput \<Rightarrow> bool" where
  "same_configuration names (Register subs) \<longleftrightarrow> algorithm_names subs \<subseteq> names"
| "same_configuration names Clear \<longleftrightarrow> False"
| "same_configuration names _ \<longleftrightarrow> True"

lemmas reset_defs = manager_reset_session_def manager_reset_def consolidation_stage_reset_def intermediate_stage_reset_def cleared_def

interpretation mute: compute_invariant "silenced names" "\<lambda>f. \<not> aggregated f" "same_configuration names" for names
  by unfold_locales (auto simp: silenced_def aggregated_def register_once_def reset_defs)

interpretation together: compute_invariant registered_together "\<lambda>_. True" "\<lambda>_. True"
  by unfold_locales (auto simp: registered_together_def register_once_def register_intermediate_executor_def
      register_consolidation_executor_def reset_defs)

lemma reset_session_state:
  assumes "orchestrator_reset_session e s = (s', es, None)"
  shows "cm_intermediate_executors s' = [] \<and> cm_consolidation_executors s' = [] \<and> cm_queue s' = [] \<and> cm_results s' = [] \<and>
     cm_registered_executors s' = cm_registered_executors s \<and> cm_registered_consolidation s' = cm_registered_consolidation s \<and>
     cm_algorithms s' = cm_algorithms s"
proof -
  let ?I = "\<lambda>t. cm_registered_executors t = cm_registered_executors s \<and>
    cm_registered_consolidation t = cm_registered_consolidation s \<and> cm_algorithms t = cm_algorithms s"
  have "ok ?I (\<lambda>_. True) (runtime_reset_session e) s"
    unfolding runtime_reset_session_def
    by (intro ok_query ok_for_each)
      (auto simp: request_then_def ok_simps split: option.splits prod.splits sum.splits)
  with assms show ?thesis
    by (auto simp: orchestrator_reset_session_def ok_def seq_def upd_def manager_reset_session_def
        consolidation_stage_reset_def intermediate_stage_reset_def split: prod.splits option.splits)
qed

text \<open>C11. A session reset removes the intermediate and consolidation executors and does not forget that they were
  registered: from any state that a run of the manager can reach, whatever follows the reset under the
  same configuration (samples, worker turns, remote results, new discoveries, further session resets, the
  consolidation at the stop), no intermediate result and no consolidated result is ever produced. The
  official start performs such a reset, so the aggregation stages never run during official acquisition.\<close>

theorem session_reset_ends_aggregation:
  assumes "s = fst (compute_run js new_compute)"
    and "orchestrator_reset_session e s = (s1, es, None)"
    and "\<forall>(e, i) \<in> set is. same_configuration (set (cm_registered_executors s)) i"
  shows "\<forall>f \<in> set (snd (compute_run is s1)). \<not> aggregated f"
proof -
  have "registered_together s"
    using together.run [of new_compute js] by (simp add: assms(1) registered_together_def new_compute_def)
  then have "silenced (set (cm_registered_executors s)) s1"
    using reset_session_state [OF assms(2)] by (simp add: silenced_def registered_together_def)
  from mute.run [OF this assms(3)] show ?thesis by simp
qed

section \<open>Sensors that share a host\<close>

definition results_of :: "peffect list \<Rightarrow> val list" where
  "results_of es = List.map_filter (\<lambda>f. case f of PResult r \<Rightarrow> Some r | _ \<Rightarrow> None) es"

lemma results_of_simps [simp]:
  "results_of [] = []" "results_of (PResult r # es) = r # results_of es" "results_of (PPerformance pf # es) = results_of es"
  "results_of (PError x # es) = results_of es" "results_of (es @ fs) = results_of es @ results_of fs"
  by (simp_all add: results_of_def map_filter_simps map_filter_def)

text \<open>A result as the plugin interface documents it: it names its algorithm and its sensor.\<close>

definition names_origin :: "val \<Rightarrow> bool" where
  "names_origin r \<longleftrightarrow> (\<exists>algo address. map_of (as_dict r) ''algorithm_name'' = Some algo \<and> map_of (as_dict r) ''address'' = Some address \<and>
     hashable_key algo \<and> hashable_key address)"

definition same_service :: "'p compute \<Rightarrow> 'p compute \<Rightarrow> bool" where
  "same_service s t \<longleftrightarrow> cm_clients t = cm_clients s \<and> cm_queue t = cm_queue s \<and> cm_algorithms t = cm_algorithms s \<and>
     cm_intermediate_executors t = cm_intermediate_executors s"

lemma on_result_exec:
  assumes "cm_intermediate_executors s = []" and "names_origin r" and "pe_result_listener e r = None"
  shows "\<exists>t fs. on_algorithm_result e r s = (t, fs, None) \<and> results_of fs = [r] \<and> same_service s t"
proof -
  from assms(2) obtain algo address where r: "map_of (as_dict r) ''algorithm_name'' = Some algo"
    "map_of (as_dict r) ''address'' = Some address" "hashable_key algo" "hashable_key address"
    by (auto simp: names_origin_def)
  define u where "u = buffer_result algo address r (note_result e r s)"
  have router: "router_handle_result e r (note_result e r s) = (u, [PResult r], None)"
    using assms r by (simp add: router_handle_result_def listener_def stage_handle_result_then_def run_executor_then_def attribute_def seq_def out_def
        skip_def upd_def query_def u_def note_result_def buffer_result_def)
  have "same_service s u" by (simp add: same_service_def u_def note_result_def buffer_result_def)
  then show ?thesis using r router
    by (cases "pe_performance_listener e (build_compute_performance e r s)")
      (auto simp: on_algorithm_result_def attribute_def vget_def vget_or_def query_def Let_def seq_def upd_def catch_def listener_def
        out_def skip_def raise_def error_cb_def)
qed

lemma on_results_exec:
  assumes "cm_intermediate_executors s = []" and "\<forall>r \<in> set rs. names_origin r \<and> pe_result_listener e r = None"
  shows "\<exists>t fs. for_each rs (on_algorithm_result e) s = (t, fs, None) \<and> results_of fs = rs \<and> same_service s t"
  using assms
proof (induction rs arbitrary: s)
  case Nil
  then show ?case by (simp add: skip_def same_service_def)
next
  case (Cons r rs)
  from on_result_exec [of s r e] Cons.prems obtain t fs where
    1: "on_algorithm_result e r s = (t, fs, None)" "results_of fs = [r]" "same_service s t" by auto
  with Cons.prems(1) have "cm_intermediate_executors t = []" by (simp add: same_service_def)
  with Cons.IH [of t] Cons.prems(2) obtain u gs where
    2: "for_each rs (on_algorithm_result e) t = (u, gs, None)" "results_of gs = rs" "same_service t u" by auto
  from 1 2 show ?case by (auto simp: seq_def same_service_def)
qed

text \<open>The instance that works for a sensor, with its plugin.\<close>

definition instance_for :: "'p compute \<Rightarrow> string \<Rightarrow> ('p plugin \<times> 'p) option" where
  "instance_for s a = Option.bind (map_of (cm_algorithms s) a) (\<lambda>k. Option.bind (map_of (cm_clients s) k) (\<lambda>cl.
     if cl_closed cl then None else map_option (Pair (cl_plugin cl)) (map_of (ho_instances (cl_host cl)) a)))"

definition documented :: "'p plugin \<Rightarrow> bool" where
  "documented p \<longleftrightarrow> (\<forall>i x. \<forall>r \<in> set (fst (snd (pl_on_sample p i x))). names_origin r)"

definition working :: "'p penv \<Rightarrow> bool" where
  "working e \<longleftrightarrow> (\<forall>k c. pe_link e k c = Answered) \<and> (\<forall>r. pe_result_listener e r = None)"

definition all_documented :: "'p compute \<Rightarrow> bool" where
  "all_documented s \<longleftrightarrow> (\<forall>k cl. map_of (cm_clients s) k = Some cl \<longrightarrow> documented (cl_plugin cl))"

lemma host_ingest_results:
  assumes "host_ingest_sample p b x h = (h', Inr v)" and "documented p"
  shows "\<forall>r \<in> set (as_list (vget v ''results'')). names_origin r"
  using assms unfolding host_ingest_sample_def documented_def
  by (auto simp: Let_def val_simps split: option.splits prod.splits) (metis fst_conv snd_conv)

text \<open>One sample of a sensor with an algorithm: its host runs, and its results are handed on.\<close>

lemma on_sample_exec:
  assumes "cm_intermediate_executors s = []" "all_documented s" "working e"
    and cl: "map_of (cm_clients s) k = Some cl"
    and h_def: "h = host_ingest_sample (cl_plugin cl) (sa_address x) x (cl_host cl)"
  shows "\<exists>t fs y. on_sample e k x s = (t, fs, y) \<and>
     results_of fs = (if cl_closed cl then [] else case snd h of Inl _ \<Rightarrow> [] | Inr v \<Rightarrow> as_list (vget v ''results'')) \<and>
     cm_clients t = dput k (if cl_closed cl then cl else cl\<lparr>cl_host := fst h\<rparr>) (cm_clients s) \<and>
     cm_queue t = cm_queue s \<and> cm_algorithms t = cm_algorithms s \<and> cm_intermediate_executors t = []"
proof (cases "cl_closed cl")
  case True
  with assms(1) cl show ?thesis
    by (auto simp: on_sample_def request_then_def query_def transport_request_def seq_def upd_def raise_def)
next
  case False
  obtain hh r where h: "h = (hh, r)" by (cases h)
  define u where "u = s\<lparr>cm_clients := dput k (cl\<lparr>cl_host := hh\<rparr>) (cm_clients s)\<rparr>"
  have link: "pe_link e k' c = Answered" for k' c using assms(3) by (simp add: working_def)
  have step: "on_sample e k x s = (case r of Inl y \<Rightarrow> (u, [], Some y)
     | Inr v \<Rightarrow> for_each (as_list (vget v ''results'')) (on_algorithm_result e) u)"
    using cl False h link
    by (auto simp: on_sample_def request_then_def query_def transport_request_def seq_def upd_def raise_def h_def u_def
        split: sum.splits prod.splits)
  show ?thesis
  proof (cases r)
    case (Inl y)
    with step h False assms(1) show ?thesis by (simp add: u_def)
  next
    case (Inr v)
    have "documented (cl_plugin cl)" using assms(2) cl by (auto simp: all_documented_def)
    with host_ingest_results h Inr have "\<forall>r \<in> set (as_list (vget v ''results'')). names_origin r"
      unfolding h_def by blast
    with on_results_exec [of u "as_list (vget v ''results'')" e] assms(1,3) obtain t fs where
      "for_each (as_list (vget v ''results'')) (on_algorithm_result e) u = (t, fs, None)"
      "results_of fs = as_list (vget v ''results'')" "same_service u t"
      by (auto simp: u_def working_def)
    with step Inr h False assms(1) show ?thesis by (auto simp: same_service_def u_def)
  qed
qed

text \<open>The host of a sensor after a sample, and the worker's turn in terms of it.\<close>

definition after_sample :: "string \<Rightarrow> sample \<Rightarrow> 'p compute \<Rightarrow> (string, 'p client) dict" where
  "after_sample k x s = (case map_of (cm_clients s) k of None \<Rightarrow> cm_clients s
     | Some cl \<Rightarrow> dput k (if cl_closed cl then cl
         else cl\<lparr>cl_host := fst (host_ingest_sample (cl_plugin cl) (sa_address x) x (cl_host cl))\<rparr>) (cm_clients s))"

definition answer_for :: "string \<Rightarrow> sample \<Rightarrow> 'p compute \<Rightarrow> val list" where
  "answer_for k x s = (case map_of (cm_clients s) k of None \<Rightarrow> []
     | Some cl \<Rightarrow> if cl_closed cl then []
         else case snd (host_ingest_sample (cl_plugin cl) (sa_address x) x (cl_host cl)) of Inl _ \<Rightarrow> []
              | Inr v \<Rightarrow> as_list (vget v ''results''))"

lemma worker_exec:
  assumes "cm_queue s = q # qs" "cm_intermediate_executors s = []" "all_documented s" "working e"
  defines "x \<equiv> qd_sample q"
  shows "\<exists>t fs y. worker_step e s = (t, fs, y) \<and> cm_queue t = qs \<and> cm_algorithms t = cm_algorithms s \<and>
     cm_intermediate_executors t = [] \<and>
     results_of fs = (case map_of (cm_algorithms s) (sa_address x) of None \<Rightarrow> [] | Some k \<Rightarrow> answer_for k x s) \<and>
     cm_clients t = (case map_of (cm_algorithms s) (sa_address x) of None \<Rightarrow> cm_clients s | Some k \<Rightarrow> after_sample k x s)"
proof (cases "map_of (cm_algorithms s) (sa_address x)")
  case None
  with assms(1,2) show ?thesis by (auto simp: worker_step_def query_def seq_def upd_def skip_def x_def)
next
  case (Some k)
  define u where "u = count_sample (sa_address x) (s\<lparr>cm_queue := qs, cm_context := Some (q, pe_now_ns e)\<rparr>)"
  have u: "cm_clients u = cm_clients s" "cm_queue u = qs" "cm_algorithms u = cm_algorithms s" "cm_intermediate_executors u = []"
    using assms(2) by (simp_all add: u_def count_sample_def)
  have step: "worker_step e s = (case catch (on_sample e k x)
     (\<lambda>y. error_cb (''Error processing sample from '' @ sa_address x @ '': '' @ y)) u of
       (t, fs, None) \<Rightarrow> (t\<lparr>cm_context := None\<rparr>, fs, None) | (t, fs, Some y) \<Rightarrow> (t, fs, Some y))"
    using assms(1) Some by (auto simp: worker_step_def query_def seq_def upd_def x_def u_def split: prod.splits option.splits)
  have "\<exists>t fs y. on_sample e k x u = (t, fs, y) \<and> results_of fs = answer_for k x s \<and> cm_clients t = after_sample k x s \<and>
     cm_queue t = qs \<and> cm_algorithms t = cm_algorithms s \<and> cm_intermediate_executors t = []"
  proof (cases "map_of (cm_clients s) k")
    case None
    then show ?thesis using u by (simp add: on_sample_def request_then_def query_def raise_def answer_for_def after_sample_def)
  next
    case (Some cl)
    with on_sample_exec [of u e k cl _ x, OF _ _ _ _ refl] u assms(3,4) show ?thesis
      by (auto simp: all_documented_def answer_for_def after_sample_def)
  qed
  then obtain t fs y where "on_sample e k x u = (t, fs, y)" "results_of fs = answer_for k x s" "cm_clients t = after_sample k x s"
     "cm_queue t = qs" "cm_algorithms t = cm_algorithms s" "cm_intermediate_executors t = []" by blast
  with step Some show ?thesis by (cases y) (simp_all add: catch_def error_cb_def out_def)
qed

lemma all_documented_after: "all_documented s \<Longrightarrow> cm_clients t = after_sample k x s \<Longrightarrow> all_documented t"
  by (auto simp: all_documented_def after_sample_def split: option.splits)

lemma instance_for_iff:
  "instance_for s a = Some (p, i) \<longleftrightarrow> (\<exists>k cl. map_of (cm_algorithms s) a = Some k \<and> map_of (cm_clients s) k = Some cl \<and>
     \<not> cl_closed cl \<and> cl_plugin cl = p \<and> map_of (ho_instances (cl_host cl)) a = Some i)"
  by (auto simp: instance_for_def bind_eq_Some_conv)

lemma instance_after_other:
  assumes "cm_clients t = after_sample k x s" "cm_algorithms t = cm_algorithms s" "sa_address x \<noteq> a"
    and "instance_for s a = Some (p, i)"
  shows "instance_for t a = Some (p, i)"
proof -
  from assms(4) obtain k' cl where *: "map_of (cm_algorithms s) a = Some k'" "map_of (cm_clients s) k' = Some cl"
    "\<not> cl_closed cl" "cl_plugin cl = p" "map_of (ho_instances (cl_host cl)) a = Some i" by (auto simp: instance_for_iff)
  define cl' where "cl' = (if k' = k then cl\<lparr>cl_host := fst (host_ingest_sample (cl_plugin cl) (sa_address x) x (cl_host cl))\<rparr> else cl)"
  have "map_of (cm_clients t) k' = Some cl'" using assms(1) * by (auto simp: after_sample_def cl'_def split: option.splits)
  moreover have "map_of (ho_instances (cl_host cl')) a = Some i" "\<not> cl_closed cl'" "cl_plugin cl' = p"
    using * assms(3) by (auto simp: cl'_def host_ingest_instances split: option.splits)
  ultimately show ?thesis using * assms(2) by (auto simp: instance_for_iff)
qed

lemma instance_after_own:
  assumes "cm_clients t = after_sample k x s" "cm_algorithms t = cm_algorithms s" "map_of (cm_algorithms s) (sa_address x) = Some k"
    and "instance_for s (sa_address x) = Some (p, i)"
  shows "instance_for t (sa_address x) = Some (p, fst (pl_on_sample p i x))"
    and "answer_for k x s = (case pl_on_sample p i x of (i', rs, exc) \<Rightarrow> if exc = None then rs else [])"
proof -
  from assms(3,4) obtain cl where *: "map_of (cm_clients s) k = Some cl"
    "\<not> cl_closed cl" "cl_plugin cl = p" "map_of (ho_instances (cl_host cl)) (sa_address x) = Some i" by (auto simp: instance_for_iff)
  show "instance_for t (sa_address x) = Some (p, fst (pl_on_sample p i x))"
    using assms(1-3) * by (simp add: instance_for_iff after_sample_def host_ingest_instances)
  show "answer_for k x s = (case pl_on_sample p i x of (i', rs, exc) \<Rightarrow> if exc = None then rs else [])"
    using * host_ingest_answer [OF *(4), of p x] by (simp add: answer_for_def)
qed

text \<open>The turns of the worker with the sensor of each sample it takes.\<close>

fun worker_trace :: "'p penv list \<Rightarrow> 'p compute \<Rightarrow> 'p compute \<times> (string \<times> peffect list) list" where
  "worker_trace [] s = (s, [])"
| "worker_trace (e # es) s = (case cm_queue s of [] \<Rightarrow> worker_trace es s
   | q # _ \<Rightarrow> (case worker_step e s of (s', fs, _) \<Rightarrow>
       (case worker_trace es s' of (s'', tr) \<Rightarrow> (s'', (sa_address (qd_sample q), fs) # tr))))"

definition delivered_for :: "string \<Rightarrow> (string \<times> peffect list) list \<Rightarrow> val list" where
  "delivered_for a tr = concat (map (results_of \<circ> snd) (filter (\<lambda>(b, _). b = a) tr))"

definition queued_for :: "string \<Rightarrow> queued list \<Rightarrow> sample list" where
  "queued_for a qs = filter (\<lambda>x. sa_address x = a) (map qd_sample qs)"

text \<open>One turn of the worker that takes a sample off the queue: the sensor's instance advances by its own sample and
  every other sensor's instance stays, with the answers of the instance as the only results delivered.\<close>

lemma after_turn_documented:
  assumes "all_documented s"
    and "cm_clients u = (case m of None \<Rightarrow> cm_clients s | Some k \<Rightarrow> after_sample k x s)"
  shows "all_documented u"
proof (cases m)
  case None
  with assms show ?thesis by (simp add: all_documented_def)
next
  case (Some k)
  with all_documented_after [OF assms(1), of u k x] assms(2) show ?thesis by simp
qed

lemma after_turn_other:
  assumes "cm_algorithms u = cm_algorithms s" and "instance_for s a = Some (p, i)" and "sa_address x \<noteq> a"
    and "cm_clients u = (case map_of (cm_algorithms s) (sa_address x) of None \<Rightarrow> cm_clients s | Some k \<Rightarrow> after_sample k x s)"
  shows "instance_for u a = Some (p, i)"
proof (cases "map_of (cm_algorithms s) (sa_address x)")
  case None
  with assms show ?thesis by (simp add: instance_for_def)
next
  case (Some k)
  with instance_after_other [of u k x s a p i] assms show ?thesis by simp
qed


section \<open>The window of buffered results\<close>

definition window :: "val \<Rightarrow> val \<Rightarrow> 'p compute \<Rightarrow> val list" where
  "window algo address s = dget_or (buffers_of algo s) address []"

definition of_stream :: "val \<Rightarrow> val \<Rightarrow> peffect \<Rightarrow> val list" where
  "of_stream algo address f = (case f of
     PResult r \<Rightarrow> if map_of (as_dict r) ''algorithm_name'' = Some algo \<and> map_of (as_dict r) ''address'' = Some address then [r] else []
   | _ \<Rightarrow> [])"

abbreviation windowed :: "val \<Rightarrow> val \<Rightarrow> 'p compute_action \<Rightarrow> bool" where
  "windowed algo address \<equiv> logs (window algo address) (deque_append max_results_per_stream) (of_stream algo address)"

lemma of_stream_simps [simp]:
  "of_stream algo address (PIntermediate v) = []" "of_stream algo address (PPerformance pf) = []" "of_stream algo address (PError x) = []"
  "of_stream algo address (PConsolidated v) = []" "of_stream algo address (PWriteConsolidated sid name v) = []"
  by (simp_all add: of_stream_def)

lemma window_updates [simp]:
  "window algo address (s\<lparr>cm_clients := c\<rparr>) = window algo address s" "window algo address (s\<lparr>cm_queue := q\<rparr>) = window algo address s"
  "window algo address (s\<lparr>cm_context := ctx\<rparr>) = window algo address s"
  "window algo address (s\<lparr>cm_remote_counts := n\<rparr>) = window algo address s"
  "window algo address (note_result e r s) = window algo address s" "window algo address (count_sample a s) = window algo address s"
  "window algo address (manager_ingest_sample e x timing s) = window algo address s"
  "window algo address (register_algorithm a k s) = window algo address s"
  "window algo address (register_once name k s) = window algo address s"
  by (simp_all add: window_def buffers_of_def note_result_def count_sample_def manager_ingest_sample_def register_algorithm_def
      register_once_def register_intermediate_executor_def register_consolidation_executor_def Let_def)

lemma window_buffer [simp]:
  "window algo address (buffer_result algo' address' r s) =
     (if algo' = algo \<and> address' = address then deque_append max_results_per_stream r (window algo address s) else window algo address s)"
  by (simp add: window_def buffer_result_def buffers_of_def)

lemma windowed_request [logs_intros]: "(\<And>v. windowed algo address (cont v)) \<Longrightarrow> windowed algo address (request_then e k c cont)"
  unfolding request_then_def by (auto intro!: logs_intros)

lemma windowed_listener [logs_intros]: "of_stream algo address f = [] \<Longrightarrow> windowed algo address (listener f x)"
  unfolding listener_def by (auto intro!: logs_intros)

lemma windowed_executor:
  "(\<And>v. windowed algo address (cont v)) \<Longrightarrow> windowed algo address (run_executor_then e algo' cont)"
  unfolding run_executor_then_def error_cb_def by (auto intro!: logs_intros)

lemma windowed_router:
  assumes "\<And>r. pe_result_listener e r = None" and "hashable_key (vget r ''algorithm_name'')" "hashable_key (vget r ''address'')"
  shows "windowed algo address (router_handle_result e r)"
proof -
  define publish :: "val \<Rightarrow> 'a compute_action" where "publish = (\<lambda>v. if truthy v then listener (PIntermediate v) (pe_intermediate_listener e v) else skip)"
  have publish: "windowed algo address (publish v)" for v
    unfolding publish_def by (auto intro!: logs_intros)
  have router: "router_handle_result e r s = (case stage_handle_result_then e r publish s of (t, es, x) \<Rightarrow> (t, PResult r # es, x))" for s
    by (simp add: router_handle_result_def publish_def listener_def assms(1) seq_def out_def skip_def split: prod.splits)
  show ?thesis unfolding logs_def
  proof (intro allI)
    fix s
    consider (miss) "map_of (as_dict r) ''algorithm_name'' = None \<or> map_of (as_dict r) ''address'' = None"
      | (good) a b where "map_of (as_dict r) ''algorithm_name'' = Some a" "map_of (as_dict r) ''address'' = Some b" "hashable_key a" "hashable_key b"
      using assms(2,3) by (cases "map_of (as_dict r) ''algorithm_name''"; cases "map_of (as_dict r) ''address''") (auto simp: vget_def vget_or_def)
    then show "case router_handle_result e r s of (s', es, x) \<Rightarrow>
      window algo address s' = fold (deque_append max_results_per_stream) (concat (map (of_stream algo address) es)) (window algo address s)"
    proof cases
      case good
      define t where "t = buffer_result a b r s"
      obtain u es x where u: "run_executor_then e a publish t = (u, es, x)" by (cases "run_executor_then e a publish t")
      from logsD [OF windowed_executor [OF publish] u]
      show ?thesis using good u
        by (auto simp: router stage_handle_result_then_def attribute_def seq_def upd_def t_def of_stream_def)
    qed (auto simp: router stage_handle_result_then_def attribute_def raise_def of_stream_def split: option.splits)
  qed
qed

lemma windowed_result [logs_intros]:
  assumes "\<And>r. pe_result_listener e r = None"
  shows "windowed algo address (on_algorithm_result e r)"
  unfolding on_algorithm_result_def attribute_def Let_def error_cb_def
  by (auto intro!: logs_intros windowed_router assms)

lemma windowed_step:
  assumes "\<And>r. pe_result_listener e r = None" and "i \<noteq> SessionReset" and "i \<noteq> Clear"
  shows "windowed algo address (compute_step e i)"
proof (cases i)
  case WorkerTurn
  then show ?thesis
    by (auto simp: worker_step_def on_sample_def error_cb_def split: list.splits intro!: logs_intros assms(1))
next
  case (RemoteResult r)
  then show ?thesis
    by (auto simp: on_remote_result_def error_cb_def Let_def split: option.splits intro!: logs_intros assms(1))
next
  case (Register subs)
  then show ?thesis
    by (auto simp: register_algorithms_def register_sensor_def get_algorithm_client_then_def error_cb_def Let_def intro!: logs_intros)
next
  case (Consolidate subs)
  then show ?thesis
    by (auto simp: run_consolidation_def consolidate_one_def run_for_subject_then_def error_cb_def Let_def intro!: logs_intros)
qed (use assms in \<open>auto intro!: logs_intros\<close>)

lemma windowed_run:
  assumes "\<forall>(e, i) \<in> set is. (\<forall>r. pe_result_listener e r = None) \<and> i \<noteq> SessionReset \<and> i \<noteq> Clear"
  shows "window algo address (fst (compute_run is s)) =
    fold (deque_append max_results_per_stream) (concat (map (of_stream algo address) (snd (compute_run is s)))) (window algo address s)"
  using assms
proof (induction "is" arbitrary: s)
  case (Cons ei "is")
  obtain e i where ei: "ei = (e, i)" by (cases ei)
  obtain t es x where t: "compute_step e i s = (t, es, x)" by (cases "compute_step e i s")
  have "window algo address t = fold (deque_append max_results_per_stream) (concat (map (of_stream algo address) es)) (window algo address s)"
    using logsD [OF windowed_step t] Cons.prems ei by auto
  with Cons.IH [of t] Cons.prems t show ?case by (auto simp: ei split: prod.splits)
qed simp

text \<open>C37. The results that the manager keeps of one algorithm and sensor are the newest thousand of those it published
  since the session began, in order: none is missing, doubled or of another sensor, over any run with
  other sensors, failing hosts and failing executors.\<close>

theorem buffered_results_window:
  assumes "cm_results s = []"
    and "\<forall>(e, i) \<in> set is. (\<forall>r. pe_result_listener e r = None) \<and> i \<noteq> SessionReset \<and> i \<noteq> Clear"
    and "compute_run is s = (t, es)" and "truthy address"
  shows "snd (get_results algo address None t) =
    (let published = concat (map (of_stream algo address) es) in drop (length published - 1000) published)"
proof -
  have "window algo address s = []" using assms(1) by (simp add: window_def buffers_of_def dget_or_def)
  with windowed_run [OF assms(2), of algo address s] assms(3)
  have "window algo address t = fold (deque_append max_results_per_stream) (concat (map (of_stream algo address) es)) []" by simp
  then show ?thesis using assms(4)
    by (simp add: get_results_def slice_last_def window_def Let_def deque.items_pushes max_results_per_stream_def)
qed

section \<open>An example\<close>

text \<open>A plugin that counts samples and reports every one of them, with an executor that always runs, for two
  sensors.\<close>

definition ex_report :: "string \<Rightarrow> nat \<Rightarrow> val" where
  "ex_report a n = VDict [(''algorithm_name'', VStr ''steps''), (''address'', VStr a), (''result_count'', VInt (int n))]"

definition ex_plugin :: "nat plugin" where
  "ex_plugin = \<lparr>pl_new = (\<lambda>_. Inr 0), pl_on_sample = (\<lambda>n x. (Suc n, [ex_report (sa_address x) (Suc n)], None)),
     pl_intermediate = Some 0, pl_should_run = (\<lambda>n _. (n, Inr True)), pl_run = (\<lambda>n _. (n, Inr (VDict [(''stage'', VStr ''mid'')]))),
     pl_consolidation = None, pl_consolidate = (\<lambda>n _ _. (n, Inr VNone))\<rparr>"

definition ex_penv :: "nat penv" where
  "ex_penv = \<lparr>pe_now_ns = 0, pe_link = (\<lambda>_ _. Answered), pe_find_plugin = (\<lambda>_. Some ex_plugin), pe_spawn_error = (\<lambda>_. None),
     pe_result_listener = (\<lambda>_. None), pe_intermediate_listener = (\<lambda>_. None), pe_performance_listener = (\<lambda>_. None),
     pe_read_intermediate = (\<lambda>_ _. []), pe_write_error = (\<lambda>_ _. None), pe_sampling_rate = (\<lambda>_. VInt 50)\<rparr>"

definition ex_algo_sensor :: "string \<Rightarrow> sensor_entry" where
  "ex_algo_sensor a = \<lparr>se_name = ''imu'', se_address = Some a, se_raw_data = [],
     se_meta = \<lparr>sm_location = VStr ''wrist'', sm_f_block_size = Some 2, sm_algorithm = VDict [(''name'', VStr ''steps'')]\<rparr>\<rparr>"

definition ex_algo_subject :: subject where
  "ex_algo_subject = \<lparr>sb_subject_id = ''S'', sb_configs = [], sb_sensors = [ex_algo_sensor ''A'', ex_algo_sensor ''B''],
     sb_sample_count = 0, sb_is_streaming = True\<rparr>"

definition ex_compute_sample :: "string \<Rightarrow> sample" where
  "ex_compute_sample a = \<lparr>sa_address = a, sa_data = VNone\<rparr>"

definition ex_inputs :: "(nat penv \<times> cinput) list" where
  "ex_inputs = [(ex_penv, Ingest (ex_compute_sample ''A'') []), (ex_penv, WorkerTurn)]"

text \<open>Before a session reset the executor runs: the two steps of the example give an intermediate result.\<close>

lemma aggregation_before_reset:
  "filter aggregated (snd (compute_run ((ex_penv, Register [ex_algo_subject]) # ex_inputs) new_compute)) =
     [PIntermediate (VDict [(''stage'', VStr ''mid'')])]"
  by code_simp

definition ex_registered :: "nat compute" where
  "ex_registered = fst (compute_run [(ex_penv, Register [ex_algo_subject])] new_compute)"

theorem session_reset_ends_aggregation_witness:
  "cm_registered_executors ex_registered = [VStr ''steps''] \<and> snd (snd (orchestrator_reset_session ex_penv ex_registered)) = None \<and>
   filter aggregated (snd (compute_run ((ex_penv, Register [ex_algo_subject]) # ex_inputs) (fst (orchestrator_reset_session ex_penv ex_registered)))) = []"
proof -
  have names: "cm_registered_executors ex_registered = [VStr ''steps'']" by code_simp
  have run: "orchestrator_reset_session ex_penv ex_registered =
     (fst (orchestrator_reset_session ex_penv ex_registered), fst (snd (orchestrator_reset_session ex_penv ex_registered)), None)"
    by (intro prod_eqI) (simp_all, code_simp)
  have "algorithm_names [ex_algo_subject] \<subseteq> {VStr ''steps''}"
    by (auto simp: algorithm_names_def algorithm_name_def ex_algo_subject_def ex_algo_sensor_def val_simps)
  with names have "\<forall>(e, i) \<in> set ((ex_penv, Register [ex_algo_subject]) # ex_inputs).
     same_configuration (set (cm_registered_executors ex_registered)) i" by (simp add: ex_inputs_def)
  from session_reset_ends_aggregation [OF _ run this, of "[(ex_penv, Register [ex_algo_subject])]"] names run show ?thesis
    unfolding filter_empty_conv by (simp add: ex_registered_def) (metis snd_conv)
qed

definition ex_busy :: "nat compute" where
  "ex_busy = new_compute\<lparr>cm_algorithms := [(''A'', ''steps''), (''B'', ''steps'')],
     cm_clients := [(''steps'', \<lparr>cl_plugin = ex_plugin, cl_closed = False,
       cl_host = (new_host ex_plugin)\<lparr>ho_instances := [(''A'', 0), (''B'', 0)]\<rparr>\<rparr>)],
     cm_queue := map (\<lambda>a. \<lparr>qd_sample = ex_compute_sample a, qd_timing = [], qd_enqueued_ns = 0, qd_depth = 0\<rparr>) [''A'', ''B'', ''A'']\<rparr>"


definition ex_turns :: "(nat penv \<times> cinput) list" where
  "ex_turns = [(ex_penv, WorkerTurn), (ex_penv, WorkerTurn), (ex_penv, WorkerTurn)]"

theorem buffered_results_window_witness:
  "cm_results ex_busy = [] \<and> length (snd (get_results (VStr ''steps'') (VStr ''A'') None (fst (compute_run ex_turns ex_busy)))) = 2"
proof -
  have empty: "cm_results ex_busy = []" by (simp add: ex_busy_def new_compute_def)
  have quiet: "\<forall>(e, i) \<in> set ex_turns. (\<forall>r. pe_result_listener e r = None) \<and> i \<noteq> SessionReset \<and> i \<noteq> Clear"
    by (simp add: ex_turns_def ex_penv_def)
  have "map (of_stream (VStr ''steps'') (VStr ''A'')) (snd (compute_run ex_turns ex_busy)) =
     [[ex_report ''A'' 1], [], [], [], [ex_report ''A'' 2], []]"
    by code_simp
  with buffered_results_window [OF empty quiet, of "fst (compute_run ex_turns ex_busy)" "snd (compute_run ex_turns ex_busy)" "VStr ''A''" "VStr ''steps''"] empty
  show ?thesis by (simp add: Let_def)
qed

end
