(* ===== verification/File_Manager.thy ===== *)
theory File_Manager
  imports Session_Paths Actions Subjects
begin

text \<open>
  The file manager of a node, \<^verbatim>\<open>file_manager/FileManager.py\<close> (class \<open>FileManager\<close>), and the archive of a
  session, \<^verbatim>\<open>file_manager/session_archive.py\<close>.

  The part of the disk that it owns is the dictionary \<open>fm_disk\<close> from paths to contents. A CSV file is the
  list of its rows of cell texts, which is what a CSV reader gives back of what a CSV writer wrote; an NDJSON
  file is the list of the values on its lines, a JSON file a value, an archive the files in it.
  Directories exist with their files. The metadata that the code stores in a sensor entry is the dictionary
  \<open>fm_meta\<close>, keyed by subject and position of the entry. \<open>fenv\<close> holds the clock and the failures of the
  operating system: of creating a file, and of writing rows after the first few. The raw writer's queue is
  part of the state; a turn of the writer thread is an operation.
\<close>

section \<open>State\<close>

datatype content =
    Table "string list list"
  | Records "val list"
  | Document val
  | Archive "(path \<times> content) list"

type_synonym entry_key = "string \<times> nat"

record smeta =
  me_file_path :: "path option"
  me_real_time_path :: "path option"
  me_consolidated_path :: "path option"
  me_tag :: "string option"
  me_subject_id :: "string option"
  me_raw_headers :: "string list"

record file_manager =
  fm_site :: string
  fm_node_id :: string
  fm_session_name :: "string option"
  fm_session_label :: "string option"
  fm_disk :: "(path, content) dict"
  fm_locks :: "path list"
  fm_meta :: "(entry_key, smeta) dict"
  fm_intermediate_paths :: "(string \<times> string, path) dict"
  fm_consolidated_paths :: "(string \<times> string, path) dict"
  fm_raw_queue :: "(entry_key \<times> val list) list"
  fm_raw_failures :: "(string, val list) dict"
  fm_diagnostics :: "(string \<times> path \<times> val) option"
  fm_finalized :: "string list"
  fm_diagnostics_queue :: "(string \<times> string \<times> val) list"

record fenv =
  fe_now :: string
  fe_create :: "path \<Rightarrow> string option"
  fe_write :: "path \<Rightarrow> (nat \<times> string) option"
  fe_archive :: "(nat \<times> string) option"

type_synonym file_action = "(file_manager, unit) action"

definition no_meta :: smeta where
  "no_meta = \<lparr>me_file_path = None, me_real_time_path = None, me_consolidated_path = None, me_tag = None, me_subject_id = None,
     me_raw_headers = []\<rparr>"

definition new_file_manager :: "string \<Rightarrow> string \<Rightarrow> file_manager" where
  "new_file_manager site node = \<lparr>fm_site = (let s = py_strip (if site = [] then ''local'' else site) in if s = [] then ''local'' else s),
     fm_node_id = sanitize_component node ''standalone'', fm_session_name = None, fm_session_label = None, fm_disk = [], fm_locks = [],
     fm_meta = [], fm_intermediate_paths = [], fm_consolidated_paths = [], fm_raw_queue = [], fm_raw_failures = [],
     fm_diagnostics = None, fm_finalized = [], fm_diagnostics_queue = []\<rparr>"

definition fm_session_dir :: "file_manager \<Rightarrow> string \<Rightarrow> path" where
  "fm_session_dir s ts = session_dir (fm_site s) (case fm_session_name s of None \<Rightarrow> [] | Some n \<Rightarrow> n) ts"

definition meta_of :: "entry_key \<Rightarrow> file_manager \<Rightarrow> smeta" where
  "meta_of k s = dget_or (fm_meta s) k no_meta"

definition put_file :: "path \<Rightarrow> content \<Rightarrow> file_manager \<Rightarrow> file_manager" where
  "put_file p c s = s\<lparr>fm_disk := dput p c (fm_disk s)\<rparr>"

section \<open>Rows\<close>

text \<open>A sample as a dictionary of its fields, the headers of some samples, and the text of a cell. The order of
  keys in the JSON text of a nested value is sorted.\<close>

fun sample_to_mapping :: "val \<Rightarrow> (string \<times> val) list" where
  "sample_to_mapping (VDict d) = d"
| "sample_to_mapping v = [(''value'', v)]"

definition add_header :: "string \<Rightarrow> string list \<Rightarrow> string list" where
  "add_header k hs = (if k \<in> set hs then hs else hs @ [k])"

definition derive_headers :: "(string \<times> val) list list \<Rightarrow> string list" where
  "derive_headers ms = fold (\<lambda>m hs. fold (\<lambda>(k, _). add_header k) m hs) ms []"

definition json_escape :: "char \<Rightarrow> string" where
  "json_escape c = (if c = CHR 0x22 then [CHR 0x5C, CHR 0x22] else if c = CHR 0x5C then [CHR 0x5C, CHR 0x5C]
     else if c = CHR 0x0A then [CHR 0x5C, CHR ''n''] else if c = CHR 0x0D then [CHR 0x5C, CHR ''r'']
     else if c = CHR 0x09 then [CHR 0x5C, CHR ''t''] else [c])"

definition json_string :: "string \<Rightarrow> string" where
  "json_string s = [CHR 0x22] @ concat (map json_escape s) @ [CHR 0x22]"

fun json_text :: "val \<Rightarrow> string" and json_items :: "(string \<times> val) list \<Rightarrow> (string \<times> string) list" where
  "json_text VNone = ''null''"
| "json_text (VBool b) = (if b then ''true'' else ''false'')"
| "json_text (VInt i) = py_str_int i"
| "json_text (VStr s) = json_string s"
| "json_text (VList xs) = ''['' @ py_join '', '' (map json_text xs) @ '']''"
| "json_text (VDict d) = ''{'' @ py_join '', '' (map snd (sort_key fst (json_items d))) @ ''}''"
| "json_items [] = []"
| "json_items ((k, v) # d) = (k, json_string k @ '': '' @ json_text v) # json_items d"

fun csv_cell :: "val \<Rightarrow> string" where
  "csv_cell VNone = []"
| "csv_cell (VList xs) = json_text (VList xs)"
| "csv_cell (VDict d) = json_text (VDict d)"
| "csv_cell v = py_str v"

definition csv_row :: "string list \<Rightarrow> (string \<times> val) list \<Rightarrow> string list" where
  "csv_row hs m = map (\<lambda>h. csv_cell (dget_or m h VNone)) hs"

text \<open>A CSV file read by names and written with more of them.\<close>

definition widen_rows :: "string list \<Rightarrow> string list list \<Rightarrow> string list list" where
  "widen_rows hs rows = (case rows of [] \<Rightarrow> []
     | names # body \<Rightarrow> map (\<lambda>row. map (\<lambda>h. dget_or (zip names row) h []) hs) body)"

definition rows_of :: "path \<Rightarrow> file_manager \<Rightarrow> string list list" where
  "rows_of p s = (case map_of (fm_disk s) p of Some (Table rows) \<Rightarrow> rows | _ \<Rightarrow> [])"

definition records_of :: "path \<Rightarrow> file_manager \<Rightarrow> val list" where
  "records_of p s = (case map_of (fm_disk s) p of Some (Records rs) \<Rightarrow> rs | _ \<Rightarrow> [])"

section \<open>Start and stop\<close>

definition create_empty_output_file :: "fenv \<Rightarrow> path \<Rightarrow> content \<Rightarrow> file_action" where
  "create_empty_output_file e p c = (case fe_create e p of Some x \<Rightarrow> raise x | None \<Rightarrow> upd (put_file p c))"

definition clear_raw_write_failures :: "string list \<Rightarrow> file_manager \<Rightarrow> file_manager" where
  "clear_raw_write_failures sids s = s\<lparr>fm_raw_failures := fold dpop sids (fm_raw_failures s)\<rparr>"

definition text_or :: "val \<Rightarrow> string \<Rightarrow> string" where
  "text_or v d = (if truthy v then py_str v else d)"

definition algorithm_of_entry :: "sensor_entry \<Rightarrow> string" where
  "algorithm_of_entry en = text_or (vget (py_or (sm_algorithm (se_meta en)) (VDict [])) ''name'') ''unknown''"

definition open_algorithm :: "fenv \<Rightarrow> path \<Rightarrow> string \<Rightarrow> string \<Rightarrow> string \<Rightarrow> file_action" where
  "open_algorithm e dir sid tag algo =
     (let ip = build_intermediate_path dir sid tag algo; cp = build_consolidated_path dir sid tag algo in
      seq (create_empty_output_file e ip (Records []))
      (seq (upd (\<lambda>s. s\<lparr>fm_intermediate_paths := dput (sid, algo) ip (fm_intermediate_paths s), fm_locks := ip # fm_locks s\<rparr>))
      (seq (create_empty_output_file e cp (Records []))
        (upd (\<lambda>s. s\<lparr>fm_consolidated_paths := dput (sid, algo) cp (fm_consolidated_paths s), fm_locks := cp # fm_locks s\<rparr>)))))"

definition raw_path_of :: "path \<Rightarrow> string \<Rightarrow> string \<Rightarrow> sensor_entry \<Rightarrow> path" where
  "raw_path_of dir sid tag en = build_raw_path dir sid tag (text_or (sm_location (se_meta en)) ''na'')
     (case se_address en of None \<Rightarrow> ''na'' | Some a \<Rightarrow> if a = [] then ''na'' else a)"

definition real_time_path_of :: "path \<Rightarrow> string \<Rightarrow> string \<Rightarrow> sensor_entry \<Rightarrow> path" where
  "real_time_path_of dir sid tag en = build_real_time_path dir sid tag (algorithm_of_entry en) (text_or (sm_location (se_meta en)) ''na'')
     (case se_address en of None \<Rightarrow> ''na'' | Some a \<Rightarrow> if a = [] then ''na'' else a)"

definition open_sensor :: "fenv \<Rightarrow> path \<Rightarrow> string \<Rightarrow> string \<Rightarrow> nat \<times> sensor_entry \<Rightarrow> file_action" where
  "open_sensor e dir sid tag = (\<lambda>(i, en).
     let rp = raw_path_of dir sid tag en; tp = real_time_path_of dir sid tag en in
     seq (create_empty_output_file e rp (Table []))
     (seq (create_empty_output_file e tp (Records []))
       (upd (\<lambda>s. s\<lparr>fm_meta := dput (sid, i) \<lparr>me_file_path = Some rp, me_real_time_path = Some tp,
            me_consolidated_path = map_of (fm_consolidated_paths s) (sid, algorithm_of_entry en), me_tag = Some tag,
            me_subject_id = Some sid, me_raw_headers = []\<rparr> (fm_meta s),
          fm_locks := rp # tp # fm_locks s\<rparr>))))"

definition fm_start_stream :: "fenv \<Rightarrow> subject \<Rightarrow> string \<Rightarrow> val \<Rightarrow> file_action" where
  "fm_start_stream e sub ts tag = seq (upd (clear_raw_write_failures [sb_subject_id sub])) (query (\<lambda>s.
     let dir = fm_session_dir s ts; safe_tag = (if truthy tag then sanitize_tag (py_str tag) else ''sys'') in
     seq (for_each (sort (remdups (map algorithm_of_entry (sb_sensors sub)))) (open_algorithm e dir (sb_subject_id sub) safe_tag))
       (for_each (List.enumerate 0 (sb_sensors sub)) (open_sensor e dir (sb_subject_id sub) safe_tag))))"

definition close_entry :: "smeta \<Rightarrow> smeta" where
  "close_entry m = m\<lparr>me_file_path := None, me_real_time_path := None, me_consolidated_path := None, me_subject_id := None\<rparr>"

definition fm_stop_stream :: "subject \<Rightarrow> file_manager \<Rightarrow> file_manager" where
  "fm_stop_stream sub s =
     (let sid = sb_subject_id sub; mine = (\<lambda>((sid', algo), p). sid' = sid);
          closed = map snd (filter mine (fm_intermediate_paths s) @ filter mine (fm_consolidated_paths s)) in
      s\<lparr>fm_meta := map (\<lambda>((sid', i), m). ((sid', i), if sid' = sid \<and> i < length (sb_sensors sub) then close_entry m else m)) (fm_meta s),
        fm_locks := filter (\<lambda>p. p \<notin> set closed) (fm_locks s),
        fm_intermediate_paths := filter (\<lambda>x. \<not> mine x) (fm_intermediate_paths s),
        fm_consolidated_paths := filter (\<lambda>x. \<not> mine x) (fm_consolidated_paths s)\<rparr>)"

section \<open>Raw samples\<close>

definition ensure_raw_headers :: "fenv \<Rightarrow> entry_key \<Rightarrow> path \<Rightarrow> (string \<times> val) list list \<Rightarrow> file_action" where
  "ensure_raw_headers e k p ms = query (\<lambda>s.
     let hs = me_raw_headers (meta_of k s); derived = derive_headers ms;
         set_headers = (\<lambda>hs. upd (\<lambda>s. s\<lparr>fm_meta := dput k ((meta_of k s)\<lparr>me_raw_headers := hs\<rparr>) (fm_meta s)\<rparr>)) in
     if hs = [] then (case fe_create e p of Some x \<Rightarrow> raise x
         | None \<Rightarrow> seq (upd (put_file p (Table [derived]))) (set_headers derived))
     else (let missing = filter (\<lambda>h. h \<notin> set hs) derived; expanded = hs @ missing in
       if missing = [] then skip
       else (case fe_create e p of Some x \<Rightarrow> raise x
           | None \<Rightarrow> seq (upd (put_file p (Table (expanded # widen_rows expanded (rows_of p s))))) (set_headers expanded))))"

definition append_rows :: "fenv \<Rightarrow> path \<Rightarrow> string list list \<Rightarrow> file_action" where
  "append_rows e p rows = (case fe_write e p of
     None \<Rightarrow> upd (\<lambda>s. put_file p (Table (rows_of p s @ rows)) s)
   | Some (n, x) \<Rightarrow> seq (upd (\<lambda>s. put_file p (Table (rows_of p s @ take n rows)) s)) (raise x))"

definition write_block :: "fenv \<Rightarrow> entry_key \<Rightarrow> val list \<Rightarrow> file_action" where
  "write_block e k samples = query (\<lambda>s. case me_file_path (meta_of k s) of
     None \<Rightarrow> skip
   | Some p \<Rightarrow> if samples = [] then skip
       else if p \<notin> set (fm_locks s) then raise ''KeyError''
       else (let ms = map sample_to_mapping samples in
         seq (ensure_raw_headers e k p ms) (query (\<lambda>s.
           append_rows e p (map (csv_row (me_raw_headers (meta_of k s))) ms)))))"

definition record_raw_write_failure :: "fenv \<Rightarrow> entry_key \<Rightarrow> string \<Rightarrow> file_manager \<Rightarrow> file_manager" where
  "record_raw_write_failure e k x s =
     (let m = meta_of k s; sid = (case me_subject_id m of None \<Rightarrow> ''unknown_subject'' | Some i \<Rightarrow> if i = [] then ''unknown_subject'' else i) in
      s\<lparr>fm_raw_failures := dappend sid (VDict [(''subject_id'', VStr sid),
          (''path'', case me_file_path m of None \<Rightarrow> VStr ''None'' | Some p \<Rightarrow> VList (map VStr p)), (''error'', VStr x),
          (''timestamp'', VStr (fe_now e))]) (fm_raw_failures s)\<rparr>)"

definition enqueue_block :: "entry_key \<Rightarrow> val list \<Rightarrow> file_manager \<Rightarrow> file_manager" where
  "enqueue_block k samples s = (case me_file_path (meta_of k s) of
     None \<Rightarrow> s
   | Some _ \<Rightarrow> if samples = [] then s else s\<lparr>fm_raw_queue := fm_raw_queue s @ [(k, samples)]\<rparr>)"

definition writer_turn :: "fenv \<Rightarrow> file_manager \<Rightarrow> file_manager" where
  "writer_turn e s = (case fm_raw_queue s of
     [] \<Rightarrow> s
   | (k, samples) # rest \<Rightarrow> (case write_block e k samples (s\<lparr>fm_raw_queue := rest\<rparr>) of
       (s', _, None) \<Rightarrow> s'
     | (s', _, Some x) \<Rightarrow> record_raw_write_failure e k x s'))"

text \<open>\<open>flush\<close> returns when the writer has taken everything that was queued.\<close>

fun fm_flush :: "fenv list \<Rightarrow> file_manager \<Rightarrow> file_manager" where
  "fm_flush [] s = s"
| "fm_flush (e # es) s = fm_flush es (writer_turn e s)"

definition get_raw_write_failures :: "string list \<Rightarrow> file_manager \<Rightarrow> (string \<times> val list) list" where
  "get_raw_write_failures sids s =
     List.map_filter (\<lambda>sid. let fs = dget_or (fm_raw_failures s) sid [] in if fs = [] then None else Some (sid, fs)) sids"

definition parent_of :: "path \<Rightarrow> path" where
  "parent_of p = butlast p"

definition marker_path :: "val list \<Rightarrow> path" where
  "marker_path failures = parent_of (parent_of (map py_str (as_list (vget (hd failures) ''path'')))) @ [''_partial_incomplete.json'']"

definition mark_subject_outputs_partial :: "string list \<Rightarrow> file_manager \<Rightarrow> file_manager" where
  "mark_subject_outputs_partial sids s = fold (\<lambda>(sid, fs). put_file (marker_path fs) (Document (VDict
     [(''subject_id'', VStr sid), (''status'', VStr ''partial''), (''reason'', VStr ''raw_write_failure''),
      (''failure_count'', VInt (int (length fs))), (''failures'', VList fs)]))) (get_raw_write_failures sids s) s"

section \<open>Results\<close>

definition append_record :: "path \<Rightarrow> val \<Rightarrow> file_action" where
  "append_record p r = query (\<lambda>s. if p \<notin> set (fm_locks s) then raise ''KeyError''
     else upd (put_file p (Records (records_of p s @ [r]))))"

definition write_computed_json :: "entry_key \<Rightarrow> val \<Rightarrow> file_action" where
  "write_computed_json k r = query (\<lambda>s.
     let stage = py_lower (py_str (vget r ''stage''));
         p = (if stage = ''real_time'' then me_real_time_path (meta_of k s)
              else if stage = ''consolidated_time'' then me_consolidated_path (meta_of k s) else None)
     in case p of None \<Rightarrow> skip | Some p \<Rightarrow> append_record p r)"

definition write_intermediate_json :: "string \<Rightarrow> string \<Rightarrow> val \<Rightarrow> file_action" where
  "write_intermediate_json sid algo r = query (\<lambda>s. case map_of (fm_intermediate_paths s) (sid, algo) of
     None \<Rightarrow> skip | Some p \<Rightarrow> append_record p r)"

definition write_consolidated_json :: "string \<Rightarrow> string \<Rightarrow> val \<Rightarrow> file_action" where
  "write_consolidated_json sid algo r = query (\<lambda>s. case map_of (fm_consolidated_paths s) (sid, algo) of
     None \<Rightarrow> skip | Some p \<Rightarrow> append_record p r)"

definition read_intermediate_json :: "string \<Rightarrow> string option \<Rightarrow> file_manager \<Rightarrow> val list" where
  "read_intermediate_json sid algo s =
     (let candidates = (case algo of
          Some a \<Rightarrow> (case map_of (fm_intermediate_paths s) (sid, a) of None \<Rightarrow> [] | Some p \<Rightarrow> [p])
        | None \<Rightarrow> map snd (filter (\<lambda>((sid', _), _). sid' = sid) (fm_intermediate_paths s)))
      in filter (\<lambda>r. case algo of None \<Rightarrow> True | Some a \<Rightarrow> a = [] \<or> vget r ''algorithm_name'' = VStr a)
           (concat (map (\<lambda>p. records_of p s) candidates)))"

section \<open>Session diagnostics\<close>

text \<open>\<open>_merge_summary\<close>: nested dictionaries are merged, everything else is replaced.\<close>

function (sequential) merge_val :: "val option \<Rightarrow> val \<Rightarrow> val"
  and merge_items :: "(string \<times> val) list \<Rightarrow> (string \<times> val) list \<Rightarrow> (string \<times> val) list" where
  "merge_val (Some (VDict t)) (VDict u) = VDict (merge_items t u)"
| "merge_val _ v = v"
| "merge_items t [] = t"
| "merge_items t ((k, v) # u) = merge_items (dput k (merge_val (map_of t k) v) t) u"
  by pat_completeness auto
termination
  by (relation "measure (\<lambda>x. case x of Inl (_, v) \<Rightarrow> size v | Inr (_, u) \<Rightarrow> size_list (size_prod (\<lambda>_. 0) size) u)") auto

definition events_path :: "path \<Rightarrow> path" where
  "events_path dir = dir @ [''session_diagnostics.jsonl'']"

definition summary_path :: "path \<Rightarrow> path" where
  "summary_path dir = dir @ [''session_diagnostics.json'']"

definition new_summary :: "fenv \<Rightarrow> file_manager \<Rightarrow> string \<Rightarrow> val" where
  "new_summary e s ts = (let name = (\<lambda>x. case x of None \<Rightarrow> VNone | Some y \<Rightarrow> VStr y) in
     VDict [(''site'', VStr (fm_site s)), (''node_id'', VStr (fm_node_id s)), (''session_label'', name (fm_session_label s)),
      (''session_name'', name (fm_session_name s)), (''session_timestamp'', VStr ts),
      (''session_dir'', VList (map VStr (fm_session_dir s ts))), (''status'', VStr ''starting''), (''started_at'', VStr (fe_now e)),
      (''last_updated_at'', VStr (fe_now e)), (''lifecycle_events'', VList []), (''gateway_diagnostics'', VList []), (''errors'', VList [])])"

text \<open>A new summary of the current session, in the state and on the disk.\<close>

definition set_summary :: "fenv \<Rightarrow> (val \<Rightarrow> val) \<Rightarrow> file_manager \<Rightarrow> file_manager" where
  "set_summary e f s = (case fm_diagnostics s of
     None \<Rightarrow> s
   | Some (ts, dir, summary) \<Rightarrow> (let new = vput ''last_updated_at'' (VStr (fe_now e)) (f summary) in
       put_file (summary_path dir) (Document new) (s\<lparr>fm_diagnostics := Some (ts, dir, new)\<rparr>)))"

definition current_session :: "val \<Rightarrow> file_manager \<Rightarrow> bool" where
  "current_session idx s \<longleftrightarrow> (case fm_diagnostics s of None \<Rightarrow> False | Some (ts, _, _) \<Rightarrow> ts = py_str idx)"

definition start_session_diagnostics :: "fenv \<Rightarrow> val \<Rightarrow> val \<Rightarrow> file_manager \<Rightarrow> file_manager" where
  "start_session_diagnostics e idx metadata s =
     (let ts = py_str idx in
      if \<not> truthy idx \<or> ts \<in> set (fm_finalized s) then s
      else set_summary e (\<lambda>v. if truthy metadata then VDict (merge_items (as_dict v) (as_dict metadata)) else v)
        (if current_session idx s then s
         else s\<lparr>fm_diagnostics := Some (ts, diagnostics_dir (fm_site s) (case fm_session_name s of None \<Rightarrow> [] | Some n \<Rightarrow> n) ts (fm_node_id s),
                  new_summary e s ts)\<rparr>))"

definition push_to :: "string \<Rightarrow> val \<Rightarrow> val \<Rightarrow> val" where
  "push_to k r v = vput k (VList (as_list (vget v k) @ [r])) v"

definition note_event :: "string \<Rightarrow> val \<Rightarrow> val \<Rightarrow> val \<Rightarrow> val" where
  "note_event ty payload r v =
     (if py_startswith ty ''stream_'' then push_to ''lifecycle_events'' r (vput ''status'' (vget_or payload ''phase'' (vget v ''status'')) v)
      else if ty = ''sensor_diagnostics'' then vput ''latest_gateway_diagnostics'' payload (push_to ''gateway_diagnostics'' r v)
      else if ty = ''error'' then push_to ''errors'' r v else v)"

definition append_session_diagnostics_event :: "fenv \<Rightarrow> val \<Rightarrow> string \<Rightarrow> val \<Rightarrow> file_manager \<Rightarrow> file_manager" where
  "append_session_diagnostics_event e idx ty payload s0 =
     (let s = start_session_diagnostics e idx VNone s0;
          r = VDict [(''timestamp'', VStr (fe_now e)), (''type'', VStr ty), (''payload'', payload)] in
      case fm_diagnostics s of
        None \<Rightarrow> s
      | Some (ts, dir, summary) \<Rightarrow> if ts \<noteq> py_str idx then s
          else set_summary e (note_event ty payload r) (put_file (events_path dir) (Records (records_of (events_path dir) s @ [r])) s))"

definition record_session_diagnostics_error :: "fenv \<Rightarrow> val \<Rightarrow> string \<Rightarrow> val \<Rightarrow> file_manager \<Rightarrow> file_manager" where
  "record_session_diagnostics_error e idx message ctx s = append_session_diagnostics_event e idx ''error''
     (VDict ((''message'', VStr message) # (if truthy ctx then [(''context'', ctx)] else []))) s"

definition enqueue_session_diagnostics_event :: "val \<Rightarrow> string \<Rightarrow> val \<Rightarrow> file_manager \<Rightarrow> file_manager" where
  "enqueue_session_diagnostics_event idx ty payload s =
     (if truthy idx then s\<lparr>fm_diagnostics_queue := fm_diagnostics_queue s @ [(py_str idx, ty, payload)]\<rparr> else s)"

definition diagnostics_writer_turn :: "fenv \<Rightarrow> file_manager \<Rightarrow> file_manager" where
  "diagnostics_writer_turn e s = (case fm_diagnostics_queue s of
     [] \<Rightarrow> s
   | (ts, ty, payload) # rest \<Rightarrow> append_session_diagnostics_event e (VStr ts) ty payload (s\<lparr>fm_diagnostics_queue := rest\<rparr>))"

definition update_session_diagnostics_summary :: "fenv \<Rightarrow> val \<Rightarrow> val \<Rightarrow> file_manager \<Rightarrow> file_manager" where
  "update_session_diagnostics_summary e idx updates s0 =
     (let s = start_session_diagnostics e idx VNone s0 in
      if \<not> current_session idx s then s else set_summary e (\<lambda>v. VDict (merge_items (as_dict v) (as_dict updates))) s)"

definition finalize_session_diagnostics :: "fenv \<Rightarrow> val \<Rightarrow> string \<Rightarrow> val \<Rightarrow> val \<Rightarrow> file_manager \<Rightarrow> file_manager" where
  "finalize_session_diagnostics e idx status reason updates s0 =
     (let s = start_session_diagnostics e idx VNone s0 in
      if \<not> current_session idx s then s
      else set_summary e (\<lambda>v.
        let v = vput ''finalized_at'' (VStr (fe_now e)) (vput ''status'' (VStr status) v);
            v = (if truthy reason then vput ''reason'' reason v else v)
        in if truthy updates then VDict (merge_items (as_dict v) (as_dict updates)) else v) s)"

text \<open>\<open>finish_session_diagnostics\<close>: it waits for the queue, so the queued events are written first.\<close>

fun drain_diagnostics :: "fenv \<Rightarrow> (string \<times> string \<times> val) list \<Rightarrow> file_manager \<Rightarrow> file_manager" where
  "drain_diagnostics e [] s = s"
| "drain_diagnostics e ((ts, ty, payload) # rest) s = drain_diagnostics e rest (append_session_diagnostics_event e (VStr ts) ty payload s)"

definition finish_session_diagnostics :: "fenv \<Rightarrow> val \<Rightarrow> file_manager \<Rightarrow> file_manager" where
  "finish_session_diagnostics e idx s0 =
     (if \<not> truthy idx then s0
      else let s = (drain_diagnostics e (fm_diagnostics_queue s0) s0)\<lparr>fm_diagnostics_queue := []\<rparr> in
        s\<lparr>fm_finalized := py_str idx # fm_finalized s, fm_diagnostics := (if current_session idx s then None else fm_diagnostics s)\<rparr>)"

section \<open>Archive\<close>

definition below :: "path \<Rightarrow> path \<Rightarrow> bool" where
  "below dir p \<longleftrightarrow> length dir < length p \<and> take (length dir) p = dir"

definition archive_session_directory :: "fenv \<Rightarrow> path \<Rightarrow> path \<Rightarrow> file_action" where
  "archive_session_directory e dir target = query (\<lambda>s.
     let files = map (\<lambda>(p, c). (drop (length dir) p, c)) (filter (\<lambda>(p, _). below dir p) (fm_disk s)) in
     if files = [] then raise ''Session directory not found''
     else (case fe_archive e of
         Some (n, x) \<Rightarrow> seq (upd (put_file target (Archive (take n files)))) (raise x)
       | None \<Rightarrow> seq (upd (put_file target (Archive files)))
           (upd (\<lambda>s. s\<lparr>fm_disk := filter (\<lambda>(p, _). \<not> below dir p) (fm_disk s)\<rparr>))))"

definition archive_path :: "file_manager \<Rightarrow> string \<Rightarrow> path" where
  "archive_path s ts = resolve_base_dir (fm_site s) @
     [build_session_archive_name (case fm_session_name s of None \<Rightarrow> [] | Some n \<Rightarrow> n) ts]"

definition archive_session :: "fenv \<Rightarrow> val \<Rightarrow> file_action" where
  "archive_session e idx = (if \<not> truthy idx then raise ''Session directory is unavailable for archiving''
     else query (\<lambda>s. archive_session_directory e (fm_session_dir s (py_str idx)) (archive_path s (py_str idx))))"

definition set_label :: "string option \<Rightarrow> file_manager \<Rightarrow> file_manager" where
  "set_label label s = (let l = (case label of None \<Rightarrow> ''sys_session'' | Some x \<Rightarrow> if x = [] then ''sys_session'' else sanitize_label x)
     in s\<lparr>fm_session_name := Some l, fm_session_label := Some l\<rparr>)"

end
