(* ===== verification/File_Props.thy ===== *)
theory File_Props
  imports File_Manager
begin

text \<open>
  What the file manager keeps: the CSV file of a sensor is the table of its samples however they were cut
  into blocks, a sample that is not in it has been reported, an archive holds the whole session, and a
  finished session is not written again.
\<close>

section \<open>Headers and rows\<close>

definition field_names :: "(string \<times> val) list list \<Rightarrow> string list" where
  "field_names ms = concat (map (map fst) ms)"

lemma derive_headers_fold: "derive_headers ms = fold add_header (field_names ms) []"
proof -
  have one: "fold (\<lambda>(k, _). add_header k) m hs = fold add_header (map fst m) hs" for m :: "(string \<times> val) list" and hs
    by (induction m arbitrary: hs) auto
  have "fold (\<lambda>m hs. fold (\<lambda>(k, _). add_header k) m hs) ms hs = fold add_header (field_names ms) hs" for hs
    by (induction ms arbitrary: hs) (auto simp: field_names_def one)
  then show ?thesis by (simp add: derive_headers_def)
qed

lemma set_fold_headers [simp]: "set (fold add_header ks hs) = set hs \<union> set ks"
  by (induction ks arbitrary: hs) (auto simp: add_header_def)

lemma fold_headers:
  "fold add_header ks hs = hs @ filter (\<lambda>k. k \<notin> set hs) (fold add_header ks [])"
proof (induction ks rule: rev_induct)
  case (snoc k ks)
  define D where "D = fold add_header ks []"
  have D: "set D = set ks" by (simp add: D_def)
  have IH: "fold add_header ks hs = hs @ filter (\<lambda>k. k \<notin> set hs) D" using snoc by (simp add: D_def)
  have "add_header k (hs @ filter (\<lambda>k. k \<notin> set hs) D) = hs @ filter (\<lambda>k. k \<notin> set hs) (add_header k D)"
    by (auto simp: add_header_def)
  then show ?case by (simp add: IH D_def)
qed simp

lemma derive_headers_append:
  "derive_headers (ms @ ns) = derive_headers ms @ filter (\<lambda>h. h \<notin> set (derive_headers ms)) (derive_headers ns)"
  by (simp add: derive_headers_fold field_names_def)
    (subst fold_headers, simp)

lemma derive_headers_names: "m \<in> set ms \<Longrightarrow> set (map fst m) \<subseteq> set (derive_headers ms)"
  by (auto simp: derive_headers_fold field_names_def)

lemma derive_headers_empty: "(\<And>m. m \<in> set ms \<Longrightarrow> m \<noteq> []) \<Longrightarrow> derive_headers ms = [] \<longleftrightarrow> ms = []"
proof
  assume ne: "\<And>m. m \<in> set ms \<Longrightarrow> m \<noteq> []" and empty: "derive_headers ms = []"
  have "m = []" if "m \<in> set ms" for m using derive_headers_names [OF that] empty by simp
  with ne show "ms = []" by (cases ms) auto
qed (simp add: derive_headers_def)

text \<open>The table of some samples: their headers and one row for each.\<close>

definition table_of :: "(string \<times> val) list list \<Rightarrow> string list list" where
  "table_of ms = (if ms = [] then [] else derive_headers ms # map (csv_row (derive_headers ms)) ms)"

lemma widen_table:
  assumes "set (concat (map (map fst) ms)) \<subseteq> set hs"
  shows "widen_rows (hs @ xs) (hs # map (csv_row hs) ms) = map (csv_row (hs @ xs)) ms"
proof -
  have "map (\<lambda>h. dget_or (zip hs (csv_row hs m)) h []) (hs @ xs) = csv_row (hs @ xs) m" if "m \<in> set ms" for m
  proof -
    have "dget_or (zip hs (csv_row hs m)) h [] = csv_cell (dget_or m h VNone)" for h
    proof (cases "h \<in> set hs")
      case True
      then show ?thesis by (simp add: dget_or_def csv_row_def map_of_zip_map)
    next
      case False
      with assms that have "h \<notin> fst ` set m" by auto
      then have "map_of m h = None" by (simp add: map_of_eq_None_iff)
      with False show ?thesis by (simp add: dget_or_def csv_row_def map_of_zip_map)
    qed
    then show ?thesis by (simp add: csv_row_def)
  qed
  then show ?thesis by (simp add: widen_rows_def)
qed

section \<open>The file of one sensor\<close>

text \<open>\<open>tabled k p sid ms s\<close>: the entry \<open>k\<close> of the subject \<open>sid\<close> writes to \<open>p\<close>, nobody else does, and the file is the
  table of \<open>ms\<close>.\<close>

definition holds_file :: "entry_key \<Rightarrow> path \<Rightarrow> string \<Rightarrow> file_manager \<Rightarrow> bool" where
  "holds_file k p sid s \<longleftrightarrow> me_file_path (meta_of k s) = Some p \<and> me_subject_id (meta_of k s) = Some sid \<and> sid \<noteq> [] \<and> p \<in> set (fm_locks s) \<and>
     (\<forall>j. j \<noteq> k \<longrightarrow> me_file_path (meta_of j s) \<noteq> Some p)"

definition tabled :: "entry_key \<Rightarrow> path \<Rightarrow> (string \<times> val) list list \<Rightarrow> file_manager \<Rightarrow> bool" where
  "tabled k p ms s \<longleftrightarrow> me_raw_headers (meta_of k s) = derive_headers ms \<and> rows_of p s = table_of ms"

lemma meta_of_simps [simp]:
  "meta_of k (s\<lparr>fm_meta := ms\<rparr>) = dget_or ms k no_meta"
  "meta_of k (put_file p c s) = meta_of k s" "meta_of k (s\<lparr>fm_raw_queue := q\<rparr>) = meta_of k s"
  "meta_of k (s\<lparr>fm_raw_failures := fs\<rparr>) = meta_of k s"
  by (simp_all add: meta_of_def put_file_def)

lemma meta_fold [simp]: "dget_or (fm_meta s) k no_meta = meta_of k s"
  by (simp add: meta_of_def)

lemma rows_of_simps [simp]:
  "rows_of p (put_file q (Table rows) s) = (if q = p then rows else rows_of p s)"
  "rows_of p (s\<lparr>fm_meta := m\<rparr>) = rows_of p s" "rows_of p (s\<lparr>fm_raw_queue := qs\<rparr>) = rows_of p s"
  "rows_of p (s\<lparr>fm_raw_failures := fs\<rparr>) = rows_of p s"
  by (simp_all add: rows_of_def put_file_def)

lemma put_file_frame [simp]:
  "fm_locks (put_file p c s) = fm_locks s" "fm_meta (put_file p c s) = fm_meta s" "fm_raw_queue (put_file p c s) = fm_raw_queue s"
  "fm_raw_failures (put_file p c s) = fm_raw_failures s"
  by (simp_all add: put_file_def)

text \<open>A block that is written without an exception extends the table.\<close>

lemmas write_defs = write_block_def ensure_raw_headers_def append_rows_def query_def seq_def upd_def skip_def raise_def Let_def

lemma write_block_tabled:
  assumes "me_file_path (meta_of k s) = Some p" "p \<in> set (fm_locks s)" "samples \<noteq> []"
    and wb: "write_block e k samples s = (t, es, None)"
    and "tabled k p ms s" "\<forall>m \<in> set ms. m \<noteq> []" "\<forall>x \<in> set samples. sample_to_mapping x \<noteq> []"
  shows "tabled k p (ms @ map sample_to_mapping samples) t"
proof -
  define ns where "ns = map sample_to_mapping samples"
  have ns: "ns \<noteq> []" "\<forall>m \<in> set ns. m \<noteq> []" using assms(3,7) by (auto simp: ns_def)
  define hs where "hs = derive_headers ms"
  have hs: "me_raw_headers (meta_of k s) = hs" "rows_of p s = table_of ms" using assms(5) by (simp_all add: tabled_def hs_def)
  have hs_empty: "hs = [] \<longleftrightarrow> ms = []" unfolding hs_def using assms(6) by (intro derive_headers_empty) auto
  define es' where "es' = hs @ filter (\<lambda>h. h \<notin> set hs) (derive_headers ns)"
  have all: "derive_headers (ms @ ns) = es'"
    by (simp add: derive_headers_append hs_def es'_def)
  show ?thesis
  proof (cases "ms = []")
    case True
    with hs hs_empty assms(1-4) show ?thesis
      by (cases "fe_create e p"; cases "fe_write e p")
        (auto simp: write_defs tabled_def table_of_def ns_def [symmetric] ns)
  next
    case False
    have within: "set (concat (map (map fst) ms)) \<subseteq> set hs"
      using derive_headers_names unfolding hs_def by fastforce
    show ?thesis
    proof (cases "filter (\<lambda>h. h \<notin> set hs) (derive_headers ns) = []")
      case True
      with all have same: "derive_headers (ms @ ns) = hs" by (simp add: es'_def)
      with hs hs_empty False True assms(1-4) show ?thesis
        by (cases "fe_write e p")
          (auto simp: write_defs tabled_def table_of_def ns_def [symmetric] ns hs_def [symmetric])
    next
      case miss: False
      have "widen_rows es' (table_of ms) = map (csv_row es') ms"
        using widen_table [OF within] False by (simp add: es'_def table_of_def hs_def [symmetric])
      with hs hs_empty False miss assms(1-4) all show ?thesis
        by (cases "fe_create e p"; cases "fe_write e p")
          (auto simp: write_defs tabled_def table_of_def ns_def [symmetric] ns hs_def [symmetric] es'_def [symmetric])
    qed
  qed
qed

text \<open>What a block of the entry \<open>j\<close> leaves as it is, whether it is written or fails.\<close>

definition file_beside :: "entry_key \<Rightarrow> path option \<Rightarrow> file_manager \<Rightarrow> file_manager \<Rightarrow> bool" where
  "file_beside j q s t \<longleftrightarrow> fm_locks t = fm_locks s \<and> fm_raw_queue t = fm_raw_queue s \<and> fm_raw_failures t = fm_raw_failures s \<and>
     (\<forall>k. me_file_path (meta_of k t) = me_file_path (meta_of k s) \<and> me_subject_id (meta_of k t) = me_subject_id (meta_of k s)) \<and>
     (\<forall>k. k \<noteq> j \<longrightarrow> meta_of k t = meta_of k s) \<and> (\<forall>p. q \<noteq> Some p \<longrightarrow> rows_of p t = rows_of p s)"

lemma file_beside_refl: "file_beside j q s s"
  by (simp add: file_beside_def)

lemma file_beside_put: "file_beside j (Some q) s t \<Longrightarrow> file_beside j (Some q) s (put_file q (Table rows) t)"
  by (auto simp: file_beside_def)

lemma file_beside_headers:
  "file_beside j q s t \<Longrightarrow> file_beside j q s (t\<lparr>fm_meta := dput j ((meta_of j t)\<lparr>me_raw_headers := hs\<rparr>) (fm_meta t)\<rparr>)"
  by (auto simp: file_beside_def)

lemma file_beside_rewrite:
  "file_beside j (Some q) s t \<Longrightarrow>
   file_beside j (Some q) s ((put_file q (Table rows) t)\<lparr>fm_meta := dput j ((meta_of j t)\<lparr>me_raw_headers := hs\<rparr>) (fm_meta t)\<rparr>)"
  using file_beside_headers [OF file_beside_put] by simp

lemma write_block_beside:
  "ok (file_beside j (me_file_path (meta_of j s)) s) (\<lambda>_. True) (write_block e j samples) s"
proof (cases "me_file_path (meta_of j s)")
  case None
  then show ?thesis by (simp add: write_block_def ok_simps file_beside_refl)
next
  case (Some q)
  have append: "ok (file_beside j (Some q) s) (\<lambda>_. True) (append_rows e q rows) t" if "file_beside j (Some q) s t" for rows t
    using that by (auto simp: append_rows_def ok_simps file_beside_put split: option.split)
  have headers: "ok (file_beside j (Some q) s) (\<lambda>_. True) (ensure_raw_headers e j q ms) t" if "file_beside j (Some q) s t" for ms t
    using that by (auto simp: ensure_raw_headers_def Let_def ok_simps file_beside_rewrite split: option.split)
  show ?thesis using Some
    by (auto simp: write_block_def Let_def file_beside_refl ok_simps intro!: ok_structure ok_seq headers append)
qed

section \<open>Recording\<close>

datatype fop = Enqueue entry_key "val list" | WriterTurn

fun fop_step :: "fenv \<Rightarrow> fop \<Rightarrow> file_manager \<Rightarrow> file_manager" where
  "fop_step e (Enqueue k samples) s = enqueue_block k samples s"
| "fop_step e WriterTurn s = writer_turn e s"

fun fm_run :: "(fenv \<times> fop) list \<Rightarrow> file_manager \<Rightarrow> file_manager" where
  "fm_run [] s = s"
| "fm_run ((e, x) # xs) s = fm_run xs (fop_step e x s)"

fun enqueued_by :: "entry_key \<Rightarrow> fop \<Rightarrow> val list" where
  "enqueued_by k (Enqueue j samples) = (if j = k then samples else [])"
| "enqueued_by k WriterTurn = []"

definition enqueued :: "entry_key \<Rightarrow> (fenv \<times> fop) list \<Rightarrow> val list" where
  "enqueued k xs = concat (map (enqueued_by k \<circ> snd) xs)"

definition queued_rows :: "entry_key \<Rightarrow> file_manager \<Rightarrow> val list" where
  "queued_rows k s = concat (map snd (filter (\<lambda>(j, _). j = k) (fm_raw_queue s)))"

definition reported :: "string \<Rightarrow> file_manager \<Rightarrow> bool" where
  "reported sid s \<longleftrightarrow> get_raw_write_failures [sid] s \<noteq> []"

lemma reported_iff: "reported sid s \<longleftrightarrow> dget_or (fm_raw_failures s) sid [] \<noteq> []"
  by (simp add: reported_def get_raw_write_failures_def Let_def map_filter_simps)

text \<open>Everything enqueued so far is in the file or waits, in order, unless a failure is reported.\<close>

definition recorded :: "entry_key \<Rightarrow> path \<Rightarrow> string \<Rightarrow> val list \<Rightarrow> file_manager \<Rightarrow> bool" where
  "recorded k p sid xs s \<longleftrightarrow> holds_file k p sid s \<and> (reported sid s \<or>
     (\<exists>ys. tabled k p (map sample_to_mapping ys) s \<and> ys @ queued_rows k s = xs))"

lemma holds_file_beside: "holds_file k p sid s \<Longrightarrow> file_beside j q s t \<Longrightarrow> holds_file k p sid t"
  unfolding holds_file_def file_beside_def by metis

lemma recorded_enqueue:
  assumes "recorded k p sid xs s"
  shows "recorded k p sid (xs @ enqueued_by k (Enqueue j samples)) (enqueue_block j samples s)"
proof -
  have path: "me_file_path (meta_of k s) = Some p" using assms by (simp add: recorded_def holds_file_def)
  show ?thesis
  proof (cases "me_file_path (meta_of j s) = None \<or> samples = []")
    case True
    then have "enqueue_block j samples s = s" "enqueued_by k (Enqueue j samples) = []"
      using path by (auto simp: enqueue_block_def split: option.splits)
    then show ?thesis using assms by simp
  next
    case False
    then have step: "enqueue_block j samples s = s\<lparr>fm_raw_queue := fm_raw_queue s @ [(j, samples)]\<rparr>"
      by (auto simp: enqueue_block_def)
    have "queued_rows k (enqueue_block j samples s) = queued_rows k s @ enqueued_by k (Enqueue j samples)"
      by (simp add: step queued_rows_def)
    moreover have "holds_file k p sid (enqueue_block j samples s) = holds_file k p sid s" "reported sid (enqueue_block j samples s) = reported sid s"
      "tabled k p ms (enqueue_block j samples s) = tabled k p ms s" for ms
      by (simp_all add: step holds_file_def reported_iff tabled_def)
    ultimately show ?thesis using assms unfolding recorded_def by (metis append.assoc)
  qed
qed

lemma block_tabled:
  assumes "holds_file k p sid u" and "write_block e k b u = (t, es, None)" and "tabled k p (map sample_to_mapping ys) u"
    and "\<forall>x \<in> set (ys @ b). sample_to_mapping x \<noteq> []"
  shows "tabled k p (map sample_to_mapping (ys @ b)) t"
proof -
  have paths: "me_file_path (meta_of k u) = Some p" "p \<in> set (fm_locks u)" using assms(1) by (simp_all add: holds_file_def)
  show ?thesis
  proof (cases "b = []")
    case True
    then have "t = u" using assms(2) paths by (simp add: write_block_def query_def skip_def)
    with assms(3) True show ?thesis by simp
  next
    case False
    have "\<forall>m \<in> set (map sample_to_mapping ys). m \<noteq> []" "\<forall>x \<in> set b. sample_to_mapping x \<noteq> []" using assms(4) by auto
    from write_block_tabled [OF paths False _ assms(3) this, of e t es] assms(2) show ?thesis by simp
  qed
qed

lemma record_failure_keeps:
  assumes "u = record_raw_write_failure e j y t"
  shows "holds_file k p sid t \<Longrightarrow> holds_file k p sid u" and "reported sid t \<Longrightarrow> reported sid u"
    and "holds_file j p sid t \<Longrightarrow> reported sid u"
    and "tabled k p rows t \<Longrightarrow> tabled k p rows u" and "queued_rows k u = queued_rows k t"
  unfolding assms
  by (auto simp: holds_file_def reported_iff tabled_def queued_rows_def dappend_def record_raw_write_failure_def Let_def)

lemma recorded_writer:
  assumes "recorded k p sid xs s" and wf: "\<forall>x \<in> set xs. sample_to_mapping x \<noteq> []"
  shows "recorded k p sid xs (writer_turn e s)"
proof (cases "fm_raw_queue s")
  case Nil
  with assms show ?thesis by (simp add: writer_turn_def)
next
  case (Cons jb rest)
  obtain j b where jb: "jb = (j, b)" by (cases jb)
  define u where "u = s\<lparr>fm_raw_queue := rest\<rparr>"
  obtain t es x where wb: "write_block e j b u = (t, es, x)" by (cases "write_block e j b u")
  have bs: "file_beside j (me_file_path (meta_of j u)) u t"
    using write_block_beside [of j u e b] wb by (simp add: ok_def)
  have u: "meta_of i u = meta_of i s" "rows_of q u = rows_of q s" for i q by (simp_all add: u_def)
  have own: "holds_file k p sid s" using assms(1) by (simp add: recorded_def)
  then have own_u: "holds_file k p sid u" by (simp add: holds_file_def u_def)
  then have own_t: "holds_file k p sid t" using bs by (rule holds_file_beside)
  have q: "fm_raw_queue t = rest" "fm_raw_failures t = fm_raw_failures s" using bs by (simp_all add: file_beside_def u_def)
  have step: "writer_turn e s = (case x of None \<Rightarrow> t | Some y \<Rightarrow> record_raw_write_failure e j y t)"
    unfolding writer_turn_def Cons jb by (simp add: wb [unfolded u_def] split: option.splits)
  note failed = record_failure_keeps [OF refl, where t = t]
  have keep: "reported sid s \<Longrightarrow> reported sid t" by (simp add: reported_iff q)
  show ?thesis
  proof (cases "reported sid s")
    case True
    then show ?thesis using step own_t failed keep by (auto simp: recorded_def split: option.splits)
  next
    case False
    with assms(1) obtain ys where ys: "tabled k p (map sample_to_mapping ys) s" "ys @ queued_rows k s = xs"
      by (auto simp: recorded_def)
    show ?thesis
    proof (cases "j = k")
      case True
      show ?thesis
      proof (cases x)
        case (Some y)
        with step own_t failed(1,3) True show ?thesis by (auto simp: recorded_def)
      next
        case None
        have w: "queued_rows k s = b @ queued_rows k t" using Cons jb True q by (simp add: queued_rows_def)
        have "tabled k p (map sample_to_mapping (ys @ b)) t"
          using own_u wb None True wf ys w by (intro block_tabled [of k p sid u e b t es ys]) (auto simp: tabled_def u)
        with None step own_t w ys(2) show ?thesis by (auto simp: recorded_def)
      qed
    next
      case False
      then have "me_file_path (meta_of j u) \<noteq> Some p" using own by (simp add: holds_file_def u del: split_paired_All)
      then have "tabled k p (map sample_to_mapping ys) t" using bs False ys(1) by (simp add: file_beside_def tabled_def u del: split_paired_All)
      moreover have "queued_rows k t = queued_rows k s" using Cons jb False q by (simp add: queued_rows_def)
      ultimately show ?thesis using step own_t ys(2) by (cases x) (auto simp: recorded_def failed(5) intro: failed(1,4))
    qed
  qed
qed

lemma recorded_run:
  "recorded k p sid ys s \<Longrightarrow> \<forall>x \<in> set (ys @ enqueued k xs). sample_to_mapping x \<noteq> [] \<Longrightarrow>
   recorded k p sid (ys @ enqueued k xs) (fm_run xs s)"
proof (induction xs arbitrary: ys s)
  case Nil
  then show ?case by (simp add: enqueued_def)
next
  case (Cons ex xs)
  obtain e x where ex: "ex = (e, x)" by (cases ex)
  have "recorded k p sid (ys @ enqueued_by k x) (fop_step e x s)"
  proof (cases x)
    case (Enqueue j samples)
    with recorded_enqueue [OF Cons.prems(1)] show ?thesis by simp
  next
    case WriterTurn
    with recorded_writer [OF Cons.prems(1)] Cons.prems(2) show ?thesis by simp
  qed
  from Cons.IH [OF this] Cons.prems(2) show ?case by (simp add: ex enqueued_def)
qed

section \<open>Opening the files of a subject\<close>

lemma path_lengths:
  "length (raw_path_of dir sid tag en) = length dir + 6" "length (real_time_path_of dir sid tag en) = length dir + 8"
  "length (build_intermediate_path dir sid tag algo) = length dir + 7" "length (build_consolidated_path dir sid tag algo) = length dir + 7"
  by (simp_all add: raw_path_of_def real_time_path_of_def build_raw_path_def build_real_time_path_def build_intermediate_path_def
      build_consolidated_path_def build_subject_activity_dir_def)

lemma rows_of_other: "q \<noteq> p \<Longrightarrow> rows_of p (put_file q c s) = rows_of p s"
  by (simp add: rows_of_def put_file_def)

text \<open>No entry but \<open>k\<close> has the file open.\<close>

definition unclaimed :: "entry_key \<Rightarrow> path \<Rightarrow> string \<Rightarrow> file_manager \<Rightarrow> bool" where
  "unclaimed k p sid s \<longleftrightarrow> (\<forall>j. j \<noteq> k \<longrightarrow> me_file_path (meta_of j s) \<noteq> Some p) \<and> dget_or (fm_raw_failures s) sid [] = [] \<and> fm_raw_queue s = []"

definition opened :: "entry_key \<Rightarrow> path \<Rightarrow> string \<Rightarrow> file_manager \<Rightarrow> bool" where
  "opened k p sid s \<longleftrightarrow> unclaimed k p sid s \<and> holds_file k p sid s \<and> tabled k p [] s"

lemma open_sensor_other:
  assumes "raw_path_of dir sid tag en \<noteq> p" "real_time_path_of dir sid tag en \<noteq> p" "(sid, i) \<noteq> k"
  shows "unclaimed k p sid s \<Longrightarrow> ok (unclaimed k p sid) P (open_sensor e dir sid tag (i, en)) s"
    and "opened k p sid s \<Longrightarrow> ok (opened k p sid) P (open_sensor e dir sid tag (i, en)) s"
  using assms
  by (auto simp: open_sensor_def create_empty_output_file_def Let_def ok_simps unclaimed_def opened_def holds_file_def tabled_def rows_of_other
      meta_of_def put_file_def rows_of_def simp del: meta_fold split: option.split)

lemma open_sensor_own:
  assumes "unclaimed (sid, i) p sid s" "sid \<noteq> []" "p = raw_path_of dir sid tag en"
    and "open_sensor e dir sid tag (i, en) s = (t, es, None)"
  shows "opened (sid, i) p sid t"
proof -
  have "real_time_path_of dir sid tag en \<noteq> p" using path_lengths(1,2) [of dir sid tag en] assms(3) by auto
  then show ?thesis using assms
    by (auto simp: open_sensor_def create_empty_output_file_def Let_def seq_def upd_def raise_def opened_def unclaimed_def holds_file_def tabled_def
        table_of_def derive_headers_def rows_of_other meta_of_def put_file_def rows_of_def simp del: meta_fold split: option.splits)
qed

lemma open_algorithm_unclaimed:
  "unclaimed k p sid s \<Longrightarrow> ok (unclaimed k p sid) P (open_algorithm e dir sid tag algo) s"
  by (auto simp: open_algorithm_def create_empty_output_file_def Let_def ok_simps unclaimed_def meta_of_def put_file_def simp del: meta_fold
      split: option.split)

lemma open_sensors:
  assumes "unclaimed (sid, i) p sid s" "sid \<noteq> []" "i < length sensors" "p = raw_path_of dir sid tag (sensors ! i)"
    and "distinct (map (raw_path_of dir sid tag) sensors)"
    and "for_each (List.enumerate 0 sensors) (open_sensor e dir sid tag) s = (t, es, None)"
  shows "opened (sid, i) p sid t"
proof -
  let ?xs = "List.enumerate 0 sensors" and ?k = "(sid, i)" and ?open = "open_sensor e dir sid tag"
  have split: "?xs = take i ?xs @ (i, sensors ! i) # drop (Suc i) ?xs"
    using id_take_nth_drop [of i ?xs] assms(3) by (simp add: nth_enumerate_eq)
  have other: "raw_path_of dir sid tag en \<noteq> p \<and> real_time_path_of dir sid tag en \<noteq> p \<and> (sid, j) \<noteq> ?k"
    if "(j, en) \<in> set (take i ?xs) \<union> set (drop (Suc i) ?xs)" for j en
  proof -
    have "(j, en) \<in> set ?xs" using that by (auto dest: in_set_takeD in_set_dropD)
    then have j: "j < length sensors" "en = sensors ! j" by (auto simp: in_set_enumerate_eq)
    have "distinct (map fst (take i ?xs @ (i, sensors ! i) # drop (Suc i) ?xs))"
      using split by (metis distinct_upt map_fst_enumerate)
    with that have ji: "j \<noteq> i" by force
    then have "raw_path_of dir sid tag en \<noteq> p" using j assms(3,4,5) by (auto simp: distinct_conv_nth)
    moreover have "length (real_time_path_of dir sid tag en) \<noteq> length p" by (simp add: path_lengths assms(4))
    then have "real_time_path_of dir sid tag en \<noteq> p" by auto
    ultimately show ?thesis using ji by simp
  qed
  from assms(6) obtain u v fs gs hs where
    1: "for_each (take i ?xs) ?open s = (u, fs, None)" and 2: "?open (i, sensors ! i) u = (v, gs, None)"
    and 3: "for_each (drop (Suc i) ?xs) ?open v = (t, hs, None)"
    by (subst (asm) split) (auto simp: for_each_append dest!: seq_returned)
  have "ok (unclaimed ?k p sid) (\<lambda>_. True) (for_each (take i ?xs) ?open) s"
    using assms(1) other by (intro ok_for_each) (auto intro!: open_sensor_other(1))
  from okD [OF this 1] have "unclaimed ?k p sid u" .
  from open_sensor_own [OF this assms(2,4) 2] have "opened ?k p sid v" .
  then have "ok (opened ?k p sid) (\<lambda>_. True) (for_each (drop (Suc i) ?xs) ?open) v"
    using other by (intro ok_for_each) (auto intro!: open_sensor_other(2))
  from okD [OF this 3] show ?thesis .
qed

definition stream_tag :: "val \<Rightarrow> string" where
  "stream_tag tag = (if truthy tag then sanitize_tag (py_str tag) else ''sys'')"

definition raw_paths :: "subject \<Rightarrow> string \<Rightarrow> val \<Rightarrow> file_manager \<Rightarrow> path list" where
  "raw_paths sub ts tag s = map (raw_path_of (fm_session_dir s ts) (sb_subject_id sub) (stream_tag tag)) (sb_sensors sub)"

lemma start_stream_opens:
  assumes start: "fm_start_stream e sub ts tag s = (t, es, None)" and "sb_subject_id sub \<noteq> []"
    and i: "i < length (sb_sensors sub)" and "distinct (raw_paths sub ts tag s)"
    and free: "\<forall>j. me_file_path (meta_of j s) \<noteq> Some (raw_paths sub ts tag s ! i)" and "fm_raw_queue s = []"
  shows "opened (sb_subject_id sub, i) (raw_paths sub ts tag s ! i) (sb_subject_id sub) t"
proof -
  let ?sid = "sb_subject_id sub" and ?dir = "fm_session_dir s ts" and ?p = "raw_paths sub ts tag s ! i"
  define s0 where "s0 = clear_raw_write_failures [?sid] s"
  have "unclaimed (?sid, i) ?p ?sid s0"
    using free assms(6) by (auto simp: unclaimed_def s0_def clear_raw_write_failures_def meta_of_def simp del: meta_fold)
  moreover have "fm_session_dir s0 ts = ?dir" by (simp add: s0_def clear_raw_write_failures_def fm_session_dir_def)
  then obtain u fs gs where
    1: "for_each (sort (remdups (map algorithm_of_entry (sb_sensors sub)))) (open_algorithm e ?dir ?sid (stream_tag tag)) s0 = (u, fs, None)"
    and 2: "for_each (List.enumerate 0 (sb_sensors sub)) (open_sensor e ?dir ?sid (stream_tag tag)) u = (t, gs, None)"
    using seq_returned [OF start [unfolded fm_start_stream_def]]
    by (auto simp: upd_def query_def Let_def s0_def [symmetric] stream_tag_def dest!: seq_returned)
  ultimately have "ok (unclaimed (?sid, i) ?p ?sid) (\<lambda>_. True)
     (for_each (sort (remdups (map algorithm_of_entry (sb_sensors sub)))) (open_algorithm e ?dir ?sid (stream_tag tag))) s0"
    by (intro ok_for_each open_algorithm_unclaimed)
  from okD [OF this 1] have "unclaimed (?sid, i) ?p ?sid u" .
  from open_sensors [OF this assms(2) i _ _ 2] assms(4) i show ?thesis by (simp add: raw_paths_def)
qed

text \<open>C3. Recording is complete or reported: from a successful start of a subject's stream, over any interleaving of
  blocks of all sensors, turns of the writer and failures of the disk, once the queue is flushed the CSV
  file of a sensor is exactly the table of the samples enqueued for it, in order, whatever the cut into
  blocks and however the fields of samples vary; or a write failure of the subject is reported.\<close>

theorem recording_complete_or_reported:
  assumes "fm_start_stream e sub ts tag s = (s1, es, None)" and "sb_subject_id sub \<noteq> []"
    and "i < length (sb_sensors sub)" and "distinct (raw_paths sub ts tag s)"
    and "\<forall>j. me_file_path (meta_of j s) \<noteq> Some (raw_paths sub ts tag s ! i)" and "fm_raw_queue s = []"
    and "fm_raw_queue (fm_run xs s1) = []"
    and "\<forall>x \<in> set (enqueued (sb_subject_id sub, i) xs). sample_to_mapping x \<noteq> []"
  shows "reported (sb_subject_id sub) (fm_run xs s1) \<or>
    rows_of (raw_paths sub ts tag s ! i) (fm_run xs s1) = table_of (map sample_to_mapping (enqueued (sb_subject_id sub, i) xs))"
proof -
  let ?k = "(sb_subject_id sub, i)" and ?p = "raw_paths sub ts tag s ! i"
  have "opened ?k ?p (sb_subject_id sub) s1" using start_stream_opens [OF assms(1-6)] .
  then have "recorded ?k ?p (sb_subject_id sub) [] s1"
    by (auto simp: opened_def unclaimed_def recorded_def queued_rows_def intro!: exI [of _ "[]"])
  from recorded_run [OF this, of xs] assms(8)
  have "recorded ?k ?p (sb_subject_id sub) (enqueued ?k xs) (fm_run xs s1)" by simp
  with assms(7) show ?thesis by (auto simp: recorded_def tabled_def queued_rows_def)
qed

section \<open>Archive\<close>

lemma map_of_below: "map_of (filter (\<lambda>(p, _). Q p) d) p = (if Q p then map_of d p else None)"
  by (induction d) auto

lemma below_append: "below dir p \<Longrightarrow> p = dir @ drop (length dir) p"
  by (metis append_take_drop_id below_def)

lemma map_of_relative:
  "\<forall>(q, _) \<in> set d. below dir q \<Longrightarrow> below dir p \<Longrightarrow>
   map_of (map (\<lambda>(q, c). (drop (length dir) q, c)) d) (drop (length dir) p) = map_of d p"
proof (induction d)
  case (Cons qc d)
  obtain q c where qc: "qc = (q, c)" by (cases qc)
  have "drop (length dir) q = drop (length dir) p \<longleftrightarrow> q = p"
    using below_append [of dir q] below_append [of dir p] Cons.prems qc by auto
  with Cons qc show ?case by auto
qed simp

lemma archive_target_outside: "\<not> below (fm_session_dir s ts) (archive_path s ts)"
  by (simp add: below_def fm_session_dir_def session_dir_def archive_path_def resolve_base_dir_def)


section \<open>Diagnostics of a finished session\<close>

datatype dop =
    DStart val val
  | DAppend val string val
  | DError val string val
  | DUpdate val val
  | DFinalize val string val val
  | DFinish val
  | DEnqueue val string val
  | DWriter

fun dop_step :: "fenv \<Rightarrow> dop \<Rightarrow> file_manager \<Rightarrow> file_manager" where
  "dop_step e (DStart idx metadata) s = start_session_diagnostics e idx metadata s"
| "dop_step e (DAppend idx ty payload) s = append_session_diagnostics_event e idx ty payload s"
| "dop_step e (DError idx message ctx) s = record_session_diagnostics_error e idx message ctx s"
| "dop_step e (DUpdate idx updates) s = update_session_diagnostics_summary e idx updates s"
| "dop_step e (DFinalize idx status reason updates) s = finalize_session_diagnostics e idx status reason updates s"
| "dop_step e (DFinish idx) s = finish_session_diagnostics e idx s"
| "dop_step e (DEnqueue idx ty payload) s = enqueue_session_diagnostics_event idx ty payload s"
| "dop_step e DWriter s = diagnostics_writer_turn e s"

fun dop_run :: "(fenv \<times> dop) list \<Rightarrow> file_manager \<Rightarrow> file_manager" where
  "dop_run [] s = s"
| "dop_run ((e, x) # xs) s = dop_run xs (dop_step e x s)"

text \<open>The current session is not a finished one.\<close>

definition current_open :: "file_manager \<Rightarrow> bool" where
  "current_open s \<longleftrightarrow> (case fm_diagnostics s of None \<Rightarrow> True | Some (ts, _, _) \<Rightarrow> ts \<notin> set (fm_finalized s))"

lemma finalized_put_file [simp]: "fm_finalized (put_file p c s) = fm_finalized s" "fm_diagnostics (put_file p c s) = fm_diagnostics s"
  by (simp_all add: put_file_def)

lemma current_open_put [simp]: "current_open (put_file p c s) = current_open s"
  by (simp add: current_open_def split: option.split prod.split)

lemma current_open_summary [simp]: "current_open (set_summary e f s) = current_open s"
  by (auto simp: current_open_def set_summary_def Let_def split: option.splits prod.splits)

lemma finalized_summary [simp]: "fm_finalized (set_summary e f s) = fm_finalized s"
  by (auto simp: set_summary_def Let_def split: option.splits prod.splits)

lemma current_open_start: "current_open s \<Longrightarrow> current_open (start_session_diagnostics e idx metadata s)"
  by (simp add: start_session_diagnostics_def Let_def) (simp add: current_open_def)

lemma current_open_append: "current_open s \<Longrightarrow> current_open (append_session_diagnostics_event e idx ty payload s)"
  using current_open_start [of s e idx VNone]
  by (auto simp: append_session_diagnostics_event_def Let_def split: option.splits)

lemma current_open_queue [simp]: "current_open (s\<lparr>fm_diagnostics_queue := q\<rparr>) = current_open s"
  by (simp add: current_open_def split: option.split prod.split)

lemma current_open_drain: "current_open s \<Longrightarrow> current_open (drain_diagnostics e q s)"
  by (induction e q s rule: drain_diagnostics.induct) (auto intro: current_open_append)

lemma current_open_finish: "current_open s \<Longrightarrow> current_open (finish_session_diagnostics e idx s)"
  using current_open_drain [of s e "fm_diagnostics_queue s"]
  by (auto simp: finish_session_diagnostics_def Let_def current_open_def current_session_def split: option.splits prod.splits)

lemma current_open_step: "current_open s \<Longrightarrow> current_open (dop_step e x s)"
  by (cases x) (auto simp: record_session_diagnostics_error_def update_session_diagnostics_summary_def finalize_session_diagnostics_def
      enqueue_session_diagnostics_event_def diagnostics_writer_turn_def Let_def
      intro: current_open_start current_open_append current_open_finish split: list.splits)

lemma current_open_run: "current_open s \<Longrightarrow> current_open (dop_run xs s)"
  by (induction xs s rule: dop_run.induct) (auto intro: current_open_step)

fun writes_to :: "dop \<Rightarrow> val option" where
  "writes_to (DStart idx _) = Some idx"
| "writes_to (DAppend idx _ _) = Some idx"
| "writes_to (DError idx _ _) = Some idx"
| "writes_to (DUpdate idx _) = Some idx"
| "writes_to (DFinalize idx _ _ _) = Some idx"
| "writes_to _ = None"

lemma start_finished: "py_str idx \<in> set (fm_finalized s) \<Longrightarrow> start_session_diagnostics e idx metadata s = s"
  by (simp add: start_session_diagnostics_def)

text \<open>A finished session is not written again: after any history of the diagnostics of any sessions, an operation
  that names a finished session changes nothing, neither on the disk nor in the state, so a late event
  cannot recreate the directory that has been archived.\<close>

theorem finished_session_not_rewritten:
  assumes "s = dop_run xs (new_file_manager site node)" and "writes_to x = Some idx" and "py_str idx \<in> set (fm_finalized s)"
  shows "dop_step e x s = s"
proof -
  have "current_open (new_file_manager site node)" by (simp add: current_open_def new_file_manager_def)
  then have "current_open s" unfolding assms(1) by (rule current_open_run)
  then have other: "\<not> current_session idx s" using assms(3) by (auto simp: current_open_def current_session_def split: option.splits)
  then have append: "append_session_diagnostics_event e idx ty payload s = s" for ty payload
    by (auto simp: append_session_diagnostics_event_def start_finished [OF assms(3)] current_session_def split: option.splits)
  show ?thesis using assms(2,3) other append
    by (cases x) (auto simp: start_finished record_session_diagnostics_error_def update_session_diagnostics_summary_def
        finalize_session_diagnostics_def)
qed

section \<open>Examples\<close>

definition ex_fenv :: fenv where
  "ex_fenv = \<lparr>fe_now = ''now'', fe_create = (\<lambda>_. None), fe_write = (\<lambda>_. None), fe_archive = None\<rparr>"

definition ex_recorder :: file_manager where
  "ex_recorder = set_label (Some ''trial 1'') (new_file_manager ''site'' ''n1'')"

definition ex_recorded_subject :: subject where
  "ex_recorded_subject = \<lparr>sb_subject_id = ''S'', sb_configs = [], sb_sensors = map (\<lambda>(a, l). \<lparr>se_name = ''imu'', se_address = Some a, se_raw_data = [],
     se_meta = \<lparr>sm_location = VStr l, sm_f_block_size = Some 2, sm_algorithm = VNone\<rparr>\<rparr>) [(''AA:01'', ''wrist''), (''AA:02'', ''ankle'')],
     sb_sample_count = 0, sb_is_streaming = True\<rparr>"

text \<open>Two blocks of the first sensor, the second with a field more, around one of the other sensor.\<close>

definition ex_blocks :: "(fenv \<times> fop) list" where
  "ex_blocks = [(ex_fenv, Enqueue (''S'', 0) [VDict [(''t'', VInt 1)]]), (ex_fenv, Enqueue (''S'', 1) [VDict [(''t'', VInt 5)]]), (ex_fenv, WriterTurn),
     (ex_fenv, Enqueue (''S'', 0) [VDict [(''t'', VInt 2), (''x'', VStr ''a'')]]), (ex_fenv, WriterTurn), (ex_fenv, WriterTurn)]"

definition ex_opened :: file_manager where
  "ex_opened = fst (fm_start_stream ex_fenv ex_recorded_subject ''20250101'' VNone ex_recorder)"

theorem recording_complete_or_reported_witness:
  "snd (snd (fm_start_stream ex_fenv ex_recorded_subject ''20250101'' VNone ex_recorder)) = None \<and>
   \<not> reported ''S'' (fm_run ex_blocks ex_opened) \<and>
   rows_of (raw_paths ex_recorded_subject ''20250101'' VNone ex_recorder ! 0) (fm_run ex_blocks ex_opened) =
     [[''t'', ''x''], [''1'', []], [''2'', ''a'']]"
proof -
  have ok: "snd (snd (fm_start_stream ex_fenv ex_recorded_subject ''20250101'' VNone ex_recorder)) = None" by code_simp
  have start: "fm_start_stream ex_fenv ex_recorded_subject ''20250101'' VNone ex_recorder =
     (ex_opened, fst (snd (fm_start_stream ex_fenv ex_recorded_subject ''20250101'' VNone ex_recorder)), None)"
    unfolding ex_opened_def by (intro prod_eqI) (simp_all add: ok)
  have sid: "sb_subject_id ex_recorded_subject = ''S''" by code_simp
  have dist: "distinct (raw_paths ex_recorded_subject ''20250101'' VNone ex_recorder)" by code_simp
  have meta: "me_file_path (meta_of j ex_recorder) = None" for j
    by (simp add: meta_of_def ex_recorder_def set_label_def new_file_manager_def dget_or_def no_meta_def Let_def del: meta_fold)
  have q: "fm_raw_queue ex_recorder = []" "fm_raw_queue (fm_run ex_blocks ex_opened) = []" by code_simp+
  have i: "0 < length (sb_sensors ex_recorded_subject)" by code_simp
  have xs: "enqueued (''S'', 0) ex_blocks = [VDict [(''t'', VInt 1)], VDict [(''t'', VInt 2), (''x'', VStr ''a'')]]" by code_simp
  have tab: "table_of (map sample_to_mapping [VDict [(''t'', VInt 1)], VDict [(''t'', VInt 2), (''x'', VStr ''a'')]]) =
     [[''t'', ''x''], [''1'', []], [''2'', ''a'']]" by code_simp
  have rep: "\<not> reported ''S'' (fm_run ex_blocks ex_opened)" by code_simp
  from recording_complete_or_reported [OF start, of 0 ex_blocks] sid dist meta q i xs tab rep ok show ?thesis by simp
qed

definition ex_archived :: file_manager where
  "ex_archived = (let s = new_file_manager ''site'' ''n1'' in
     s\<lparr>fm_disk := [(fm_session_dir s ''t1'' @ [''a''], Records [VInt 1]), ([''b''], Records [])]\<rparr>)"


definition ex_finished :: "(fenv \<times> dop) list" where
  "ex_finished = [(ex_fenv, DStart (VStr ''t1'') VNone), (ex_fenv, DAppend (VStr ''t1'') ''stream_started'' VNone), (ex_fenv, DFinish (VStr ''t1''))]"

theorem finished_session_not_rewritten_witness:
  "''t1'' \<in> set (fm_finalized (dop_run ex_finished (new_file_manager ''site'' ''n1''))) \<and>
   dop_step ex_fenv (DError (VStr ''t1'') ''late'' VNone) (dop_run ex_finished (new_file_manager ''site'' ''n1'')) =
     dop_run ex_finished (new_file_manager ''site'' ''n1'')"
proof -
  have fin: "''t1'' \<in> set (fm_finalized (dop_run ex_finished (new_file_manager ''site'' ''n1'')))" by code_simp
  from finished_session_not_rewritten [OF refl, of "DError (VStr ''t1'') ''late'' VNone" "VStr ''t1''" ex_finished] fin
  show ?thesis by simp
qed

section \<open>Reading back\<close>

text \<open>A record that is written for a subject is read back for every subject whose file is the same: for the subject
  itself, and for another one whose identifier gives the same path (\<open>identifiers_collide\<close>).\<close>

lemma intermediate_read_back:
  assumes "map_of (fm_intermediate_paths s) (sid, algo) = Some p" and "map_of (fm_intermediate_paths s) (sid', algo) = Some p"
    and "p \<in> set (fm_locks s)" and "vget r ''algorithm_name'' = VStr algo"
  shows "read_intermediate_json sid' (Some algo) (fst (write_intermediate_json sid algo r s)) =
     read_intermediate_json sid' (Some algo) s @ [r]"
  using assms by (simp add: write_intermediate_json_def append_record_def query_def upd_def read_intermediate_json_def put_file_def
      records_of_def)

end
