(* ===== verification/Sensor_Services.thy ===== *)
theory Sensor_Services
  imports Actions
begin

text \<open>
  The services of the sensor manager: \<^verbatim>\<open>sensor_manager/discovery_service.py\<close>,
  \<^verbatim>\<open>sensor_manager/connection_service.py\<close>, \<^verbatim>\<open>sensor_manager/streaming_service.py\<close>,
  \<^verbatim>\<open>sensor_manager/cleanup_service.py\<close>, the matching of \<^verbatim>\<open>sensor_manager/utils/utils.py\<close> and the lifecycle of
  \<^verbatim>\<open>plugins/runtime/sensor_runtime.py\<close> (class \<open>InstalledSensorProxy\<close>).

  Sensor objects are shared between the manager, its obligations and the subjects, so they live in a
  store: the record \<open>smanager\<close> maps an identity to the record \<open>hsensor\<close>. Every sensor of the program is a
  proxy of an installed plugin. Adapters, the gateway behind them and the plugin processes are not part
  of the model: \<open>senv\<close> holds their answers during one command, by adapter and by sensor, and which
  deadlines have passed by then. What a method collects in a local list is in the fields \<open>sm_found\<close> and
  \<open>sm_results\<close>. Calls of listeners and of plugins are effects.
\<close>

section \<open>State\<close>

datatype cstatus = CONNECTED | DISCONNECTED

record tclient =
  tc_is_connected :: bool
  tc_retain_for_recovery :: bool
  tc_sensor_cleanup :: bool

record hsensor =
  hs_name :: string
  hs_adapter :: string
  hs_prefixes :: "string list"
  hs_service_uuids :: "string list"
  hs_address :: "string option"
  hs_connection_status :: cstatus
  hs_transport_client :: "tclient option"
  hs_measurement_cleanup_pending :: bool
  hs_physical_stop_quarantined :: bool
  hs_cleanup_in_progress :: bool
  hs_connection_setup_complete :: bool
  hs_listening :: bool
  hs_stop_worker :: bool
  hs_lifecycle_worker :: bool
  hs_plugin_client :: bool
  hs_plugin_state_lost :: bool

record device =
  dv_address :: string
  dv_local_name :: string
  dv_services :: "string list"

text \<open>Outcomes of a targeted sensor.\<close>

datatype rstatus = Stopped | Unconfirmed | NotAttempted | Failed | Cleaned | AlreadyClean

record sresult =
  rs_address :: "string option"
  rs_status :: rstatus
  rs_error :: "string option"
  rs_link_connected :: "bool option"
  rs_measurement_stop_confirmed :: bool
  rs_eligible :: bool

datatype seffect =
    EmitDiscover "nat list"
  | EmitIncomplete "string list"
  | EmitConnected "nat list"
  | EmitDisconnected "string list"
  | EmitStreamStarted "string option list"
  | EmitStreamStopped "string option list"
  | EmitCleanupComplete "sresult list"
  | EmitIdentify "string option"
  | EmitDiagnostics
  | EmitError string
  | PluginSetup nat
  | PluginStart nat
  | PluginStop nat
  | PluginIdentify nat
  | StopConfirmed nat
  | OperatorConfirmed nat

record inventory =
  iv_connected_addresses :: "string list"
  iv_reset_confirmed :: bool
  iv_ble_ready :: bool

record smanager =
  sm_objects :: "nat \<Rightarrow> hsensor"
  sm_sensors :: "nat list"
  sm_adapters :: "string list"
  sm_recovery_obligations :: "(string, nat option) dict"
  sm_capture :: "seffect list option"
  sm_found :: "nat list"
  sm_results :: "sresult list"
  sm_current :: sresult
  sm_gateways :: "inventory option list"

type_synonym sm_action = "(smanager, seffect) action"

text \<open>What a request to the process of a plugin comes to. A request that hangs leaves its worker thread behind.\<close>

datatype rpc = RpcReturns | RpcRaises string | RpcHangs

datatype stop_call = StopReturns bool | StopRaises string bool | StopLate | StopHangs

record senv =
  sv_linux :: bool
  sv_has_method :: "string \<Rightarrow> string \<Rightarrow> bool"
  sv_resolve_error :: "string \<Rightarrow> string option"
  sv_discover_devices :: "string \<Rightarrow> nat \<Rightarrow> string + (string \<times> device) list"
  sv_connect_to_device :: "nat \<Rightarrow> string + bool"
  sv_connect_all :: "string \<Rightarrow> string option"
  sv_status :: "nat \<Rightarrow> cstatus"
  sv_link :: "nat \<Rightarrow> bool"
  sv_setup :: "nat \<Rightarrow> rpc"
  sv_start :: "nat \<Rightarrow> rpc"
  sv_stop :: "nat \<Rightarrow> stop_call"
  sv_identify :: "nat \<Rightarrow> rpc"
  sv_disconnect :: "nat \<Rightarrow> string + bool"
  sv_expired :: "nat \<Rightarrow> bool"
  sv_late :: "nat \<Rightarrow> bool"
  sv_collect_diagnostics :: bool
  sv_listener :: "seffect \<Rightarrow> string option"
  sv_drained :: bool
  sv_recover_connections :: "string \<Rightarrow> string + inventory"
  sv_reset_session :: "string \<Rightarrow> string + inventory"
  sv_active_addresses :: "string list"
  sv_runtime_barrier :: "nat \<Rightarrow> string + (bool \<times> bool)"
  sv_reconnect :: "nat \<Rightarrow> string + bool"
  sv_close_host :: "nat \<Rightarrow> string option"
  sv_shutdown :: "string option"
  sv_overdue :: bool
  sv_initialize_all :: "string option"

definition sensor_of :: "smanager \<Rightarrow> nat \<Rightarrow> hsensor" where
  "sensor_of s i = sm_objects s i"

definition set_sensor :: "nat \<Rightarrow> (hsensor \<Rightarrow> hsensor) \<Rightarrow> smanager \<Rightarrow> smanager" where
  "set_sensor i f s = s\<lparr>sm_objects := (sm_objects s)(i := f (sm_objects s i))\<rparr>"

definition modify :: "nat \<Rightarrow> (hsensor \<Rightarrow> hsensor) \<Rightarrow> sm_action" where
  "modify i f = upd (set_sensor i f)"

text \<open>\<open>str(sensor.address).upper()\<close>\<close>

definition address_key :: "string option \<Rightarrow> string" where
  "address_key a = py_upper (case a of None \<Rightarrow> ''None'' | Some x \<Rightarrow> x)"

definition key_of :: "smanager \<Rightarrow> nat \<Rightarrow> string" where
  "key_of s i = address_key (hs_address (sensor_of s i))"

definition is_connected :: "hsensor \<Rightarrow> bool" where
  "is_connected h = (case hs_transport_client h of None \<Rightarrow> False | Some c \<Rightarrow> tc_is_connected c)"

definition set_client :: "(tclient \<Rightarrow> tclient) \<Rightarrow> hsensor \<Rightarrow> hsensor" where
  "set_client f h = h\<lparr>hs_transport_client := map_option f (hs_transport_client h)\<rparr>"

section \<open>Emission\<close>

definition captured :: "seffect \<Rightarrow> bool" where
  "captured f = (case f of EmitDiscover _ \<Rightarrow> True | EmitIncomplete _ \<Rightarrow> True | EmitConnected _ \<Rightarrow> True | EmitError _ \<Rightarrow> True | _ \<Rightarrow> False)"

definition first_with_address :: "smanager \<Rightarrow> string option \<Rightarrow> nat option" where
  "first_with_address s a = find (\<lambda>i. hs_address (sensor_of s i) = a) (sm_sensors s)"

definition oblige :: "sresult \<Rightarrow> smanager \<Rightarrow> smanager" where
  "oblige r s = (case first_with_address s (rs_address r) of
     None \<Rightarrow> s
   | Some i \<Rightarrow> s\<lparr>sm_recovery_obligations := dput (address_key (rs_address r)) (Some i) (sm_recovery_obligations s)\<rparr>)"

definition oblige_unfinished :: "seffect \<Rightarrow> smanager \<Rightarrow> smanager" where
  "oblige_unfinished f s = (case f of
     EmitCleanupComplete rs \<Rightarrow> fold oblige (filter (\<lambda>r. rs_status r \<in> {Failed, Unconfirmed}) rs) s
   | _ \<Rightarrow> s)"

definition emit_to_client :: "senv \<Rightarrow> seffect \<Rightarrow> sm_action" where
  "emit_to_client e f = query (\<lambda>s. case sm_capture s of
     Some c \<Rightarrow> if captured f then upd (\<lambda>s. s\<lparr>sm_capture := Some (c @ [f])\<rparr>)
       else seq (upd (oblige_unfinished f)) (seq (out f) (case sv_listener e f of None \<Rightarrow> skip | Some x \<Rightarrow> raise x))
   | None \<Rightarrow> seq (upd (oblige_unfinished f)) (seq (out f) (case sv_listener e f of None \<Rightarrow> skip | Some x \<Rightarrow> raise x)))"

section \<open>Plugin lifecycle\<close>

definition quarantine :: "nat \<Rightarrow> sm_action" where
  "quarantine i = modify i (\<lambda>h. h\<lparr>hs_physical_stop_quarantined := True\<rparr>)"

text \<open>\<open>_call_lifecycle\<close>; \<open>mutating\<close> is false for \<open>identify\<close> only.\<close>

definition call_lifecycle :: "bool \<Rightarrow> nat \<Rightarrow> rpc \<Rightarrow> sm_action" where
  "call_lifecycle mutating i r = query (\<lambda>s.
     if hs_lifecycle_worker (sensor_of s i) then raise ''Previous plugin lifecycle worker is still executing''
     else (case r of
        RpcReturns \<Rightarrow> modify i (\<lambda>h. h\<lparr>hs_plugin_client := True\<rparr>)
      | RpcRaises x \<Rightarrow> seq (if mutating then quarantine i else skip) (raise x)
      | RpcHangs \<Rightarrow> seq (modify i (\<lambda>h. h\<lparr>hs_plugin_client := True, hs_lifecycle_worker := True\<rparr>))
          (seq (if mutating then quarantine i else skip) (raise ''Plugin lifecycle operation deadline reached''))))"

definition call_setup :: "senv \<Rightarrow> nat \<Rightarrow> sm_action" where
  "call_setup e i = seq (out (PluginSetup i)) (call_lifecycle True i (sv_setup e i))"

definition call_start_stream :: "senv \<Rightarrow> nat \<Rightarrow> sm_action" where
  "call_start_stream e i = seq (out (PluginStart i)) (call_lifecycle True i (sv_start e i))"

definition call_identify :: "senv \<Rightarrow> nat \<Rightarrow> sm_action" where
  "call_identify e i = seq (out (PluginIdentify i)) (call_lifecycle False i (sv_identify e i))"

text \<open>\<open>stop_stream\<close> of the proxy, with what its callers do with the answer: an answer that is not false clears the
  pending measurement, unless it came after the deadline.\<close>

definition stop_confirmed :: "nat \<Rightarrow> sm_action" where
  "stop_confirmed i = seq (out (StopConfirmed i)) (modify i (\<lambda>h. set_client (\<lambda>c. c\<lparr>tc_retain_for_recovery := False\<rparr>)
     (h\<lparr>hs_measurement_cleanup_pending := False\<rparr>)))"

definition call_stop_stream :: "senv \<Rightarrow> sm_action \<Rightarrow> nat \<Rightarrow> sm_action" where
  "call_stop_stream e late i = query (\<lambda>s.
     if hs_physical_stop_quarantined (sensor_of s i) then raise ''Sensor has an unresolved physical STOP operation''
     else if hs_stop_worker (sensor_of s i) then raise ''Sensor STOP is still running''
     else seq (out (PluginStop i)) (case sv_stop e i of
        StopReturns b \<Rightarrow> if b then stop_confirmed i else raise ''Plugin reported unsuccessful STOP''
      | StopRaises x _ \<Rightarrow> raise x
      | StopLate \<Rightarrow> late
      | StopHangs \<Rightarrow> seq (modify i (\<lambda>h. h\<lparr>hs_stop_worker := True\<rparr>)) (raise ''TimeoutError'')))"

text \<open>A STOP that may still be executing, or whose answer came too late.\<close>

definition stop_uncertain :: "senv \<Rightarrow> smanager \<Rightarrow> nat \<Rightarrow> bool" where
  "stop_uncertain e s i \<longleftrightarrow> hs_stop_worker (sensor_of s i) \<or>
     (case sv_stop e i of StopReturns _ \<Rightarrow> False | StopRaises _ timeout \<Rightarrow> timeout | StopLate \<Rightarrow> True | StopHangs \<Rightarrow> True)"

section \<open>Adapters and groups\<close>

definition get_or_create :: "senv \<Rightarrow> string \<Rightarrow> sm_action" where
  "get_or_create e k = query (\<lambda>s. if k \<in> set (sm_adapters s) then skip
     else (case sv_resolve_error e k of Some x \<Rightarrow> raise x
       | None \<Rightarrow> upd (\<lambda>s. s\<lparr>sm_adapters := sm_adapters s @ [k]\<rparr>)))"

definition adapter_of :: "smanager \<Rightarrow> nat \<Rightarrow> string" where
  "adapter_of s i = py_upper (hs_adapter (sensor_of s i))"

definition groups :: "smanager \<Rightarrow> nat list \<Rightarrow> (string \<times> nat list) list" where
  "groups s is = map (\<lambda>k. (k, filter (\<lambda>i. adapter_of s i = k) is)) (rev (remdups (rev (map (adapter_of s) is))))"

definition group_sensors_then :: "senv \<Rightarrow> nat list \<Rightarrow> ((string \<times> nat list) list \<Rightarrow> sm_action) \<Rightarrow> sm_action" where
  "group_sensors_then e is cont = query (\<lambda>s. seq (for_each (map (adapter_of s) is) (get_or_create e)) (cont (groups s is)))"

section \<open>Discovery\<close>

definition matches_discovery_identity :: "hsensor \<Rightarrow> device \<Rightarrow> bool" where
  "matches_discovery_identity h d \<longleftrightarrow>
     (let services = filter (\<lambda>u. u \<noteq> []) (map (\<lambda>u. py_lower (py_strip u)) (hs_service_uuids h));
          advertised = map (\<lambda>u. py_lower (py_strip u)) (dv_services d);
          name = py_lower (py_strip (dv_local_name d)) in
      list_ex (\<lambda>u. u \<in> set services) advertised \<or>
      list_ex (\<lambda>p. py_strip p \<noteq> [] \<and> py_startswith name (py_lower (py_strip p))) (hs_prefixes h) \<or>
      py_startswith (dv_local_name d) (hs_name h))"

fun match_devices :: "hsensor list \<Rightarrow> (string \<times> device) list \<Rightarrow> string list \<Rightarrow> (device \<times> string) list" where
  "match_devices [] devices used = []"
| "match_devices (h # hs) devices used =
     (case find (\<lambda>(a, d). a \<notin> set used \<and> matches_discovery_identity h d) devices of
        None \<Rightarrow> match_devices hs devices used
      | Some (a, d) \<Rightarrow> (d, hs_name h) # match_devices hs devices (a # used))"

definition count_name :: "string \<Rightarrow> string list \<Rightarrow> nat" where
  "count_name n ns = length (filter (\<lambda>m. m = n) ns)"

text \<open>The names of which devices are missing; the discovery is valid when there are none.\<close>

definition validate_matched_devices :: "hsensor list \<Rightarrow> (device \<times> string) list \<Rightarrow> string list" where
  "validate_matched_devices hs matched = filter (\<lambda>n. count_name n (map snd matched) < count_name n (map hs_name hs))
     (rev (remdups (rev (map hs_name hs))))"

definition device_key :: "string \<Rightarrow> string" where
  "device_key a = py_upper (py_strip a)"

definition admissible :: "string list \<Rightarrow> (string \<times> device) list \<Rightarrow> (string \<times> device) list" where
  "admissible excluded devices = filter (\<lambda>(a, _). device_key a \<notin> set excluded) devices"

text \<open>At most two scans; the second only when the first is incomplete.\<close>

definition scan_then ::
  "senv \<Rightarrow> string \<Rightarrow> nat list \<Rightarrow> string list \<Rightarrow> ((device \<times> string) list \<Rightarrow> string list \<Rightarrow> sm_action) \<Rightarrow> sm_action" where
  "scan_then e k is excluded cont = query (\<lambda>s. let hs = map (sensor_of s) is in
     case sv_discover_devices e k 1 of
       Inl x \<Rightarrow> raise x
     | Inr ds \<Rightarrow> (let matched = match_devices hs (admissible excluded ds) []; missing = validate_matched_devices hs matched in
         if missing = [] then cont matched missing
         else (case sv_discover_devices e k 2 of
           Inl x \<Rightarrow> raise x
         | Inr ds \<Rightarrow> (let matched = match_devices hs (admissible excluded ds) [] in cont matched (validate_matched_devices hs matched)))))"

definition new_client :: tclient where
  "new_client = \<lparr>tc_is_connected = False, tc_retain_for_recovery = False, tc_sensor_cleanup = False\<rparr>"

fun assign_devices :: "senv \<Rightarrow> string \<Rightarrow> (nat \<times> device) list \<Rightarrow> string list \<Rightarrow> (string list \<Rightarrow> sm_action) \<Rightarrow> sm_action" where
  "assign_devices e k [] excluded cont = cont excluded"
| "assign_devices e k ((i, d) # ids) excluded cont =
     (if device_key (dv_address d) \<in> set excluded then raise ''Discovery selected an excluded sensor address''
      else seq (modify i (\<lambda>h. h\<lparr>hs_address := Some (dv_address d), hs_connection_setup_complete := False,
               hs_transport_client := (if sv_has_method e k ''create_transport_client'' \<or> sv_has_method e k ''create_ble_client''
                  then Some new_client else hs_transport_client h), hs_listening := True\<rparr>))
        (seq (upd (\<lambda>s. s\<lparr>sm_found := sm_found s @ [i]\<rparr>))
          (assign_devices e k ids (device_key (dv_address d) # excluded) cont)))"

fun discover_groups :: "senv \<Rightarrow> (string \<times> nat list) list \<Rightarrow> string list \<Rightarrow> sm_action" where
  "discover_groups e [] excluded = query (\<lambda>s. emit_to_client e (EmitDiscover (sm_found s)))"
| "discover_groups e ((k, is) # gs) excluded =
     (if \<not> sv_has_method e k ''discover_devices'' then discover_groups e gs excluded
      else scan_then e k is excluded (\<lambda>matched missing.
        if missing \<noteq> [] then seq (emit_to_client e (EmitIncomplete missing)) (upd (\<lambda>s. s\<lparr>sm_found := []\<rparr>))
        else assign_devices e k (zip is (map fst matched)) excluded (\<lambda>excluded. discover_groups e gs excluded)))"

definition discover_pending :: "senv \<Rightarrow> nat list \<Rightarrow> string list \<Rightarrow> sm_action" where
  "discover_pending e pending excluded = seq (upd (\<lambda>s. s\<lparr>sm_found := []\<rparr>))
     (if pending = [] then skip else group_sensors_then e pending (\<lambda>gs. discover_groups e gs excluded))"

definition connected_sensor :: "smanager \<Rightarrow> nat \<Rightarrow> bool" where
  "connected_sensor s i \<longleftrightarrow> hs_connection_status (sensor_of s i) = CONNECTED"

definition has_address :: "smanager \<Rightarrow> nat \<Rightarrow> bool" where
  "has_address s i \<longleftrightarrow> hs_address (sensor_of s i) \<notin> {None, Some []}"

definition discover_all :: "senv \<Rightarrow> sm_action" where
  "discover_all e = query (\<lambda>s. discover_pending e (filter (\<lambda>i. \<not> connected_sensor s i) (sm_sensors s))
     (map (key_of s) (filter (\<lambda>i. connected_sensor s i \<and> has_address s i) (sm_sensors s))))"

definition discover_for_subject :: "senv \<Rightarrow> nat list \<Rightarrow> string list \<Rightarrow> sm_action" where
  "discover_for_subject e requested excluded = query (\<lambda>s.
     discover_pending e (filter (\<lambda>i. i \<in> set requested \<and> \<not> connected_sensor s i) (sm_sensors s))
       (map (key_of s) (filter (\<lambda>i. has_address s i \<and> (connected_sensor s i \<or> i \<notin> set requested)) (sm_sensors s)) @
        map device_key excluded))"

section \<open>Connection\<close>

definition ensure_reconciled :: "nat list \<Rightarrow> sm_action" where
  "ensure_reconciled is = for_each is (\<lambda>i. query (\<lambda>s. if map_of (sm_recovery_obligations s) (key_of s i) \<noteq> None
     then raise (''Sensor '' @ address_key (hs_address (sensor_of s i)) @ '' has unresolved physical STOP; use Reset to reconcile it'')
     else skip))"

text \<open>\<open>set_up_sensor\<close> of the manager: errors that the plugin reported during a captured step count.\<close>

definition captured_error :: "smanager \<Rightarrow> string option" where
  "captured_error s = (case sm_capture s of None \<Rightarrow> None
     | Some c \<Rightarrow> map_option (\<lambda>f. case f of EmitError x \<Rightarrow> x | _ \<Rightarrow> []) (find (\<lambda>f. case f of EmitError _ \<Rightarrow> True | _ \<Rightarrow> False) (rev c)))"

definition set_up_sensor :: "senv \<Rightarrow> nat \<Rightarrow> sm_action" where
  "set_up_sensor e i = seq (modify i (\<lambda>h. h\<lparr>hs_connection_setup_complete := False\<rparr>))
     (seq (query (\<lambda>s. get_or_create e (adapter_of s i))) (seq (call_setup e i) (query (\<lambda>s. case captured_error s of
        Some x \<Rightarrow> raise x
      | None \<Rightarrow> modify i (\<lambda>h. h\<lparr>hs_connection_setup_complete := True\<rparr>)))))"

text \<open>What the adapter does to a sensor that it connects: it sets its status and the flag of its client.\<close>

definition linked :: "senv \<Rightarrow> nat \<Rightarrow> sm_action" where
  "linked e i = modify i (\<lambda>h. set_client (\<lambda>c. c\<lparr>tc_is_connected := sv_link e i\<rparr>) (h\<lparr>hs_connection_status := sv_status e i\<rparr>))"

definition set_up_connected :: "senv \<Rightarrow> nat \<Rightarrow> sm_action" where
  "set_up_connected e i = query (\<lambda>s. if connected_sensor s i
     then seq (set_up_sensor e i) (upd (\<lambda>s. s\<lparr>sm_found := sm_found s @ [i]\<rparr>)) else skip)"

definition connect_and_setup :: "senv \<Rightarrow> nat \<Rightarrow> sm_action" where
  "connect_and_setup e i = seq (linked e i) (case sv_connect_to_device e i of
     Inl x \<Rightarrow> raise x
   | Inr done_ok \<Rightarrow> if done_ok then set_up_connected e i else skip)"

definition connect_group :: "senv \<Rightarrow> string \<times> nat list \<Rightarrow> sm_action" where
  "connect_group e g = (case g of (k, is) \<Rightarrow>
     if \<not> sv_has_method e k ''connect_all'' then skip
     else if sv_linux e \<and> sv_has_method e k ''connect_to_device'' then for_each is (connect_and_setup e)
     else seq (for_each is (linked e)) (seq (case sv_connect_all e k of Some x \<Rightarrow> raise x | None \<Rightarrow> skip)
       (for_each is (set_up_connected e))))"

definition connect_sensors :: "senv \<Rightarrow> nat list \<Rightarrow> sm_action" where
  "connect_sensors e is = group_sensors_then e is (\<lambda>gs. seq (for_each gs (connect_group e))
     (query (\<lambda>s. emit_to_client e (EmitConnected (sm_found s)))))"

definition service_connect_all :: "senv \<Rightarrow> nat list \<Rightarrow> sm_action" where
  "service_connect_all e is = seq (ensure_reconciled is) (seq (upd (\<lambda>s. s\<lparr>sm_found := []\<rparr>)) (connect_sensors e is))"

definition connect_specific :: "senv \<Rightarrow> nat list \<Rightarrow> sm_action" where
  "connect_specific e is = seq (ensure_reconciled is) (seq (upd (\<lambda>s. s\<lparr>sm_found := []\<rparr>))
     (if is = [] then skip else connect_sensors e is))"

text \<open>A successful disconnection of the adapter clears the flag of the client.\<close>

definition unlink :: "hsensor \<Rightarrow> hsensor" where
  "unlink = set_client (\<lambda>c. c\<lparr>tc_is_connected := False\<rparr>)"

definition disconnect_one :: "senv \<Rightarrow> nat \<Rightarrow> sm_action" where
  "disconnect_one e i = (case sv_disconnect e i of
     Inl x \<Rightarrow> raise x
   | Inr done_ok \<Rightarrow> if done_ok then modify i (\<lambda>h. unlink (h\<lparr>hs_connection_status := DISCONNECTED\<rparr>)) else skip)"

text \<open>\<open>disconnect\<close> with the silent callback of the reconfiguration, its only caller.\<close>

definition service_disconnect :: "senv \<Rightarrow> nat list \<Rightarrow> sm_action" where
  "service_disconnect e is = group_sensors_then e is (\<lambda>gs. for_each gs (\<lambda>(k, is).
     if \<not> sv_has_method e k ''disconnect_sensor'' \<and> \<not> sv_has_method e k ''disconnect'' then skip
     else for_each is (disconnect_one e)))"

section \<open>Streaming\<close>

definition start_sensor_stream :: "senv \<Rightarrow> nat \<Rightarrow> sm_action" where
  "start_sensor_stream e i = query (\<lambda>s.
     if hs_physical_stop_quarantined (sensor_of s i) then raise ''Sensor requires physical STOP reconciliation before reuse''
     else seq (modify i (\<lambda>h. set_client (\<lambda>c. c\<lparr>tc_retain_for_recovery := True\<rparr>) (h\<lparr>hs_measurement_cleanup_pending := True\<rparr>)))
       (call_start_stream e i))"

definition streaming_start :: "senv \<Rightarrow> nat list \<Rightarrow> sm_action" where
  "streaming_start e is = group_sensors_then e is (\<lambda>gs. seq (for_each (concat (map snd gs)) (start_sensor_stream e))
     (query (\<lambda>s. emit_to_client e (EmitStreamStarted (map (\<lambda>i. hs_address (sensor_of s i)) is)))))"

definition new_result :: "smanager \<Rightarrow> nat \<Rightarrow> rstatus \<Rightarrow> string option \<Rightarrow> sresult" where
  "new_result s i st x = \<lparr>rs_address = hs_address (sensor_of s i), rs_status = st, rs_error = x, rs_link_connected = None,
     rs_measurement_stop_confirmed = False, rs_eligible = False\<rparr>"

definition push_result :: "nat \<Rightarrow> rstatus \<Rightarrow> string option \<Rightarrow> sm_action" where
  "push_result i st x = upd (\<lambda>s. s\<lparr>sm_results := sm_results s @ [new_result s i st x]\<rparr>)"

definition stop_one :: "senv \<Rightarrow> nat \<Rightarrow> sm_action" where
  "stop_one e i = query (\<lambda>s. let h = sensor_of s i in
     if hs_physical_stop_quarantined h then push_result i NotAttempted (Some ''Previous STOP is isolated; reconciliation required'')
     else if sv_expired e i then push_result i NotAttempted (Some ''Physical STOP operation deadline reached'')
     else if hs_connection_status h \<noteq> CONNECTED
       then (if hs_measurement_cleanup_pending h
             then push_result i NotAttempted (Some ''Sensor link unavailable; measurement STOP unconfirmed'')
             else push_result i Stopped None)
     else catch (seq (call_stop_stream e (raise ''TimeoutError'') i) (push_result i Stopped None))
       (\<lambda>x. seq (query (\<lambda>s. if stop_uncertain e s i then quarantine i else skip)) (push_result i Unconfirmed (Some x))))"

definition stopped_addresses :: "sresult list \<Rightarrow> string option list" where
  "stopped_addresses rs = map rs_address (filter (\<lambda>r. rs_status r = Stopped) rs)"

definition streaming_stop :: "senv \<Rightarrow> nat list \<Rightarrow> sm_action" where
  "streaming_stop e is = seq (upd (\<lambda>s. s\<lparr>sm_results := []\<rparr>)) (group_sensors_then e is (\<lambda>gs.
     seq (for_each (concat (map snd gs)) (stop_one e))
     (seq (if sv_collect_diagnostics e then catch (emit_to_client e EmitDiagnostics) (\<lambda>_. skip) else skip)
       (query (\<lambda>s. emit_to_client e (EmitStreamStopped (stopped_addresses (sm_results s))))))))"

section \<open>Cleanup\<close>

definition try_finally :: "sm_action \<Rightarrow> sm_action \<Rightarrow> sm_action" where
  "try_finally a b = seq (catch a (\<lambda>x. seq b (raise x))) b"

text \<open>\<open>abort_cleanup\<close>\<close>

definition abort_sensor :: "nat \<Rightarrow> sm_action" where
  "abort_sensor i = quarantine i"

definition set_current :: "rstatus \<Rightarrow> string option \<Rightarrow> sm_action" where
  "set_current st x = upd (\<lambda>s. s\<lparr>sm_current := (sm_current s)\<lparr>rs_status := st, rs_error := x\<rparr>\<rparr>)"

definition catch_except :: "sm_action \<Rightarrow> (string \<Rightarrow> sm_action) \<Rightarrow> sm_action" where
  "catch_except a h = catch a (\<lambda>x. if x = ''CancelledError'' then raise x else h x)"

text \<open>The stop of the cleanup: when the limit of the whole cleanup cuts it, the worker stays behind.\<close>

definition cleanup_stop :: "senv \<Rightarrow> nat \<Rightarrow> sm_action" where
  "cleanup_stop e i = catch_except
     (call_stop_stream e (seq (modify i (\<lambda>h. h\<lparr>hs_stop_worker := True\<rparr>)) (raise ''CancelledError'')) i)
     (\<lambda>x. seq (if sv_stop e i = StopHangs then abort_sensor i else skip) (set_current Unconfirmed (Some (''Measurement stop failed: '' @ x))))"

definition cleanup_disconnect :: "senv \<Rightarrow> nat \<Rightarrow> sm_action" where
  "cleanup_disconnect e i = catch_except (case sv_disconnect e i of
       Inl x \<Rightarrow> raise x
     | Inr False \<Rightarrow> raise ''Sensor disconnect was not confirmed''
     | Inr True \<Rightarrow> seq (modify i (\<lambda>h. unlink (h\<lparr>hs_connection_status := DISCONNECTED\<rparr>)))
         (query (\<lambda>s. if rs_status (sm_current s) \<noteq> Unconfirmed then set_current Cleaned None else skip)))
     (\<lambda>x. set_current Failed (Some (''Disconnect failed: '' @ x)))"

definition release_sensor :: "senv \<Rightarrow> nat \<Rightarrow> sm_action" where
  "release_sensor e i = query (\<lambda>s.
     if \<not> hs_measurement_cleanup_pending (sensor_of s i) \<and> rs_status (sm_current s) \<noteq> Failed
     then seq (modify i (\<lambda>h. h\<lparr>hs_plugin_client := False\<rparr>)) (seq (case sv_close_host e i of Some x \<Rightarrow> raise x | None \<Rightarrow> skip)
       (modify i (\<lambda>h. h\<lparr>hs_transport_client := None\<rparr>)))
     else skip)"

definition stop_and_disconnect :: "senv \<Rightarrow> bool \<Rightarrow> bool \<Rightarrow> nat \<Rightarrow> sm_action" where
  "stop_and_disconnect e pending connected i =
     seq (if pending \<and> connected then cleanup_stop e i else skip)
       (seq (if connected then cleanup_disconnect e i else skip) (release_sensor e i))"

definition cleanup_body :: "senv \<Rightarrow> string \<Rightarrow> bool \<Rightarrow> bool \<Rightarrow> bool \<Rightarrow> nat \<Rightarrow> sm_action" where
  "cleanup_body e k client pending connected i =
     (if pending \<and> \<not> connected
      then (if \<not> sv_has_method e k ''connect_for_cleanup'' \<or> \<not> client then set_current Unconfirmed (Some ''Safe cleanup reconnect unavailable'')
        else (case sv_reconnect e i of
           Inl x \<Rightarrow> raise x
         | Inr False \<Rightarrow> set_current Unconfirmed (Some ''Sensor unreachable'')
         | Inr True \<Rightarrow> seq (modify i (\<lambda>h. set_client (\<lambda>c. c\<lparr>tc_is_connected := True\<rparr>) (h\<lparr>hs_connection_status := CONNECTED\<rparr>)))
             (stop_and_disconnect e pending True i)))
      else stop_and_disconnect e pending connected i)"

definition policy_of :: "hsensor \<Rightarrow> bool" where
  "policy_of h = (case hs_transport_client h of None \<Rightarrow> False | Some c \<Rightarrow> tc_sensor_cleanup c)"

definition cleanup_finally :: "bool \<Rightarrow> nat \<Rightarrow> sm_action" where
  "cleanup_finally previous_policy i =
     modify i (\<lambda>h. (if hs_measurement_cleanup_pending h then h else set_client (\<lambda>c. c\<lparr>tc_sensor_cleanup := previous_policy\<rparr>) h)
     \<lparr>hs_cleanup_in_progress := False\<rparr>)"

definition pending_status :: "smanager \<Rightarrow> nat \<Rightarrow> rstatus" where
  "pending_status s i = (if hs_measurement_cleanup_pending (sensor_of s i) then Unconfirmed else Failed)"

definition cleanup_sensor :: "senv \<Rightarrow> nat \<Rightarrow> sm_action" where
  "cleanup_sensor e i = query (\<lambda>s. let h = sensor_of s i in
     seq (upd (\<lambda>s. s\<lparr>sm_current := new_result s i AlreadyClean None\<rparr>))
     (if hs_physical_stop_quarantined h then set_current Unconfirmed (Some ''Physical STOP timed out; sensor isolated pending reconciliation'')
      else seq (get_or_create e (adapter_of s i))
       (seq (modify i (\<lambda>h. set_client (\<lambda>c. c\<lparr>tc_sensor_cleanup := True\<rparr>) (h\<lparr>hs_cleanup_in_progress := True\<rparr>)))
         (try_finally
           (catch_except (cleanup_body e (adapter_of s i) (hs_transport_client h \<noteq> None) (hs_measurement_cleanup_pending h) (is_connected h) i)
             (\<lambda>x. seq (if x = ''TimeoutError'' then abort_sensor i else skip) (query (\<lambda>s. set_current (pending_status s i) (Some x)))))
           (cleanup_finally (policy_of h) i)))))"

definition link_connected :: "hsensor \<Rightarrow> bool" where
  "link_connected h = (case hs_transport_client h of None \<Rightarrow> hs_connection_status h = CONNECTED | Some c \<Rightarrow> tc_is_connected c)"

definition cleanup_one :: "senv \<Rightarrow> nat \<Rightarrow> sm_action" where
  "cleanup_one e i = query (\<lambda>s. if sv_expired e i
     then push_result i (pending_status s i) (Some ''Cleanup operation deadline reached; sensor cleanup unfinished'')
     else catch (seq (cleanup_sensor e i) (if sv_late e i then raise ''CancelledError'' else
           upd (\<lambda>s. s\<lparr>sm_results := sm_results s @ [(sm_current s)\<lparr>rs_link_connected := Some (link_connected (sensor_of s i))\<rparr>]\<rparr>)))
       (\<lambda>x. seq (if x \<in> {''TimeoutError'', ''CancelledError''} then abort_sensor i else skip)
         (query (\<lambda>s. push_result i (pending_status s i) (Some x)))))"

definition service_cleanup :: "senv \<Rightarrow> nat list \<Rightarrow> sm_action" where
  "service_cleanup e is = seq (upd (\<lambda>s. s\<lparr>sm_results := []\<rparr>)) (for_each is (cleanup_one e))"

section \<open>Reconciliation\<close>

text \<open>\<open>prepare_recovery\<close> of the proxy: only completed work is retired, and the host may know that the measurement has
  stopped.\<close>

definition prepare_recovery :: "senv \<Rightarrow> nat \<Rightarrow> sm_action" where
  "prepare_recovery e i = query (\<lambda>s. let h = sensor_of s i in
     if hs_plugin_state_lost h then raise ''Plugin lifecycle state lost; physical STOP requires operator intervention''
     else if hs_stop_worker h then raise ''Previous plugin STOP worker is still executing; retry recovery later''
     else if hs_lifecycle_worker h then raise ''Previous plugin lifecycle worker is still executing; retry recovery later''
     else seq (if hs_plugin_client h
               then (case sv_runtime_barrier e i of
                   Inl x \<Rightarrow> raise x
                 | Inr (idle, confirmed) \<Rightarrow> if \<not> idle then raise ''Previous host operation is still executing; retry recovery later''
                     else if confirmed then seq (out (StopConfirmed i)) (modify i (\<lambda>h. h\<lparr>hs_measurement_cleanup_pending := False\<rparr>))
                     else skip)
               else if hs_measurement_cleanup_pending h then raise ''Plugin STOP context unavailable; physical STOP requires operator intervention''
               else skip)
           (modify i (\<lambda>h. h\<lparr>hs_stop_worker := False, hs_physical_stop_quarantined := False\<rparr>)))"

definition reconnect_sensor :: "senv \<Rightarrow> string \<Rightarrow> nat \<Rightarrow> sm_action" where
  "reconnect_sensor e k i = query (\<lambda>s. let h = sensor_of s i in
     if is_connected h then skip
     else if sv_has_method e k ''reconnect_for_recovery'' \<or> hs_transport_client h \<noteq> None \<and> sv_has_method e k ''connect_for_cleanup''
     then (case sv_reconnect e i of
         Inl x \<Rightarrow> raise x
       | Inr False \<Rightarrow> raise ''Sensor unreachable or safe reconnection unavailable''
       | Inr True \<Rightarrow> modify i (set_client (\<lambda>c. c\<lparr>tc_is_connected := True\<rparr>)))
     else raise ''Sensor unreachable or safe reconnection unavailable'')"

definition reconcile_stop :: "senv \<Rightarrow> string \<Rightarrow> nat \<Rightarrow> sm_action" where
  "reconcile_stop e k i = query (\<lambda>s. if hs_measurement_cleanup_pending (sensor_of s i)
     then seq (reconnect_sensor e k i) (seq (modify i (\<lambda>h. h\<lparr>hs_connection_status := CONNECTED\<rparr>))
       (call_stop_stream e (raise ''TimeoutError'') i))
     else skip)"

definition reconcile_disconnect :: "senv \<Rightarrow> nat \<Rightarrow> sm_action" where
  "reconcile_disconnect e i = query (\<lambda>s. if is_connected (sensor_of s i)
     then (case sv_disconnect e i of
         Inl x \<Rightarrow> raise x
       | Inr False \<Rightarrow> raise ''Physical disconnection unconfirmed''
       | Inr True \<Rightarrow> modify i unlink)
     else skip)"

definition reconcile_sensor :: "senv \<Rightarrow> string \<Rightarrow> nat \<Rightarrow> sm_action" where
  "reconcile_sensor e k i = seq (prepare_recovery e i)
     (seq (modify i (\<lambda>h. set_client (\<lambda>c. c\<lparr>tc_retain_for_recovery := hs_measurement_cleanup_pending h, tc_sensor_cleanup := True\<rparr>)
         (h\<lparr>hs_cleanup_in_progress := True\<rparr>)))
       (try_finally (seq (reconcile_stop e k i) (seq (reconcile_disconnect e i)
           (modify i (\<lambda>h. set_client (\<lambda>c. c\<lparr>tc_sensor_cleanup := False\<rparr>)
             (h\<lparr>hs_connection_status := DISCONNECTED, hs_physical_stop_quarantined := False\<rparr>)))))
         (modify i (\<lambda>h. h\<lparr>hs_cleanup_in_progress := False\<rparr>))))"

definition retire_after_external_stop :: "senv \<Rightarrow> nat \<Rightarrow> sm_action" where
  "retire_after_external_stop e i = seq (modify i (\<lambda>h. h\<lparr>hs_plugin_client := False\<rparr>))
     (seq (case sv_close_host e i of Some x \<Rightarrow> raise x | None \<Rightarrow> skip)
       (seq (out (OperatorConfirmed i))
         (modify i (\<lambda>h. h\<lparr>hs_measurement_cleanup_pending := False, hs_physical_stop_quarantined := False,
            hs_connection_status := DISCONNECTED\<rparr>))))"

text \<open>A request to reconcile.\<close>

record recovery =
  rc_addresses :: "string list option"
  rc_allow_ble_reset :: bool
  rc_confirmed_stopped :: "string list"

definition confirmed_keys :: "recovery \<Rightarrow> string list" where
  "confirmed_keys q = map py_upper (rc_confirmed_stopped q)"

definition active_keys :: "senv \<Rightarrow> string list" where
  "active_keys e = map py_upper (sv_active_addresses e)"

text \<open>What the gateway of an adapter answers: the inventory, if it is available, and the error that keeps its
  sensors from being reconciled.\<close>

definition recover_gateway :: "senv \<Rightarrow> recovery \<Rightarrow> string \<Rightarrow> inventory option \<times> string option" where
  "recover_gateway e q k = (case sv_recover_connections e k of
     Inl x \<Rightarrow> (None, Some (''Gateway communication unavailable: '' @ x @ ''; restore UART and retry Reset''))
   | Inr iv \<Rightarrow>
       (let (iv, err) =
          (if \<not> iv_reset_confirmed iv \<or> rc_confirmed_stopped q \<noteq> []
           then (if \<not> rc_allow_ble_reset q
                 then (iv, Some ''Previous BLE reset outcome remains uncertain; explicit controlled reset required'')
                 else (case sv_reset_session e k of
                     Inl x \<Rightarrow> (iv, Some (''Gateway BLE reset remains unconfirmed: '' @ x))
                   | Inr iv' \<Rightarrow> (iv', None)))
           else (iv, None))
        in (Some iv, if \<not> iv_ble_ready iv then Some ''Gateway UART responds, but BLE is not ready; retry recovery'' else err)))"

definition externally_stopped :: "senv \<Rightarrow> recovery \<Rightarrow> string \<Rightarrow> inventory option \<Rightarrow> string \<Rightarrow> bool" where
  "externally_stopped e q k iv a \<longleftrightarrow> sv_has_method e k ''recover_connections'' \<and> rc_allow_ble_reset q \<and>
     (case iv of None \<Rightarrow> False | Some iv \<Rightarrow> a \<notin> set (iv_connected_addresses iv))"

definition reconcile_attempt :: "senv \<Rightarrow> recovery \<Rightarrow> string \<Rightarrow> inventory option \<Rightarrow> nat \<Rightarrow> sm_action" where
  "reconcile_attempt e q k iv i = query (\<lambda>s.
     seq (if key_of s i \<in> set (confirmed_keys q)
          then (if \<not> externally_stopped e q k iv (key_of s i)
                then raise ''External STOP confirmation requires a confirmed controlled BLE reset''
                else retire_after_external_stop e i)
          else reconcile_sensor e k i)
       (if sv_late e i then raise ''TimeoutError'' else skip))"

definition base_result :: "smanager \<Rightarrow> nat \<Rightarrow> sresult" where
  "base_result s i = (new_result s i Unconfirmed None)\<lparr>rs_measurement_stop_confirmed := \<not> hs_measurement_cleanup_pending (sensor_of s i)\<rparr>"

definition push_current :: "nat \<Rightarrow> sm_action" where
  "push_current i = upd (\<lambda>s. s\<lparr>sm_results := sm_results s @ [(sm_current s)\<lparr>rs_link_connected :=
     (case rs_link_connected (sm_current s) of None \<Rightarrow> Some (is_connected (sensor_of s i)) | Some b \<Rightarrow> Some b)\<rparr>]\<rparr>)"

definition reconcile_one :: "senv \<Rightarrow> recovery \<Rightarrow> string \<Rightarrow> inventory option \<Rightarrow> string option \<Rightarrow> nat \<Rightarrow> sm_action" where
  "reconcile_one e q k iv gateway_error i = query (\<lambda>s. seq (upd (\<lambda>s. s\<lparr>sm_current := base_result s i\<rparr>)) (seq
     (if key_of s i \<in> set (active_keys e) then set_current Failed (Some ''Sensor is actively acquiring; stop its subject before recovery'')
      else case gateway_error of
        Some x \<Rightarrow> set_current Unconfirmed (Some x)
      | None \<Rightarrow>
          if sv_expired e i then set_current Unconfirmed (Some ''Recovery deadline reached; retry Reset'')
          else catch
            (seq (reconcile_attempt e q k iv i) (upd (\<lambda>s. s\<lparr>sm_current := (sm_current s)\<lparr>rs_status := Cleaned,
               rs_measurement_stop_confirmed := True, rs_eligible := True, rs_link_connected := Some False\<rparr>\<rparr>)))
            (\<lambda>x. seq (quarantine i) (upd (\<lambda>s. s\<lparr>sm_current := (sm_current s)\<lparr>rs_error := Some x,
               rs_measurement_stop_confirmed := \<not> hs_measurement_cleanup_pending (sensor_of s i)\<rparr>\<rparr>))))
     (push_current i)))"

text \<open>The gateway of a group is asked first; the flags of the clients follow its inventory.\<close>

definition relink :: "senv \<Rightarrow> string \<Rightarrow> smanager \<Rightarrow> smanager" where
  "relink e k s = s\<lparr>sm_objects := (\<lambda>i. if py_upper (hs_adapter (sm_objects s i)) = k
     then set_client (\<lambda>c. c\<lparr>tc_is_connected := sv_link e i\<rparr>) (sm_objects s i) else sm_objects s i)\<rparr>"

definition adopt_recovery_client :: "senv \<Rightarrow> string \<Rightarrow> nat \<Rightarrow> sm_action" where
  "adopt_recovery_client e k i = query (\<lambda>s. if sv_has_method e k ''adopt_recovery_client'' \<and> key_of s i \<notin> set (active_keys e)
     then modify i (\<lambda>h. set_client (\<lambda>c. c\<lparr>tc_retain_for_recovery := hs_measurement_cleanup_pending h\<rparr>) h) else skip)"

definition reconcile_group :: "senv \<Rightarrow> recovery \<Rightarrow> string \<times> nat list \<Rightarrow> sm_action" where
  "reconcile_group e q g = (case g of (k, is) \<Rightarrow>
     if sv_has_method e k ''recover_connections''
     then (case recover_gateway e q k of (iv, err) \<Rightarrow>
        seq (for_each is (adopt_recovery_client e k)) (seq (upd (relink e k))
          (seq (upd (\<lambda>s. s\<lparr>sm_gateways := sm_gateways s @ [iv]\<rparr>)) (for_each is (reconcile_one e q k iv err)))))
     else for_each is (reconcile_one e q k None None))"

definition reconcile :: "senv \<Rightarrow> recovery \<Rightarrow> nat list \<Rightarrow> sm_action" where
  "reconcile e q is = seq (upd (\<lambda>s. s\<lparr>sm_results := [], sm_gateways := []\<rparr>))
     (group_sensors_then e is (\<lambda>gs. query (\<lambda>s.
       for_each (gs @ map (\<lambda>k. (k, [])) (filter (\<lambda>k. k \<notin> fst ` set gs) (sm_adapters s))) (reconcile_group e q))))"

end
