(* ===== verification/Sensor_Manager.thy ===== *)
theory Sensor_Manager
  imports Sensor_Services
begin

text \<open>
  The sensor manager: \<^verbatim>\<open>sensor_manager/SensorManager.py\<close> (class \<open>SensorManager\<close>) and
  \<^verbatim>\<open>sensor_manager/sensor_controller.py\<close> (class \<open>SensorController\<close>).

  The manager handles one message of its queue at a time on its own thread; \<open>manager_step\<close> is one turn of
  that loop. Between the turns links are lost and worker threads that were left behind end; both are
  inputs of \<open>manager_input\<close>. What the completion of a message carries is in \<open>sm_results\<close>. Whether the routing of samples
  between plugins has drained when a command asks for it is part of the environment.
\<close>

section \<open>Messages\<close>

datatype scommand =
    Discover
  | DiscoverForSubject "nat list" "string list"
  | ConnectAll
  | ConnectSpecific "string list"
  | DiscoverAndConnect
  | DisconnectAll
  | DisconnectAddresses "string list"
  | ResetSessionDiagnostics
  | StartAll
  | StartSpecific "string list"
  | StopAll
  | StopSpecific "string list"
  | Identify string
  | Reinitialize "nat list"
  | InitializeAdapters
  | RecoverSensors recovery
  | UnknownCommand string

record smessage =
  ms_command :: scommand
  ms_connection_step :: bool
  ms_completion :: bool

definition submit_connection_step :: "scommand \<Rightarrow> smessage" where
  "submit_connection_step c = \<lparr>ms_command = c, ms_connection_step = True, ms_completion = True\<rparr>"

text \<open>The other calls of clients: stops, recoveries and reconfigurations have a completion.\<close>

definition queue_message :: "scommand \<Rightarrow> smessage" where
  "queue_message c = \<lparr>ms_command = c, ms_connection_step = False,
     ms_completion = (case c of StopAll \<Rightarrow> True | StopSpecific _ \<Rightarrow> True | Reinitialize _ \<Rightarrow> True | RecoverSensors _ \<Rightarrow> True | _ \<Rightarrow> False)\<rparr>"

section \<open>The controller\<close>

definition get_connected_sensors :: "smanager \<Rightarrow> nat list" where
  "get_connected_sensors s = filter (\<lambda>i. connected_sensor s i \<and> \<not> hs_physical_stop_quarantined (sensor_of s i) \<and>
     map_of (sm_recovery_obligations s) (key_of s i) = None) (sm_sensors s)"

definition get_connected_sensor_by_address :: "string \<Rightarrow> smanager \<Rightarrow> nat list" where
  "get_connected_sensor_by_address a s = filter (\<lambda>i. connected_sensor s i \<and> hs_address (sensor_of s i) = Some a) (sm_sensors s)"

definition with_addresses :: "string list \<Rightarrow> smanager \<Rightarrow> nat list \<Rightarrow> nat list" where
  "with_addresses as s is = filter (\<lambda>i. hs_address (sensor_of s i) \<in> Some ` set as) is"

definition controller_cleanup :: "senv \<Rightarrow> nat list \<Rightarrow> sm_action" where
  "controller_cleanup e is = query (\<lambda>s. seq (service_cleanup e (filter (has_address s) is))
     (query (\<lambda>s. seq (emit_to_client e (EmitDisconnected (List.map_filter rs_address (filter (\<lambda>r. rs_link_connected r = Some False) (sm_results s)))))
       (emit_to_client e (EmitCleanupComplete (sm_results s))))))"

definition handle_identify :: "senv \<Rightarrow> string \<Rightarrow> sm_action" where
  "handle_identify e a = query (\<lambda>s. case get_connected_sensor_by_address a s of
     [] \<Rightarrow> skip
   | i # _ \<Rightarrow> seq (emit_to_client e (EmitIdentify (hs_address (sensor_of s i))))
       (seq (get_or_create e (adapter_of s i)) (call_identify e i)))"

definition discover_and_connect :: "senv \<Rightarrow> sm_action" where
  "discover_and_connect e = seq (discover_all e) (query (\<lambda>s. if sm_found s = [] then skip else service_connect_all e (sm_found s)))"

fun dispatch :: "senv \<Rightarrow> scommand \<Rightarrow> sm_action" where
  "dispatch e Discover = discover_all e"
| "dispatch e (DiscoverForSubject is as) = discover_for_subject e is as"
| "dispatch e ConnectAll = query (\<lambda>s. service_connect_all e (sm_sensors s))"
| "dispatch e (ConnectSpecific as) = query (\<lambda>s. connect_specific e (with_addresses as s (sm_sensors s)))"
| "dispatch e DiscoverAndConnect = discover_and_connect e"
| "dispatch e DisconnectAll = query (\<lambda>s. controller_cleanup e (sm_sensors s))"
| "dispatch e (DisconnectAddresses as) = query (\<lambda>s.
     controller_cleanup e (filter (\<lambda>i. has_address s i \<and> key_of s i \<in> py_upper ` set as) (sm_sensors s)))"
| "dispatch e ResetSessionDiagnostics = skip"
| "dispatch e StartAll = query (\<lambda>s. streaming_start e (get_connected_sensors s))"
| "dispatch e (StartSpecific as) = query (\<lambda>s. streaming_start e (with_addresses as s (get_connected_sensors s)))"
| "dispatch e StopAll = query (\<lambda>s. streaming_stop e (sm_sensors s))"
| "dispatch e (StopSpecific as) = query (\<lambda>s. streaming_stop e (with_addresses as s (sm_sensors s)))"
| "dispatch e (Identify a) = handle_identify e a"
| "dispatch e _ = skip"

section \<open>Configuration\<close>

definition install_one :: "senv \<Rightarrow> nat \<Rightarrow> sm_action" where
  "install_one e i = seq (modify i (\<lambda>h. h\<lparr>hs_cleanup_in_progress := False\<rparr>)) (seq (query (\<lambda>s. get_or_create e (adapter_of s i)))
     (seq (modify i (\<lambda>h. h\<lparr>hs_listening := True\<rparr>)) (upd (\<lambda>s. s\<lparr>sm_sensors := sm_sensors s @ [i]\<rparr>))))"

definition install_sensor_configuration :: "senv \<Rightarrow> nat list \<Rightarrow> sm_action" where
  "install_sensor_configuration e is = for_each is (install_one e)"

definition obliged :: "smanager \<Rightarrow> nat \<Rightarrow> bool" where
  "obliged s i \<longleftrightarrow> map_of (sm_recovery_obligations s) (key_of s i) \<noteq> None"

definition retain_obligation :: "nat \<Rightarrow> smanager \<Rightarrow> smanager" where
  "retain_obligation i s = (let h = sensor_of s i in
     if has_address s i \<and> (hs_measurement_cleanup_pending h \<or> hs_physical_stop_quarantined h) \<and> \<not> obliged s i
     then s\<lparr>sm_recovery_obligations := dput (key_of s i) (Some i) (sm_recovery_obligations s)\<rparr> else s)"

text \<open>Retirement of one sensor of the old configuration: listeners go; host and transport stay when a STOP is owed.\<close>

definition retire_one :: "nat \<Rightarrow> smanager \<Rightarrow> smanager" where
  "retire_one i s = set_sensor i (\<lambda>h. if obliged s i then h\<lparr>hs_listening := False\<rparr>
     else h\<lparr>hs_listening := False, hs_plugin_client := False, hs_transport_client := None\<rparr>) s"

definition preserved_adapter :: "senv \<Rightarrow> smanager \<Rightarrow> string \<Rightarrow> bool" where
  "preserved_adapter e s k \<longleftrightarrow> sv_has_method e k ''gateway_client'' \<or>
     k \<in> set (map (adapter_of s) (List.map_filter id (dvalues (sm_recovery_obligations s))))"

definition reinitialize_body :: "senv \<Rightarrow> nat list \<Rightarrow> nat list \<Rightarrow> sm_action" where
  "reinitialize_body e previous is =
     seq (if sv_drained e then skip else raise ''Targeted sensor routing did not drain'')
     (seq (case sv_shutdown e of Some x \<Rightarrow> raise x | None \<Rightarrow> skip)
     (seq (query (\<lambda>s. let connected = filter (\<lambda>i. connected_sensor s i \<and> \<not> obliged s i) previous in
            if connected = [] then skip else service_disconnect e connected))
     (seq (upd (\<lambda>s. fold retire_one previous s))
     (seq (if sv_overdue e then raise ''Operation cancelled or expired'' else skip)
     (seq (upd (\<lambda>s. s\<lparr>sm_sensors := [], sm_adapters := filter (preserved_adapter e s) (sm_adapters s)\<rparr>))
     (seq (install_sensor_configuration e is)
       (case sv_initialize_all e of Some x \<Rightarrow> raise x | None \<Rightarrow> skip)))))))"

definition set_cleaning :: "nat list \<Rightarrow> (nat \<Rightarrow> bool) \<Rightarrow> smanager \<Rightarrow> smanager" where
  "set_cleaning is flag s = fold (\<lambda>i. set_sensor i (\<lambda>h. h\<lparr>hs_cleanup_in_progress := flag i\<rparr>)) is s"

definition reinitialize_sensor_manager :: "senv \<Rightarrow> nat list \<Rightarrow> sm_action" where
  "reinitialize_sensor_manager e is = query (\<lambda>s. let previous = sm_sensors s in
     seq (upd (fold retain_obligation previous))
     (seq (upd (set_cleaning previous (\<lambda>_. True)))
       (try_finally
         (catch (reinitialize_body e previous is) (\<lambda>x. seq (upd (\<lambda>s. s\<lparr>sm_sensors := previous\<rparr>)) (raise x)))
         (upd (set_cleaning previous (\<lambda>i. hs_cleanup_in_progress (sensor_of s i)))))))"

text \<open>The first configuration is installed directly.\<close>

definition init_sensor_manager :: "senv \<Rightarrow> nat list \<Rightarrow> sm_action" where
  "init_sensor_manager e is = query (\<lambda>s. if sm_sensors s \<noteq> [] \<or> sm_adapters s \<noteq> [] then reinitialize_sensor_manager e is
     else catch (install_sensor_configuration e is) (\<lambda>x. seq (upd (\<lambda>s. s\<lparr>sm_sensors := []\<rparr>)) (raise x)))"

section \<open>Recovery\<close>

definition requested_key :: "recovery \<Rightarrow> string \<Rightarrow> bool" where
  "requested_key q a = (case rc_addresses q of None \<Rightarrow> True | Some as \<Rightarrow> a \<in> py_upper ` set as)"

text \<open>The guard of \<open>recover_sensors\<close>: a recovery does not touch sensors that acquire.\<close>

definition recovery_refused :: "senv \<Rightarrow> recovery \<Rightarrow> bool" where
  "recovery_refused e q \<longleftrightarrow> list_ex (requested_key q) (active_keys e)"

definition recovery_targets :: "recovery \<Rightarrow> smanager \<Rightarrow> (string, nat option) dict" where
  "recovery_targets q s = fold (\<lambda>(a, x) d. dput a x d) (filter (\<lambda>(a, _). requested_key q a) (sm_recovery_obligations s))
     (fold (\<lambda>i d. dput (key_of s i) (Some i) d) (filter (\<lambda>i. has_address s i \<and> requested_key q (key_of s i)) (sm_sensors s)) [])"

definition settle_result :: "(string, nat option) dict \<Rightarrow> sresult \<Rightarrow> smanager \<Rightarrow> smanager" where
  "settle_result targets r s = (let a = address_key (rs_address r) in
     if rs_eligible r
     then (let s1 = s\<lparr>sm_recovery_obligations := dpop a (sm_recovery_obligations s)\<rparr> in
       case map_of targets a of
         Some (Some i) \<Rightarrow> if i \<in> set (sm_sensors s) then s1 else set_sensor i (\<lambda>h. h\<lparr>hs_plugin_client := False\<rparr>) s1
       | _ \<Rightarrow> s1)
     else (case map_of targets a of
         Some t \<Rightarrow> s\<lparr>sm_recovery_obligations := dput a t (sm_recovery_obligations s)\<rparr>
       | None \<Rightarrow> s))"

text \<open>\<open>targets[address]\<close> raises for a sensor that has another address than it had as a target.\<close>

definition settle_one :: "(string, nat option) dict \<Rightarrow> sresult \<Rightarrow> sm_action" where
  "settle_one targets r = seq (upd (settle_result targets r))
     (if map_of targets (address_key (rs_address r)) = None then raise ''KeyError'' else skip)"

text \<open>Links that no retained sensor accounts for.\<close>

definition note_foreign_links :: "senv \<Rightarrow> (string, nat option) dict \<Rightarrow> smanager \<Rightarrow> smanager" where
  "note_foreign_links e targets s = s\<lparr>sm_recovery_obligations :=
     fold (\<lambda>a d. if map_of d a = None then d @ [(a, None)] else d)
       (filter (\<lambda>a. map_of targets a = None \<and> a \<notin> set (active_keys e))
         (concat (map iv_connected_addresses (List.map_filter id (sm_gateways s))))) (sm_recovery_obligations s)\<rparr>"

definition verified_reset :: "recovery \<Rightarrow> smanager \<Rightarrow> bool" where
  "verified_reset q s \<longleftrightarrow> rc_allow_ble_reset q \<and>
     list_ex (\<lambda>g. case g of None \<Rightarrow> False | Some iv \<Rightarrow> iv_reset_confirmed iv \<and> iv_connected_addresses iv = []) (sm_gateways s)"

definition foreign_result :: "string \<Rightarrow> bool \<Rightarrow> sresult" where
  "foreign_result a released = \<lparr>rs_address = Some a, rs_status = (if released then Cleaned else Unconfirmed),
     rs_error = (if released then None else Some ''No retained plugin context; physical STOP requires operator intervention''),
     rs_link_connected = (if released then Some False else None), rs_measurement_stop_confirmed = released, rs_eligible = released\<rparr>"

definition settle_foreign :: "recovery \<Rightarrow> string \<Rightarrow> smanager \<Rightarrow> smanager" where
  "settle_foreign q a s = (if map_of (sm_recovery_obligations s) a = Some None \<and> requested_key q a
     then (if a \<in> set (confirmed_keys q) \<and> verified_reset q s
           then s\<lparr>sm_recovery_obligations := dpop a (sm_recovery_obligations s), sm_results := sm_results s @ [foreign_result a True]\<rparr>
           else s\<lparr>sm_results := sm_results s @ [foreign_result a False]\<rparr>)
     else s)"

definition recover_sensors :: "senv \<Rightarrow> recovery \<Rightarrow> sm_action" where
  "recover_sensors e q = query (\<lambda>s. let targets = recovery_targets q s in
     seq (reconcile e q (List.map_filter id (dvalues targets)))
     (seq (query (\<lambda>s. for_each (sm_results s) (settle_one targets)))
     (seq (upd (note_foreign_links e targets))
       (upd (\<lambda>s. fold (settle_foreign q) (dkeys (sm_recovery_obligations s)) s)))))"

definition recovery_complete :: "smanager \<Rightarrow> bool" where
  "recovery_complete s \<longleftrightarrow> sm_recovery_obligations s = []"

section \<open>The loop\<close>

fun stop_targets :: "scommand \<Rightarrow> smanager \<Rightarrow> nat list option" where
  "stop_targets StopAll s = Some (sm_sensors s)"
| "stop_targets (StopSpecific as) s = Some (with_addresses as s (sm_sensors s))"
| "stop_targets _ s = None"

definition routing_stuck :: "nat list \<Rightarrow> sm_action" where
  "routing_stuck is = seq (upd (\<lambda>s. s\<lparr>sm_results := []\<rparr>)) (for_each is (\<lambda>i. seq (quarantine i)
     (push_result i NotAttempted (Some ''Targeted sensor routing did not drain''))))"

definition oblige_unstopped :: "smanager \<Rightarrow> smanager" where
  "oblige_unstopped s = fold oblige (filter (\<lambda>r. rs_status r \<noteq> Stopped) (sm_results s)) s"

fun handle_command :: "senv \<Rightarrow> scommand \<Rightarrow> sm_action" where
  "handle_command e (Reinitialize is) = reinitialize_sensor_manager e is"
| "handle_command e InitializeAdapters = (case sv_initialize_all e of Some x \<Rightarrow> raise x | None \<Rightarrow> skip)"
| "handle_command e (RecoverSensors q) = recover_sensors e q"
| "handle_command e (UnknownCommand c) = raise (''Unknown sensor manager command: '' @ c)"
| "handle_command e c = query (\<lambda>s. case stop_targets c s of
     None \<Rightarrow> dispatch e c
   | Some is \<Rightarrow> seq (if sv_drained e then dispatch e c else routing_stuck is) (upd oblige_unstopped))"

definition command_failed :: "senv \<Rightarrow> smessage \<Rightarrow> string \<Rightarrow> sm_action" where
  "command_failed e m x = (if ms_completion m then skip
     else case ms_command m of UnknownCommand _ \<Rightarrow> skip | _ \<Rightarrow> emit_to_client e (EmitError x))"

definition manager_step :: "senv \<Rightarrow> smessage \<Rightarrow> sm_action" where
  "manager_step e m = seq (upd (\<lambda>s. s\<lparr>sm_capture := (if ms_connection_step m then Some [] else None)\<rparr>))
     (try_finally (catch (handle_command e (ms_command m)) (command_failed e m)) (upd (\<lambda>s. s\<lparr>sm_capture := None\<rparr>)))"

section \<open>Events between the turns\<close>

datatype sinput =
    Message smessage
  | Initialize "nat list"
  | LinkLost nat
  | StopWorkerDone nat
  | LifecycleWorkerDone nat

definition link_lost :: "senv \<Rightarrow> nat \<Rightarrow> sm_action" where
  "link_lost e i = seq (modify i (\<lambda>h. unlink (h\<lparr>hs_connection_status := DISCONNECTED\<rparr>)))
     (query (\<lambda>s. case (hs_listening (sensor_of s i), hs_address (sensor_of s i)) of
        (True, Some a) \<Rightarrow> emit_to_client e (EmitDisconnected [a]) | _ \<Rightarrow> skip))"

fun manager_input :: "senv \<Rightarrow> sinput \<Rightarrow> sm_action" where
  "manager_input e (Message m) = manager_step e m"
| "manager_input e (Initialize is) = init_sensor_manager e is"
| "manager_input e (LinkLost i) = link_lost e i"
| "manager_input e (StopWorkerDone i) = modify i (\<lambda>h. h\<lparr>hs_stop_worker := False\<rparr>)"
| "manager_input e (LifecycleWorkerDone i) = modify i (\<lambda>h. h\<lparr>hs_lifecycle_worker := False\<rparr>)"

fun manager_run :: "(senv \<times> sinput) list \<Rightarrow> smanager \<Rightarrow> smanager \<times> seffect list" where
  "manager_run [] s = (s, [])"
| "manager_run ((e, i) # xs) s = (case manager_input e i s of (t, es, _) \<Rightarrow> case manager_run xs t of (u, fs) \<Rightarrow> (u, es @ fs))"

end
