(* ===== verification/Sensor_Props.thy ===== *)
theory Sensor_Props
  imports Sensor_Manager
begin

text \<open>
  What the sensor manager promises about physical STOPs: which sensors a command may use, what a stop
  leaves behind, and when an obligation is released.
\<close>

section \<open>Elementary steps\<close>

text \<open>A step that is mild changes no address, no pending measurement, and leaves the sensors and the
  obligations as they are.\<close>

definition mild :: "smanager \<Rightarrow> smanager \<Rightarrow> bool" where
  "mild s t \<longleftrightarrow> sm_sensors t = sm_sensors s \<and> sm_recovery_obligations t = sm_recovery_obligations s \<and>
     (\<forall>i. hs_address (sm_objects t i) = hs_address (sm_objects s i) \<and>
        hs_measurement_cleanup_pending (sm_objects t i) = hs_measurement_cleanup_pending (sm_objects s i))"

text \<open>Effects by what they say about physical STOPs.\<close>

definition uses :: "nat \<Rightarrow> seffect \<Rightarrow> bool" where
  "uses i f \<longleftrightarrow> f = PluginStart i \<or> f = PluginSetup i"

definition confirms :: "nat \<Rightarrow> seffect \<Rightarrow> bool" where
  "confirms i f \<longleftrightarrow> f = StopConfirmed i \<or> f = OperatorConfirmed i"

definition plain :: "seffect \<Rightarrow> bool" where
  "plain f \<longleftrightarrow> (\<forall>i. \<not> uses i f \<and> \<not> confirms i f) \<and> (\<forall>rs. f \<noteq> EmitCleanupComplete rs)"

lemma plain_simps [simp]:
  "plain (EmitDiscover is)" "plain (EmitIncomplete ms)" "plain (EmitConnected is)" "plain (EmitDisconnected as)"
  "plain (EmitStreamStarted bs)" "plain (EmitStreamStopped bs)" "plain (EmitIdentify a)" "plain EmitDiagnostics" "plain (EmitError x)"
  "plain (PluginStop i)" "plain (PluginIdentify i)"
  by (auto simp: plain_def uses_def confirms_def)

lemma set_client_simps [simp]:
  "hs_address (set_client f h) = hs_address h" "hs_measurement_cleanup_pending (set_client f h) = hs_measurement_cleanup_pending h"
  "hs_physical_stop_quarantined (set_client f h) = hs_physical_stop_quarantined h" "hs_adapter (set_client f h) = hs_adapter h"
  "hs_connection_status (set_client f h) = hs_connection_status h" "hs_plugin_client (set_client f h) = hs_plugin_client h"
  "hs_stop_worker (set_client f h) = hs_stop_worker h"
  by (simp_all add: set_client_def)

lemma unlink_simps [simp]:
  "hs_address (unlink h) = hs_address h" "hs_measurement_cleanup_pending (unlink h) = hs_measurement_cleanup_pending h"
  "hs_physical_stop_quarantined (unlink h) = hs_physical_stop_quarantined h"
  by (simp_all add: unlink_def)

lemma set_sensor_simps [simp]:
  "sm_sensors (set_sensor i f s) = sm_sensors s" "sm_recovery_obligations (set_sensor i f s) = sm_recovery_obligations s"
  "sm_capture (set_sensor i f s) = sm_capture s" "sm_results (set_sensor i f s) = sm_results s" "sm_found (set_sensor i f s) = sm_found s"
  "sensor_of (set_sensor i f s) j = (if j = i then f (sensor_of s i) else sensor_of s j)"
  "sm_objects (set_sensor i f s) j = (if j = i then f (sm_objects s i) else sm_objects s j)"
  by (simp_all add: set_sensor_def sensor_of_def)

lemma mild_sensor:
  "(\<And>h. hs_address (f h) = hs_address h) \<Longrightarrow> (\<And>h. hs_measurement_cleanup_pending (f h) = hs_measurement_cleanup_pending h) \<Longrightarrow>
   mild s (set_sensor i f s)"
  by (simp add: mild_def)

locale sensor_relation = action_relation R for R :: "smanager \<Rightarrow> smanager \<Rightarrow> seffect list \<Rightarrow> bool" +
  assumes mild_step: "mild s t \<Longrightarrow> R s t []"
    and plain_effect: "plain f \<Longrightarrow> R s s [f]"
    and confirmed: "(\<And>h. hs_address (g h) = hs_address h \<and> hs_measurement_cleanup_pending (g h) = hs_measurement_cleanup_pending h) \<Longrightarrow>
      R s (set_sensor i (\<lambda>h. g (h\<lparr>hs_measurement_cleanup_pending := False\<rparr>)) s) [StopConfirmed i]"
    and operator_confirmed: "R s (set_sensor i (\<lambda>h. h\<lparr>hs_measurement_cleanup_pending := False, hs_physical_stop_quarantined := False,
        hs_connection_status := DISCONNECTED\<rparr>) s) [OperatorConfirmed i]"
begin

lemma rel_modify:
  "(\<And>h. hs_address (f h) = hs_address h) \<Longrightarrow> (\<And>h. hs_measurement_cleanup_pending (f h) = hs_measurement_cleanup_pending h) \<Longrightarrow>
   related R (modify i f)"
  unfolding modify_def by (intro rel_upd mild_step mild_sensor)

lemma rel_plain: "plain f \<Longrightarrow> related R (out f)"
  by (intro rel_out plain_effect)

lemma rel_local: "(\<And>s. mild s (f s)) \<Longrightarrow> related R (upd f)"
  by (intro rel_upd mild_step)

lemma rel_emit: "plain f \<Longrightarrow> related R (emit_to_client e f)"
  unfolding emit_to_client_def
  by (intro rel_query rel_option rel_if rel_seq rel_plain rel_skip rel_raise rel_local)
    (auto simp: mild_def oblige_unfinished_def plain_def split: seffect.split)

lemma rel_quarantine: "related R (quarantine i)"
  unfolding quarantine_def by (rule rel_modify) simp_all

lemma rel_call_lifecycle: "related R (call_lifecycle b i r)"
  unfolding call_lifecycle_def
  by (intro rel_query rel_if rel_raise) (auto split: rpc.split intro!: rel_modify rel_seq rel_raise rel_if rel_quarantine rel_skip)

lemma rel_stop_confirmed: "related R (stop_confirmed i)"
  unfolding stop_confirmed_def seq_def out_def modify_def upd_def related_def
  using confirmed [where g = "set_client (\<lambda>c. c\<lparr>tc_retain_for_recovery := False\<rparr>)"] by simp

lemma rel_call_stop_stream: "related R late \<Longrightarrow> related R (call_stop_stream e late i)"
  unfolding call_stop_stream_def
  by (intro rel_query rel_if rel_raise rel_seq rel_plain)
    (auto split: stop_call.split intro!: rel_if rel_stop_confirmed rel_raise rel_seq rel_modify)

lemma rel_get_or_create: "related R (get_or_create e k)"
  unfolding get_or_create_def
  by (intro rel_query rel_if rel_skip rel_option rel_raise rel_local) (simp add: mild_def)

lemma rel_group: "(\<And>gs. related R (cont gs)) \<Longrightarrow> related R (group_sensors_then e is cont)"
  unfolding group_sensors_then_def by (intro rel_query rel_seq rel_for_each rel_get_or_create)

lemma rel_push_result: "related R (push_result i st x)"
  unfolding push_result_def by (rule rel_local) (simp add: mild_def)

lemma rel_stop_one: "related R (stop_one e i)"
  unfolding stop_one_def Let_def
  by (intro rel_query rel_if rel_push_result rel_catch rel_seq rel_call_stop_stream rel_raise rel_quarantine rel_skip)

lemma rel_streaming_stop: "related R (streaming_stop e is)"
  unfolding streaming_stop_def
  by (intro rel_seq rel_group rel_for_each rel_stop_one rel_if rel_catch rel_emit rel_skip rel_query rel_local) (simp_all add: mild_def)

lemma rel_try_finally: "related R a \<Longrightarrow> related R b \<Longrightarrow> related R (try_finally a b)"
  unfolding try_finally_def by (intro rel_seq rel_catch rel_raise)

lemma rel_catch_except: "related R a \<Longrightarrow> (\<And>x. related R (h x)) \<Longrightarrow> related R (catch_except a h)"
  unfolding catch_except_def by (intro rel_catch rel_if rel_raise)

lemma rel_set_current: "related R (set_current st x)"
  unfolding set_current_def by (rule rel_local) (simp add: mild_def)

lemma rel_cleanup_stop: "related R (cleanup_stop e i)"
  unfolding cleanup_stop_def abort_sensor_def
  by (intro rel_catch_except rel_call_stop_stream rel_seq rel_modify rel_raise rel_if rel_quarantine rel_skip rel_set_current) simp_all

lemma rel_cleanup_disconnect: "related R (cleanup_disconnect e i)"
  unfolding cleanup_disconnect_def
  by (intro rel_catch_except rel_sum rel_raise rel_bool rel_seq rel_modify rel_query rel_if rel_set_current rel_skip) simp_all

lemma rel_release_sensor: "related R (release_sensor e i)"
  unfolding release_sensor_def by (intro rel_query rel_if rel_seq rel_modify rel_option rel_raise rel_skip) simp_all

lemma rel_stop_and_disconnect: "related R (stop_and_disconnect e b c i)"
  unfolding stop_and_disconnect_def by (intro rel_seq rel_if rel_cleanup_stop rel_cleanup_disconnect rel_release_sensor rel_skip)

lemma rel_cleanup_body: "related R (cleanup_body e k c p n i)"
  unfolding cleanup_body_def
  by (intro rel_if rel_set_current rel_sum rel_raise rel_bool rel_seq rel_modify rel_stop_and_disconnect) simp_all

lemma rel_cleanup_sensor: "related R (cleanup_sensor e i)"
  unfolding cleanup_sensor_def cleanup_finally_def abort_sensor_def Let_def
  by (intro rel_query rel_seq rel_if rel_set_current rel_get_or_create rel_modify rel_try_finally rel_catch_except rel_cleanup_body
      rel_quarantine rel_skip rel_local) (simp_all add: mild_def)

lemma rel_service_cleanup: "related R (service_cleanup e is)"
  unfolding service_cleanup_def cleanup_one_def abort_sensor_def
  by (intro rel_seq rel_for_each rel_query rel_if rel_push_result rel_catch rel_cleanup_sensor rel_raise rel_quarantine rel_skip rel_local)
    (simp_all add: mild_def)

lemma rel_prepare_recovery: "related R (prepare_recovery e i)"
proof -
  have c: "related R (seq (out (StopConfirmed i)) (modify i (\<lambda>h. h\<lparr>hs_measurement_cleanup_pending := False\<rparr>)))"
    unfolding seq_def out_def modify_def upd_def related_def using confirmed [where g = id] by simp
  show ?thesis unfolding prepare_recovery_def Let_def
    by (intro rel_query rel_if rel_raise rel_seq rel_sum rel_pair c rel_skip rel_modify) simp_all
qed

lemma rel_reconcile_sensor: "related R (reconcile_sensor e k i)"
  unfolding reconcile_sensor_def reconcile_stop_def reconcile_disconnect_def reconnect_sensor_def Let_def
  by (intro rel_seq rel_prepare_recovery rel_modify rel_try_finally rel_query rel_if rel_skip rel_sum rel_raise rel_bool
      rel_call_stop_stream) simp_all

lemma rel_retire: "related R (retire_after_external_stop e i)"
proof -
  have c: "related R (seq (out (OperatorConfirmed i)) (modify i (\<lambda>h. h\<lparr>hs_measurement_cleanup_pending := False,
      hs_physical_stop_quarantined := False, hs_connection_status := DISCONNECTED\<rparr>)))"
    unfolding seq_def out_def modify_def upd_def related_def using operator_confirmed by simp
  show ?thesis unfolding retire_after_external_stop_def by (intro rel_seq rel_modify rel_option rel_raise rel_skip c) simp_all
qed

lemma rel_reconcile_one: "related R (reconcile_one e q k iv err i)"
  unfolding reconcile_one_def reconcile_attempt_def push_current_def
  by (intro rel_query rel_seq rel_if rel_option rel_set_current rel_catch rel_raise rel_retire rel_reconcile_sensor rel_skip rel_quarantine
      rel_local) (simp_all add: mild_def)

lemma rel_reconcile: "related R (reconcile e q is)"
  unfolding reconcile_def reconcile_group_def adopt_recovery_client_def
  by (intro rel_seq rel_group rel_query rel_for_each rel_pair rel_if rel_modify rel_reconcile_one rel_skip rel_local)
    (simp_all add: mild_def relink_def)

lemma rel_link_lost: "related R (link_lost e i)"
  unfolding link_lost_def by (intro rel_seq rel_modify rel_query) (auto intro!: rel_emit rel_skip split: bool.split option.split)

lemma rel_handle_identify: "related R (handle_identify e a)"
proof -
  have "related R (call_identify e i)" for i unfolding call_identify_def by (intro rel_seq rel_plain rel_call_lifecycle) simp
  then show ?thesis unfolding handle_identify_def
    by (intro rel_query) (auto intro!: rel_skip rel_seq rel_emit rel_get_or_create split: list.split)
qed

end

text \<open>Relations that also allow the use of some sensors.\<close>

locale sensor_use = sensor_relation R for R :: "smanager \<Rightarrow> smanager \<Rightarrow> seffect list \<Rightarrow> bool" +
  fixes U :: "seffect set"
  assumes used: "f \<in> U \<Longrightarrow> R s s [f]"
    and begun: "R s (set_sensor i (\<lambda>h. set_client c (h\<lparr>hs_measurement_cleanup_pending := True\<rparr>)) s) []"
begin

lemma rel_set_up_sensor: "PluginSetup i \<in> U \<Longrightarrow> related R (set_up_sensor e i)"
  unfolding set_up_sensor_def call_setup_def
  by (intro rel_seq rel_modify rel_query rel_get_or_create rel_out used rel_call_lifecycle rel_option rel_raise) simp_all

lemma rel_set_up_connected: "PluginSetup i \<in> U \<Longrightarrow> related R (set_up_connected e i)"
  unfolding set_up_connected_def by (intro rel_query rel_if rel_seq rel_set_up_sensor rel_skip rel_local) (simp_all add: mild_def)

lemma rel_linked: "related R (linked e i)"
  unfolding linked_def by (rule rel_modify) simp_all

lemma rel_connect_group: "PluginSetup ` set (snd g) \<subseteq> U \<Longrightarrow> related R (connect_group e g)"
  unfolding connect_group_def connect_and_setup_def
  by (intro rel_pair rel_if rel_skip rel_for_each rel_seq rel_linked rel_sum rel_raise rel_option rel_set_up_connected) auto

lemma groups_members: "g \<in> set (groups s is) \<Longrightarrow> set (snd g) \<subseteq> set is"
  by (auto simp: groups_def)

lemma rel_group_of:
  "use ` set is \<subseteq> U \<Longrightarrow> (\<And>gs. (\<And>g. g \<in> set gs \<Longrightarrow> use ` set (snd g) \<subseteq> U) \<Longrightarrow> related R (cont gs)) \<Longrightarrow> related R (group_sensors_then e is cont)"
  unfolding group_sensors_then_def by (intro rel_query rel_seq rel_for_each rel_get_or_create) (use groups_members in fastforce)

lemma rel_connect_sensors: "PluginSetup ` set is \<subseteq> U \<Longrightarrow> related R (connect_sensors e is)"
  unfolding connect_sensors_def by (intro rel_group_of [where use = PluginSetup] rel_seq rel_for_each rel_connect_group rel_query rel_emit) simp_all

lemma rel_start_sensor_stream: "PluginStart i \<in> U \<Longrightarrow> related R (start_sensor_stream e i)"
  unfolding start_sensor_stream_def call_start_stream_def
  by (auto simp: modify_def intro!: rel_query rel_if rel_raise rel_seq rel_upd begun rel_out used rel_call_lifecycle)

lemma rel_streaming_start: "PluginStart ` set is \<subseteq> U \<Longrightarrow> related R (streaming_start e is)"
  unfolding streaming_start_def by (intro rel_group_of [where use = PluginStart] rel_seq rel_for_each rel_start_sensor_stream rel_query rel_emit)
    (auto simp: image_subset_iff)

end

section \<open>Only reconciled sensors are used\<close>

definition used_among :: "seffect set \<Rightarrow> smanager \<Rightarrow> smanager \<Rightarrow> seffect list \<Rightarrow> bool" where
  "used_among U s t es \<longleftrightarrow> (\<forall>f \<in> set es. \<forall>i. uses i f \<longrightarrow> f \<in> U) \<and> (\<forall>i. obliged t i = obliged s i)"

lemma mild_obliged: "mild s t \<Longrightarrow> obliged t i = obliged s i"
  by (simp add: mild_def obliged_def key_of_def sensor_of_def)

lemma obliged_set_sensor: "(\<And>h. hs_address (f h) = hs_address h) \<Longrightarrow> obliged (set_sensor i f s) j = obliged s j"
  by (simp add: obliged_def key_of_def)

lemma among: "sensor_use (used_among U) U"
  by unfold_locales (auto simp: used_among_def mild_obliged plain_def uses_def obliged_set_sensor)

definition gentle :: "smanager \<Rightarrow> smanager \<Rightarrow> seffect list \<Rightarrow> bool" where
  "gentle s t es \<longleftrightarrow> (\<forall>f \<in> set es. \<forall>i. \<not> uses i f)"

interpretation gentle: sensor_relation gentle
  by unfold_locales (auto simp: gentle_def plain_def uses_def)

lemma gentle_upd: "related gentle (upd f)"
  by (rule gentle.rel_upd) (simp add: gentle_def)

lemma gentle_emit: "related gentle (emit_to_client e f)" if "\<And>i. \<not> uses i f"
  unfolding emit_to_client_def
  by (intro gentle.rel_query gentle.rel_option gentle.rel_if gentle.rel_seq gentle_upd gentle.rel_out gentle.rel_skip gentle.rel_raise)
    (simp_all add: gentle_def that)

lemma gentle_assign: "(\<And>x. related gentle (cont x)) \<Longrightarrow> related gentle (assign_devices e k ids excluded cont)"
  by (induction e k ids excluded cont rule: assign_devices.induct)
    (auto simp: modify_def intro!: gentle.rel_raise gentle.rel_seq gentle_upd)

lemma gentle_discover_groups: "related gentle (discover_groups e gs excluded)"
proof (induction e gs excluded rule: discover_groups.induct)
  case (2 e k ids gs excluded)
  then show ?case
    by (auto simp: scan_then_def Let_def uses_def
        intro!: gentle.rel_query gentle.rel_sum gentle.rel_raise gentle.rel_if gentle.rel_seq gentle_emit gentle_upd gentle_assign)
qed (auto simp: uses_def intro!: gentle.rel_query gentle_emit)

lemma gentle_discover: "related gentle (discover_all e)" "related gentle (discover_for_subject e is as)"
  unfolding discover_all_def discover_for_subject_def discover_pending_def
  by (intro gentle.rel_query gentle.rel_seq gentle_upd gentle.rel_if gentle.rel_skip gentle.rel_group gentle_discover_groups)+

lemma gentle_controller_cleanup: "related gentle (controller_cleanup e is)"
  unfolding controller_cleanup_def by (intro gentle.rel_query gentle.rel_seq gentle.rel_service_cleanup gentle_emit) (simp_all add: uses_def)

lemma gentle_install: "related gentle (install_sensor_configuration e is)"
  unfolding install_sensor_configuration_def install_one_def
  by (intro gentle.rel_for_each gentle.rel_seq gentle.rel_modify gentle.rel_query gentle.rel_get_or_create gentle_upd) simp_all

lemma gentle_reinitialize: "related gentle (reinitialize_sensor_manager e is)"
  unfolding reinitialize_sensor_manager_def reinitialize_body_def service_disconnect_def disconnect_one_def Let_def
  by (intro gentle.rel_query gentle.rel_seq gentle_upd gentle.rel_try_finally gentle.rel_catch gentle.rel_if gentle.rel_skip gentle.rel_raise gentle.rel_option
      gentle.rel_group gentle.rel_for_each gentle.rel_pair gentle.rel_sum gentle.rel_modify gentle_install) simp_all

lemma gentle_recover: "related gentle (recover_sensors e q)"
  unfolding recover_sensors_def settle_one_def Let_def
  by (intro gentle.rel_query gentle.rel_seq gentle.rel_reconcile gentle_upd gentle.rel_for_each gentle.rel_if gentle.rel_raise gentle.rel_skip)

lemma gentle_routing_stuck: "related gentle (routing_stuck is)"
  unfolding routing_stuck_def by (intro gentle.rel_seq gentle_upd gentle.rel_for_each gentle.rel_quarantine gentle.rel_push_result)

text \<open>What is used is not obliged afterwards.\<close>

definition used_free :: "sm_action \<Rightarrow> bool" where
  "used_free a \<longleftrightarrow> (\<forall>s t es x. a s = (t, es, x) \<longrightarrow> (\<forall>f \<in> set es. \<forall>i. uses i f \<longrightarrow> \<not> obliged t i))"

lemma used_free_gentle: "related gentle a \<Longrightarrow> used_free a"
  by (auto simp: related_def used_free_def gentle_def)

lemma used_free_then: "used_free a \<Longrightarrow> related (used_among {}) b \<Longrightarrow> used_free (seq a b)"
  unfolding used_free_def related_def used_among_def seq_def by (fastforce split: prod.splits option.splits)

lemma used_free_catch: "used_free a \<Longrightarrow> (\<And>x. related (used_among {}) (h x)) \<Longrightarrow> used_free (catch a h)"
  unfolding used_free_def related_def used_among_def catch_def by (fastforce split: prod.splits option.splits)

lemma used_free_after: "related gentle a \<Longrightarrow> used_free b \<Longrightarrow> used_free (seq a b)"
  unfolding used_free_def related_def gentle_def seq_def by (fastforce split: prod.splits option.splits)

lemma used_free_query: "(\<And>s. used_free (g s)) \<Longrightarrow> used_free (query g)"
  by (simp add: used_free_def query_def)

lemma used_free_at: "(\<And>s t es x. g s s = (t, es, x) \<Longrightarrow> (\<forall>f \<in> set es. \<forall>i. uses i f \<longrightarrow> \<not> obliged t i)) \<Longrightarrow> used_free (query g)"
  by (simp add: used_free_def query_def)

lemma ensure_reconciled_checks:
  "ensure_reconciled is s = (t, es, x) \<Longrightarrow> t = s \<and> es = [] \<and> (x = None \<longrightarrow> (\<forall>i \<in> set is. \<not> obliged s i))"
  unfolding ensure_reconciled_def
  by (induction "is" arbitrary: es) (auto simp: seq_def query_def skip_def raise_def obliged_def split: prod.splits option.splits if_splits)

lemma used_free_connect:
  assumes "related (used_among (PluginSetup ` set is)) b" shows "used_free (seq (ensure_reconciled is) b)"
proof -
  have "\<not> obliged t i" if "seq (ensure_reconciled is) b s = (t, es, x)" "f \<in> set es" "uses i f" for s t es x f i
  proof -
    obtain s1 es1 x1 where 1: "ensure_reconciled is s = (s1, es1, x1)" by (cases "ensure_reconciled is s")
    note c = ensure_reconciled_checks [OF 1]
    then have b: "b s = (t, es, x)" and n: "x1 = None"
      using that(1,2) 1 by (auto simp: seq_def split: option.splits prod.splits)
    from relatedD [OF assms b] that(2,3) have "i \<in> set is" "obliged t i = obliged s i" by (auto simp: used_among_def uses_def)
    with c n show ?thesis by auto
  qed
  then show ?thesis by (auto simp: used_free_def)
qed

lemma used_free_connects: "used_free (service_connect_all e is)" "used_free (connect_specific e is)"
proof -
  let ?U = "PluginSetup ` set is"
  have r: "sensor_relation (used_among ?U)" by (rule sensor_use.axioms(1) [OF among])
  then have a: "action_relation (used_among ?U)" by (rule sensor_relation.axioms(1))
  have c: "related (used_among ?U) (seq (upd (\<lambda>s. s\<lparr>sm_found := []\<rparr>)) (if is = [] \<and> b then skip else connect_sensors e is))" for b
    by (intro action_relation.rel_seq [OF a] action_relation.rel_if [OF a] action_relation.rel_skip [OF a]
          sensor_relation.rel_local [OF r] sensor_use.rel_connect_sensors [OF among]) (simp_all add: mild_def)
  show "used_free (service_connect_all e is)" unfolding service_connect_all_def
    using used_free_connect [OF c [of False]] by simp
  show "used_free (connect_specific e is)" unfolding connect_specific_def
    using used_free_connect [OF c [of True]] by simp
qed

lemma used_free_start:
  assumes "set is \<subseteq> set (get_connected_sensors s)" "streaming_start e is s = (t, es, x)" "f \<in> set es" "uses i f"
  shows "\<not> obliged t i \<and> i \<in> set (get_connected_sensors s)"
proof -
  have "used_among (PluginStart ` set is) s t es"
    using relatedD [OF sensor_use.rel_streaming_start [OF among] assms(2)] by simp
  then have "i \<in> set is" "obliged t i = obliged s i" using assms(3,4) by (auto simp: used_among_def uses_def)
  moreover have "\<not> obliged s i" if "i \<in> set (get_connected_sensors s)" using that by (simp add: get_connected_sensors_def obliged_def)
  ultimately show ?thesis using assms(1) by auto
qed

lemma used_free_starts: "used_free (handle_command e StartAll)" "used_free (handle_command e (StartSpecific as))"
  by (auto simp: used_free_def query_def with_addresses_def dest: used_free_start [rotated])

lemmas gentle_services = gentle_reinitialize gentle_recover gentle_discover gentle_controller_cleanup gentle.rel_skip gentle.rel_raise
  gentle.rel_handle_identify gentle.rel_streaming_stop gentle_routing_stuck gentle_upd

lemma gentle_stops: "related gentle (handle_command e StopAll)" "related gentle (handle_command e (StopSpecific as))"
  by (auto intro!: gentle.rel_query gentle.rel_seq gentle.rel_if gentle_services)

lemma used_free_handle: "used_free (handle_command e c)"
proof -
  have skip: "used_free skip" by (intro used_free_gentle gentle_services)
  consider "c = StartAll \<or> (\<exists>as. c = StartSpecific as)" | "c = StopAll \<or> (\<exists>as. c = StopSpecific as)"
    | "\<forall>s. stop_targets c s = None" "\<not> (c = StartAll \<or> (\<exists>as. c = StartSpecific as))" by (cases c) auto
  then show ?thesis
  proof cases
    case 3
    then show ?thesis
      by (cases c) (auto intro!: used_free_connects used_free_query used_free_after [OF gentle_discover(1)] skip simp: discover_and_connect_def
          intro: used_free_gentle [OF gentle.rel_query] used_free_gentle gentle_services split: option.split)
  qed (use used_free_starts used_free_gentle [OF gentle_stops(1)] used_free_gentle [OF gentle_stops(2)] in blast)+
qed

interpretation unused: sensor_use "used_among {}" "{}"
  by (rule among)

lemma unused_failed: "related (used_among {}) (command_failed e m x)"
  unfolding command_failed_def by (auto intro!: unused.rel_skip unused.rel_emit split: scommand.split)

lemma gentle_capture: "related gentle (upd f)" "mild s (s\<lparr>sm_capture := c\<rparr>)"
  by (simp_all add: gentle_upd mild_def)

lemma unused_capture: "related (used_among {}) (upd (\<lambda>s. s\<lparr>sm_capture := None\<rparr>))"
  by (rule unused.rel_local) (simp add: mild_def)

lemma used_free_step: "used_free (manager_step e m)"
  unfolding manager_step_def try_finally_def
  by (intro used_free_after [OF gentle_upd] used_free_then used_free_catch used_free_handle unused_failed unused.rel_seq unused_capture
      unused.rel_raise)

lemma used_free_input: "used_free (manager_input e x)"
proof (cases x)
  case (Initialize "is")
  have "related gentle (init_sensor_manager e is)" unfolding init_sensor_manager_def
    by (intro gentle.rel_query gentle.rel_if gentle_reinitialize gentle.rel_catch gentle_install gentle.rel_seq gentle_upd gentle.rel_raise)
  then show ?thesis by (simp add: Initialize used_free_gentle)
qed (auto intro!: used_free_step used_free_gentle gentle.rel_link_lost simp: modify_def gentle_upd)

text \<open>Starts come from the two start commands only.\<close>

definition no_start :: "smanager \<Rightarrow> smanager \<Rightarrow> seffect list \<Rightarrow> bool" where
  "no_start s t es \<longleftrightarrow> (\<forall>i. PluginStart i \<notin> set es)"

interpretation no_start: sensor_use no_start "range PluginSetup"
  by unfold_locales (auto simp: no_start_def plain_def uses_def)

lemma no_start_gentle: "related gentle a \<Longrightarrow> related no_start a"
  unfolding related_def gentle_def no_start_def uses_def by blast

lemma no_start_connects: "related no_start (service_connect_all e is)" "related no_start (connect_specific e is)"
proof -
  have e: "related no_start (ensure_reconciled is)"
    unfolding ensure_reconciled_def by (intro no_start.rel_for_each no_start.rel_query no_start.rel_if no_start.rel_raise no_start.rel_skip)
  show "related no_start (service_connect_all e is)" "related no_start (connect_specific e is)"
    unfolding service_connect_all_def connect_specific_def
    by (intro e no_start.rel_seq no_start.rel_if no_start.rel_skip no_start.rel_connect_sensors no_start_gentle [OF gentle_upd]; auto)+
qed

lemma start_sources: "handle_command e c s = (t, es, x) \<Longrightarrow> PluginStart i \<in> set es \<Longrightarrow> i \<in> set (get_connected_sensors s)"
proof -
  assume a: "handle_command e c s = (t, es, x)" "PluginStart i \<in> set es"
  then have n: "\<not> related no_start (handle_command e c)" by (auto simp: related_def no_start_def)
  have "related no_start (handle_command e c)" if "\<not> (c = StartAll \<or> (\<exists>as. c = StartSpecific as))"
    using that no_start_gentle [OF gentle_stops(1)] no_start_gentle [OF gentle_stops(2)]
    by (cases c) (auto intro!: no_start.rel_query no_start_connects no_start.rel_seq no_start_gentle [OF gentle_discover(1)] no_start.rel_skip
        simp: discover_and_connect_def intro: no_start_gentle gentle_services split: option.split)
  with n have "c = StartAll \<or> (\<exists>as. c = StartSpecific as)" by blast
  then obtain ids where "streaming_start e ids s = (t, es, x)" "set ids \<subseteq> set (get_connected_sensors s)"
    using a(1) by (auto simp: query_def with_addresses_def)
  from used_free_start [OF this(2,1) a(2)] show ?thesis by (simp add: uses_def)
qed

lemma start_sources_step: "manager_step e m s = (t, es, x) \<Longrightarrow> PluginStart i \<in> set es \<Longrightarrow> i \<in> set (get_connected_sensors s)"
proof -
  assume a: "manager_step e m s = (t, es, x)" "PluginStart i \<in> set es"
  let ?s = "s\<lparr>sm_capture := (if ms_connection_step m then Some [] else None)\<rparr>"
  obtain t1 es1 x1 where h: "handle_command e (ms_command m) ?s = (t1, es1, x1)" by (cases "handle_command e (ms_command m) ?s")
  have f: "related no_start (command_failed e m y)" for y
    unfolding command_failed_def by (auto intro!: no_start.rel_skip no_start.rel_emit split: scommand.split)
  obtain t2 es2 x2 where c: "catch (handle_command e (ms_command m)) (command_failed e m) ?s = (t2, es2, x2)"
    by (cases "catch (handle_command e (ms_command m)) (command_failed e m) ?s")
  then have "PluginStart i \<in> set es1" if "PluginStart i \<in> set es2"
    using that h relatedD [OF f] by (auto simp: catch_def no_start_def split: option.splits prod.splits)
  moreover have "set es = set es2"
    using a(1) c by (auto simp: manager_step_def try_finally_def seq_def upd_def catch_def raise_def split: option.splits prod.splits)
  ultimately have "i \<in> set (get_connected_sensors ?s)" using a(2) start_sources [OF h] by auto
  then show ?thesis by (simp add: get_connected_sensors_def connected_sensor_def sensor_of_def key_of_def)
qed

text \<open>C2. No sensor is used while a physical STOP is owed to it: from any state, whatever the adapters, plugins and
  listeners do, a message, a configuration or an event between messages asks the plugin of a sensor to
  set up or to start only if no obligation is recorded for the address of that sensor; and it starts only
  sensors that are connected and not quarantined.\<close>

theorem only_reconciled_sensors_used:
  assumes "manager_input e x s = (t, es, exc)" and "f \<in> set es" and "uses i f"
  shows "\<not> obliged t i \<and> (f = PluginStart i \<longrightarrow> i \<in> set (get_connected_sensors s))"
proof (intro conjI impI)
  show "\<not> obliged t i" using used_free_input [of e x] assms unfolding used_free_def by blast
  show "i \<in> set (get_connected_sensors s)" if f: "f = PluginStart i"
  proof (cases x)
    case (Message m)
    then show ?thesis using assms(1,2) f start_sources_step by simp
  next
    case (Initialize "is")
    have "related gentle (init_sensor_manager e is)" unfolding init_sensor_manager_def
      by (intro gentle.rel_query gentle.rel_if gentle_reinitialize gentle.rel_catch gentle_install gentle.rel_seq gentle_upd gentle.rel_raise)
    from relatedD [OF this] assms Initialize have False by (auto simp: gentle_def)
    then show ?thesis ..
  next
    case (LinkLost j)
    from relatedD [OF gentle.rel_link_lost] assms LinkLost have False by (auto simp: gentle_def)
    then show ?thesis ..
  qed (use assms in \<open>auto simp: modify_def upd_def\<close>)
qed

section \<open>A stop accounts for every sensor\<close>

text \<open>What a stop does to the state: addresses and sensors stay, no measurement becomes pending, results are only
  added.\<close>

definition stopping :: "smanager \<Rightarrow> smanager \<Rightarrow> bool" where
  "stopping s t \<longleftrightarrow> sm_sensors t = sm_sensors s \<and> (\<exists>rs. sm_results t = sm_results s @ rs) \<and>
     (\<forall>i. hs_address (sensor_of t i) = hs_address (sensor_of s i) \<and>
        (hs_measurement_cleanup_pending (sensor_of t i) \<longrightarrow> hs_measurement_cleanup_pending (sensor_of s i)))"

lemma stopping_refl [simp]: "stopping s s"
  by (simp add: stopping_def)

lemma stopping_trans: "stopping s t \<Longrightarrow> stopping t u \<Longrightarrow> stopping s u"
  by (fastforce simp: stopping_def)

text \<open>Steps that leave the sensors and the results alone.\<close>

definition steady :: "smanager \<Rightarrow> smanager \<Rightarrow> bool" where
  "steady s t \<longleftrightarrow> sm_objects t = sm_objects s \<and> sm_sensors t = sm_sensors s \<and> sm_results t = sm_results s"

interpretation steady: action_relation "\<lambda>s t es. steady s t"
  by unfold_locales (auto simp: steady_def)

lemma steady_emit: "plain f \<Longrightarrow> related (\<lambda>s t es. steady s t) (emit_to_client e f)"
  unfolding emit_to_client_def
  by (intro steady.rel_query steady.rel_option steady.rel_if steady.rel_seq steady.rel_upd steady.rel_out steady.rel_skip
      steady.rel_raise) (auto simp: steady_def oblige_unfinished_def plain_def split: seffect.split)

lemma steady_get_or_create: "related (\<lambda>s t es. steady s t) (get_or_create e k)"
  unfolding get_or_create_def
  by (intro steady.rel_query steady.rel_if steady.rel_skip steady.rel_option steady.rel_raise steady.rel_upd) (simp_all add: steady_def)

text \<open>The record of one sensor: a sensor that is reported as stopped has no measurement pending.\<close>

lemma call_stop_stream_result:
  assumes "call_stop_stream e (raise y) i s = (t, es, x)"
  shows "stopping s t \<and> sm_results t = sm_results s \<and> (x = None \<longrightarrow> \<not> hs_measurement_cleanup_pending (sensor_of t i))"
  using assms
  by (auto simp: call_stop_stream_def query_def raise_def seq_def out_def modify_def upd_def stop_confirmed_def stopping_def
      split: if_splits stop_call.splits)

lemma quarantine_stopping: "quarantine i s = (t, es, x) \<Longrightarrow> stopping s t \<and> sm_results t = sm_results s \<and> x = None"
  by (auto simp: quarantine_def modify_def upd_def stopping_def split: if_splits)

lemma push_result_stopping:
  "push_result i st y s = (t, es, x) \<Longrightarrow> x = None \<and> stopping s t \<and> sm_results t = sm_results s @ [new_result s i st y] \<and> sm_objects t = sm_objects s"
  by (auto simp: push_result_def upd_def stopping_def sensor_of_def)

definition reports :: "nat \<Rightarrow> smanager \<Rightarrow> smanager \<Rightarrow> bool" where
  "reports i s t \<longleftrightarrow> (\<exists>r. sm_results t = sm_results s @ [r] \<and> rs_address r = hs_address (sensor_of s i) \<and>
     (rs_status r = Stopped \<longrightarrow> \<not> hs_measurement_cleanup_pending (sensor_of t i)))"

lemma push_reports:
  "push_result i st y s = (t, es, x) \<Longrightarrow> st = Stopped \<longrightarrow> \<not> hs_measurement_cleanup_pending (sensor_of s i) \<Longrightarrow>
   x = None \<and> stopping s t \<and> reports i s t"
  by (auto simp: reports_def new_result_def sensor_of_def dest: push_result_stopping)

lemma push_after:
  assumes "stopping s u" "sm_results u = sm_results s" "push_result i st y u = (t, es, x)"
    and "st = Stopped \<longrightarrow> \<not> hs_measurement_cleanup_pending (sensor_of u i)"
  shows "x = None \<and> stopping s t \<and> reports i s t"
proof -
  from push_reports [OF assms(3,4)] have "x = None" "stopping u t" "reports i u t" by auto
  with assms(1,2) show ?thesis by (auto simp: reports_def stopping_def intro: stopping_trans)
qed

lemma stop_one_reports: "stop_one e i s = (t, es, x) \<Longrightarrow> x = None \<and> stopping s t \<and> reports i s t"
proof -
  assume run: "stop_one e i s = (t, es, x)"
  let ?h = "sensor_of s i"
  show ?thesis
  proof (cases "hs_physical_stop_quarantined ?h \<or> sv_expired e i \<or> hs_connection_status ?h \<noteq> CONNECTED")
    case True
    with run show ?thesis by (auto simp: stop_one_def query_def Let_def dest!: push_reports split: if_splits)
  next
    case False
    obtain u es1 x1 where c: "call_stop_stream e (raise ''TimeoutError'') i s = (u, es1, x1)"
      by (cases "call_stop_stream e (raise ''TimeoutError'') i s")
    note r = call_stop_stream_result [OF c]
    show ?thesis
    proof (cases x1)
      case None
      with False run c obtain es2 where "push_result i Stopped None u = (t, es2, x)"
        by (auto simp: stop_one_def query_def Let_def catch_def seq_def push_result_def upd_def)
      from push_after [OF _ _ this, of s] r None show ?thesis by simp
    next
      case (Some y)
      define v where "v = (if stop_uncertain e u i then set_sensor i (\<lambda>h. h\<lparr>hs_physical_stop_quarantined := True\<rparr>) u else u)"
      have v: "stopping u v" "sm_results v = sm_results u" by (auto simp: v_def stopping_def split: if_splits)
      from Some False run c obtain es2 where "push_result i Unconfirmed (Some y) v = (t, es2, x)"
        by (cases "stop_uncertain e u i")
          (auto simp: stop_one_def query_def Let_def catch_def seq_def push_result_def upd_def v_def quarantine_def modify_def skip_def)
      from push_after [OF stopping_trans [OF _ v(1)] _ this, of s] r v show ?thesis by simp
    qed
  qed
qed

lemma stops_report:
  assumes "for_each is (stop_one e) s = (t, es, x)"
  shows "x = None \<and> stopping s t \<and> (\<exists>rs. sm_results t = sm_results s @ rs \<and> map rs_address rs = map (\<lambda>i. hs_address (sensor_of s i)) is \<and>
     (\<forall>i \<in> set is. hs_measurement_cleanup_pending (sensor_of t i) \<longrightarrow>
        (\<exists>r \<in> set rs. rs_address r = hs_address (sensor_of s i) \<and> rs_status r \<noteq> Stopped)))"
  using assms
proof (induction "is" arbitrary: s es)
  case Nil
  then show ?case by (simp add: skip_def)
next
  case (Cons i ids)
  obtain u es1 x1 where 1: "stop_one e i s = (u, es1, x1)" by (cases "stop_one e i s")
  note a = stop_one_reports [OF 1]
  obtain es2 where 2: "for_each ids (stop_one e) u = (t, es2, x)"
    using Cons.prems 1 a by (auto simp: seq_def split: prod.splits)
  from Cons.IH [OF 2] obtain rs where b: "x = None" "stopping u t" "sm_results t = sm_results u @ rs"
    "map rs_address rs = map (\<lambda>i. hs_address (sensor_of u i)) ids"
    "\<forall>i \<in> set ids. hs_measurement_cleanup_pending (sensor_of t i) \<longrightarrow> (\<exists>r \<in> set rs. rs_address r = hs_address (sensor_of u i) \<and> rs_status r \<noteq> Stopped)"
    by auto
  from a obtain r where r: "sm_results u = sm_results s @ [r]" "rs_address r = hs_address (sensor_of s i)"
    "rs_status r = Stopped \<longrightarrow> \<not> hs_measurement_cleanup_pending (sensor_of u i)" by (auto simp: reports_def)
  have same: "hs_address (sensor_of u j) = hs_address (sensor_of s j)" for j using a by (simp add: stopping_def)
  have less: "hs_measurement_cleanup_pending (sensor_of t j) \<Longrightarrow> hs_measurement_cleanup_pending (sensor_of u j)" for j
    using b(2) by (simp add: stopping_def)
  show ?case
  proof (intro conjI exI [of _ "r # rs"] ballI impI)
    fix j assume j: "j \<in> set (i # ids)" "hs_measurement_cleanup_pending (sensor_of t j)"
    show "\<exists>q \<in> set (r # rs). rs_address q = hs_address (sensor_of s j) \<and> rs_status q \<noteq> Stopped"
      using j r b(5) less [of j] by (cases "j = i") (auto simp: same)
  qed (use a b r same stopping_trans in auto)
qed

lemma filter_mset_cong_id: "(\<And>x. x \<in># M \<Longrightarrow> P x) \<Longrightarrow> filter_mset P M = M"
  by (simp add: filter_mset_eq_conv)

lemma groups_perm: "mset (concat (map snd (groups s is))) = mset is"
proof -
  define ks where "ks = rev (remdups (rev (map (adapter_of s) is)))"
  have "distinct ks" "set ks = adapter_of s ` set is" by (auto simp: ks_def)
  moreover have "mset (concat (map (\<lambda>k. filter (\<lambda>i. adapter_of s i = k) js) ks)) = mset (filter (\<lambda>i. adapter_of s i \<in> set ks) js)"
    if "distinct ks" for ks js
    using that
  proof (induction ks)
    case (Cons k ks)
    have "filter_mset (\<lambda>i. adapter_of s i = k \<or> adapter_of s i \<in> set ks) (mset js) =
      filter_mset (\<lambda>i. adapter_of s i = k) (mset js) + filter_mset (\<lambda>i. adapter_of s i \<in> set ks) (mset js)"
      using Cons.prems by (induction js) auto
    with Cons show ?case by simp
  qed simp
  moreover have "{#i \<in># mset is. adapter_of s i \<in> adapter_of s ` set is#} = mset is"
    by (intro filter_mset_cong_id) auto
  ultimately show ?thesis by (simp add: groups_def comp_def ks_def [symmetric])
qed

lemma oblige_keeps: "map_of (sm_recovery_obligations s) a \<noteq> None \<Longrightarrow> map_of (sm_recovery_obligations (fold oblige rs s)) a \<noteq> None"
  by (induction rs arbitrary: s) (auto simp: oblige_def split: option.splits)

lemma oblige_frame [simp]: "sm_sensors (fold oblige rs s) = sm_sensors s" "sm_objects (fold oblige rs s) = sm_objects s"
  "sm_results (fold oblige rs s) = sm_results s"
  by (induction rs arbitrary: s) (auto simp: oblige_def split: option.splits)

lemma oblige_records:
  "r \<in> set rs \<Longrightarrow> i \<in> set (sm_sensors s) \<Longrightarrow> hs_address (sensor_of s i) = rs_address r \<Longrightarrow>
   map_of (sm_recovery_obligations (fold oblige rs s)) (address_key (rs_address r)) \<noteq> None"
proof (induction rs arbitrary: s)
  case (Cons q rs)
  show ?case
  proof (cases "r = q")
    case True
    have "map_of (sm_recovery_obligations (oblige r s)) (address_key (rs_address r)) \<noteq> None"
      using Cons.prems(2,3) by (auto simp: oblige_def first_with_address_def find_None_iff split: option.splits)
    from oblige_keeps [OF this, of rs] show ?thesis by (simp add: True)
  next
    case False
    have f: "sm_sensors (oblige q s) = sm_sensors s" "sensor_of (oblige q s) = sensor_of s"
      by (auto simp: oblige_def sensor_of_def split: option.splits)
    show ?thesis using Cons.IH [of "oblige q s"] Cons.prems False by (simp add: f)
  qed
qed simp

lemma streaming_stop_reports:
  assumes "streaming_stop e is s = (t, es, None)"
  shows "sm_sensors t = sm_sensors s \<and> (\<forall>i. hs_address (sensor_of t i) = hs_address (sensor_of s i)) \<and>
     mset (map rs_address (sm_results t)) = mset (map (\<lambda>i. hs_address (sensor_of s i)) is) \<and>
     (\<forall>i \<in> set is. hs_measurement_cleanup_pending (sensor_of t i) \<longrightarrow>
        (\<exists>r \<in> set (sm_results t). rs_address r = hs_address (sensor_of s i) \<and> rs_status r \<noteq> Stopped))"
proof -
  let ?s0 = "s\<lparr>sm_results := []\<rparr>" and ?js = "concat (map snd (groups s is))"
  define rest where "rest = seq (if sv_collect_diagnostics e then catch (emit_to_client e EmitDiagnostics) (\<lambda>_. skip) else skip)
       (query (\<lambda>s. emit_to_client e (EmitStreamStopped (stopped_addresses (sm_results s)))))"
  have g: "groups ?s0 is = groups s is" "map (adapter_of ?s0) is = map (adapter_of s) is"
    by (auto simp: groups_def adapter_of_def sensor_of_def cong: map_cong)
  have "seq (for_each (map (adapter_of s) is) (get_or_create e)) (seq (for_each ?js (stop_one e)) rest) ?s0 = (t, es, None)"
    using assms unfolding streaming_stop_def group_sensors_then_def rest_def seq_upd query_apply g .
  from seq_returned [OF this] obtain u1 es1 es2 where 1: "for_each (map (adapter_of s) is) (get_or_create e) ?s0 = (u1, es1, None)"
    and 2: "seq (for_each ?js (stop_one e)) rest u1 = (t, es2, None)" by blast
  from seq_returned [OF 2] obtain u2 es3 es4 where 3: "for_each ?js (stop_one e) u1 = (u2, es3, None)" and 4: "rest u2 = (t, es4, None)" by blast
  have u1: "steady ?s0 u1"
    using relatedD [OF steady.rel_for_each [OF steady_get_or_create] 1] .
  have "related (\<lambda>s t es. steady s t) rest" unfolding rest_def
    by (intro steady.rel_seq steady.rel_if steady.rel_catch steady_emit steady.rel_skip steady.rel_query) simp_all
  then have u2: "steady u2 t" using 4 by (rule relatedD)
  from stops_report [OF 3] obtain rs where rs: "stopping u1 u2" "sm_results u2 = sm_results u1 @ rs"
    "map rs_address rs = map (\<lambda>i. hs_address (sensor_of u1 i)) ?js"
    "\<forall>i \<in> set ?js. hs_measurement_cleanup_pending (sensor_of u2 i) \<longrightarrow>
        (\<exists>r \<in> set rs. rs_address r = hs_address (sensor_of u1 i) \<and> rs_status r \<noteq> Stopped)" by blast
  have j: "mset ?js = mset is" by (rule groups_perm)
  then have jset: "set ?js = set is" by (metis set_mset_mset)
  have results: "sm_results t = rs" using u1 u2 rs(2) by (simp add: steady_def)
  have "mset (map rs_address rs) = mset (map (\<lambda>i. hs_address (sensor_of s i)) is)"
    using u1 by (simp only: rs(3) mset_map j) (simp add: steady_def sensor_of_def)
  with rs(1) rs(4) [unfolded jset] u1 u2 show ?thesis by (auto simp: results steady_def stopping_def sensor_of_def)
qed

lemma routing_stuck_reports:
  "for_each is (\<lambda>i. seq (quarantine i) (push_result i NotAttempted y)) s = (t, es, x) \<Longrightarrow>
   sm_sensors t = sm_sensors s \<and> (\<forall>i. hs_address (sensor_of t i) = hs_address (sensor_of s i)) \<and>
   (\<exists>rs. sm_results t = sm_results s @ rs \<and> map rs_address rs = map (\<lambda>i. hs_address (sensor_of s i)) is \<and>
     (\<forall>r \<in> set rs. rs_status r = NotAttempted))"
proof (induction "is" arbitrary: s es)
  case (Cons i ids)
  define u where "u = set_sensor i (\<lambda>h. h\<lparr>hs_physical_stop_quarantined := True\<rparr>) s"
  define v where "v = u\<lparr>sm_results := sm_results u @ [new_result u i NotAttempted y]\<rparr>"
  have f: "sm_sensors v = sm_sensors s" "hs_address (sensor_of v j) = hs_address (sensor_of s j)"
    "sm_results v = sm_results s @ [new_result u i NotAttempted y]" for j
    by (simp_all add: v_def u_def sensor_of_def set_sensor_def)
  have "seq (quarantine i) (push_result i NotAttempted y) s = (v, [], None)"
    by (simp add: quarantine_def modify_def push_result_def seq_upd u_def v_def) (simp add: upd_def)
  then obtain es2 where "for_each ids (\<lambda>i. seq (quarantine i) (push_result i NotAttempted y)) v = (t, es2, x)"
    using Cons.prems by (auto simp: seq_def [of "seq _ _"] split: prod.splits)
  from Cons.IH [OF this] show ?case by (auto simp: f new_result_def u_def)
qed (simp add: skip_def)

text \<open>C5. A stop accounts for every sensor: whatever the plugins, deadlines and routes do, a stop command that is not
  aborted by a listener reports exactly one outcome for each targeted sensor, and each targeted sensor
  whose measurement may still be running is under a recovery obligation afterwards.\<close>

theorem stop_accounts_for_every_sensor:
  assumes "stop_targets c s = Some is" and "handle_command e c s = (t, es, None)"
  shows "mset (map rs_address (sm_results t)) = mset (map (\<lambda>i. hs_address (sensor_of s i)) is) \<and>
     (\<forall>i \<in> set is. hs_measurement_cleanup_pending (sensor_of t i) \<longrightarrow> obliged t i)"
proof -
  have sub: "set is \<subseteq> set (sm_sensors s)" using assms(1) by (cases c) (auto simp: with_addresses_def)
  have d: "dispatch e c s = streaming_stop e is s" using assms(1) by (cases c) (auto simp: query_def)
  have "seq (if sv_drained e then dispatch e c else routing_stuck is) (upd oblige_unstopped) s = (t, es, None)"
    using assms by (cases c) (auto simp: query_def)
  from seq_returned [OF this] obtain u fs where u: "(if sv_drained e then dispatch e c else routing_stuck is) s = (u, fs, None)"
    and t: "t = oblige_unstopped u" by (auto simp: upd_def)
  have "sm_sensors u = sm_sensors s \<and> (\<forall>i. hs_address (sensor_of u i) = hs_address (sensor_of s i)) \<and>
     mset (map rs_address (sm_results u)) = mset (map (\<lambda>i. hs_address (sensor_of s i)) is) \<and>
     (\<forall>i \<in> set is. hs_measurement_cleanup_pending (sensor_of u i) \<longrightarrow>
        (\<exists>r \<in> set (sm_results u). rs_address r = hs_address (sensor_of s i) \<and> rs_status r \<noteq> Stopped))"
  proof (cases "sv_drained e")
    case True
    with u d streaming_stop_reports show ?thesis by simp
  next
    case False
    with u have "for_each is (\<lambda>i. seq (quarantine i) (push_result i NotAttempted (Some ''Targeted sensor routing did not drain'')))
        (s\<lparr>sm_results := []\<rparr>) = (u, fs, None)" by (simp add: routing_stuck_def seq_upd)
    from routing_stuck_reports [OF this] obtain rs where "sm_sensors u = sm_sensors s"
      "\<forall>i. hs_address (sensor_of u i) = hs_address (sensor_of s i)" "sm_results u = rs"
      and m: "map rs_address rs = map (\<lambda>i. hs_address (sensor_of s i)) is" and "\<forall>r \<in> set rs. rs_status r = NotAttempted"
      by (auto simp: sensor_of_def)
    moreover have "\<exists>r \<in> set rs. rs_address r = hs_address (sensor_of s i)" if "i \<in> set is" for i
    proof -
      have "hs_address (sensor_of s i) \<in> set (map rs_address rs)" unfolding m using that by simp
      then show ?thesis by auto
    qed
    ultimately show ?thesis using m by fastforce
  qed
  moreover have "obliged t i" if "i \<in> set is" "r \<in> set (sm_results u)" "rs_address r = hs_address (sensor_of u i)" "rs_status r \<noteq> Stopped"
    "sm_sensors u = sm_sensors s" for i r
    using oblige_records [of r "filter (\<lambda>r. rs_status r \<noteq> Stopped) (sm_results u)" i u] that sub
    by (auto simp: obliged_def t oblige_unstopped_def key_of_def sensor_of_def)
  ultimately show ?thesis by (auto simp: t oblige_unstopped_def sensor_of_def)
qed

end
