(* ===== verification/Sensor_Obligations.thy ===== *)
theory Sensor_Obligations
  imports Sensor_Props
begin

text \<open>
  The life of a recovery obligation: over any run of the manager without a discovery an owed STOP stays
  recorded until it is confirmed; a discovery can hand the sensor that owes it to another device.
\<close>

section \<open>What a reconciliation reports\<close>

text \<open>Addresses stay and no measurement becomes pending.\<close>

definition waning :: "smanager \<Rightarrow> smanager \<Rightarrow> bool" where
  "waning s t \<longleftrightarrow> (\<forall>i. hs_address (sensor_of t i) = hs_address (sensor_of s i) \<and>
     (hs_measurement_cleanup_pending (sensor_of t i) \<longrightarrow> hs_measurement_cleanup_pending (sensor_of s i)))"

lemma waning_mild: "mild s t \<Longrightarrow> waning s t"
  by (simp add: mild_def waning_def sensor_of_def)

interpretation waning: sensor_relation "\<lambda>s t es. waning s t"
  by unfold_locales (auto simp: waning_def dest: waning_mild [unfolded waning_def])

lemma waningD: "related (\<lambda>s t es. waning s t) a \<Longrightarrow> a s = (t, es, x) \<Longrightarrow>
   \<not> hs_measurement_cleanup_pending (sensor_of s i) \<Longrightarrow> \<not> hs_measurement_cleanup_pending (sensor_of t i)"
  using relatedD [of "\<lambda>s t es. waning s t" a] by (auto simp: waning_def)

lemma call_stop_done: "call_stop_stream e (raise y) i s = (t, es, None) \<Longrightarrow> \<not> hs_measurement_cleanup_pending (sensor_of t i)"
  using call_stop_stream_result by blast

lemma reconcile_stop_done: "reconcile_stop e k i s = (t, es, None) \<Longrightarrow> \<not> hs_measurement_cleanup_pending (sensor_of t i)"
proof -
  assume a: "reconcile_stop e k i s = (t, es, None)"
  show ?thesis
  proof (cases "hs_measurement_cleanup_pending (sensor_of s i)")
    case True
    with a obtain u es' where "call_stop_stream e (raise ''TimeoutError'') i u = (t, es', None)"
      by (auto simp: reconcile_stop_def query_def dest!: seq_returned)
    then show ?thesis by (rule call_stop_done)
  qed (use a in \<open>simp add: reconcile_stop_def query_def skip_def\<close>)
qed

lemma try_finally_returned: "try_finally a b s = (t, es, None) \<Longrightarrow> \<exists>u fs gs. a s = (u, fs, None) \<and> b u = (t, gs, None)"
  by (auto simp: try_finally_def catch_def seq_def raise_def split: prod.splits option.splits)

lemma reconcile_sensor_done:
  assumes "reconcile_sensor e k i s = (t, es, None)" shows "\<not> hs_measurement_cleanup_pending (sensor_of t i)"
proof -
  define rest where "rest = seq (reconcile_disconnect e i)
       (modify i (\<lambda>h. set_client (\<lambda>c. c\<lparr>tc_sensor_cleanup := False\<rparr>) (h\<lparr>hs_connection_status := DISCONNECTED, hs_physical_stop_quarantined := False\<rparr>)))"
  from assms obtain u es0 where "try_finally (seq (reconcile_stop e k i) rest) (modify i (\<lambda>h. h\<lparr>hs_cleanup_in_progress := False\<rparr>)) u = (t, es0, None)"
    unfolding reconcile_sensor_def rest_def by (blast dest: seq_returned)
  from try_finally_returned [OF this] obtain w es1 es3 where b: "seq (reconcile_stop e k i) rest u = (w, es1, None)"
    and 3: "modify i (\<lambda>h. h\<lparr>hs_cleanup_in_progress := False\<rparr>) w = (t, es3, None)" by blast
  from seq_returned [OF b] obtain v es4 es2 where 1: "reconcile_stop e k i u = (v, es4, None)" and 2: "rest v = (w, es2, None)" by blast
  have "related (\<lambda>s t es. waning s t) rest" unfolding rest_def reconcile_disconnect_def
    by (intro waning.rel_seq waning.rel_query waning.rel_if waning.rel_sum waning.rel_raise waning.rel_bool waning.rel_modify waning.rel_skip)
      simp_all
  from waningD [OF this 2 reconcile_stop_done [OF 1]] 3 show ?thesis by (auto simp: modify_def upd_def)
qed

lemma reconcile_attempt_done:
  assumes "reconcile_attempt e q k iv i s = (t, es, None)" shows "\<not> hs_measurement_cleanup_pending (sensor_of t i)"
proof -
  define body where "body = (if key_of s i \<in> set (confirmed_keys q)
     then (if \<not> externally_stopped e q k iv (key_of s i) then raise ''External STOP confirmation requires a confirmed controlled BLE reset''
           else retire_after_external_stop e i)
     else reconcile_sensor e k i)"
  have "seq body (if sv_late e i then raise ''TimeoutError'' else skip) s = (t, es, None)"
    using assms unfolding reconcile_attempt_def query_apply body_def .
  from seq_returned [OF this] obtain fs where "body s = (t, fs, None)" by (auto simp: skip_def raise_def split: if_splits)
  then show ?thesis
    by (auto simp: body_def raise_def retire_after_external_stop_def modify_def upd_def dest!: seq_returned reconcile_sensor_done split: if_splits)
qed

text \<open>One result per sensor; an eligible sensor has no measurement pending.\<close>

definition settled :: "nat \<Rightarrow> smanager \<Rightarrow> smanager \<Rightarrow> bool" where
  "settled i s t \<longleftrightarrow> (\<exists>r. sm_results t = sm_results s @ [r] \<and> rs_address r = hs_address (sensor_of s i) \<and>
     (rs_eligible r \<longrightarrow> \<not> hs_measurement_cleanup_pending (sensor_of t i)))"

interpretation unreported: action_relation "\<lambda>s t es. sm_results t = sm_results s \<and> sm_current t = sm_current s"
  by unfold_locales auto

lemma unreported_modify: "related (\<lambda>s t es. sm_results t = sm_results s \<and> sm_current t = sm_current s) (modify i f)"
  unfolding modify_def by (rule unreported.rel_upd) (simp add: set_sensor_def)

lemma unreported_out: "related (\<lambda>s t es. sm_results t = sm_results s \<and> sm_current t = sm_current s) (out f)"
  by (rule unreported.rel_out) simp

lemma unreported_attempt: "related (\<lambda>s t es. sm_results t = sm_results s \<and> sm_current t = sm_current s) (reconcile_attempt e q k iv i)"
proof -
  have stop: "related (\<lambda>s t es. sm_results t = sm_results s \<and> sm_current t = sm_current s) (call_stop_stream e (raise y) i)" for y
    unfolding call_stop_stream_def stop_confirmed_def
    by (intro unreported.rel_query unreported.rel_if unreported.rel_raise unreported.rel_seq unreported_out)
      (auto split: stop_call.split intro!: unreported.rel_if unreported.rel_raise unreported.rel_seq unreported_out unreported_modify)
  show ?thesis
    unfolding reconcile_attempt_def retire_after_external_stop_def reconcile_sensor_def prepare_recovery_def reconcile_stop_def
      reconcile_disconnect_def reconnect_sensor_def try_finally_def Let_def
    by (intro unreported.rel_query unreported.rel_seq unreported.rel_if unreported.rel_raise unreported.rel_skip unreported.rel_option
        unreported.rel_sum unreported.rel_bool unreported.rel_pair unreported.rel_catch unreported_modify unreported_out stop)
qed

text \<open>The attempt inside \<open>reconcile_one\<close>, as it leaves the current result.\<close>

lemma reconcile_try:
  assumes "catch (seq (reconcile_attempt e q k iv i) (upd f)) (\<lambda>x. seq (quarantine i) (upd (g x))) s = (t, es, x)"
    and "\<And>s. sm_objects (f s) = sm_objects s \<and> sm_results (f s) = sm_results s \<and> rs_address (sm_current (f s)) = rs_address (sm_current s)"
    and "\<And>x s. sm_objects (g x s) = sm_objects s \<and> sm_results (g x s) = sm_results s \<and> rs_address (sm_current (g x s)) = rs_address (sm_current s) \<and>
       rs_eligible (sm_current (g x s)) = rs_eligible (sm_current s)"
  shows "x = None \<and> sm_results t = sm_results s \<and> rs_address (sm_current t) = rs_address (sm_current s) \<and>
     (rs_eligible (sm_current t) \<longrightarrow> rs_eligible (sm_current s) \<or> \<not> hs_measurement_cleanup_pending (sensor_of t i))"
proof -
  obtain u es1 x1 where a: "reconcile_attempt e q k iv i s = (u, es1, x1)" by (cases "reconcile_attempt e q k iv i s")
  note r = relatedD [OF unreported_attempt a]
  show ?thesis
  proof (cases x1)
    case None
    with a assms(1) have t: "t = f u" "x = None" by (auto simp: catch_def seq_def upd_def)
    have "\<not> hs_measurement_cleanup_pending (sensor_of t i)"
      using reconcile_attempt_done a None assms(2) [of u] by (simp add: t sensor_of_def)
    then show ?thesis using r assms(2) [of u] t by simp
  next
    case (Some y)
    with a assms(1) have t: "t = g y (set_sensor i (\<lambda>h. h\<lparr>hs_physical_stop_quarantined := True\<rparr>) u)" "x = None"
      by (auto simp: catch_def seq_def upd_def quarantine_def modify_def)
    then show ?thesis using r assms(3) [of y "set_sensor i (\<lambda>h. h\<lparr>hs_physical_stop_quarantined := True\<rparr>) u"]
      by (simp add: set_sensor_def)
  qed
qed

lemma reconcile_one_settles:
  assumes "reconcile_one e q k iv err i s = (t, es, x)"
  shows "x = None \<and> waning s t \<and> settled i s t"
proof -
  define s0 where "s0 = s\<lparr>sm_current := base_result s i\<rparr>"
  define attempt where "attempt = catch
     (seq (reconcile_attempt e q k iv i) (upd (\<lambda>s. s\<lparr>sm_current := (sm_current s)\<lparr>rs_status := Cleaned,
        rs_measurement_stop_confirmed := True, rs_eligible := True, rs_link_connected := Some False\<rparr>\<rparr>)))
     (\<lambda>x. seq (quarantine i) (upd (\<lambda>s. s\<lparr>sm_current := (sm_current s)\<lparr>rs_error := Some x,
        rs_measurement_stop_confirmed := \<not> hs_measurement_cleanup_pending (sensor_of s i)\<rparr>\<rparr>)))"
  define inner where "inner = (if key_of s i \<in> set (active_keys e)
     then set_current Failed (Some ''Sensor is actively acquiring; stop its subject before recovery'')
     else case err of Some y \<Rightarrow> set_current Unconfirmed (Some y)
      | None \<Rightarrow> if sv_expired e i then set_current Unconfirmed (Some ''Recovery deadline reached; retry Reset'') else attempt)"
  have run: "seq inner (push_current i) s0 = (t, es, x)"
    using assms unfolding reconcile_one_def query_apply seq_upd inner_def attempt_def s0_def .
  have base: "sm_results s0 = sm_results s" "rs_address (sm_current s0) = hs_address (sensor_of s i)" "\<not> rs_eligible (sm_current s0)"
    by (simp_all add: s0_def base_result_def new_result_def)
  obtain u es1 x1 where u: "inner s0 = (u, es1, x1)" by (cases "inner s0")
  have "x1 = None \<and> sm_results u = sm_results s \<and> rs_address (sm_current u) = hs_address (sensor_of s i) \<and>
     (rs_eligible (sm_current u) \<longrightarrow> \<not> hs_measurement_cleanup_pending (sensor_of u i))"
  proof (cases "key_of s i \<in> set (active_keys e) \<or> err \<noteq> None \<or> sv_expired e i")
    case True
    then have "\<exists>st y. inner s0 = set_current st y s0" by (auto simp: inner_def split: option.split)
    with u base show ?thesis by (auto simp: set_current_def upd_def)
  next
    case False
    with u have "attempt s0 = (u, es1, x1)" by (simp add: inner_def)
    from reconcile_try [OF this [unfolded attempt_def]] base show ?thesis by simp
  qed
  moreover from this run u have "t = u\<lparr>sm_results := sm_results u @ [(sm_current u)\<lparr>rs_link_connected :=
     (case rs_link_connected (sm_current u) of None \<Rightarrow> Some (is_connected (sensor_of u i)) | Some b \<Rightarrow> Some b)\<rparr>]\<rparr>" "x = None"
    by (auto simp: seq_def push_current_def upd_def)
  ultimately show ?thesis using relatedD [OF waning.rel_reconcile_one assms] by (simp add: settled_def sensor_of_def)
qed

definition all_settled :: "nat list \<Rightarrow> smanager \<Rightarrow> bool" where
  "all_settled is s \<longleftrightarrow> (\<forall>r \<in> set (sm_results s). \<exists>i \<in> set is. rs_address r = hs_address (sensor_of s i) \<and>
     (rs_eligible r \<longrightarrow> \<not> hs_measurement_cleanup_pending (sensor_of s i)))"

lemma all_settled_waning: "all_settled is s \<Longrightarrow> waning s t \<Longrightarrow> sm_results t = sm_results s \<Longrightarrow> all_settled is t"
  by (simp add: all_settled_def waning_def) blast

lemma all_settled_one: "all_settled is s \<Longrightarrow> i \<in> set is \<Longrightarrow> waning s t \<Longrightarrow> settled i s t \<Longrightarrow> all_settled is t"
  unfolding all_settled_def waning_def settled_def by (auto 0 3)

lemma all_settled_ones:
  "for_each js (reconcile_one e q k iv err) s = (t, es, x) \<Longrightarrow> set js \<subseteq> set is \<Longrightarrow> all_settled is s \<Longrightarrow> all_settled is t \<and> x = None"
proof (induction js arbitrary: s es)
  case (Cons j js)
  obtain u es1 x1 where 1: "reconcile_one e q k iv err j s = (u, es1, x1)" by (cases "reconcile_one e q k iv err j s")
  note a = reconcile_one_settles [OF 1]
  obtain es2 where "for_each js (reconcile_one e q k iv err) u = (t, es2, x)" using Cons.prems(1) 1 a by (auto simp: seq_def split: prod.splits)
  from Cons.IH [OF this] all_settled_one [of "is" s j u] a Cons.prems show ?case by auto
qed (simp add: skip_def)

lemma adopt_one:
  "adopt_recovery_client e k i s = (t, es, x) \<Longrightarrow> x = None \<and> waning s t \<and> sm_results t = sm_results s"
  by (auto simp: adopt_recovery_client_def query_def modify_def upd_def skip_def waning_def split: if_splits)

lemma adopt_all:
  "for_each js (adopt_recovery_client e k) s = (t, es, x) \<Longrightarrow> x = None \<and> waning s t \<and> sm_results t = sm_results s"
proof (induction js arbitrary: s es)
  case (Cons j js)
  obtain u fs y where u: "adopt_recovery_client e k j s = (u, fs, y)" by (cases "adopt_recovery_client e k j s")
  note a = adopt_one [OF this]
  obtain gs where "for_each js (adopt_recovery_client e k) u = (t, gs, x)" using Cons.prems u a by (auto simp: seq_def split: prod.splits)
  from Cons.IH [OF this] a waning.composed [of s u t] show ?case by auto
qed (auto simp: skip_def waning_def)

lemma all_settled_group:
  assumes "reconcile_group e q g s = (t, es, x)" "set (snd g) \<subseteq> set is" "all_settled is s" shows "all_settled is t \<and> x = None"
proof -
  obtain k js where g: "g = (k, js)" by (cases g)
  show ?thesis
  proof (cases "sv_has_method e k ''recover_connections''")
    case True
    obtain iv err where r: "recover_gateway e q k = (iv, err)" by (cases "recover_gateway e q k")
    define s1 where "s1 = (\<lambda>u. (relink e k u)\<lparr>sm_gateways := sm_gateways (relink e k u) @ [iv]\<rparr>)"
    have "seq (for_each js (adopt_recovery_client e k)) (seq (upd (relink e k))
          (seq (upd (\<lambda>s. s\<lparr>sm_gateways := sm_gateways s @ [iv]\<rparr>)) (for_each js (reconcile_one e q k iv err)))) s = (t, es, x)"
      using assms(1) True by (simp add: reconcile_group_def g r)
    moreover note adopt_all [of js e k s]
    ultimately obtain u fs es2 where u: "waning s u" "sm_results u = sm_results s"
      and f: "for_each js (reconcile_one e q k iv err) (s1 u) = (t, es2, x)"
      by (cases "for_each js (adopt_recovery_client e k) s") (auto simp: seq_def [of "for_each _ _"] seq_upd s1_def split: prod.splits option.splits)
    have "waning u (s1 u)" by (auto simp: s1_def waning_def relink_def sensor_of_def)
    with u have "all_settled is (s1 u)"
      using all_settled_waning [OF assms(3), of "s1 u"] waning.composed [of s u "s1 u"] by (simp add: s1_def relink_def)
    from all_settled_ones [OF f _ this] assms(2) g show ?thesis by simp
  next
    case False
    with assms all_settled_ones [of js e q k None None s t es x "is"] show ?thesis by (simp add: reconcile_group_def g)
  qed
qed

lemma all_settled_groups:
  "for_each gs (reconcile_group e q) s = (t, es, x) \<Longrightarrow> (\<And>g. g \<in> set gs \<Longrightarrow> set (snd g) \<subseteq> set is) \<Longrightarrow> all_settled is s \<Longrightarrow> all_settled is t"
proof (induction gs arbitrary: s es)
  case (Cons g gs)
  obtain u fs y where u: "reconcile_group e q g s = (u, fs, y)" by (cases "reconcile_group e q g s")
  have a: "all_settled is u \<and> y = None" using all_settled_group [OF u, of "is"] Cons.prems(2,3) by simp
  obtain hs where "for_each gs (reconcile_group e q) u = (t, hs, x)" using Cons.prems(1) u a by (auto simp: seq_def split: prod.splits)
  from Cons.IH [OF this] a Cons.prems(2) show ?case by simp
qed (simp add: skip_def)

lemma in_groups: "g \<in> set (groups s is) \<Longrightarrow> set (snd g) \<subseteq> set is"
  by (auto simp: groups_def)

lemma reconcile_all_settled:
  assumes "reconcile e q is s = (t, es, None)" shows "all_settled is t"
proof -
  define s0 where "s0 = s\<lparr>sm_results := [], sm_gateways := []\<rparr>"
  have "seq (for_each (map (adapter_of s0) is) (get_or_create e)) (query (\<lambda>s. for_each (groups s0 is @ map (\<lambda>k. (k, []))
      (filter (\<lambda>k. k \<notin> fst ` set (groups s0 is)) (sm_adapters s))) (reconcile_group e q))) s0 = (t, es, None)"
    using assms unfolding reconcile_def seq_upd group_sensors_then_def query_apply s0_def .
  from seq_returned [OF this] obtain u fs hs where u: "for_each (map (adapter_of s0) is) (get_or_create e) s0 = (u, fs, None)"
    and t: "for_each (groups s0 is @ map (\<lambda>k. (k, [])) (filter (\<lambda>k. k \<notin> fst ` set (groups s0 is)) (sm_adapters u))) (reconcile_group e q) u = (t, hs, None)"
    unfolding query_apply by blast
  have "steady s0 u" using relatedD [OF steady.rel_for_each [OF steady_get_or_create] u] .
  then have "all_settled is u" by (simp add: steady_def all_settled_def s0_def)
  then show ?thesis by (intro all_settled_groups [OF t]) (auto dest: in_groups)
qed

section \<open>An owed STOP\<close>

declare map_of_eq_Some_iff [simp del] Some_eq_map_of_iff [simp del]

text \<open>Obligations that name a sensor are recorded under its address.\<close>

definition matched_keys :: "smanager \<Rightarrow> (string, nat option) dict \<Rightarrow> bool" where
  "matched_keys s d \<longleftrightarrow> distinct (dkeys d) \<and> (\<forall>a j. map_of d a = Some (Some j) \<longrightarrow> key_of s j = a)"

lemma matched_keysD: "matched_keys s d \<Longrightarrow> map_of d a = Some (Some j) \<Longrightarrow> key_of s j = a" "matched_keys s d \<Longrightarrow> distinct (dkeys d)"
  by (auto simp: matched_keys_def)

lemma matched_keys_dput: "matched_keys s d \<Longrightarrow> (\<And>j. x = Some j \<Longrightarrow> key_of s j = b) \<Longrightarrow> matched_keys s (dput b x d)"
  by (simp add: matched_keys_def)

definition well_keyed :: "smanager \<Rightarrow> bool" where
  "well_keyed s \<longleftrightarrow> distinct (dkeys (sm_recovery_obligations s)) \<and>
     (\<forall>a j. map_of (sm_recovery_obligations s) a = Some (Some j) \<longrightarrow> key_of s j = a)"

text \<open>The STOP that sensor \<open>i\<close> owes under address \<open>a\<close>; no other sensor, installed or to be installed (\<open>N\<close>), has that
  address.\<close>

definition owes :: "nat set \<Rightarrow> string \<Rightarrow> nat \<Rightarrow> smanager \<Rightarrow> bool" where
  "owes N a i s \<longleftrightarrow> well_keyed s \<and> map_of (sm_recovery_obligations s) a = Some (Some i) \<and>
     hs_measurement_cleanup_pending (sensor_of s i) \<and> (\<forall>j \<in> set (sm_sensors s) \<union> N. key_of s j = a \<longrightarrow> j = i)"

definition kept :: "nat set \<Rightarrow> string \<Rightarrow> nat \<Rightarrow> smanager \<Rightarrow> smanager \<Rightarrow> seffect list \<Rightarrow> bool" where
  "kept N a i s t es \<longleftrightarrow> owes N a i s \<longrightarrow> owes N a i t \<or> (\<exists>f \<in> set es. confirms i f)"

lemma owes_same:
  assumes "owes N a i s" "sm_recovery_obligations t = sm_recovery_obligations s" "set (sm_sensors t) \<subseteq> set (sm_sensors s) \<union> N"
    and "\<And>j. hs_address (sensor_of t j) = hs_address (sensor_of s j)"
    and "hs_measurement_cleanup_pending (sensor_of s i) \<Longrightarrow> hs_measurement_cleanup_pending (sensor_of t i)"
  shows "owes N a i t"
  using assms by (auto simp: owes_def well_keyed_def key_of_def)

lemma owes_mild: "mild s t \<Longrightarrow> owes N a i s \<Longrightarrow> owes N a i t"
  by (erule owes_same) (auto simp: mild_def sensor_of_def)

lemma owes_set_sensor:
  "owes N a i s \<Longrightarrow> (\<And>h. hs_address (f h) = hs_address h) \<Longrightarrow> (\<And>h. j = i \<Longrightarrow> hs_measurement_cleanup_pending h \<Longrightarrow> hs_measurement_cleanup_pending (f h)) \<Longrightarrow>
   owes N a i (set_sensor j f s)"
  by (erule owes_same) auto

lemma kept_use: "sensor_use (kept N a i) UNIV"
proof unfold_locales
  show "kept N a i s (set_sensor j (\<lambda>h. g (h\<lparr>hs_measurement_cleanup_pending := False\<rparr>)) s) [StopConfirmed j]"
    if "\<And>h. hs_address (g h) = hs_address h \<and> hs_measurement_cleanup_pending (g h) = hs_measurement_cleanup_pending h" for s j g
    using that by (cases "j = i") (auto simp: kept_def confirms_def intro: owes_set_sensor)
  show "kept N a i s (set_sensor j (\<lambda>h. h\<lparr>hs_measurement_cleanup_pending := False, hs_physical_stop_quarantined := False,
        hs_connection_status := DISCONNECTED\<rparr>) s) [OperatorConfirmed j]" for s j
    by (cases "j = i") (auto simp: kept_def confirms_def intro: owes_set_sensor)
  show "kept N a i s (set_sensor j (\<lambda>h. set_client c (h\<lparr>hs_measurement_cleanup_pending := True\<rparr>)) s) []" for s j c
    by (auto simp: kept_def intro: owes_set_sensor)
qed (auto simp: kept_def dest: owes_mild)

lemmas kept_sensor = sensor_use.axioms(1) [OF kept_use]
lemmas kept_action = sensor_relation.axioms(1) [OF kept_sensor]
lemmas kept_intros = action_relation.rel_skip [OF kept_action] action_relation.rel_raise [OF kept_action] action_relation.rel_query [OF kept_action]
  action_relation.rel_if [OF kept_action] action_relation.rel_option [OF kept_action] action_relation.rel_sum [OF kept_action]
  action_relation.rel_pair [OF kept_action] action_relation.rel_seq [OF kept_action] action_relation.rel_catch [OF kept_action]
  action_relation.rel_for_each [OF kept_action] sensor_relation.rel_try_finally [OF kept_sensor] sensor_relation.rel_group [OF kept_sensor]

lemma kept_upd: "(\<And>s. owes N a i s \<Longrightarrow> owes N a i (f s)) \<Longrightarrow> related (kept N a i) (upd f)"
  by (rule action_relation.rel_upd [OF kept_action]) (simp add: kept_def)

text \<open>New obligations do not displace an owed one.\<close>

lemma owes_oblige: "owes N a i s \<Longrightarrow> owes N a i (oblige r s)"
proof (cases "first_with_address s (rs_address r)")
  case (Some j)
  assume o: "owes N a i s"
  from Some have j: "j \<in> set (sm_sensors s)" "key_of s j = address_key (rs_address r)"
    by (auto simp: first_with_address_def key_of_def find_Some_iff in_set_conv_nth)
  have "address_key (rs_address r) = a \<Longrightarrow> j = i" using o j by (auto simp: owes_def)
  with o j Some show ?thesis by (auto simp: owes_def well_keyed_def oblige_def key_of_def sensor_of_def)
qed (simp add: oblige_def)

lemma owes_obliges: "owes N a i s \<Longrightarrow> owes N a i (fold oblige rs s)"
  by (induction rs arbitrary: s) (auto intro: owes_oblige)

lemma kept_emit: "\<not> (\<exists>j. uses j f \<or> confirms j f) \<Longrightarrow> related (kept N a i) (emit_to_client e f)"
  unfolding emit_to_client_def
  by (intro kept_intros kept_upd action_relation.rel_out [OF kept_action])
    (auto simp: kept_def oblige_unfinished_def owes_obliges owes_mild [OF gentle_capture(2)] split: seffect.split)

section \<open>Recovery\<close>

lemma targets_matched: "well_keyed s \<Longrightarrow> matched_keys s (recovery_targets q s)"
proof -
  assume w: "well_keyed s"
  have 1: "matched_keys s d \<Longrightarrow> matched_keys s (fold (\<lambda>i d. dput (key_of s i) (Some i) d) is d)" for "is" d
    by (induction "is" arbitrary: d) (auto intro: matched_keys_dput)
  have 2: "matched_keys s d \<Longrightarrow> (\<And>b j. (b, Some j) \<in> set xs \<Longrightarrow> key_of s j = b) \<Longrightarrow> matched_keys s (fold (\<lambda>(a, x) d. dput a x d) xs d)" for xs d
  proof (induction xs arbitrary: d)
    case (Cons bx xs)
    obtain b x where bx: "bx = (b, x)" by (cases bx)
    have "matched_keys s (dput b x d)" by (rule matched_keys_dput [OF Cons.prems(1)]) (use Cons.prems(2) bx in auto)
    from Cons.IH [OF this] Cons.prems(2) show ?case unfolding bx by simp
  qed simp
  have "key_of s j = b" if "(b, Some j) \<in> set (sm_recovery_obligations s)" for b j
    using w that unfolding well_keyed_def by (blast intro: map_of_is_SomeI)
  moreover have "matched_keys s []" by (simp add: matched_keys_def)
  ultimately show ?thesis unfolding recovery_targets_def by (intro 2 1) auto
qed

lemma target_of_owed: "owes N a i s \<Longrightarrow> map_of (recovery_targets q s) a = (if requested_key q a then Some (Some i) else None)"
proof -
  assume o: "owes N a i s"
  have f: "map_of (fold (\<lambda>(b, x) d. dput b x d) xs d) a = (case map_of xs a of Some x \<Rightarrow> Some x | None \<Rightarrow> map_of d a)"
    if "distinct (dkeys xs)" for xs and d :: "(string, nat option) dict"
    using that
  proof (induction xs arbitrary: d)
    case (Cons bx xs)
    obtain b x where bx: "bx = (b, x)" by (cases bx)
    have "b = a \<Longrightarrow> map_of xs a = None" using Cons.prems by (auto simp: bx map_of_eq_None_iff)
    with Cons.IH [of "dput b x d"] Cons.prems show ?case by (cases "b = a") (auto simp: bx split: option.split)
  qed simp
  have g: "requested_key q a \<or> map_of (fold (\<lambda>i d. dput (key_of s i) (Some i) d) (filter (\<lambda>i. has_address s i \<and> requested_key q (key_of s i)) is) d) a = map_of d a"
    for "is" and d :: "(string, nat option) dict"
  proof (induction "is" arbitrary: d)
    case (Cons j js)
    show ?case using Cons.IH [of d] Cons.IH [of "dput (key_of s j) (Some j) d"] by (cases "key_of s j = a") auto
  qed simp
  have h: "map_of (filter (\<lambda>(a, _). requested_key q a) (sm_recovery_obligations s)) a = (if requested_key q a then Some (Some i) else None)"
    using o by (auto simp: owes_def well_keyed_def map_of_eq_None_iff map_of_eq_Some_iff distinct_map_filter)
  have "distinct (dkeys (filter (\<lambda>(a, _). requested_key q a) (sm_recovery_obligations s)))"
    using o by (auto simp: owes_def well_keyed_def distinct_map_filter)
  from f [OF this] g [of "sm_sensors s" "[]"] show ?thesis unfolding recovery_targets_def h by (auto split: if_splits)
qed

lemma owes_settle:
  assumes "owes N a i s" "\<And>b j. map_of targets b = Some (Some j) \<Longrightarrow> key_of s j = b" "map_of targets a \<in> {None, Some (Some i)}"
    and "address_key (rs_address r) = a \<Longrightarrow> \<not> rs_eligible r"
  shows "owes N a i (settle_result targets r s)" and "key_of (settle_result targets r s) j = key_of s j"
proof -
  have key: "key_of (set_sensor k (\<lambda>h. h\<lparr>hs_plugin_client := False\<rparr>) u) j = key_of u j" for k u j by (simp add: key_of_def)
  have same: "key_of (s\<lparr>sm_recovery_obligations := d\<rparr>) j = key_of s j" for d j by (simp add: key_of_def sensor_of_def)
  show "key_of (settle_result targets r s) j = key_of s j"
    by (auto simp: settle_result_def Let_def key same split: option.split)
  have pop: "owes N a i (s\<lparr>sm_recovery_obligations := dpop b (sm_recovery_obligations s)\<rparr>)" if "b \<noteq> a" for b
    using assms(1) that by (auto simp: owes_def well_keyed_def key_of_def sensor_of_def)
  have popped: "owes N a i (set_sensor k (\<lambda>h. h\<lparr>hs_plugin_client := False\<rparr>) (s\<lparr>sm_recovery_obligations := dpop b (sm_recovery_obligations s)\<rparr>))"
    if "b \<noteq> a" for b k by (rule owes_set_sensor [OF pop [OF that]]) simp_all
  have put: "owes N a i (s\<lparr>sm_recovery_obligations := dput b t (sm_recovery_obligations s)\<rparr>)" if "map_of targets b = Some t" for b t
    using assms(1-3) that by (auto simp: owes_def well_keyed_def key_of_def sensor_of_def)
  show "owes N a i (settle_result targets r s)"
  proof (cases "rs_eligible r")
    case True
    with assms(4) have "address_key (rs_address r) \<noteq> a" by blast
    then show ?thesis using True pop popped by (simp add: settle_result_def Let_def split: option.split)
  next
    case False
    then show ?thesis using assms(1) put by (simp add: settle_result_def Let_def split: option.split)
  qed
qed

lemma owes_settles:
  assumes "owes N a i s" "\<And>b j. map_of targets b = Some (Some j) \<Longrightarrow> key_of s j = b" "map_of targets a \<in> {None, Some (Some i)}"
    and "\<And>r. r \<in> set rs \<Longrightarrow> address_key (rs_address r) = a \<Longrightarrow> \<not> rs_eligible r"
  shows "owes N a i (fold (settle_result targets) rs s)"
  using assms
proof (induction rs arbitrary: s)
  case (Cons r rs)
  note n = owes_settle [OF Cons.prems(1-3), of r]
  show ?case using Cons.IH [of "settle_result targets r s"] n Cons.prems by simp
qed simp

text \<open>A loop over the results settles the first of them, all unless it raises.\<close>

lemma settle_loop: "for_each rs (settle_one T) u = (v, gs, z) \<Longrightarrow> gs = [] \<and> (\<exists>n. v = fold (settle_result T) (take n rs) u)"
proof (induction rs arbitrary: u gs)
  case (Cons r rs)
  show ?case
  proof (cases "map_of T (address_key (rs_address r)) = None")
    case True
    with Cons.prems show ?thesis
      by (auto simp: settle_one_def seq_def upd_def raise_def intro!: exI [of _ 1])
  next
    case False
    then have "settle_one T r u = (settle_result T r u, [], None)" by (auto simp: settle_one_def seq_def upd_def skip_def)
    with Cons.prems have "for_each rs (settle_one T) (settle_result T r u) = (v, gs, z)" by (simp add: seq_def split: prod.splits)
    from Cons.IH [OF this] obtain n where "gs = []" "v = fold (settle_result T) (take n rs) (settle_result T r u)" by blast
    then show ?thesis by (auto intro!: exI [of _ "Suc n"])
  qed
qed (auto simp: skip_def)

lemma owes_foreign_links: "owes N a i s \<Longrightarrow> owes N a i (note_foreign_links e targets s)"
proof -
  assume o: "owes N a i s"
  let ?add = "\<lambda>b (d :: (string, nat option) dict). if map_of d b = None then d @ [(b, None)] else d"
  have add: "map_of (?add b d) c = (if map_of d c = None \<and> c = b then Some None else map_of d c)" for b d c
    by (auto simp: map_add_def split: option.split)
  have all: "distinct (dkeys d) \<Longrightarrow> distinct (dkeys (fold ?add bs d)) \<and> (\<forall>c x. map_of d c = Some x \<longrightarrow> map_of (fold ?add bs d) c = Some x) \<and>
      (\<forall>c j. map_of (fold ?add bs d) c = Some (Some j) \<longrightarrow> map_of d c = Some (Some j))" for bs d
  proof (induction bs arbitrary: d)
    case (Cons b bs)
    have "distinct (dkeys (?add b d))" using Cons.prems by (auto simp: map_of_eq_None_iff)
    note i = Cons.IH [OF this]
    have f: "map_of d c = Some x \<Longrightarrow> map_of (?add b d) c = Some x" "map_of (?add b d) c = Some (Some j) \<Longrightarrow> map_of d c = Some (Some j)" for c x j
      by (auto simp only: add split: if_splits)
    show ?case unfolding fold_Cons comp_apply using i f by blast
  qed simp
  have d: "distinct (dkeys (sm_recovery_obligations s))" using o by (simp add: owes_def well_keyed_def)
  note n = all [OF d]
  let ?t = "note_foreign_links e targets s"
  have k: "key_of ?t j = key_of s j" "sensor_of ?t j = sensor_of s j" "sm_sensors ?t = sm_sensors s" for j
    by (simp_all add: note_foreign_links_def key_of_def sensor_of_def)
  obtain bs where ob: "sm_recovery_obligations ?t = fold ?add bs (sm_recovery_obligations s)" by (simp add: note_foreign_links_def)
  have w: "key_of s j = c" if "map_of (sm_recovery_obligations s) c = Some (Some j)" for c j
    using o that unfolding owes_def well_keyed_def by blast
  have "well_keyed ?t" unfolding well_keyed_def ob k using n [of bs] w by blast
  moreover have "map_of (sm_recovery_obligations ?t) a = Some (Some i)" unfolding ob using o n [of bs] unfolding owes_def by blast
  ultimately show ?thesis using o by (simp add: owes_def k)
qed

lemma owes_settle_foreign: "owes N a i s \<Longrightarrow> owes N a i (fold (settle_foreign q) bs s)"
proof (induction bs arbitrary: s)
  case (Cons b bs)
  have "owes N a i (settle_foreign q b s)"
    using Cons.prems by (auto simp: settle_foreign_def owes_def well_keyed_def key_of_def sensor_of_def)
  with Cons.IH show ?case by simp
qed simp

lemma kept_recover: "related (kept N a i) (recover_sensors e q)"
proof -
  have "kept N a i s t es" if run: "recover_sensors e q s = (t, es, x)" for s t es x
  proof -
    let ?T = "recovery_targets q s"
    let ?ids = "List.map_filter id (dvalues ?T)"
    obtain u fs y where u: "reconcile e q ?ids s = (u, fs, y)" by (cases "reconcile e q ?ids s")
    have k: "kept N a i s u fs" by (rule relatedD [OF sensor_relation.rel_reconcile [OF kept_sensor] u])
    show ?thesis
    proof (cases y)
      case (Some z)
      with run u k show ?thesis by (simp add: recover_sensors_def query_def Let_def seq_def)
    next
      case None
      obtain v gs z where v: "for_each (sm_results u) (settle_one ?T) u = (v, gs, z)" by (cases "for_each (sm_results u) (settle_one ?T) u")
      from settle_loop [OF v] obtain n where gs: "gs = []" and vn: "v = fold (settle_result ?T) (take n (sm_results u)) u" by blast
      have te: "(t = v \<or> t = fold (settle_foreign q) (dkeys (sm_recovery_obligations (note_foreign_links e ?T v))) (note_foreign_links e ?T v)) \<and> es = fs"
        using run u v gs None by (cases z) (auto simp: recover_sensors_def query_def Let_def seq_def upd_def)
      have "owes N a i t" if o: "owes N a i s" and ou: "owes N a i u"
      proof -
        have wan: "waning s u" using relatedD [OF waning.rel_reconcile u] .
        then have key: "key_of u j = key_of s j" for j by (simp add: waning_def key_of_def)
        have w: "matched_keys s ?T" using o by (intro targets_matched) (simp add: owes_def)
        have keyT: "key_of u j = b" if "map_of ?T b = Some (Some j)" for b j using matched_keysD(1) [OF w that] by (simp only: key)
        have "\<not> rs_eligible r" if r: "r \<in> set (sm_results u)" "address_key (rs_address r) = a" for r
        proof -
          have "all_settled ?ids u" using reconcile_all_settled u None by simp
          with r obtain j where j: "j \<in> set ?ids" "rs_address r = hs_address (sensor_of u j)"
            "rs_eligible r \<Longrightarrow> \<not> hs_measurement_cleanup_pending (sensor_of u j)" by (auto simp: all_settled_def)
          then obtain b where "(b, Some j) \<in> set ?T" by (auto simp: map_filter_def)
          then have b: "map_of ?T b = Some (Some j)" using matched_keysD(2) [OF w] by (rule map_of_is_SomeI [rotated])
          moreover have "key_of u j = a" using j(2) r(2) by (simp add: key_of_def)
          ultimately have "b = a" using keyT by blast
          with b target_of_owed [OF o, of q] have "j = i" by (simp split: if_splits)
          with j(3) ou show ?thesis by (auto simp: owes_def)
        qed
        then have "owes N a i v"
          using target_of_owed [OF o, of q] unfolding vn
          by (intro owes_settles [OF ou]) (auto dest: keyT in_set_takeD split: if_splits)
        then show ?thesis using te by (auto intro: owes_settle_foreign owes_foreign_links)
      qed
      with k te show ?thesis by (auto simp: kept_def)
    qed
  qed
  then show ?thesis by (auto simp: related_def)
qed

section \<open>Configuration\<close>

lemma owes_sensors: "owes N a i s \<Longrightarrow> set (sm_sensors t) \<subseteq> set (sm_sensors s) \<union> N \<Longrightarrow> sm_objects t = sm_objects s \<Longrightarrow>
   sm_recovery_obligations t = sm_recovery_obligations s \<Longrightarrow> owes N a i t"
  by (erule owes_same) (simp_all add: sensor_of_def)

lemma owes_retain: "owes N a i s \<Longrightarrow> owes N a i (fold retain_obligation js s)"
proof (induction js arbitrary: s)
  case (Cons j js)
  have "owes N a i (retain_obligation j s)"
    using Cons.prems by (auto simp: retain_obligation_def owes_def well_keyed_def obliged_def key_of_def sensor_of_def Let_def)
  with Cons.IH show ?case by simp
qed simp

lemma owes_fold: "(\<And>j s. owes N a i s \<Longrightarrow> owes N a i (f j s)) \<Longrightarrow> owes N a i s \<Longrightarrow> owes N a i (fold f js s)"
  by (induction js arbitrary: s) auto

lemma owes_retire: "owes N a i s \<Longrightarrow> owes N a i (fold retire_one js s)"
  by (rule owes_fold) (auto simp: retire_one_def intro!: owes_set_sensor)

lemma owes_cleaning: "owes N a i s \<Longrightarrow> owes N a i (set_cleaning js flag s)"
  unfolding set_cleaning_def by (rule owes_fold) (auto intro!: owes_set_sensor)

lemma kept_modify: "(\<And>h. hs_address (f h) = hs_address h) \<Longrightarrow> (\<And>h. hs_measurement_cleanup_pending (f h) = hs_measurement_cleanup_pending h) \<Longrightarrow>
   related (kept N a i) (modify j f)"
  by (rule sensor_relation.rel_modify [OF kept_sensor])

lemma kept_install: "set is \<subseteq> N \<Longrightarrow> related (kept N a i) (install_sensor_configuration e is)"
  unfolding install_sensor_configuration_def install_one_def
proof (intro kept_intros kept_modify sensor_relation.rel_get_or_create [OF kept_sensor] kept_upd)
  show "owes N a i (s\<lparr>sm_sensors := sm_sensors s @ [j]\<rparr>)" if "set is \<subseteq> N" "j \<in> set is" "owes N a i s" for s j
    by (rule owes_sensors [OF that(3)]) (use that in auto)
qed simp_all

lemma kept_disconnect: "related (kept N a i) (service_disconnect e js)"
  unfolding service_disconnect_def disconnect_one_def by (intro kept_intros kept_modify) simp_all

lemma owes_widen: "owes N a i s \<longleftrightarrow> owes (N \<union> set (sm_sensors s)) a i s"
  by (auto simp: owes_def)

lemma owes_narrow: "owes (N \<union> M) a i s \<Longrightarrow> owes N a i s"
  by (auto simp: owes_def)

text \<open>A reconfiguration that fails brings the previous sensors back; they count as sensors to be installed.\<close>

lemma kept_reinitialize: "set is \<subseteq> N \<Longrightarrow> related (kept N a i) (reinitialize_sensor_manager e is)"
proof -
  assume n: "set is \<subseteq> N"
  define work where "work = (\<lambda>previous flag. seq (upd (fold retain_obligation previous))
     (seq (upd (set_cleaning previous (\<lambda>_. True)))
       (try_finally (catch (reinitialize_body e previous is) (\<lambda>x. seq (upd (\<lambda>s. s\<lparr>sm_sensors := previous\<rparr>)) (raise x)))
         (upd (set_cleaning previous flag)))))"
  have body: "related (kept M a i) (work previous flag)" if "set is \<subseteq> M" "set previous \<subseteq> M" for M previous flag
  proof -
    have set: "owes M a i (s\<lparr>sm_sensors := previous\<rparr>)" "owes M a i (s\<lparr>sm_sensors := [], sm_adapters := ks\<rparr>)" if "owes M a i s" for s ks
      by (rule owes_sensors [OF that]; use \<open>set previous \<subseteq> M\<close> in auto)+
    show ?thesis unfolding work_def reinitialize_body_def Let_def
      by (intro kept_intros kept_upd kept_disconnect kept_install [OF that(1)] owes_retain owes_cleaning owes_retire set)
  qed
  have "kept N a i s t es" if "reinitialize_sensor_manager e is s = (t, es, x)" for s t es x
  proof -
    have "work (sm_sensors s) (\<lambda>i. hs_cleanup_in_progress (sensor_of s i)) s = (t, es, x)"
      using that unfolding reinitialize_sensor_manager_def query_apply Let_def work_def .
    from relatedD [OF body this, of "N \<union> set (sm_sensors s)"] n
    show ?thesis by (auto simp: kept_def dest: owes_narrow owes_widen [THEN iffD1])
  qed
  then show ?thesis by (auto simp: related_def)
qed

section \<open>Runs\<close>

text \<open>Inputs that discover nothing and install only sensors of \<open>N\<close>.\<close>

fun without_discovery :: "nat set \<Rightarrow> sinput \<Rightarrow> bool" where
  "without_discovery N (Message m) = (case ms_command m of Discover \<Rightarrow> False | DiscoverForSubject _ _ \<Rightarrow> False | DiscoverAndConnect \<Rightarrow> False
     | Reinitialize is \<Rightarrow> set is \<subseteq> N | _ \<Rightarrow> True)"
| "without_discovery N (Initialize is) = (set is \<subseteq> N)"
| "without_discovery N _ = True"

lemma kept_cleanup: "related (kept N a i) (controller_cleanup e is)"
  unfolding controller_cleanup_def
  by (intro kept_intros sensor_relation.rel_service_cleanup [OF kept_sensor] kept_emit) (simp_all add: uses_def confirms_def)

lemma kept_connects: "related (kept N a i) (service_connect_all e is)" "related (kept N a i) (connect_specific e is)"
  unfolding service_connect_all_def connect_specific_def ensure_reconciled_def
  by (intro kept_intros kept_upd sensor_use.rel_connect_sensors [OF kept_use]; auto elim: owes_sensors)+

lemma kept_streaming: "related (kept N a i) (streaming_start e is)" "related (kept N a i) (streaming_stop e is)"
  by (rule sensor_use.rel_streaming_start [OF kept_use] sensor_relation.rel_streaming_stop [OF kept_sensor], simp?)+

lemma kept_stop_end: "related (kept N a i) (upd oblige_unstopped)" "related (kept N a i) (routing_stuck is)"
  unfolding routing_stuck_def oblige_unstopped_def
  by (intro kept_intros kept_upd owes_obliges sensor_relation.rel_quarantine [OF kept_sensor] sensor_relation.rel_push_result [OF kept_sensor];
      auto elim: owes_sensors)+

lemma kept_handle: "without_discovery N (Message m) \<Longrightarrow> related (kept N a i) (handle_command e (ms_command m))"
  by (cases "ms_command m")
    (auto intro!: kept_intros kept_reinitialize kept_recover kept_cleanup kept_connects kept_streaming kept_stop_end
      sensor_relation.rel_handle_identify [OF kept_sensor] split: option.split)

lemma kept_input: "without_discovery N x \<Longrightarrow> related (kept N a i) (manager_input e x)"
proof (cases x)
  case (Message m)
  assume h: "without_discovery N x"
  have f: "related (kept N a i) (command_failed e m y)" for y
    unfolding command_failed_def by (auto intro!: kept_intros kept_emit simp: uses_def confirms_def split: scommand.split)
  show ?thesis using h unfolding Message manager_input.simps manager_step_def
    by (intro kept_intros kept_handle f kept_upd) (auto elim: owes_sensors)
next
  case (Initialize "is")
  assume h: "without_discovery N x"
  then have n: "set is \<subseteq> N" by (simp add: Initialize)
  show ?thesis unfolding Initialize manager_input.simps init_sensor_manager_def
    by (intro kept_intros kept_reinitialize n kept_install kept_upd) (auto elim: owes_sensors)
qed (auto intro!: kept_modify sensor_relation.rel_link_lost [OF kept_sensor])


section \<open>Examples\<close>

definition ex_hsensor :: hsensor where
  "ex_hsensor = \<lparr>hs_name = ''imu'', hs_adapter = ''BLE'', hs_prefixes = [], hs_service_uuids = [], hs_address = Some ''A'',
     hs_connection_status = CONNECTED, hs_transport_client = Some new_client, hs_measurement_cleanup_pending = True,
     hs_physical_stop_quarantined = False, hs_cleanup_in_progress = False, hs_connection_setup_complete = True, hs_listening = True,
     hs_stop_worker = False, hs_lifecycle_worker = False, hs_plugin_client = True, hs_plugin_state_lost = False\<rparr>"

definition ex_smanager :: smanager where
  "ex_smanager = \<lparr>sm_objects = (\<lambda>_. ex_hsensor), sm_sensors = [0], sm_adapters = [''BLE''], sm_recovery_obligations = [], sm_capture = None,
     sm_found = [], sm_results = [], sm_current = \<lparr>rs_address = None, rs_status = Stopped, rs_error = None, rs_link_connected = None,
     rs_measurement_stop_confirmed = False, rs_eligible = False\<rparr>, sm_gateways = []\<rparr>"

text \<open>An environment in which the STOP hangs and the sensor cannot be reached again.\<close>

definition ex_senv :: senv where
  "ex_senv = \<lparr>sv_linux = True, sv_has_method = (\<lambda>_ m. m \<in> {''discover_devices'', ''connect_for_cleanup'', ''create_transport_client''}),
     sv_resolve_error = (\<lambda>_. None),
     sv_discover_devices = (\<lambda>_ _. Inr [(''B'', \<lparr>dv_address = ''B'', dv_local_name = ''imu'', dv_services = []\<rparr>)]),
     sv_connect_to_device = (\<lambda>_. Inr True), sv_connect_all = (\<lambda>_. None), sv_status = (\<lambda>_. CONNECTED), sv_link = (\<lambda>_. True),
     sv_setup = (\<lambda>_. RpcReturns), sv_start = (\<lambda>_. RpcReturns), sv_stop = (\<lambda>_. StopHangs), sv_identify = (\<lambda>_. RpcReturns),
     sv_disconnect = (\<lambda>_. Inr True), sv_expired = (\<lambda>_. False), sv_late = (\<lambda>_. False), sv_collect_diagnostics = False,
     sv_listener = (\<lambda>_. None), sv_drained = True, sv_recover_connections = (\<lambda>_. Inl ''closed''), sv_reset_session = (\<lambda>_. Inl ''closed''),
     sv_active_addresses = [], sv_runtime_barrier = (\<lambda>_. Inr (True, False)), sv_reconnect = (\<lambda>_. Inr False), sv_close_host = (\<lambda>_. None),
     sv_shutdown = None, sv_overdue = False, sv_initialize_all = None\<rparr>"

definition ex_recovery :: recovery where
  "ex_recovery = \<lparr>rc_addresses = None, rc_allow_ble_reset = False, rc_confirmed_stopped = []\<rparr>"

theorem only_reconciled_sensors_used_witness:
  "PluginStart 0 \<in> set (fst (snd (manager_input ex_senv (Message (queue_message StartAll)) ex_smanager))) \<and>
   \<not> obliged (fst (manager_input ex_senv (Message (queue_message StartAll)) ex_smanager)) 0"
proof -
  have e: "PluginStart 0 \<in> set (fst (snd (manager_input ex_senv (Message (queue_message StartAll)) ex_smanager)))" by code_simp
  obtain t es x where r: "manager_input ex_senv (Message (queue_message StartAll)) ex_smanager = (t, es, x)"
    by (cases "manager_input ex_senv (Message (queue_message StartAll)) ex_smanager")
  have "uses 0 (PluginStart 0)" by (simp add: uses_def)
  from only_reconciled_sensors_used [OF r _ this] e show ?thesis unfolding r fst_conv snd_conv by blast
qed

theorem stop_accounts_for_every_sensor_witness:
  "hs_measurement_cleanup_pending (sensor_of (fst (handle_command ex_senv StopAll ex_smanager)) 0) \<and>
   obliged (fst (handle_command ex_senv StopAll ex_smanager)) 0"
proof -
  have p: "hs_measurement_cleanup_pending (sensor_of (fst (handle_command ex_senv StopAll ex_smanager)) 0)" by code_simp
  have n: "snd (snd (handle_command ex_senv StopAll ex_smanager)) = None" by code_simp
  obtain t es where r: "handle_command ex_senv StopAll ex_smanager = (t, es, None)"
    using n by (cases "handle_command ex_senv StopAll ex_smanager") simp
  have "stop_targets StopAll ex_smanager = Some [0]" by (simp add: ex_smanager_def)
  from stop_accounts_for_every_sensor [OF this r] p show ?thesis unfolding r fst_conv list.set by blast
qed

definition ex_owing :: smanager where
  "ex_owing = ex_smanager\<lparr>sm_recovery_obligations := [(''A'', Some 0)],
     sm_objects := (\<lambda>_. ex_hsensor\<lparr>hs_connection_status := DISCONNECTED\<rparr>)\<rparr>"


text \<open>A discovery hands the sensor that owes a STOP to another device: the recovery then stops that device, counts it
  as the confirmation, and the obligation of the first device can no longer be met.\<close>

lemma rediscovery_moves_owed_stop:
  "let e = ex_senv\<lparr>sv_stop := (\<lambda>_. StopReturns True), sv_reconnect := (\<lambda>_. Inr True)\<rparr>;
       (t, es) = manager_run [(e, Message (queue_message Discover)), (e, Message (queue_message (RecoverSensors ex_recovery)))] ex_owing in
   hs_address (sensor_of t 0) = Some ''B'' \<and> StopConfirmed 0 \<in> set es \<and> \<not> hs_measurement_cleanup_pending (sensor_of t 0) \<and>
   map_of (sm_recovery_obligations t) ''A'' = Some (Some 0)"
  by code_simp

text \<open>A sensor of a new configuration is discovered at the address of a retired sensor that owes a STOP. A cleanup whose
  deadline has passed reports the new sensor as failed and records it in the place of the retired one; the
  next recovery reconciles the new sensor, which never measured, and no obligation remains.\<close>

lemma failed_cleanup_replaces_obligation:
  "let retired = ex_hsensor\<lparr>hs_connection_status := DISCONNECTED\<rparr>;
       fresh = retired\<lparr>hs_address := None, hs_transport_client := None, hs_measurement_cleanup_pending := False, hs_plugin_client := False\<rparr>;
       s = ex_owing\<lparr>sm_sensors := [1], sm_objects := (\<lambda>i. if i = 0 then retired else fresh)\<rparr>;
       e = ex_senv\<lparr>sv_discover_devices := (\<lambda>_ _. Inr [(''A'', \<lparr>dv_address = ''A'', dv_local_name = ''imu'', dv_services = []\<rparr>)])\<rparr>;
       (t, es) = manager_run [(e, Message (queue_message Discover)), (e\<lparr>sv_expired := (\<lambda>_. True)\<rparr>, Message (queue_message DisconnectAll)),
         (e, Message (queue_message (RecoverSensors ex_recovery)))] s in
   recovery_complete t \<and> hs_measurement_cleanup_pending (sensor_of t 0) \<and> StopConfirmed 0 \<notin> set es \<and> OperatorConfirmed 0 \<notin> set es"
  by code_simp

end
