(* ===== verification/Sensor_Routing.thy ===== *)
theory Sensor_Routing
  imports Actions "HOL-Library.Sublist"
begin

text \<open>
  The routing of samples between plugins: the second half of \<^verbatim>\<open>sensor_manager/SensorManager.py\<close>.

  A sensor that declares outputs feeds the sensors that declare compatible inputs. Each pair of source and
  target is a route. A route has at most one job, waiting in the queue of its worker or running, and one
  value that newer values replace until the job takes it. The worker threads are the inputs \<open>JobBegins\<close> and
  \<open>JobEnds\<close>, one worker per subject; what runs between the two is the plugin. A stop first quiesces the
  routes and then waits until none of them has a job.

  The state is the record \<open>routing\<close>; sensors are numbered, and \<open>renv\<close> gives their declarations, addresses and
  subjects and whether the workers accept jobs. Consumptions by plugins and deliveries to the listener
  of the manager are effects.
\<close>

section \<open>Declarations\<close>

record rentry =
  rn_name :: "string option"
  rn_schema :: "string option"

definition non_empty :: "string \<Rightarrow> string option" where
  "non_empty s = (if s = [] then None else Some s)"

definition text_of :: "val \<Rightarrow> string" where
  "text_of v = py_strip (py_str (py_or v (VStr [])))"

definition py_endswith :: "string \<Rightarrow> string \<Rightarrow> bool" where
  "py_endswith s p \<longleftrightarrow> length p \<le> length s \<and> drop (length s - length p) s = p"

definition normalize_schema_name :: "val \<Rightarrow> string option" where
  "normalize_schema_name v = (let t = py_lower (text_of v) in
     non_empty (if py_endswith t ''sample'' then take (length t - 6) t else t))"

definition entry_of :: "(val \<Rightarrow> string option) \<Rightarrow> val \<Rightarrow> rentry list" where
  "entry_of schema_of v = (case v of
     VStr s \<Rightarrow> if py_strip s = [] then [] else [\<lparr>rn_name = Some (py_strip s), rn_schema = None\<rparr>]
   | VDict _ \<Rightarrow> (let name = non_empty (text_of (vget v ''name'')); schema = schema_of (vget v ''schema'') in
       if name \<noteq> None \<or> schema \<noteq> None then [\<lparr>rn_name = name, rn_schema = schema\<rparr>] else [])
   | _ \<Rightarrow> [])"

definition normalize_routing_entries :: "val list \<Rightarrow> rentry list" where
  "normalize_routing_entries vs = concat (map (entry_of normalize_schema_name) vs)"

text \<open>The declarations of a plugin's manifest keep their schema as it is written.\<close>

definition routing_entries :: "val list \<Rightarrow> rentry list" where
  "routing_entries vs = concat (map (entry_of (\<lambda>v. non_empty (text_of v))) vs)"

record rsensor =
  rt_address :: "string option"
  rt_name :: string
  rt_plugin_id :: string
  rt_class_name :: string
  rt_routing_inputs :: "rentry list option"
  rt_routing_outputs :: "rentry list option"
  rt_spec_inputs :: "val list"
  rt_data_streams :: "(string \<times> val) list"
  rt_subject_id :: val
  rt_quarantined :: bool

definition routing_inputs_for_sensor :: "rsensor \<Rightarrow> rentry list" where
  "routing_inputs_for_sensor h = (case rt_routing_inputs h of Some es \<Rightarrow> es | None \<Rightarrow> normalize_routing_entries (rt_spec_inputs h))"

definition stream_entry :: "string \<times> val \<Rightarrow> rentry list" where
  "stream_entry nv = (case nv of (n, VDict d) \<Rightarrow> (let t = text_of (vget (VDict d) ''sample_type'') in
       [\<lparr>rn_name = Some n, rn_schema = (if t = [] then None else normalize_schema_name (VStr t))\<rparr>])
   | _ \<Rightarrow> [])"

definition routing_outputs_for_sensor :: "rsensor \<Rightarrow> rentry list" where
  "routing_outputs_for_sensor h = (case rt_routing_outputs h of
     Some (e # es) \<Rightarrow> e # es
   | _ \<Rightarrow> concat (map stream_entry (rt_data_streams h)))"

definition entry_key :: "string option \<Rightarrow> string" where
  "entry_key x = (case x of None \<Rightarrow> [] | Some s \<Rightarrow> py_lower (py_strip s))"

definition routes_compatible :: "rentry list \<Rightarrow> rentry list \<Rightarrow> bool" where
  "routes_compatible outputs inputs \<longleftrightarrow> list_ex (\<lambda>i.
     entry_key (rn_name i) \<noteq> [] \<and> entry_key (rn_name i) \<in> (\<lambda>x. entry_key (rn_name x)) ` set outputs \<or>
     entry_key (rn_schema i) \<noteq> [] \<and> entry_key (rn_schema i) \<in> (\<lambda>x. entry_key (rn_schema x)) ` set outputs) inputs"

definition route_targets :: "(nat \<Rightarrow> rsensor) \<Rightarrow> nat list \<Rightarrow> nat \<Rightarrow> nat list" where
  "route_targets h is i = (let outputs = routing_outputs_for_sensor (h i) in
     if outputs = [] then []
     else filter (\<lambda>t. t \<noteq> i \<and> routing_inputs_for_sensor (h t) \<noteq> [] \<and> routes_compatible outputs (routing_inputs_for_sensor (h t))) is)"

definition build_routing_table :: "(nat \<Rightarrow> rsensor) \<Rightarrow> nat list \<Rightarrow> (nat, nat list) dict" where
  "build_routing_table h is = filter (\<lambda>(_, ts). ts \<noteq> []) (map (\<lambda>i. (i, route_targets h is i)) is)"

section \<open>Payloads\<close>

text \<open>A payload is a sample object with its attributes, or plain data. Dictionaries become name spaces.\<close>

datatype payload = Object "(string \<times> val) list" | Data val

datatype routed = Space "(string \<times> routed) list" | Items "routed list" | Other payload

fun normalize_routed_payload :: "val \<Rightarrow> routed" where
  "normalize_routed_payload (VDict d) = Space (map (\<lambda>(k, v). (k, normalize_routed_payload v)) d)"
| "normalize_routed_payload (VList xs) = Items (map normalize_routed_payload xs)"
| "normalize_routed_payload v = Other (Data v)"

definition payload_field :: "payload \<Rightarrow> string \<Rightarrow> val" where
  "payload_field p k = (case p of Object d \<Rightarrow> dget_or d k VNone | Data v \<Rightarrow> vget v k)"

definition find_sensor_for_payload :: "(nat \<Rightarrow> rsensor) \<Rightarrow> nat list \<Rightarrow> payload \<Rightarrow> nat option" where
  "find_sensor_for_payload h is p = (case payload_field p ''address'' of
     VStr a \<Rightarrow> if a = [] then None else find (\<lambda>i. rt_address (h i) = Some a) is
   | _ \<Rightarrow> None)"

definition payload_outputs_for_sensor :: "rsensor \<Rightarrow> payload \<Rightarrow> rentry list" where
  "payload_outputs_for_sensor h p = (let outputs = routing_outputs_for_sensor h;
       key = py_lower (text_of (payload_field p ''sample_type''));
       matched = filter (\<lambda>x. entry_key (rn_schema x) = key \<or> entry_key (rn_name x) = key) outputs in
     if key = [] \<or> matched = [] then outputs else matched)"

definition sensor_plugin_id :: "rsensor \<Rightarrow> string" where
  "sensor_plugin_id h = (if rt_plugin_id h = [] then rt_class_name h else rt_plugin_id h)"

record envelope =
  en_source_plugin_id :: string
  en_source_sensor_name :: string
  en_source_address :: "string option"
  en_output_name :: "string option"
  en_schema :: "string option"
  en_payload :: routed

definition build_routing_envelope :: "rsensor \<Rightarrow> payload \<Rightarrow> rentry \<Rightarrow> envelope" where
  "build_routing_envelope h p x = \<lparr>en_source_plugin_id = sensor_plugin_id h, en_source_sensor_name = rt_name h,
     en_source_address = rt_address h, en_output_name = rn_name x, en_schema = rn_schema x,
     en_payload = (case p of Data (VDict d) \<Rightarrow> normalize_routed_payload (VDict d) | _ \<Rightarrow> Other p)\<rparr>"

section \<open>Routes\<close>

type_synonym route = "nat \<times> nat"

record routed_call =
  rq_source :: nat
  rq_target :: nat
  rq_source_plugin_id :: string
  rq_envelope :: envelope
  rq_payload :: payload

datatype reffect = Consumed route routed_call | Delivered payload | AcquisitionScope "string option list"

record routing =
  ro_table :: "(nat, nat list) dict"
  ro_enabled :: bool
  ro_active :: int
  ro_pending :: "(route, routed_call option) dict"
  ro_blocked :: "string option list"
  ro_executors :: "(val, route list) dict"
  ro_running :: "(val, route) dict"
  ro_operations :: "(route, bool) dict"

record renv =
  rx_sensor :: "nat \<Rightarrow> rsensor"
  rx_sensors :: "nat list"
  rx_accepts :: bool

type_synonym route_action = "(routing, reffect) action"

definition touches :: "renv \<Rightarrow> string option list \<Rightarrow> route \<Rightarrow> bool" where
  "touches e as r \<longleftrightarrow> rt_address (rx_sensor e (fst r)) \<in> set as \<or> rt_address (rx_sensor e (snd r)) \<in> set as"

text \<open>Every owner of routes has a worker of its own.\<close>

definition route_owner :: "renv \<Rightarrow> route \<Rightarrow> val" where
  "route_owner e r = py_or (rt_subject_id (rx_sensor e (snd r))) (rt_subject_id (rx_sensor e (fst r)))"

definition executor_submit :: "renv \<Rightarrow> route \<Rightarrow> routing \<Rightarrow> routing" where
  "executor_submit e r s = s\<lparr>ro_executors := dappend (route_owner e r) r (ro_executors s)\<rparr>"

definition finish_routed_route :: "route \<Rightarrow> routing \<Rightarrow> routing" where
  "finish_routed_route r s = s\<lparr>ro_pending := dpop r (ro_pending s), ro_active := ro_active s - 1\<rparr>"

definition submit_job :: "renv \<Rightarrow> route \<Rightarrow> route_action" where
  "submit_job e r = (if rx_accepts e then upd (executor_submit e r)
     else seq (upd (finish_routed_route r)) (raise ''cannot schedule new futures after shutdown''))"

definition submit_routed_value :: "renv \<Rightarrow> route \<Rightarrow> routed_call \<Rightarrow> route_action" where
  "submit_routed_value e r c = query (\<lambda>s.
     if \<not> ro_enabled s \<or> touches e (ro_blocked s) r then skip
     else if map_of (ro_pending s) r \<noteq> None then upd (\<lambda>s. s\<lparr>ro_pending := dput r (Some c) (ro_pending s)\<rparr>)
     else seq (upd (\<lambda>s. s\<lparr>ro_pending := dput r (Some c) (ro_pending s), ro_active := ro_active s + 1\<rparr>)) (submit_job e r))"

text \<open>\<open>_run_routed_route\<close> up to the call of the plugin, on the worker of an owner, and what follows the call.\<close>

definition job_begins :: "renv \<Rightarrow> val \<Rightarrow> route_action" where
  "job_begins e w = query (\<lambda>s. case (map_of (ro_running s) w, map_of (ro_executors s) w) of
     (None, Some (r # rs)) \<Rightarrow>
       seq (upd (\<lambda>s. s\<lparr>ro_executors := dput w rs (ro_executors s)\<rparr>)) (case map_of (ro_pending s) r of
          None \<Rightarrow> raise ''KeyError''
        | Some v \<Rightarrow> (let call = (if touches e (ro_blocked s) r then None else v) in
            seq (upd (\<lambda>s. s\<lparr>ro_pending := dput r None (ro_pending s), ro_running := dput w r (ro_running s),
                   ro_operations := (if call = None then ro_operations s else dput r False (ro_operations s))\<rparr>))
              (case call of None \<Rightarrow> skip | Some c \<Rightarrow> out (Consumed r c))))
   | _ \<Rightarrow> skip)"

definition job_ends :: "renv \<Rightarrow> val \<Rightarrow> route_action" where
  "job_ends e w = query (\<lambda>s. case map_of (ro_running s) w of
     None \<Rightarrow> skip
   | Some r \<Rightarrow> seq (upd (\<lambda>s. s\<lparr>ro_running := dpop w (ro_running s), ro_operations := dpop r (ro_operations s)\<rparr>))
       (case map_of (ro_pending s) r of
          None \<Rightarrow> raise ''KeyError''
        | Some (Some _) \<Rightarrow> submit_job e r
        | Some None \<Rightarrow> upd (finish_routed_route r)))"

definition routed_call_for :: "renv \<Rightarrow> payload \<Rightarrow> route \<Rightarrow> routed_call" where
  "routed_call_for e p r = (let h = rx_sensor e (fst r); v = build_routing_envelope h p (hd (payload_outputs_for_sensor h p)) in
     \<lparr>rq_source = fst r, rq_target = snd r, rq_source_plugin_id = en_source_plugin_id v, rq_envelope = v, rq_payload = p\<rparr>)"

text \<open>The routes a payload takes.\<close>

definition payload_routes :: "renv \<Rightarrow> routing \<Rightarrow> payload \<Rightarrow> route list" where
  "payload_routes e s p = (case find_sensor_for_payload (rx_sensor e) (rx_sensors e) p of
     None \<Rightarrow> []
   | Some i \<Rightarrow> (let outputs = payload_outputs_for_sensor (rx_sensor e i) p in
       if outputs = [] then []
       else map (Pair i) (filter (\<lambda>t. routes_compatible outputs (routing_inputs_for_sensor (rx_sensor e t))) (dget_or (ro_table s) i []))))"

definition route_sensor_output :: "renv \<Rightarrow> payload \<Rightarrow> route_action" where
  "route_sensor_output e p = query (\<lambda>s. for_each (payload_routes e s p) (\<lambda>r. submit_routed_value e r (routed_call_for e p r)))"

text \<open>The part of \<open>_emit_to_client\<close> for data.\<close>

definition quarantined_source :: "renv \<Rightarrow> payload \<Rightarrow> bool" where
  "quarantined_source e p = (case find_sensor_for_payload (rx_sensor e) (rx_sensors e) p of
     None \<Rightarrow> False | Some i \<Rightarrow> rt_quarantined (rx_sensor e i))"

definition emit_data :: "renv \<Rightarrow> payload \<Rightarrow> route_action" where
  "emit_data e p = (if quarantined_source e p then skip else seq (route_sensor_output e p) (out (Delivered p)))"

text \<open>All routes, or those of some addresses, lose their value; jobs that run are cancelled.\<close>

definition affected :: "renv \<Rightarrow> string option list option \<Rightarrow> routing \<Rightarrow> route \<Rightarrow> bool" where
  "affected e as s r \<longleftrightarrow> as = None \<or> touches e (ro_blocked s) r"

definition quiesce_routing :: "renv \<Rightarrow> string option list option \<Rightarrow> routing \<Rightarrow> routing" where
  "quiesce_routing e as s =
     (let s = (case as of None \<Rightarrow> s\<lparr>ro_enabled := False\<rparr> | Some bs \<Rightarrow> s\<lparr>ro_blocked := ro_blocked s @ bs\<rparr>) in
      s\<lparr>ro_pending := map (\<lambda>(r, v). (r, if affected e as s r then None else v)) (ro_pending s),
        ro_operations := map (\<lambda>(r, b). (r, b \<or> affected e as s r \<and> map_of (ro_pending s) r \<noteq> None)) (ro_operations s)\<rparr>)"

definition routing_drained :: "renv \<Rightarrow> string option list option \<Rightarrow> routing \<Rightarrow> bool" where
  "routing_drained e as s \<longleftrightarrow> \<not> list_ex (\<lambda>r. case as of None \<Rightarrow> True | Some bs \<Rightarrow> touches e bs r) (dkeys (ro_pending s))"

definition enable_routing :: "string option list \<Rightarrow> route_action" where
  "enable_routing connected = seq (upd (\<lambda>s. s\<lparr>ro_enabled := True, ro_blocked := []\<rparr>)) (out (AcquisitionScope connected))"

definition install_routing_table :: "renv \<Rightarrow> routing \<Rightarrow> routing" where
  "install_routing_table e s = s\<lparr>ro_table := build_routing_table (rx_sensor e) (rx_sensors e)\<rparr>"

definition init_routing :: routing where
  "init_routing = \<lparr>ro_table = [], ro_enabled = False, ro_active = 0, ro_pending = [], ro_blocked = [], ro_executors = [],
     ro_running = [], ro_operations = []\<rparr>"

section \<open>Runs\<close>

datatype rinput =
    OnData payload
  | JobBegins val
  | JobEnds val
  | Quiesce "string option list option"
  | EnableRouting "string option list"
  | Configure

fun routing_input :: "renv \<Rightarrow> rinput \<Rightarrow> route_action" where
  "routing_input e (OnData p) = emit_data e p"
| "routing_input e (JobBegins w) = job_begins e w"
| "routing_input e (JobEnds w) = job_ends e w"
| "routing_input e (Quiesce as) = upd (quiesce_routing e as)"
| "routing_input e (EnableRouting as) = enable_routing as"
| "routing_input e Configure = upd (install_routing_table e)"

fun routing_run :: "renv \<Rightarrow> rinput list \<Rightarrow> routing \<Rightarrow> routing \<times> reffect list" where
  "routing_run e [] s = (s, [])"
| "routing_run e (x # xs) s = (case routing_input e x s of (t, es, _) \<Rightarrow> case routing_run e xs t of (u, fs) \<Rightarrow> (u, es @ fs))"

end
