(* ===== verification/Sensor_Routing_Props.thy ===== *)
theory Sensor_Routing_Props
  imports Sensor_Routing "HOL-Library.Multiset"
begin

text \<open>
  Properties of the routing: every route with a value has exactly one job; the values a plugin consumes on a
  route are among those routed to it, in their order, and end with the latest; quiesced routes stay silent
  and drain.
\<close>

section \<open>Dictionaries of queues\<close>

lemma mset_concat_dput: "distinct (dkeys d) \<Longrightarrow>
   mset (concat (dvalues (dput k xs d))) + mset (dget_or d k []) = mset (concat (dvalues d)) + mset xs"
proof (induction d)
  case (Cons kv d)
  show ?case
  proof (cases "fst kv = k")
    case True
    then show ?thesis by (cases kv) (simp add: dget_or_def)
  next
    case False
    have "mset (concat (dvalues (dput k xs d))) + mset (dget_or d k []) = mset (concat (dvalues d)) + mset xs"
      using Cons by simp
    with False show ?thesis by (cases kv) (simp add: dget_or_def add.assoc)
  qed
qed (simp add: dget_or_def)

lemma dput_new: "map_of d k = None \<Longrightarrow> dput k v d = d @ [(k, v)]"
  by (induction d) (auto split: if_splits)

lemma dkeys_dput_old: "map_of d k = Some w \<Longrightarrow> dkeys (dput k v d) = dkeys d"
  by (induction d) (auto split: if_splits)

lemma mset_dpop: "distinct (dkeys d) \<Longrightarrow> map_of d k = Some v \<Longrightarrow> mset d = add_mset (k, v) (mset (dpop k d))"
proof (induction d)
  case (Cons kv d)
  show ?case
  proof (cases "fst kv = k")
    case True
    with Cons.prems(1) have "k \<notin> fst ` set d" by simp
    then have "dpop k d = d" by (induction d) auto
    with True Cons.prems(2) show ?thesis by (cases kv) simp
  next
    case False
    with Cons show ?thesis by (cases kv) simp
  qed
qed simp

lemma mset_dpop_image: "distinct (dkeys d) \<Longrightarrow> map_of d k = Some v \<Longrightarrow> mset (map f d) = add_mset (f (k, v)) (mset (map f (dpop k d)))"
  using mset_dpop [of d k v] by (metis image_mset_add_mset mset_map)

section \<open>One job per route\<close>

definition jobs :: "routing \<Rightarrow> route multiset" where
  "jobs s = mset (concat (dvalues (ro_executors s))) + mset (dvalues (ro_running s))"

definition routing_ok :: "routing \<Rightarrow> bool" where
  "routing_ok s \<longleftrightarrow> distinct (dkeys (ro_pending s)) \<and> distinct (dkeys (ro_executors s)) \<and> distinct (dkeys (ro_running s)) \<and>
     jobs s = mset (dkeys (ro_pending s)) \<and> ro_active s = int (length (ro_pending s))"

lemma ok_replace: "routing_ok s \<Longrightarrow> map_of (ro_pending s) r = Some v \<Longrightarrow> routing_ok (s\<lparr>ro_pending := dput r w (ro_pending s)\<rparr>)"
proof -
  assume o: "routing_ok s" and m: "map_of (ro_pending s) r = Some v"
  have k: "dkeys (dput r w (ro_pending s)) = dkeys (ro_pending s)" by (rule dkeys_dput_old [OF m])
  then have "length (dput r w (ro_pending s)) = length (ro_pending s)" by (metis length_map)
  with o k show ?thesis by (simp add: routing_ok_def jobs_def del: mset_map)
qed

lemma ok_operations: "routing_ok (s\<lparr>ro_operations := d\<rparr>) = routing_ok s"
  by (simp add: routing_ok_def jobs_def)

lemma jobs_submit: "distinct (dkeys (ro_executors s)) \<Longrightarrow> jobs (executor_submit e r s) = add_mset r (jobs s)"
proof -
  assume d: "distinct (dkeys (ro_executors s))"
  have "mset (concat (dvalues (dappend k r (ro_executors s)))) = add_mset r (mset (concat (dvalues (ro_executors s))))" for k
    using mset_concat_dput [OF d, of k "dget_or (ro_executors s) k [] @ [r]"] by (simp add: dappend_def)
  then show ?thesis by (simp add: jobs_def executor_submit_def)
qed

lemma submit_fields: "ro_pending (executor_submit e r s) = ro_pending s" "ro_active (executor_submit e r s) = ro_active s"
  "ro_running (executor_submit e r s) = ro_running s" "ro_executors (executor_submit e r s) = dappend (route_owner e r) r (ro_executors s)"
  by (simp_all add: executor_submit_def)

lemma ok_resubmit: "distinct (dkeys (ro_pending s)) \<Longrightarrow> distinct (dkeys (ro_executors s)) \<Longrightarrow> distinct (dkeys (ro_running s)) \<Longrightarrow>
   add_mset r (jobs s) = mset (dkeys (ro_pending s)) \<Longrightarrow> ro_active s = int (length (ro_pending s)) \<Longrightarrow> routing_ok (executor_submit e r s)"
  by (simp add: routing_ok_def submit_fields jobs_submit)

lemma ok_finish: "distinct (dkeys (ro_pending s)) \<Longrightarrow> distinct (dkeys (ro_executors s)) \<Longrightarrow> distinct (dkeys (ro_running s)) \<Longrightarrow>
   add_mset r (jobs s) = mset (dkeys (ro_pending s)) \<Longrightarrow> ro_active s = int (length (ro_pending s)) \<Longrightarrow> routing_ok (finish_routed_route r s)"
proof -
  assume a: "distinct (dkeys (ro_pending s))" "distinct (dkeys (ro_executors s))" "distinct (dkeys (ro_running s))"
    "add_mset r (jobs s) = mset (dkeys (ro_pending s))" "ro_active s = int (length (ro_pending s))"
  have "r \<in># mset (dkeys (ro_pending s))" unfolding a(4) [symmetric] by simp
  then obtain v where v: "map_of (ro_pending s) r = Some v" by (metis in_dkeys_iff not_None_eq set_map set_mset_mset)
  have m: "mset (dkeys (ro_pending s)) = add_mset r (mset (dkeys (dpop r (ro_pending s))))" using mset_dpop_image [OF a(1) v, of fst] by simp
  then have "length (ro_pending s) = Suc (length (dpop r (ro_pending s)))" by (metis length_map size_add_mset size_mset)
  then show ?thesis using a m by (simp add: routing_ok_def finish_routed_route_def jobs_def)
qed

lemma ok_submit_job: "distinct (dkeys (ro_pending s)) \<Longrightarrow> distinct (dkeys (ro_executors s)) \<Longrightarrow> distinct (dkeys (ro_running s)) \<Longrightarrow>
   add_mset r (jobs s) = mset (dkeys (ro_pending s)) \<Longrightarrow> ro_active s = int (length (ro_pending s)) \<Longrightarrow> ok routing_ok (\<lambda>_. True) (submit_job e r) s"
  by (simp add: submit_job_def ok_simps ok_resubmit ok_finish)

lemma ok_submit_value: "routing_ok s \<Longrightarrow> ok routing_ok (\<lambda>_. True) (submit_routed_value e r c) s"
proof -
  assume o: "routing_ok s"
  have new: "ok routing_ok (\<lambda>_. True) (submit_job e r) (s\<lparr>ro_pending := dput r (Some c) (ro_pending s), ro_active := ro_active s + 1\<rparr>)"
    if "map_of (ro_pending s) r = None"
    using o that by (intro ok_submit_job) (simp_all add: routing_ok_def jobs_def dput_new map_of_eq_None_iff)
  show ?thesis unfolding submit_routed_value_def
    by (cases "map_of (ro_pending s) r") (simp_all add: ok_simps o new ok_replace [OF o])
qed

lemma ok_job_begins: "routing_ok s \<Longrightarrow> ok routing_ok (\<lambda>_. True) (job_begins e w) s"
proof -
  assume o: "routing_ok s"
  have "ok routing_ok (\<lambda>_. True) (job_begins e w) s" if q: "map_of (ro_executors s) w = Some (r # rs)" and i: "map_of (ro_running s) w = None" for r rs
  proof -
    have c: "mset (concat (dvalues (ro_executors s))) = add_mset r (mset (concat (dvalues (dput w rs (ro_executors s)))))"
      using mset_concat_dput [of "ro_executors s" w rs] o q by (simp add: routing_ok_def dget_or_def)
    have "r \<in># jobs s" by (simp add: jobs_def c)
    then have "r \<in> set (dkeys (ro_pending s))" using o by (metis routing_ok_def set_mset_mset)
    then obtain v where v: "map_of (ro_pending s) r = Some v" by (metis in_dkeys_iff not_None_eq set_map)
    have k: "dkeys (dput r None (ro_pending s)) = dkeys (ro_pending s)" by (rule dkeys_dput_old [OF v])
    then have l: "length (dput r None (ro_pending s)) = length (ro_pending s)" by (metis length_map)
    have "routing_ok (s\<lparr>ro_executors := dput w rs (ro_executors s), ro_pending := dput r None (ro_pending s), ro_running := dput w r (ro_running s)\<rparr>)"
      using o k l c i by (simp add: routing_ok_def jobs_def dput_new map_of_eq_None_iff del: mset_map)
    then show ?thesis using q i v unfolding job_begins_def
      by (simp add: ok_simps Let_def ok_operations split: option.split)
  qed
  with o show ?thesis by (auto simp: job_begins_def ok_simps split: option.split list.split)
qed

lemma ok_job_ends: "routing_ok s \<Longrightarrow> ok routing_ok (\<lambda>_. True) (job_ends e w) s"
proof -
  assume o: "routing_ok s"
  have "ok routing_ok (\<lambda>_. True) (job_ends e w) s" if i: "map_of (ro_running s) w = Some r" for r
  proof -
    let ?t = "s\<lparr>ro_running := dpop w (ro_running s), ro_operations := dpop r (ro_operations s)\<rparr>"
    have m: "mset (dvalues (ro_running s)) = add_mset r (mset (dvalues (dpop w (ro_running s))))"
      using mset_dpop_image [of "ro_running s" w r snd] o i by (simp add: routing_ok_def)
    then have j: "jobs s = add_mset r (jobs ?t)" by (simp add: jobs_def del: mset_map)
    have a: "distinct (dkeys (ro_pending ?t))" "distinct (dkeys (ro_executors ?t))" "distinct (dkeys (ro_running ?t))"
      "add_mset r (jobs ?t) = mset (dkeys (ro_pending ?t))" "ro_active ?t = int (length (ro_pending ?t))"
      using o j by (simp_all add: routing_ok_def del: mset_map)
    have "r \<in># jobs s" by (simp add: j)
    then have "r \<in> set (dkeys (ro_pending s))" using o by (metis routing_ok_def set_mset_mset)
    then obtain v where v: "map_of (ro_pending s) r = Some v" by (metis in_dkeys_iff not_None_eq set_map)
    show ?thesis using i v ok_submit_job [OF a, of e] ok_finish [OF a] unfolding job_ends_def
      by (cases v) (simp_all add: ok_simps)
  qed
  with o show ?thesis by (auto simp: job_ends_def ok_simps split: option.split)
qed

lemma ok_quiesce: "routing_ok s \<Longrightarrow> routing_ok (quiesce_routing e as s)"
  by (cases as) (simp_all add: routing_ok_def jobs_def quiesce_routing_def Let_def comp_def case_prod_beta)

lemma ok_emit_data: "routing_ok s \<Longrightarrow> ok routing_ok (\<lambda>_. True) (emit_data e p) s"
  unfolding emit_data_def route_sensor_output_def
  by (auto intro!: ok_branch ok_seq ok_query ok_for_each ok_submit_value ok_skip ok_out)

lemma ok_enable: "routing_ok s \<Longrightarrow> ok routing_ok (\<lambda>_. True) (enable_routing as) s"
  by (simp add: enable_routing_def ok_simps) (simp add: routing_ok_def jobs_def)

lemma ok_configure: "routing_ok s \<Longrightarrow> routing_ok (install_routing_table e s)"
  by (simp add: routing_ok_def jobs_def install_routing_table_def)

lemma routing_ok_run: "routing_ok s \<Longrightarrow> routing_run e xs s = (t, es) \<Longrightarrow> routing_ok t"
proof (induction xs arbitrary: s es)
  case (Cons x xs)
  have "ok routing_ok (\<lambda>_. True) (routing_input e x) s"
    using Cons.prems(1) by (cases x) (simp_all add: ok_basic ok_emit_data ok_job_begins ok_job_ends ok_quiesce ok_enable ok_configure)
  with Cons show ?case by (auto simp: ok_def split: prod.splits)
qed simp

section \<open>Quiesced routes\<close>

definition quiesced :: "string option list option \<Rightarrow> routing \<Rightarrow> bool" where
  "quiesced as s \<longleftrightarrow> (case as of
     None \<Rightarrow> \<not> ro_enabled s \<and> (\<forall>v \<in> set (dvalues (ro_pending s)). v = None)
   | Some bs \<Rightarrow> set bs \<subseteq> set (ro_blocked s))"

definition spares :: "renv \<Rightarrow> string option list option \<Rightarrow> reffect \<Rightarrow> bool" where
  "spares e as f \<longleftrightarrow> (\<forall>r c. f = Consumed r c \<longrightarrow> (case as of None \<Rightarrow> False | Some bs \<Rightarrow> \<not> touches e bs r))"

fun enables :: "rinput \<Rightarrow> bool" where
  "enables (EnableRouting _) = True"
| "enables _ = False"

lemma values_dput: "set (dvalues (dput k v d)) \<subseteq> insert v (set (dvalues d))"
  by (induction d) auto

lemma quiesced_dput: "quiesced as s \<Longrightarrow> quiesced as (s\<lparr>ro_pending := dput r None (ro_pending s)\<rparr>)"
  using values_dput [of r None "ro_pending s"] by (auto simp: quiesced_def split: option.splits)

lemma values_dpop: "set (dvalues (dpop k d)) \<subseteq> set (dvalues d)"
  by (induction d) auto

lemma quiesced_pending: "quiesced as s \<Longrightarrow> ro_enabled t = ro_enabled s \<Longrightarrow> ro_blocked t = ro_blocked s \<Longrightarrow>
   set (dvalues (ro_pending t)) \<subseteq> insert None (set (dvalues (ro_pending s))) \<Longrightarrow> quiesced as t"
  by (auto simp: quiesced_def subset_iff split: option.splits)

lemma quiesced_submit_job: "quiesced as s \<Longrightarrow> ok (quiesced as) (spares e as) (submit_job e r) s"
  unfolding submit_job_def
  by (intro ok_branch ok_seq ok_upd ok_raise; erule quiesced_pending; use values_dpop [of r "ro_pending s"] in \<open>force simp: executor_submit_def finish_routed_route_def\<close>)

lemma quiesced_submit: "quiesced as s \<Longrightarrow> ok (quiesced as) (spares e as) (submit_routed_value e r c) s"
proof (cases as)
  case None
  assume "quiesced as s"
  with None show ?thesis by (simp add: submit_routed_value_def ok_simps quiesced_def)
next
  case (Some bs)
  have *: "quiesced as (s\<lparr>ro_pending := d, ro_active := n\<rparr>)" "quiesced as (s\<lparr>ro_pending := d\<rparr>)" if "quiesced as s" for s d n
    using that Some by (simp_all add: quiesced_def)
  assume "quiesced as s"
  then show ?thesis unfolding submit_routed_value_def
    by (auto intro!: ok_query ok_branch ok_skip ok_upd ok_seq * quiesced_submit_job)
qed

lemma quiesced_job_begins: "quiesced as s \<Longrightarrow> ok (quiesced as) (spares e as) (job_begins e w) s"
proof -
  assume q: "quiesced as s"
  have a: "quiesced as (s\<lparr>ro_executors := x\<rparr>)" "quiesced as (s\<lparr>ro_executors := x, ro_pending := dput r None (ro_pending s), ro_running := y\<rparr>)"
    "quiesced as (s\<lparr>ro_executors := x, ro_pending := dput r None (ro_pending s), ro_running := y, ro_operations := z\<rparr>)"
    for x r y z by (rule quiesced_pending [OF q]; use values_dput [of r None "ro_pending s"] in auto)+
  have "spares e as (Consumed r c)" if "map_of (ro_pending s) r = Some (Some c)" "\<not> touches e (ro_blocked s) r" for r c
  proof (cases as)
    case None
    have "Some c \<in> set (dvalues (ro_pending s))" using map_of_SomeD [OF that(1)] by force
    with q None show ?thesis by (auto simp: quiesced_def)
  next
    case (Some bs)
    with q that(2) show ?thesis by (auto simp: quiesced_def spares_def touches_def)
  qed
  then show ?thesis unfolding job_begins_def
    by (auto simp: ok_simps Let_def q a split: option.split list.split)
qed

lemma quiesced_job_ends: "quiesced as s \<Longrightarrow> ok (quiesced as) (spares e as) (job_ends e w) s"
proof -
  assume q: "quiesced as s"
  have a: "quiesced as (s\<lparr>ro_running := x, ro_operations := y\<rparr>)" for x y by (rule quiesced_pending [OF q]) auto
  have "quiesced as (finish_routed_route r (s\<lparr>ro_running := x, ro_operations := y\<rparr>))" for r x y
    using values_dpop [of r "ro_pending s"] by (intro quiesced_pending [OF q]) (auto simp: finish_routed_route_def)
  then show ?thesis unfolding job_ends_def
    by (auto simp: ok_simps q a intro!: quiesced_submit_job split: option.split)
qed

lemma quiesced_more: "quiesced as s \<Longrightarrow> quiesced as (quiesce_routing e bs s)"
  by (cases bs) (auto simp: quiesced_def quiesce_routing_def Let_def split: option.splits)

lemma quiesced_now: "quiesced as (quiesce_routing e as s)"
  by (cases as) (auto simp: quiesced_def quiesce_routing_def affected_def Let_def)

lemma quiesced_configure: "quiesced as s \<Longrightarrow> quiesced as (install_routing_table e s)"
  by (cases as) (simp_all add: quiesced_def install_routing_table_def)

lemma quiesced_input: "quiesced as s \<Longrightarrow> \<not> enables x \<Longrightarrow> ok (quiesced as) (spares e as) (routing_input e x) s"
proof (cases x)
  case (OnData p)
  have d: "spares e as (Delivered p)" by (simp add: spares_def)
  assume "quiesced as s"
  then have "ok (quiesced as) (spares e as) (emit_data e p) s" unfolding emit_data_def route_sensor_output_def
    by (intro ok_branch ok_seq ok_query ok_for_each quiesced_submit ok_skip ok_out d)
  with OnData show ?thesis by simp
qed (auto simp: ok_basic quiesced_job_begins quiesced_job_ends quiesced_more quiesced_configure)

text \<open>C33. Quiesced routes are silent: after all routes, or those of some addresses, have been quiesced for a stop,
  no plugin consumes another value on them until routing is enabled again, whatever data arrive and however the
  workers run.\<close>

theorem quiesced_routes_silent:
  assumes "routing_run e xs (quiesce_routing e as s) = (t, es)" and "\<forall>x \<in> set xs. \<not> enables x"
    and "Consumed r c \<in> set es"
  shows "\<exists>bs. as = Some bs \<and> \<not> touches e bs r"
proof -
  have "\<forall>f \<in> set es. spares e as f" if "quiesced as s" "routing_run e xs s = (t, es)" for s
    using that assms(2)
  proof (induction xs arbitrary: s es)
    case (Cons x xs)
    have "ok (quiesced as) (spares e as) (routing_input e x) s" using Cons.prems by (intro quiesced_input) auto
    with Cons show ?case by (fastforce simp: ok_def split: prod.splits)
  qed simp
  from this [OF quiesced_now assms(1)] assms(3) have "spares e as (Consumed r c)" by blast
  then show ?thesis by (cases as) (auto simp: spares_def)
qed

section \<open>The latest value\<close>

definition awaiting :: "route \<Rightarrow> routing \<Rightarrow> routed_call list" where
  "awaiting r s = (case map_of (ro_pending s) r of Some (Some c) \<Rightarrow> [c] | _ \<Rightarrow> [])"

definition consumed :: "route \<Rightarrow> reffect list \<Rightarrow> routed_call list" where
  "consumed r es = List.map_filter (\<lambda>f. case f of Consumed x c \<Rightarrow> if x = r then Some c else None | _ \<Rightarrow> None) es"

lemma consumed_simps [simp]: "consumed r [] = []" "consumed r (es @ fs) = consumed r es @ consumed r fs"
  "consumed r (Consumed x c # es) = (if x = r then [c] else []) @ consumed r es" "consumed r (Delivered p # es) = consumed r es"
  by (simp_all add: consumed_def map_filter_def)

text \<open>The values that an input, or a list of them, routes to a route.\<close>

definition offered :: "renv \<Rightarrow> routing \<Rightarrow> route \<Rightarrow> rinput \<Rightarrow> routed_call list" where
  "offered e s r x = (case x of
     OnData p \<Rightarrow> if quarantined_source e p then [] else map (routed_call_for e p) (filter (\<lambda>x. x = r) (payload_routes e s p))
   | _ \<Rightarrow> [])"

definition offers :: "renv \<Rightarrow> routing \<Rightarrow> route \<Rightarrow> rinput list \<Rightarrow> routed_call list" where
  "offers e s r xs = concat (map (offered e s r) xs)"

text \<open>With \<open>ws\<close> awaiting and \<open>os\<close> offered, \<open>cs\<close> are consumed and \<open>vs\<close> wait afterwards.\<close>

definition latest :: "'a list \<Rightarrow> 'a list \<Rightarrow> 'a list \<Rightarrow> 'a list \<Rightarrow> bool" where
  "latest ws os cs vs \<longleftrightarrow> subseq (cs @ vs) (ws @ os) \<and> (ws @ os \<noteq> [] \<longrightarrow> cs @ vs \<noteq> [] \<and> last (cs @ vs) = last (ws @ os))"

lemma latest_trans: "latest ws os cs vs \<Longrightarrow> latest vs os' cs' us \<Longrightarrow> latest ws (os @ os') (cs @ cs') us"
proof -
  assume a: "latest ws os cs vs" and b: "latest vs os' cs' us"
  have "subseq (cs' @ us) (vs @ os')" using b by (simp only: latest_def)
  then have "subseq (cs @ cs' @ us) (cs @ vs @ os')" by (rule list_emb_append_mono [OF subseq_order.refl])
  also have "subseq (cs @ vs @ os') (ws @ os @ os')" using a list_emb_append_mono [of "(=)" "cs @ vs" "ws @ os" os' os'] by (simp add: latest_def)
  finally have s: "subseq ((cs @ cs') @ us) (ws @ os @ os')" by simp
  have "(cs @ cs') @ us \<noteq> [] \<and> last ((cs @ cs') @ us) = last (ws @ os @ os')" if "ws @ os @ os' \<noteq> []"
  proof (cases "vs @ os' = []")
    case True
    with b have "subseq (cs' @ us) []" by (simp only: latest_def)
    then have "cs' @ us = []" by (rule list_emb_Nil2)
    with True that a show ?thesis by (auto simp: latest_def)
  next
    case False
    with b have u: "cs' @ us \<noteq> []" "last (cs' @ us) = last (vs @ os')" by (simp_all add: latest_def)
    then have "last ((cs @ cs') @ us) = last (vs @ os')" by (metis append.assoc last_append)
    moreover have "last (vs @ os') = last (ws @ os @ os')"
    proof (cases "os' = []")
      case True
      with False that a show ?thesis by (auto simp: latest_def)
    qed simp
    ultimately show ?thesis using u by auto
  qed
  with s show ?thesis by (simp add: latest_def)
qed

lemma latest_same: "latest ws [] [] ws"
  by (simp add: latest_def)

text \<open>What an input leaves as it is, while routing is on.\<close>

definition open_route :: "renv \<Rightarrow> route \<Rightarrow> routing \<Rightarrow> bool" where
  "open_route e r s \<longleftrightarrow> ro_enabled s \<and> \<not> touches e (ro_blocked s) r"

definition same_gates :: "routing \<Rightarrow> routing \<Rightarrow> bool" where
  "same_gates s t \<longleftrightarrow> ro_enabled t = ro_enabled s \<and> ro_blocked t = ro_blocked s \<and> ro_table t = ro_table s"

lemma open_route_same: "same_gates s t \<Longrightarrow> open_route e r t = open_route e r s"
  by (simp add: same_gates_def open_route_def)

lemma submit_latest: "rx_accepts e \<Longrightarrow> open_route e r s \<Longrightarrow>
   \<exists>t. submit_routed_value e x c s = (t, [], None) \<and> same_gates s t \<and> awaiting r t = (if x = r then [c] else awaiting r s)"
  by (cases "map_of (ro_pending s) x")
    (auto simp: submit_routed_value_def query_def submit_job_def skip_def upd_def seq_def same_gates_def open_route_def executor_submit_def awaiting_def)

lemma submits_latest: "rx_accepts e \<Longrightarrow> open_route e r s \<Longrightarrow>
   \<exists>t. for_each xs (\<lambda>x. submit_routed_value e x (f x)) s = (t, [], None) \<and> same_gates s t \<and>
     awaiting r t = (if r \<in> set xs then [f r] else awaiting r s)"
proof (induction xs arbitrary: s)
  case (Cons x xs)
  obtain t where t: "submit_routed_value e x (f x) s = (t, [], None)" "same_gates s t" "awaiting r t = (if x = r then [f x] else awaiting r s)"
    using submit_latest [OF Cons.prems] by blast
  obtain u where u: "for_each xs (\<lambda>x. submit_routed_value e x (f x)) t = (u, [], None)" "same_gates t u"
    "awaiting r u = (if r \<in> set xs then [f r] else awaiting r t)"
    using Cons.IH [OF Cons.prems(1)] Cons.prems(2) open_route_same [OF t(2)] by blast
  show ?case using t u by (auto simp: seq_def same_gates_def)
qed (simp add: skip_def same_gates_def)

lemma latest_offered: "latest ws (map f (filter (\<lambda>x. x = r) xs)) [] (if r \<in> set xs then [f r] else ws)"
proof -
  have m: "map f (filter (\<lambda>x. x = r) xs) = replicate (count_list xs r) (f r)" by (induction xs) auto
  show ?thesis
  proof (cases "r \<in> set xs")
    case True
    then obtain n where n: "count_list xs r = Suc n" by (metis count_list_0_iff not0_implies_Suc)
    have "subseq [f r] (ws @ replicate (Suc n) (f r))" by (simp add: subseq_singleton_left)
    with True m n show ?thesis by (simp add: latest_def)
  next
    case False
    then have "filter (\<lambda>x. x = r) xs = []" by (auto simp: filter_empty_conv)
    with False show ?thesis by (simp add: latest_same)
  qed
qed

lemma data_latest:
  assumes "rx_accepts e" "open_route e r s" "emit_data e p s = (t, es, x)"
  shows "same_gates s t \<and> latest (awaiting r s) (offered e s r (OnData p)) (consumed r es) (awaiting r t)"
proof (cases "quarantined_source e p")
  case True
  with assms show ?thesis by (simp add: emit_data_def offered_def skip_def latest_same same_gates_def)
next
  case False
  obtain u where u: "for_each (payload_routes e s p) (\<lambda>x. submit_routed_value e x (routed_call_for e p x)) s = (u, [], None)" "same_gates s u"
    "awaiting r u = (if r \<in> set (payload_routes e s p) then [routed_call_for e p r] else awaiting r s)"
    using submits_latest [OF assms(1,2)] by blast
  have "t = u" "es = [Delivered p]" using assms(3) u(1) False by (simp_all add: emit_data_def route_sensor_output_def query_def seq_def out_def)
  with u False show ?thesis unfolding offered_def by (simp only: rinput.case if_False consumed_simps latest_offered simp_thms)
qed

lemma begins_latest: "open_route e r s \<Longrightarrow> job_begins e w s = (t, es, x) \<Longrightarrow>
   same_gates s t \<and> latest (awaiting r s) [] (consumed r es) (awaiting r t)"
  by (auto simp: job_begins_def query_def seq_def upd_def out_def skip_def raise_def open_route_def same_gates_def latest_def awaiting_def Let_def
      split: option.splits list.splits if_splits)

lemma ends_latest: "rx_accepts e \<Longrightarrow> job_ends e w s = (t, es, x) \<Longrightarrow> same_gates s t \<and> latest (awaiting r s) [] (consumed r es) (awaiting r t)"
  by (auto simp: job_ends_def query_def seq_def upd_def skip_def raise_def submit_job_def executor_submit_def finish_routed_route_def
      same_gates_def latest_def awaiting_def split: option.splits if_splits)

fun regulates :: "rinput \<Rightarrow> bool" where
  "regulates (Quiesce _) = True"
| "regulates (EnableRouting _) = True"
| "regulates Configure = True"
| "regulates _ = False"

lemma input_latest: "rx_accepts e \<Longrightarrow> open_route e r s \<Longrightarrow> \<not> regulates i \<Longrightarrow> routing_input e i s = (t, es, x) \<Longrightarrow>
   same_gates s t \<and> latest (awaiting r s) (offered e s r i) (consumed r es) (awaiting r t)"
  using data_latest begins_latest ends_latest by (cases i) (simp_all add: offered_def)

lemma offered_same: "same_gates s t \<Longrightarrow> offered e t = offered e s"
proof -
  assume "same_gates s t"
  then have tab: "ro_table t = ro_table s" by (simp add: same_gates_def)
  have p: "payload_routes e t = payload_routes e s" unfolding fun_eq_iff payload_routes_def tab by simp
  show ?thesis unfolding fun_eq_iff offered_def p by simp
qed

text \<open>C34. The latest value wins: while routing is on, what a plugin consumes on a route, followed by the value that
  still waits, is a selection of the values routed to it, in their order, that ends with the newest one.\<close>

theorem routing_latest_wins:
  assumes "rx_accepts e" and "open_route e r s" and "\<forall>x \<in> set xs. \<not> regulates x" and "routing_run e xs s = (t, es)"
    and "awaiting r s = []" and "offers e s r xs \<noteq> []"
  shows "subseq (consumed r es @ awaiting r t) (offers e s r xs) \<and> consumed r es @ awaiting r t \<noteq> [] \<and>
     last (consumed r es @ awaiting r t) = last (offers e s r xs)"
proof -
  have "latest (awaiting r s) (offers e s r xs) (consumed r es) (awaiting r t)" using assms(2,3,4)
  proof (induction xs arbitrary: s es)
    case Nil
    then show ?case by (simp add: offers_def latest_same)
  next
    case (Cons x xs)
    obtain u fs y where u: "routing_input e x s = (u, fs, y)" by (cases "routing_input e x s")
    obtain gs where gs: "routing_run e xs u = (t, gs)" "es = fs @ gs" using Cons.prems(3) u by (auto split: prod.splits)
    note n = input_latest [OF assms(1) Cons.prems(1) _ u]
    have "latest (awaiting r u) (offers e u r xs) (consumed r gs) (awaiting r t)"
      using Cons.IH [OF _ _ gs(1)] Cons.prems n open_route_same [of s u] by auto
    moreover have "offers e u r xs = offers e s r xs" using n Cons.prems by (simp add: offers_def offered_same [of s u])
    ultimately show ?case using latest_trans n Cons.prems gs by (fastforce simp: offers_def)
  qed
  then show ?thesis using assms(5,6) by (simp add: latest_def)
qed

section \<open>Draining\<close>

text \<open>A turn that a worker can take.\<close>

fun possible :: "rinput \<Rightarrow> routing \<Rightarrow> bool" where
  "possible (JobBegins w) s = (map_of (ro_running s) w = None \<and> dget_or (ro_executors s) w [] \<noteq> [])"
| "possible (JobEnds w) s = (map_of (ro_running s) w \<noteq> None)"
| "possible _ s = False"

fun turns :: "renv \<Rightarrow> rinput list \<Rightarrow> routing \<Rightarrow> bool" where
  "turns e [] s = True"
| "turns e (x # xs) s = (possible x s \<and> turns e xs (fst (routing_input e x s)))"

definition turns_left :: "routing \<Rightarrow> nat" where
  "turns_left s = 2 * size (mset (concat (dvalues (ro_executors s)))) + size (mset (dvalues (ro_running s)))"

lemma turns_left_bound: "routing_ok s \<Longrightarrow> turns_left s \<le> 2 * length (ro_pending s)"
proof -
  assume "routing_ok s"
  then have "size (jobs s) = length (ro_pending s)" by (simp add: routing_ok_def)
  then show ?thesis by (simp add: turns_left_def jobs_def)
qed

lemma begins_turn: "routing_ok s \<Longrightarrow> possible (JobBegins w) s \<Longrightarrow> job_begins e w s = (t, es, x) \<Longrightarrow> Suc (turns_left t) = turns_left s"
proof -
  assume o: "routing_ok s" and p: "possible (JobBegins w) s" and b: "job_begins e w s = (t, es, x)"
  obtain r rs where q: "map_of (ro_executors s) w = Some (r # rs)" using p by (auto simp: dget_or_def neq_Nil_conv split: option.splits)
  have c: "mset (concat (dvalues (ro_executors s))) = add_mset r (mset (concat (dvalues (dput w rs (ro_executors s)))))"
    using mset_concat_dput [of "ro_executors s" w rs] o q by (simp add: routing_ok_def dget_or_def)
  have "r \<in># jobs s" by (simp add: jobs_def c)
  then have "r \<in> set (dkeys (ro_pending s))" using o by (metis routing_ok_def set_mset_mset)
  then obtain v where v: "map_of (ro_pending s) r = Some v" by (metis in_dkeys_iff not_None_eq set_map)
  have "ro_executors t = dput w rs (ro_executors s)" "ro_running t = dput w r (ro_running s)"
    using b q v p by (auto simp: job_begins_def query_def seq_def upd_def skip_def out_def Let_def split: option.splits if_splits)
  with p c show ?thesis by (simp add: turns_left_def dput_new)
qed

lemma ends_turn: "routing_ok s \<Longrightarrow> quiesced None s \<Longrightarrow> possible (JobEnds w) s \<Longrightarrow> job_ends e w s = (t, es, x) \<Longrightarrow> Suc (turns_left t) = turns_left s"
proof -
  assume o: "routing_ok s" and n: "quiesced None s" and p: "possible (JobEnds w) s" and b: "job_ends e w s = (t, es, x)"
  obtain r where r: "map_of (ro_running s) w = Some r" using p by auto
  have m: "mset (dvalues (ro_running s)) = add_mset r (mset (dvalues (dpop w (ro_running s))))"
    using mset_dpop_image [of "ro_running s" w r snd] o r by (simp add: routing_ok_def)
  have "v = None" if "map_of (ro_pending s) r = Some v" for v using n map_of_SomeD [OF that] by (force simp: quiesced_def)
  then have "ro_executors t = ro_executors s" "ro_running t = dpop w (ro_running s)"
    using b r by (auto simp: job_ends_def query_def seq_def upd_def raise_def finish_routed_route_def split: option.splits)
  with m show ?thesis by (simp add: turns_left_def del: mset_map)
qed

lemma nothing_possible: "routing_ok s \<Longrightarrow> \<forall>x. \<not> possible x s \<Longrightarrow> ro_pending s = []"
proof -
  assume o: "routing_ok s" and n: "\<forall>x. \<not> possible x s"
  have r: "map_of (ro_running s) w = None" for w using n [THEN spec, of "JobEnds w"] by (cases "map_of (ro_running s) w") simp_all
  then have q: "dget_or (ro_executors s) w [] = []" for w using n [THEN spec, of "JobBegins w"] by simp
  have "ro_running s = []" using r [of "fst (hd (ro_running s))"] by (cases "ro_running s") simp_all
  moreover have "concat (dvalues (ro_executors s)) = []"
  proof -
    have "xs = []" if "(w, xs) \<in> set (ro_executors s)" for w xs
      using q [of w] that o by (simp add: dget_or_def routing_ok_def)
    then show ?thesis by auto
  qed
  ultimately have "jobs s = {#}" by (simp add: jobs_def)
  then show ?thesis using o by (simp add: routing_ok_def)
qed

text \<open>C35. A stop drains the routing: once all routes are quiesced, the workers have at most two turns per route left,
  one to take its job and one to end it; when no turn is possible any more no route has a job, so the wait of
  the stop for the routing ends.\<close>

theorem quiesced_routing_drains:
  assumes "routing_run e0 ys init_routing = (s, fs)" and "turns e xs (quiesce_routing e None s)"
    and "routing_run e xs (quiesce_routing e None s) = (t, es)"
  shows "length xs \<le> 2 * length (ro_pending s) \<and> ((\<forall>x. \<not> possible x t) \<longrightarrow> routing_drained e None t)"
proof -
  have "routing_ok init_routing" by (simp add: routing_ok_def init_routing_def jobs_def)
  then have o: "routing_ok (quiesce_routing e None s)" using ok_quiesce [OF routing_ok_run [OF _ assms(1)]] by blast
  have "turns e xs s \<Longrightarrow> routing_ok s \<Longrightarrow> quiesced None s \<Longrightarrow> routing_run e xs s = (t, es) \<Longrightarrow> length xs \<le> turns_left s \<and> routing_ok t" for s
  proof (induction xs arbitrary: s es)
    case (Cons x xs)
    obtain u fs y where u: "routing_input e x s = (u, fs, y)" by (cases "routing_input e x s")
    obtain gs where gs: "routing_run e xs u = (t, gs)" using Cons.prems(4) u by (auto split: prod.splits)
    have "\<not> enables x" using Cons.prems(1) by (cases x) auto
    then have "quiesced None u" using okD [OF quiesced_input u] Cons.prems(3) by blast
    moreover have "routing_ok u" using routing_ok_run [of s e "[x]" u fs] u Cons.prems(2) by simp
    ultimately have "length xs \<le> turns_left u \<and> routing_ok t" using Cons.IH [OF _ _ _ gs] Cons.prems(1) u by simp
    moreover have "Suc (turns_left u) = turns_left s"
    proof (cases x)
      case (JobBegins w)
      with Cons.prems u show ?thesis by (intro begins_turn [of s w e u fs y]) simp_all
    next
      case (JobEnds w)
      with Cons.prems u show ?thesis by (intro ends_turn [of s w e u fs y]) simp_all
    qed (use Cons.prems(1) in simp_all)
    ultimately show ?case by simp
  qed simp
  from this [OF assms(2) o quiesced_now assms(3)]
  have l: "length xs \<le> turns_left (quiesce_routing e None s)" and t: "routing_ok t" by simp_all
  have "length (ro_pending (quiesce_routing e None s)) = length (ro_pending s)" by (simp add: quiesce_routing_def Let_def)
  with l turns_left_bound [OF o] have "length xs \<le> 2 * length (ro_pending s)" by simp
  with nothing_possible [OF t] show ?thesis by (simp add: routing_drained_def)
qed

section \<open>Examples\<close>

text \<open>A source with two streams and a consumer of one of them.\<close>

definition ex_rsensor :: rsensor where
  "ex_rsensor = \<lparr>rt_address = Some ''A'', rt_name = ''imu'', rt_plugin_id = ''p'', rt_class_name = ''m:C'', rt_routing_inputs = Some [],
     rt_routing_outputs = Some [\<lparr>rn_name = Some ''acc'', rn_schema = None\<rparr>], rt_spec_inputs = [], rt_data_streams = [], rt_subject_id = VNone,
     rt_quarantined = False\<rparr>"

definition ex_renv :: renv where
  "ex_renv = \<lparr>rx_sensor = (\<lambda>i. if i = 0 then ex_rsensor else ex_rsensor\<lparr>rt_address := Some ''B'',
     rt_routing_inputs := Some [\<lparr>rn_name = Some ''ACC'', rn_schema = None\<rparr>], rt_routing_outputs := Some []\<rparr>), rx_sensors = [0, 1], rx_accepts = True\<rparr>"

definition ex_value :: "int \<Rightarrow> payload" where
  "ex_value n = Object [(''address'', VStr ''A''), (''n'', VInt n)]"

definition ex_routing :: routing where
  "ex_routing = (install_routing_table ex_renv init_routing)\<lparr>ro_enabled := True\<rparr>"

definition ex_routed :: "rinput list" where
  "ex_routed = [OnData (ex_value 1), JobBegins VNone, OnData (ex_value 2), OnData (ex_value 3), JobEnds VNone, JobBegins VNone]"

theorem routing_latest_wins_witness:
  "map (\<lambda>c. rq_payload c) (offers ex_renv ex_routing (0, 1) ex_routed) = [ex_value 1, ex_value 2, ex_value 3] \<and>
   map rq_payload (consumed (0, 1) (snd (routing_run ex_renv ex_routed ex_routing))) = [ex_value 1, ex_value 3] \<and>
   last (consumed (0, 1) (snd (routing_run ex_renv ex_routed ex_routing)) @ awaiting (0, 1) (fst (routing_run ex_renv ex_routed ex_routing))) =
     last (offers ex_renv ex_routing (0, 1) ex_routed)"
proof -
  have m: "map (\<lambda>c. rq_payload c) (offers ex_renv ex_routing (0, 1) ex_routed) = [ex_value 1, ex_value 2, ex_value 3]" by code_simp
  then have o: "offers ex_renv ex_routing (0, 1) ex_routed \<noteq> []" by auto
  have c: "map rq_payload (consumed (0, 1) (snd (routing_run ex_renv ex_routed ex_routing))) = [ex_value 1, ex_value 3]" by code_simp
  have a: "rx_accepts ex_renv" "open_route ex_renv (0, 1) ex_routing" "\<forall>x \<in> set ex_routed. \<not> regulates x" "awaiting (0, 1) ex_routing = []"
    by (simp add: ex_renv_def, code_simp, code_simp, code_simp)
  obtain t es where t: "routing_run ex_renv ex_routed ex_routing = (t, es)" by (cases "routing_run ex_renv ex_routed ex_routing")
  from routing_latest_wins [OF a(1-3) t a(4) o] m c show ?thesis unfolding t fst_conv snd_conv by blast
qed

theorem quiesced_routes_silent_witness:
  "\<forall>r c. Consumed r c \<notin> set (snd (routing_run ex_renv ex_routed (quiesce_routing ex_renv None (fst (routing_run ex_renv [OnData (ex_value 0)] ex_routing))))) \<and>
     awaiting (0, 1) (fst (routing_run ex_renv [OnData (ex_value 0)] ex_routing)) \<noteq> []"
proof -
  let ?s = "fst (routing_run ex_renv [OnData (ex_value 0)] ex_routing)"
  obtain t es where t: "routing_run ex_renv ex_routed (quiesce_routing ex_renv None ?s) = (t, es)"
    by (cases "routing_run ex_renv ex_routed (quiesce_routing ex_renv None ?s)")
  have e: "\<forall>x \<in> set ex_routed. \<not> enables x" by code_simp
  have w: "awaiting (0, 1) ?s \<noteq> []" by code_simp
  have "Consumed r c \<notin> set es" for r c using quiesced_routes_silent [OF t e] by blast
  with w show ?thesis unfolding t snd_conv by blast
qed

theorem quiesced_routing_drains_witness:
  "length [JobBegins VNone, JobEnds VNone] \<le> 2 * length (ro_pending (fst (routing_run ex_renv [Configure, EnableRouting [], OnData (ex_value 0)] init_routing))) \<and>
   ro_pending (fst (routing_run ex_renv [Configure, EnableRouting [], OnData (ex_value 0)] init_routing)) \<noteq> []"
proof -
  let ?ys = "[Configure, EnableRouting [], OnData (ex_value 0)]"
  let ?xs = "[JobBegins VNone, JobEnds VNone]"
  let ?s = "fst (routing_run ex_renv ?ys init_routing)"
  have s: "routing_run ex_renv ?ys init_routing = (?s, snd (routing_run ex_renv ?ys init_routing))" by (simp only: prod.collapse)
  have t: "turns ex_renv ?xs (quiesce_routing ex_renv None ?s)" by code_simp
  have n: "ro_pending ?s \<noteq> []" by code_simp
  from quiesced_routing_drains [OF s t, of _ "snd (routing_run ex_renv ?xs (quiesce_routing ex_renv None ?s))", OF prod.collapse [symmetric]] n
  show ?thesis by blast
qed

text \<open>Schemas of declared inputs and outputs are compared as the manifest writes them, while schemas derived from the
  streams of a sensor lose the suffix: a consumer of \<open>ImuSample\<close> is not connected to a sensor that streams it.\<close>

lemma declared_schema_not_canonical:
  "routing_outputs_for_sensor (ex_rsensor\<lparr>rt_routing_outputs := Some [], rt_data_streams := [(''imu'', VDict [(''sample_type'', VStr ''ImuSample'')])]\<rparr>) =
     [\<lparr>rn_name = Some ''imu'', rn_schema = Some ''imu''\<rparr>] \<and>
   \<not> routes_compatible [\<lparr>rn_name = Some ''imu'', rn_schema = Some ''imu''\<rparr>] (routing_entries [VDict [(''schema'', VStr ''ImuSample'')]]) \<and>
   routes_compatible [\<lparr>rn_name = Some ''imu'', rn_schema = Some ''imu''\<rparr>] (normalize_routing_entries [VDict [(''schema'', VStr ''ImuSample'')]])"
  by code_simp

end
