(* ===== verification/Plugin_Bridge.thy ===== *)
theory Plugin_Bridge
  imports Actions
begin

text \<open>
  The bridge between a sensor plugin in its own process and the adapters of the core:
  \<^verbatim>\<open>plugins/runtime/sensor_host.py\<close> (classes \<open>HostAdapterProxy\<close> and \<open>SensorHost\<close>) on the side of the plugin, and the classes
  \<open>SensorHostClient\<close> and \<open>InstalledSensorProxy\<close> of \<^verbatim>\<open>plugins/runtime/sensor_runtime.py\<close> on the side of the core.

  The record \<open>bridge\<close> holds the state of both sides for one sensor. A lifecycle method of the plugin begins, makes
  adapter calls, and returns or raises; these are separate inputs, so notifications, sensor events, losses of
  the transport and questions of the core come in between. A request between the processes either gives the answer
  of the other side or is lost. What the adapter answers is in the record \<open>benv\<close>; the calls of the adapter
  and of the plugin are effects.

  Shown are what a confirmed STOP stands for, and that a subscription is attempted once only.
\<close>

section \<open>State\<close>

datatype host_method = BindSensor | SetupSensor | StartStream | StopStream | IdentifySensor | ConsumeInput

record bridge =
  bg_callbacks :: "(string, string) dict"
  bg_callbacks_by_uuid :: "(string, string) dict"
  bg_next_callback_id :: nat
  bg_last_stop_confirmed :: bool
  bg_running :: "host_method option"
  bg_operation :: bool
  bg_write_unconfirmed :: bool
  bg_operation_confirmed :: bool
  bg_require_confirmation :: bool
  bg_adapter_callbacks :: "(string, string) dict"
  bg_runtime_adapter :: bool
  bg_transport_client :: "nat option"
  bg_manager_loop :: bool
  bg_quarantined :: bool
  bg_cleanup_aborted :: bool
  bg_cleanup_in_progress :: bool

record benv =
  bv_expired :: bool
  bv_lost :: bool
  bv_adapter :: "string \<Rightarrow> string \<Rightarrow> string + val"

datatype beffect =
    AdapterRead nat string
  | AdapterWrite nat string
  | AdapterSubscribe nat string string
  | AdapterUnsubscribe nat string
  | Acknowledged
  | Unacknowledged
  | Began host_method bool
  | Returned host_method bool val
  | BarrierAnswer bool bool
  | Notified string
  | Emitted string

type_synonym bridge_action = "(bridge, beffect) action"

section \<open>The core\<close>

definition wait_for_adapter :: "benv \<Rightarrow> beffect \<Rightarrow> string + val \<Rightarrow> (val \<Rightarrow> bridge_action) \<Rightarrow> bridge_action" where
  "wait_for_adapter e f answer cont = query (\<lambda>s.
     if bg_operation s \<and> bv_expired e then raise ''Sensor operation expired or cancelled''
     else if bg_quarantined s then raise ''Sensor is isolated after physical STOP timeout''
     else if bg_cleanup_aborted s then raise ''Sensor cleanup was interrupted; plugin lifecycle state unavailable''
     else seq (out f) (case answer of Inl x \<Rightarrow> raise x | Inr v \<Rightarrow> cont v))"

definition with_client :: "(nat \<Rightarrow> bridge_action) \<Rightarrow> bridge_action" where
  "with_client cont = query (\<lambda>s.
     if \<not> bg_runtime_adapter s then raise ''sensor proxy adapter not bound''
     else case bg_transport_client s of
       None \<Rightarrow> raise ''sensor proxy transport client not bound''
     | Some c \<Rightarrow> if \<not> bg_manager_loop s then raise ''sensor proxy manager loop not bound'' else cont c)"

definition adapter_read :: "benv \<Rightarrow> string \<Rightarrow> (val \<Rightarrow> bridge_action) \<Rightarrow> bridge_action" where
  "adapter_read e u cont = with_client (\<lambda>c. wait_for_adapter e (AdapterRead c u) (bv_adapter e ''read'' u) cont)"

text \<open>Adapters may return nothing on success.\<close>

definition adapter_write :: "benv \<Rightarrow> string \<Rightarrow> (bool \<Rightarrow> bridge_action) \<Rightarrow> bridge_action" where
  "adapter_write e u cont = with_client (\<lambda>c. wait_for_adapter e (AdapterWrite c u) (bv_adapter e ''write'' u) (\<lambda>v. cont (v \<noteq> VBool False)))"

definition register_host_callback :: "benv \<Rightarrow> string \<Rightarrow> string \<Rightarrow> bridge_action" where
  "register_host_callback e cid u = with_client (\<lambda>c. query (\<lambda>s.
     if map_of (bg_adapter_callbacks s) cid \<noteq> None then skip
     else seq (upd (\<lambda>s. s\<lparr>bg_adapter_callbacks := dput cid u (bg_adapter_callbacks s)\<rparr>))
       (wait_for_adapter e (AdapterSubscribe c u cid) (bv_adapter e ''set_notify_callback'' u) (\<lambda>_. skip))))"

definition unregister_host_callback :: "benv \<Rightarrow> string option \<Rightarrow> string \<Rightarrow> bridge_action" where
  "unregister_host_callback e cid u =
     seq (with_client (\<lambda>c. wait_for_adapter e (AdapterUnsubscribe c u) (bv_adapter e ''unset_notify_callback'' u) (\<lambda>_. skip)))
       (upd (\<lambda>s. s\<lparr>bg_adapter_callbacks := filter (\<lambda>(k, w). cid \<noteq> Some k \<and> w \<noteq> u) (bg_adapter_callbacks s)\<rparr>))"

definition handle_sensor_event :: "string \<Rightarrow> bridge_action" where
  "handle_sensor_event ev = query (\<lambda>s. if bg_quarantined s \<or> bg_cleanup_in_progress s then skip else out (Emitted ev))"

section \<open>The host\<close>

definition request :: "benv \<Rightarrow> bridge_action" where
  "request e = (if bv_lost e then raise ''sensor-host request timed out'' else skip)"

definition unconfirmed_write :: bridge_action where
  "unconfirmed_write = seq (upd (\<lambda>s. s\<lparr>bg_write_unconfirmed := bg_write_unconfirmed s \<or> bg_operation s\<rparr>)) (out Unacknowledged)"

definition confirmed_operation :: bridge_action where
  "confirmed_operation = seq (upd (\<lambda>s. s\<lparr>bg_operation_confirmed := bg_operation_confirmed s \<or> bg_operation s\<rparr>)) (out Acknowledged)"

definition host_read :: "benv \<Rightarrow> string \<Rightarrow> bridge_action" where
  "host_read e u = adapter_read e u (\<lambda>_. request e)"

definition host_write :: "benv \<Rightarrow> string \<Rightarrow> bridge_action" where
  "host_write e u = catch (adapter_write e u (\<lambda>accepted. seq (request e) (if accepted then confirmed_operation else unconfirmed_write)))
     (\<lambda>x. seq unconfirmed_write (raise x))"

definition callback_name :: "nat \<Rightarrow> string" where
  "callback_name n = ''cb-'' @ digits_of n"

definition assign_callback :: "string \<Rightarrow> string \<Rightarrow> bridge \<Rightarrow> bridge" where
  "assign_callback u f s = (case map_of (bg_callbacks_by_uuid s) u of
     Some cid \<Rightarrow> s\<lparr>bg_callbacks := dput cid f (bg_callbacks s)\<rparr>
   | None \<Rightarrow> (let cid = callback_name (bg_next_callback_id s) in
       s\<lparr>bg_next_callback_id := bg_next_callback_id s + 1, bg_callbacks_by_uuid := dput u cid (bg_callbacks_by_uuid s),
         bg_callbacks := dput cid f (bg_callbacks s)\<rparr>))"

definition set_notify_callback :: "benv \<Rightarrow> string \<Rightarrow> string \<Rightarrow> bridge_action" where
  "set_notify_callback e u f = seq (upd (assign_callback u f)) (query (\<lambda>s.
     seq (register_host_callback e (dget_or (bg_callbacks_by_uuid s) u []) u) (request e)))"

definition unset_notify_callback :: "benv \<Rightarrow> string \<Rightarrow> bridge_action" where
  "unset_notify_callback e u = query (\<lambda>s. let cid = map_of (bg_callbacks_by_uuid s) u in
     seq (catch (seq (unregister_host_callback e cid u) (request e)) (\<lambda>x. seq unconfirmed_write (raise x)))
       (seq confirmed_operation
         (upd (\<lambda>s. s\<lparr>bg_callbacks_by_uuid := dpop u (bg_callbacks_by_uuid s),
            bg_callbacks := (case cid of None \<Rightarrow> bg_callbacks s | Some k \<Rightarrow> dpop k (bg_callbacks s))\<rparr>))))"

definition handle_notification :: "string \<Rightarrow> bridge_action" where
  "handle_notification cid = query (\<lambda>s. case map_of (bg_callbacks s) cid of None \<Rightarrow> raise ''KeyError'' | Some f \<Rightarrow> out (Notified f))"

text \<open>\<open>lifecycle_call\<close> holds the lock from the beginning of a method to its end.\<close>

definition method_begins :: "host_method \<Rightarrow> bool \<Rightarrow> bool \<Rightarrow> bridge_action" where
  "method_begins m operation require_confirmation = query (\<lambda>s.
     if bg_running s \<noteq> None then raise ''Previous sensor lifecycle operation is still executing''
     else seq (upd (\<lambda>s. s\<lparr>bg_running := Some m, bg_operation := operation, bg_write_unconfirmed := False, bg_operation_confirmed := False,
         bg_require_confirmation := require_confirmation,
         bg_last_stop_confirmed := bg_last_stop_confirmed s \<and> m \<noteq> StartStream\<rparr>)) (out (Began m operation)))"

definition stop_proof :: "bridge \<Rightarrow> val \<Rightarrow> bool" where
  "stop_proof s v \<longleftrightarrow> \<not> (bg_operation s \<and> bg_write_unconfirmed s) \<and> v \<noteq> VBool False \<and>
     (bg_operation s \<and> bg_operation_confirmed s \<or> v = VBool True)"

definition stop_ok :: "bridge \<Rightarrow> val \<Rightarrow> bool" where
  "stop_ok s v \<longleftrightarrow> \<not> (bg_operation s \<and> bg_write_unconfirmed s) \<and> (bg_require_confirmation s \<longrightarrow> stop_proof s v)"

definition method_returns :: "val \<Rightarrow> bridge_action" where
  "method_returns v = query (\<lambda>s. case bg_running s of
     None \<Rightarrow> skip
   | Some StopStream \<Rightarrow> seq (upd (\<lambda>t. t\<lparr>bg_running := None, bg_operation := False, bg_last_stop_confirmed := bg_last_stop_confirmed t \<or> stop_proof s v\<rparr>))
       (out (Returned StopStream (stop_ok s v) v))
   | Some ConsumeInput \<Rightarrow> seq (upd (\<lambda>t. t\<lparr>bg_running := None, bg_operation := False\<rparr>)) (out (Returned ConsumeInput (truthy v) v))
   | Some m \<Rightarrow> seq (upd (\<lambda>t. t\<lparr>bg_running := None, bg_operation := False\<rparr>)) (out (Returned m True v)))"

definition method_raises :: bridge_action where
  "method_raises = upd (\<lambda>s. s\<lparr>bg_running := None, bg_operation := False\<rparr>)"

definition runtime_barrier :: bridge_action where
  "runtime_barrier = query (\<lambda>s. out (BarrierAnswer (bg_running s = None) (bg_last_stop_confirmed s)))"

text \<open>A new host process knows nothing of the old one.\<close>

definition close_host :: "bridge \<Rightarrow> bridge" where
  "close_host s = s\<lparr>bg_callbacks := [], bg_callbacks_by_uuid := [], bg_next_callback_id := 1, bg_last_stop_confirmed := False,
     bg_running := None, bg_operation := False, bg_adapter_callbacks := []\<rparr>"

definition new_bridge :: bridge where
  "new_bridge = \<lparr>bg_callbacks = [], bg_callbacks_by_uuid = [], bg_next_callback_id = 1, bg_last_stop_confirmed = False, bg_running = None,
     bg_operation = False, bg_write_unconfirmed = False, bg_operation_confirmed = False, bg_require_confirmation = False,
     bg_adapter_callbacks = [], bg_runtime_adapter = False, bg_transport_client = None, bg_manager_loop = False, bg_quarantined = False,
     bg_cleanup_aborted = False, bg_cleanup_in_progress = False\<rparr>"

section \<open>Runs\<close>

datatype binput =
    MethodBegins host_method bool bool
  | PluginReads string
  | PluginWrites string
  | PluginSubscribes string string
  | PluginUnsubscribes string
  | MethodReturns val
  | MethodRaises
  | Barrier
  | Notification string
  | SensorEvent string
  | Bind bool "nat option" bool
  | Fence bool bool bool
  | HostClosed

fun bridge_input :: "benv \<Rightarrow> binput \<Rightarrow> bridge_action" where
  "bridge_input e (MethodBegins m p c) = method_begins m p c"
| "bridge_input e (PluginReads u) = host_read e u"
| "bridge_input e (PluginWrites u) = host_write e u"
| "bridge_input e (PluginSubscribes u f) = set_notify_callback e u f"
| "bridge_input e (PluginUnsubscribes u) = unset_notify_callback e u"
| "bridge_input e (MethodReturns v) = method_returns v"
| "bridge_input e MethodRaises = method_raises"
| "bridge_input e Barrier = runtime_barrier"
| "bridge_input e (Notification cid) = handle_notification cid"
| "bridge_input e (SensorEvent ev) = handle_sensor_event ev"
| "bridge_input e (Bind a c l) = upd (\<lambda>s. s\<lparr>bg_runtime_adapter := a, bg_transport_client := c, bg_manager_loop := l\<rparr>)"
| "bridge_input e (Fence q a c) = upd (\<lambda>s. s\<lparr>bg_quarantined := q, bg_cleanup_aborted := a, bg_cleanup_in_progress := c\<rparr>)"
| "bridge_input e HostClosed = upd close_host"

fun bridge_run :: "(benv \<times> binput) list \<Rightarrow> bridge \<Rightarrow> bridge \<times> beffect list" where
  "bridge_run [] s = (s, [])"
| "bridge_run ((e, x) # xs) s = (case bridge_input e x s of (t, es, _) \<Rightarrow> case bridge_run xs t of (u, fs) \<Rightarrow> (u, es @ fs))"

section \<open>What a confirmed STOP stands for\<close>

text \<open>What adapter calls, notifications and events do to the account of a running method.\<close>

definition traffic :: "bridge \<Rightarrow> bridge \<Rightarrow> beffect list \<Rightarrow> bool" where
  "traffic s t es \<longleftrightarrow> bg_running t = bg_running s \<and> bg_operation t = bg_operation s \<and> bg_last_stop_confirmed t = bg_last_stop_confirmed s \<and>
     (\<forall>m p. Began m p \<notin> set es) \<and>
     (bg_operation s \<and> Unacknowledged \<in> set es \<longrightarrow> bg_write_unconfirmed t) \<and> (bg_write_unconfirmed s \<longrightarrow> bg_write_unconfirmed t) \<and>
     (bg_operation_confirmed t \<longrightarrow> bg_operation_confirmed s \<or> Acknowledged \<in> set es)"

interpretation traffic: action_relation traffic
  by unfold_locales (auto simp: traffic_def)

lemma traffic_marks: "related traffic unconfirmed_write" "related traffic confirmed_operation"
  by (auto simp: related_def traffic_def unconfirmed_write_def confirmed_operation_def seq_def upd_def out_def)

lemma traffic_wait: "(\<And>m p. f \<noteq> Began m p) \<Longrightarrow> f \<noteq> Unacknowledged \<Longrightarrow> (\<And>v. related traffic (k v)) \<Longrightarrow> related traffic (wait_for_adapter e f a k)"
  unfolding wait_for_adapter_def by (intro traffic.rel_intros) (auto simp: traffic_def)

lemma traffic_client: "(\<And>c. related traffic (k c)) \<Longrightarrow> related traffic (with_client k)"
  unfolding with_client_def by (intro traffic.rel_intros)

lemma traffic_upd: "(\<And>s. bg_running (f s) = bg_running s \<and> bg_operation (f s) = bg_operation s \<and> bg_last_stop_confirmed (f s) = bg_last_stop_confirmed s \<and>
   bg_write_unconfirmed (f s) = bg_write_unconfirmed s \<and> bg_operation_confirmed (f s) = bg_operation_confirmed s) \<Longrightarrow> related traffic (upd f)"
  by (rule traffic.rel_upd) (simp add: traffic_def)

lemma traffic_out: "(\<And>m p. f \<noteq> Began m p) \<Longrightarrow> f \<noteq> Unacknowledged \<Longrightarrow> related traffic (out f)"
  by (rule traffic.rel_out) (auto simp: traffic_def)

lemma traffic_request: "related traffic (request e)"
  unfolding request_def by (intro traffic.rel_intros)

lemma traffic_calls: "related traffic (host_read e u)" "related traffic (host_write e u)" "related traffic (set_notify_callback e u f)"
  "related traffic (unset_notify_callback e u)"
  unfolding host_read_def adapter_read_def host_write_def adapter_write_def set_notify_callback_def register_host_callback_def unset_notify_callback_def
    unregister_host_callback_def Let_def
  by (intro traffic.rel_query traffic.rel_seq traffic.rel_catch traffic.rel_if traffic.rel_skip traffic.rel_raise traffic_client traffic_wait
      traffic_request traffic_marks traffic_upd; simp add: assign_callback_def Let_def split: option.split)+

text \<open>The account of a confirmed STOP in the effects so far: the method ran from \<open>Began\<close> to \<open>Returned\<close> alone, the plugin did not report
  a failure, no write of the operation was left unacknowledged, and the adapter or the plugin vouched for it; no stream began since.\<close>

definition stop_account :: "beffect list \<Rightarrow> bool" where
  "stop_account es \<longleftrightarrow> (\<exists>as p bs k v cs. es = as @ Began StopStream p # bs @ Returned StopStream k v # cs \<and>
     (\<forall>m q. Began m q \<notin> set bs) \<and> (p \<longrightarrow> Unacknowledged \<notin> set bs) \<and> v \<noteq> VBool False \<and>
     (v = VBool True \<or> p \<and> Acknowledged \<in> set bs) \<and> (\<forall>q. Began StartStream q \<notin> set cs))"

definition open_account :: "bridge \<Rightarrow> beffect list \<Rightarrow> bool" where
  "open_account s es \<longleftrightarrow> (\<exists>as bs. es = as @ Began StopStream (bg_operation s) # bs \<and> (\<forall>m q. Began m q \<notin> set bs) \<and>
     (bg_operation s \<and> Unacknowledged \<in> set bs \<longrightarrow> bg_write_unconfirmed s) \<and> (bg_operation_confirmed s \<longrightarrow> Acknowledged \<in> set bs))"

definition accounted :: "bridge \<Rightarrow> beffect list \<Rightarrow> bool" where
  "accounted s es \<longleftrightarrow> (bg_last_stop_confirmed s \<longrightarrow> stop_account es) \<and> (bg_running s = Some StopStream \<longrightarrow> open_account s es)"

lemma stop_account_later: "stop_account es \<Longrightarrow> (\<And>q. Began StartStream q \<notin> set fs) \<Longrightarrow> stop_account (es @ fs)"
proof -
  assume "stop_account es" and n: "\<And>q. Began StartStream q \<notin> set fs"
  then obtain as p bs k v cs where "es = as @ Began StopStream p # bs @ Returned StopStream k v # cs" "\<forall>m q. Began m q \<notin> set bs"
    "p \<longrightarrow> Unacknowledged \<notin> set bs" "v \<noteq> VBool False" "v = VBool True \<or> p \<and> Acknowledged \<in> set bs" "\<forall>q. Began StartStream q \<notin> set cs"
    unfolding stop_account_def by blast
  with n show ?thesis unfolding stop_account_def
    by (intro exI [of _ as] exI [of _ p] exI [of _ bs] exI [of _ k] exI [of _ v] exI [of _ "cs @ fs"]) auto
qed

lemma accounted_traffic: "traffic s t fs \<Longrightarrow> accounted s es \<Longrightarrow> accounted t (es @ fs)"
proof -
  assume r: "traffic s t fs" and a: "accounted s es"
  have "open_account t (es @ fs)" if "open_account s es"
  proof -
    from that obtain as bs where b: "es = as @ Began StopStream (bg_operation s) # bs" "\<forall>m q. Began m q \<notin> set bs"
      "bg_operation s \<and> Unacknowledged \<in> set bs \<longrightarrow> bg_write_unconfirmed s" "bg_operation_confirmed s \<longrightarrow> Acknowledged \<in> set bs"
      unfolding open_account_def by blast
    have o: "bg_operation t = bg_operation s" using r by (simp add: traffic_def)
    have "es @ fs = as @ Began StopStream (bg_operation t) # (bs @ fs)" using b(1) o by simp
    moreover have "\<forall>m q. Began m q \<notin> set (bs @ fs)" using b(2) r by (simp add: traffic_def)
    moreover have "bg_operation t \<and> Unacknowledged \<in> set (bs @ fs) \<longrightarrow> bg_write_unconfirmed t" using b(3) r o by (auto simp: traffic_def)
    moreover have "bg_operation_confirmed t \<longrightarrow> Acknowledged \<in> set (bs @ fs)" using b(4) r by (auto simp: traffic_def)
    ultimately show ?thesis unfolding open_account_def by blast
  qed
  with a r stop_account_later [of es fs] show ?thesis by (auto simp: accounted_def traffic_def)
qed

lemma accounted_returns: "accounted s es \<Longrightarrow> method_returns v s = (t, fs, x) \<Longrightarrow> accounted t (es @ fs)"
proof -
  assume a: "accounted s es" and m: "method_returns v s = (t, fs, x)"
  show ?thesis
  proof (cases "bg_running s = Some StopStream")
    case True
    then have t: "t = s\<lparr>bg_running := None, bg_operation := False, bg_last_stop_confirmed := bg_last_stop_confirmed s \<or> stop_proof s v\<rparr>"
      "fs = [Returned StopStream (stop_ok s v) v]" using m by (auto simp: method_returns_def query_def seq_def upd_def out_def)
    have "stop_account (es @ fs)" if p: "stop_proof s v"
    proof -
      from True a obtain as bs where b: "es = as @ Began StopStream (bg_operation s) # bs" "\<forall>m q. Began m q \<notin> set bs"
        "bg_operation s \<and> Unacknowledged \<in> set bs \<longrightarrow> bg_write_unconfirmed s" "bg_operation_confirmed s \<longrightarrow> Acknowledged \<in> set bs"
        unfolding accounted_def open_account_def by blast
      show ?thesis unfolding stop_account_def t
        by (intro exI [of _ as] exI [of _ "bg_operation s"] exI [of _ bs] exI [of _ "stop_ok s v"] exI [of _ v] exI [of _ "[]"])
          (use b p in \<open>auto simp: stop_proof_def\<close>)
    qed
    with a t stop_account_later [of es fs] show ?thesis by (auto simp: accounted_def)
  next
    case False
    then have "bg_running t = None" "bg_last_stop_confirmed t = bg_last_stop_confirmed s" "\<forall>q. Began StartStream q \<notin> set fs"
      using m by (auto simp: method_returns_def query_def seq_def upd_def out_def skip_def split: option.splits host_method.splits)
    with a stop_account_later [of es fs] show ?thesis by (auto simp: accounted_def)
  qed
qed

fun manages :: "binput \<Rightarrow> bool" where
  "manages (MethodBegins _ _ _) = True"
| "manages (MethodReturns _) = True"
| "manages MethodRaises = True"
| "manages HostClosed = True"
| "manages _ = False"

lemma traffic_input: "\<not> manages x \<Longrightarrow> related traffic (bridge_input e x)"
  by (cases x) (auto simp: runtime_barrier_def handle_notification_def handle_sensor_event_def
      intro!: traffic_calls traffic_upd traffic_out traffic.rel_query traffic.rel_option traffic.rel_raise traffic.rel_if traffic.rel_skip)

lemma accounted_begins: "accounted s es \<Longrightarrow> method_begins m p c s = (t, fs, y) \<Longrightarrow> accounted t (es @ fs)"
proof (cases "bg_running s")
  case None
  assume a: "accounted s es" and r: "method_begins m p c s = (t, fs, y)"
  from None r have t: "fs = [Began m p]" "bg_running t = Some m" "bg_operation t = p" "\<not> bg_operation_confirmed t"
    "bg_last_stop_confirmed t = (bg_last_stop_confirmed s \<and> m \<noteq> StartStream)"
    by (auto simp: method_begins_def query_def seq_def upd_def out_def)
  have "open_account t (es @ fs)" if "m = StopStream" unfolding open_account_def using t that by (intro exI [of _ es] exI [of _ "[]"]) simp
  moreover have "stop_account (es @ fs)" if "bg_last_stop_confirmed t"
    using that t a stop_account_later [of es fs] by (auto simp: accounted_def)
  ultimately show ?thesis using t by (auto simp: accounted_def)
next
  case (Some m')
  assume "accounted s es" and "method_begins m p c s = (t, fs, y)"
  with Some show ?thesis by (auto simp: method_begins_def query_def raise_def)
qed

lemma accounted_input: "accounted s es \<Longrightarrow> bridge_input e x s = (t, fs, y) \<Longrightarrow> accounted t (es @ fs)"
proof (cases "manages x")
  case False
  assume a: "accounted s es" and "bridge_input e x s = (t, fs, y)"
  then have "traffic s t fs" using relatedD [OF traffic_input [OF False]] by blast
  then show ?thesis using a by (rule accounted_traffic)
next
  case True
  assume "accounted s es" and "bridge_input e x s = (t, fs, y)"
  with True accounted_begins accounted_returns show ?thesis
    by (cases x) (auto simp: method_raises_def close_host_def upd_def accounted_def)
qed


section \<open>Subscriptions\<close>

text \<open>The core still holds the callback that the host has for a characteristic.\<close>

definition registered :: "string \<Rightarrow> bridge \<Rightarrow> bool" where
  "registered u s \<longleftrightarrow> (\<exists>cid. map_of (bg_callbacks_by_uuid s) u = Some cid \<and> map_of (bg_adapter_callbacks s) cid \<noteq> None)"

definition unsubscribed :: "string \<Rightarrow> bridge \<Rightarrow> bridge \<Rightarrow> beffect list \<Rightarrow> bool" where
  "unsubscribed u s t es \<longleftrightarrow> (registered u s \<longrightarrow> registered u t \<and> (\<forall>c k. AdapterSubscribe c u k \<notin> set es))"

interpretation unsub: action_relation "unsubscribed u" for u
  by unfold_locales (auto simp: unsubscribed_def)

lemma unsub_upd: "(\<And>s. registered u s \<Longrightarrow> registered u (f s)) \<Longrightarrow> related (unsubscribed u) (upd f)"
  by (rule unsub.rel_upd) (simp add: unsubscribed_def)

lemma unsub_out: "(\<And>c k. f \<noteq> AdapterSubscribe c u k) \<Longrightarrow> related (unsubscribed u) (out f)"
  by (rule unsub.rel_out) (auto simp: unsubscribed_def)

lemma registered_same: "bg_callbacks_by_uuid t = bg_callbacks_by_uuid s \<Longrightarrow> bg_adapter_callbacks t = bg_adapter_callbacks s \<Longrightarrow> registered u t = registered u s"
  by (simp add: registered_def)

lemma unsub_frame: "(\<And>s. bg_callbacks_by_uuid (f s) = bg_callbacks_by_uuid s \<and> bg_adapter_callbacks (f s) = bg_adapter_callbacks s) \<Longrightarrow>
   related (unsubscribed u) (upd f)"
  by (rule unsub_upd) (metis registered_same)

lemma unsub_wait: "(\<And>c k. f \<noteq> AdapterSubscribe c u k) \<Longrightarrow> (\<And>v. related (unsubscribed u) (k v)) \<Longrightarrow> related (unsubscribed u) (wait_for_adapter e f a k)"
  unfolding wait_for_adapter_def by (intro unsub.rel_query unsub.rel_if unsub.rel_raise unsub.rel_seq unsub_out unsub.rel_sum)

lemma unsub_client: "(\<And>c. related (unsubscribed u) (k c)) \<Longrightarrow> related (unsubscribed u) (with_client k)"
  unfolding with_client_def by (intro unsub.rel_intros)

lemma unsub_marks: "related (unsubscribed u) unconfirmed_write" "related (unsubscribed u) confirmed_operation" "related (unsubscribed u) (request e)"
  unfolding unconfirmed_write_def confirmed_operation_def request_def
  by (intro unsub.rel_seq unsub_frame unsub_out unsub.rel_if unsub.rel_raise unsub.rel_skip; simp)+

lemma unsub_reads: "related (unsubscribed u) (host_read e w)" "related (unsubscribed u) (host_write e w)"
  unfolding host_read_def adapter_read_def host_write_def adapter_write_def
  by (intro unsub_client unsub_wait unsub_marks unsub.rel_catch unsub.rel_seq unsub.rel_if unsub.rel_raise; simp)+

lemma registered_assign: "registered u s \<Longrightarrow> registered u (assign_callback w f s)"
  by (auto simp: registered_def assign_callback_def Let_def split: option.split)

text \<open>A new subscription is made for another characteristic only.\<close>

lemma unsub_subscribe: "related (unsubscribed u) (set_notify_callback e w f)"
proof (cases "w = u")
  case False
  have "related (unsubscribed u) (register_host_callback e cid w)" for cid unfolding register_host_callback_def
    by (intro unsub_client unsub.rel_query unsub.rel_if unsub.rel_skip unsub.rel_seq unsub_wait unsub_upd) (use False in \<open>auto simp: registered_def\<close>)
  then show ?thesis unfolding set_notify_callback_def
    by (intro unsub.rel_seq unsub_upd registered_assign unsub.rel_query unsub_marks)
next
  case True
  have "unsubscribed u s t es" if "set_notify_callback e u f s = (t, es, x)" for s t es x
  proof (cases "registered u s")
    case True
    then obtain cid where c: "map_of (bg_callbacks_by_uuid s) u = Some cid" "map_of (bg_adapter_callbacks s) cid \<noteq> None" by (auto simp: registered_def)
    define s1 where "s1 = assign_callback u f s"
    have s1: "dget_or (bg_callbacks_by_uuid s1) u [] = cid" "map_of (bg_adapter_callbacks s1) cid \<noteq> None"
      using c by (simp_all add: s1_def assign_callback_def dget_or_def)
    have g: "registered u s1" unfolding s1_def by (rule registered_assign [OF True])
    have r: "\<exists>y. register_host_callback e cid u s1 = (s1, [], y)"
      using s1(2) by (auto simp: register_host_callback_def with_client_def query_def skip_def raise_def split: option.split)
    then have "t = s1" "es = []" using that s1(1) unfolding set_notify_callback_def request_def s1_def [symmetric]
      by (auto simp: seq_def upd_def query_def skip_def raise_def s1_def [symmetric] split: option.splits if_splits)
    with g show ?thesis by (simp add: unsubscribed_def)
  qed (simp add: unsubscribed_def)
  with True show ?thesis by (auto simp: related_def)
qed

fun retires :: "binput \<Rightarrow> bool" where
  "retires (PluginUnsubscribes _) = True"
| "retires HostClosed = True"
| "retires _ = False"

lemma unsub_input: "\<not> retires x \<Longrightarrow> related (unsubscribed u) (bridge_input e x)"
  by (cases x) (auto simp: runtime_barrier_def handle_notification_def handle_sensor_event_def method_begins_def method_returns_def method_raises_def
      intro!: unsub_reads unsub_subscribe unsub_frame unsub_out unsub.rel_query unsub.rel_option unsub.rel_raise unsub.rel_if unsub.rel_skip unsub.rel_seq
      split: host_method.split option.split)

text \<open>A subscription is attempted once: while the core holds the callback of a characteristic, whether its first subscription
  succeeded or failed and whatever transport client the sensor has since, no further subscription of it reaches the
  adapter, until the plugin unsubscribes or its host is closed.\<close>

theorem subscription_attempted_once:
  assumes "registered u s" and "\<forall>(e, x) \<in> set xs. \<not> retires x" and "bridge_run xs s = (t, es)"
  shows "AdapterSubscribe c u k \<notin> set es"
proof -
  have "unsubscribed u s t es" using assms(2,3)
  proof (induction xs arbitrary: s es)
    case Nil
    then show ?case by (simp add: unsub.still)
  next
    case (Cons ex xs)
    obtain e x where ex: "ex = (e, x)" by (cases ex)
    obtain v gs y where v: "bridge_input e x s = (v, gs, y)" by (cases "bridge_input e x s")
    obtain hs where h: "bridge_run xs v = (t, hs)" "es = gs @ hs" using Cons.prems(2) v ex by (auto split: prod.splits)
    have "unsubscribed u s v gs" using relatedD [OF unsub_input v] Cons.prems(1) ex by simp
    then show ?case using Cons.IH [OF _ h(1)] Cons.prems(1) unfolding h(2) by (auto intro: unsub.composed)
  qed
  with assms(1) show ?thesis by (simp add: unsubscribed_def)
qed

section \<open>Examples\<close>

definition ex_benv :: benv where
  "ex_benv = \<lparr>bv_expired = False, bv_lost = False, bv_adapter = (\<lambda>_ _. Inr VNone)\<rparr>"

definition ex_stopping :: "(benv \<times> binput) list" where
  "ex_stopping = [(ex_benv, Bind True (Some 1) True), (ex_benv, MethodBegins StartStream True False), (ex_benv, MethodReturns VNone),
     (ex_benv, MethodBegins StopStream True True), (ex_benv, PluginWrites ''control''), (ex_benv, MethodReturns VNone)]"


text \<open>The adapter rejects the first subscription; after a reconnection it would accept it, but it is not asked.\<close>

definition ex_rejected :: bridge where
  "ex_rejected = fst (bridge_run [(ex_benv, Bind True (Some 1) True),
     (ex_benv\<lparr>bv_adapter := (\<lambda>_ _. Inl ''busy'')\<rparr>, PluginSubscribes ''measurement'' ''f'')] new_bridge)"

theorem subscription_attempted_once_witness:
  "AdapterSubscribe 2 ''measurement'' ''cb-1'' \<notin>
     set (snd (bridge_run [(ex_benv, Bind True (Some 2) True), (ex_benv, PluginSubscribes ''measurement'' ''f'')] ex_rejected)) \<and>
   snd (snd (bridge_input ex_benv (PluginSubscribes ''measurement'' ''f'') ex_rejected)) = None"
proof -
  let ?xs = "[(ex_benv, Bind True (Some 2) True), (ex_benv, PluginSubscribes ''measurement'' ''f'')]"
  have "map_of (bg_callbacks_by_uuid ex_rejected) ''measurement'' = Some ''cb-1'' \<and> map_of (bg_adapter_callbacks ex_rejected) ''cb-1'' = Some ''measurement''"
    by code_simp
  then have g: "registered ''measurement'' ex_rejected" by (auto simp: registered_def)
  have x: "\<forall>(e, x) \<in> set ?xs. \<not> retires x" by simp
  have n: "snd (snd (bridge_input ex_benv (PluginSubscribes ''measurement'' ''f'') ex_rejected)) = None" by code_simp
  from subscription_attempted_once [OF g x prod.collapse [symmetric]] n show ?thesis by blast
qed

end
