(* ===== verification/Worker_Node.thy ===== *)
theory Worker_Node
  imports Core_Run Node_Registry
begin

text \<open>
  The worker node of a cluster, \<^verbatim>\<open>distributed/worker_node.py\<close> (class \<open>WorkerNode\<close>), around the message handler of a node,
  and the event bus \<^verbatim>\<open>gateway/event_bus/system_event_bus.py\<close> that carries the events of the node to it.

  The receive loop, the heartbeat loop and the event bus are threads; each of their turns is an input. Sockets are
  numbered; mDNS, connections and sends answer through the record \<open>wenv\<close>. Times are milliseconds. What the handler does is
  part of the effects.
\<close>

section \<open>The event bus\<close>

definition fill :: "string \<Rightarrow> val \<Rightarrow> (string, val) dict \<Rightarrow> (string, val) dict" where
  "fill k v d = (if truthy v \<and> \<not> truthy (dget_or d k VNone) then dput k v d else d)"

definition fill_context :: "(string, val) dict \<Rightarrow> (string, val) dict \<Rightarrow> (string, val) dict" where
  "fill_context ctx d = fill ''site'' (dget_or ctx ''site_name'' VNone) (fill ''site_id'' (dget_or ctx ''site_id'' VNone)
     (fill ''customer_id'' (dget_or ctx ''customer_id'' VNone) d))"

definition enrich_event :: "(string, val) dict \<Rightarrow> (string, val) dict \<Rightarrow> (string, val) dict" where
  "enrich_event ctx ev = (let ev = fill_context ctx ev in
     case map_of ev ''payload'' of Some (VDict p) \<Rightarrow> dput ''payload'' (VDict (fill_context ctx p)) ev | _ \<Rightarrow> ev)"

record event_bus =
  eb_context :: "(string, val) dict"
  eb_subs :: "string list"
  eb_queue :: "(string, val) dict list"

definition bus_subscribe :: "string \<Rightarrow> bool \<Rightarrow> event_bus \<Rightarrow> event_bus" where
  "bus_subscribe cb prepend b = b\<lparr>eb_subs := (if prepend then cb # eb_subs b else eb_subs b @ [cb])\<rparr>"

definition bus_emit :: "(string, val) dict \<Rightarrow> event_bus \<Rightarrow> event_bus" where
  "bus_emit ev b = b\<lparr>eb_queue := eb_queue b @ [enrich_event (eb_context b) ev]\<rparr>"

text \<open>A turn of the dispatcher: the calls it makes; their exceptions are logged.\<close>

definition bus_dispatch :: "event_bus \<Rightarrow> event_bus \<times> (string \<times> (string, val) dict) list" where
  "bus_dispatch b = (case eb_queue b of [] \<Rightarrow> (b, []) | ev # evs \<Rightarrow> (b\<lparr>eb_queue := evs\<rparr>, map (\<lambda>cb. (cb, ev)) (eb_subs b)))"

lemma fill_explicit: "truthy (dget_or d k VNone) \<Longrightarrow> dget_or (fill k' v d) k VNone = dget_or d k VNone"
  by (auto simp: fill_def dget_or_def)

lemma context_explicit: "truthy (dget_or d k VNone) \<Longrightarrow> dget_or (fill_context ctx d) k VNone = dget_or d k VNone"
  by (simp add: fill_context_def fill_explicit)

text \<open>What an event says explicitly is not overwritten.\<close>

lemma enrich_explicit: "truthy (dget_or ev k VNone) \<Longrightarrow> k \<noteq> ''payload'' \<Longrightarrow> dget_or (enrich_event ctx ev) k VNone = dget_or ev k VNone"
  by (auto simp: enrich_event_def Let_def context_explicit split: option.split val.split)

section \<open>State\<close>

record worker =
  wn_node_id :: string
  wn_ip :: string
  wn_capabilities :: val
  wn_registry :: node_registry
  wn_handler :: handler
  wn_running :: bool
  wn_master :: "(string \<times> int) option"
  wn_dealer :: "nat option"
  wn_open :: "nat list"
  wn_polled :: "nat option"
  wn_next_socket :: nat
  wn_last_sent :: int
  wn_last_heartbeat_sent :: int
  wn_last_recv :: int
  wn_last_reconnect_attempt :: int

record wenv =
  wv_now :: int
  wv_later :: int
  wv_discover :: "string + (string \<times> int)"
  wv_connect :: "string option"
  wv_send :: "string option"
  wv_handler :: henv

datatype weffect = Sent nat val | Closed nat | Node ceffect

type_synonym worker_action = "(worker, weffect) action"

definition HEARTBEAT_INTERVAL :: int where
  "HEARTBEAT_INTERVAL = 30000"

definition RECONNECT_TIMEOUT :: int where
  "RECONNECT_TIMEOUT = 90000"

definition RECONNECT_RETRY_INTERVAL :: int where
  "RECONNECT_RETRY_INTERVAL = 5000"

section \<open>Sockets\<close>

definition open_socket :: "worker \<Rightarrow> worker" where
  "open_socket w = w\<lparr>wn_open := wn_next_socket w # wn_open w, wn_next_socket := wn_next_socket w + 1\<rparr>"

definition close_socket :: "nat \<Rightarrow> worker_action" where
  "close_socket n = query (\<lambda>w. if n \<in> set (wn_open w)
     then seq (upd (\<lambda>w. w\<lparr>wn_open := filter (\<lambda>m. m \<noteq> n) (wn_open w)\<rparr>)) (out (Closed n)) else skip)"

definition send_json :: "wenv \<Rightarrow> val \<Rightarrow> worker_action" where
  "send_json e msg = query (\<lambda>w. case wn_dealer w of
     None \<Rightarrow> raise ''AttributeError''
   | Some n \<Rightarrow> (case wv_send e of Some x \<Rightarrow> raise x | None \<Rightarrow> out (Sent n msg)))"

definition record_sent :: "wenv \<Rightarrow> worker \<Rightarrow> worker" where
  "record_sent e w = w\<lparr>wn_last_sent := wv_now e\<rparr>"

definition record_recv :: "wenv \<Rightarrow> worker \<Rightarrow> worker" where
  "record_recv e w = w\<lparr>wn_last_recv := wv_now e\<rparr>"

definition register_with_master :: "wenv \<Rightarrow> worker_action" where
  "register_with_master e = query (\<lambda>w. seq (send_json e (VDict [(''type'', VStr ''REGISTER''), (''node_id'', VStr (wn_node_id w)),
       (''ip'', VStr (wn_ip w)), (''role'', VStr ''worker''), (''capabilities'', wn_capabilities w)]))
     (upd (record_sent e)))"

definition start_worker :: "wenv \<Rightarrow> worker_action" where
  "start_worker e = seq (upd (\<lambda>w. w\<lparr>wn_running := True\<rparr>)) (case wv_discover e of
     Inl x \<Rightarrow> raise ''Master not found via mDNS''
   | Inr addr \<Rightarrow> query (\<lambda>w. seq (upd (\<lambda>w. (open_socket w)\<lparr>wn_master := Some addr, wn_dealer := Some (wn_next_socket w),
         wn_polled := Some (wn_next_socket w)\<rparr>))
       (seq (register_with_master e) (upd (record_recv e)))))"

definition stop_worker :: worker_action where
  "stop_worker = seq (upd (\<lambda>w. w\<lparr>wn_running := False\<rparr>)) (query (\<lambda>w. case wn_dealer w of None \<Rightarrow> skip | Some n \<Rightarrow> close_socket n))"

definition heartbeat_turn :: "wenv \<Rightarrow> worker_action" where
  "heartbeat_turn e = query (\<lambda>w.
     if \<not> wn_running w \<or> wv_now e - wn_last_heartbeat_sent w < HEARTBEAT_INTERVAL then skip
     else case wn_dealer w of
       None \<Rightarrow> skip
     | Some n \<Rightarrow> if n \<notin> set (wn_open w) then skip
         else catch (seq (send_json e (VDict [(''type'', VStr ''HEARTBEAT''), (''node_id'', VStr (wn_node_id w)), (''ts'', VInt (wv_now e))]))
             (upd (\<lambda>w. record_sent e (w\<lparr>wn_last_heartbeat_sent := wv_now e\<rparr>)))) (\<lambda>_. skip))"

text \<open>A new socket replaces the old one only after the registration has been sent over it.\<close>

definition reconnect_to_master :: "wenv \<Rightarrow> worker_action" where
  "reconnect_to_master e = (case wv_discover e of
     Inl _ \<Rightarrow> skip
   | Inr addr \<Rightarrow> query (\<lambda>w. let n = wn_next_socket w; old_dealer = wn_dealer w in
       seq (upd open_socket) (case wv_connect e of
         Some _ \<Rightarrow> close_socket n
       | None \<Rightarrow> seq (upd (\<lambda>w. w\<lparr>wn_dealer := Some n\<rparr>))
           (catch (seq (register_with_master e)
               (seq (upd (\<lambda>w. w\<lparr>wn_master := Some addr\<rparr>))
               (seq (case old_dealer of None \<Rightarrow> skip | Some m \<Rightarrow> close_socket m)
                 (upd (\<lambda>w. w\<lparr>wn_last_recv := wv_later e, wn_polled := Some n\<rparr>)))))
             (\<lambda>_. seq (upd (\<lambda>w. w\<lparr>wn_dealer := old_dealer\<rparr>)) (close_socket n))))))"

section \<open>Messages\<close>

definition AI_NODE_REGISTRY :: string where
  "AI_NODE_REGISTRY = ''ai_node_registry''"

definition on_handler :: "handler_action \<Rightarrow> worker_action" where
  "on_handler a w = (case a (wn_handler w) of (h, es, x) \<Rightarrow> (w\<lparr>wn_handler := h\<rparr>, map Node es, x))"

definition dispatch_message :: "wenv \<Rightarrow> val \<Rightarrow> worker_action" where
  "dispatch_message e msg = query (\<lambda>w.
     if \<not> is_dict msg then raise ''AttributeError''
     else if vget msg ''type'' = VStr ''REGISTER_ACK''
     then (if mh_core (wn_handler w) = None
           then on_handler (handle (wv_handler e) (VDict [(''type'', VStr CMD_SYSTEM_SETUP),
             (''payload'', VDict [(''file_path'', vget msg ''usb_path'')])]))
           else skip)
     else if vget msg ''type'' = VStr ''HEARTBEAT_ACK'' then skip
     else if vget msg ''type'' = VStr AI_NODE_REGISTRY
     then upd (\<lambda>w. w\<lparr>wn_registry := set_ai_nodes (VInt (wv_now e)) (as_dict (vget (vget msg ''payload'') ''nodes'')) (wn_registry w)\<rparr>)
     else on_handler (handle (wv_handler e) msg))"

text \<open>What arrives: nothing, bytes that are no JSON, or a message. Errors are logged and the loop goes on.\<close>

datatype frame = EmptyFrame | Malformed | Json val

definition receive_frame :: "wenv \<Rightarrow> frame \<Rightarrow> worker_action" where
  "receive_frame e f = query (\<lambda>w. if \<not> wn_running w then skip else (case f of
     Json msg \<Rightarrow> catch (seq (upd (record_recv e)) (dispatch_message e msg)) (\<lambda>_. skip)
   | _ \<Rightarrow> skip))"

definition link_stale :: "wenv \<Rightarrow> worker \<Rightarrow> bool" where
  "link_stale e w \<longleftrightarrow> wn_last_recv w \<noteq> 0 \<and> wv_now e - wn_last_recv w > RECONNECT_TIMEOUT \<and>
     wv_now e - wn_last_reconnect_attempt w \<ge> RECONNECT_RETRY_INTERVAL"

definition poll_timeout :: "wenv \<Rightarrow> worker_action" where
  "poll_timeout e = query (\<lambda>w. if wn_running w \<and> link_stale e w
     then seq (reconnect_to_master e) (upd (\<lambda>w. w\<lparr>wn_last_reconnect_attempt := wv_later e\<rparr>)) else skip)"

definition send_event :: "wenv \<Rightarrow> (string, val) dict \<Rightarrow> worker_action" where
  "send_event e ev = query (\<lambda>w. if \<not> wn_running w then skip
     else case wn_dealer w of
       None \<Rightarrow> skip
     | Some n \<Rightarrow> if n \<notin> set (wn_open w) then skip
         else seq (send_json e (VDict (dput ''node_id'' (VStr (wn_node_id w)) ev))) (upd (record_sent e)))"

section \<open>Runs\<close>

datatype winput = Frame frame | PollTimeout | HeartbeatTurn | EventOut "(string, val) dict" | StopWorker

fun worker_input :: "wenv \<Rightarrow> winput \<Rightarrow> worker_action" where
  "worker_input e (Frame f) = receive_frame e f"
| "worker_input e PollTimeout = poll_timeout e"
| "worker_input e HeartbeatTurn = heartbeat_turn e"
| "worker_input e (EventOut ev) = send_event e ev"
| "worker_input e StopWorker = stop_worker"

fun worker_run :: "(wenv \<times> winput) list \<Rightarrow> worker \<Rightarrow> worker \<times> weffect list" where
  "worker_run [] w = (w, [])"
| "worker_run ((e, i) # xs) w = (case worker_input e i w of (v, es, _) \<Rightarrow> case worker_run xs v of (u, fs) \<Rightarrow> (u, es @ fs))"

section \<open>The link\<close>

text \<open>A running worker has exactly one open socket: the one it sends on, and the one its loop polls.\<close>

definition link_ok :: "worker \<Rightarrow> bool" where
  "link_ok w \<longleftrightarrow> (if wn_running w then (\<exists>n. wn_dealer w = Some n \<and> wn_open w = [n] \<and> wn_polled w = Some n \<and> n < wn_next_socket w)
     else wn_open w = [])"

lemma link_ok_same: "link_ok w \<Longrightarrow> wn_running v = wn_running w \<Longrightarrow> wn_dealer v = wn_dealer w \<Longrightarrow> wn_open v = wn_open w \<Longrightarrow>
   wn_polled v = wn_polled w \<Longrightarrow> wn_next_socket v = wn_next_socket w \<Longrightarrow> link_ok v"
  by (simp add: link_ok_def)

lemma link_times: "link_ok (record_sent e w) = link_ok w" "link_ok (record_recv e w) = link_ok w"
  "link_ok (w\<lparr>wn_last_heartbeat_sent := k\<rparr>) = link_ok w" "link_ok (w\<lparr>wn_last_reconnect_attempt := k\<rparr>) = link_ok w"
  "link_ok (w\<lparr>wn_handler := h\<rparr>) = link_ok w" "link_ok (w\<lparr>wn_registry := g\<rparr>) = link_ok w"
  by (simp_all add: link_ok_def record_sent_def record_recv_def)

lemma link_send: "link_ok w \<Longrightarrow> ok link_ok (\<lambda>_. True) (send_json e msg) w"
  by (simp add: send_json_def ok_simps split: option.split)

lemma link_handler: "link_ok w \<Longrightarrow> ok link_ok (\<lambda>_. True) (on_handler a) w"
  by (simp add: ok_def on_handler_def link_times split: prod.split)

lemma link_dispatch: "link_ok w \<Longrightarrow> ok link_ok (\<lambda>_. True) (dispatch_message e msg) w"
  unfolding dispatch_message_def by (intro ok_query ok_branch ok_raise ok_skip link_handler ok_upd) (simp_all add: link_times)

text \<open>How a reconnection ends: on a new socket, with the old one closed, or as it began.\<close>

lemma reconnect_exec: "link_ok w \<Longrightarrow> wn_running w \<Longrightarrow> reconnect_to_master e w = (v, es, x) \<Longrightarrow>
   link_ok v \<and> wn_running v \<and> wn_handler v = wn_handler w \<and> x = None \<and> (\<forall>f. Node f \<notin> set es)"
  by (auto simp: link_ok_def reconnect_to_master_def query_def seq_def upd_def catch_def skip_def out_def raise_def open_socket_def close_socket_def
      register_with_master_def send_json_def record_sent_def Let_def split: sum.splits option.splits if_splits)

lemma link_reconnect: "link_ok w \<Longrightarrow> wn_running w \<Longrightarrow> ok link_ok (\<lambda>_. True) (reconnect_to_master e) w"
  unfolding ok_def using reconnect_exec [of w e] by (auto split: prod.split)

lemma link_stop: "link_ok w \<Longrightarrow> ok link_ok (\<lambda>_. True) stop_worker w"
  by (auto simp: stop_worker_def close_socket_def ok_def link_ok_def query_def seq_def upd_def out_def skip_def split: option.split if_splits)

lemma link_input: "link_ok w \<Longrightarrow> ok link_ok (\<lambda>_. True) (worker_input e i) w"
proof (cases i)
  case (Frame f)
  assume w: "link_ok w"
  have "ok link_ok (\<lambda>_. True) (receive_frame e f) w" unfolding receive_frame_def
    by (cases f) (auto simp: ok_simps w link_times intro!: ok_catch ok_seq ok_upd ok_skip link_dispatch)
  with Frame show ?thesis by simp
next
  case PollTimeout
  assume w: "link_ok w"
  then have "ok link_ok (\<lambda>_. True) (poll_timeout e) w" unfolding poll_timeout_def
    by (auto simp: ok_simps link_times intro!: ok_seq ok_upd link_reconnect)
  with PollTimeout show ?thesis by simp
next
  case HeartbeatTurn
  assume w: "link_ok w"
  then have "ok link_ok (\<lambda>_. True) (heartbeat_turn e) w" unfolding heartbeat_turn_def
    by (intro ok_query ok_branch ok_option ok_skip ok_catch ok_seq link_send ok_upd) (simp_all add: link_times)
  with HeartbeatTurn show ?thesis by simp
next
  case (EventOut ev)
  assume w: "link_ok w"
  then have "ok link_ok (\<lambda>_. True) (send_event e ev) w" unfolding send_event_def
    by (intro ok_query ok_branch ok_option ok_skip ok_seq link_send ok_upd) (simp_all add: link_times)
  with EventOut show ?thesis by simp
qed (simp add: link_stop)

lemma link_start: "link_ok w \<Longrightarrow> \<not> wn_running w \<Longrightarrow> start_worker e w = (v, es, None) \<Longrightarrow> link_ok v"
  by (auto simp: start_worker_def link_ok_def open_socket_def register_with_master_def send_json_def record_sent_def record_recv_def query_def seq_def upd_def
      out_def raise_def split: sum.splits option.splits)

section \<open>The core behind the link\<close>

fun link_traffic :: "winput \<Rightarrow> bool" where
  "link_traffic (Frame (Json msg)) = (vget msg ''type'' \<in> {VStr ''REGISTER_ACK'', VStr ''HEARTBEAT_ACK'', VStr AI_NODE_REGISTRY})"
| "link_traffic _ = True"

definition untouched :: "worker \<Rightarrow> worker \<Rightarrow> weffect list \<Rightarrow> bool" where
  "untouched w v es \<longleftrightarrow> wn_handler v = wn_handler w \<and> (\<forall>f. Node f \<notin> set es)"

interpretation untouched: action_relation untouched
  by unfold_locales (auto simp: untouched_def)

lemma untouched_upd: "(\<And>w. wn_handler (f w) = wn_handler w) \<Longrightarrow> related untouched (upd f)"
  by (rule untouched.rel_upd) (simp add: untouched_def)

lemma untouched_out: "(\<And>g. f \<noteq> Node g) \<Longrightarrow> related untouched (out f)"
  by (rule untouched.rel_out) (auto simp: untouched_def)

lemma untouched_send: "related untouched (send_json e msg)"
  unfolding send_json_def by (intro untouched.rel_query untouched.rel_option untouched.rel_raise untouched_out) simp

lemma untouched_close: "related untouched (close_socket n)"
  unfolding close_socket_def by (intro untouched.rel_query untouched.rel_if untouched.rel_seq untouched.rel_skip untouched_upd untouched_out) simp_all

lemma untouched_register: "related untouched (register_with_master e)"
  unfolding register_with_master_def by (intro untouched.rel_query untouched.rel_seq untouched_send untouched_upd) (simp add: record_sent_def)

lemma untouched_reconnect: "related untouched (reconnect_to_master e)"
  unfolding reconnect_to_master_def Let_def
  by (intro untouched.rel_sum untouched.rel_skip untouched.rel_query untouched.rel_seq untouched.rel_option untouched.rel_catch untouched_close
      untouched_register untouched_upd) (simp_all add: open_socket_def)

lemma untouched_turns: "related untouched (poll_timeout e)" "related untouched (heartbeat_turn e)" "related untouched (send_event e ev)"
  "related untouched stop_worker"
  unfolding poll_timeout_def heartbeat_turn_def send_event_def stop_worker_def
  by (intro untouched.rel_query untouched.rel_if untouched.rel_skip untouched.rel_seq untouched.rel_option untouched.rel_catch untouched_reconnect
      untouched_send untouched_upd untouched_close; simp add: record_sent_def)+

lemma untouched_frame: "mh_core (wn_handler w) \<noteq> None \<Longrightarrow> link_traffic (Frame f) \<Longrightarrow> receive_frame e f w = (v, es, x) \<Longrightarrow> untouched w v es"
  by (cases f) (auto simp: receive_frame_def dispatch_message_def record_recv_def query_def seq_def upd_def catch_def skip_def raise_def untouched_def
      AI_NODE_REGISTRY_def split: if_splits)

lemma untouched_input: "mh_core (wn_handler w) \<noteq> None \<Longrightarrow> link_traffic i \<Longrightarrow> worker_input e i w = (v, es, x) \<Longrightarrow> untouched w v es"
  by (cases i) (auto simp: untouched_frame dest: relatedD [OF untouched_turns(1)] relatedD [OF untouched_turns(2)] relatedD [OF untouched_turns(3)]
      relatedD [OF untouched_turns(4)])

text \<open>C27. The link never costs a worker its session: over any run of registrations, heartbeats, lost links, reconnections
  that succeed or fail, events and registry updates, the core with its subjects and sensors stays the one it was, nothing
  is done on it, and a running worker keeps exactly one open socket, the one it sends on and listens to.\<close>

theorem worker_survives_reconnection:
  assumes "link_ok w" and "mh_core (wn_handler w) \<noteq> None" and "\<forall>(e, i) \<in> set xs. link_traffic i" and "worker_run xs w = (v, es)"
  shows "wn_handler v = wn_handler w \<and> (\<forall>f. Node f \<notin> set es) \<and> link_ok v"
  using assms
proof (induction xs arbitrary: w es)
  case (Cons ei xs)
  obtain e i where ei: "ei = (e, i)" by (cases ei)
  obtain u fs y where u: "worker_input e i w = (u, fs, y)" by (cases "worker_input e i w")
  obtain gs where g: "worker_run xs u = (v, gs)" "es = fs @ gs" using Cons.prems(4) u ei by (auto split: prod.splits)
  have "untouched w u fs" using untouched_input [OF Cons.prems(2) _ u] Cons.prems(3) ei by simp
  moreover have "link_ok u" using okD [OF link_input u] Cons.prems(1) by blast
  ultimately show ?case using Cons.IH [OF _ _ _ g(1)] Cons.prems(2,3) g(2) by (auto simp: untouched_def)
qed simp

section \<open>Examples\<close>

definition ex_worker :: worker where
  "ex_worker = \<lparr>wn_node_id = ''w1'', wn_ip = ''10.0.0.2'', wn_capabilities = VNone, wn_registry = init_node_registry, wn_handler = ex_handler, wn_running = True,
     wn_master = Some (''10.0.0.1'', 5555), wn_dealer = Some 0, wn_open = [0], wn_polled = Some 0, wn_next_socket = 1, wn_last_sent = 1000,
     wn_last_heartbeat_sent = 1000, wn_last_recv = 1000, wn_last_reconnect_attempt = 0\<rparr>"

definition ex_wenv :: "int \<Rightarrow> wenv" where
  "ex_wenv now = \<lparr>wv_now = now, wv_later = now, wv_discover = Inr (''10.0.0.9'', 5555), wv_connect = None, wv_send = None, wv_handler = ex_henv\<rparr>"

text \<open>The coordinator is silent for two minutes, is found at another address and acknowledges the registration.\<close>

theorem worker_survives_reconnection_witness:
  "wn_dealer (fst (worker_run [(ex_wenv 120000, PollTimeout), (ex_wenv 121000, Frame (Json (VDict [(''type'', VStr ''REGISTER_ACK'')])))] ex_worker)) = Some 1 \<and>
   wn_handler (fst (worker_run [(ex_wenv 120000, PollTimeout), (ex_wenv 121000, Frame (Json (VDict [(''type'', VStr ''REGISTER_ACK'')])))] ex_worker)) = ex_handler"
proof -
  let ?xs = "[(ex_wenv 120000, PollTimeout), (ex_wenv 121000, Frame (Json (VDict [(''type'', VStr ''REGISTER_ACK'')])))]"
  have w: "link_ok ex_worker" "mh_core (wn_handler ex_worker) \<noteq> None" "\<forall>(e, i) \<in> set ?xs. link_traffic i" "wn_handler ex_worker = ex_handler"
    by (simp_all add: link_ok_def ex_worker_def ex_handler_def vget_VDict)
  have d: "wn_dealer (fst (worker_run ?xs ex_worker)) = Some 1" by code_simp
  from worker_survives_reconnection [OF w(1-3) prod.collapse [symmetric]] w(4) d show ?thesis by simp
qed

end
