(* ===== verification/Json_Rpc.thy ===== *)
theory Json_Rpc
  imports Actions "HOL-Library.Sublist"
begin

text \<open>
  The connection between the core and a plugin process, \<^verbatim>\<open>plugins/common/jsonrpc.py\<close> (class \<open>JsonRpcConnection\<close>), with the
  operations of \<^verbatim>\<open>plugins/common/operations.py\<close> that travel with the requests.

  Any number of threads call \<open>request\<close>; each is a waiter, and its way through the method is cut where other threads can come
  between: after the test that the connection is open, after the registration under the lock, after the write, and at the
  wait. A write is one step. The reader takes one line at a time; incoming requests run on threads of their own or, for ordered methods, on
  one worker, and a handler runs between the turn that calls it and the input with which it returns. \<open>close\<close> is one step: a
  registration between its flag and its release of the requests is released like one before it.

  Operations are objects shared by the threads of one side: they live in a store, and waiters, calls and the table of the
  connection refer to them by position. Their flags for adapter writes are part of \<open>Plugin_Bridge\<close>. Times are integers;
  the text of an exception of the language is its class. Names and identifiers of messages are scalars.
\<close>

section \<open>Operations\<close>

record operation =
  op_deadline :: int
  op_id :: val
  op_cancelled :: bool

definition op_expired :: "int \<Rightarrow> operation \<Rightarrow> bool" where
  "op_expired now p \<longleftrightarrow> op_cancelled p \<or> now \<ge> op_deadline p"

definition op_wire :: "operation \<Rightarrow> val" where
  "op_wire p = VDict [(''id'', op_id p), (''deadline'', VInt (op_deadline p))]"

section \<open>State\<close>

datatype stage = Opened | Registered | Waiting int

record waiter =
  wt_id :: string
  wt_method :: string
  wt_params :: val
  wt_timeout :: int
  wt_operation :: "nat option"
  wt_stage :: stage
  wt_response :: "val option"

datatype job = Fresh val | Calling val "nat option"

datatype ordered_worker = Unstarted | Idle | Working job | Ended

datatype reader = NotStarted | Reading | Stopped

record rpc_conn =
  rp_name :: string
  rp_closed :: bool
  rp_pending :: "(string, nat) dict"
  rp_waiters :: "(nat, waiter) dict"
  rp_operations :: "(val, nat) dict"
  rp_objects :: "operation list"
  rp_handlers :: "(string, nat) dict"
  rp_ordered :: "string list"
  rp_queue :: "val option list"
  rp_worker :: ordered_worker
  rp_reader :: reader
  rp_threads :: "(nat, job) dict"
  rp_next :: nat

text \<open>What the system answers during a step: three readings of the clock in their order, a fresh identifier, the exception of a
  write (of \<open>json.dumps\<close>, \<open>write\<close> or \<open>flush\<close>), and \<open>float\<close> of a string.\<close>

record rpc_env =
  pe_now :: int
  pe_later :: int
  pe_latest :: int
  pe_uuid :: string
  pe_write :: "val \<Rightarrow> string option"
  pe_float :: "string \<Rightarrow> string + int"

text \<open>\<open>Called\<close> names the method, the handler, the parameters and the operation the handler runs under.\<close>

datatype rpc_effect = Wrote val | Called string nat val "val option" | Returned nat val | Failed nat string

type_synonym rpc_action = "(rpc_conn, rpc_effect) action"

definition new_rpc :: "string \<Rightarrow> rpc_conn" where
  "new_rpc name = \<lparr>rp_name = name, rp_closed = False, rp_pending = [], rp_waiters = [], rp_operations = [], rp_objects = [],
     rp_handlers = [], rp_ordered = [], rp_queue = [], rp_worker = Unstarted, rp_reader = NotStarted, rp_threads = [], rp_next = 0\<rparr>"

definition closed_text :: "rpc_conn \<Rightarrow> string" where
  "closed_text s = rp_name s @ '' connection closed''"

definition register_handler :: "string \<Rightarrow> nat \<Rightarrow> bool \<Rightarrow> rpc_conn \<Rightarrow> rpc_conn" where
  "register_handler method h ordered s = s\<lparr>rp_handlers := dput method h (rp_handlers s),
     rp_ordered := (if ordered then List.insert method (rp_ordered s) else removeAll method (rp_ordered s))\<rparr>"

definition start_rpc :: rpc_action where
  "start_rpc = seq (query (\<lambda>s. case rp_worker s of
       Unstarted \<Rightarrow> upd (\<lambda>s. s\<lparr>rp_worker := Idle\<rparr>) | Ended \<Rightarrow> raise ''RuntimeError'' | _ \<Rightarrow> skip))
     (query (\<lambda>s. case rp_reader s of
       NotStarted \<Rightarrow> upd (\<lambda>s. s\<lparr>rp_reader := Reading\<rparr>) | Stopped \<Rightarrow> raise ''RuntimeError'' | Reading \<Rightarrow> skip))"

definition ensure_open :: rpc_action where
  "ensure_open = query (\<lambda>s. if rp_closed s then raise (closed_text s) else skip)"

section \<open>Writing\<close>

definition operation_check :: "int \<Rightarrow> nat \<Rightarrow> rpc_action" where
  "operation_check now r = query (\<lambda>s. if op_expired now (rp_objects s ! r) then raise ''Sensor operation expired or cancelled'' else skip)"

definition prune :: "int \<Rightarrow> rpc_conn \<Rightarrow> rpc_conn" where
  "prune now s = s\<lparr>rp_operations := filter (\<lambda>(k, r). op_deadline (rp_objects s ! r) > now) (rp_operations s)\<rparr>"

definition put_line :: "rpc_env \<Rightarrow> val \<Rightarrow> rpc_action" where
  "put_line e payload = (case pe_write e payload of Some x \<Rightarrow> raise x | None \<Rightarrow> out (Wrote payload))"

definition write_message :: "rpc_env \<Rightarrow> nat option \<Rightarrow> (string, val) dict \<Rightarrow> rpc_action" where
  "write_message e operation payload = (case operation of
     Some r \<Rightarrow> if map_of payload ''method'' \<noteq> None
       then seq (operation_check (pe_now e) r) (query (\<lambda>s.
         seq (upd (prune (pe_now e))) (seq (upd (\<lambda>s. s\<lparr>rp_operations := dput (op_id (rp_objects s ! r)) r (rp_operations s)\<rparr>))
           (seq (operation_check (pe_later e) r)
             (put_line e (VDict (dput ''operation'' (op_wire (rp_objects s ! r)) payload)))))))
       else put_line e (VDict payload)
   | None \<Rightarrow> put_line e (VDict payload))"

section \<open>Requests\<close>

definition set_waiter :: "nat \<Rightarrow> waiter \<Rightarrow> rpc_conn \<Rightarrow> rpc_conn" where
  "set_waiter t w s = s\<lparr>rp_waiters := dput t w (rp_waiters s)\<rparr>"

text \<open>The \<open>finally\<close> of \<open>request\<close>.\<close>

definition retire :: "nat \<Rightarrow> waiter \<Rightarrow> rpc_conn \<Rightarrow> rpc_conn" where
  "retire t w s = s\<lparr>rp_pending := dpop (wt_id w) (rp_pending s), rp_waiters := dpop t (rp_waiters s)\<rparr>"

definition request_open :: "rpc_env \<Rightarrow> string \<Rightarrow> val \<Rightarrow> int \<Rightarrow> nat option \<Rightarrow> rpc_action" where
  "request_open e method params timeout operation = seq ensure_open
     (upd (\<lambda>s. set_waiter (rp_next s) \<lparr>wt_id = pe_uuid e, wt_method = method, wt_params = py_or params (VDict []), wt_timeout = timeout,
        wt_operation = operation, wt_stage = Opened, wt_response = None\<rparr> (s\<lparr>rp_next := Suc (rp_next s)\<rparr>)))"

definition request_register :: "nat \<Rightarrow> waiter \<Rightarrow> rpc_action" where
  "request_register t w = upd (\<lambda>s. set_waiter t (w\<lparr>wt_stage := Registered\<rparr>) (s\<lparr>rp_pending := dput (wt_id w) t (rp_pending s)\<rparr>))"

definition wait_until :: "rpc_env \<Rightarrow> waiter \<Rightarrow> rpc_conn \<Rightarrow> int" where
  "wait_until e w s = pe_latest e + (case wt_operation w of None \<Rightarrow> wt_timeout w
     | Some r \<Rightarrow> min (wt_timeout w) (max 0 (op_deadline (rp_objects s ! r) - pe_latest e)))"

definition request_send :: "rpc_env \<Rightarrow> nat \<Rightarrow> waiter \<Rightarrow> rpc_action" where
  "request_send e t w = catch
     (seq (write_message e (wt_operation w) [(''jsonrpc'', VStr ''2.0''), (''id'', VStr (wt_id w)), (''method'', VStr (wt_method w)),
         (''params'', wt_params w)])
       (upd (\<lambda>s. set_waiter t (w\<lparr>wt_stage := Waiting (wait_until e w s)\<rparr>) s)))
     (\<lambda>x. seq (upd (retire t w)) (out (Failed t x)))"

definition response_error :: "rpc_conn \<Rightarrow> waiter \<Rightarrow> val \<Rightarrow> string" where
  "response_error s w error = (let error = py_or error (VDict []) in
     if \<not> is_dict error then ''AttributeError''
     else py_str (py_or (vget error ''message'') (VStr (rp_name s @ '' request failed: '' @ wt_method w))))"

definition request_outcome :: "rpc_conn \<Rightarrow> nat \<Rightarrow> waiter \<Rightarrow> val \<Rightarrow> rpc_effect" where
  "request_outcome s t w response = (case map_of (as_dict response) ''error'' of
     Some error \<Rightarrow> Failed t (response_error s w error)
   | None \<Rightarrow> Returned t (vget response ''result''))"

definition request_finish :: "rpc_env \<Rightarrow> nat \<Rightarrow> waiter \<Rightarrow> rpc_action" where
  "request_finish e t w = query (\<lambda>s. case wt_response w of
     Some response \<Rightarrow> seq (upd (retire t w)) (out (request_outcome s t w (py_or response (VDict []))))
   | None \<Rightarrow> (case wt_stage w of
       Waiting limit \<Rightarrow> if pe_now e < limit then skip
         else seq (upd (retire t w)) (out (Failed t (rp_name s @ '' request timed out: '' @ wt_method w)))
     | _ \<Rightarrow> skip))"

text \<open>The next step of a thread in \<open>request\<close>.\<close>

definition request_turn :: "rpc_env \<Rightarrow> nat \<Rightarrow> rpc_action" where
  "request_turn e t = query (\<lambda>s. case map_of (rp_waiters s) t of
     None \<Rightarrow> skip
   | Some w \<Rightarrow> (case wt_stage w of
       Opened \<Rightarrow> request_register t w
     | Registered \<Rightarrow> request_send e t w
     | Waiting _ \<Rightarrow> request_finish e t w))"

definition notify :: "rpc_env \<Rightarrow> string \<Rightarrow> val \<Rightarrow> nat option \<Rightarrow> rpc_action" where
  "notify e method params operation = seq ensure_open
     (write_message e operation [(''jsonrpc'', VStr ''2.0''), (''method'', VStr method), (''params'', py_or params (VDict []))])"

section \<open>Closing\<close>

definition release :: "val \<Rightarrow> nat \<Rightarrow> (nat, waiter) dict \<Rightarrow> (nat, waiter) dict" where
  "release response t ws = (case map_of ws t of None \<Rightarrow> ws | Some w \<Rightarrow> dput t (w\<lparr>wt_response := Some response\<rparr>) ws)"

definition fail_pending :: "rpc_conn \<Rightarrow> rpc_conn" where
  "fail_pending s = s\<lparr>rp_pending := [],
     rp_waiters := fold (release (VDict [(''error'', VDict [(''message'', VStr (closed_text s))])])) (dvalues (rp_pending s)) (rp_waiters s)\<rparr>"

definition shut :: "rpc_conn \<Rightarrow> rpc_conn" where
  "shut s = (let s = fail_pending (s\<lparr>rp_closed := True\<rparr>) in s\<lparr>rp_queue := rp_queue s @ [None]\<rparr>)"

definition close_rpc :: rpc_action where
  "close_rpc = query (\<lambda>s. if rp_closed s then skip else upd shut)"

section \<open>Reading\<close>

definition method_of :: "val \<Rightarrow> string" where
  "method_of message = py_str (py_or (vget message ''method'') (VStr []))"

fun has_method :: "val \<Rightarrow> string + bool" where
  "has_method (VDict d) = Inr (map_of d ''method'' \<noteq> None)"
| "has_method (VList vs) = Inr (VStr ''method'' \<in> set vs)"
| "has_method (VStr s) = Inr (sublist ''method'' s)"
| "has_method _ = Inl ''TypeError''"

definition dispatch_request :: "val \<Rightarrow> rpc_action" where
  "dispatch_request message = (if \<not> is_dict message then raise ''AttributeError''
     else query (\<lambda>s. if method_of message \<in> set (rp_ordered s)
       then upd (\<lambda>s. s\<lparr>rp_queue := rp_queue s @ [Some message]\<rparr>)
       else upd (\<lambda>s. s\<lparr>rp_threads := dput (rp_next s) (Fresh message) (rp_threads s), rp_next := Suc (rp_next s)\<rparr>)))"

definition dispatch_response :: "val \<Rightarrow> rpc_action" where
  "dispatch_response message = (if \<not> is_dict message then raise ''AttributeError''
     else query (\<lambda>s. let request_id = py_str (py_or (vget message ''id'') (VStr [])) in
       case map_of (rp_pending s) request_id of
         None \<Rightarrow> skip
       | Some t \<Rightarrow> upd (\<lambda>s. s\<lparr>rp_pending := dpop request_id (rp_pending s), rp_waiters := release message t (rp_waiters s)\<rparr>)))"

datatype line = Blank | NotJson | Message val

definition stop_reading :: rpc_action where
  "stop_reading = upd (\<lambda>s. shut (s\<lparr>rp_reader := Stopped\<rparr>))"

definition read_line :: "line \<Rightarrow> rpc_action" where
  "read_line l = query (\<lambda>s. if rp_reader s \<noteq> Reading then skip else (case l of
     Message message \<Rightarrow> catch (case has_method message of
         Inl x \<Rightarrow> raise x
       | Inr True \<Rightarrow> dispatch_request message
       | Inr False \<Rightarrow> dispatch_response message) (\<lambda>_. stop_reading)
   | _ \<Rightarrow> skip))"

definition end_of_input :: rpc_action where
  "end_of_input = query (\<lambda>s. if rp_reader s \<noteq> Reading then skip else stop_reading)"

section \<open>Handling requests\<close>

definition answer_request :: "rpc_env \<Rightarrow> val \<Rightarrow> string \<Rightarrow> val \<Rightarrow> rpc_action" where
  "answer_request e message k v = (if vget message ''id'' = VNone then skip
     else write_message e None [(''jsonrpc'', VStr ''2.0''), (''id'', vget message ''id''), (k, v)])"

definition error_val :: "int \<Rightarrow> string \<Rightarrow> val" where
  "error_val code text = VDict [(''code'', VInt code), (''message'', VStr text)]"

text \<open>\<open>metadata["id"]\<close> as a key, and \<open>float(metadata["deadline"])\<close>.\<close>

definition metadata_id :: "val \<Rightarrow> string + val" where
  "metadata_id metadata = (if \<not> is_dict metadata then Inl ''TypeError'' else case map_of (as_dict metadata) ''id'' of
     None \<Rightarrow> Inl ''KeyError'' | Some k \<Rightarrow> if is_dict k \<or> is_list k then Inl ''TypeError'' else Inr k)"

definition metadata_deadline :: "rpc_env \<Rightarrow> val \<Rightarrow> string + int" where
  "metadata_deadline e metadata = (case map_of (as_dict metadata) ''deadline'' of
     None \<Rightarrow> Inl ''KeyError''
   | Some (VInt d) \<Rightarrow> Inr d
   | Some (VBool b) \<Rightarrow> Inr (of_bool b)
   | Some (VStr t) \<Rightarrow> pe_float e t
   | Some _ \<Rightarrow> Inl ''TypeError'')"

definition add_operation :: "operation \<Rightarrow> rpc_conn \<Rightarrow> rpc_conn" where
  "add_operation p s = s\<lparr>rp_objects := rp_objects s @ [p], rp_operations := dput (op_id p) (length (rp_objects s)) (rp_operations s)\<rparr>"

text \<open>The operation of a message, tested before the call: the object this side has under the identifier, or a new one.\<close>

definition with_operation :: "rpc_env \<Rightarrow> val \<Rightarrow> (nat option \<Rightarrow> rpc_action) \<Rightarrow> rpc_action" where
  "with_operation e metadata call = (if metadata = VNone then call None else
     seq (upd (prune (pe_now e))) (case metadata_id metadata of
       Inl x \<Rightarrow> raise x
     | Inr k \<Rightarrow> query (\<lambda>s. case map_of (rp_operations s) k of
         Some r \<Rightarrow> seq (operation_check (pe_later e) r) (call (Some r))
       | None \<Rightarrow> (case metadata_deadline e metadata of
           Inl x \<Rightarrow> raise x
         | Inr d \<Rightarrow> seq (upd (add_operation \<lparr>op_deadline = d, op_id = k, op_cancelled = False\<rparr>))
             (seq (operation_check (pe_later e) (length (rp_objects s))) (call (Some (length (rp_objects s)))))))))"

text \<open>\<open>put\<close> records where the handling thread is: at a job, or done with the message.\<close>

definition handle_request :: "rpc_env \<Rightarrow> (job option \<Rightarrow> rpc_conn \<Rightarrow> rpc_conn) \<Rightarrow> val \<Rightarrow> rpc_action" where
  "handle_request e put message = query (\<lambda>s. case map_of (rp_handlers s) (method_of message) of
     None \<Rightarrow> seq (answer_request e message ''error'' (error_val (- 32601) (''unknown method: '' @ method_of message))) (upd (put None))
   | Some h \<Rightarrow> catch (with_operation e (vget message ''operation'') (\<lambda>operation. query (\<lambda>s.
         seq (out (Called (method_of message) h (py_or (vget message ''params'') (VDict [])) (map_option (\<lambda>r. op_id (rp_objects s ! r)) operation)))
           (upd (put (Some (Calling message operation)))))))
       (\<lambda>x. seq (answer_request e message ''error'' (error_val (- 32000) x)) (upd (put None))))"

definition handler_returned :: "rpc_env \<Rightarrow> (job option \<Rightarrow> rpc_conn \<Rightarrow> rpc_conn) \<Rightarrow> val \<Rightarrow> string + val \<Rightarrow> rpc_action" where
  "handler_returned e put message result = seq (catch (case result of Inl x \<Rightarrow> raise x | Inr v \<Rightarrow> answer_request e message ''result'' v)
     (\<lambda>x. answer_request e message ''error'' (error_val (- 32000) x))) (upd (put None))"

section \<open>Handling threads\<close>

definition put_worker :: "job option \<Rightarrow> rpc_conn \<Rightarrow> rpc_conn" where
  "put_worker j s = s\<lparr>rp_worker := (case j of None \<Rightarrow> Idle | Some j \<Rightarrow> Working j)\<rparr>"

definition put_thread :: "nat \<Rightarrow> job option \<Rightarrow> rpc_conn \<Rightarrow> rpc_conn" where
  "put_thread i j s = s\<lparr>rp_threads := (case j of None \<Rightarrow> dpop i (rp_threads s) | Some j \<Rightarrow> dput i j (rp_threads s))\<rparr>"

text \<open>An exception that leaves \<open>_handle_request\<close> ends the thread it runs on.\<close>

definition end_worker :: rpc_action where
  "end_worker = upd (\<lambda>s. s\<lparr>rp_worker := Ended\<rparr>)"

definition ordered_turn :: "rpc_env \<Rightarrow> rpc_action" where
  "ordered_turn e = query (\<lambda>s. if rp_worker s \<noteq> Idle then skip else (case rp_queue s of
     [] \<Rightarrow> skip
   | m # q \<Rightarrow> seq (upd (\<lambda>s. s\<lparr>rp_queue := q\<rparr>)) (case m of
       None \<Rightarrow> end_worker
     | Some message \<Rightarrow> catch (handle_request e put_worker message) (\<lambda>_. end_worker))))"

definition ordered_return :: "rpc_env \<Rightarrow> string + val \<Rightarrow> rpc_action" where
  "ordered_return e result = query (\<lambda>s. case rp_worker s of
     Working (Calling message _) \<Rightarrow> catch (handler_returned e put_worker message result) (\<lambda>_. end_worker)
   | _ \<Rightarrow> skip)"

definition thread_turn :: "rpc_env \<Rightarrow> nat \<Rightarrow> rpc_action" where
  "thread_turn e i = query (\<lambda>s. case map_of (rp_threads s) i of
     Some (Fresh message) \<Rightarrow> catch (handle_request e (put_thread i) message) (\<lambda>_. upd (put_thread i None))
   | _ \<Rightarrow> skip)"

definition thread_return :: "rpc_env \<Rightarrow> nat \<Rightarrow> string + val \<Rightarrow> rpc_action" where
  "thread_return e i result = query (\<lambda>s. case map_of (rp_threads s) i of
     Some (Calling message _) \<Rightarrow> catch (handler_returned e (put_thread i) message result) (\<lambda>_. upd (put_thread i None))
   | _ \<Rightarrow> skip)"

section \<open>Runs\<close>

datatype rpc_input =
    Start
  | Register string nat bool
  | NewOperation operation
  | CancelOperation nat
  | Request string val int "nat option"
  | RequestTurn nat
  | Notify string val "nat option"
  | Close
  | Line line
  | EndOfInput
  | OrderedTurn
  | OrderedReturn "string + val"
  | ThreadTurn nat
  | ThreadReturn nat "string + val"

definition cancel :: "nat \<Rightarrow> rpc_conn \<Rightarrow> rpc_conn" where
  "cancel r s = (if r < length (rp_objects s) then s\<lparr>rp_objects := (rp_objects s)[r := (rp_objects s ! r)\<lparr>op_cancelled := True\<rparr>]\<rparr> else s)"

text \<open>A reference names an object of the store.\<close>

definition valid_ref :: "rpc_conn \<Rightarrow> nat option \<Rightarrow> bool" where
  "valid_ref s operation \<longleftrightarrow> (case operation of None \<Rightarrow> True | Some r \<Rightarrow> r < length (rp_objects s))"

fun rpc_step :: "rpc_env \<Rightarrow> rpc_input \<Rightarrow> rpc_action" where
  "rpc_step e Start = start_rpc"
| "rpc_step e (Register m h b) = upd (register_handler m h b)"
| "rpc_step e (NewOperation p) = upd (\<lambda>s. s\<lparr>rp_objects := rp_objects s @ [p]\<rparr>)"
| "rpc_step e (CancelOperation r) = upd (cancel r)"
| "rpc_step e (Request m p t operation) = query (\<lambda>s. if valid_ref s operation then request_open e m p t operation else skip)"
| "rpc_step e (RequestTurn t) = request_turn e t"
| "rpc_step e (Notify m p operation) = query (\<lambda>s. if valid_ref s operation then notify e m p operation else skip)"
| "rpc_step e Close = close_rpc"
| "rpc_step e (Line l) = read_line l"
| "rpc_step e EndOfInput = end_of_input"
| "rpc_step e OrderedTurn = ordered_turn e"
| "rpc_step e (OrderedReturn r) = ordered_return e r"
| "rpc_step e (ThreadTurn i) = thread_turn e i"
| "rpc_step e (ThreadReturn i r) = thread_return e i r"

fun rpc_run :: "(rpc_env \<times> rpc_input) list \<Rightarrow> rpc_conn \<Rightarrow> rpc_conn \<times> rpc_effect list" where
  "rpc_run [] s = (s, [])"
| "rpc_run ((e, i) # xs) s = (case rpc_step e i s of (t, es, _) \<Rightarrow> case rpc_run xs t of (u, fs) \<Rightarrow> (u, es @ fs))"

end
