(* ===== verification/Json_Rpc_Props.thy ===== *)
theory Json_Rpc_Props
  imports Json_Rpc
begin

text \<open>
  What the connection to a plugin process guarantees: a cancelled operation has no further effect, ordered requests are
  handled in the order of their arrival, and a close releases the requests in the table.
\<close>

section \<open>Cancelled operations\<close>

text \<open>An operation with identifier \<open>k\<close> and deadline \<open>d\<close> is spent at time \<open>c\<close>: every object under \<open>k\<close> is cancelled or past the
  deadline, and the table forgets \<open>k\<close> only after the deadline. A message speaks of it with its own deadline.\<close>

definition spent :: "val \<Rightarrow> int \<Rightarrow> int \<Rightarrow> rpc_conn \<Rightarrow> bool" where
  "spent k d c s \<longleftrightarrow> (\<forall>p \<in> set (rp_objects s). op_id p = k \<longrightarrow> op_deadline p = d \<and> (op_cancelled p \<or> d \<le> c)) \<and>
     (map_of (rp_operations s) k = None \<longrightarrow> d \<le> c)"

definition table_ok :: "rpc_conn \<Rightarrow> bool" where
  "table_ok s \<longleftrightarrow> distinct (dkeys (rp_operations s)) \<and>
     (\<forall>q r. map_of (rp_operations s) q = Some r \<longrightarrow> r < length (rp_objects s) \<and> op_id (rp_objects s ! r) = q) \<and>
     (\<forall>t w. map_of (rp_waiters s) t = Some w \<longrightarrow> valid_ref s (wt_operation w))"

definition quotes :: "val \<Rightarrow> int \<Rightarrow> val \<Rightarrow> bool" where
  "quotes k d m \<longleftrightarrow> (metadata_id (vget m ''operation'') = Inr k \<longrightarrow> map_of (as_dict (vget m ''operation'')) ''deadline'' = Some (VInt d))"

definition all_quote :: "val \<Rightarrow> int \<Rightarrow> rpc_conn \<Rightarrow> bool" where
  "all_quote k d s \<longleftrightarrow> (\<forall>m. Some m \<in> set (rp_queue s) \<longrightarrow> quotes k d m) \<and> (\<forall>i m. map_of (rp_threads s) i = Some (Fresh m) \<longrightarrow> quotes k d m)"

definition dormant :: "val \<Rightarrow> int \<Rightarrow> int \<Rightarrow> rpc_conn \<Rightarrow> bool" where
  "dormant k d c s \<longleftrightarrow> spent k d c s \<and> table_ok s \<and> all_quote k d s"

text \<open>A handler called, or a request or notification sent, under the operation.\<close>

fun under :: "val \<Rightarrow> rpc_effect \<Rightarrow> bool" where
  "under k (Called m h p operation) = (operation = Some k)"
| "under k (Wrote payload) = (map_of (as_dict payload) ''method'' \<noteq> None \<and>
     (\<exists>md. map_of (as_dict payload) ''operation'' = Some md \<and> vget md ''id'' = k))"
| "under k _ = False"

lemma valid_ref_iff: "valid_ref s operation \<longleftrightarrow> (\<forall>r. operation = Some r \<longrightarrow> r < length (rp_objects s))"
  by (simp add: valid_ref_def split: option.split)

lemma dormant_later: "dormant k d c s \<Longrightarrow> c \<le> c' \<Longrightarrow> dormant k d c' s"
  by (fastforce simp: dormant_def spent_def)

lemma dormant_same:
  "dormant k d c s \<Longrightarrow> rp_objects t = rp_objects s \<Longrightarrow> rp_operations t = rp_operations s \<Longrightarrow>
   (\<And>i w. map_of (rp_waiters t) i = Some w \<Longrightarrow> valid_ref s (wt_operation w)) \<Longrightarrow>
   (\<And>m. Some m \<in> set (rp_queue t) \<Longrightarrow> quotes k d m) \<Longrightarrow> (\<And>i m. map_of (rp_threads t) i = Some (Fresh m) \<Longrightarrow> quotes k d m) \<Longrightarrow>
   dormant k d c t"
  by (simp add: dormant_def spent_def table_ok_def all_quote_def valid_ref_iff)

lemma dormantD:
  assumes "dormant k d c s"
  shows "map_of (rp_waiters s) t = Some w \<Longrightarrow> valid_ref s (wt_operation w)"
    and "Some m \<in> set (rp_queue s) \<Longrightarrow> quotes k d m" and "map_of (rp_threads s) i = Some (Fresh m) \<Longrightarrow> quotes k d m"
    and "map_of (rp_operations s) q = Some r \<Longrightarrow> r < length (rp_objects s) \<and> op_id (rp_objects s ! r) = q"
  using assms by (simp_all add: dormant_def table_ok_def all_quote_def)

lemma dormant_expired:
  "dormant k d c s \<Longrightarrow> c \<le> now \<Longrightarrow> r < length (rp_objects s) \<Longrightarrow> op_id (rp_objects s ! r) = k \<Longrightarrow> op_expired now (rp_objects s ! r)"
  by (fastforce simp: dormant_def spent_def op_expired_def)

lemma map_of_prune:
  "distinct (dkeys (rp_operations s)) \<Longrightarrow> map_of (rp_operations (prune now s)) q =
     (case map_of (rp_operations s) q of None \<Rightarrow> None | Some r \<Rightarrow> if op_deadline (rp_objects s ! r) > now then Some r else None)"
proof -
  have "distinct (dkeys xs) \<Longrightarrow> map_of (filter (\<lambda>(k, r). P r) xs) q = (case map_of xs q of None \<Rightarrow> None | Some r \<Rightarrow> if P r then Some r else None)"
    for xs :: "(val, nat) dict" and P
    by (induction xs) (auto simp: map_of_eq_None_iff image_iff split: option.splits)
  then show "distinct (dkeys (rp_operations s)) \<Longrightarrow> ?thesis" by (simp add: prune_def)
qed

lemma prune_simps [simp]:
  "rp_objects (prune now s) = rp_objects s" "rp_waiters (prune now s) = rp_waiters s" "rp_queue (prune now s) = rp_queue s"
  "rp_threads (prune now s) = rp_threads s" "distinct (dkeys (rp_operations s)) \<Longrightarrow> distinct (dkeys (rp_operations (prune now s)))"
  by (simp_all add: prune_def distinct_map_filter)

lemma dormant_prune:
  assumes "dormant k d c s" and "c \<le> now"
  shows "dormant k d now (prune now s)"
proof -
  have t: "distinct (dkeys (rp_operations s))" using assms(1) by (simp add: dormant_def table_ok_def)
  have "d \<le> now" if "map_of (rp_operations (prune now s)) k = None"
  proof (cases "map_of (rp_operations s) k")
    case None
    with assms show ?thesis by (simp add: dormant_def spent_def)
  next
    case (Some r)
    with assms(1) have "op_deadline (rp_objects s ! r) = d" by (simp add: dormant_def spent_def table_ok_def)
    with Some that map_of_prune [OF t] show ?thesis by (simp split: if_splits)
  qed
  with assms t show ?thesis
    by (fastforce simp: dormant_def spent_def table_ok_def all_quote_def valid_ref_iff map_of_prune split: option.splits if_splits)
qed

lemma dormant_put:
  "dormant k d c s \<Longrightarrow> r < length (rp_objects s) \<Longrightarrow>
   dormant k d c (s\<lparr>rp_operations := dput (op_id (rp_objects s ! r)) r (rp_operations s)\<rparr>)"
  by (auto simp: dormant_def spent_def table_ok_def all_quote_def valid_ref_iff split: if_splits)

lemma dormant_grows:
  assumes "dormant k d c s" and "op_id p = k \<Longrightarrow> op_deadline p = d \<and> d \<le> c"
  shows "dormant k d c (s\<lparr>rp_objects := rp_objects s @ [p]\<rparr>)"
proof -
  let ?t = "s\<lparr>rp_objects := rp_objects s @ [p]\<rparr>"
  have "spent k d c ?t" "all_quote k d ?t" using assms by (auto simp: dormant_def spent_def all_quote_def)
  moreover have "table_ok ?t"
    using assms(1) by (auto simp: dormant_def table_ok_def valid_ref_iff nth_append simp del: map_of_eq_Some_iff intro: less_SucI)
  ultimately show ?thesis by (simp add: dormant_def)
qed

lemma dormant_add:
  assumes "dormant k d c s" and "op_id p = k \<Longrightarrow> op_deadline p = d \<and> d \<le> c"
  shows "dormant k d c (add_operation p s)"
  using dormant_put [OF dormant_grows [OF assms], of "length (rp_objects s)"] by (simp add: add_operation_def)

abbreviation dormant_ok :: "val \<Rightarrow> int \<Rightarrow> int \<Rightarrow> rpc_action \<Rightarrow> rpc_conn \<Rightarrow> bool" where
  "dormant_ok k d c \<equiv> ok (dormant k d c) (\<lambda>f. \<not> under k f)"

lemma dormant_check:
  assumes "dormant k d c s" and "c \<le> now" and "r < length (rp_objects s)"
    and "op_id (rp_objects s ! r) \<noteq> k \<Longrightarrow> ok I P b s" and "I s"
  shows "ok I P (seq (operation_check now r) b) s"
  using assms dormant_expired [OF assms(1-3)] by (auto simp: operation_check_def ok_simps)

lemma dormant_write:
  assumes "dormant k d c s" and "c \<le> pe_now e" and "pe_now e \<le> pe_later e" and "valid_ref s operation"
    and "map_of payload ''operation'' = None"
  shows "ok (\<lambda>t. dormant k d (pe_now e) t \<and> rp_objects t = rp_objects s) (\<lambda>f. \<not> under k f) (write_message e operation payload) s"
proof -
  let ?I = "\<lambda>t. dormant k d (pe_now e) t \<and> rp_objects t = rp_objects s"
  have now: "dormant k d (pe_now e) s" using assms(1,2) by (rule dormant_later)
  have plain: "ok ?I (\<lambda>f. \<not> under k f) (put_line e (VDict payload)) s"
    using now assms(5) by (simp add: put_line_def ok_simps split: option.split)
  show ?thesis
  proof (cases operation)
    case (Some r)
    with assms(4) have r: "r < length (rp_objects s)" by (simp add: valid_ref_iff)
    define u where "u = (prune (pe_now e) s)\<lparr>rp_operations := dput (op_id (rp_objects s ! r)) r (rp_operations (prune (pe_now e) s))\<rparr>"
    have u: "dormant k d (pe_now e) u" "rp_objects u = rp_objects s"
      using dormant_put [OF dormant_prune [OF now order_refl], of r] r by (simp_all add: u_def)
    have "ok ?I (\<lambda>f. \<not> under k f) (seq (operation_check (pe_now e) r) (query (\<lambda>s.
         seq (upd (prune (pe_now e))) (seq (upd (\<lambda>s. s\<lparr>rp_operations := dput (op_id (rp_objects s ! r)) r (rp_operations s)\<rparr>))
           (seq (operation_check (pe_later e) r)
             (put_line e (VDict (dput ''operation'' (op_wire (rp_objects s ! r)) payload)))))))) s"
    proof (rule dormant_check [OF now order_refl r])
      assume other: "op_id (rp_objects s ! r) \<noteq> k"
      have "ok ?I (\<lambda>f. \<not> under k f) (seq (operation_check (pe_later e) r)
          (put_line e (VDict (dput ''operation'' (op_wire (rp_objects s ! r)) payload)))) u"
        using u other assms(3) r
        by (intro dormant_check [OF u(1)]) (auto simp: put_line_def ok_simps op_wire_def vget_VDict split: option.split)
      then show "ok ?I (\<lambda>f. \<not> under k f) (query (\<lambda>s. seq (upd (prune (pe_now e)))
           (seq (upd (\<lambda>s. s\<lparr>rp_operations := dput (op_id (rp_objects s ! r)) r (rp_operations s)\<rparr>)) (seq (operation_check (pe_later e) r)
             (put_line e (VDict (dput ''operation'' (op_wire (rp_objects s ! r)) payload))))))) s"
        by (simp add: ok_simps u_def)
    qed (simp add: now)
    with Some plain show ?thesis by (simp add: write_message_def)
  qed (simp add: write_message_def plain)
qed

text \<open>One step of the connection, at a time the clock has reached.\<close>

definition timely :: "int \<Rightarrow> rpc_env \<Rightarrow> bool" where
  "timely c e \<longleftrightarrow> c \<le> pe_now e \<and> pe_now e \<le> pe_later e \<and> pe_later e \<le> pe_latest e"

lemma dormant_waiter: "dormant k d c s \<Longrightarrow> valid_ref s (wt_operation w) \<Longrightarrow> dormant k d c (set_waiter t w s)"
  by (rule dormant_same [of k d c s]) (auto simp: set_waiter_def split: if_splits dest: dormantD)

lemma dormant_retire: "dormant k d c s \<Longrightarrow> dormant k d c (retire t w s)"
  by (rule dormant_same [of k d c s]) (auto simp: retire_def split: if_splits dest: dormantD)

lemma dormant_send:
  assumes "dormant k d c s" and "timely c e" and "map_of (rp_waiters s) t = Some w"
  shows "dormant_ok k d (pe_now e) (request_send e t w) s"
proof -
  let ?I = "\<lambda>u. dormant k d (pe_now e) u \<and> rp_objects u = rp_objects s"
  have v: "valid_ref s (wt_operation w)" using dormantD(1) [OF assms(1,3)] .
  have "?I u \<Longrightarrow> dormant k d (pe_now e) (set_waiter t (w\<lparr>wt_stage := st\<rparr>) u)" for u st
    using v by (intro dormant_waiter) (simp_all add: valid_ref_iff)
  moreover have "?I u \<Longrightarrow> dormant k d (pe_now e) (retire t w u)" for u
    by (simp add: dormant_retire)
  moreover have "ok ?I (\<lambda>f. \<not> under k f) (write_message e (wt_operation w) [(''jsonrpc'', VStr ''2.0''), (''id'', VStr (wt_id w)),
      (''method'', VStr (wt_method w)), (''params'', wt_params w)]) s"
    using assms(2) v by (intro dormant_write [OF assms(1)]) (simp_all add: timely_def)
  ultimately show ?thesis unfolding request_send_def
    by (auto simp: ok_def catch_def seq_def upd_def out_def split: prod.splits option.splits)
qed

lemma dormant_request:
  assumes "dormant k d c s" and "timely c e"
  shows "dormant_ok k d (pe_now e) (request_turn e t) s"
    and "valid_ref s operation \<Longrightarrow> dormant_ok k d (pe_now e) (request_open e m p timeout operation) s"
    and "valid_ref s operation \<Longrightarrow> dormant_ok k d (pe_now e) (notify e m p operation) s"
proof -
  have now: "dormant k d (pe_now e) s" using assms by (auto simp: timely_def intro: dormant_later)
  have reg: "dormant k d (pe_now e) (set_waiter t (w\<lparr>wt_stage := Registered\<rparr>) (s\<lparr>rp_pending := pending\<rparr>))"
    if "map_of (rp_waiters s) t = Some w" for w pending
    using dormantD(1) [OF now that] dormantD [OF now]
    by (intro dormant_waiter dormant_same [OF now]) (simp_all add: valid_ref_iff)
  have fin: "dormant_ok k d (pe_now e) (request_finish e t w) s" for w
    unfolding request_finish_def
    by (auto simp: ok_simps now dormant_retire request_outcome_def split: option.split stage.split)
  show "dormant_ok k d (pe_now e) (request_turn e t) s"
    unfolding request_turn_def using now reg fin dormant_send [OF assms]
    by (auto simp: ok_simps request_register_def split: option.split stage.split)
  have fresh: "dormant k d (pe_now e) (s\<lparr>rp_next := n\<rparr>)" for n
    by (rule dormant_same [OF now]) (simp_all add: dormantD [OF now])
  show "dormant_ok k d (pe_now e) (request_open e m p timeout operation) s" if "valid_ref s operation"
    using that now fresh by (auto simp: request_open_def ensure_open_def ok_simps valid_ref_iff intro!: dormant_waiter)
  show "dormant_ok k d (pe_now e) (notify e m p operation) s" if "valid_ref s operation"
  proof -
    have "ok (\<lambda>t. dormant k d (pe_now e) t \<and> rp_objects t = rp_objects s) (\<lambda>f. \<not> under k f)
      (write_message e operation [(''jsonrpc'', VStr ''2.0''), (''method'', VStr m), (''params'', py_or p (VDict []))]) s"
      using assms(2) that by (intro dormant_write [OF assms(1)]) (simp_all add: timely_def)
    then have "dormant_ok k d (pe_now e) (write_message e operation [(''jsonrpc'', VStr ''2.0''), (''method'', VStr m),
      (''params'', py_or p (VDict []))]) s" by (rule ok_weaken) auto
    with now show ?thesis by (simp add: notify_def ensure_open_def ok_simps)
  qed
qed

lemma dormant_answer: "dormant k d c s \<Longrightarrow> timely c e \<Longrightarrow> q \<noteq> ''method'' \<Longrightarrow> dormant_ok k d c (answer_request e m q v) s"
  by (auto simp: answer_request_def write_message_def put_line_def ok_simps split: option.split)

lemma release_operations:
  "map_of (release v t ws) i = Some w \<Longrightarrow> \<exists>w'. map_of ws i = Some w' \<and> wt_operation w = wt_operation w'"
  by (auto simp: release_def split: option.splits if_splits)

lemma releases_operations:
  "map_of (fold (release v) ts ws) i = Some w \<Longrightarrow> \<exists>w'. map_of ws i = Some w' \<and> wt_operation w = wt_operation w'"
  by (induction ts arbitrary: ws) (auto dest!: release_operations, metis release_operations)

lemma dormant_shut:
  assumes "dormant k d c s"
  shows "dormant k d c (shut s)"
proof (rule dormant_same [OF assms])
  show "valid_ref s (wt_operation w)" if "map_of (rp_waiters (shut s)) i = Some w" for i w
  proof -
    from that obtain w' where "map_of (rp_waiters s) i = Some w'" "wt_operation w = wt_operation w'"
      by (auto simp: shut_def fail_pending_def Let_def dest!: releases_operations)
    with dormantD(1) [OF assms] show ?thesis by simp
  qed
qed (auto simp: shut_def fail_pending_def Let_def dest: dormantD [OF assms])

lemma dormant_dispatch:
  assumes "dormant k d c s" and "quotes k d m"
  shows "dormant_ok k d c (dispatch_request m) s" and "dormant_ok k d c (dispatch_response m) s"
proof -
  have "dormant k d c (s\<lparr>rp_queue := rp_queue s @ [Some m]\<rparr>)"
    "dormant k d c (s\<lparr>rp_threads := dput n (Fresh m) (rp_threads s), rp_next := l\<rparr>)" for n l
    by (rule dormant_same [OF assms(1)]; use assms(2) dormantD [OF assms(1)] in \<open>auto split: if_splits\<close>)+
  then show "dormant_ok k d c (dispatch_request m) s" using assms(1) by (auto simp: dispatch_request_def ok_simps)
  have "dormant k d c (s\<lparr>rp_pending := ps, rp_waiters := release m t (rp_waiters s)\<rparr>)" for ps t
    by (rule dormant_same [OF assms(1)]) (use dormantD [OF assms(1)] in \<open>auto dest!: release_operations\<close>)
  then show "dormant_ok k d c (dispatch_response m) s"
    using assms(1) by (auto simp: dispatch_response_def ok_simps Let_def split: option.split)
qed

lemma dormant_read:
  assumes "dormant k d c s" and "\<And>m. l = Message m \<Longrightarrow> quotes k d m"
  shows "dormant_ok k d c (read_line l) s" and "dormant_ok k d c end_of_input s" and "dormant_ok k d c close_rpc s"
proof -
  have stop: "dormant_ok k d c stop_reading u" if "dormant k d c u" for u
  proof -
    have "dormant k d c (u\<lparr>rp_reader := Stopped\<rparr>)" by (rule dormant_same [OF that]) (auto dest: dormantD [OF that])
    then show ?thesis by (simp add: stop_reading_def ok_simps dormant_shut)
  qed
  show "dormant_ok k d c (read_line l) s" unfolding read_line_def using assms
    by (auto simp: ok_simps split: line.split sum.split bool.split intro!: ok_catch stop dormant_dispatch)
  show "dormant_ok k d c end_of_input s" "dormant_ok k d c close_rpc s"
    using assms(1) stop by (auto simp: end_of_input_def close_rpc_def ok_simps dormant_shut)
qed

lemma dormant_with_operation:
  assumes "dormant k d c s" and "timely c e"
    and md: "metadata_id metadata = Inr k \<Longrightarrow> map_of (as_dict metadata) ''deadline'' = Some (VInt d)"
    and call: "\<And>operation u. dormant k d (pe_now e) u \<Longrightarrow> (\<And>r. operation = Some r \<Longrightarrow> op_id (rp_objects u ! r) \<noteq> k) \<Longrightarrow>
      dormant_ok k d (pe_now e) (call operation) u"
  shows "dormant_ok k d (pe_now e) (with_operation e metadata call) s"
proof (cases "metadata = VNone")
  case True
  have "dormant k d (pe_now e) s" using assms(1,2) by (auto simp: timely_def intro: dormant_later)
  with True call [of s None] show ?thesis by (simp add: with_operation_def)
next
  case False
  let ?s = "prune (pe_now e) s"
  have now: "dormant k d (pe_now e) ?s" and later: "pe_now e \<le> pe_later e"
    using dormant_prune [OF assms(1)] assms(2) by (simp_all add: timely_def)
  have known: "dormant_ok k d (pe_now e) (seq (operation_check (pe_later e) r) (call (Some r))) u"
    if "dormant k d (pe_now e) u" "r < length (rp_objects u)" for u r
    using dormant_check [OF that(1) later that(2)] call [of u "Some r"] that(1) by simp
  have new: "dormant k d (pe_now e) (add_operation \<lparr>op_deadline = d', op_id = q, op_cancelled = False\<rparr> ?s)"
    if "metadata_id metadata = Inr q" "map_of (rp_operations ?s) q = None" "metadata_deadline e metadata = Inr d'" for q d'
    using that md now by (intro dormant_add [OF now]) (auto simp: metadata_deadline_def dormant_def spent_def)
  show ?thesis
  proof (cases "metadata_id metadata")
    case (Inl x)
    with False now show ?thesis by (simp add: with_operation_def ok_simps)
  next
    case (Inr q)
    then show ?thesis using False now known new [OF Inr] dormantD(4) [OF now]
      by (auto simp: with_operation_def ok_simps add_operation_def split: option.splits sum.split)
  qed
qed

text \<open>\<open>put\<close> for a handling thread.\<close>

definition places :: "(job option \<Rightarrow> rpc_conn \<Rightarrow> rpc_conn) \<Rightarrow> bool" where
  "places put \<longleftrightarrow> (\<forall>j s k d c. dormant k d c s \<longrightarrow> (\<forall>m. j \<noteq> Some (Fresh m)) \<longrightarrow> dormant k d c (put j s))"

lemma placesD: "places put \<Longrightarrow> dormant k d c s \<Longrightarrow> dormant k d c (put None s)"
  "places put \<Longrightarrow> dormant k d c s \<Longrightarrow> dormant k d c (put (Some (Calling m r)) s)"
  by (simp_all add: places_def)

lemma places_worker: "places put_worker" and places_thread: "places (put_thread i)"
proof -
  have "dormant k d c (put_worker j s)" "(\<And>m. j \<noteq> Some (Fresh m)) \<Longrightarrow> dormant k d c (put_thread i j s)" if "dormant k d c s" for j s k d c
    by (rule dormant_same [OF that]; auto simp: put_worker_def put_thread_def split: option.splits if_splits dest: dormantD [OF that])+
  then show "places put_worker" "places (put_thread i)" by (auto simp: places_def)
qed

lemma dormant_handle:
  assumes "places put" and "dormant k d c s" and "timely c e"
  shows "quotes k d m \<Longrightarrow> dormant_ok k d (pe_now e) (handle_request e put m) s"
    and "dormant_ok k d (pe_now e) (handler_returned e put m result) s"
proof -
  have now: "dormant k d (pe_now e) s" and te: "timely (pe_now e) e"
    using assms(2,3) by (auto simp: timely_def intro: dormant_later)
  have fail: "dormant_ok k d (pe_now e) (seq (answer_request e m ''error'' v) (upd (put None))) u" if "dormant k d (pe_now e) u" for u v
    using that te by (auto intro!: ok_seq dormant_answer simp: ok_simps placesD [OF assms(1)])
  show "dormant_ok k d (pe_now e) (handle_request e put m) s" if q: "quotes k d m"
    unfolding handle_request_def using now q [unfolded quotes_def]
    by (auto simp: ok_simps placesD [OF assms(1)] split: option.split intro!: fail ok_catch dormant_with_operation [OF assms(2,3)])
  show "dormant_ok k d (pe_now e) (handler_returned e put m result) s"
    unfolding handler_returned_def using now te
    by (auto simp: ok_simps placesD [OF assms(1)] split: sum.split intro!: ok_seq ok_catch dormant_answer)
qed

lemma dormant_threads:
  assumes "dormant k d c s" and "timely c e"
  shows "dormant_ok k d (pe_now e) (ordered_turn e) s" and "dormant_ok k d (pe_now e) (ordered_return e result) s"
    and "dormant_ok k d (pe_now e) (thread_turn e i) s" and "dormant_ok k d (pe_now e) (thread_return e i result) s"
proof -
  have now: "dormant k d (pe_now e) s" and te: "timely (pe_now e) e"
    using assms by (auto simp: timely_def intro: dormant_later)
  have ended: "dormant_ok k d (pe_now e) end_worker u" if "dormant k d (pe_now e) u" for u
    using that by (auto simp: end_worker_def ok_simps intro!: dormant_same [OF that] dest: dormantD [OF that])
  have rest: "dormant k d (pe_now e) (s\<lparr>rp_queue := q\<rparr>)" if "rp_queue s = m # q" for m q
    by (rule dormant_same [OF now]) (use that in \<open>auto dest: dormantD [OF now] intro: dormantD(2) [OF now]\<close>)
  show "dormant_ok k d (pe_now e) (ordered_turn e) s" unfolding ordered_turn_def
    using now rest dormantD(2) [OF now]
    by (auto simp: ok_simps split: list.split option.split intro!: ok_catch ended dormant_handle(1) [OF places_worker _ te])
  show "dormant_ok k d (pe_now e) (ordered_return e result) s" unfolding ordered_return_def using now
    by (auto simp: ok_simps split: ordered_worker.split job.split intro!: ok_catch ended dormant_handle(2) [OF places_worker _ te])
  show "dormant_ok k d (pe_now e) (thread_turn e i) s" "dormant_ok k d (pe_now e) (thread_return e i result) s"
    unfolding thread_turn_def thread_return_def using now dormantD(3) [OF now]
    by (auto simp: ok_simps placesD [OF places_thread] split: option.split job.split
        intro!: ok_catch dormant_handle [OF places_thread _ te])
qed

text \<open>Inputs that respect the identity of the operation: no other operation is created under its identifier, and messages quote
  its deadline with it.\<close>

fun consistent :: "val \<Rightarrow> int \<Rightarrow> rpc_input \<Rightarrow> bool" where
  "consistent k d (NewOperation p) = (op_id p \<noteq> k)"
| "consistent k d (Line (Message m)) = quotes k d m"
| "consistent k d _ = True"

fun clocked :: "int \<Rightarrow> (rpc_env \<times> rpc_input) list \<Rightarrow> bool" where
  "clocked c [] = True"
| "clocked c ((e, i) # xs) = (timely c e \<and> clocked (pe_latest e) xs)"

lemma dormant_cancel: "dormant k d c s \<Longrightarrow> dormant k d c (cancel r s)"
proof -
  assume a: "dormant k d c s"
  have "spent k d c (cancel r s)"
  proof (cases "r < length (rp_objects s)")
    case True
    then have "rp_objects s ! r \<in> set (rp_objects s)" by simp
    with a True set_update_subset_insert [of "rp_objects s" r "(rp_objects s ! r)\<lparr>op_cancelled := True\<rparr>"] show ?thesis
      by (auto simp: dormant_def spent_def cancel_def)
  qed (use a in \<open>simp add: dormant_def cancel_def\<close>)
  moreover have "table_ok (cancel r s)" "all_quote k d (cancel r s)"
    using a by (auto simp: dormant_def table_ok_def all_quote_def cancel_def valid_ref_iff nth_list_update simp del: map_of_eq_Some_iff)
  ultimately show ?thesis by (simp add: dormant_def)
qed

lemma dormant_step:
  assumes "dormant k d c s" and "timely c e" and "consistent k d i"
  shows "dormant_ok k d (pe_now e) (rpc_step e i) s"
proof -
  have now: "dormant k d (pe_now e) s" using assms(1,2) by (auto simp: timely_def intro: dormant_later)
  have same: "dormant k d (pe_now e) u" if "rp_objects u = rp_objects s" "rp_operations u = rp_operations s" "rp_waiters u = rp_waiters s"
    "rp_queue u = rp_queue s" "rp_threads u = rp_threads s" for u
    by (rule dormant_same [OF now]) (use that in \<open>auto dest: dormantD [OF now]\<close>)
  have read: "dormant_ok k d (pe_now e) (read_line l) s" if "consistent k d (Line l)" for l
    using that by (intro dormant_read(1) [OF now]) simp
  show ?thesis
    using assms(3) dormant_request [OF assms(1,2)] dormant_threads [OF assms(1,2)] read dormant_read(2,3) [OF now, of Blank] now
    by (cases i) (auto simp: ok_simps start_rpc_def register_handler_def same intro: dormant_cancel dormant_grows
        split: ordered_worker.split reader.split)
qed

text \<open>C25. A cancelled operation has no further effect: once an operation that travelled on the connection has been cancelled,
  no handler is called under it and no request or notification is sent under it any more, whatever messages arrive, in
  whatever order the threads run, and also after its deadline, when the connection has forgotten it.\<close>

theorem cancelled_operation_inert:
  assumes "rp_objects s ! r = \<lparr>op_deadline = d, op_id = k, op_cancelled = True\<rparr>" and "map_of (rp_operations s) k = Some r"
    and "\<forall>q < length (rp_objects s). op_id (rp_objects s ! q) = k \<longrightarrow> q = r" and "table_ok s" and "all_quote k d s"
    and "\<forall>(e, i) \<in> set xs. consistent k d i" and "clocked c xs" and "rpc_run xs s = (t, es)"
  shows "\<forall>f \<in> set es. \<not> under k f"
proof -
  have "op_deadline (rp_objects s ! r) = d" "op_cancelled (rp_objects s ! r)" using assms(1) by simp_all
  with assms(2-5) have "dormant k d c s" by (auto simp: dormant_def spent_def in_set_conv_nth)
  then show ?thesis using assms(6-8)
  proof (induction xs arbitrary: s c es)
    case (Cons ei xs)
    obtain e i where ei: "ei = (e, i)" by (cases ei)
    obtain u fs y where u: "rpc_step e i s = (u, fs, y)" by (cases "rpc_step e i s")
    obtain gs where g: "rpc_run xs u = (t, gs)" "es = fs @ gs" using Cons.prems(4) u ei by (auto split: prod.splits)
    have step: "dormant_ok k d (pe_now e) (rpc_step e i) s" using Cons.prems(1-3) ei by (intro dormant_step) auto
    have "dormant k d (pe_latest e) u"
      using okD [OF step u] Cons.prems(3) ei by (auto simp: timely_def intro: dormant_later)
    with Cons.IH [OF _ _ _ g(1)] Cons.prems(2,3) ei have "\<forall>f \<in> set gs. \<not> under k f" by auto
    moreover have "\<forall>f \<in> set fs. \<not> under k f" using step u by (simp add: ok_def)
    ultimately show ?case using g(2) by auto
  qed simp
qed

section \<open>Ordered requests\<close>

definition params_of :: "val \<Rightarrow> val" where
  "params_of m = py_or (vget m ''params'') (VDict [])"

definition queued :: "rpc_conn \<Rightarrow> val list" where
  "queued s = map params_of (List.map_filter (\<lambda>m. m) (rp_queue s))"

definition calls :: "string list \<Rightarrow> rpc_effect list \<Rightarrow> val list" where
  "calls ms es = concat (map (\<lambda>f. case f of Called m h p operation \<Rightarrow> if m \<in> set ms then [p] else [] | _ \<Rightarrow> []) es)"

fun arrival :: "string list \<Rightarrow> rpc_input \<Rightarrow> val list" where
  "arrival ms (Line (Message m)) = (if has_method m = Inr True \<and> method_of m \<in> set ms then [params_of m] else [])"
| "arrival ms _ = []"

definition arrivals :: "string list \<Rightarrow> (rpc_env \<times> rpc_input) list \<Rightarrow> val list" where
  "arrivals ms xs = concat (map (\<lambda>(e, i). arrival ms i) xs)"

text \<open>The connection reads, the ordered methods \<open>ms\<close> have handlers, and their messages, which carry no operation, are in the queue
  and on no other thread.\<close>

definition orderly :: "string list \<Rightarrow> rpc_conn \<Rightarrow> bool" where
  "orderly ms s \<longleftrightarrow> rp_ordered s = ms \<and> (\<forall>m \<in> set ms. map_of (rp_handlers s) m \<noteq> None) \<and> rp_reader s = Reading \<and>
     (\<forall>m. Some m \<in> set (rp_queue s) \<longrightarrow> method_of m \<in> set ms \<and> vget m ''operation'' = VNone) \<and>
     (\<forall>i m. map_of (rp_threads s) i = Some (Fresh m) \<longrightarrow> method_of m \<notin> set ms)"

text \<open>Inputs after the handlers are registered, with messages that are objects.\<close>

fun settled_input :: "string list \<Rightarrow> rpc_input \<Rightarrow> bool" where
  "settled_input ms (Register m h b) = False"
| "settled_input ms EndOfInput = False"
| "settled_input ms (Line (Message m)) = (is_dict m \<and> (method_of m \<in> set ms \<longrightarrow> vget m ''operation'' = VNone))"
| "settled_input ms _ = True"

definition tidy :: "string list \<Rightarrow> rpc_conn \<Rightarrow> rpc_conn \<Rightarrow> rpc_effect list \<Rightarrow> bool" where
  "tidy ms s t es \<longleftrightarrow> (orderly ms s \<longrightarrow> orderly ms t \<and> calls ms es @ queued t = queued s)"

lemma calls_simps [simp]: "calls ms [] = []" "calls ms (es @ fs) = calls ms es @ calls ms fs"
  "calls ms (Wrote v # es) = calls ms es" "calls ms (Returned t v # es) = calls ms es" "calls ms (Failed t x # es) = calls ms es"
  "calls ms (Called m h p operation # es) = (if m \<in> set ms then [p] else []) @ calls ms es"
  by (simp_all add: calls_def)

interpretation tidy: action_relation "tidy ms" for ms
  by unfold_locales (auto simp: tidy_def)

definition same_order :: "rpc_conn \<Rightarrow> rpc_conn \<Rightarrow> bool" where
  "same_order s t \<longleftrightarrow> rp_ordered t = rp_ordered s \<and> rp_handlers t = rp_handlers s \<and> rp_reader t = rp_reader s \<and>
     filter (\<lambda>m. m \<noteq> None) (rp_queue t) = filter (\<lambda>m. m \<noteq> None) (rp_queue s) \<and>
     (\<forall>i m. map_of (rp_threads t) i = Some (Fresh m) \<longrightarrow> map_of (rp_threads s) i = Some (Fresh m))"

lemma same_order_tidy:
  assumes "same_order s t"
  shows "tidy ms s t []"
proof -
  have "Some m \<in> set (rp_queue t) \<longleftrightarrow> Some m \<in> set (rp_queue s)" for m
    using arg_cong [of _ _ set, OF conjunct1 [OF conjunct2 [OF conjunct2 [OF conjunct2 [OF assms [unfolded same_order_def]]]]]] by auto
  moreover have "queued t = queued s" using assms by (simp add: queued_def same_order_def List.map_filter_def)
  ultimately show ?thesis using assms by (simp add: tidy_def orderly_def same_order_def) blast
qed

lemma tidy_upd: "(\<And>s. same_order s (f s)) \<Longrightarrow> related (tidy ms) (upd f)"
  by (intro tidy.rel_upd same_order_tidy)

lemma tidy_out: "calls ms [f] = [] \<Longrightarrow> related (tidy ms) (out f)"
  by (intro tidy.rel_out) (simp add: tidy_def)

lemma tidy_check: "related (tidy ms) (operation_check now r)"
  unfolding operation_check_def by (intro tidy.rel_intros)

lemma tidy_prune: "related (tidy ms) (upd (prune now))"
  by (rule tidy_upd) (simp add: same_order_def prune_def)

lemma tidy_line: "related (tidy ms) (put_line e v)"
  unfolding put_line_def by (intro tidy.rel_option tidy.rel_raise tidy_out) simp

lemma tidy_write: "related (tidy ms) (write_message e operation payload)"
  unfolding write_message_def
  by (intro tidy.rel_option tidy.rel_if tidy.rel_seq tidy.rel_query tidy_check tidy_prune tidy_line tidy_upd) (simp add: same_order_def)

lemma tidy_answer: "related (tidy ms) (answer_request e m k v)"
  unfolding answer_request_def by (intro tidy.rel_if tidy.rel_skip tidy_write)

lemma tidy_open: "related (tidy ms) ensure_open"
  unfolding ensure_open_def by (intro tidy.rel_query tidy.rel_if tidy.rel_raise tidy.rel_skip)

lemma tidy_retire: "related (tidy ms) (upd (retire t w))"
  by (rule tidy_upd) (simp add: same_order_def retire_def)

lemma tidy_requests: "related (tidy ms) (request_open e m p timeout operation)" "related (tidy ms) (notify e m p operation)"
  "related (tidy ms) (request_turn e t)"
proof -
  show "related (tidy ms) (request_open e m p timeout operation)" "related (tidy ms) (notify e m p operation)"
    unfolding request_open_def notify_def
    by (intro tidy.rel_seq tidy_open tidy_write tidy_upd; simp add: same_order_def set_waiter_def)+
  have "related (tidy ms) (request_send e t w)" "related (tidy ms) (request_register t w)" for w
    unfolding request_send_def request_register_def
    by (intro tidy.rel_catch tidy.rel_seq tidy_write tidy_retire tidy_out tidy_upd; simp add: same_order_def set_waiter_def)+
  moreover have "related (tidy ms) (request_finish e t w)" for w
    unfolding request_finish_def
    by (rule tidy.rel_query, cases "wt_stage w")
      (auto intro!: tidy.rel_option tidy.rel_if tidy.rel_seq tidy_retire tidy_out tidy.rel_skip simp: request_outcome_def split: option.split)
  ultimately show "related (tidy ms) (request_turn e t)"
    unfolding request_turn_def by (intro tidy.rel_query tidy.rel_option tidy.rel_skip) (simp split: stage.split)
qed

lemma tidy_with_operation: "(\<And>operation. related (tidy ms) (call operation)) \<Longrightarrow> related (tidy ms) (with_operation e metadata call)"
  unfolding with_operation_def
  by (intro tidy.rel_if tidy.rel_seq tidy_prune tidy.rel_sum tidy.rel_raise tidy.rel_query tidy.rel_option tidy_check tidy_upd)
    (simp_all add: same_order_def add_operation_def)

lemma same_order_put: "same_order s (put_worker j s)" "\<forall>m. j \<noteq> Some (Fresh m) \<Longrightarrow> same_order s (put_thread i j s)"
  "same_order s (s\<lparr>rp_worker := w\<rparr>)"
  by (auto simp: same_order_def put_worker_def put_thread_def split: option.splits if_splits)

lemma tidy_handle:
  assumes "\<And>j s. (\<forall>m. j \<noteq> Some (Fresh m)) \<Longrightarrow> same_order s (put j s)"
  shows "method_of m \<notin> set ms \<Longrightarrow> related (tidy ms) (handle_request e put m)" and "related (tidy ms) (handler_returned e put m result)"
  unfolding handle_request_def handler_returned_def
  by (intro tidy.rel_query tidy.rel_option tidy.rel_seq tidy.rel_catch tidy_answer tidy_with_operation tidy_out tidy_upd tidy.rel_sum tidy.rel_raise;
      simp add: assms)+

lemma tidy_worker_ends: "related (tidy ms) end_worker"
  unfolding end_worker_def by (intro tidy_upd same_order_put)

lemma tidy_returns: "related (tidy ms) (ordered_return e result)" "related (tidy ms) (thread_return e i result)"
proof -
  have "related (tidy ms) (catch (handler_returned e put_worker m result) (\<lambda>_. end_worker))"
    "related (tidy ms) (catch (handler_returned e (put_thread i) m result) (\<lambda>_. upd (put_thread i None)))" for m
    by (intro tidy.rel_catch tidy_handle tidy_worker_ends tidy_upd same_order_put; simp)+
  then show "related (tidy ms) (ordered_return e result)" "related (tidy ms) (thread_return e i result)"
    unfolding ordered_return_def thread_return_def
    by (auto intro!: tidy.rel_query tidy.rel_skip split: ordered_worker.split job.split option.split)
qed

lemma tidy_thread:
  assumes "orderly ms s" and "thread_turn e i s = (t, es, x)"
  shows "tidy ms s t es"
proof (cases "\<exists>m. map_of (rp_threads s) i = Some (Fresh m)")
  case True
  then obtain m where m: "map_of (rp_threads s) i = Some (Fresh m)" by blast
  with assms(1) have "method_of m \<notin> set ms" by (auto simp: orderly_def)
  then have "related (tidy ms) (catch (handle_request e (put_thread i) m) (\<lambda>_. upd (put_thread i None)))"
    by (intro tidy.rel_catch tidy_handle tidy_upd same_order_put) simp_all
  moreover have "thread_turn e i s = catch (handle_request e (put_thread i) m) (\<lambda>_. upd (put_thread i None)) s"
    using m by (simp add: thread_turn_def query_def)
  ultimately show ?thesis using assms(2) relatedD by metis
next
  case False
  then have "thread_turn e i s = (s, [], None)"
    by (auto simp: thread_turn_def query_def skip_def split: option.split job.split)
  with assms(2) show ?thesis by (simp add: tidy.still)
qed

lemma tidy_turn:
  assumes "orderly ms s" and "ordered_turn e s = (t, es, x)"
  shows "tidy ms s t es"
proof (cases "\<exists>m q. rp_worker s = Idle \<and> rp_queue s = Some m # q")
  case True
  then obtain m q where m: "rp_worker s = Idle" "rp_queue s = Some m # q" by blast
  with assms(1) obtain h where h: "method_of m \<in> set ms" "vget m ''operation'' = VNone" "map_of (rp_handlers s) (method_of m) = Some h"
    by (fastforce simp: orderly_def)
  have "t = put_worker (Some (Calling m None)) (s\<lparr>rp_queue := q\<rparr>)" "es = [Called (method_of m) h (params_of m) None]"
    using assms(2) m h
    by (auto simp: ordered_turn_def query_def seq_def upd_def catch_def handle_request_def with_operation_def out_def params_of_def)
  with assms(1) m h(1) show ?thesis
    by (auto simp: tidy_def orderly_def queued_def put_worker_def List.map_filter_def)
next
  case False
  then have "es = [] \<and> same_order s t"
    using assms(2) by (auto simp: ordered_turn_def query_def skip_def seq_def upd_def end_worker_def same_order_def split: if_splits list.splits option.splits)
  then show ?thesis using same_order_tidy by blast
qed

lemma tidy_shut: "related (tidy ms) close_rpc"
  unfolding close_rpc_def
  by (intro tidy.rel_query tidy.rel_if tidy.rel_skip tidy_upd) (simp add: same_order_def shut_def fail_pending_def Let_def)

lemma orderly_read:
  assumes "orderly ms s" and "is_dict m" and "method_of m \<in> set ms \<Longrightarrow> vget m ''operation'' = VNone"
    and "read_line (Message m) s = (t, es, x)"
  shows "orderly ms t \<and> es = [] \<and> queued t = queued s @ arrival ms (Line (Message m))"
proof -
  have reading: "rp_reader s = Reading" using assms(1) by (simp add: orderly_def)
  obtain dd where m: "m = VDict dd" using assms(2) by (cases m) auto
  show ?thesis
  proof (cases "map_of dd ''method''")
    case None
    then have "es = [] \<and> same_order s t" using assms(4) reading m
      by (auto simp: read_line_def query_def catch_def dispatch_response_def upd_def skip_def Let_def same_order_def split: option.splits)
    with same_order_tidy [of s t ms] assms(1) None m show ?thesis by (simp add: tidy_def)
  next
    case (Some v)
    then show ?thesis using assms reading m
      by (auto simp: read_line_def query_def catch_def dispatch_request_def upd_def orderly_def queued_def List.map_filter_def split: if_splits)
  qed
qed

lemma orderly_step:
  assumes "orderly ms s" and "settled_input ms i" and "rpc_step e i s = (t, es, x)"
  shows "orderly ms t \<and> calls ms es @ queued t = queued s @ arrival ms i"
proof (cases "\<exists>m. i = Line (Message m)")
  case True
  with orderly_read [OF assms(1)] assms(2,3) show ?thesis by fastforce
next
  case False
  have "tidy ms s t es"
  proof (cases i)
    case Start
    then have "es = [] \<and> same_order s t" using assms(1,3)
      by (auto simp: start_rpc_def seq_def query_def upd_def raise_def skip_def orderly_def same_order_def split: ordered_worker.splits)
    then show ?thesis using same_order_tidy by blast
  next
    case (NewOperation p)
    with assms(3) show ?thesis by (auto simp: upd_def same_order_def intro!: same_order_tidy)
  next
    case (CancelOperation r)
    with assms(3) show ?thesis by (auto simp: upd_def same_order_def cancel_def intro!: same_order_tidy)
  next
    case (Line l)
    with False assms(3) show ?thesis by (cases l) (auto simp: read_line_def query_def skip_def tidy.still split: if_splits)
  qed (use assms tidy_thread [OF assms(1)] tidy_turn [OF assms(1)] in \<open>auto simp: query_def skip_def tidy.still
      split: if_splits dest: relatedD [OF tidy_requests(1)] relatedD [OF tidy_requests(2)] relatedD [OF tidy_requests(3)] relatedD [OF tidy_returns(1)]
        relatedD [OF tidy_returns(2)] relatedD [OF tidy_shut]\<close>)
  moreover have "arrival ms i = []" using False by (cases "(ms, i)" rule: arrival.cases) auto
  ultimately show ?thesis using assms(1) by (simp add: tidy_def)
qed

text \<open>C26. Ordered requests are handled in the order of their arrival: over any run of the reader, the worker, the other threads,
  the callers and a close, the handlers of the ordered methods have been called with exactly the messages that were
  queued or have arrived, in that order, except for those still in the queue; none is lost, repeated or overtaken.\<close>

theorem ordered_requests_in_order:
  assumes "orderly ms s" and "\<forall>(e, i) \<in> set xs. settled_input ms i" and "rpc_run xs s = (t, es)"
  shows "calls ms es @ queued t = queued s @ arrivals ms xs"
  using assms
proof (induction xs arbitrary: s es)
  case (Cons ei xs)
  obtain e i where ei: "ei = (e, i)" by (cases ei)
  obtain u fs y where u: "rpc_step e i s = (u, fs, y)" by (cases "rpc_step e i s")
  obtain gs where g: "rpc_run xs u = (t, gs)" "es = fs @ gs" using Cons.prems(3) u ei by (auto split: prod.splits)
  have step: "orderly ms u" "calls ms fs @ queued u = queued s @ arrival ms i"
    using orderly_step [OF Cons.prems(1) _ u] Cons.prems(2) ei by auto
  with Cons.IH [OF step(1) _ g(1)] Cons.prems(2) g(2) ei show ?case by (auto simp: arrivals_def)
qed (simp add: arrivals_def)

section \<open>Requests that wait\<close>

text \<open>Closing answers every request in the table; the thread that waits for it ends at its next turn.\<close>

lemma fold_release:
  "map_of ws t = Some w \<Longrightarrow> map_of (fold (release v) ts ws) t = Some (if t \<in> set ts then w\<lparr>wt_response := Some v\<rparr> else w)"
proof (induction ts arbitrary: ws w)
  case (Cons u ts)
  have "map_of (release v u ws) t = Some (if t = u then w\<lparr>wt_response := Some v\<rparr> else w)"
    using Cons.prems by (auto simp: release_def split: option.split)
  from Cons.IH [OF this] show ?case by auto
qed simp

theorem closing_releases_request:
  assumes "map_of (rp_waiters s) t = Some w" and "map_of (rp_pending s) (wt_id w) = Some t" and "wt_stage w = Waiting limit"
    and "\<not> rp_closed s" and "rpc_run [(e, Close), (f, RequestTurn t)] s = (u, es)"
  shows "es = [Failed t (closed_text s)] \<and> map_of (rp_waiters u) t = None"
proof -
  let ?err = "VDict [(''error'', VDict [(''message'', VStr (closed_text s))])]"
  have "t \<in> set (dvalues (rp_pending s))" using map_of_SomeD [OF assms(2)] by force
  then have "map_of (rp_waiters (shut s)) t = Some (w\<lparr>wt_response := Some ?err\<rparr>)"
    using fold_release [OF assms(1)] by (simp add: shut_def fail_pending_def Let_def closed_text_def)
  moreover have "closed_text s \<noteq> []" by (simp add: closed_text_def)
  ultimately show ?thesis using assms(3-5)
    by (auto simp: close_rpc_def request_turn_def request_finish_def query_def seq_def upd_def out_def request_outcome_def response_error_def
        py_or_def vget_VDict retire_def)
qed

section \<open>Examples\<close>

definition ex_rpc_env :: "int \<Rightarrow> rpc_env" where
  "ex_rpc_env now = \<lparr>pe_now = now, pe_later = now, pe_latest = now, pe_uuid = ''r1'', pe_write = (\<lambda>_. None), pe_float = (\<lambda>_. Inl ''ValueError'')\<rparr>"

definition ex_operation :: operation where
  "ex_operation = \<lparr>op_deadline = 100, op_id = VStr ''op1'', op_cancelled = False\<rparr>"

text \<open>A STOP is sent under an operation, its caller stops waiting and cancels it; the plugin still writes to its
  adapter for it.\<close>

definition ex_stop_attempt :: "(rpc_env \<times> rpc_input) list" where
  "ex_stop_attempt = [(ex_rpc_env 0, Register ''adapter.write'' 7 False), (ex_rpc_env 0, Start), (ex_rpc_env 0, NewOperation ex_operation),
     (ex_rpc_env 1, Request ''stop_stream'' VNone 10 (Some 0)), (ex_rpc_env 1, RequestTurn 0), (ex_rpc_env 1, RequestTurn 0),
     (ex_rpc_env 20, RequestTurn 0), (ex_rpc_env 20, CancelOperation 0)]"

definition ex_cancelled :: rpc_conn where
  "ex_cancelled = (new_rpc ''sensor'')\<lparr>rp_operations := [(VStr ''op1'', 0)], rp_objects := [ex_operation\<lparr>op_cancelled := True\<rparr>],
     rp_handlers := [(''adapter.write'', 7)], rp_worker := Idle, rp_reader := Reading, rp_next := 1\<rparr>"

definition ex_late_write :: "(rpc_env \<times> rpc_input) list" where
  "ex_late_write = [(ex_rpc_env 30, Line (Message (VDict [(''id'', VStr ''late''), (''method'', VStr ''adapter.write''), (''params'', VDict []),
       (''operation'', op_wire ex_operation)]))), (ex_rpc_env 31, ThreadTurn 1)]"

lemma ex_cancelled_reached: "fst (rpc_run ex_stop_attempt (new_rpc ''sensor'')) = ex_cancelled"
  by code_simp

theorem cancelled_operation_inert_witness:
  "snd (rpc_run ex_late_write ex_cancelled) = [Wrote (VDict [(''jsonrpc'', VStr ''2.0''), (''id'', VStr ''late''),
     (''error'', error_val (- 32000) ''Sensor operation expired or cancelled'')])] \<and>
   \<not> under (VStr ''op1'') (hd (snd (rpc_run ex_late_write ex_cancelled)))"
proof -
  let ?k = "VStr ''op1''"
  have run: "snd (rpc_run ex_late_write ex_cancelled) = [Wrote (VDict [(''jsonrpc'', VStr ''2.0''), (''id'', VStr ''late''),
     (''error'', error_val (- 32000) ''Sensor operation expired or cancelled'')])]" by code_simp
  have objects: "rp_objects ex_cancelled = [\<lparr>op_deadline = 100, op_id = ?k, op_cancelled = True\<rparr>]"
    "rp_operations ex_cancelled = [(?k, 0)]" "rp_waiters ex_cancelled = []" "rp_queue ex_cancelled = []" "rp_threads ex_cancelled = []"
    by (simp_all add: ex_cancelled_def new_rpc_def ex_operation_def)
  have s: "rp_objects ex_cancelled ! 0 = \<lparr>op_deadline = 100, op_id = ?k, op_cancelled = True\<rparr>"
    "map_of (rp_operations ex_cancelled) ?k = Some 0"
    "\<forall>q < length (rp_objects ex_cancelled). op_id (rp_objects ex_cancelled ! q) = ?k \<longrightarrow> q = 0"
    "table_ok ex_cancelled" "all_quote ?k 100 ex_cancelled"
    by (simp_all add: objects table_ok_def all_quote_def)
  have xs: "\<forall>(e, i) \<in> set ex_late_write. consistent ?k 100 i" "clocked 30 ex_late_write"
    by (simp_all add: ex_late_write_def quotes_def vget_VDict op_wire_def ex_operation_def timely_def ex_rpc_env_def)
  from cancelled_operation_inert [OF s xs prod.collapse [symmetric]] run show ?thesis by simp
qed

definition ex_notification :: "int \<Rightarrow> rpc_input" where
  "ex_notification n = Line (Message (VDict [(''method'', VStr ''adapter.notification''), (''params'', VDict [(''value'', VInt n)])]))"

definition ex_host :: rpc_conn where
  "ex_host = (new_rpc ''sensor-host'')\<lparr>rp_handlers := [(''adapter.notification'', 0)], rp_ordered := [''adapter.notification''],
     rp_worker := Idle, rp_reader := Reading\<rparr>"

definition ex_notifications :: "(rpc_env \<times> rpc_input) list" where
  "ex_notifications = map (Pair (ex_rpc_env 0)) [ex_notification 1, ex_notification 2, OrderedTurn, ex_notification 3, OrderedReturn (Inr VNone), OrderedTurn]"

theorem ordered_requests_in_order_witness:
  "calls [''adapter.notification''] (snd (rpc_run ex_notifications ex_host)) = [VDict [(''value'', VInt 1)], VDict [(''value'', VInt 2)]] \<and>
   calls [''adapter.notification''] (snd (rpc_run ex_notifications ex_host)) @ queued (fst (rpc_run ex_notifications ex_host)) =
     [VDict [(''value'', VInt 1)], VDict [(''value'', VInt 2)], VDict [(''value'', VInt 3)]]"
proof -
  let ?ms = "[''adapter.notification'']"
  have h: "orderly ?ms ex_host" "\<forall>(e, i) \<in> set ex_notifications. settled_input ?ms i"
    by (simp_all add: orderly_def ex_host_def new_rpc_def ex_notifications_def ex_notification_def vget_VDict)
  have all: "queued ex_host @ arrivals ?ms ex_notifications = [VDict [(''value'', VInt 1)], VDict [(''value'', VInt 2)], VDict [(''value'', VInt 3)]]"
    by code_simp
  have "calls ?ms (snd (rpc_run ex_notifications ex_host)) = [VDict [(''value'', VInt 1)], VDict [(''value'', VInt 2)]]" by code_simp
  with ordered_requests_in_order [OF h prod.collapse [symmetric]] all show ?thesis by simp
qed

text \<open>A line that is JSON but no object ends the reader, and with it the connection.\<close>

lemma scalar_line_closes:
  assumes "rp_reader s = Reading" and "read_line (Message (VInt n)) s = (t, es, x)"
  shows "rp_closed t \<and> rp_reader t = Stopped"
  using assms by (auto simp: read_line_def query_def catch_def raise_def stop_reading_def upd_def shut_def fail_pending_def Let_def)

text \<open>A request that found the connection open and registers after the close is not released: it waits for its timeout.\<close>

definition ex_overtaken :: "(rpc_env \<times> rpc_input) list" where
  "ex_overtaken = [(ex_rpc_env 0, Start), (ex_rpc_env 0, Request ''describe'' VNone 30000 None), (ex_rpc_env 0, EndOfInput),
     (ex_rpc_env 0, RequestTurn 0), (ex_rpc_env 0, RequestTurn 0), (ex_rpc_env 29999, RequestTurn 0)]"

theorem overtaken_request_waits:
  "rp_closed (fst (rpc_run ex_overtaken (new_rpc ''sensor''))) \<and>
   map_option wt_stage (map_of (rp_waiters (fst (rpc_run ex_overtaken (new_rpc ''sensor'')))) 0) = Some (Waiting 30000)"
  by code_simp

end
