(* ===== verification/Spec2Isabelle.thy ===== *)
theory Spec2Isabelle
  imports Gateway_Parser_Props Gateway_Client_Theorems Master_Theorems Subjects_Props Core_Archive Core_Commit Core_Acquisition Core_Configuration
    Compute_Props File_Props Sensor_Obligations Sensor_Routing_Props Plugin_Bridge Worker_Node Json_Rpc_Props
begin

text \<open>
  \<^bold>\<open>Nexus N3 Core\<close>: a verification of its acquisition system. The sources are Python files under
  \<^verbatim>\<open>src/nexus_n3\<close>; paths below are relative to it.

  \<^bold>\<open>The program.\<close> A node reads wearable sensors of several subjects, records their samples and runs
  algorithms on them. Clients send commands to the message handler of a node; the handler calls the
  core; the core owns the subjects, drives the sensor manager, the file manager and the compute manager
  and publishes events. Sensors may be reached over a serial gateway. Several nodes form a cluster: a
  coordinator places subjects on nodes, forwards commands to them and aggregates their answers. Connect
  All is a sequence of steps over all subjects, run by a core or by the coordinator.

  \<^bold>\<open>Theories and sources.\<close>
  \<^item> \<open>Nexus_Prelude\<close>: Python values, dictionaries as association lists, strings, results. \<open>Message_Types\<close>:
    the command and event names of \<^verbatim>\<open>gateway/messaging/message_types.py\<close>. \<open>Actions\<close>: methods of stateful
    objects as functions from the state to the new state, the effects in order and the exception; four
    calculi for them, \<open>ok\<close> (invariant and allowed effects), \<open>thrifty\<close> (effects paid by a credit), \<open>logs\<close>
    (what a method adds to an observed log) and \<open>related\<close> (a relation between the states and the effects,
    with the locale \<open>action_relation\<close> of the relations that compose).
  \<^item> \<open>Connection_Sequence\<close>, \<open>Connection_Sequence_Props\<close>: \<^verbatim>\<open>core/subject_connection_sequence.py\<close>. The object
    is the record \<open>conn_seq\<close>; each method is a function; emitted events, dispatched commands and timers
    are effects. Invariant over all runs, which exceptions can leave it, late events, completion.
  \<^item> \<open>Gateway_Parser\<close>, \<open>Gateway_Parser_Props\<close>: the byte stream of \<^verbatim>\<open>sensor_manager/adapters/gateway_ble_client.py\<close>
    (frames and JSON lines in one buffer, resynchronisation, the diagnostics of partial blocks). Delivery
    of well-formed streams after noise in any chunking, soundness of frames, bound on what is held back.
  \<^item> \<open>Gateway_Client\<close>, \<open>Gateway_Operations\<close>: the rest of that file: requests and their queues, the port
    with start, reset and recovery, the locks and owners, and the operations on devices. Other threads
    and the operating system are a schedule of events and outcomes in the record \<open>gworld\<close>.
    \<open>Gateway_Client_Props\<close> holds the calculus and the locales \<open>world_relation\<close>, \<open>elementary_steps\<close>,
    \<open>client_core\<close> and \<open>client_full\<close>: a relation kept by the elementary steps is kept by all operations. They
    are interpreted in \<open>Gateway_Client_Frames\<close> (acquisitions are not disturbed), \<open>Gateway_Client_Owners\<close>
    (ownership is released) and \<open>Gateway_Client_Theorems\<close> (transport kept, reset confirmed).
  \<^item> \<open>Node_Registry\<close>: \<^verbatim>\<open>distributed/registry.py\<close> and node capabilities. \<open>Master_Plan\<close>, \<open>Master_Node\<close>: the
    coordinator of \<^verbatim>\<open>distributed/master_node.py\<close>: placement of subjects, initialization, recovery, the
    official-start and drain barriers, routing of commands, messages of workers. \<open>Master_Props\<close>,
    \<open>Master_Theorems\<close>: invariants of all runs by a locale over the steps, and what each barrier delivers.
  \<^item> \<open>Subjects\<close>, \<open>Subjects_Props\<close>: \<^verbatim>\<open>core/subject.py\<close> and \<^verbatim>\<open>core/orchestrators/subject_graph.py\<close>: ingestion in
    blocks, validation and construction of subjects. The installed plugin classes are a parameter.
  \<^item> \<open>Startup_Gate\<close>: \<^verbatim>\<open>core/startup_gate.py\<close> and the stability criteria of the core: a stable sensor has lost
    nothing, a healthy sensor becomes stable.
  \<^item> \<open>Core_Stream\<close>, \<open>Core_Session\<close>: \<^verbatim>\<open>core/core.py\<close>. The object is the record \<open>core\<close>; methods are actions;
    calls to the managers, events and threads are effects. \<open>Core_Stream\<close> has start, gate, official start,
    routing of samples and results, archive; \<open>Core_Session\<close> has stop, configuration, recovery, discovery
    and connection; \<open>Core_Callbacks\<close> has the step of Connect All on one subject, the battery check and the
    callbacks of the managers. \<open>Message_Handler\<close>: \<^verbatim>\<open>gateway/messaging/message_handler.py\<close>, every command. \<open>Core_Run\<close>: a
    node with its threads, taking messages, callbacks, samples and thread steps in any order, and the
    locale \<open>run_relation\<close> (what steps relate, runs relate), interpreted in the next two theories.
  \<^item> \<open>Core_Commit\<close>: a coordinated stream is quiet before the commit. \<open>Core_Archive\<close>: a session is archived
    at most once. \<open>Core_Stop\<close>: how a stop ends. \<open>Core_Acquisition\<close>: nothing is lost between the first sample
    and the end of the stop; the recording refines a log per sensor. \<open>Core_Configuration\<close>: installation
    as a whole or not at all, completion of resets, and two behaviours that lose samples.
  \<^item> \<open>Algorithm_Host\<close>: \<^verbatim>\<open>plugins/runtime/algorithm_host.py\<close> and its client \<^verbatim>\<open>plugins/runtime/algorithm_runtime.py\<close>;
    an algorithm is the record \<open>plugin\<close> of its functions. \<open>Compute_Manager\<close>: \<^verbatim>\<open>compute_manager\<close> and the compute
    orchestrator of the core: the worker, the three stages of results, their buffers, sessions.
    \<open>Compute_Props\<close>: the worker keeps sensors apart, the window of the buffered results, and that a reset
    of the session ends the aggregation.
  \<^item> \<open>Session_Paths\<close>, \<open>File_Manager\<close>: \<^verbatim>\<open>file_manager/FileManager.py\<close> and \<^verbatim>\<open>file_manager/session_archive.py\<close>. Files are
    values on a disk of paths; the outcomes of the operating system are in the record \<open>fenv\<close>. \<open>File_Props\<close>: the
    recorded table is complete or a failure is reported, the archive holds every file, a finished session
    is not rewritten; \<open>Session_Paths\<close> shows that no output leaves the directory of its session.
  \<^item> \<open>Sensor_Services\<close>, \<open>Sensor_Manager\<close>: \<^verbatim>\<open>sensor_manager/SensorManager.py\<close>, its controller and services (discovery,
    connection, streaming, cleanup, reconciliation) and the lifecycle of a plugin sensor in
    \<^verbatim>\<open>plugins/runtime/sensor_runtime.py\<close>. Sensor objects are shared, so they live in a store by identity; the
    answers of adapters, gateways and plugin processes during a command are the record \<open>senv\<close>.
    \<open>Sensor_Props\<close> has the locales \<open>sensor_relation\<close> and \<open>sensor_use\<close> (a relation kept by the mild changes of a
    sensor is kept by every service), which sensors are used, and what a stop accounts for.
    \<open>Sensor_Obligations\<close> follows an owed STOP through any run.
  \<^item> \<open>Sensor_Routing\<close>, \<open>Sensor_Routing_Props\<close>: the routing of samples between plugins in the same class: the routing
    table, one job and one replaceable value per route, workers, quiescing and draining. Job counts, the
    latest value, silence after a stop, and an end of the wait for the routes.
  \<^item> \<open>Plugin_Bridge\<close>: \<^verbatim>\<open>plugins/runtime/sensor_host.py\<close> and its counterpart in \<^verbatim>\<open>plugins/runtime/sensor_runtime.py\<close>: lifecycle
    methods of a plugin, its adapter calls and subscriptions across the two processes. What a confirmed STOP
    stands for; a subscription is attempted once only.
  \<^item> \<open>Json_Rpc\<close>, \<open>Json_Rpc_Props\<close>: \<^verbatim>\<open>plugins/common/jsonrpc.py\<close> and \<^verbatim>\<open>plugins/common/operations.py\<close>, the connection under
    both processes of a plugin, with the steps of callers, reader and handler threads interleaved. Cancelled
    operations, the order of ordered requests, and the requests a close releases.
  \<^item> \<open>Worker_Node\<close>: \<^verbatim>\<open>distributed/worker_node.py\<close> around the message handler, and \<^verbatim>\<open>gateway/event_bus/system_event_bus.py\<close>. The
    core survives every reconnection, on one socket.

  \<^bold>\<open>How the parts compose.\<close> The coordinator's model calls the connection sequence's (\<open>conn_call\<close>) and the
  registry's; the core calls the subjects' and the gate's; the handler calls the core's; a node run is
  handler, core, subjects and gate together. The effects of the core on the compute manager, the file
  manager and the sensor manager are the operations that the theories of those managers model. The effect \<open>CConnectionSequence\<close> of the core and the
  coordinator's deliveries are where the sequences and the nodes meet.

  \<^bold>\<open>Bounds.\<close> Integers are Python's, so unbounded; bytes of the gateway are words. Two loops need a bound or
  may not end: the block loop of the ingestion is a \<open>partial_function\<close> in the option monad, with a proof
  that it returns for block sizes of at least one and one that it does not below; the waiting loop of
  the gateway client has fuel for the messages and turns that can still arrive, with a proof that any
  greater bound gives the same result. Files, queues and
  results are lists without a bound, except the buffers the code bounds. All other functions are total by
  their structure. Floats of the
  gate are rational numbers.

  \<^bold>\<open>Concurrency.\<close> Code under one lock is one step. A thread of the core is the effect \<open>CSpawn\<close> and runs in
  steps, one per locked region; the stop is split at its wait. Inside the gateway client the
  interference of other threads is part of the schedule.

  \<^bold>\<open>Not modelled.\<close> Sockets, HTTP, mDNS, Bluetooth and Wi-Fi drivers behind the adapters, the Azure
  bridge, the administration pages, robots, the offload of data files, the node for remote
  computation and the server's process wiring are input and output; their calls are effects where the modelled
  code uses them. Algorithms and sensor plugins are third-party code and parameters, as are the adapters
  of the sensor manager. Of the sensor manager, the log of sample rates, the polling fallback (every sensor is
  a plugin with its own stream) and the end of the process are left out. Timing measurements and log
  texts are left out everywhere.
\<close>

end
